(* ===== verification/Prelude.thy ===== *)
theory Prelude
  imports Main "HOL-Library.Word" "HOL-Library.Monad_Syntax" "HOL-Library.Multiset"
begin

text \<open>
  Shared vocabulary of the development: the fixed-width integers of \<^verbatim>\<open>GameServer/pch.h\<close>
  (\<^verbatim>\<open>uint8\<close> .. \<^verbatim>\<open>uint64\<close> as words, \<^verbatim>\<open>short\<close> as an integer with the
  conversion \<open>short_of\<close> written out), \<open>ASSERT_CRASH\<close> as a value of the option type
  (\<open>None\<close> is the crashed process), and the generic lemmas on lists, maps and words that the
  component theories use.  Two collections of theorems are kept: \<open>unat_simps\<close> moves word
  comparisons and differences to natural numbers, \<open>crash_simps\<close> removes the option monad from
  the definitions that may crash.
\<close>

named_theorems unat_simps \<open>word comparisons and sums as facts on natural numbers\<close>
named_theorems crash_simps \<open>unfolding of the option monad in operations that may crash\<close>

type_synonym uint8 = "8 word"
type_synonym uint16 = "16 word"
type_synonym uint32 = "32 word"
type_synonym uint64 = "64 word"

text \<open>A value of C++ type \<^verbatim>\<open>short\<close> or \<^verbatim>\<open>int\<close>.  Arithmetic on a \<^verbatim>\<open>short\<close> is done
  on \<^verbatim>\<open>int\<close>; what is stored back is converted by \<open>short_of\<close>.\<close>

type_synonym short = int

definition short_of :: "int \<Rightarrow> short" where
  "short_of i = (i + 32768) mod 65536 - 32768"

text \<open>\<^verbatim>\<open>ASSERT_CRASH(expr)\<close>: a failed assertion writes through a null pointer and the
  process is gone.\<close>

definition ASSERT_CRASH :: "bool \<Rightarrow> unit option" where
  "ASSERT_CRASH b = (if b then Some () else None)"

subsection \<open>The conversion to short\<close>

lemma short_of_id [simp]: "-32768 \<le> i \<Longrightarrow> i < 32768 \<Longrightarrow> short_of i = i"
  by (simp add: short_of_def)

lemma short_of_bounds: "-32768 \<le> short_of i \<and> short_of i < 32768"
proof -
  have "0 \<le> (i + 32768) mod 65536" and "(i + 32768) mod 65536 < 65536"
    by simp_all
  then show ?thesis
    by (simp add: short_of_def)
qed

subsection \<open>The crash monad\<close>

lemma ASSERT_CRASH_True [simp]: "ASSERT_CRASH True = Some ()"
  by (simp add: ASSERT_CRASH_def)

lemma ASSERT_CRASH_Some_iff [crash_simps]: "ASSERT_CRASH b = Some u \<longleftrightarrow> b"
  by (simp add: ASSERT_CRASH_def)

lemma bind_ASSERT_CRASH [crash_simps]:
  "(ASSERT_CRASH b \<bind> f) = (if b then f () else None)"
  by (simp add: ASSERT_CRASH_def)

lemma bind_eq_SomeD: "m \<bind> f = Some y \<Longrightarrow> \<exists>x. m = Some x \<and> f x = Some y"
  by (cases m) auto

subsection \<open>Words as natural numbers\<close>

lemma unat_less_iff [unat_simps]: "(a :: 'a::len word) < b \<longleftrightarrow> unat a < unat b"
  by (rule word_less_nat_alt)

lemma unat_le_iff [unat_simps]: "(a :: 'a::len word) \<le> b \<longleftrightarrow> unat a \<le> unat b"
  by (rule word_le_nat_alt)

lemma unat_diff [unat_simps]: "(b :: 'a::len word) \<le> a \<Longrightarrow> unat (a - b) = unat a - unat b"
  by (rule unat_sub)

lemma unat_min [unat_simps]: "unat (min (a :: 'a::len word) b) = min (unat a) (unat b)"
  by (simp add: min_def word_le_nat_alt)

lemma unat_add_noof: "unat a + unat b < 2 ^ LENGTH('a) \<Longrightarrow> unat ((a :: 'a::len word) + b) = unat a + unat b"
  by (simp add: unat_word_ariths)

lemma unat_of_nat_noof: "n < 2 ^ LENGTH('a) \<Longrightarrow> unat (of_nat n :: 'a::len word) = n"
  by (simp add: unat_of_nat)

lemma unat16_bound: "unat (w :: uint16) < 65536"
  using unsigned_less [of w, where ?'a = nat] by simp

lemma unat8_bound: "unat (w :: uint8) < 256"
  using unsigned_less [of w, where ?'a = nat] by simp

lemma unat_ucast_fits: "unat w < 2 ^ LENGTH('b) \<Longrightarrow> unat (ucast (w :: 'a::len word) :: 'b::len word) = unat w"
  by (simp add: unsigned_ucast_eq take_bit_nat_eq_self)

lemma unat_ucast16_32: "unat (ucast (w :: uint16) :: uint32) = unat w"
  using unat16_bound [of w] by (simp add: unat_ucast_fits)

lemma word_gt_0_iff_unat: "0 < (a :: 'a::len word) \<longleftrightarrow> 0 < unat a"
  by (simp add: word_less_nat_alt)

subsection \<open>Sums over finite maps and lists\<close>

lemma sum_list_map_distinct: "distinct xs \<Longrightarrow> sum_list (map f xs) = sum f (set xs)"
  by (simp add: sum_list_distinct_conv_sum_set)

lemma finite_subset_of_list: "A \<subseteq> set xs \<Longrightarrow> finite A"
  by (meson List.finite_set finite_subset)

lemma find_distinct_key:
  "distinct (map f xs) \<Longrightarrow> x \<in> set xs \<Longrightarrow> find (\<lambda>y. f y = f x) xs = Some x"
proof (induction xs)
  case (Cons a xs)
  then show ?case
    by (cases "f a = f x") (auto simp: image_iff)
qed simp

end
