(* ===== verification/ObjIds.thy ===== *)
theory ObjIds
  imports Prelude
begin

unbundle bit_operations_syntax

text \<open>
  Object identifiers: \<^verbatim>\<open>ObjID/ContentiD.h\<close>, \<^verbatim>\<open>ObjID/ObjID.h\<close>, \<^verbatim>\<open>EnumCategory.h\<close>
  and the id ranges of \<^verbatim>\<open>Protocol.h\<close>.  A \<^verbatim>\<open>ContentID\<close> is a union of one 64-bit
  integer and the three fields category (16 bit), kind (16 bit) and serial (32 bit); on the
  little-endian target the category is the low half-word.  An \<^verbatim>\<open>ObjID\<close> adds a 64-bit
  database id and is ordered lexicographically, which instantiates \<open>linorder\<close>.
\<close>

datatype EnumCategory =
  eNone | eAccount | eUser | eMonster | eStat | eUserLv | eHp | eExp | eItem

fun cat_val :: "EnumCategory \<Rightarrow> uint16" where
  "cat_val eNone = 0"
| "cat_val eAccount = 1"
| "cat_val eUser = 2"
| "cat_val eMonster = 3"
| "cat_val eStat = 4"
| "cat_val eUserLv = 5"
| "cat_val eHp = 6"
| "cat_val eExp = 7"
| "cat_val eItem = 8"

type_synonym ContentID = uint64

definition content_GetCategory :: "ContentID \<Rightarrow> uint16" where
  "content_GetCategory c = ucast c"

definition content_GetKIND :: "ContentID \<Rightarrow> uint16" where
  "content_GetKIND c = ucast (drop_bit 16 c)"

definition content_GetSerial :: "ContentID \<Rightarrow> uint32" where
  "content_GetSerial c = ucast (drop_bit 32 c)"

definition content_SetCategory :: "uint16 \<Rightarrow> ContentID \<Rightarrow> ContentID" where
  "content_SetCategory v c = (c AND NOT (mask 16)) OR ucast v"

definition content_SetKIND :: "uint16 \<Rightarrow> ContentID \<Rightarrow> ContentID" where
  "content_SetKIND v c = (c AND NOT (push_bit 16 (mask 16))) OR push_bit 16 (ucast v)"

definition content_SetSerial :: "uint32 \<Rightarrow> ContentID \<Rightarrow> ContentID" where
  "content_SetSerial v c = (c AND NOT (push_bit 32 (mask 32))) OR push_bit 32 (ucast v)"

definition content_SetContentID :: "uint16 \<Rightarrow> uint16 \<Rightarrow> uint32 \<Rightarrow> ContentID \<Rightarrow> ContentID" where
  "content_SetContentID cat kind serial c =
     content_SetSerial serial (content_SetKIND kind (content_SetCategory cat c))"

datatype ObjID = ObjID (m_ContentID: uint64) (m_DatabaseID: uint64)

definition npos :: ObjID where
  "npos = ObjID 0 0"

definition mkObjID :: "EnumCategory \<Rightarrow> uint64 \<Rightarrow> ObjID" where
  "mkObjID cat db = ObjID (content_SetCategory (cat_val cat) (m_ContentID npos)) db"

definition GetCategory :: "ObjID \<Rightarrow> uint16" where
  "GetCategory o1 = content_GetCategory (m_ContentID o1)"

definition hasCategory :: "EnumCategory \<Rightarrow> ObjID \<Rightarrow> bool" where
  "hasCategory cat o1 \<longleftrightarrow> GetCategory o1 = cat_val cat"

definition objid_less :: "ObjID \<Rightarrow> ObjID \<Rightarrow> bool" where
  "objid_less o1 o2 \<longleftrightarrow>
     (if m_ContentID o1 \<noteq> m_ContentID o2 then m_ContentID o1 < m_ContentID o2
      else m_DatabaseID o1 < m_DatabaseID o2)"

instantiation ObjID :: linorder
begin

definition less_ObjID :: "ObjID \<Rightarrow> ObjID \<Rightarrow> bool" where
  "less_ObjID = objid_less"

definition less_eq_ObjID :: "ObjID \<Rightarrow> ObjID \<Rightarrow> bool" where
  "less_eq_ObjID a b \<longleftrightarrow> a = b \<or> objid_less a b"

instance
proof
  fix x y z :: ObjID
  show "(x < y) = (x \<le> y \<and> \<not> y \<le> x)"
    by (cases x; cases y) (auto simp: less_ObjID_def less_eq_ObjID_def objid_less_def)
  show "x \<le> x"
    by (simp add: less_eq_ObjID_def)
  show "x \<le> y \<Longrightarrow> y \<le> z \<Longrightarrow> x \<le> z"
    by (cases x; cases y; cases z)
      (auto simp: less_eq_ObjID_def objid_less_def split: if_splits)
  show "x \<le> y \<Longrightarrow> y \<le> x \<Longrightarrow> x = y"
    by (cases x; cases y) (auto simp: less_eq_ObjID_def objid_less_def split: if_splits)
  show "x \<le> y \<or> y \<le> x"
    by (cases x; cases y) (auto simp: less_eq_ObjID_def objid_less_def)
qed

end

subsection \<open>The id ranges of Protocol.h\<close>

definition PLAYER_ID_START :: uint32 where "PLAYER_ID_START = 1"
definition MONSTER_ID_START :: uint32 where "MONSTER_ID_START = 1000000000"
definition MAX_MONSTER :: int where "MAX_MONSTER = 200000"

definition AGGRO_MONSTER_BOUNDARY :: uint32 where
  "AGGRO_MONSTER_BOUNDARY = MONSTER_ID_START + word_of_int (MAX_MONSTER div 4) - 1"

definition IsPlayerObjectId :: "uint32 \<Rightarrow> bool" where
  "IsPlayerObjectId i \<longleftrightarrow> PLAYER_ID_START \<le> i \<and> i < MONSTER_ID_START"

definition IsMonsterObjectId :: "uint32 \<Rightarrow> bool" where
  "IsMonsterObjectId i \<longleftrightarrow> MONSTER_ID_START \<le> i"

subsection \<open>Facts\<close>

lemma cat_val_inj: "cat_val a = cat_val b \<longleftrightarrow> a = b"
  by (cases a; cases b) simp_all

lemma content_SetCategory_0: "content_SetCategory v 0 = ucast v"
  by (simp add: content_SetCategory_def)

lemma GetCategory_mkObjID [simp]: "GetCategory (mkObjID cat db) = cat_val cat"
  by (cases cat) (simp_all add: GetCategory_def mkObjID_def npos_def content_SetCategory_0
      content_GetCategory_def)

lemma m_DatabaseID_mkObjID [simp]: "m_DatabaseID (mkObjID cat db) = db"
  by (simp add: mkObjID_def)

lemma hasCategory_mkObjID [simp]: "hasCategory cat (mkObjID cat' db) \<longleftrightarrow> cat = cat'"
  by (auto simp: hasCategory_def cat_val_inj)

lemma mkObjID_inj [simp]: "mkObjID c d = mkObjID c' d' \<longleftrightarrow> c = c' \<and> d = d'"
  by (metis GetCategory_mkObjID cat_val_inj m_DatabaseID_mkObjID)

lemma hasCategory_unique: "hasCategory a o1 \<Longrightarrow> hasCategory b o1 \<Longrightarrow> a = b"
  by (simp add: hasCategory_def cat_val_inj)

lemma mkObjID_not_npos [simp]: "cat \<noteq> eNone \<Longrightarrow> mkObjID cat db \<noteq> npos"
  by (cases cat) (simp_all add: mkObjID_def npos_def content_SetCategory_0)

lemma content_fields_setters:
  "content_GetCategory (content_SetCategory cat c) = cat"
  "content_GetKIND (content_SetCategory cat c) = content_GetKIND c"
  "content_GetSerial (content_SetCategory cat c) = content_GetSerial c"
  "content_GetCategory (content_SetKIND kind c) = content_GetCategory c"
  "content_GetKIND (content_SetKIND kind c) = kind"
  "content_GetSerial (content_SetKIND kind c) = content_GetSerial c"
  "content_GetCategory (content_SetSerial serial c) = content_GetCategory c"
  "content_GetKIND (content_SetSerial serial c) = content_GetKIND c"
  "content_GetSerial (content_SetSerial serial c) = serial"
  by (rule bit_word_eqI;
      auto simp: content_GetCategory_def content_GetKIND_def content_GetSerial_def
        content_SetCategory_def content_SetKIND_def content_SetSerial_def
        bit_simps dest: bit_imp_le_length)+

end
