(* ===== verification/Items.thy ===== *)
theory Items
  imports ObjIds
begin

text \<open>
  The item data: \<^verbatim>\<open>Item/ItemTableRow.h\<close>, \<^verbatim>\<open>Item/ItemTable.cpp\<close>, \<^verbatim>\<open>Item/DropTable.cpp\<close>,
  \<^verbatim>\<open>Item/Item.h\<close>, \<^verbatim>\<open>Item/EquipmentItem.h\<close>, \<^verbatim>\<open>Item/ConsumableItem.h\<close> and the factory of
  \<^verbatim>\<open>Item/Item.cpp\<close>.  The random draws of \<open>Roll\<close> are arguments: the index returned by the
  discrete distribution over \<open>BuildWeights\<close> and the count returned by the uniform one.
\<close>

datatype ItemType = eConsumable | eEquipment | eMaterial | eEtc

datatype ItemGrade = Grade_eNone | Grade_eRare | Grade_eEpic | Grade_eUnique | Grade_eLegendary

type_synonym ItemTableId = uint16

definition ITEM_TABLE_ID_NONE :: ItemTableId where "ITEM_TABLE_ID_NONE = 0"

record ItemTableRow =
  row_id :: ItemTableId
  row_type :: ItemType
  row_maxStack :: uint16
  row_name :: string
  row_grade :: ItemGrade
  row_attackBonus :: uint16
  row_healAmount :: uint16

definition kRows :: "ItemTableRow list" where
  "kRows =
    [\<lparr>row_id = 1, row_type = eConsumable, row_maxStack = 99, row_name = ''Health Potion'',
      row_grade = Grade_eNone, row_attackBonus = 0, row_healAmount = 30\<rparr>,
     \<lparr>row_id = 2, row_type = eEquipment, row_maxStack = 1, row_name = ''Wooden Sword'',
      row_grade = Grade_eNone, row_attackBonus = 3, row_healAmount = 0\<rparr>,
     \<lparr>row_id = 3, row_type = eEquipment, row_maxStack = 1, row_name = ''Iron Sword'',
      row_grade = Grade_eRare, row_attackBonus = 6, row_healAmount = 0\<rparr>,
     \<lparr>row_id = 4, row_type = eEquipment, row_maxStack = 1, row_name = ''Steel Sword'',
      row_grade = Grade_eEpic, row_attackBonus = 12, row_healAmount = 0\<rparr>,
     \<lparr>row_id = 5, row_type = eEquipment, row_maxStack = 1, row_name = ''Flame Sword'',
      row_grade = Grade_eUnique, row_attackBonus = 22, row_healAmount = 0\<rparr>,
     \<lparr>row_id = 6, row_type = eEquipment, row_maxStack = 1, row_name = ''Dragon Slayer'',
      row_grade = Grade_eLegendary, row_attackBonus = 40, row_healAmount = 0\<rparr>]"

fun IsItemTableValid :: "ItemTableRow list \<Rightarrow> bool" where
  "IsItemTableValid [] = True"
| "IsItemTableValid (r # rs) =
     (if row_id r = ITEM_TABLE_ID_NONE then False
      else if list_ex (\<lambda>r'. row_id r = row_id r') rs then False
      else IsItemTableValid rs)"

fun Find_in :: "ItemTableRow list \<Rightarrow> ItemTableId \<Rightarrow> ItemTableRow option" where
  "Find_in [] i = None"
| "Find_in (row # rows) i = (if row_id row = i then Some row else Find_in rows i)"

definition ItemTable_Find :: "ItemTableId \<Rightarrow> ItemTableRow option" where
  "ItemTable_Find i = Find_in kRows i"

subsection \<open>Item instances\<close>

text \<open>The two concrete classes: an \<^verbatim>\<open>EquipmentItem\<close> carries the equipped flag.\<close>

datatype ItemClass = EquipmentItem (m_equipped: bool) | ConsumableItem

record Item =
  item_class :: ItemClass
  m_itemTableId :: ItemTableId
  m_count :: uint16
  m_lootPriorityOwner :: ObjID
  m_OwnerID :: ObjID
  m_Name :: string

definition IsOnGround :: "Item \<Rightarrow> bool" where
  "IsOnGround it \<longleftrightarrow> m_OwnerID it = npos"

definition AddCount :: "uint16 \<Rightarrow> Item \<Rightarrow> Item" where
  "AddCount amount it = it\<lparr>m_count := m_count it + amount\<rparr>"

definition RemoveCount :: "uint16 \<Rightarrow> Item \<Rightarrow> Item" where
  "RemoveCount amount it =
     it\<lparr>m_count := (if amount \<ge> m_count it then 0 else m_count it - amount)\<rparr>"

text \<open>\<^verbatim>\<open>dynamic_pointer_cast<EquipmentItem>\<close> succeeds, and the flag is set.\<close>

definition isEquipment :: "Item \<Rightarrow> bool" where
  "isEquipment it \<longleftrightarrow> (case item_class it of EquipmentItem _ \<Rightarrow> True | ConsumableItem \<Rightarrow> False)"

definition IsEquipped :: "Item \<Rightarrow> bool" where
  "IsEquipped it \<longleftrightarrow> (case item_class it of EquipmentItem e \<Rightarrow> e | ConsumableItem \<Rightarrow> False)"

definition setEquipped :: "bool \<Rightarrow> Item \<Rightarrow> Item" where
  "setEquipped b it =
     (case item_class it of
        EquipmentItem _ \<Rightarrow> it\<lparr>item_class := EquipmentItem b\<rparr>
      | ConsumableItem \<Rightarrow> it)"

definition MakeNewItem :: "ItemTableId \<Rightarrow> uint16 \<Rightarrow> Item option" where
  "MakeNewItem itemId cnt =
     (case ItemTable_Find itemId of
        None \<Rightarrow> None
      | Some row \<Rightarrow>
          Some \<lparr>item_class = (if row_type row = eEquipment then EquipmentItem False
                              else ConsumableItem),
                m_itemTableId = itemId, m_count = cnt, m_lootPriorityOwner = npos,
                m_OwnerID = npos, m_Name = row_name row\<rparr>)"

subsection \<open>The drop table\<close>

record DropTableEntry =
  drop_id :: ItemTableId
  drop_type :: ItemType
  drop_grade :: ItemGrade
  drop_weight :: uint32
  drop_minCount :: uint16
  drop_maxCount :: uint16

definition kNoDropWeight :: uint32 where "kNoDropWeight = 700"

definition kEntries :: "DropTableEntry list" where
  "kEntries =
    [\<lparr>drop_id = 1, drop_type = eConsumable, drop_grade = Grade_eNone, drop_weight = 150,
      drop_minCount = 1, drop_maxCount = 3\<rparr>,
     \<lparr>drop_id = 2, drop_type = eEquipment, drop_grade = Grade_eNone, drop_weight = 80,
      drop_minCount = 1, drop_maxCount = 1\<rparr>,
     \<lparr>drop_id = 3, drop_type = eEquipment, drop_grade = Grade_eRare, drop_weight = 50,
      drop_minCount = 1, drop_maxCount = 1\<rparr>,
     \<lparr>drop_id = 4, drop_type = eEquipment, drop_grade = Grade_eEpic, drop_weight = 15,
      drop_minCount = 1, drop_maxCount = 1\<rparr>,
     \<lparr>drop_id = 5, drop_type = eEquipment, drop_grade = Grade_eUnique, drop_weight = 4,
      drop_minCount = 1, drop_maxCount = 1\<rparr>,
     \<lparr>drop_id = 6, drop_type = eEquipment, drop_grade = Grade_eLegendary, drop_weight = 1,
      drop_minCount = 1, drop_maxCount = 1\<rparr>]"

fun ValidateEntries :: "DropTableEntry list \<Rightarrow> bool option" where
  "ValidateEntries [] = Some True"
| "ValidateEntries (entry # es) =
     (case ItemTable_Find (drop_id entry) of
        None \<Rightarrow> None
      | Some row \<Rightarrow> do {
          _ \<leftarrow> ASSERT_CRASH (row_type row = drop_type entry);
          _ \<leftarrow> ASSERT_CRASH (row_grade row = drop_grade entry);
          _ \<leftarrow> ASSERT_CRASH (drop_minCount entry \<ge> 1 \<and> drop_minCount entry \<le> drop_maxCount entry);
          _ \<leftarrow> ASSERT_CRASH (drop_maxCount entry \<le> row_maxStack row);
          ValidateEntries es })"

definition ValidateDropTable :: "bool option" where
  "ValidateDropTable = ValidateEntries kEntries"

definition BuildWeights :: "nat list" where
  "BuildWeights = unat kNoDropWeight # map (\<lambda>e. unat (drop_weight e)) kEntries"

record RollResult =
  hasItem :: bool
  roll_itemId :: ItemTableId
  roll_count :: uint16

definition Roll :: "nat \<Rightarrow> (uint16 \<Rightarrow> uint16 \<Rightarrow> uint16) \<Rightarrow> RollResult" where
  "Roll index countRoll =
     (if index = 0 then \<lparr>hasItem = False, roll_itemId = ITEM_TABLE_ID_NONE, roll_count = 0\<rparr>
      else let entry = kEntries ! (index - 1)
           in \<lparr>hasItem = True, roll_itemId = drop_id entry,
               roll_count = countRoll (drop_minCount entry) (drop_maxCount entry)\<rparr>)"

text \<open>What the two distributions promise: an index with a weight, a count between the bounds.\<close>

definition draws_ok :: "nat \<Rightarrow> (uint16 \<Rightarrow> uint16 \<Rightarrow> uint16) \<Rightarrow> bool" where
  "draws_ok index countRoll \<longleftrightarrow> index < length BuildWeights \<and>
     (\<forall>lo hi. lo \<le> hi \<longrightarrow> lo \<le> countRoll lo hi \<and> countRoll lo hi \<le> hi)"

subsection \<open>Facts on the tables\<close>

lemma Find_in_Some: "Find_in rows i = Some row \<Longrightarrow> row \<in> set rows \<and> row_id row = i"
  by (induction rows) (auto split: if_splits)

lemma Find_in_valid:
  "IsItemTableValid rows \<Longrightarrow> Find_in rows i = Some row \<longleftrightarrow> row \<in> set rows \<and> row_id row = i"
  by (induction rows) (auto split: if_splits simp: list_ex_iff dest: Find_in_Some)

lemma kRows_valid: "IsItemTableValid kRows"
  by (simp add: kRows_def ITEM_TABLE_ID_NONE_def)

lemma ItemTable_Find_iff: "ItemTable_Find i = Some row \<longleftrightarrow> row \<in> set kRows \<and> row_id row = i"
  by (simp add: ItemTable_Find_def Find_in_valid kRows_valid)

lemma ItemTable_Find_None_id: "ItemTable_Find ITEM_TABLE_ID_NONE = None"
  by (simp add: ItemTable_Find_def kRows_def ITEM_TABLE_ID_NONE_def)

lemma ItemTable_Find_row_id: "ItemTable_Find i = Some row \<Longrightarrow> row_id row = i"
  by (simp add: ItemTable_Find_iff)

lemma kRows_stack: "row \<in> set kRows \<Longrightarrow> 1 \<le> unat (row_maxStack row) \<and> unat (row_maxStack row) \<le> 99"
  by (auto simp: kRows_def)

lemma kRows_equipment:
  "row \<in> set kRows \<Longrightarrow> row_type row = eEquipment \<longleftrightarrow> row_maxStack row = 1"
  by (auto simp: kRows_def)

lemma kRows_bonus: "row \<in> set kRows \<Longrightarrow> unat (row_attackBonus row) \<le> 40"
  by (auto simp: kRows_def)

lemma ItemTable_Find_stack:
  "ItemTable_Find i = Some row \<Longrightarrow> 1 \<le> unat (row_maxStack row) \<and> unat (row_maxStack row) \<le> 99"
  using kRows_stack by (metis ItemTable_Find_iff)

lemma MakeNewItem_None_iff: "MakeNewItem i c = None \<longleftrightarrow> ItemTable_Find i = None"
  by (simp add: MakeNewItem_def split: option.splits)

lemma MakeNewItem_Some:
  assumes "MakeNewItem i c = Some it"
  shows "m_itemTableId it = i" "m_count it = c" "\<not> IsEquipped it" "IsOnGround it"
    "m_OwnerID it = npos" "m_lootPriorityOwner it = npos"
    "\<exists>row. ItemTable_Find i = Some row \<and> (isEquipment it \<longleftrightarrow> row_type row = eEquipment)
        \<and> m_Name it = row_name row"
  using assms
  by (auto simp: MakeNewItem_def IsEquipped_def isEquipment_def IsOnGround_def
      split: option.splits if_splits)

lemma item_update_simps [simp]:
  "m_count (AddCount a it) = m_count it + a"
  "item_class (AddCount a it) = item_class it" "item_class (RemoveCount a it) = item_class it"
  "m_itemTableId (AddCount a it) = m_itemTableId it"
  "m_itemTableId (RemoveCount a it) = m_itemTableId it"
  "m_itemTableId (setEquipped b it) = m_itemTableId it"
  "m_count (setEquipped b it) = m_count it"
  "m_OwnerID (AddCount a it) = m_OwnerID it" "m_OwnerID (RemoveCount a it) = m_OwnerID it"
  "m_OwnerID (setEquipped b it) = m_OwnerID it"
  "m_Name (AddCount a it) = m_Name it" "m_Name (RemoveCount a it) = m_Name it"
  "m_Name (setEquipped b it) = m_Name it"
  "m_lootPriorityOwner (AddCount a it) = m_lootPriorityOwner it"
  "m_lootPriorityOwner (RemoveCount a it) = m_lootPriorityOwner it"
  "m_lootPriorityOwner (setEquipped b it) = m_lootPriorityOwner it"
  by (auto simp: AddCount_def RemoveCount_def setEquipped_def split: ItemClass.splits)

lemma isEquipment_simps [simp]:
  "isEquipment (AddCount a it) = isEquipment it" "isEquipment (RemoveCount a it) = isEquipment it"
  "isEquipment (setEquipped b it) = isEquipment it"
  "IsEquipped (AddCount a it) = IsEquipped it" "IsEquipped (RemoveCount a it) = IsEquipped it"
  "IsEquipped (setEquipped b it) \<longleftrightarrow> isEquipment it \<and> b"
  "isEquipment (it\<lparr>m_OwnerID := o1\<rparr>) = isEquipment it"
  "IsEquipped (it\<lparr>m_OwnerID := o1\<rparr>) = IsEquipped it"
  by (auto simp: isEquipment_def IsEquipped_def setEquipped_def split: ItemClass.splits)

lemma IsEquipped_isEquipment: "IsEquipped it \<Longrightarrow> isEquipment it"
  by (auto simp: isEquipment_def IsEquipped_def split: ItemClass.splits)

lemma unat_RemoveCount: "unat (m_count (RemoveCount a it)) = unat (m_count it) - unat a"
  by (simp add: RemoveCount_def word_le_nat_alt unat_sub)

lemma BuildWeights_eq: "BuildWeights = [700, 150, 80, 50, 15, 4, 1]"
  by (simp add: BuildWeights_def kNoDropWeight_def kEntries_def)

lemma ValidateDropTable_True: "ValidateDropTable = Some True"
  by (simp add: ValidateDropTable_def kEntries_def ItemTable_Find_def kRows_def crash_simps)

lemma ValidateEntries_Some:
  "ValidateEntries es = Some b \<Longrightarrow> e \<in> set es \<Longrightarrow>
   \<exists>row. ItemTable_Find (drop_id e) = Some row \<and> 1 \<le> drop_minCount e
     \<and> drop_minCount e \<le> drop_maxCount e \<and> drop_maxCount e \<le> row_maxStack row"
  by (induction es) (auto simp: crash_simps split: option.splits if_splits)

text \<open>The validation that runs before \<open>main\<close> makes every roll a legal stack.\<close>

lemma Roll_valid:
  assumes "draws_ok index countRoll" and "hasItem (Roll index countRoll)"
  shows "\<exists>row. ItemTable_Find (roll_itemId (Roll index countRoll)) = Some row
      \<and> 1 \<le> roll_count (Roll index countRoll)
      \<and> roll_count (Roll index countRoll) \<le> row_maxStack row"
proof -
  let ?e = "kEntries ! (index - 1)"
  have i: "index \<noteq> 0"
    using assms(2) by (auto simp: Roll_def split: if_splits)
  then have "?e \<in> set kEntries"
    using assms(1) by (intro nth_mem) (auto simp: draws_ok_def BuildWeights_def)
  from ValidateEntries_Some [OF ValidateDropTable_True [unfolded ValidateDropTable_def] this]
  obtain row where r: "ItemTable_Find (drop_id ?e) = Some row" "1 \<le> drop_minCount ?e"
    "drop_minCount ?e \<le> drop_maxCount ?e" "drop_maxCount ?e \<le> row_maxStack row"
    by blast
  have "drop_minCount ?e \<le> countRoll (drop_minCount ?e) (drop_maxCount ?e)"
    "countRoll (drop_minCount ?e) (drop_maxCount ?e) \<le> drop_maxCount ?e"
    using assms(1) r(3) by (simp_all add: draws_ok_def)
  with r i show ?thesis
    by (auto simp: Roll_def Let_def)
qed

end
