(* ===== verification/DbTypes.thy ===== *)
theory DbTypes
  imports Items
begin

text \<open>
  The data exchanged between the game logic and the database threads: the row and request
  structures of \<^verbatim>\<open>GameServer/pch.h\<close>.  A request is what one call of a \<open>DBThread::Request...\<close>
  method carries; \<open>DbThreads\<close> gives them wake-up times and sequence numbers.
\<close>

record DB_USER_INFO =
  ui_playerId :: int
  ui_name :: string
  ui_password :: string
  ui_x :: int
  ui_y :: int
  ui_level :: uint8
  ui_exp :: uint32

record DB_ITEM_INFO =
  ii_slotIndex :: uint16
  ii_itemId :: uint16
  ii_count :: uint16
  ii_equipped :: bool

record DB_ITEM_SLOT_SAVE =
  ss_slotIndex :: uint16
  ss_hasItem :: bool
  ss_itemId :: uint16
  ss_count :: uint16
  ss_equipped :: bool

datatype DbRequest =
    DbLogin (req_session: nat) (req_name: string) (req_password: string)
  | DbSaveUser ObjID string short short uint8 uint32
  | DbSaveItem int uint16 uint16 uint16 bool
  | DbDeleteItem int uint16
  | DbSaveTwo int DB_ITEM_SLOT_SAVE DB_ITEM_SLOT_SAVE

text \<open>The player whose inventory rows a request touches, if it is an inventory request.\<close>

fun request_player :: "DbRequest \<Rightarrow> int option" where
  "request_player (DbSaveItem p _ _ _ _) = Some p"
| "request_player (DbDeleteItem p _) = Some p"
| "request_player (DbSaveTwo p _ _) = Some p"
| "request_player _ = None"

subsection \<open>The abstract slot table\<close>

text \<open>What one player's requests mean: a table from slot indices to item, count and flag, and the
  effect of replaying requests on it in order.\<close>

type_synonym SlotTable = "uint16 \<rightharpoonup> uint16 \<times> uint16 \<times> bool"

definition put_slot :: "DB_ITEM_SLOT_SAVE \<Rightarrow> SlotTable \<Rightarrow> SlotTable" where
  "put_slot s T = T(ss_slotIndex s :=
     (if ss_hasItem s then Some (ss_itemId s, ss_count s, ss_equipped s) else None))"

fun replay1 :: "SlotTable \<Rightarrow> DbRequest \<Rightarrow> SlotTable" where
  "replay1 T (DbSaveItem _ k i c e) = T(k \<mapsto> (i, c, e))"
| "replay1 T (DbDeleteItem _ k) = T(k := None)"
| "replay1 T (DbSaveTwo _ a b) = put_slot b (put_slot a T)"
| "replay1 T _ = T"

definition replay :: "SlotTable \<Rightarrow> DbRequest list \<Rightarrow> SlotTable" where
  "replay T rs = foldl replay1 T rs"

lemma replay_append: "replay T (rs @ qs) = replay (replay T rs) qs"
  by (simp add: replay_def)

lemma replay_simps [simp]: "replay T [] = T" "replay T (r # rs) = replay (replay1 T r) rs"
  by (simp_all add: replay_def)

end
