(* ===== verification/DbProcs.thy ===== *)
theory DbProcs
  imports DbTypes
begin

text \<open>
  The database side: the tables and stored procedures of \<^verbatim>\<open>Database/setup.sql\<close> and the methods of
  \<^verbatim>\<open>Core/DBConnection.cpp\<close> that call them.  A \<^verbatim>\<open>SMALLINT\<close> column holds a \<open>short\<close>; the methods convert
  \<^verbatim>\<open>uint16_t\<close> arguments with \<open>smallint_of\<close>.  How the server compares names is an argument:
  \<open>coll\<close> maps a name to its collation key.  The order in which a query returns rows is an argument
  too.  The boolean \<open>odbc\<close> of a method says whether its bind and execute calls succeed; a failed
  statement is rolled back and changes nothing.
\<close>

record PlayerRow =
  pr_playerId :: int
  pr_name :: string
  pr_password :: string
  pr_x :: int
  pr_y :: int
  pr_level :: uint8
  pr_exp :: uint32

record InventoryRow =
  ir_itemId :: short
  ir_count :: short
  ir_equipped :: bool

record Database =
  db_players :: "PlayerRow list"
  db_identity :: int
  db_inventory :: "int \<times> short \<rightharpoonup> InventoryRow"

subsection \<open>Stored procedures\<close>

definition sp_isPlayerRegistered :: "(string \<Rightarrow> string) \<Rightarrow> string \<Rightarrow> Database \<Rightarrow> bool" where
  "sp_isPlayerRegistered coll name db = list_ex (\<lambda>r. coll (pr_name r) = coll name) (db_players db)"

definition sp_find :: "(string \<Rightarrow> string) \<Rightarrow> string \<Rightarrow> Database \<Rightarrow> PlayerRow option" where
  "sp_find coll name db = find (\<lambda>r. coll (pr_name r) = coll name) (db_players db)"

definition sp_AddNewPlayer :: "(string \<Rightarrow> string) \<Rightarrow> string \<Rightarrow> string \<Rightarrow> int \<Rightarrow> int \<Rightarrow> uint8 \<Rightarrow> uint32
    \<Rightarrow> Database \<Rightarrow> int option \<times> Database" where
  "sp_AddNewPlayer coll name password x y level exp db =
     (let db' = (if \<not> sp_isPlayerRegistered coll name db
                 then db\<lparr>db_players := db_players db @
                            [\<lparr>pr_playerId = db_identity db, pr_name = name, pr_password = password,
                              pr_x = x, pr_y = y, pr_level = level, pr_exp = exp\<rparr>],
                         db_identity := db_identity db + 1\<rparr>
                 else db)
      in (map_option pr_playerId (sp_find coll name db'), db'))"

definition sp_VerifyPlayerPassword :: "(string \<Rightarrow> string) \<Rightarrow> string \<Rightarrow> string \<Rightarrow> Database \<Rightarrow> bool" where
  "sp_VerifyPlayerPassword coll name password db =
     list_ex (\<lambda>r. coll (pr_name r) = coll name \<and> coll (pr_password r) = coll password) (db_players db)"

definition sp_SavePlayerInfo :: "(string \<Rightarrow> string) \<Rightarrow> string \<Rightarrow> int \<Rightarrow> int \<Rightarrow> uint8 \<Rightarrow> uint32
    \<Rightarrow> Database \<Rightarrow> Database" where
  "sp_SavePlayerInfo coll name x y level exp db =
     db\<lparr>db_players := map (\<lambda>r. if coll (pr_name r) = coll name
          then r\<lparr>pr_x := (if 0 \<le> x \<and> x \<le> 1999 then x else pr_x r),
                 pr_y := (if 0 \<le> y \<and> y \<le> 1999 then y else pr_y r),
                 pr_level := level, pr_exp := exp\<rparr>
          else r) (db_players db)\<rparr>"

definition player_exists :: "int \<Rightarrow> Database \<Rightarrow> bool" where
  "player_exists pid db = list_ex (\<lambda>r. pr_playerId r = pid) (db_players db)"

text \<open>The update-then-insert of one row.  The insert of a row for an unknown player violates the
  foreign key: with \<^verbatim>\<open>XACT_ABORT\<close> the transaction is rolled back, which is the result \<open>None\<close>.\<close>

definition upsert_row :: "int \<Rightarrow> short \<Rightarrow> InventoryRow \<Rightarrow> Database \<Rightarrow> Database option" where
  "upsert_row pid slot row db =
     (if db_inventory db (pid, slot) \<noteq> None \<or> player_exists pid db
      then Some (db\<lparr>db_inventory := (db_inventory db)((pid, slot) \<mapsto> row)\<rparr>)
      else None)"

definition delete_row :: "int \<Rightarrow> short \<Rightarrow> Database \<Rightarrow> Database" where
  "delete_row pid slot db = db\<lparr>db_inventory := (db_inventory db)((pid, slot) := None)\<rparr>"

definition sp_SaveInventorySlot :: "int \<Rightarrow> short \<Rightarrow> short \<Rightarrow> short \<Rightarrow> bool \<Rightarrow> Database \<Rightarrow> Database" where
  "sp_SaveInventorySlot pid slot item cnt equipped db =
     (case upsert_row pid slot \<lparr>ir_itemId = item, ir_count = cnt, ir_equipped = equipped\<rparr> db of
        Some db' \<Rightarrow> db' | None \<Rightarrow> db)"

definition sp_DeleteInventorySlot :: "int \<Rightarrow> short \<Rightarrow> Database \<Rightarrow> Database" where
  "sp_DeleteInventorySlot pid slot db = delete_row pid slot db"

type_synonym SlotArg = "short \<times> bool \<times> InventoryRow"

definition put_row :: "int \<Rightarrow> SlotArg \<Rightarrow> Database \<Rightarrow> Database option" where
  "put_row pid arg db =
     (case arg of (slot, has, row) \<Rightarrow>
        if has then upsert_row pid slot row db else Some (delete_row pid slot db))"

definition sp_SaveTwoInventorySlots :: "int \<Rightarrow> SlotArg \<Rightarrow> SlotArg \<Rightarrow> Database \<Rightarrow> Database" where
  "sp_SaveTwoInventorySlots pid a b db =
     (let (a, b) = (if fst a > fst b then (b, a) else (a, b))
      in case do { db \<leftarrow> put_row pid a db; put_row pid b db } of
           Some db' \<Rightarrow> db' | None \<Rightarrow> db)"

subsection \<open>DBConnection\<close>

definition smallint_of :: "uint16 \<Rightarrow> short" where
  "smallint_of w = short_of (uint w)"

definition uint16_of :: "short \<Rightarrow> uint16" where
  "uint16_of s = word_of_int s"

definition IsUserRegistered :: "(string \<Rightarrow> string) \<Rightarrow> bool \<Rightarrow> string \<Rightarrow> Database \<Rightarrow> bool" where
  "IsUserRegistered coll odbc name db = (odbc \<and> sp_isPlayerRegistered coll name db)"

definition VerifyUserPassword :: "(string \<Rightarrow> string) \<Rightarrow> bool \<Rightarrow> string \<Rightarrow> string \<Rightarrow> Database \<Rightarrow> bool" where
  "VerifyUserPassword coll odbc name password db =
     (odbc \<and> sp_VerifyPlayerPassword coll name password db)"

definition AddUserInfoInDataBase :: "(string \<Rightarrow> string) \<Rightarrow> bool \<Rightarrow> string \<Rightarrow> string \<Rightarrow> short \<Rightarrow> short \<Rightarrow> uint8
    \<Rightarrow> uint32 \<Rightarrow> Database \<Rightarrow> int option \<times> Database" where
  "AddUserInfoInDataBase coll odbc name password x y level exp db =
     (if odbc then sp_AddNewPlayer coll name password x y level exp db else (None, db))"

definition default_user_info :: DB_USER_INFO where
  "default_user_info = \<lparr>ui_playerId = 0, ui_name = [], ui_password = [], ui_x = 0, ui_y = 0,
     ui_level = 1, ui_exp = 0\<rparr>"

definition ExtractUserInfo :: "(string \<Rightarrow> string) \<Rightarrow> bool \<Rightarrow> string \<Rightarrow> Database \<Rightarrow> DB_USER_INFO" where
  "ExtractUserInfo coll odbc name db =
     (if \<not> odbc then default_user_info
      else case sp_find coll name db of
             None \<Rightarrow> default_user_info
           | Some r \<Rightarrow> default_user_info\<lparr>ui_playerId := pr_playerId r, ui_name := name,
                          ui_x := pr_x r, ui_y := pr_y r, ui_level := pr_level r, ui_exp := pr_exp r\<rparr>)"

definition SaveUserInfo :: "(string \<Rightarrow> string) \<Rightarrow> bool \<Rightarrow> string \<Rightarrow> short \<Rightarrow> short \<Rightarrow> uint8 \<Rightarrow> uint32
    \<Rightarrow> Database \<Rightarrow> Database" where
  "SaveUserInfo coll odbc name x y level exp db =
     (if odbc then sp_SavePlayerInfo coll name x y level exp db else db)"

text \<open>The slots in which the query returns the rows of one player.\<close>

type_synonym row_order = "Database \<Rightarrow> int \<Rightarrow> short list"

definition ExtractInventory :: "row_order \<Rightarrow> bool \<Rightarrow> int \<Rightarrow> Database \<Rightarrow> DB_ITEM_INFO list" where
  "ExtractInventory order odbc pid db =
     (if \<not> odbc then []
      else List.map_filter (\<lambda>slot. map_option (\<lambda>r.
             \<lparr>ii_slotIndex = uint16_of slot, ii_itemId = uint16_of (ir_itemId r),
              ii_count = uint16_of (ir_count r), ii_equipped = ir_equipped r\<rparr>)
             (db_inventory db (pid, slot))) (order db pid))"

definition SaveInventorySlot :: "bool \<Rightarrow> int \<Rightarrow> uint16 \<Rightarrow> uint16 \<Rightarrow> uint16 \<Rightarrow> bool \<Rightarrow> Database \<Rightarrow> Database" where
  "SaveInventorySlot odbc pid slotIndex itemId cnt equipped db =
     (if odbc then sp_SaveInventorySlot pid (smallint_of slotIndex) (smallint_of itemId)
                     (smallint_of cnt) equipped db
      else db)"

definition DeleteInventorySlot :: "bool \<Rightarrow> int \<Rightarrow> uint16 \<Rightarrow> Database \<Rightarrow> Database" where
  "DeleteInventorySlot odbc pid slotIndex db =
     (if odbc then sp_DeleteInventorySlot pid (smallint_of slotIndex) db else db)"

definition slot_arg :: "DB_ITEM_SLOT_SAVE \<Rightarrow> SlotArg" where
  "slot_arg s = (smallint_of (ss_slotIndex s), ss_hasItem s,
     \<lparr>ir_itemId = smallint_of (ss_itemId s), ir_count = smallint_of (ss_count s),
      ir_equipped = ss_equipped s\<rparr>)"

definition SaveTwoInventorySlots :: "bool \<Rightarrow> int \<Rightarrow> DB_ITEM_SLOT_SAVE \<Rightarrow> DB_ITEM_SLOT_SAVE \<Rightarrow> Database
    \<Rightarrow> Database" where
  "SaveTwoInventorySlots odbc pid a b db =
     (if odbc then sp_SaveTwoInventorySlots pid (slot_arg a) (slot_arg b) db else db)"

subsection \<open>The tables implement the abstract slot table\<close>

text \<open>The abstract table that the rows of a player stand for.\<close>

definition db_table :: "int \<Rightarrow> Database \<Rightarrow> SlotTable" where
  "db_table pid db k = map_option (\<lambda>r. (uint16_of (ir_itemId r), uint16_of (ir_count r), ir_equipped r))
     (db_inventory db (pid, smallint_of k))"

lemma uint16_of_smallint_of [simp]: "uint16_of (smallint_of w) = w"
proof -
  define q where "q = (uint w + 32768) div 65536"
  have "(uint w + 32768) mod 65536 = uint w + 32768 - 65536 * q"
    by (simp add: q_def minus_mult_div_eq_mod)
  then have "smallint_of w = uint w - 65536 * q"
    by (simp add: smallint_of_def short_of_def)
  moreover have "(65536 :: uint16) = 0"
    by simp
  then have "word_of_int (uint w - 65536 * q) = w"
    by (simp only: of_int_diff of_int_mult of_int_numeral mult_zero_left diff_zero word_of_int_uint)
  ultimately show ?thesis
    by (simp add: uint16_of_def)
qed

lemma smallint_of_inj: "smallint_of a = smallint_of b \<longleftrightarrow> a = b"
  by (metis uint16_of_smallint_of)


text \<open>One row written or deleted for a registered player.\<close>

lemma put_row_table:
  assumes "player_exists pid db"
  shows "\<exists>db'. put_row pid (slot_arg s) db = Some db' \<and> db_players db' = db_players db \<and>
    db_table pid db' = put_slot s (db_table pid db) \<and>
    (\<forall>q. q \<noteq> pid \<longrightarrow> db_table q db' = db_table q db)"
  using assms
  by (auto simp: put_row_def slot_arg_def upsert_row_def delete_row_def db_table_def put_slot_def
      smallint_of_inj fun_eq_iff)

lemma put_slot_commute:
  "ss_slotIndex a \<noteq> ss_slotIndex b \<Longrightarrow> put_slot a (put_slot b T) = put_slot b (put_slot a T)"
  by (auto simp: put_slot_def fun_upd_twist)

lemma sp_SaveTwo_table:
  assumes "player_exists pid db"
  shows "db_table pid (sp_SaveTwoInventorySlots pid (slot_arg a) (slot_arg b) db)
      = put_slot b (put_slot a (db_table pid db))"
    and "q \<noteq> pid \<Longrightarrow> db_table q (sp_SaveTwoInventorySlots pid (slot_arg a) (slot_arg b) db) = db_table q db"
    and "db_players (sp_SaveTwoInventorySlots pid (slot_arg a) (slot_arg b) db) = db_players db"
proof -
  have two: "\<exists>db'. (put_row pid (slot_arg s) db \<bind> put_row pid (slot_arg t)) = Some db' \<and>
      db_players db' = db_players db \<and> db_table pid db' = put_slot t (put_slot s (db_table pid db)) \<and>
      (\<forall>q. q \<noteq> pid \<longrightarrow> db_table q db' = db_table q db)" for s t
  proof -
    from put_row_table [OF assms, of s] obtain db1 where
      1: "put_row pid (slot_arg s) db = Some db1" "db_players db1 = db_players db"
      "db_table pid db1 = put_slot s (db_table pid db)"
      "\<forall>q. q \<noteq> pid \<longrightarrow> db_table q db1 = db_table q db"
      by blast
    then have "player_exists pid db1"
      using assms by (simp add: player_exists_def)
    from put_row_table [OF this, of t] 1 show ?thesis
      by auto
  qed
  have swap: "put_slot a (put_slot b (db_table pid db)) = put_slot b (put_slot a (db_table pid db))"
    if "fst (slot_arg b) < fst (slot_arg a)"
    using that put_slot_commute [of a b] by (fastforce simp: slot_arg_def)
  show "db_table pid (sp_SaveTwoInventorySlots pid (slot_arg a) (slot_arg b) db)
      = put_slot b (put_slot a (db_table pid db))"
    using two [of a b] two [of b a] swap by (auto simp: sp_SaveTwoInventorySlots_def Let_def)
  show "db_players (sp_SaveTwoInventorySlots pid (slot_arg a) (slot_arg b) db) = db_players db"
    using two [of a b] two [of b a] by (auto simp: sp_SaveTwoInventorySlots_def Let_def)
  show "db_table q (sp_SaveTwoInventorySlots pid (slot_arg a) (slot_arg b) db) = db_table q db"
    if "q \<noteq> pid"
    using two [of a b] two [of b a] that by (auto simp: sp_SaveTwoInventorySlots_def Let_def)
qed

end
