(* ===== verification/EventQueues.thy ===== *)
theory EventQueues
  imports Prelude
begin

text \<open>
  \<^verbatim>\<open>std::priority_queue\<close> as \<^verbatim>\<open>DBThread\<close> and \<^verbatim>\<open>TimerThread\<close> use it: a container ordered by a
  comparator object \<open>cmp lhs rhs\<close> (\<open>lhs\<close> leaves the queue after \<open>rhs\<close>).  It is kept as the list of
  its elements in the order in which \<^verbatim>\<open>top\<close> and \<^verbatim>\<open>pop\<close> return them.  The locale
  \<open>event_compare\<close> is the contract of a comparator that orders events by wake-up time and then by
  sequence number; the two comparators of the program are interpretations of it.
\<close>

fun pq_push :: "('e \<Rightarrow> 'e \<Rightarrow> bool) \<Rightarrow> 'e \<Rightarrow> 'e list \<Rightarrow> 'e list" where
  "pq_push cmp e [] = [e]"
| "pq_push cmp e (x # xs) = (if cmp x e then e # x # xs else x # pq_push cmp e xs)"

lemma mset_pq_push [simp]: "mset (pq_push cmp e q) = add_mset e (mset q)"
  by (induction q) auto

lemma set_pq_push [simp]: "set (pq_push cmp e q) = insert e (set q)"
  by (induction q) auto

lemma length_pq_push [simp]: "length (pq_push cmp e q) = Suc (length q)"
  by (induction q) auto

lemma pq_push_not_empty [simp]: "pq_push cmp e q \<noteq> []"
  by (cases q) auto

locale event_compare =
  fixes cmp :: "'e \<Rightarrow> 'e \<Rightarrow> bool"
    and wake :: "'e \<Rightarrow> int"
    and seqno :: "'e \<Rightarrow> uint64"
  assumes cmp_iff: "cmp a b \<longleftrightarrow> wake b < wake a \<or> wake a = wake b \<and> seqno b < seqno a"
begin

definition ordered :: "'e list \<Rightarrow> bool" where
  "ordered q \<longleftrightarrow> sorted_wrt (\<lambda>a b. \<not> cmp a b) q"

lemma cmp_trans: "\<not> cmp a b \<Longrightarrow> \<not> cmp b c \<Longrightarrow> \<not> cmp a c"
  by (auto simp: cmp_iff)

lemma cmp_asym: "cmp a b \<Longrightarrow> \<not> cmp b a"
  by (auto simp: cmp_iff)

lemma ordered_push: "ordered q \<Longrightarrow> ordered (pq_push cmp e q)"
  unfolding ordered_def by (induction q) (auto, (metis cmp_asym cmp_trans)+)

lemma ordered_tl: "ordered q \<Longrightarrow> ordered (tl q)"
  unfolding ordered_def by (cases q) auto

lemma ordered_top: "ordered (x # q) \<Longrightarrow> y \<in> set q \<Longrightarrow> \<not> cmp x y"
  by (simp add: ordered_def)

lemma ordered_wake: "ordered (x # q) \<Longrightarrow> y \<in> set q \<Longrightarrow> wake x \<le> wake y"
  using ordered_top [of x q y] by (auto simp: cmp_iff)

text \<open>The elements of a class that the new event does not overtake keep their order, and the new
  event comes after all of them.\<close>

lemma filter_push_keep:
  "ordered q \<Longrightarrow> P e \<Longrightarrow> \<forall>x \<in> set q. P x \<longrightarrow> \<not> cmp x e \<Longrightarrow>
   filter P (pq_push cmp e q) = filter P q @ [e]"
proof (induction q)
  case (Cons x q)
  have tail: "filter P q = []" if c: "cmp x e"
  proof -
    have "\<not> P y" if y: "y \<in> set q" for y
    proof
      assume "P y"
      with Cons.prems(3) y have "\<not> cmp y e"
        by simp
      with ordered_top [OF Cons.prems(1) y] have "\<not> cmp x e"
        by (rule cmp_trans)
      with c show False
        by simp
    qed
    then show ?thesis
      by (simp add: filter_empty_conv)
  qed
  show ?case
  proof (cases "cmp x e")
    case True
    then show ?thesis
      using tail Cons.prems by auto
  next
    case False
    then show ?thesis
      using Cons by (simp add: ordered_def)
  qed
qed simp

lemma filter_push_other: "\<not> P e \<Longrightarrow> filter P (pq_push cmp e q) = filter P q"
  by (induction q) auto

text \<open>With increasing sequence numbers and a clock that does not go back, the queue is a FIFO.\<close>

lemma push_fifo:
  assumes "ordered q" "\<forall>x \<in> set q. wake x \<le> wake e \<and> seqno x < seqno e"
  shows "pq_push cmp e q = q @ [e]"
proof -
  have "\<forall>x \<in> set q. True \<longrightarrow> \<not> cmp x e"
    using assms(2) by (auto simp: cmp_iff not_less)
  from filter_push_keep [OF assms(1), of "\<lambda>_. True" e] this show ?thesis
    by simp
qed

end

end
