(* ===== verification/ZoneLayouts.thy ===== *)
theory ZoneLayouts
  imports Prelude
begin

text \<open>
  The static geometry of the world: the constants of \<^verbatim>\<open>Protocol.h\<close>, \<^verbatim>\<open>Zone/ZoneTypes.h\<close>
  and \<^verbatim>\<open>Zone/ZoneLayout.h\<close>.  The world of 2000 by 2000 tiles is cut into sectors of 10 by 10
  tiles and zones of 50 by 50 sectors; a zone id is a 16-bit number with \<open>InvalidZoneId\<close> as
  the reserved value.
\<close>

definition W_WIDTH :: int where "W_WIDTH = 2000"
definition W_HEIGHT :: int where "W_HEIGHT = 2000"
definition SECTOR_RANGE :: int where "SECTOR_RANGE = 10"
definition VIEW_RANGE :: int where "VIEW_RANGE = 5"
definition WAKE_RANGE :: int where "WAKE_RANGE = 3"
definition ZONE_BOUNDARY_MARGIN :: int where "ZONE_BOUNDARY_MARGIN = 3"

type_synonym ZoneId = uint16

definition InvalidZoneId :: ZoneId where "InvalidZoneId = 65535"

record ZoneCoord =
  zone_x :: short
  zone_y :: short

definition unassignedZone :: ZoneCoord where
  "unassignedZone = \<lparr>zone_x = -1, zone_y = -1\<rparr>"

definition SectorCountX :: short where "SectorCountX = short_of (W_WIDTH div SECTOR_RANGE)"
definition SectorCountY :: short where "SectorCountY = short_of (W_HEIGHT div SECTOR_RANGE)"
definition SectorsPerZoneX :: short where "SectorsPerZoneX = 50"
definition SectorsPerZoneY :: short where "SectorsPerZoneY = 50"
definition ZoneCountX :: short where
  "ZoneCountX = short_of ((SectorCountX + SectorsPerZoneX - 1) div SectorsPerZoneX)"
definition ZoneCountY :: short where
  "ZoneCountY = short_of ((SectorCountY + SectorsPerZoneY - 1) div SectorsPerZoneY)"
definition ZoneCount :: short where "ZoneCount = short_of (ZoneCountX * ZoneCountY)"

definition IsValidWorldPosition :: "int \<Rightarrow> int \<Rightarrow> bool" where
  "IsValidWorldPosition worldX worldY \<longleftrightarrow>
     worldX \<ge> 0 \<and> worldX < W_WIDTH \<and> worldY \<ge> 0 \<and> worldY < W_HEIGHT"

definition layout_IsValidSector :: "short \<Rightarrow> short \<Rightarrow> bool" where
  "layout_IsValidSector sectorX sectorY \<longleftrightarrow>
     sectorX \<ge> 0 \<and> sectorX < SectorCountX \<and> sectorY \<ge> 0 \<and> sectorY < SectorCountY"

definition IsValidZone :: "ZoneCoord \<Rightarrow> bool" where
  "IsValidZone zone \<longleftrightarrow>
     zone_x zone \<ge> 0 \<and> zone_x zone < ZoneCountX \<and> zone_y zone \<ge> 0 \<and> zone_y zone < ZoneCountY"

definition IsValidZoneId :: "ZoneId \<Rightarrow> bool" where
  "IsValidZoneId zoneId \<longleftrightarrow> zoneId < word_of_int ZoneCount"

definition GetZoneCoordBySector :: "short \<Rightarrow> short \<Rightarrow> ZoneCoord" where
  "GetZoneCoordBySector sectorX sectorY =
     (if \<not> layout_IsValidSector sectorX sectorY then unassignedZone
      else \<lparr>zone_x = short_of (sectorX div SectorsPerZoneX),
            zone_y = short_of (sectorY div SectorsPerZoneY)\<rparr>)"

definition GetZoneCoordByWorld :: "int \<Rightarrow> int \<Rightarrow> ZoneCoord" where
  "GetZoneCoordByWorld worldX worldY =
     (if \<not> IsValidWorldPosition worldX worldY then unassignedZone
      else GetZoneCoordBySector (short_of (worldX div SECTOR_RANGE))
                                (short_of (worldY div SECTOR_RANGE)))"

definition GetZoneId :: "ZoneCoord \<Rightarrow> ZoneId" where
  "GetZoneId zone =
     (if \<not> IsValidZone zone then InvalidZoneId
      else word_of_int (zone_y zone * ZoneCountX + zone_x zone))"

definition GetZoneIdBySector :: "short \<Rightarrow> short \<Rightarrow> ZoneId" where
  "GetZoneIdBySector sectorX sectorY = GetZoneId (GetZoneCoordBySector sectorX sectorY)"

definition GetZoneIdByWorld :: "int \<Rightarrow> int \<Rightarrow> ZoneId" where
  "GetZoneIdByWorld worldX worldY = GetZoneId (GetZoneCoordByWorld worldX worldY)"

definition GetZoneCoordById :: "ZoneId \<Rightarrow> ZoneCoord" where
  "GetZoneCoordById zoneId =
     (if \<not> IsValidZoneId zoneId then unassignedZone
      else \<lparr>zone_x = short_of (uint zoneId mod ZoneCountX),
            zone_y = short_of (uint zoneId div ZoneCountX)\<rparr>)"

lemmas world_consts = W_WIDTH_def W_HEIGHT_def SECTOR_RANGE_def VIEW_RANGE_def WAKE_RANGE_def
  ZONE_BOUNDARY_MARGIN_def

lemma zone_consts [simp]:
  "SectorCountX = 200" "SectorCountY = 200" "SectorsPerZoneX = 50" "SectorsPerZoneY = 50"
  "ZoneCountX = 4" "ZoneCountY = 4" "ZoneCount = 16"
  by (simp_all add: SectorCountX_def SectorCountY_def SectorsPerZoneX_def SectorsPerZoneY_def
      ZoneCountX_def ZoneCountY_def ZoneCount_def world_consts)

lemmas zone_defs = IsValidWorldPosition_def layout_IsValidSector_def IsValidZone_def
  GetZoneCoordBySector_def GetZoneCoordByWorld_def GetZoneId_def GetZoneIdByWorld_def
  GetZoneIdBySector_def unassignedZone_def

lemma IsValidZoneId_uint: "IsValidZoneId z \<longleftrightarrow> uint z < 16"
  by (simp add: IsValidZoneId_def word_less_def)

lemma not_IsValidZoneId_Invalid [simp]: "\<not> IsValidZoneId InvalidZoneId"
  by (simp add: IsValidZoneId_uint InvalidZoneId_def)

lemma uint_small_word: "0 \<le> i \<Longrightarrow> i < 65536 \<Longrightarrow> uint (word_of_int i :: uint16) = i"
  by (simp add: uint_word_of_int)

lemma div_bounds:
  fixes i :: int
  assumes "0 \<le> i" "i < 2000"
  shows "0 \<le> i div 10" "i div 10 < 200" "0 \<le> i div 500" "i div 500 < 4"
  using assms by linarith+

lemma div_div_500: "(i :: int) div 10 div 50 = i div 500"
  by (simp add: zdiv_zmult2_eq [symmetric])

lemma GetZoneId_small:
  assumes "0 \<le> zone_x c" "zone_x c < 4" "0 \<le> zone_y c" "zone_y c < 4"
  shows "IsValidZone c" "uint (GetZoneId c) = zone_y c * 4 + zone_x c" "uint (GetZoneId c) < 16"
proof -
  show v: "IsValidZone c"
    using assms by (simp add: IsValidZone_def)
  then have "GetZoneId c = word_of_int (zone_y c * 4 + zone_x c)"
    by (simp add: GetZoneId_def)
  moreover have "uint (word_of_int (zone_y c * 4 + zone_x c) :: uint16) = zone_y c * 4 + zone_x c"
    using assms by (intro uint_small_word) linarith+
  ultimately show *: "uint (GetZoneId c) = zone_y c * 4 + zone_x c"
    by simp
  show "uint (GetZoneId c) < 16"
    unfolding * using assms by linarith
qed

lemma IsValidWorldPositionD:
  assumes "IsValidWorldPosition x y"
  shows "0 \<le> x" "x < 2000" "0 \<le> y" "y < 2000"
  using assms by (simp_all add: IsValidWorldPosition_def world_consts)

lemma GetZoneCoordByWorld_valid:
  assumes "IsValidWorldPosition x y"
  shows "GetZoneCoordByWorld x y = \<lparr>zone_x = x div 500, zone_y = y div 500\<rparr>"
proof -
  note b = IsValidWorldPositionD [OF assms]
  define X Y where "X = x div 10" and "Y = y div 10"
  have "0 \<le> X" "X < 200" "0 \<le> Y" "Y < 200"
    using div_bounds(1,2) [OF b(1,2)] div_bounds(1,2) [OF b(3,4)] by (simp_all add: X_def Y_def)
  then have "layout_IsValidSector X Y" "short_of X = X" "short_of Y = Y"
    by (simp_all add: layout_IsValidSector_def)
  moreover have "X div 50 = x div 500" "Y div 50 = y div 500"
    by (simp_all only: X_def Y_def div_div_500)
  moreover have "short_of (x div 500) = x div 500" "short_of (y div 500) = y div 500"
    using div_bounds(3,4) [OF b(1,2)] div_bounds(3,4) [OF b(3,4)] by (intro short_of_id; linarith)+
  ultimately show ?thesis
    using assms
    by (simp add: GetZoneCoordByWorld_def GetZoneCoordBySector_def SECTOR_RANGE_def
        X_def [symmetric] Y_def [symmetric])
qed

lemma uint_GetZoneIdByWorld:
  assumes "IsValidWorldPosition x y"
  shows "uint (GetZoneIdByWorld x y) = (y div 500) * 4 + x div 500"
    and "uint (GetZoneIdByWorld x y) < 16"
proof -
  note b = IsValidWorldPositionD [OF assms]
  let ?c = "GetZoneCoordByWorld x y"
  have c: "zone_x ?c = x div 500" "zone_y ?c = y div 500"
    by (simp_all add: GetZoneCoordByWorld_valid [OF assms])
  have "0 \<le> zone_x ?c" "zone_x ?c < 4" "0 \<le> zone_y ?c" "zone_y ?c < 4"
    unfolding c using div_bounds(3,4) [OF b(1,2)] div_bounds(3,4) [OF b(3,4)] by blast+
  note g = GetZoneId_small [OF this]
  show "uint (GetZoneIdByWorld x y) = (y div 500) * 4 + x div 500"
    "uint (GetZoneIdByWorld x y) < 16"
    using g(2,3) by (simp_all only: GetZoneIdByWorld_def c)
qed

lemma GetZoneIdByWorld_invalid: "\<not> IsValidWorldPosition x y \<Longrightarrow> GetZoneIdByWorld x y = InvalidZoneId"
  by (simp add: GetZoneIdByWorld_def GetZoneCoordByWorld_def GetZoneId_def IsValidZone_def
      unassignedZone_def)

lemma GetZoneIdByWorld_IsValidZoneId:
  "IsValidZoneId (GetZoneIdByWorld x y) \<longleftrightarrow> IsValidWorldPosition x y"
  using GetZoneIdByWorld_invalid uint_GetZoneIdByWorld(2)
  by (cases "IsValidWorldPosition x y") (auto simp: IsValidZoneId_uint InvalidZoneId_def)

lemma GetZoneCoordById_valid:
  assumes "IsValidZoneId z"
  shows "zone_x (GetZoneCoordById z) = uint z mod 4" "zone_y (GetZoneCoordById z) = uint z div 4"
    "0 \<le> uint z mod 4" "uint z mod 4 < 4" "0 \<le> uint z div 4" "uint z div 4 < 4"
proof -
  have u: "uint z < 16" "0 \<le> uint z"
    using assms by (simp_all add: IsValidZoneId_uint)
  show d: "0 \<le> uint z div 4" "uint z div 4 < 4" and m: "0 \<le> uint z mod 4" "uint z mod 4 < 4"
    using u by (linarith, linarith, simp_all)
  have "short_of (uint z mod 4) = uint z mod 4" "short_of (uint z div 4) = uint z div 4"
    using d m by (intro short_of_id; linarith)+
  then show "zone_x (GetZoneCoordById z) = uint z mod 4"
    "zone_y (GetZoneCoordById z) = uint z div 4"
    using assms by (simp_all only: GetZoneCoordById_def zone_consts ZoneCoord.simps if_False
        not_True_eq_False simp_thms)
qed

lemma zone_id_coord_roundtrip:
  assumes "IsValidZoneId z"
  shows "IsValidZone (GetZoneCoordById z) \<and> GetZoneId (GetZoneCoordById z) = z"
proof -
  note c = GetZoneCoordById_valid [OF assms]
  note g = GetZoneId_small [of "GetZoneCoordById z", unfolded c(1,2), OF c(3-6)]
  have "uint (GetZoneId (GetZoneCoordById z)) = uint z"
    unfolding g(2) by (rule div_mult_mod_eq)
  then show ?thesis
    using g(1) by (simp add: word_uint_eq_iff)
qed

lemma zone_coord_id_roundtrip:
  assumes "IsValidZone c"
  shows "IsValidZoneId (GetZoneId c) \<and> GetZoneCoordById (GetZoneId c) = c"
proof -
  have b: "0 \<le> zone_x c" "zone_x c < 4" "0 \<le> zone_y c" "zone_y c < 4"
    using assms by (simp_all add: IsValidZone_def)
  note g = GetZoneId_small [OF b]
  then have v: "IsValidZoneId (GetZoneId c)"
    by (simp add: IsValidZoneId_uint)
  have "(zone_y c * 4 + zone_x c) div 4 = zone_y c" "(zone_y c * 4 + zone_x c) mod 4 = zone_x c"
    using b by simp_all
  then have "zone_x (GetZoneCoordById (GetZoneId c)) = zone_x c"
    "zone_y (GetZoneCoordById (GetZoneId c)) = zone_y c"
    using GetZoneCoordById_valid(1,2) [OF v] by (simp_all only: g(2))
  then show ?thesis
    using v by (cases c; cases "GetZoneCoordById (GetZoneId c)") simp
qed

end
