(* ===== verification/DbThreads.thy ===== *)
theory DbThreads
  imports DbProcs EventQueues ZoneLayouts
begin

text \<open>
  The asynchronous database workers: \<^verbatim>\<open>Thread/DBThread.h\<close> and \<^verbatim>\<open>Thread/DBThread.cpp\<close>.  The state holds
  one priority queue per shard and the two atomic counters.  A call of the clock is an argument
  \<open>now\<close> (nanoseconds of \<^verbatim>\<open>steady_clock\<close>); \<^verbatim>\<open>std::hash<std::string>\<close> is the argument \<open>hash\<close>.  A worker
  thread is a step \<open>DoDataBase_step\<close> that takes the due event at the top of its shard and
  processes it; \<open>conn\<close> says whether the connection pool returned a connection and \<open>odbc n\<close> whether
  the \<open>n\<close>-th statement of the event succeeded, so that the statements of one login fail or succeed
  independently.  As in the code, the results of the writes are ignored: a write that fails is dropped.
\<close>

definition kShardCount :: nat where "kShardCount = 8"

record DBEvent =
  ev_wakeupTime :: int
  ev_sequence :: uint64
  ev_request :: DbRequest

definition DBEventCompare :: "DBEvent \<Rightarrow> DBEvent \<Rightarrow> bool" where
  "DBEventCompare lhs rhs \<longleftrightarrow>
     (if ev_wakeupTime lhs \<noteq> ev_wakeupTime rhs then ev_wakeupTime lhs > ev_wakeupTime rhs
      else ev_sequence lhs > ev_sequence rhs)"

record DBThreadState =
  dt_shards :: "nat \<Rightarrow> DBEvent list"
  dt_nextSequence :: uint64
  dt_roundRobinCursor :: uint32

definition initDBThread :: DBThreadState where
  "initDBThread = \<lparr>dt_shards = (\<lambda>_. []), dt_nextSequence = 0, dt_roundRobinCursor = 0\<rparr>"

definition ShardForPlayerId :: "int \<Rightarrow> nat" where
  "ShardForPlayerId playerId = unat (word_of_int playerId :: uint32) mod kShardCount"

definition ShardForName :: "(string \<Rightarrow> uint64) \<Rightarrow> string \<Rightarrow> nat" where
  "ShardForName hash name = unat (hash name) mod kShardCount"

definition NextRoundRobinShard :: "DBThreadState \<Rightarrow> nat \<times> DBThreadState" where
  "NextRoundRobinShard st =
     (unat (dt_roundRobinCursor st) mod kShardCount,
      st\<lparr>dt_roundRobinCursor := dt_roundRobinCursor st + 1\<rparr>)"

definition ScheduleOnShard :: "DBEvent \<Rightarrow> nat \<Rightarrow> DBThreadState \<Rightarrow> DBThreadState option" where
  "ScheduleOnShard event shardIndex st = do {
     _ \<leftarrow> ASSERT_CRASH (shardIndex < kShardCount);
     let event = event\<lparr>ev_sequence := dt_nextSequence st\<rparr>;
     Some (st\<lparr>dt_nextSequence := dt_nextSequence st + 1,
              dt_shards := (dt_shards st)(shardIndex :=
                pq_push DBEventCompare event (dt_shards st shardIndex))\<rparr>) }"

definition make_event :: "int \<Rightarrow> DbRequest \<Rightarrow> DBEvent" where
  "make_event now r = \<lparr>ev_wakeupTime = now, ev_sequence = 0, ev_request = r\<rparr>"

definition RequestLogin :: "int \<Rightarrow> nat \<Rightarrow> string \<Rightarrow> string \<Rightarrow> DBThreadState \<Rightarrow> DBThreadState option" where
  "RequestLogin now session name password st =
     (let (shard, st) = NextRoundRobinShard st
      in ScheduleOnShard (make_event now (DbLogin session name password)) shard st)"

definition RequestSaveUser :: "(string \<Rightarrow> uint64) \<Rightarrow> int \<Rightarrow> ObjID \<Rightarrow> DB_USER_INFO \<Rightarrow> DBThreadState
    \<Rightarrow> DBThreadState option" where
  "RequestSaveUser hash now subjectId info st =
     ScheduleOnShard (make_event now (DbSaveUser subjectId (ui_name info) (short_of (ui_x info))
         (short_of (ui_y info)) (ui_level info) (ui_exp info)))
       (ShardForName hash (ui_name info)) st"

definition RequestSaveItem :: "int \<Rightarrow> int \<Rightarrow> uint16 \<Rightarrow> uint16 \<Rightarrow> uint16 \<Rightarrow> bool \<Rightarrow> DBThreadState
    \<Rightarrow> DBThreadState option" where
  "RequestSaveItem now playerId slotIndex itemId cnt equipped st =
     ScheduleOnShard (make_event now (DbSaveItem playerId slotIndex itemId cnt equipped))
       (ShardForPlayerId playerId) st"

definition RequestDeleteItem :: "int \<Rightarrow> int \<Rightarrow> uint16 \<Rightarrow> DBThreadState \<Rightarrow> DBThreadState option" where
  "RequestDeleteItem now playerId slotIndex st =
     ScheduleOnShard (make_event now (DbDeleteItem playerId slotIndex)) (ShardForPlayerId playerId) st"

definition RequestSaveTwoItems :: "int \<Rightarrow> int \<Rightarrow> DB_ITEM_SLOT_SAVE \<Rightarrow> DB_ITEM_SLOT_SAVE \<Rightarrow> DBThreadState
    \<Rightarrow> DBThreadState option" where
  "RequestSaveTwoItems now playerId a b st =
     ScheduleOnShard (make_event now (DbSaveTwo playerId a b)) (ShardForPlayerId playerId) st"

text \<open>The call of \<^verbatim>\<open>GDBThread\<close> that a request stands for.\<close>

fun Request :: "(string \<Rightarrow> uint64) \<Rightarrow> int \<Rightarrow> DbRequest \<Rightarrow> DBThreadState \<Rightarrow> DBThreadState option" where
  "Request hash now (DbLogin s n p) st = RequestLogin now s n p st"
| "Request hash now (DbSaveUser i n x y l e) st =
     RequestSaveUser hash now i \<lparr>ui_playerId = 0, ui_name = n, ui_password = [], ui_x = x, ui_y = y,
       ui_level = l, ui_exp = e\<rparr> st"
| "Request hash now (DbSaveItem p k i c e) st = RequestSaveItem now p k i c e st"
| "Request hash now (DbDeleteItem p k) st = RequestDeleteItem now p k st"
| "Request hash now (DbSaveTwo p a b) st = RequestSaveTwoItems now p a b st"

subsection \<open>Processing\<close>

text \<open>What a processed event sends to the zone threads: a task with the data it captured, or a
  direct call of \<^verbatim>\<open>UserHelper::HandleLoginFail\<close>.\<close>

datatype DbOutcome =
    EnqueueGetUserInfo ZoneId nat DB_USER_INFO "DB_ITEM_INFO list"
  | EnqueueAddUserInfo ZoneId nat DB_USER_INFO
  | CallLoginFail nat

record DbSystem =
  ds_threads :: DBThreadState
  ds_db :: Database
  ds_counter :: uint32
  ds_out :: "DbOutcome list"

definition ProcessEvent :: "(string \<Rightarrow> string) \<Rightarrow> row_order \<Rightarrow> bool \<Rightarrow> (nat \<Rightarrow> bool) \<Rightarrow> DbRequest \<Rightarrow> DbSystem
    \<Rightarrow> DbSystem" where
  "ProcessEvent coll order conn odbc req sys =
     (if \<not> conn then sys
      else case req of
        DbLogin session name password \<Rightarrow>
          if IsUserRegistered coll (odbc 0) name (ds_db sys)
          then let userInfo = ExtractUserInfo coll (odbc 1) name (ds_db sys);
                   items = ExtractInventory order (odbc 2) (ui_playerId userInfo) (ds_db sys)
               in sys\<lparr>ds_out := ds_out sys @ [EnqueueGetUserInfo
                        (GetZoneIdByWorld (ui_x userInfo) (ui_y userInfo)) session userInfo items]\<rparr>
          else let (pid, db) = AddUserInfoInDataBase coll (odbc 1) name password 0 0 1 0 (ds_db sys)
               in (case pid of
                     None \<Rightarrow> sys\<lparr>ds_db := db, ds_out := ds_out sys @ [CallLoginFail session]\<rparr>
                   | Some playerId \<Rightarrow>
                       sys\<lparr>ds_db := db, ds_counter := ds_counter sys + 1,
                           ds_out := ds_out sys @ [EnqueueAddUserInfo
                             (word_of_int (uint (ds_counter sys) mod ZoneCount)) session
                             (default_user_info\<lparr>ui_playerId := playerId, ui_name := name,
                                ui_password := password\<rparr>)]\<rparr>)
      | DbSaveUser subjectId name x y level exp \<Rightarrow>
          sys\<lparr>ds_db := SaveUserInfo coll (odbc 0) name x y level exp (ds_db sys)\<rparr>
      | DbSaveItem playerId slotIndex itemId cnt equipped \<Rightarrow>
          sys\<lparr>ds_db := SaveInventorySlot (odbc 0) playerId slotIndex itemId cnt equipped (ds_db sys)\<rparr>
      | DbDeleteItem playerId slotIndex \<Rightarrow>
          sys\<lparr>ds_db := DeleteInventorySlot (odbc 0) playerId slotIndex (ds_db sys)\<rparr>
      | DbSaveTwo playerId a b \<Rightarrow>
          sys\<lparr>ds_db := SaveTwoInventorySlots (odbc 0) playerId a b (ds_db sys)\<rparr>)"

text \<open>One pass of the inner loop of \<^verbatim>\<open>DoDataBase\<close>: the thread waits (\<open>None\<close>) while its queue is
  empty or the top is not due, and otherwise pops the top and processes it.\<close>

definition DoDataBase_step :: "(string \<Rightarrow> string) \<Rightarrow> row_order \<Rightarrow> bool \<Rightarrow> (nat \<Rightarrow> bool) \<Rightarrow> int \<Rightarrow> nat \<Rightarrow> DbSystem
    \<Rightarrow> (DBEvent \<times> DbSystem) option" where
  "DoDataBase_step coll order conn odbc now shardIndex sys =
     (case dt_shards (ds_threads sys) shardIndex of
        [] \<Rightarrow> None
      | event # rest \<Rightarrow>
          if ev_wakeupTime event > now then None
          else Some (event, ProcessEvent coll order conn odbc (ev_request event)
                 (sys\<lparr>ds_threads := (ds_threads sys)\<lparr>dt_shards :=
                    (dt_shards (ds_threads sys))(shardIndex := rest)\<rparr>\<rparr>)))"

interpretation dbq: event_compare DBEventCompare ev_wakeupTime ev_sequence
  by unfold_locales (auto simp: DBEventCompare_def)

end
