(* ===== verification/Stats.thy ===== *)
theory Stats
  imports Prelude
begin

text \<open>
  The combat statistics of a subject: \<^verbatim>\<open>Stat/Stat.h\<close> and \<^verbatim>\<open>Stat/Stat.cpp\<close>.  The fields keep
  their widths.  \<open>AddExp\<close> reads \<open>EXP_TABLE[m_level - 1]\<close> without a check that the level is at
  least 1; an index outside the array is modelled as \<open>None\<close> (undefined behaviour), and
  \<open>stat_ok\<close> is the invariant under which no such read happens.
\<close>

definition PLAYER_MAX_HP :: uint16 where "PLAYER_MAX_HP = 100"
definition MONSTER_MAX_HP :: uint16 where "MONSTER_MAX_HP = 60"
definition PLAYER_OFFENSIVE :: uint16 where "PLAYER_OFFENSIVE = 10"
definition SKILL_DAMAGE :: int where "SKILL_DAMAGE = 50"
definition MONSTER_OFFENSIVE :: uint16 where "MONSTER_OFFENSIVE = 3"
definition HEAL_SIZE :: uint16 where "HEAL_SIZE = 10"

definition EXP_TABLE :: "uint32 list" where "EXP_TABLE = [30, 50, 70, 90]"
definition MAX_LEVEL :: uint8 where "MAX_LEVEL = 5"

record Stat =
  m_maxHp :: uint16
  m_hp :: uint16
  m_offensive :: uint16
  m_die :: bool
  m_level :: uint8
  m_exp :: uint32

definition newStat :: Stat where
  "newStat = \<lparr>m_maxHp = 0, m_hp = 0, m_offensive = 0, m_die = True, m_level = 1, m_exp = 0\<rparr>"

definition TakeDamage :: "uint16 \<Rightarrow> Stat \<Rightarrow> uint16 \<times> Stat" where
  "TakeDamage amount s =
     (let current = m_hp s;
          nxt = (if current > amount then current - amount else 0);
          s = s\<lparr>m_hp := nxt\<rparr>;
          s = (if nxt = 0 then s\<lparr>m_die := True\<rparr> else s)
      in (nxt, s))"

definition HealHp :: "uint16 \<Rightarrow> uint16 \<Rightarrow> Stat \<Rightarrow> Stat" where
  "HealHp amount maxCap s =
     (let current = (ucast (m_hp s) :: uint32);
          nxt = (if current + ucast amount \<ge> ucast maxCap then maxCap
                 else ucast (current + ucast amount))
      in s\<lparr>m_hp := nxt\<rparr>)"

definition AddExp :: "uint32 \<Rightarrow> Stat \<Rightarrow> (bool \<times> Stat) option" where
  "AddExp amount s =
     (if m_level s \<ge> MAX_LEVEL then Some (False, s)
      else
        let s = s\<lparr>m_exp := m_exp s + amount\<rparr>; i = uint (m_level s) - 1
        in if i < 0 \<or> i \<ge> int (length EXP_TABLE) then None
           else
             let needed = EXP_TABLE ! nat i
             in if m_exp s \<ge> needed
                then Some (True, s\<lparr>m_exp := m_exp s - needed, m_level := m_level s + 1\<rparr>)
                else Some (False, s))"

text \<open>The experience still missing for the next level, and the invariant of a live statistic.\<close>

fun exp_needed :: "nat \<Rightarrow> nat" where
  "exp_needed l = (if l = 1 then 30 else if l = 2 then 50 else if l = 3 then 70 else 90)"

definition level_ok :: "Stat \<Rightarrow> bool" where
  "level_ok s \<longleftrightarrow> 1 \<le> unat (m_level s) \<and> unat (m_level s) \<le> 5 \<and>
     (unat (m_level s) < 5 \<longrightarrow> unat (m_exp s) < exp_needed (unat (m_level s)))"

definition stat_ok :: "Stat \<Rightarrow> bool" where
  "stat_ok s \<longleftrightarrow> m_hp s \<le> m_maxHp s \<and> (m_die s \<longleftrightarrow> m_hp s = 0) \<and> level_ok s"

subsection \<open>Damage\<close>

lemma TakeDamage_hp:
  "unat (m_hp (snd (TakeDamage a s))) = unat (m_hp s) - unat a"
  "fst (TakeDamage a s) = m_hp (snd (TakeDamage a s))"
  by (auto simp: TakeDamage_def Let_def word_less_nat_alt unat_sub word_le_nat_alt)

lemma TakeDamage_frame [simp]:
  "m_maxHp (snd (TakeDamage a s)) = m_maxHp s" "m_offensive (snd (TakeDamage a s)) = m_offensive s"
  "m_level (snd (TakeDamage a s)) = m_level s" "m_exp (snd (TakeDamage a s)) = m_exp s"
  by (auto simp: TakeDamage_def Let_def)

lemma TakeDamage_dead: "m_hp (snd (TakeDamage a s)) = 0 \<Longrightarrow> m_die (snd (TakeDamage a s))"
  by (auto simp: TakeDamage_def Let_def split: if_splits)

lemma TakeDamage_alive:
  "m_hp (snd (TakeDamage a s)) \<noteq> 0 \<Longrightarrow> m_die (snd (TakeDamage a s)) = m_die s"
  by (auto simp: TakeDamage_def Let_def split: if_splits)

lemma level_ok_cong: "m_level s' = m_level s \<Longrightarrow> m_exp s' = m_exp s \<Longrightarrow> level_ok s' = level_ok s"
  by (simp add: level_ok_def)

lemma stat_ok_TakeDamage:
  assumes "stat_ok s"
  shows "stat_ok (snd (TakeDamage a s))"
proof -
  let ?t = "snd (TakeDamage a s)"
  have hp: "m_hp ?t \<le> m_hp s"
    by (simp add: word_le_nat_alt TakeDamage_hp)
  have "m_die ?t \<longleftrightarrow> m_hp ?t = 0"
  proof (cases "m_hp ?t = 0")
    case False
    then have "m_hp s \<noteq> 0"
      using hp by auto
    with False show ?thesis
      using assms TakeDamage_alive [OF False] by (simp add: stat_ok_def)
  qed (simp add: TakeDamage_dead)
  moreover have "level_ok ?t"
    using assms by (simp add: stat_ok_def level_ok_cong [of ?t s])
  ultimately show ?thesis
    using assms hp by (auto simp: stat_ok_def)
qed

subsection \<open>Healing\<close>

lemma HealHp_hp: "unat (m_hp (HealHp a cap s)) = min (unat (m_hp s) + unat a) (unat cap)"
proof -
  let ?c = "ucast (m_hp s) :: uint32" and ?a = "ucast a :: uint32"
  have b: "unat (m_hp s) < 65536" "unat a < 65536"
    by (rule unat16_bound)+
  have s: "unat (?c + ?a) = unat (m_hp s) + unat a"
    using b by (simp add: unat_add_noof unat_ucast16_32)
  have g: "?c + ?a \<ge> ucast cap \<longleftrightarrow> unat (m_hp s) + unat a \<ge> unat cap"
    by (simp add: word_le_nat_alt s unat_ucast16_32)
  have u: "unat (ucast (?c + ?a) :: uint16) = unat (m_hp s) + unat a"
    if "unat (m_hp s) + unat a < unat cap"
    using that unat16_bound [of cap] by (subst unat_ucast_fits) (simp_all add: s)
  show ?thesis
    using g u by (auto simp: HealHp_def Let_def)
qed

lemma HealHp_frame [simp]:
  "m_maxHp (HealHp a cap s) = m_maxHp s" "m_offensive (HealHp a cap s) = m_offensive s"
  "m_die (HealHp a cap s) = m_die s" "m_level (HealHp a cap s) = m_level s"
  "m_exp (HealHp a cap s) = m_exp s"
  by (simp_all add: HealHp_def Let_def)

lemma stat_ok_HealHp:
  assumes "stat_ok s" "\<not> m_die s" "cap \<le> m_maxHp s" "cap \<noteq> 0"
  shows "stat_ok (HealHp a cap s)"
proof -
  have "m_hp s \<noteq> 0"
    using assms by (simp add: stat_ok_def)
  then have "0 < unat (m_hp s)" "0 < unat cap"
    using assms(4) by (simp_all add: unat_gt_0)
  then have "m_hp (HealHp a cap s) \<noteq> 0"
    using HealHp_hp [of a cap s] by (metis add_is_0 less_numeral_extra(3) min_def unat_0)
  moreover have "m_hp (HealHp a cap s) \<le> m_maxHp s"
    using assms(3) HealHp_hp [of a cap s] by (simp add: word_le_nat_alt)
  ultimately show ?thesis
    using assms by (simp add: stat_ok_def level_ok_def)
qed

subsection \<open>Experience\<close>

lemma EXP_TABLE_nth:
  "1 \<le> l \<Longrightarrow> l \<le> 4 \<Longrightarrow> unat (EXP_TABLE ! (l - 1)) = exp_needed l"
proof -
  assume "1 \<le> l" "l \<le> 4"
  then have "l = 1 \<or> l = 2 \<or> l = 3 \<or> l = 4" by auto
  then show ?thesis by (auto simp: EXP_TABLE_def)
qed

text \<open>The three outcomes of \<open>AddExp\<close>, as facts on natural numbers.\<close>

lemma AddExp_level_ok:
  assumes ok: "level_ok s" and a: "unat a \<le> 30"
  shows "\<exists>b t. AddExp a s = Some (b, t) \<and> level_ok t \<and> m_hp t = m_hp s \<and> m_maxHp t = m_maxHp s
           \<and> m_die t = m_die s \<and> m_offensive t = m_offensive s
           \<and> unat (m_level t) = unat (m_level s) + (if b then 1 else 0)
           \<and> (unat (m_level s) < 5 \<longrightarrow>
                unat (m_exp t) + (if b then exp_needed (unat (m_level s)) else 0)
                  = unat (m_exp s) + unat a)"
proof (cases "m_level s \<ge> MAX_LEVEL")
  case True
  then show ?thesis
    using ok by (auto simp: AddExp_def MAX_LEVEL_def word_le_nat_alt)
next
  case False
  let ?l = "unat (m_level s)"
  from False ok have l: "1 \<le> ?l" "?l \<le> 4" and e: "unat (m_exp s) < exp_needed ?l"
    by (auto simp: level_ok_def MAX_LEVEL_def word_le_nat_alt)
  have n90: "exp_needed ?l \<le> 90"
    by simp
  have sum: "unat (m_exp s + a) = unat (m_exp s) + unat a"
    using e a n90 by (simp add: unat_add_noof)
  have u: "uint (m_level s) = int ?l"
    by (rule uint_nat)
  have i: "uint (m_level s) - 1 = int (?l - 1)" "nat (uint (m_level s) - 1) = ?l - 1"
    unfolding u using l(1) by (simp_all only: of_nat_diff of_nat_1)
  have len: "\<not> (uint (m_level s) - 1 < 0 \<or> uint (m_level s) - 1 \<ge> int (length EXP_TABLE))"
    unfolding i(1) using l(2) by (simp add: EXP_TABLE_def)
  define N where "N = EXP_TABLE ! nat (uint (m_level s) - 1)"
  have n: "unat N = exp_needed ?l"
    unfolding N_def i(2) using l by (rule EXP_TABLE_nth)
  have lv: "unat (m_level s + 1) = ?l + 1"
    using l by (simp add: unat_add_noof)
  show ?thesis
  proof (cases "m_exp s + a \<ge> N")
    case True
    then have d: "unat (m_exp s + a - N) = unat (m_exp s) + unat a - exp_needed ?l"
      and ge: "exp_needed ?l \<le> unat (m_exp s) + unat a"
        by (simp_all add: unat_sub n sum word_le_nat_alt del: exp_needed.simps)
    have lt: "unat (m_exp s) + unat a - exp_needed ?l < exp_needed (Suc ?l)"
      using e a l by auto
    let ?t = "s\<lparr>m_exp := m_exp s + a - N, m_level := m_level s + 1\<rparr>"
    have eq: "AddExp a s = Some (True, ?t)"
      using True False len by (simp add: AddExp_def Let_def N_def)
    have "level_ok ?t"
      using l lv d lt by (simp add: level_ok_def del: exp_needed.simps)
    then show ?thesis
      using lv d ge by (intro exI [of _ True] exI [of _ ?t]) (simp add: eq del: exp_needed.simps)
  next
    case nge: False
    then have lt: "unat (m_exp s) + unat a < exp_needed ?l"
      by (simp add: word_le_nat_alt n sum del: exp_needed.simps)
    let ?t = "s\<lparr>m_exp := m_exp s + a\<rparr>"
    have eq: "AddExp a s = Some (False, ?t)"
      using nge False len by (simp add: AddExp_def Let_def N_def)
    have "level_ok ?t"
      using l sum lt by (simp add: level_ok_def del: exp_needed.simps)
    then show ?thesis
      using sum by (intro exI [of _ False] exI [of _ ?t]) (simp add: eq del: exp_needed.simps)
  qed
qed

lemma AddExp_level_0: "m_level s = 0 \<Longrightarrow> AddExp a s = None"
  by (simp add: AddExp_def MAX_LEVEL_def Let_def)

end
