(* ===== verification/Inventories.thy ===== *)
theory Inventories
  imports DbTypes Stats
begin

text \<open>
  The inventory of one player: \<^verbatim>\<open>Item/Inventory.h\<close> and \<^verbatim>\<open>Item/Inventory.cpp\<close>.  The slot map is
  a partial function; the order in which an \<^verbatim>\<open>unordered_map\<close> is traversed is not specified by
  the language, so every operation that loops over the slots takes the order as the argument
  \<open>iter\<close>.  The weak pointer to the owner is an option; a lost owner is the failed
  \<open>ASSERT_CRASH\<close> at the head of every mutating method.  The requests sent to
  \<^verbatim>\<open>GDBThread\<close> are appended to \<open>inv_requests\<close> in the order of the calls.
\<close>

definition MAX_INVENTORY_SLOTS :: uint16 where "MAX_INVENTORY_SLOTS = 30"

record InvOwner =
  owner_ObjID :: ObjID
  owner_playerId :: int
  owner_stat :: Stat

record Inventory =
  inv_owner :: "InvOwner option"
  inv_slots :: "uint16 \<rightharpoonup> Item"
  inv_requests :: "DbRequest list"

type_synonym slot_iter = "(uint16 \<rightharpoonup> Item) \<Rightarrow> uint16 list"

definition Attach :: "InvOwner \<Rightarrow> Inventory \<Rightarrow> Inventory" where
  "Attach owner iv = iv\<lparr>inv_owner := Some owner\<rparr>"

definition AssertOwnedByCurrentZone :: "Inventory \<Rightarrow> unit option" where
  "AssertOwnedByCurrentZone iv = ASSERT_CRASH (inv_owner iv \<noteq> None)"

definition IsValidSlotIndex :: "uint16 \<Rightarrow> bool" where
  "IsValidSlotIndex slotIndex \<longleftrightarrow> slotIndex < MAX_INVENTORY_SLOTS"

definition request :: "DbRequest \<Rightarrow> Inventory \<Rightarrow> Inventory" where
  "request r iv = iv\<lparr>inv_requests := inv_requests iv @ [r]\<rparr>"

definition SaveSlotToDB :: "uint16 \<Rightarrow> Inventory \<Rightarrow> Inventory option" where
  "SaveSlotToDB slotIndex iv = do {
     owner \<leftarrow> inv_owner iv;
     Some (case inv_slots iv slotIndex of
             None \<Rightarrow> request (DbDeleteItem (owner_playerId owner) slotIndex) iv
           | Some item \<Rightarrow>
               request (DbSaveItem (owner_playerId owner) slotIndex (m_itemTableId item)
                          (m_count item) (IsEquipped item)) iv) }"

definition describe :: "Inventory \<Rightarrow> uint16 \<Rightarrow> DB_ITEM_SLOT_SAVE" where
  "describe iv slotIndex =
     (case inv_slots iv slotIndex of
        None \<Rightarrow> \<lparr>ss_slotIndex = slotIndex, ss_hasItem = False, ss_itemId = 0, ss_count = 0,
                 ss_equipped = False\<rparr>
      | Some item \<Rightarrow> \<lparr>ss_slotIndex = slotIndex, ss_hasItem = True,
                      ss_itemId = m_itemTableId item, ss_count = m_count item,
                      ss_equipped = IsEquipped item\<rparr>)"

definition SaveTwoSlotsToDB :: "uint16 \<Rightarrow> uint16 \<Rightarrow> Inventory \<Rightarrow> Inventory option" where
  "SaveTwoSlotsToDB a b iv = do {
     owner \<leftarrow> inv_owner iv;
     Some (request (DbSaveTwo (owner_playerId owner) (describe iv a) (describe iv b)) iv) }"

fun equipped_loop :: "(uint16 \<rightharpoonup> Item) \<Rightarrow> uint16 list \<Rightarrow> ItemTableId" where
  "equipped_loop slots [] = ITEM_TABLE_ID_NONE"
| "equipped_loop slots (k # ks) =
     (case slots k of
        None \<Rightarrow> equipped_loop slots ks
      | Some item \<Rightarrow> if IsEquipped item then m_itemTableId item else equipped_loop slots ks)"

definition GetEquippedItemId :: "slot_iter \<Rightarrow> (uint16 \<rightharpoonup> Item) \<Rightarrow> ItemTableId" where
  "GetEquippedItemId iter slots = equipped_loop slots (iter slots)"

definition RecomputeOffensive :: "slot_iter \<Rightarrow> Inventory \<Rightarrow> Inventory option" where
  "RecomputeOffensive iter iv = do {
     owner \<leftarrow> inv_owner iv;
     let equippedId = GetEquippedItemId iter (inv_slots iv);
     let attackBonus = (if equippedId \<noteq> ITEM_TABLE_ID_NONE
                        then (case ItemTable_Find equippedId of
                                Some row \<Rightarrow> row_attackBonus row | None \<Rightarrow> 0)
                        else 0);
     Some (iv\<lparr>inv_owner := Some (owner\<lparr>owner_stat :=
             (owner_stat owner)\<lparr>m_offensive := PLAYER_OFFENSIVE + attackBonus\<rparr>\<rparr>)\<rparr>) }"

fun load_rows :: "ObjID \<Rightarrow> DB_ITEM_INFO list \<Rightarrow> (uint16 \<rightharpoonup> Item) \<Rightarrow> (uint16 \<rightharpoonup> Item)" where
  "load_rows ownerId [] slots = slots"
| "load_rows ownerId (info # infos) slots =
     (if \<not> IsValidSlotIndex (ii_slotIndex info) then load_rows ownerId infos slots
      else case MakeNewItem (ii_itemId info) (ii_count info) of
             None \<Rightarrow> load_rows ownerId infos slots
           | Some item \<Rightarrow>
               let item = item\<lparr>m_OwnerID := ownerId\<rparr>;
                   item = (if ii_equipped info then setEquipped True item else item)
               in load_rows ownerId infos (slots(ii_slotIndex info \<mapsto> item)))"

definition LoadFromDB :: "slot_iter \<Rightarrow> DB_ITEM_INFO list \<Rightarrow> Inventory \<Rightarrow> Inventory option" where
  "LoadFromDB iter items iv = do {
     owner \<leftarrow> inv_owner iv;
     RecomputeOffensive iter
       (iv\<lparr>inv_slots := load_rows (owner_ObjID owner) items (inv_slots iv)\<rparr>) }"

subsection \<open>Adding items\<close>

fun dry_stack :: "ItemTableId \<Rightarrow> uint16 \<Rightarrow> (uint16 \<rightharpoonup> Item) \<Rightarrow> uint16 list \<Rightarrow> uint16 \<Rightarrow> uint16" where
  "dry_stack itemId maxStack slots [] remaining = remaining"
| "dry_stack itemId maxStack slots (k # ks) remaining =
     (if remaining = 0 then remaining
      else case slots k of
             None \<Rightarrow> dry_stack itemId maxStack slots ks remaining
           | Some item \<Rightarrow>
               if m_itemTableId item = itemId \<and> m_count item < maxStack
               then dry_stack itemId maxStack slots ks
                      (remaining - min (maxStack - m_count item) remaining)
               else dry_stack itemId maxStack slots ks remaining)"

fun dry_free :: "uint16 \<Rightarrow> (uint16 \<rightharpoonup> Item) \<Rightarrow> uint16 list \<Rightarrow> uint16 \<Rightarrow> uint16" where
  "dry_free maxStack slots [] remaining = remaining"
| "dry_free maxStack slots (i # is) remaining =
     (if \<not> remaining > 0 then remaining
      else if slots i = None then dry_free maxStack slots is (remaining - min maxStack remaining)
      else dry_free maxStack slots is remaining)"

fun apply_stack :: "ItemTableId \<Rightarrow> uint16 \<Rightarrow> uint16 list \<Rightarrow> (uint16 \<rightharpoonup> Item) \<Rightarrow> uint16 \<Rightarrow> uint16 list
    \<Rightarrow> (uint16 \<rightharpoonup> Item) \<times> uint16 \<times> uint16 list" where
  "apply_stack itemId maxStack [] slots remaining touched = (slots, remaining, touched)"
| "apply_stack itemId maxStack (k # ks) slots remaining touched =
     (if remaining = 0 then (slots, remaining, touched)
      else case slots k of
             None \<Rightarrow> apply_stack itemId maxStack ks slots remaining touched
           | Some item \<Rightarrow>
               if m_itemTableId item = itemId \<and> m_count item < maxStack
               then let added = min (maxStack - m_count item) remaining
                    in apply_stack itemId maxStack ks (slots(k \<mapsto> AddCount added item))
                         (remaining - added) (touched @ [k])
               else apply_stack itemId maxStack ks slots remaining touched)"

fun apply_free :: "ObjID \<Rightarrow> ItemTableId \<Rightarrow> uint16 \<Rightarrow> uint16 list \<Rightarrow> (uint16 \<rightharpoonup> Item) \<Rightarrow> uint16
    \<Rightarrow> uint16 list \<Rightarrow> ((uint16 \<rightharpoonup> Item) \<times> uint16 list) option" where
  "apply_free ownerId itemId maxStack [] slots remaining touched = Some (slots, touched)"
| "apply_free ownerId itemId maxStack (i # is) slots remaining touched =
     (if \<not> remaining > 0 then Some (slots, touched)
      else if slots i \<noteq> None then apply_free ownerId itemId maxStack is slots remaining touched
      else
        let added = min maxStack remaining
        in do {
          newItem \<leftarrow> MakeNewItem itemId added;
          apply_free ownerId itemId maxStack is (slots(i \<mapsto> newItem\<lparr>m_OwnerID := ownerId\<rparr>))
            (remaining - added) (touched @ [i]) })"

fun save_slots :: "uint16 list \<Rightarrow> Inventory \<Rightarrow> Inventory option" where
  "save_slots [] iv = Some iv"
| "save_slots (k # ks) iv = do { iv \<leftarrow> SaveSlotToDB k iv; save_slots ks iv }"

text \<open>The indices \<open>0 .. MAX_INVENTORY_SLOTS - 1\<close> in the order of the counting loops.\<close>

definition slot_indices :: "uint16 list" where
  "slot_indices = map of_nat [0..<30]"

definition TryAddItem :: "slot_iter \<Rightarrow> ItemTableId \<Rightarrow> uint16 \<Rightarrow> Inventory
    \<Rightarrow> (bool \<times> uint16 list \<times> Inventory) option" where
  "TryAddItem iter itemId cnt iv = do {
     _ \<leftarrow> AssertOwnedByCurrentZone iv;
     if cnt = 0 then Some (False, [], iv)
     else do {
       owner \<leftarrow> inv_owner iv;
       case ItemTable_Find itemId of
         None \<Rightarrow> Some (False, [], iv)
       | Some row \<Rightarrow>
           let slots = inv_slots iv; maxStack = row_maxStack row;
               r1 = (if maxStack > 1 then dry_stack itemId maxStack slots (iter slots) cnt else cnt);
               r2 = dry_free maxStack slots slot_indices r1
           in if r2 > 0 then Some (False, [], iv)
              else
                let (slots1, remaining, touched) =
                  (if maxStack > 1 then apply_stack itemId maxStack (iter slots) slots cnt []
                   else (slots, cnt, []))
                in do {
                  (slots2, touchedSlots) \<leftarrow>
                    apply_free (owner_ObjID owner) itemId maxStack slot_indices slots1 remaining touched;
                  iv \<leftarrow> save_slots touchedSlots (iv\<lparr>inv_slots := slots2\<rparr>);
                  Some (True, touchedSlots, iv) } } }"

subsection \<open>Removing and extracting items\<close>

definition TryRemoveItem :: "uint16 \<Rightarrow> uint16 \<Rightarrow> Inventory \<Rightarrow> (bool \<times> Inventory) option" where
  "TryRemoveItem slotIndex cnt iv = do {
     _ \<leftarrow> AssertOwnedByCurrentZone iv;
     if cnt = 0 \<or> \<not> IsValidSlotIndex slotIndex then Some (False, iv)
     else case inv_slots iv slotIndex of
            None \<Rightarrow> Some (False, iv)
          | Some item \<Rightarrow>
              if m_count item < cnt then Some (False, iv)
              else
                let item = RemoveCount cnt item;
                    slots = (if m_count item = 0 then (inv_slots iv)(slotIndex := None)
                             else (inv_slots iv)(slotIndex \<mapsto> item))
                in do {
                  iv \<leftarrow> SaveSlotToDB slotIndex (iv\<lparr>inv_slots := slots\<rparr>);
                  Some (True, iv) } }"

definition TryExtractItem :: "slot_iter \<Rightarrow> uint16 \<Rightarrow> uint16 \<Rightarrow> Inventory \<Rightarrow> (Item option \<times> Inventory) option" where
  "TryExtractItem iter slotIndex cnt iv = do {
     _ \<leftarrow> AssertOwnedByCurrentZone iv;
     if cnt = 0 \<or> \<not> IsValidSlotIndex slotIndex then Some (None, iv)
     else case inv_slots iv slotIndex of
            None \<Rightarrow> Some (None, iv)
          | Some item \<Rightarrow>
              if m_count item < cnt then Some (None, iv)
              else do {
                (extracted, iv) \<leftarrow>
                  (if m_count item = cnt
                   then
                     let iv = iv\<lparr>inv_slots := (inv_slots iv)(slotIndex := None)\<rparr>
                     in if isEquipment item
                        then let wasEquipped = IsEquipped item; extracted = setEquipped False item
                             in if wasEquipped
                                then do { iv \<leftarrow> RecomputeOffensive iter iv; Some (extracted, iv) }
                                else Some (extracted, iv)
                        else Some (item, iv)
                   else
                     let rest = RemoveCount cnt item
                     in do {
                       extracted \<leftarrow> MakeNewItem (m_itemTableId rest) cnt;
                       Some (extracted, iv\<lparr>inv_slots := (inv_slots iv)(slotIndex \<mapsto> rest)\<rparr>) });
                let extracted = extracted\<lparr>m_OwnerID := npos\<rparr>;
                iv \<leftarrow> SaveSlotToDB slotIndex iv;
                Some (Some extracted, iv) } }"

subsection \<open>Equipping\<close>

fun previous_loop :: "uint16 \<Rightarrow> (uint16 \<rightharpoonup> Item) \<Rightarrow> uint16 list \<Rightarrow> uint16 option" where
  "previous_loop slotIndex slots [] = None"
| "previous_loop slotIndex slots (k # ks) =
     (if k = slotIndex then previous_loop slotIndex slots ks
      else case slots k of
             None \<Rightarrow> previous_loop slotIndex slots ks
           | Some other \<Rightarrow> if IsEquipped other then Some k else previous_loop slotIndex slots ks)"

definition unequip_at :: "uint16 \<Rightarrow> (uint16 \<rightharpoonup> Item) \<Rightarrow> (uint16 \<rightharpoonup> Item)" where
  "unequip_at k slots = slots(k := map_option (setEquipped False) (slots k))"

definition equip_at :: "uint16 \<Rightarrow> (uint16 \<rightharpoonup> Item) \<Rightarrow> (uint16 \<rightharpoonup> Item)" where
  "equip_at k slots = slots(k := map_option (setEquipped True) (slots k))"

definition TryEquip :: "slot_iter \<Rightarrow> uint16 \<Rightarrow> Inventory \<Rightarrow> (bool \<times> uint16 option \<times> Inventory) option" where
  "TryEquip iter slotIndex iv = do {
     _ \<leftarrow> AssertOwnedByCurrentZone iv;
     if \<not> IsValidSlotIndex slotIndex then Some (False, None, iv)
     else case inv_slots iv slotIndex of
            None \<Rightarrow> Some (False, None, iv)
          | Some item \<Rightarrow>
              if \<not> isEquipment item \<or> IsEquipped item then Some (False, None, iv)
              else
                let slots = inv_slots iv;
                    previous = previous_loop slotIndex slots (iter slots);
                    slots = (case previous of None \<Rightarrow> slots | Some p \<Rightarrow> unequip_at p slots)
                in do {
                  iv \<leftarrow> RecomputeOffensive iter (iv\<lparr>inv_slots := equip_at slotIndex slots\<rparr>);
                  iv \<leftarrow> (case previous of
                            Some p \<Rightarrow> SaveTwoSlotsToDB p slotIndex iv
                          | None \<Rightarrow> SaveSlotToDB slotIndex iv);
                  Some (True, previous, iv) } }"

definition TryUnequip :: "slot_iter \<Rightarrow> uint16 \<Rightarrow> Inventory \<Rightarrow> (bool \<times> Inventory) option" where
  "TryUnequip iter slotIndex iv = do {
     _ \<leftarrow> AssertOwnedByCurrentZone iv;
     if \<not> IsValidSlotIndex slotIndex then Some (False, iv)
     else case inv_slots iv slotIndex of
            None \<Rightarrow> Some (False, iv)
          | Some item \<Rightarrow>
              if \<not> isEquipment item \<or> \<not> IsEquipped item then Some (False, iv)
              else do {
                iv \<leftarrow> RecomputeOffensive iter
                         (iv\<lparr>inv_slots := unequip_at slotIndex (inv_slots iv)\<rparr>);
                iv \<leftarrow> SaveSlotToDB slotIndex iv;
                Some (True, iv) } }"

subsection \<open>Using and swapping\<close>

definition TryUseItem :: "uint16 \<Rightarrow> Inventory \<Rightarrow> (bool \<times> Inventory) option" where
  "TryUseItem slotIndex iv = do {
     _ \<leftarrow> AssertOwnedByCurrentZone iv;
     if \<not> IsValidSlotIndex slotIndex then Some (False, iv)
     else case inv_slots iv slotIndex of
            None \<Rightarrow> Some (False, iv)
          | Some item \<Rightarrow>
              if isEquipment item then Some (False, iv)
              else do {
                row \<leftarrow> ItemTable_Find (m_itemTableId item);
                owner \<leftarrow> inv_owner iv;
                let iv = (if row_healAmount row > 0
                           then iv\<lparr>inv_owner := Some (owner\<lparr>owner_stat :=
                                  HealHp (row_healAmount row) PLAYER_MAX_HP (owner_stat owner)\<rparr>)\<rparr>
                           else iv);
                let item = RemoveCount 1 item;
                let slots = (if m_count item = 0 then (inv_slots iv)(slotIndex := None)
                             else (inv_slots iv)(slotIndex \<mapsto> item));
                iv \<leftarrow> SaveSlotToDB slotIndex (iv\<lparr>inv_slots := slots\<rparr>);
                Some (True, iv) } }"

definition TrySwapSlots :: "uint16 \<Rightarrow> uint16 \<Rightarrow> Inventory \<Rightarrow> (bool \<times> Inventory) option" where
  "TrySwapSlots slotIndexA slotIndexB iv = do {
     _ \<leftarrow> AssertOwnedByCurrentZone iv;
     if \<not> IsValidSlotIndex slotIndexA \<or> \<not> IsValidSlotIndex slotIndexB then Some (False, iv)
     else if slotIndexA = slotIndexB then Some (False, iv)
     else
       let a = inv_slots iv slotIndexA; b = inv_slots iv slotIndexB
       in if a = None \<and> b = None then Some (False, iv)
          else
            let slots = (inv_slots iv)(slotIndexB := a);
                slots = slots(slotIndexA := b)
            in do {
              iv \<leftarrow> SaveTwoSlotsToDB slotIndexA slotIndexB (iv\<lparr>inv_slots := slots\<rparr>);
              Some (True, iv) } }"

end
