(* ===== verification/InventoryInvariants.thy ===== *)
theory InventoryInvariants
  imports Inventories
begin

text \<open>
  What an inventory promises.  The traversal order of the slot map is an interface: the locale
  \<open>slot_iteration\<close> states the two facts the language guarantees of a range loop over an
  \<^verbatim>\<open>unordered_map\<close> (every key once, no other key), and every lemma on the operations is proved
  from them.  \<open>inv_ok\<close> is the invariant of a player's inventory; \<open>inv_total\<close> counts the pieces
  of one kind of item; \<open>inv_capacity\<close> counts how many more would fit.
\<close>

subsection \<open>Slot indices\<close>

lemma unat_slot_of_nat: "n < 30 \<Longrightarrow> unat (of_nat n :: uint16) = n"
  by (rule unat_of_nat_noof) simp

lemma set_slot_indices: "set slot_indices = {k. IsValidSlotIndex k}"
proof -
  have "k \<in> of_nat ` {..<30::nat}" if "unat k < 30" for k :: uint16
    using that by (intro image_eqI [of _ _ "unat k"]) simp_all
  then show ?thesis
    by (auto simp: slot_indices_def IsValidSlotIndex_def MAX_INVENTORY_SLOTS_def unat_less_iff
        unat_slot_of_nat atLeast0LessThan)
qed

lemma distinct_slot_indices: "distinct slot_indices"
proof -
  have "inj_on (of_nat :: nat \<Rightarrow> uint16) {0..<30}"
    by (rule inj_onI) (metis atLeastLessThan_iff unat_slot_of_nat)
  then show ?thesis
    by (simp add: slot_indices_def distinct_map)
qed

lemma finite_valid_slots: "finite {k. IsValidSlotIndex k}"
  by (metis List.finite_set set_slot_indices)

subsection \<open>Quantities\<close>

text \<open>The pieces of kind \<open>i\<close> in one slot, and in the inventory.\<close>

definition amount :: "ItemTableId \<Rightarrow> Item option \<Rightarrow> nat" where
  "amount i s = (case s of None \<Rightarrow> 0
                 | Some it \<Rightarrow> if m_itemTableId it = i then unat (m_count it) else 0)"

definition inv_total :: "ItemTableId \<Rightarrow> (uint16 \<rightharpoonup> Item) \<Rightarrow> nat" where
  "inv_total i slots = sum_list (map (\<lambda>k. amount i (slots k)) slot_indices)"

text \<open>How many more pieces of kind \<open>i\<close> fit into one slot, and into the inventory.\<close>

definition room_in :: "ItemTableId \<Rightarrow> nat \<Rightarrow> Item option \<Rightarrow> nat" where
  "room_in i maxStack s = (case s of None \<Rightarrow> maxStack
     | Some it \<Rightarrow> if m_itemTableId it = i then maxStack - unat (m_count it) else 0)"

definition inv_capacity :: "ItemTableId \<Rightarrow> nat \<Rightarrow> (uint16 \<rightharpoonup> Item) \<Rightarrow> nat" where
  "inv_capacity i maxStack slots = sum_list (map (\<lambda>k. room_in i maxStack (slots k)) slot_indices)"

lemma amount_simps [simp]:
  "amount i None = 0"
  "amount i (Some it) = (if m_itemTableId it = i then unat (m_count it) else 0)"
  by (simp_all add: amount_def)

lemma inv_total_sum: "inv_total i slots = (\<Sum>k | IsValidSlotIndex k. amount i (slots k))"
  by (simp add: inv_total_def sum_list_map_distinct [OF distinct_slot_indices] set_slot_indices)

lemma inv_total_upd:
  assumes "IsValidSlotIndex k"
  shows "inv_total i (slots(k := s)) + amount i (slots k) = inv_total i slots + amount i s"
proof -
  let ?V = "{k. IsValidSlotIndex k}"
  have "(\<Sum>j\<in>?V - {k}. amount i ((slots(k := s)) j)) = (\<Sum>j\<in>?V - {k}. amount i (slots j))"
    by (rule sum.cong) auto
  then show ?thesis
    using assms by (simp add: inv_total_sum sum.remove [OF finite_valid_slots])
qed

lemma inv_total_upd2:
  assumes "IsValidSlotIndex k" "IsValidSlotIndex j" "k \<noteq> j"
  shows "inv_total i (slots(k := s, j := t)) + amount i (slots k) + amount i (slots j)
    = inv_total i slots + amount i s + amount i t"
  using inv_total_upd [OF assms(1), of i slots s] inv_total_upd [OF assms(2), of i "slots(k := s)" t]
    assms(3) by simp

subsection \<open>The invariant\<close>

definition item_ok :: "ObjID \<Rightarrow> Item \<Rightarrow> bool" where
  "item_ok ownerId it \<longleftrightarrow> m_OwnerID it = ownerId \<and>
     (case ItemTable_Find (m_itemTableId it) of
        None \<Rightarrow> False
      | Some row \<Rightarrow> isEquipment it = (row_type row = eEquipment) \<and>
                    1 \<le> m_count it \<and> m_count it \<le> row_maxStack row)"

text \<open>The equipped slots with what is equipped there.\<close>

definition equipped_set :: "(uint16 \<rightharpoonup> Item) \<Rightarrow> (uint16 \<times> ItemTableId) set" where
  "equipped_set slots = {(k, m_itemTableId it) | k it. slots k = Some it \<and> IsEquipped it}"

definition slots_ok :: "ObjID \<Rightarrow> (uint16 \<rightharpoonup> Item) \<Rightarrow> bool" where
  "slots_ok ownerId slots \<longleftrightarrow>
     dom slots \<subseteq> {k. IsValidSlotIndex k} \<and>
     (\<forall>k it. slots k = Some it \<longrightarrow> item_ok ownerId it) \<and>
     (\<forall>p \<in> equipped_set slots. \<forall>q \<in> equipped_set slots. p = q)"

text \<open>The attack power that a set of equipped items gives.\<close>

definition offensive_ok :: "(uint16 \<times> ItemTableId) set \<Rightarrow> uint16 \<Rightarrow> bool" where
  "offensive_ok E off \<longleftrightarrow>
     (E = {} \<longrightarrow> off = PLAYER_OFFENSIVE) \<and>
     (\<forall>k i row. (k, i) \<in> E \<and> ItemTable_Find i = Some row
        \<longrightarrow> off = PLAYER_OFFENSIVE + row_attackBonus row)"

definition inv_ok :: "Inventory \<Rightarrow> bool" where
  "inv_ok iv \<longleftrightarrow> (\<exists>owner. inv_owner iv = Some owner \<and>
     slots_ok (owner_ObjID owner) (inv_slots iv) \<and>
     offensive_ok (equipped_set (inv_slots iv)) (m_offensive (owner_stat owner)))"

lemma item_ok_row:
  assumes "item_ok ownerId it"
  obtains row where "ItemTable_Find (m_itemTableId it) = Some row"
    "isEquipment it = (row_type row = eEquipment)" "1 \<le> unat (m_count it)"
    "unat (m_count it) \<le> unat (row_maxStack row)"
  using assms by (auto simp: item_ok_def unat_le_iff split: option.splits)

lemma item_ok_equipment_count:
  assumes "item_ok ownerId it" "isEquipment it"
  shows "m_count it = 1"
proof -
  from item_ok_row [OF assms(1)] obtain row where r: "ItemTable_Find (m_itemTableId it) = Some row"
    "row_type row = eEquipment" "1 \<le> unat (m_count it)" "unat (m_count it) \<le> unat (row_maxStack row)"
    using assms(2) by metis
  then have "row_maxStack row = 1"
    using kRows_equipment ItemTable_Find_iff by blast
  with r have "unat (m_count it) = unat (1 :: uint16)"
    by simp
  then show ?thesis
    by (rule word_unat_eq_iff [THEN iffD2])
qed

lemma equipped_set_upd:
  "equipped_set (slots(k := s)) = (equipped_set slots - {k} \<times> UNIV) \<union>
     (case s of None \<Rightarrow> {} | Some it \<Rightarrow> if IsEquipped it then {(k, m_itemTableId it)} else {})"
  by (auto simp: equipped_set_def split: option.splits if_splits)

lemma equipped_set_empty [simp]: "equipped_set Map.empty = {}"
  by (simp add: equipped_set_def)

lemma equipped_set_same:
  assumes "\<And>k. map_option (\<lambda>it. (IsEquipped it, m_itemTableId it)) (slots k)
             = map_option (\<lambda>it. (IsEquipped it, m_itemTableId it)) (slots' k)"
  shows "equipped_set slots = equipped_set slots'"
proof -
  have "slots k = Some it \<Longrightarrow> \<exists>it'. slots' k = Some it' \<and> IsEquipped it' = IsEquipped it
      \<and> m_itemTableId it' = m_itemTableId it"
    and "slots' k = Some it \<Longrightarrow> \<exists>it'. slots k = Some it' \<and> IsEquipped it' = IsEquipped it
      \<and> m_itemTableId it' = m_itemTableId it" for k it
    using assms [of k] by (cases "slots k"; cases "slots' k"; force)+
  then show ?thesis
    unfolding equipped_set_def by (auto; metis)
qed

lemma equipped_set_fst: "(k, i) \<in> equipped_set slots \<Longrightarrow> \<exists>it. slots k = Some it \<and> IsEquipped it \<and> m_itemTableId it = i"
  by (auto simp: equipped_set_def)

lemma slots_ok_upd:
  assumes "slots_ok ownerId slots" "IsValidSlotIndex k" "item_ok ownerId it"
    and "IsEquipped it \<Longrightarrow> equipped_set slots \<subseteq> {k} \<times> UNIV"
  shows "slots_ok ownerId (slots(k \<mapsto> it))"
proof -
  have "\<forall>p \<in> equipped_set (slots(k \<mapsto> it)). \<forall>q \<in> equipped_set (slots(k \<mapsto> it)). p = q"
    using assms(1,4) unfolding equipped_set_upd slots_ok_def
    by (cases "IsEquipped it") auto
  then show ?thesis
    using assms(1,2,3) by (auto simp: slots_ok_def)
qed

lemma slots_ok_erase: "slots_ok ownerId slots \<Longrightarrow> slots_ok ownerId (slots(k := None))"
  unfolding slots_ok_def equipped_set_upd by auto

lemma slots_okD:
  assumes "slots_ok ownerId slots" "slots k = Some it"
  shows "item_ok ownerId it" "IsValidSlotIndex k"
  using assms by (auto simp: slots_ok_def dom_def)


lemma inv_okE:
  assumes "inv_ok iv"
  obtains owner where "inv_owner iv = Some owner" "slots_ok (owner_ObjID owner) (inv_slots iv)"
    "offensive_ok (equipped_set (inv_slots iv)) (m_offensive (owner_stat owner))"
  using assms by (auto simp: inv_ok_def)

lemma inv_okI:
  assumes "inv_owner iv = Some owner" "slots_ok (owner_ObjID owner) (inv_slots iv)"
    "offensive_ok (equipped_set (inv_slots iv)) (m_offensive (owner_stat owner))"
  shows "inv_ok iv"
  using assms by (auto simp: inv_ok_def)

subsection \<open>The save requests\<close>

lemma SaveSlotToDB_Some:
  assumes "inv_owner iv = Some owner"
  obtains rs where "SaveSlotToDB k iv = Some (iv\<lparr>inv_requests := rs\<rparr>)"
  using assms that by (cases "inv_slots iv k") (auto simp: SaveSlotToDB_def request_def)

lemma SaveTwoSlotsToDB_Some:
  assumes "inv_owner iv = Some owner"
  obtains rs where "SaveTwoSlotsToDB a b iv = Some (iv\<lparr>inv_requests := rs\<rparr>)"
  using assms by (auto simp: SaveTwoSlotsToDB_def request_def)

lemma save_slots_Some:
  "inv_owner iv = Some owner \<Longrightarrow> \<exists>rs. save_slots ks iv = Some (iv\<lparr>inv_requests := rs\<rparr>)"
proof (induction ks arbitrary: iv)
  case Nil
  have "iv = iv\<lparr>inv_requests := inv_requests iv\<rparr>"
    by simp
  then show ?case
    by (metis save_slots.simps(1))
next
  case (Cons k ks)
  from SaveSlotToDB_Some [OF Cons.prems] obtain rs where
    "SaveSlotToDB k iv = Some (iv\<lparr>inv_requests := rs\<rparr>)" .
  with Cons.IH [of "iv\<lparr>inv_requests := rs\<rparr>"] Cons.prems show ?case
    by auto
qed

lemma inv_ok_requests [simp]: "inv_ok (iv\<lparr>inv_requests := rs\<rparr>) = inv_ok iv"
  by (simp add: inv_ok_def)

subsection \<open>The traversal interface\<close>

locale slot_iteration =
  fixes iter :: slot_iter
  assumes iter_distinct: "dom slots \<subseteq> {k. IsValidSlotIndex k} \<Longrightarrow> distinct (iter slots)"
    and iter_set: "dom slots \<subseteq> {k. IsValidSlotIndex k} \<Longrightarrow> set (iter slots) = dom slots"
begin

lemma iter_ok:
  assumes "slots_ok ownerId slots"
  shows "distinct (iter slots)" "set (iter slots) = dom slots"
  using assms iter_distinct iter_set by (auto simp: slots_ok_def)

lemma GetEquippedItemId_none:
  assumes "slots_ok ownerId slots" "equipped_set slots = {}"
  shows "GetEquippedItemId iter slots = ITEM_TABLE_ID_NONE"
proof -
  have "equipped_loop slots ks = ITEM_TABLE_ID_NONE" for ks
    using assms(2) by (induction ks) (auto simp: equipped_set_def split: option.splits)
  then show ?thesis
    by (simp add: GetEquippedItemId_def)
qed

lemma GetEquippedItemId_some:
  assumes ok: "slots_ok ownerId slots" and e: "(k, i) \<in> equipped_set slots"
  shows "GetEquippedItemId iter slots = i"
proof -
  have uniq: "j = k \<and> m_itemTableId it = i" if "slots j = Some it" "IsEquipped it" for j it
  proof -
    have "(j, m_itemTableId it) \<in> equipped_set slots"
      using that by (auto simp: equipped_set_def)
    with ok e show ?thesis
      by (auto simp: slots_ok_def)
  qed
  obtain it where it: "slots k = Some it" "IsEquipped it"
    using equipped_set_fst [OF e] by blast
  have loop: "k \<in> set ks \<Longrightarrow> equipped_loop slots ks = i" for ks
  proof (induction ks)
    case (Cons j ks)
    show ?case
    proof (cases "j = k")
      case True
      then show ?thesis
        using it uniq [OF it] by simp
    next
      case False
      then have "\<not> IsEquipped x" if "slots j = Some x" for x
        using that uniq by blast
      moreover have "k \<in> set ks"
        using Cons.prems False by simp
      ultimately show ?thesis
        using Cons.IH by (simp split: option.split)
    qed
  qed simp
  have "k \<in> set (iter slots)"
    using equipped_set_fst [OF e] iter_ok(2) [OF ok] by auto
  then show ?thesis
    by (simp add: GetEquippedItemId_def loop)
qed

lemma RecomputeOffensive_ok:
  assumes "inv_owner iv = Some owner" "slots_ok (owner_ObjID owner) (inv_slots iv)"
  obtains off where "RecomputeOffensive iter iv = Some (iv\<lparr>inv_owner :=
      Some (owner\<lparr>owner_stat := (owner_stat owner)\<lparr>m_offensive := off\<rparr>\<rparr>)\<rparr>)"
    "offensive_ok (equipped_set (inv_slots iv)) off"
proof (cases "equipped_set (inv_slots iv) = {}")
  case True
  then show ?thesis
    using assms GetEquippedItemId_none [OF assms(2)]
    by (intro that [of PLAYER_OFFENSIVE]) (auto simp: RecomputeOffensive_def offensive_ok_def)
next
  case False
  then obtain k i where e: "(k, i) \<in> equipped_set (inv_slots iv)"
    by auto
  then obtain it where it: "inv_slots iv k = Some it" "m_itemTableId it = i"
    by (metis equipped_set_fst)
  obtain row where row: "ItemTable_Find i = Some row"
    using item_ok_row [OF slots_okD(1) [OF assms(2) it(1)]] it(2) by metis
  have "i \<noteq> ITEM_TABLE_ID_NONE"
    using row ItemTable_Find_None_id by auto
  moreover have "p = (k, i)" if "p \<in> equipped_set (inv_slots iv)" for p
    using that e assms(2) unfolding slots_ok_def by blast
  then have "offensive_ok (equipped_set (inv_slots iv)) (PLAYER_OFFENSIVE + row_attackBonus row)"
    unfolding offensive_ok_def using e row by (metis Pair_inject empty_iff option.inject)
  ultimately show ?thesis
    using assms(1) row GetEquippedItemId_some [OF assms(2) e]
    by (intro that) (auto simp: RecomputeOffensive_def Let_def)
qed

text \<open>After any change of the slots that keeps them well formed, a recomputation restores the
  whole invariant.\<close>

lemma RecomputeOffensive_inv_ok:
  assumes "inv_owner iv = Some owner" "slots_ok (owner_ObjID owner) slots"
  obtains iv' where "RecomputeOffensive iter (iv\<lparr>inv_slots := slots\<rparr>) = Some iv'" "inv_ok iv'"
    "inv_slots iv' = slots" "inv_requests iv' = inv_requests iv"
    "\<exists>off. inv_owner iv' = Some (owner\<lparr>owner_stat := (owner_stat owner)\<lparr>m_offensive := off\<rparr>\<rparr>)"
proof -
  from RecomputeOffensive_ok [of "iv\<lparr>inv_slots := slots\<rparr>" owner] assms obtain off where
    "RecomputeOffensive iter (iv\<lparr>inv_slots := slots\<rparr>) = Some (iv\<lparr>inv_slots := slots, inv_owner :=
      Some (owner\<lparr>owner_stat := (owner_stat owner)\<lparr>m_offensive := off\<rparr>\<rparr>)\<rparr>)"
    "offensive_ok (equipped_set slots) off"
    by auto
  then show ?thesis
    using assms(2) by - (rule that, assumption, auto simp: inv_ok_def)
qed

end

text \<open>An executable traversal: the used slots in the order of their indices.\<close>

definition slot_order :: slot_iter where
  "slot_order slots = filter (\<lambda>k. slots k \<noteq> None) slot_indices"

interpretation slot_order: slot_iteration slot_order
  by unfold_locales (auto simp: slot_order_def distinct_slot_indices set_slot_indices dom_def)

end
