(* ===== verification/InventoryAdd.thy ===== *)
theory InventoryAdd
  imports InventoryInvariants
begin

text \<open>
  The two phases of \<open>TryAddItem\<close>.  The dry run computes the truncated difference of the count
  and the room (\<open>dry_stack_unat\<close>, \<open>dry_free_unat\<close>); the second phase leaves exactly what the dry
  run predicted (\<open>apply_stack_spec\<close>, \<open>apply_free_spec\<close>), so the item is added whole or not at all.
\<close>

subsection \<open>The dry run\<close>

definition stack_room :: "ItemTableId \<Rightarrow> nat \<Rightarrow> Item option \<Rightarrow> nat" where
  "stack_room i maxStack s = (case s of None \<Rightarrow> 0
     | Some it \<Rightarrow> if m_itemTableId it = i then maxStack - unat (m_count it) else 0)"

definition free_room :: "nat \<Rightarrow> Item option \<Rightarrow> nat" where
  "free_room maxStack s = (if s = None then maxStack else 0)"

lemma room_in_split: "room_in i M s = stack_room i M s + free_room M s"
  by (simp add: room_in_def stack_room_def free_room_def split: option.split)

lemma unat_sub_min: "unat (r - min x r) = unat r - unat (x :: 'a::len word)"
  by (simp add: unat_diff unat_min)

lemma dry_stack_unat:
  "unat (dry_stack i M slots ks r) = unat r - sum_list (map (\<lambda>k. stack_room i (unat M) (slots k)) ks)"
proof (induction ks arbitrary: r)
  case (Cons k ks)
  show ?case
  proof (cases "r = 0 \<or> slots k = None")
    case True
    then show ?thesis
      using Cons by (auto simp: stack_room_def)
  next
    case False
    then obtain it where it: "slots k = Some it"
      by auto
    show ?thesis
      using Cons it False
      by (auto simp: stack_room_def unat_sub_min unat_less_iff unat_diff unat_le_iff simp del: unat_eq_zero)
  qed
qed simp

lemma dry_stack_upd: "k \<notin> set ks \<Longrightarrow> dry_stack i M (slots(k := s)) ks r = dry_stack i M slots ks r"
  by (induction ks arbitrary: r) (auto split: option.split)

lemma dry_free_unat:
  "unat (dry_free M slots ks r) = unat r - sum_list (map (\<lambda>k. free_room (unat M) (slots k)) ks)"
  by (induction ks arbitrary: r) (auto simp: free_room_def unat_sub_min word_gt_0_iff_unat)

lemma dry_free_dom: "dom slots = dom slots' \<Longrightarrow> dry_free M slots ks r = dry_free M slots' ks r"
proof (induction ks arbitrary: r)
  case (Cons k ks)
  have "slots k = None \<longleftrightarrow> slots' k = None"
    using Cons.prems by (metis domIff)
  then show ?case
    using Cons by simp
qed simp

subsection \<open>Filling existing stacks\<close>

text \<open>How the slot maps before and after the two loops are related: the touched slots hold only
  items of the added kind, the others are as before, and what was equipped stays equipped.\<close>

definition grown :: "ItemTableId \<Rightarrow> (uint16 \<rightharpoonup> Item) \<Rightarrow> (uint16 \<rightharpoonup> Item) \<Rightarrow> uint16 set \<Rightarrow> bool" where
  "grown i slots slots' T \<longleftrightarrow> equipped_set slots' = equipped_set slots \<and> T \<subseteq> {k. IsValidSlotIndex k} \<and>
     (\<forall>k. k \<notin> T \<longrightarrow> slots' k = slots k) \<and> (\<forall>k\<in>T. \<exists>it. slots' k = Some it \<and> m_itemTableId it = i) \<and>
     (\<forall>k\<in>T. \<forall>it. slots k = Some it \<longrightarrow> m_itemTableId it = i)"

lemma grown_refl [simp]: "grown i slots slots {}"
  by (simp add: grown_def)

lemma grown_trans: "grown i s1 s2 T \<Longrightarrow> grown i s2 s3 U \<Longrightarrow> grown i s1 s3 (T \<union> U)"
  unfolding grown_def by (metis Un_iff Un_subset_iff)

lemma grown_other:
  assumes "grown i slots slots' T" "j \<noteq> i"
  shows "inv_total j slots' = inv_total j slots"
proof -
  have "amount j (slots' k) = amount j (slots k)" for k
    using assms by (cases "k \<in> T"; cases "slots k") (force simp: grown_def)+
  then show ?thesis
    by (simp add: inv_total_def)
qed

lemma grow_one:
  assumes ok: "slots_ok ownerId slots" and it: "slots k = Some it" "m_itemTableId it = i"
    and a: "unat a \<le> unat M - unat (m_count it)"
    and row: "ItemTable_Find i = Some row" "M = row_maxStack row"
  shows "slots_ok ownerId (slots(k \<mapsto> AddCount a it))"
    "grown i slots (slots(k \<mapsto> AddCount a it)) {k}"
    "inv_total i (slots(k \<mapsto> AddCount a it)) = inv_total i slots + unat a"
proof -
  have v: "IsValidSlotIndex k" and iok: "item_ok ownerId it"
    using slots_okD [OF ok it(1)] by simp_all
  have M: "unat M \<le> 99"
    using ItemTable_Find_stack [OF row(1)] row(2) by simp
  from item_ok_row [OF iok] it(2) row have c: "1 \<le> unat (m_count it)" "unat (m_count it) \<le> unat M"
    by auto
  have sum: "unat (m_count it + a) = unat (m_count it) + unat a"
    by (rule unat_add_noof) (use a c M in simp)
  have eq: "equipped_set (slots(k \<mapsto> AddCount a it)) = equipped_set slots"
    by (rule equipped_set_same) (use it in simp)
  have "item_ok ownerId (AddCount a it)"
    using iok it row a c sum by (auto simp: item_ok_def unat_le_iff)
  then show "slots_ok ownerId (slots(k \<mapsto> AddCount a it))"
    using ok v unfolding slots_ok_def eq by auto
  show "grown i slots (slots(k \<mapsto> AddCount a it)) {k}"
    using it v by (simp add: grown_def eq)
  show "inv_total i (slots(k \<mapsto> AddCount a it)) = inv_total i slots + unat a"
    using inv_total_upd [OF v, of i slots "Some (AddCount a it)"] it sum by simp
qed

lemma apply_stack_spec:
  assumes "slots_ok ownerId slots" "distinct ks"
    and row: "ItemTable_Find i = Some row" "M = row_maxStack row"
    and "apply_stack i M ks slots r ts = (slots', r', ts')"
  shows "slots_ok ownerId slots' \<and> dom slots' = dom slots \<and> r' = dry_stack i M slots ks r \<and>
    inv_total i slots' + unat r' = inv_total i slots + unat r \<and>
    (\<exists>us. ts' = ts @ us \<and> grown i slots slots' (set us))"
  using assms(1,2,5)
proof (induction ks arbitrary: slots r ts)
  case Nil
  then show ?case
    by auto
next
  case (Cons k ks)
  show ?case
  proof (cases "\<exists>it. r \<noteq> 0 \<and> slots k = Some it \<and> m_itemTableId it = i \<and> m_count it < M")
    case False
    have "dry_stack i M slots (k # ks) r = (if r = 0 then r else dry_stack i M slots ks r)"
      using False by (auto split: option.split)
    moreover have "apply_stack i M (k # ks) slots r ts =
        (if r = 0 then (slots, r, ts) else apply_stack i M ks slots r ts)"
      using False by (auto split: option.split)
    ultimately show ?thesis
      using Cons.prems Cons.IH [of slots r ts]
      by (cases "r = 0") (auto intro: exI [of _ "[]"])
  next
    case True
    then obtain it where it: "r \<noteq> 0" "slots k = Some it" "m_itemTableId it = i" "m_count it < M"
      by blast
    define a where "a = min (M - m_count it) r"
    define s1 where "s1 = slots(k \<mapsto> AddCount a it)"
    have ua: "unat a \<le> unat M - unat (m_count it)" "unat a \<le> unat r"
      using it(4) by (simp_all add: a_def unat_min unat_diff unat_le_iff unat_less_iff)
    note g = grow_one [OF Cons.prems(1) it(2,3) ua(1) row, folded s1_def]
    have step: "apply_stack i M ks s1 (r - a) (ts @ [k]) = (slots', r', ts')"
      using Cons.prems(3) it by (simp add: a_def s1_def Let_def)
    have dry: "dry_stack i M slots (k # ks) r = dry_stack i M slots ks (r - a)"
      using it by (simp add: a_def)
    have "dry_stack i M s1 ks (r - a) = dry_stack i M slots ks (r - a)"
      using Cons.prems(2) by (simp add: s1_def dry_stack_upd)
    moreover have "unat (r - a) + unat a = unat r"
      using ua(2) by (simp add: unat_diff unat_le_iff)
    moreover have "dom s1 = dom slots"
      using it by (auto simp: s1_def)
    moreover obtain us where "ts' = (ts @ [k]) @ us" "grown i s1 slots' (set us)"
      using Cons.IH [OF g(1) _ step] Cons.prems(2) by auto
    then have "ts' = ts @ k # us" "grown i slots slots' (set (k # us))"
      using grown_trans [OF g(2)] by auto
    ultimately show ?thesis
      using Cons.IH [OF g(1) _ step] Cons.prems(2) g(3) dry by auto
  qed
qed


subsection \<open>Filling free slots\<close>

lemma fill_one:
  assumes ok: "slots_ok ownerId slots" and k: "IsValidSlotIndex k" "slots k = None"
    and new: "MakeNewItem i a = Some it" and a: "1 \<le> unat a" "unat a \<le> unat M"
    and row: "ItemTable_Find i = Some row" "M = row_maxStack row"
  shows "slots_ok ownerId (slots(k \<mapsto> it\<lparr>m_OwnerID := ownerId\<rparr>))"
    "grown i slots (slots(k \<mapsto> it\<lparr>m_OwnerID := ownerId\<rparr>)) {k}"
    "inv_total i (slots(k \<mapsto> it\<lparr>m_OwnerID := ownerId\<rparr>)) = inv_total i slots + unat a"
proof -
  let ?it = "it\<lparr>m_OwnerID := ownerId\<rparr>"
  note n = MakeNewItem_Some [OF new]
  have iok: "item_ok ownerId ?it"
    using n row a by (auto simp: item_ok_def unat_le_iff)
  show "slots_ok ownerId (slots(k \<mapsto> ?it))"
    by (rule slots_ok_upd [OF ok k(1) iok]) (use n in simp)
  have "equipped_set slots \<inter> {k} \<times> UNIV = {}"
    using k(2) by (auto simp: equipped_set_def)
  then have "equipped_set (slots(k \<mapsto> ?it)) = equipped_set slots"
    using n unfolding equipped_set_upd by auto
  then show "grown i slots (slots(k \<mapsto> ?it)) {k}"
    using k n by (simp add: grown_def)
  show "inv_total i (slots(k \<mapsto> ?it)) = inv_total i slots + unat a"
    using inv_total_upd [OF k(1), of i slots "Some ?it"] k n by simp
qed

lemma dry_free_upd: "k \<notin> set ks \<Longrightarrow> dry_free M (slots(k := s)) ks r = dry_free M slots ks r"
  by (induction ks arbitrary: r) auto

lemma apply_free_spec:
  assumes "slots_ok ownerId slots" "distinct ks" "set ks \<subseteq> {k. IsValidSlotIndex k}"
    and row: "ItemTable_Find i = Some row" "M = row_maxStack row"
  shows "\<exists>slots' us. apply_free ownerId i M ks slots r ts = Some (slots', ts @ us) \<and>
    slots_ok ownerId slots' \<and> grown i slots slots' (set us) \<and>
    inv_total i slots' + unat (dry_free M slots ks r) = inv_total i slots + unat r"
  using assms(1,2,3)
proof (induction ks arbitrary: slots r ts)
  case Nil
  then show ?case
    by (auto intro!: exI [of _ "[]"])
next
  case (Cons k ks)
  show ?case
  proof (cases "0 < r \<and> slots k = None")
    case False
    then have "dry_free M slots (k # ks) r = (if 0 < r then dry_free M slots ks r else r)"
      "apply_free ownerId i M (k # ks) slots r ts =
        (if 0 < r then apply_free ownerId i M ks slots r ts else Some (slots, ts))"
      by auto
    then show ?thesis
      using Cons.prems Cons.IH [of slots r ts] by (cases "0 < r") (auto intro!: exI [of _ "[]"])
  next
    case True
    define a where "a = min M r"
    have a: "1 \<le> unat a" "unat a \<le> unat M" "unat a \<le> unat r"
      using True ItemTable_Find_stack [OF row(1)] row(2)
      by (auto simp: a_def unat_min word_gt_0_iff_unat)
    obtain it where new: "MakeNewItem i a = Some it"
      using row(1) by (cases "MakeNewItem i a") (auto simp: MakeNewItem_None_iff)
    define s1 where "s1 = slots(k \<mapsto> it\<lparr>m_OwnerID := ownerId\<rparr>)"
    have k: "IsValidSlotIndex k" "slots k = None"
      using True Cons.prems by auto
    note f = fill_one [OF Cons.prems(1) k new a(1,2) row, folded s1_def]
    from Cons.IH [OF f(1), of "r - a" "ts @ [k]"] Cons.prems obtain slots' us where
      ih: "apply_free ownerId i M ks s1 (r - a) (ts @ [k]) = Some (slots', (ts @ [k]) @ us)"
      "slots_ok ownerId slots'" "grown i s1 slots' (set us)"
      "inv_total i slots' + unat (dry_free M s1 ks (r - a)) = inv_total i s1 + unat (r - a)"
      by auto
    have "dry_free M slots (k # ks) r = dry_free M s1 ks (r - a)"
      using True Cons.prems by (simp add: a_def s1_def dry_free_upd)
    moreover have "unat (r - a) + unat a = unat r"
      using a(3) by (simp add: unat_diff unat_le_iff)
    moreover have "apply_free ownerId i M (k # ks) slots r ts = Some (slots', ts @ k # us)"
      using True new ih(1) by (simp add: a_def s1_def Let_def)
    moreover have "grown i slots slots' (set (k # us))"
      using grown_trans [OF f(2) ih(3)] by simp
    ultimately show ?thesis
      using ih(2,4) f(3) by auto
  qed
qed


subsection \<open>The whole operation\<close>

lemma stack_room_single:
  assumes "slots_ok ownerId slots" "ItemTable_Find i = Some row" "\<not> row_maxStack row > 1"
  shows "stack_room i (unat (row_maxStack row)) (slots k) = 0"
proof (cases "slots k")
  case (Some it)
  have "unat (row_maxStack row) \<le> 1"
    using assms(3) by (simp add: unat_less_iff)
  moreover have "1 \<le> unat (m_count it)"
    using item_ok_row [OF slots_okD(1) [OF assms(1) Some]] by metis
  ultimately show ?thesis
    using Some by (simp add: stack_room_def)
qed (simp add: stack_room_def)

lemma inv_capacity_split:
  "inv_capacity i M slots = sum_list (map (\<lambda>k. stack_room i M (slots k)) slot_indices)
     + sum_list (map (\<lambda>k. free_room M (slots k)) slot_indices)"
  by (simp add: inv_capacity_def room_in_split sum_list_addf)

lemma grown_inv_ok:
  assumes "inv_owner iv = Some owner" "slots_ok (owner_ObjID owner) slots'"
    "offensive_ok (equipped_set (inv_slots iv)) (m_offensive (owner_stat owner))"
    "grown i (inv_slots iv) slots' T"
  shows "inv_ok (iv\<lparr>inv_slots := slots'\<rparr>)"
  using assms by (simp add: inv_ok_def grown_def)

context slot_iteration
begin

lemma stack_room_iter:
  assumes "slots_ok ownerId slots"
  shows "sum_list (map (\<lambda>k. stack_room i M (slots k)) (iter slots))
    = sum_list (map (\<lambda>k. stack_room i M (slots k)) slot_indices)"
proof -
  have "sum_list (map (\<lambda>k. stack_room i M (slots k)) (iter slots))
      = (\<Sum>k\<in>dom slots. stack_room i M (slots k))"
    using iter_ok [OF assms] by (simp add: sum_list_map_distinct)
  also have "\<dots> = (\<Sum>k | IsValidSlotIndex k. stack_room i M (slots k))"
    by (rule sum.mono_neutral_left)
      (use assms finite_valid_slots in \<open>auto simp: slots_ok_def stack_room_def split: option.splits\<close>)
  finally show ?thesis
    by (simp add: sum_list_map_distinct [OF distinct_slot_indices] set_slot_indices)
qed

text \<open>What remains after the dry run is the count less the capacity.\<close>

lemma dry_run_unat:
  assumes ok: "slots_ok ownerId slots" and row: "ItemTable_Find i = Some row"
  defines "M \<equiv> row_maxStack row"
  shows "unat (dry_free M slots slot_indices
      (if M > 1 then dry_stack i M slots (iter slots) cnt else cnt))
    = unat cnt - inv_capacity i (unat M) slots"
proof -
  have "unat (if M > 1 then dry_stack i M slots (iter slots) cnt else cnt)
      = unat cnt - sum_list (map (\<lambda>k. stack_room i (unat M) (slots k)) slot_indices)"
    using stack_room_single [OF ok row, folded M_def]
    by (simp add: dry_stack_unat stack_room_iter [OF ok])
  then show ?thesis
    by (simp only: dry_free_unat inv_capacity_split diff_diff_left)
qed

lemma TryAddItem_reject:
  assumes "inv_ok iv"
    and "cnt = 0 \<or> ItemTable_Find i = None \<or> (\<exists>row. ItemTable_Find i = Some row \<and>
      inv_capacity i (unat (row_maxStack row)) (inv_slots iv) < unat cnt)"
  shows "TryAddItem iter i cnt iv = Some (False, [], iv)"
proof -
  from assms(1) obtain owner where o: "inv_owner iv = Some owner"
    "slots_ok (owner_ObjID owner) (inv_slots iv)"
    by (rule inv_okE)
  show ?thesis
  proof (cases "ItemTable_Find i")
    case None
    then show ?thesis
      using o by (simp add: TryAddItem_def AssertOwnedByCurrentZone_def crash_simps)
  next
    case (Some row)
    then have "cnt = 0 \<or> 0 < dry_free (row_maxStack row) (inv_slots iv) slot_indices
        (if row_maxStack row > 1 then dry_stack i (row_maxStack row) (inv_slots iv)
           (iter (inv_slots iv)) cnt else cnt)"
      using assms(2) dry_run_unat [OF o(2) Some] by (auto simp only: word_gt_0_iff_unat)
    then show ?thesis
      using o Some
      by (auto simp: TryAddItem_def AssertOwnedByCurrentZone_def crash_simps Let_def)
  qed
qed

lemma TryAddItem_accept:
  assumes ok: "inv_ok iv" and cnt: "cnt \<noteq> 0" and row: "ItemTable_Find i = Some row"
    and cap: "unat cnt \<le> inv_capacity i (unat (row_maxStack row)) (inv_slots iv)"
  shows "\<exists>ts slots'. TryAddItem iter i cnt iv
      = map_option (\<lambda>iv'. (True, ts, iv')) (save_slots ts (iv\<lparr>inv_slots := slots'\<rparr>)) \<and>
    inv_ok (iv\<lparr>inv_slots := slots'\<rparr>) \<and> grown i (inv_slots iv) slots' (set ts) \<and>
    inv_total i slots' = inv_total i (inv_slots iv) + unat cnt"
proof -
  from ok obtain owner where o: "inv_owner iv = Some owner"
    "slots_ok (owner_ObjID owner) (inv_slots iv)"
    "offensive_ok (equipped_set (inv_slots iv)) (m_offensive (owner_stat owner))"
    by (rule inv_okE)
  define M where "M = row_maxStack row"
  define slots where "slots = inv_slots iv"
  define r1 where "r1 = (if M > 1 then dry_stack i M slots (iter slots) cnt else cnt)"
  obtain slots1 r ts1 where s1: "(if M > 1 then apply_stack i M (iter slots) slots cnt []
      else (slots, cnt, [])) = (slots1, r, ts1)"
    by (metis prod_cases3)
  have "slots_ok (owner_ObjID owner) slots"
    using o(2) by (simp add: slots_def)
  note as = apply_stack_spec [OF this iter_ok(1) [OF this] row M_def, of cnt "[]" slots1 r ts1]
  have p1: "slots_ok (owner_ObjID owner) slots1" "dom slots1 = dom slots" "r = r1"
    "inv_total i slots1 + unat r = inv_total i slots + unat cnt" "grown i slots slots1 (set ts1)"
    using s1 as \<open>slots_ok (owner_ObjID owner) slots\<close> by (auto simp: r1_def split: if_splits)
  from apply_free_spec [OF p1(1) distinct_slot_indices _ row M_def, of r ts1] obtain slots2 us where
    p2: "apply_free (owner_ObjID owner) i M slot_indices slots1 r ts1 = Some (slots2, ts1 @ us)"
    "slots_ok (owner_ObjID owner) slots2" "grown i slots1 slots2 (set us)"
    "inv_total i slots2 + unat (dry_free M slots1 slot_indices r) = inv_total i slots1 + unat r"
    by (auto simp: set_slot_indices)
  have "unat (dry_free M slots slot_indices r1) = 0"
    unfolding r1_def M_def slots_def dry_run_unat [OF o(2) row, of cnt] using cap by simp
  then have z: "dry_free M slots slot_indices r1 = 0" "dry_free M slots1 slot_indices r = 0"
    using dry_free_dom [OF p1(2)] p1(3) by (simp_all add: unat_eq_zero)
  have g: "grown i slots slots2 (set (ts1 @ us))"
    using grown_trans [OF p1(5) p2(3)] by simp
  have "TryAddItem iter i cnt iv
      = map_option (\<lambda>iv'. (True, ts1 @ us, iv')) (save_slots (ts1 @ us) (iv\<lparr>inv_slots := slots2\<rparr>))"
    using o(1) cnt row z(1) s1 p2(1)
    by (cases "row_maxStack row > 1") (simp_all add: TryAddItem_def AssertOwnedByCurrentZone_def
        crash_simps Let_def r1_def M_def slots_def map_conv_bind_option comp_def)
  moreover have "inv_ok (iv\<lparr>inv_slots := slots2\<rparr>)"
    using grown_inv_ok [OF o(1) p2(2) o(3)] g by (simp add: slots_def)
  ultimately show ?thesis
    using g p1(4) p2(4) z(2)
    by (intro exI [of _ "ts1 @ us"] exI [of _ slots2]) (simp add: slots_def)
qed

end

end
