(* ===== verification/InventoryOps.thy ===== *)
theory InventoryOps
  imports InventoryAdd
begin

text \<open>
  The remaining operations of the inventory and the journal of save requests.  \<open>inv_step iv iv'\<close>
  collects what every operation keeps: the invariant, the identity of the owner, and that
  replaying the journal on the table the player was loaded from gives the current slots.
\<close>

subsection \<open>The journal\<close>

definition table_of :: "(uint16 \<rightharpoonup> Item) \<Rightarrow> SlotTable" where
  "table_of slots k = map_option (\<lambda>it. (m_itemTableId it, m_count it, IsEquipped it)) (slots k)"

text \<open>Replaying the requests made so far on the table \<open>T\<close> gives the slots, and every request is
  made for the owner.\<close>

definition journal_ok :: "SlotTable \<Rightarrow> Inventory \<Rightarrow> bool" where
  "journal_ok T iv \<longleftrightarrow> replay T (inv_requests iv) = table_of (inv_slots iv) \<and>
     (\<forall>owner. inv_owner iv = Some owner \<longrightarrow>
        (\<forall>r \<in> set (inv_requests iv). request_player r = Some (owner_playerId owner)))"

text \<open>The journal agrees with the slots except at the indices \<open>K\<close>, which are still to be saved.\<close>

definition journal_off :: "uint16 set \<Rightarrow> SlotTable \<Rightarrow> Inventory \<Rightarrow> bool" where
  "journal_off K T iv \<longleftrightarrow>
     (\<forall>k. k \<notin> K \<longrightarrow> replay T (inv_requests iv) k = table_of (inv_slots iv) k) \<and>
     (\<forall>owner. inv_owner iv = Some owner \<longrightarrow>
        (\<forall>r \<in> set (inv_requests iv). request_player r = Some (owner_playerId owner)))"

lemma journal_off_empty: "journal_off {} T iv = journal_ok T iv"
  by (auto simp: journal_off_def journal_ok_def)

lemma SaveSlotToDB_journal:
  assumes "SaveSlotToDB k iv = Some iv'" "journal_off (insert k K) T iv"
  shows "journal_off K T iv'"
proof -
  from assms(1) obtain owner where o: "inv_owner iv = Some owner"
    by (auto simp: SaveSlotToDB_def bind_eq_Some_conv)
  show ?thesis
  proof (cases "inv_slots iv k")
    case None
    then show ?thesis
      using assms o by (auto simp: SaveSlotToDB_def request_def journal_off_def replay_append table_of_def)
  next
    case (Some it)
    then show ?thesis
      using assms o by (auto simp: SaveSlotToDB_def request_def journal_off_def replay_append table_of_def)
  qed
qed

lemma save_slots_journal:
  "save_slots ks iv = Some iv' \<Longrightarrow> journal_off (set ks) T iv \<Longrightarrow> journal_ok T iv'"
proof (induction ks arbitrary: iv)
  case Nil
  then show ?case
    by (simp add: journal_off_empty)
next
  case (Cons k ks)
  from Cons.prems(1) obtain iv1 where "SaveSlotToDB k iv = Some iv1" "save_slots ks iv1 = Some iv'"
    by (auto simp: bind_eq_Some_conv)
  then show ?case
    using Cons.IH SaveSlotToDB_journal Cons.prems(2) by (metis list.simps(15))
qed

lemma describe_put: "put_slot (describe iv k) T = T(k := table_of (inv_slots iv) k)"
  by (simp add: put_slot_def describe_def table_of_def split: option.split)

lemma SaveTwoSlotsToDB_journal:
  assumes "SaveTwoSlotsToDB a b iv = Some iv'" "journal_off {a, b} T iv"
  shows "journal_ok T iv'"
  using assms
  by (auto simp: SaveTwoSlotsToDB_def request_def journal_off_def journal_ok_def replay_append
      bind_eq_Some_conv describe_put)

subsection \<open>What every operation keeps\<close>

definition inv_step :: "Inventory \<Rightarrow> Inventory \<Rightarrow> bool" where
  "inv_step iv iv' \<longleftrightarrow> inv_ok iv' \<and>
     map_option (\<lambda>p. (owner_ObjID p, owner_playerId p)) (inv_owner iv')
       = map_option (\<lambda>p. (owner_ObjID p, owner_playerId p)) (inv_owner iv) \<and>
     (\<forall>T. journal_ok T iv \<longrightarrow> journal_ok T iv')"

lemma inv_step_refl: "inv_ok iv \<Longrightarrow> inv_step iv iv"
  by (simp add: inv_step_def)

lemma inv_step_trans: "inv_step a b \<Longrightarrow> inv_step b c \<Longrightarrow> inv_step a c"
  by (simp add: inv_step_def)

lemma inv_step_player:
  "inv_step iv iv' \<Longrightarrow> map_option owner_playerId (inv_owner iv') = map_option owner_playerId (inv_owner iv)"
  by (cases "inv_owner iv"; cases "inv_owner iv'") (simp_all add: inv_step_def)

text \<open>An operation writes the slots \<open>slots'\<close>, possibly the statistics of the owner, and then saves
  every slot it changed.\<close>

lemma inv_stepI_saves:
  assumes "inv_ok iv1" "inv_owner iv = Some owner" "inv_owner iv1 = Some owner1"
    "owner_ObjID owner1 = owner_ObjID owner" "owner_playerId owner1 = owner_playerId owner"
    "inv_requests iv1 = inv_requests iv" "\<forall>k. k \<notin> set ks \<longrightarrow> inv_slots iv1 k = inv_slots iv k"
  shows "\<exists>iv'. save_slots ks iv1 = Some iv' \<and> inv_step iv iv' \<and>
    inv_slots iv' = inv_slots iv1 \<and> inv_owner iv' = Some owner1"
proof -
  from save_slots_Some [OF assms(3), of ks] obtain rs where
    rs: "save_slots ks iv1 = Some (iv1\<lparr>inv_requests := rs\<rparr>)"
    by auto
  have "journal_ok T (iv1\<lparr>inv_requests := rs\<rparr>)" if "journal_ok T iv" for T
  proof (rule save_slots_journal [OF rs])
    show "journal_off (set ks) T iv1"
      using that assms(2-7) by (auto simp: journal_ok_def journal_off_def table_of_def)
  qed
  then show ?thesis
    using rs assms(1-5) by (simp add: inv_step_def)
qed

lemma inv_stepI_save:
  assumes "inv_ok iv1" "inv_owner iv = Some owner" "inv_owner iv1 = Some owner1"
    "owner_ObjID owner1 = owner_ObjID owner" "owner_playerId owner1 = owner_playerId owner"
    "inv_requests iv1 = inv_requests iv" "\<forall>j. j \<noteq> k \<longrightarrow> inv_slots iv1 j = inv_slots iv j"
  shows "\<exists>iv'. SaveSlotToDB k iv1 = Some iv' \<and> inv_step iv iv' \<and>
    inv_slots iv' = inv_slots iv1 \<and> inv_owner iv' = Some owner1"
  using inv_stepI_saves [OF assms(1-6), of "[k]"] assms(7) by (auto simp: bind_eq_Some_conv)

lemma inv_stepI_save2:
  assumes "inv_ok iv1" "inv_owner iv = Some owner" "inv_owner iv1 = Some owner1"
    "owner_ObjID owner1 = owner_ObjID owner" "owner_playerId owner1 = owner_playerId owner"
    "inv_requests iv1 = inv_requests iv"
    "\<forall>k. k \<noteq> a \<longrightarrow> k \<noteq> b \<longrightarrow> inv_slots iv1 k = inv_slots iv k"
  shows "\<exists>iv'. SaveTwoSlotsToDB a b iv1 = Some iv' \<and> inv_step iv iv' \<and>
    inv_slots iv' = inv_slots iv1 \<and> inv_owner iv' = Some owner1"
proof -
  from SaveTwoSlotsToDB_Some [OF assms(3)] obtain rs where
    rs: "SaveTwoSlotsToDB a b iv1 = Some (iv1\<lparr>inv_requests := rs\<rparr>)" .
  have "journal_ok T (iv1\<lparr>inv_requests := rs\<rparr>)" if "journal_ok T iv" for T
  proof (rule SaveTwoSlotsToDB_journal [OF rs])
    show "journal_off {a, b} T iv1"
      using that assms(2-7) by (auto simp: journal_ok_def journal_off_def table_of_def)
  qed
  then show ?thesis
    using rs assms(1-5) by (simp add: inv_step_def)
qed

subsection \<open>The operations\<close>

lemma item_ok_RemoveCount:
  assumes "item_ok ownerId it" "unat cnt < unat (m_count it)"
  shows "item_ok ownerId (RemoveCount cnt it)"
  using assms by (auto simp: item_ok_def unat_le_iff unat_RemoveCount split: option.splits)

lemma item_ok_setEquipped: "item_ok ownerId (setEquipped b it) = item_ok ownerId it"
  by (simp add: item_ok_def split: option.split)

lemma RemoveCount_zero: "m_count (RemoveCount cnt it) = 0 \<longleftrightarrow> unat (m_count it) \<le> unat cnt"
  using unat_RemoveCount [of cnt it] by (metis diff_is_0_eq unat_eq_zero)

text \<open>Taking pieces from a slot that is not equipped.\<close>

definition taken :: "uint16 \<Rightarrow> uint16 \<Rightarrow> Item \<Rightarrow> (uint16 \<rightharpoonup> Item) \<Rightarrow> (uint16 \<rightharpoonup> Item)" where
  "taken k cnt it slots =
     (if m_count (RemoveCount cnt it) = 0 then slots(k := None) else slots(k \<mapsto> RemoveCount cnt it))"

lemma taken_other [simp]: "j \<noteq> k \<Longrightarrow> taken k cnt it slots j = slots j"
  by (simp add: taken_def)

lemma taken_ok:
  assumes "slots_ok ownerId slots" "slots k = Some it" "\<not> IsEquipped it"
  shows "slots_ok ownerId (taken k cnt it slots)"
    "equipped_set (taken k cnt it slots) = equipped_set slots"
proof -
  have "equipped_set slots \<inter> {k} \<times> UNIV = {}"
    using assms(2,3) by (auto simp: equipped_set_def)
  then show "equipped_set (taken k cnt it slots) = equipped_set slots"
    using assms(3) by (auto simp: taken_def equipped_set_upd)
  show "slots_ok ownerId (taken k cnt it slots)"
    unfolding taken_def RemoveCount_zero using assms slots_okD [OF assms(1,2)]
    by (auto intro!: slots_ok_erase slots_ok_upd item_ok_RemoveCount)
qed

lemma taken_total:
  assumes "IsValidSlotIndex k" "slots k = Some it" "unat cnt \<le> unat (m_count it)"
  shows "inv_total i (taken k cnt it slots) + (if m_itemTableId it = i then unat cnt else 0)
    = inv_total i slots"
  using inv_total_upd [OF assms(1), of i slots None] assms
    inv_total_upd [OF assms(1), of i slots "Some (RemoveCount cnt it)"]
  by (auto simp: taken_def unat_RemoveCount RemoveCount_zero)

lemma TryRemoveItem_accept:
  assumes "inv_ok iv" "inv_slots iv k = Some it" "cnt \<noteq> 0" "cnt \<le> m_count it" "\<not> IsEquipped it"
  obtains iv' where "TryRemoveItem k cnt iv = Some (True, iv')" "inv_step iv iv'"
    "inv_slots iv' = taken k cnt it (inv_slots iv)" "inv_owner iv' = inv_owner iv"
proof -
  from assms(1) obtain owner where o: "inv_owner iv = Some owner"
    "slots_ok (owner_ObjID owner) (inv_slots iv)"
    "offensive_ok (equipped_set (inv_slots iv)) (m_offensive (owner_stat owner))"
    by (rule inv_okE)
  let ?s = "taken k cnt it (inv_slots iv)"
  have ok1: "inv_ok (iv\<lparr>inv_slots := ?s\<rparr>)"
    using taken_ok [OF o(2) assms(2,5), of cnt] o by (simp add: inv_ok_def)
  from inv_stepI_save [OF ok1 o(1), of owner k] o(1) obtain iv' where
    iv': "SaveSlotToDB k (iv\<lparr>inv_slots := ?s\<rparr>) = Some iv'" "inv_step iv iv'"
    "inv_slots iv' = ?s" "inv_owner iv' = inv_owner iv"
    by auto
  have "TryRemoveItem k cnt iv = Some (True, iv')"
    using assms(2-4) slots_okD(2) [OF o(2) assms(2)] o(1) iv'(1)
    by (simp add: TryRemoveItem_def AssertOwnedByCurrentZone_def crash_simps taken_def Let_def not_less)
  then show ?thesis
    using iv' that by blast
qed

lemma TrySwapSlots_accept:
  assumes "inv_ok iv" "IsValidSlotIndex a" "IsValidSlotIndex b" "a \<noteq> b"
    "inv_slots iv a \<noteq> None \<or> inv_slots iv b \<noteq> None"
  obtains iv' where "TrySwapSlots a b iv = Some (True, iv')" "inv_step iv iv'"
    "inv_slots iv' = (inv_slots iv)(b := inv_slots iv a, a := inv_slots iv b)"
    "inv_owner iv' = inv_owner iv"
proof -
  from assms(1) obtain owner where o: "inv_owner iv = Some owner"
    "slots_ok (owner_ObjID owner) (inv_slots iv)"
    "offensive_ok (equipped_set (inv_slots iv)) (m_offensive (owner_stat owner))"
    by (rule inv_okE)
  define f where "f k = (if k = a then b else if k = b then a else k)" for k
  let ?s = "(inv_slots iv)(b := inv_slots iv a, a := inv_slots iv b)"
  have s: "?s = (\<lambda>k. inv_slots iv (f k))"
    using assms(4) by (auto simp: f_def)
  have f: "f (f k) = k" "IsValidSlotIndex k \<longleftrightarrow> IsValidSlotIndex (f k)" for k
    using assms(2,3) by (auto simp: f_def)
  have E: "(k, i) \<in> equipped_set ?s \<longleftrightarrow> (f k, i) \<in> equipped_set (inv_slots iv)" for k i
    unfolding s equipped_set_def by simp
  have ne: "equipped_set ?s = {} \<longleftrightarrow> equipped_set (inv_slots iv) = {}"
    using E f(1) by (metis equals0I ex_in_conv prod.collapse)
  have "p = q" if "p \<in> equipped_set ?s" "q \<in> equipped_set ?s" for p q
  proof -
    have "(f (fst p), snd p) = (f (fst q), snd q)"
      using that o(2) E unfolding slots_ok_def by (metis prod.collapse)
    then show ?thesis
      using f(1) by (metis Pair_inject prod.expand)
  qed
  moreover have "dom ?s \<subseteq> {k. IsValidSlotIndex k}"
    using o(2) f(2) unfolding s slots_ok_def dom_def by blast
  moreover have "\<forall>k it. ?s k = Some it \<longrightarrow> item_ok (owner_ObjID owner) it"
    using o(2) unfolding s slots_ok_def by blast
  ultimately have "slots_ok (owner_ObjID owner) ?s"
    unfolding slots_ok_def by blast
  moreover have "offensive_ok (equipped_set ?s) (m_offensive (owner_stat owner))"
    using o(3) unfolding offensive_ok_def ne E by blast
  ultimately have ok1: "inv_ok (iv\<lparr>inv_slots := ?s\<rparr>)"
    using o(1) by (simp add: inv_ok_def)
  from inv_stepI_save2 [OF ok1 o(1), of owner a b] o(1) obtain iv' where
    "SaveTwoSlotsToDB a b (iv\<lparr>inv_slots := ?s\<rparr>) = Some iv'" "inv_step iv iv'"
    "inv_slots iv' = ?s" "inv_owner iv' = inv_owner iv"
    by auto
  moreover have "TrySwapSlots a b iv
      = map_option (\<lambda>iv'. (True, iv')) (SaveTwoSlotsToDB a b (iv\<lparr>inv_slots := ?s\<rparr>))"
    using assms o(1) by (auto simp: TrySwapSlots_def AssertOwnedByCurrentZone_def crash_simps Let_def
        map_conv_bind_option comp_def)
  ultimately show ?thesis
    using that by simp
qed


subsection \<open>Equipment flags\<close>

lemma unequip_at_ok:
  assumes "slots_ok ownerId slots" "slots k = Some it"
  shows "slots_ok ownerId (unequip_at k slots)"
    "equipped_set (unequip_at k slots) = equipped_set slots - {k} \<times> UNIV"
proof -
  show "equipped_set (unequip_at k slots) = equipped_set slots - {k} \<times> UNIV"
    using assms(2) by (simp add: unequip_at_def equipped_set_upd)
  show "slots_ok ownerId (unequip_at k slots)"
    using assms slots_okD [OF assms]
    by (simp add: unequip_at_def) (rule slots_ok_upd, simp_all add: item_ok_setEquipped)
qed

lemma equip_at_ok:
  assumes "slots_ok ownerId slots" "slots k = Some it" "equipped_set slots = {}" "isEquipment it"
  shows "slots_ok ownerId (equip_at k slots)"
    "equipped_set (equip_at k slots) = {(k, m_itemTableId it)}"
proof -
  show "equipped_set (equip_at k slots) = {(k, m_itemTableId it)}"
    using assms(2-4) by (simp add: equip_at_def equipped_set_upd)
  show "slots_ok ownerId (equip_at k slots)"
    using assms slots_okD [OF assms(1,2)]
    by (simp add: equip_at_def) (rule slots_ok_upd, simp_all add: item_ok_setEquipped)
qed

lemma previous_loop_None:
  "previous_loop k slots ks = None \<Longrightarrow> j \<in> set ks \<Longrightarrow> j \<noteq> k \<Longrightarrow> slots j = Some it \<Longrightarrow> \<not> IsEquipped it"
  by (induction ks) (auto split: if_splits option.splits)

lemma previous_loop_Some:
  "previous_loop k slots ks = Some p \<Longrightarrow> p \<noteq> k \<and> (\<exists>it. slots p = Some it \<and> IsEquipped it)"
  by (induction ks) (auto split: if_splits option.splits)

context slot_iteration
begin

lemma TryAddItem_accept_step:
  assumes ok: "inv_ok iv" and cnt: "cnt \<noteq> 0" and row: "ItemTable_Find i = Some row"
    and cap: "unat cnt \<le> inv_capacity i (unat (row_maxStack row)) (inv_slots iv)"
  shows "\<exists>ts iv'. TryAddItem iter i cnt iv = Some (True, ts, iv') \<and> inv_step iv iv' \<and>
    inv_owner iv' = inv_owner iv \<and> grown i (inv_slots iv) (inv_slots iv') (set ts) \<and>
    inv_total i (inv_slots iv') = inv_total i (inv_slots iv) + unat cnt"
proof -
  from ok obtain owner where o: "inv_owner iv = Some owner"
    by (rule inv_okE)
  from TryAddItem_accept [OF assms] obtain ts slots' where
    add: "TryAddItem iter i cnt iv
      = map_option (\<lambda>iv'. (True, ts, iv')) (save_slots ts (iv\<lparr>inv_slots := slots'\<rparr>))"
    "inv_ok (iv\<lparr>inv_slots := slots'\<rparr>)" "grown i (inv_slots iv) slots' (set ts)"
    "inv_total i slots' = inv_total i (inv_slots iv) + unat cnt"
    by blast
  from inv_stepI_saves [OF add(2) o, of owner ts] o add(3) obtain iv' where
    "save_slots ts (iv\<lparr>inv_slots := slots'\<rparr>) = Some iv'" "inv_step iv iv'" "inv_slots iv' = slots'"
    "inv_owner iv' = Some owner"
    by (auto simp: grown_def)
  then show ?thesis
    using add o by auto
qed

lemma Recompute_then_save:
  assumes "inv_owner iv = Some owner" "slots_ok (owner_ObjID owner) slots"
    "\<forall>j. j \<noteq> k \<longrightarrow> slots j = inv_slots iv j"
  shows "\<exists>iv1 iv'. RecomputeOffensive iter (iv\<lparr>inv_slots := slots\<rparr>) = Some iv1 \<and>
    SaveSlotToDB k iv1 = Some iv' \<and> inv_step iv iv' \<and> inv_slots iv' = slots"
proof -
  from RecomputeOffensive_inv_ok [OF assms(1,2)] obtain iv1 off where
    r: "RecomputeOffensive iter (iv\<lparr>inv_slots := slots\<rparr>) = Some iv1" "inv_ok iv1"
    "inv_slots iv1 = slots" "inv_requests iv1 = inv_requests iv"
    "inv_owner iv1 = Some (owner\<lparr>owner_stat := (owner_stat owner)\<lparr>m_offensive := off\<rparr>\<rparr>)"
    by metis
  from inv_stepI_save [OF r(2) assms(1) r(5) _ _ r(4), of k] r(3) assms(3) r(1) show ?thesis
    by auto
qed

lemma TryUnequip_accept:
  assumes "inv_ok iv" "inv_slots iv k = Some it" "IsEquipped it"
  shows "\<exists>iv'. TryUnequip iter k iv = Some (True, iv') \<and> inv_step iv iv' \<and>
    inv_slots iv' = unequip_at k (inv_slots iv) \<and> equipped_set (inv_slots iv') = {}"
proof -
  from assms(1) obtain owner where o: "inv_owner iv = Some owner"
    "slots_ok (owner_ObjID owner) (inv_slots iv)"
    by (rule inv_okE)
  note u = unequip_at_ok [OF o(2) assms(2)]
  have "(k, m_itemTableId it) \<in> equipped_set (inv_slots iv)"
    using assms(2,3) by (auto simp: equipped_set_def)
  then have "equipped_set (inv_slots iv) \<subseteq> {k} \<times> UNIV"
    using o(2) unfolding slots_ok_def by fastforce
  then have "equipped_set (unequip_at k (inv_slots iv)) = {}"
    using u(2) by auto
  moreover have "\<forall>j. j \<noteq> k \<longrightarrow> unequip_at k (inv_slots iv) j = inv_slots iv j"
    by (simp add: unequip_at_def)
  from Recompute_then_save [OF o(1) u(1) this] obtain iv1 iv' where
    "RecomputeOffensive iter (iv\<lparr>inv_slots := unequip_at k (inv_slots iv)\<rparr>) = Some iv1"
    "SaveSlotToDB k iv1 = Some iv'" "inv_step iv iv'" "inv_slots iv' = unequip_at k (inv_slots iv)"
    by blast
  ultimately show ?thesis
    using assms(2,3) IsEquipped_isEquipment [OF assms(3)] slots_okD(2) [OF o(2) assms(2)] o(1)
    by (simp add: TryUnequip_def AssertOwnedByCurrentZone_def crash_simps)
qed

text \<open>Taking off the item that the loop found leaves no item equipped.\<close>

lemma previous_taken_off:
  assumes sok: "slots_ok o1 slots" and k: "slots k = Some it" "\<not> IsEquipped it"
  defines "prev \<equiv> previous_loop k slots (iter slots)"
  defines "slots1 \<equiv> (case prev of None \<Rightarrow> slots | Some p \<Rightarrow> unequip_at p slots)"
  shows "slots_ok o1 slots1" "equipped_set slots1 = {}" "slots1 k = Some it"
    "\<forall>p. prev = Some p \<longleftrightarrow> (\<exists>i. (p, i) \<in> equipped_set slots)"
proof -
  have uniq: "p = q" if "p \<in> equipped_set slots" "q \<in> equipped_set slots" for p q
    using sok that unfolding slots_ok_def by blast
  have "slots_ok o1 slots1 \<and> equipped_set slots1 = {} \<and> slots1 k = Some it \<and>
    (\<forall>p. prev = Some p \<longleftrightarrow> (\<exists>i. (p, i) \<in> equipped_set slots))"
  proof (cases prev)
    case None
    then have "\<not> IsEquipped x" if "slots j = Some x" for j x
      using that k iter_ok(2) [OF sok] previous_loop_None [of k slots "iter slots" j x]
      unfolding prev_def by (cases "j = k") auto
    then have "equipped_set slots = {}"
      by (auto simp: equipped_set_def)
    then show ?thesis
      using None sok k by (simp add: slots1_def)
  next
    case (Some p)
    then obtain x where p: "p \<noteq> k" "slots p = Some x" "IsEquipped x"
      using previous_loop_Some [of k slots "iter slots" p] by (auto simp: prev_def)
    have "(p, m_itemTableId x) \<in> equipped_set slots"
      using p by (auto simp: equipped_set_def)
    then have e: "equipped_set slots = {(p, m_itemTableId x)}"
      using uniq by blast
    then show ?thesis
      using unequip_at_ok [OF sok p(2)] p(1) k Some
      by (auto simp: slots1_def unequip_at_def)
  qed
  then show "slots_ok o1 slots1" "equipped_set slots1 = {}" "slots1 k = Some it"
    "\<forall>p. prev = Some p \<longleftrightarrow> (\<exists>i. (p, i) \<in> equipped_set slots)"
    by simp_all
qed

lemma TryEquip_accept:
  assumes "inv_ok iv" "inv_slots iv k = Some it" "isEquipment it" "\<not> IsEquipped it"
  shows "\<exists>prev iv'. TryEquip iter k iv = Some (True, prev, iv') \<and> inv_step iv iv' \<and>
    equipped_set (inv_slots iv') = {(k, m_itemTableId it)} \<and>
    (\<forall>p. prev = Some p \<longleftrightarrow> (\<exists>i. (p, i) \<in> equipped_set (inv_slots iv)))"
proof -
  from assms(1) obtain owner where o: "inv_owner iv = Some owner"
    "slots_ok (owner_ObjID owner) (inv_slots iv)"
    by (rule inv_okE)
  define slots where "slots = inv_slots iv"
  define prev where "prev = previous_loop k slots (iter slots)"
  define slots1 where "slots1 = (case prev of None \<Rightarrow> slots | Some p \<Rightarrow> unequip_at p slots)"
  have sok: "slots_ok (owner_ObjID owner) slots" "slots k = Some it"
    using o(2) assms by (simp_all add: slots_def)
  note s1 = previous_taken_off [OF sok assms(4), folded prev_def, folded slots1_def]
  note eq = equip_at_ok [OF s1(1,3,2) assms(3)]
  from RecomputeOffensive_inv_ok [OF o(1) eq(1)] obtain iv1 off where
    r: "RecomputeOffensive iter (iv\<lparr>inv_slots := equip_at k slots1\<rparr>) = Some iv1" "inv_ok iv1"
    "inv_slots iv1 = equip_at k slots1" "inv_requests iv1 = inv_requests iv"
    "inv_owner iv1 = Some (owner\<lparr>owner_stat := (owner_stat owner)\<lparr>m_offensive := off\<rparr>\<rparr>)"
    by metis
  have "\<exists>iv'. (case prev of Some p \<Rightarrow> SaveTwoSlotsToDB p k iv1 | None \<Rightarrow> SaveSlotToDB k iv1) = Some iv'
      \<and> inv_step iv iv' \<and> inv_slots iv' = equip_at k slots1"
  proof (cases prev)
    case None
    then show ?thesis
      using inv_stepI_save [OF r(2) o(1) r(5) _ _ r(4), of k] r(3)
      by (auto simp: slots1_def equip_at_def slots_def)
  next
    case (Some p)
    then show ?thesis
      using inv_stepI_save2 [OF r(2) o(1) r(5) _ _ r(4), of p k] r(3)
      by (auto simp: slots1_def equip_at_def unequip_at_def slots_def)
  qed
  then obtain iv' where
    "(case prev of Some p \<Rightarrow> SaveTwoSlotsToDB p k iv1 | None \<Rightarrow> SaveSlotToDB k iv1) = Some iv'"
    "inv_step iv iv'" "inv_slots iv' = equip_at k slots1"
    by blast
  then show ?thesis
    using assms(2-4) slots_okD(2) [OF o(2) assms(2)] o(1) r(1) eq(2) s1(4)
    by (auto simp: TryEquip_def AssertOwnedByCurrentZone_def crash_simps Let_def
        prev_def [symmetric] slots1_def [symmetric] slots_def [symmetric])
qed

lemma TryExtractItem_accept:
  assumes ok: "inv_ok iv" and it: "inv_slots iv k = Some it" and cnt: "cnt \<noteq> 0" "cnt \<le> m_count it"
  shows "\<exists>ex iv'. TryExtractItem iter k cnt iv = Some (Some ex, iv') \<and> inv_step iv iv' \<and>
    inv_slots iv' = taken k cnt it (inv_slots iv) \<and>
    m_itemTableId ex = m_itemTableId it \<and> m_count ex = cnt \<and> \<not> IsEquipped ex \<and> IsOnGround ex \<and>
    isEquipment ex = isEquipment it"
proof -
  from ok obtain owner where o: "inv_owner iv = Some owner"
    "slots_ok (owner_ObjID owner) (inv_slots iv)"
    "offensive_ok (equipped_set (inv_slots iv)) (m_offensive (owner_stat owner))"
    by (rule inv_okE)
  let ?s = "taken k cnt it (inv_slots iv)"
  have v: "IsValidSlotIndex k" and iok: "item_ok (owner_ObjID owner) it"
    using slots_okD [OF o(2) it] by simp_all
  have s: "?s = (if m_count it = cnt then (inv_slots iv)(k := None)
      else (inv_slots iv)(k \<mapsto> RemoveCount cnt it))"
    using cnt(2) by (auto simp: taken_def RemoveCount_zero unat_le_iff word_unat_eq_iff unat_RemoveCount)
  have part: "\<not> isEquipment it" if "m_count it \<noteq> cnt"
    using item_ok_equipment_count [OF iok] cnt that
    by (auto simp: unat_le_iff word_unat_eq_iff)
  have unworn: "\<exists>iv'. SaveSlotToDB k (iv\<lparr>inv_slots := ?s\<rparr>) = Some iv' \<and> inv_step iv iv' \<and>
      inv_slots iv' = ?s" if "\<not> IsEquipped it"
  proof -
    have "inv_ok (iv\<lparr>inv_slots := ?s\<rparr>)"
      using taken_ok [OF o(2) it that, of cnt] o by (simp add: inv_ok_def)
    from inv_stepI_save [OF this o(1), of owner k] o(1) show ?thesis
      by auto
  qed
  show ?thesis
  proof (cases "m_count it = cnt")
    case False
    from item_ok_row [OF iok] obtain row where "ItemTable_Find (m_itemTableId it) = Some row"
      by metis
    then obtain ex where ex: "MakeNewItem (m_itemTableId it) cnt = Some ex"
      by (cases "MakeNewItem (m_itemTableId it) cnt") (auto simp: MakeNewItem_None_iff)
    obtain iv' where "SaveSlotToDB k (iv\<lparr>inv_slots := ?s\<rparr>) = Some iv'" "inv_step iv iv'"
      "inv_slots iv' = ?s"
      using unworn part [OF False] IsEquipped_isEquipment by blast
    moreover have "isEquipment ex = isEquipment it"
      using MakeNewItem_Some(7) [OF ex] item_ok_row [OF iok] by (metis option.inject)
    ultimately show ?thesis
      using False ex MakeNewItem_Some [OF ex] it cnt v o(1) s
      by (auto simp: TryExtractItem_def AssertOwnedByCurrentZone_def crash_simps Let_def not_less
          IsOnGround_def)
  next
    case True
    show ?thesis
    proof (cases "IsEquipped it")
      case False
      then obtain iv' where "SaveSlotToDB k (iv\<lparr>inv_slots := ?s\<rparr>) = Some iv'" "inv_step iv iv'"
        "inv_slots iv' = ?s"
        using unworn by blast
      then show ?thesis
        using True False it cnt v o(1) s
        by (cases "isEquipment it") (auto simp: TryExtractItem_def AssertOwnedByCurrentZone_def
            crash_simps Let_def IsOnGround_def)
    next
      case eq: True
      from Recompute_then_save [OF o(1) slots_ok_erase [OF o(2)], of k k] obtain iv1 iv' where
        "RecomputeOffensive iter (iv\<lparr>inv_slots := (inv_slots iv)(k := None)\<rparr>) = Some iv1"
        "SaveSlotToDB k iv1 = Some iv'" "inv_step iv iv'" "inv_slots iv' = (inv_slots iv)(k := None)"
        by auto
      then show ?thesis
        using True eq it cnt v o(1) s IsEquipped_isEquipment [OF eq]
        by (simp add: TryExtractItem_def AssertOwnedByCurrentZone_def crash_simps Let_def IsOnGround_def)
    qed
  qed
qed

end

lemma TryUseItem_accept:
  assumes ok: "inv_ok iv" and it: "inv_slots iv k = Some it" and "\<not> isEquipment it"
    and o: "inv_owner iv = Some owner" and row: "ItemTable_Find (m_itemTableId it) = Some row"
  shows "\<exists>iv'. TryUseItem k iv = Some (True, iv') \<and> inv_step iv iv' \<and>
    inv_slots iv' = taken k 1 it (inv_slots iv) \<and>
    inv_owner iv' = Some (owner\<lparr>owner_stat := (if row_healAmount row > 0
      then HealHp (row_healAmount row) PLAYER_MAX_HP (owner_stat owner) else owner_stat owner)\<rparr>)"
proof -
  let ?st = "if row_healAmount row > 0 then HealHp (row_healAmount row) PLAYER_MAX_HP (owner_stat owner)
    else owner_stat owner"
  let ?iv1 = "iv\<lparr>inv_owner := Some (owner\<lparr>owner_stat := ?st\<rparr>),
    inv_slots := taken k 1 it (inv_slots iv)\<rparr>"
  from ok o have sok: "slots_ok (owner_ObjID owner) (inv_slots iv)"
    "offensive_ok (equipped_set (inv_slots iv)) (m_offensive (owner_stat owner))"
    by (auto simp: inv_ok_def)
  have ne: "\<not> IsEquipped it"
    using assms(3) IsEquipped_isEquipment by blast
  have "inv_ok ?iv1"
    using taken_ok [OF sok(1) it ne, of 1] sok(2) by (simp add: inv_ok_def)
  from inv_stepI_save [OF this o, of "owner\<lparr>owner_stat := ?st\<rparr>" k] obtain iv' where
    s: "SaveSlotToDB k ?iv1 = Some iv'" "inv_step iv iv'" "inv_slots iv' = taken k 1 it (inv_slots iv)"
    "inv_owner iv' = Some (owner\<lparr>owner_stat := ?st\<rparr>)"
    by auto
  have eta: "iv\<lparr>inv_owner := Some owner, inv_slots := x\<rparr> = iv\<lparr>inv_slots := x\<rparr>" for x
    using o by simp
  have "TryUseItem k iv = map_option (Pair True) (SaveSlotToDB k ?iv1)"
    using assms slots_okD(2) [OF sok(1) it]
    by (cases "row_healAmount row > 0") (simp_all add: TryUseItem_def AssertOwnedByCurrentZone_def
        crash_simps Let_def taken_def map_conv_bind_option comp_def eta)
  then show ?thesis
    using s by simp
qed

subsection \<open>Loading\<close>

text \<open>The rows a load returns for a table: every row once, in some order.\<close>

definition rows_of :: "SlotTable \<Rightarrow> DB_ITEM_INFO list \<Rightarrow> bool" where
  "rows_of T infos \<longleftrightarrow> distinct (map ii_slotIndex infos) \<and>
     (\<forall>k. T k = map_option (\<lambda>x. (ii_itemId x, ii_count x, ii_equipped x))
                  (find (\<lambda>x. ii_slotIndex x = k) infos))"


definition info_ok :: "DB_ITEM_INFO \<Rightarrow> bool" where
  "info_ok x \<longleftrightarrow> IsValidSlotIndex (ii_slotIndex x) \<and>
     (case ItemTable_Find (ii_itemId x) of
        None \<Rightarrow> False
      | Some row \<Rightarrow> (ii_equipped x \<longrightarrow> row_type row = eEquipment))"

definition class_ok :: "ObjID \<Rightarrow> Item \<Rightarrow> bool" where
  "class_ok ownerId it \<longleftrightarrow> m_OwnerID it = ownerId \<and>
     (case ItemTable_Find (m_itemTableId it) of
        None \<Rightarrow> False | Some row \<Rightarrow> isEquipment it = (row_type row = eEquipment))"

lemma load_one:
  fixes ownerId :: ObjID
  assumes "info_ok x" "MakeNewItem (ii_itemId x) (ii_count x) = Some it"
  defines "it' \<equiv> (if ii_equipped x then setEquipped True (it\<lparr>m_OwnerID := ownerId\<rparr>)
    else it\<lparr>m_OwnerID := ownerId\<rparr>)"
  shows "m_itemTableId it' = ii_itemId x" "m_count it' = ii_count x" "IsEquipped it' = ii_equipped x"
    "class_ok ownerId it'"
  using assms(1) MakeNewItem_Some [OF assms(2)]
  by (auto simp: it'_def info_ok_def class_ok_def split: option.splits)

lemma load_rows_table:
  assumes "list_all info_ok infos" "distinct (map ii_slotIndex infos)"
  shows "table_of (load_rows ownerId infos slots) k =
    (case find (\<lambda>x. ii_slotIndex x = k) infos of
       Some x \<Rightarrow> Some (ii_itemId x, ii_count x, ii_equipped x) | None \<Rightarrow> table_of slots k)
    \<and> (\<forall>it. load_rows ownerId infos slots k = Some it \<longrightarrow> class_ok ownerId it \<or> slots k = Some it)"
  using assms
proof (induction infos arbitrary: slots)
  case (Cons x infos)
  from Cons.prems(1) have ok: "info_ok x"
    by simp
  then obtain it where it: "MakeNewItem (ii_itemId x) (ii_count x) = Some it"
    by (cases "MakeNewItem (ii_itemId x) (ii_count x)")
      (auto simp: MakeNewItem_None_iff info_ok_def split: option.splits)
  define it' where "it' = (if ii_equipped x then setEquipped True (it\<lparr>m_OwnerID := ownerId\<rparr>)
    else it\<lparr>m_OwnerID := ownerId\<rparr>)"
  note one = load_one [OF ok it, where ownerId = ownerId, folded it'_def]
  define s1 where "s1 = slots(ii_slotIndex x \<mapsto> it')"
  have step: "load_rows ownerId (x # infos) slots = load_rows ownerId infos s1"
    using ok it by (simp add: info_ok_def Let_def it'_def s1_def)
  have fresh: "find (\<lambda>y. ii_slotIndex y = ii_slotIndex x) infos = None"
    using Cons.prems(2) unfolding find_None_iff by (metis distinct.simps(2) image_eqI list.simps(9) set_map)
  note ih = Cons.IH [of s1]
  show ?case
  proof (cases "ii_slotIndex x = k")
    case True
    then have "s1 k = Some it'" "table_of s1 k = Some (ii_itemId x, ii_count x, ii_equipped x)"
      using one by (simp_all add: s1_def table_of_def)
    then show ?thesis
      using ih Cons.prems one fresh True unfolding step by auto
  next
    case False
    then have "s1 k = slots k" "table_of s1 k = table_of slots k"
      by (simp_all add: s1_def table_of_def)
    then show ?thesis
      using ih Cons.prems False unfolding step by (simp split: option.split)
  qed
qed simp

lemma equipped_set_table: "equipped_set slots = {(k, i). \<exists>c. table_of slots k = Some (i, c, True)}"
  by (auto simp: equipped_set_def table_of_def)

lemma slots_ok_table:
  assumes "slots_ok ownerId slots" "table_of slots' = table_of slots"
    and "\<And>k it. slots' k = Some it \<Longrightarrow> class_ok ownerId' it"
  shows "slots_ok ownerId' slots'"
proof -
  have same: "\<exists>it'. slots k = Some it' \<and> m_itemTableId it' = m_itemTableId it \<and> m_count it' = m_count it"
    if "slots' k = Some it" for k it
    using that fun_cong [OF assms(2), of k] by (cases "slots k") (auto simp: table_of_def)
  have "item_ok ownerId' it" if "slots' k = Some it" for k it
  proof -
    from same [OF that] obtain it' where it': "slots k = Some it'" "m_itemTableId it' = m_itemTableId it"
      "m_count it' = m_count it"
      by blast
    then have "item_ok ownerId it'"
      using slots_okD(1) [OF assms(1)] by blast
    with it' assms(3) [OF that] show ?thesis
      by (auto simp: item_ok_def class_ok_def split: option.splits)
  qed
  moreover have "equipped_set slots' = equipped_set slots"
    by (simp add: equipped_set_table assms(2))
  moreover have "dom slots' \<subseteq> dom slots"
    using same by blast
  ultimately show ?thesis
    using assms(1) unfolding slots_ok_def by (metis subset_trans)
qed

lemma rows_of_info_ok:
  assumes "slots_ok ownerId slots" "rows_of (table_of slots) infos" "x \<in> set infos"
  shows "info_ok x"
proof -
  have "find (\<lambda>y. ii_slotIndex y = ii_slotIndex x) infos = Some x"
    using assms(2,3) by (simp add: rows_of_def find_distinct_key)
  then have "table_of slots (ii_slotIndex x) = Some (ii_itemId x, ii_count x, ii_equipped x)"
    using assms(2) by (simp add: rows_of_def)
  then obtain it where it: "slots (ii_slotIndex x) = Some it" "m_itemTableId it = ii_itemId x"
    "IsEquipped it = ii_equipped x"
    by (auto simp: table_of_def)
  from item_ok_row [OF slots_okD(1) [OF assms(1) it(1)]] obtain row where
    "ItemTable_Find (m_itemTableId it) = Some row" "isEquipment it = (row_type row = eEquipment)"
    by metis
  then show ?thesis
    using it slots_okD(2) [OF assms(1) it(1)] IsEquipped_isEquipment by (auto simp: info_ok_def)
qed

context slot_iteration
begin

text \<open>A load into a fresh inventory restores the saved slots, whatever order the rows come in.\<close>

lemma LoadFromDB_restores:
  assumes ok: "slots_ok ownerId slots" and rows: "rows_of (table_of slots) infos"
    and o: "inv_owner iv = Some owner" and fresh: "inv_slots iv = Map.empty"
  shows "\<exists>iv'. LoadFromDB iter infos iv = Some iv' \<and> inv_ok iv' \<and>
    table_of (inv_slots iv') = table_of slots \<and> inv_requests iv' = inv_requests iv"
proof -
  let ?s = "load_rows (owner_ObjID owner) infos Map.empty"
  have all: "list_all info_ok infos"
    using rows_of_info_ok [OF ok rows] by (simp add: list_all_iff)
  have d: "distinct (map ii_slotIndex infos)"
    using rows by (simp add: rows_of_def)
  note lt = load_rows_table [OF all d, of "owner_ObjID owner" Map.empty]
  have t: "table_of ?s = table_of slots"
  proof
    fix k
    show "table_of ?s k = table_of slots k"
      using lt [of k] rows by (auto simp: rows_of_def table_of_def split: option.splits)
  qed
  have "slots_ok (owner_ObjID owner) ?s"
    by (rule slots_ok_table [OF ok t]) (use lt in force)
  from RecomputeOffensive_inv_ok [OF o this] obtain iv' where
    "RecomputeOffensive iter (iv\<lparr>inv_slots := ?s\<rparr>) = Some iv'" "inv_ok iv'" "inv_slots iv' = ?s"
    "inv_requests iv' = inv_requests iv"
    by metis
  then show ?thesis
    using o fresh t by (simp add: LoadFromDB_def)
qed

end


subsection \<open>Rejected requests\<close>

lemma inv_op_reject:
  assumes "inv_owner iv \<noteq> None"
  shows "\<not> (\<exists>it. inv_slots iv k = Some it \<and> IsValidSlotIndex k \<and> cnt \<noteq> 0 \<and> cnt \<le> m_count it) \<Longrightarrow>
      TryExtractItem iter k cnt iv = Some (None, iv)"
    and "\<not> (\<exists>it. inv_slots iv k = Some it \<and> IsValidSlotIndex k \<and> isEquipment it \<and> \<not> IsEquipped it) \<Longrightarrow>
      TryEquip iter k iv = Some (False, None, iv)"
    and "\<not> (\<exists>it. inv_slots iv k = Some it \<and> IsValidSlotIndex k \<and> IsEquipped it) \<Longrightarrow>
      TryUnequip iter k iv = Some (False, iv)"
    and "\<not> (\<exists>it. inv_slots iv k = Some it \<and> IsValidSlotIndex k \<and> \<not> isEquipment it) \<Longrightarrow>
      TryUseItem k iv = Some (False, iv)"
    and "\<not> (IsValidSlotIndex a \<and> IsValidSlotIndex b \<and> a \<noteq> b \<and>
          (inv_slots iv a \<noteq> None \<or> inv_slots iv b \<noteq> None)) \<Longrightarrow>
      TrySwapSlots a b iv = Some (False, iv)"
proof -
  obtain owner where o: "inv_owner iv = Some owner"
    using assms by auto
  note defs = AssertOwnedByCurrentZone_def crash_simps Let_def not_less not_le
  show "\<not> (\<exists>it. inv_slots iv k = Some it \<and> IsValidSlotIndex k \<and> cnt \<noteq> 0 \<and> cnt \<le> m_count it) \<Longrightarrow>
      TryExtractItem iter k cnt iv = Some (None, iv)"
    using o by (cases "inv_slots iv k") (auto simp: TryExtractItem_def defs)
  show "\<not> (\<exists>it. inv_slots iv k = Some it \<and> IsValidSlotIndex k \<and> isEquipment it \<and> \<not> IsEquipped it) \<Longrightarrow>
      TryEquip iter k iv = Some (False, None, iv)"
    using o by (cases "inv_slots iv k") (auto simp: TryEquip_def defs)
  show "\<not> (\<exists>it. inv_slots iv k = Some it \<and> IsValidSlotIndex k \<and> IsEquipped it) \<Longrightarrow>
      TryUnequip iter k iv = Some (False, iv)"
    using o by (cases "inv_slots iv k") (auto simp: TryUnequip_def defs)
  show "\<not> (\<exists>it. inv_slots iv k = Some it \<and> IsValidSlotIndex k \<and> \<not> isEquipment it) \<Longrightarrow>
      TryUseItem k iv = Some (False, iv)"
    using o by (cases "inv_slots iv k") (auto simp: TryUseItem_def defs)
  show "\<not> (IsValidSlotIndex a \<and> IsValidSlotIndex b \<and> a \<noteq> b \<and>
          (inv_slots iv a \<noteq> None \<or> inv_slots iv b \<noteq> None)) \<Longrightarrow>
      TrySwapSlots a b iv = Some (False, iv)"
    using o by (auto simp: TrySwapSlots_def defs)
qed

subsection \<open>Sequences of operations\<close>

text \<open>One call by a packet handler of the owner's zone thread, with its result dropped.\<close>

datatype InvOp = OpAdd ItemTableId uint16 | OpExtract uint16 uint16 | OpEquip uint16
  | OpUnequip uint16 | OpUse uint16 | OpSwap uint16 uint16

fun inv_op :: "slot_iter \<Rightarrow> InvOp \<Rightarrow> Inventory \<Rightarrow> Inventory option" where
  "inv_op iter (OpAdd i c) iv = map_option (snd \<circ> snd) (TryAddItem iter i c iv)"
| "inv_op iter (OpExtract k c) iv = map_option snd (TryExtractItem iter k c iv)"
| "inv_op iter (OpEquip k) iv = map_option (snd \<circ> snd) (TryEquip iter k iv)"
| "inv_op iter (OpUnequip k) iv = map_option snd (TryUnequip iter k iv)"
| "inv_op iter (OpUse k) iv = map_option snd (TryUseItem k iv)"
| "inv_op iter (OpSwap a b) iv = map_option snd (TrySwapSlots a b iv)"

fun inv_run :: "slot_iter \<Rightarrow> InvOp list \<Rightarrow> Inventory \<Rightarrow> Inventory option" where
  "inv_run iter [] iv = Some iv"
| "inv_run iter (p # ps) iv = inv_op iter p iv \<bind> inv_run iter ps"

lemma inv_ok_owner: "inv_ok iv \<Longrightarrow> inv_owner iv \<noteq> None"
  by (auto simp: inv_ok_def)

context slot_iteration
begin

lemma inv_op_add:
  assumes ok: "inv_ok iv"
  shows "\<exists>iv'. inv_op iter (OpAdd i c) iv = Some iv' \<and> inv_step iv iv'"
proof (cases "c \<noteq> 0 \<and> (\<exists>row. ItemTable_Find i = Some row \<and> unat c \<le> inv_capacity i (unat (row_maxStack row)) (inv_slots iv))")
  case True
  then show ?thesis
    using TryAddItem_accept_step [OF ok] by fastforce
next
  case False
  then have "TryAddItem iter i c iv = Some (False, [], iv)"
    by (intro TryAddItem_reject [OF ok]) (cases "ItemTable_Find i"; auto)
  then show ?thesis
    using inv_step_refl [OF ok] by simp
qed

lemma inv_op_use:
  assumes ok: "inv_ok iv"
  shows "\<exists>iv'. inv_op iter (OpUse k) iv = Some iv' \<and> inv_step iv iv'"
proof (cases "\<exists>it. inv_slots iv k = Some it \<and> IsValidSlotIndex k \<and> \<not> isEquipment it")
  case True
  then obtain it where it: "inv_slots iv k = Some it" "\<not> isEquipment it"
    by blast
  from ok obtain owner where o: "inv_owner iv = Some owner" "slots_ok (owner_ObjID owner) (inv_slots iv)"
    by (rule inv_okE)
  obtain row where "ItemTable_Find (m_itemTableId it) = Some row"
    using item_ok_row [OF slots_okD(1) [OF o(2) it(1)]] by metis
  from TryUseItem_accept [OF ok it o(1) this] show ?thesis
    by auto
next
  case False
  then show ?thesis
    using inv_op_reject(4) [OF inv_ok_owner [OF ok], of k] inv_step_refl [OF ok] by simp
qed

lemma inv_op_swap:
  assumes ok: "inv_ok iv"
  shows "\<exists>iv'. inv_op iter (OpSwap a b) iv = Some iv' \<and> inv_step iv iv'"
proof (cases "IsValidSlotIndex a \<and> IsValidSlotIndex b \<and> a \<noteq> b \<and> (inv_slots iv a \<noteq> None \<or> inv_slots iv b \<noteq> None)")
  case True
  then obtain iv' where "TrySwapSlots a b iv = Some (True, iv')" "inv_step iv iv'"
    using TrySwapSlots_accept [OF ok] by metis
  then show ?thesis
    by simp
next
  case False
  then show ?thesis
    using inv_op_reject(5) [OF inv_ok_owner [OF ok], of a b] inv_step_refl [OF ok] by simp
qed

lemma inv_op_step:
  assumes ok: "inv_ok iv"
  shows "\<exists>iv'. inv_op iter p iv = Some iv' \<and> inv_step iv iv'"
proof (cases p)
  case (OpExtract k c)
  then show ?thesis
    using inv_op_reject(1) [OF inv_ok_owner [OF ok], of k c] TryExtractItem_accept [OF ok, of k _ c]
      inv_step_refl [OF ok] by (simp, metis option.simps(9) snd_conv)
next
  case (OpEquip k)
  then show ?thesis
    using inv_op_reject(2) [OF inv_ok_owner [OF ok], of k] TryEquip_accept [OF ok, of k]
      inv_step_refl [OF ok] by (simp, metis comp_apply option.simps(9) snd_conv)
next
  case (OpUnequip k)
  then show ?thesis
    using inv_op_reject(3) [OF inv_ok_owner [OF ok], of k] TryUnequip_accept [OF ok, of k]
      inv_step_refl [OF ok] by (simp, metis option.simps(9) snd_conv)
qed (use inv_op_add [OF ok] inv_op_use [OF ok] inv_op_swap [OF ok] in \<open>simp_all del: inv_op.simps\<close>)

lemma inv_run_step:
  "inv_ok iv \<Longrightarrow> \<exists>iv'. inv_run iter ps iv = Some iv' \<and> inv_step iv iv'"
proof (induction ps arbitrary: iv)
  case Nil
  then show ?case
    by (simp add: inv_step_refl)
next
  case (Cons p ps)
  from inv_op_step [OF Cons.prems] obtain iv1 where iv1: "inv_op iter p iv = Some iv1" "inv_step iv iv1"
    by blast
  then have "inv_ok iv1"
    by (simp add: inv_step_def)
  from Cons.IH [OF this] iv1 inv_step_trans [OF iv1(2)] show ?case
    by auto
qed

end

end
