(* ===== verification/DbOrder.thy ===== *)
theory DbOrder
  imports DbThreads InventoryOps
begin

text \<open>
  Ordering of the database writes.  A run is an interleaving of requests by the game threads and
  steps of the eight workers; every worker step carries what the outside answers: whether the pool
  gave a connection and which statements of the event succeed.  For every player the requests
  processed so far, followed by those still queued, are exactly the requests issued, in the order of
  issue; the rows of the player are the replay of those processed requests whose write took effect
  (the workers ignore the result of a write, so a failed one is dropped).
\<close>

subsection \<open>Runs\<close>

datatype DbAction = Issue int DbRequest | Work nat int bool "nat \<Rightarrow> bool"

text \<open>A run keeps, beside the system, the processed requests, each with whether a connection was
  there and its first statement (the only one of a write) succeeded.\<close>

type_synonym DbLog = "(DbRequest \<times> bool) list"

fun db_action :: "(string \<Rightarrow> string) \<Rightarrow> row_order \<Rightarrow> (string \<Rightarrow> uint64) \<Rightarrow> DbAction
    \<Rightarrow> DbLog \<times> DbSystem \<Rightarrow> (DbLog \<times> DbSystem) option" where
  "db_action coll order hash (Issue now r) (dn, sys) =
     map_option (\<lambda>st. (dn, sys\<lparr>ds_threads := st\<rparr>)) (Request hash now r (ds_threads sys))"
| "db_action coll order hash (Work s now conn odbc) (dn, sys) =
     (case DoDataBase_step coll order conn odbc now s sys of
        None \<Rightarrow> Some (dn, sys)
      | Some (event, sys') \<Rightarrow> Some (dn @ [(ev_request event, conn \<and> odbc 0)], sys'))"

fun db_run :: "(string \<Rightarrow> string) \<Rightarrow> row_order \<Rightarrow> (string \<Rightarrow> uint64) \<Rightarrow> DbAction list
    \<Rightarrow> DbLog \<times> DbSystem \<Rightarrow> (DbLog \<times> DbSystem) option" where
  "db_run coll order hash [] c = Some c"
| "db_run coll order hash (a # as) c = db_action coll order hash a c \<bind> db_run coll order hash as"

definition of_player :: "int \<Rightarrow> DbRequest \<Rightarrow> bool" where
  "of_player p r \<longleftrightarrow> request_player r = Some p"

text \<open>The requests of a player that were processed, and those of them that took effect.\<close>

definition processed :: "int \<Rightarrow> DbLog \<Rightarrow> DbRequest list" where
  "processed p dn = filter (of_player p) (map fst dn)"

definition committed :: "int \<Rightarrow> DbLog \<Rightarrow> DbRequest list" where
  "committed p dn = filter (of_player p) (map fst (filter snd dn))"

text \<open>A write names the slots it sets, and what it sets there does not depend on the table.\<close>

fun writes_slot :: "uint16 \<Rightarrow> DbRequest \<Rightarrow> bool" where
  "writes_slot k (DbSaveItem _ j _ _ _) = (j = k)"
| "writes_slot k (DbDeleteItem _ j) = (j = k)"
| "writes_slot k (DbSaveTwo _ a b) = (ss_slotIndex a = k \<or> ss_slotIndex b = k)"
| "writes_slot k _ = False"

lemma replay1_slot:
  shows "writes_slot k r \<Longrightarrow> replay1 T r k = replay1 U r k"
    and "\<not> writes_slot k r \<Longrightarrow> replay1 T r k = T k"
  by (cases r; auto simp: put_slot_def)+

text \<open>Whether the last processed write of a slot was lost.\<close>

definition write_lost :: "int \<Rightarrow> uint16 \<Rightarrow> DbLog \<Rightarrow> bool" where
  "write_lost p k dn \<longleftrightarrow>
     (case find (\<lambda>(r, _). of_player p r \<and> writes_slot k r) (rev dn) of
        None \<Rightarrow> False | Some (_, ok) \<Rightarrow> \<not> ok)"

lemma committed_slot:
  "\<not> write_lost p k dn \<Longrightarrow> replay T (committed p dn) k = replay T (processed p dn) k"
proof (induction dn rule: rev_induct)
  case (snoc x dn)
  obtain r ok where x: "x = (r, ok)"
    by (cases x)
  show ?case
  proof (cases "of_player p r \<and> writes_slot k r")
    case True
    then have "ok"
      using snoc.prems by (simp add: x write_lost_def)
    then show ?thesis
      using True replay1_slot(1) by (simp add: x committed_def processed_def replay_append) 
  next
    case False
    then have "\<not> write_lost p k dn"
      using snoc.prems by (auto simp: x write_lost_def)
    then show ?thesis
      using False snoc.IH replay1_slot(2)
      by (auto simp: x committed_def processed_def replay_append)
  qed
qed (simp add: committed_def processed_def)

fun issued :: "int \<Rightarrow> DbAction list \<Rightarrow> (int \<times> DbRequest) list" where
  "issued p [] = []"
| "issued p (Issue now r # as) = (if of_player p r then (now, r) # issued p as else issued p as)"
| "issued p (Work s now conn odbc # as) = issued p as"

fun issues :: "DbAction list \<Rightarrow> nat" where
  "issues [] = 0"
| "issues (Issue now r # as) = Suc (issues as)"
| "issues (Work s now conn odbc # as) = issues as"

definition queued :: "int \<Rightarrow> DbSystem \<Rightarrow> DBEvent list" where
  "queued p sys = filter (\<lambda>e. of_player p (ev_request e)) (dt_shards (ds_threads sys) (ShardForPlayerId p))"

lemma db_run_append:
  "db_run coll order hash (as @ bs) c = db_run coll order hash as c \<bind> db_run coll order hash bs"
proof (induction as arbitrary: c)
  case (Cons a as)
  show ?case
    by (cases "db_action coll order hash a c") (simp_all add: Cons.IH)
qed simp

lemma issued_append: "issued p (as @ bs) = issued p as @ issued p bs"
  by (induction p as rule: issued.induct) auto

lemma issues_append: "issues (as @ bs) = issues as + issues bs"
  by (induction as rule: issues.induct) auto

subsection \<open>Requests\<close>

lemma shard_bound [simp]: "ShardForPlayerId p < kShardCount" "ShardForName hash n < kShardCount"
  "unat (w :: uint32) mod kShardCount < kShardCount"
  by (simp_all add: ShardForPlayerId_def ShardForName_def kShardCount_def)

lemma Request_shards:
  "\<exists>st' s e. Request hash now r st = Some st' \<and>
     dt_shards st' = (dt_shards st)(s := pq_push DBEventCompare e (dt_shards st s)) \<and>
     dt_nextSequence st' = dt_nextSequence st + 1 \<and>
     ev_wakeupTime e = now \<and> ev_sequence e = dt_nextSequence st \<and>
     (\<forall>p. of_player p (ev_request e) \<longleftrightarrow> of_player p r) \<and>
     (\<forall>p. of_player p r \<longrightarrow> s = ShardForPlayerId p \<and> ev_request e = r)"
proof (cases r)
  case (DbLogin s n p)
  then show ?thesis
    by (auto simp: RequestLogin_def NextRoundRobinShard_def ScheduleOnShard_def crash_simps
        make_event_def of_player_def Let_def intro!: exI)
next
  case (DbSaveUser i n x y l e)
  then show ?thesis
    by (auto simp: RequestSaveUser_def ScheduleOnShard_def crash_simps make_event_def of_player_def
        Let_def intro!: exI)
next
  case (DbSaveItem p k i c e)
  then show ?thesis
    by (auto simp: RequestSaveItem_def ScheduleOnShard_def crash_simps make_event_def of_player_def
        Let_def intro!: exI)
next
  case (DbDeleteItem p k)
  then show ?thesis
    by (auto simp: RequestDeleteItem_def ScheduleOnShard_def crash_simps make_event_def of_player_def
        Let_def intro!: exI)
next
  case (DbSaveTwo p a b)
  then show ?thesis
    by (auto simp: RequestSaveTwoItems_def ScheduleOnShard_def crash_simps make_event_def of_player_def
        Let_def intro!: exI)
qed

lemma ProcessEvent_threads [simp]: "ds_threads (ProcessEvent coll order conn odbc r sys) = ds_threads sys"
  by (cases r) (auto simp: ProcessEvent_def Let_def split: prod.splits option.splits)


subsection \<open>The invariant of a run\<close>

definition db_inv :: "int \<Rightarrow> DbAction list \<Rightarrow> DbLog \<Rightarrow> DbSystem \<Rightarrow> bool" where
  "db_inv p as dn sys \<longleftrightarrow>
     (\<forall>s. dbq.ordered (dt_shards (ds_threads sys) s)) \<and>
     unat (dt_nextSequence (ds_threads sys)) = issues as \<and>
     (\<forall>s. \<forall>e \<in> set (dt_shards (ds_threads sys) s).
        ev_sequence e < dt_nextSequence (ds_threads sys) \<and>
        (of_player p (ev_request e) \<longrightarrow>
           s = ShardForPlayerId p \<and> ev_wakeupTime e \<in> fst ` set (issued p as))) \<and>
     processed p dn @ map ev_request (queued p sys) = map snd (issued p as)"

lemma db_inv_init: "ds_threads sys = initDBThread \<Longrightarrow> db_inv p [] [] sys"
  by (simp add: db_inv_def initDBThread_def queued_def dbq.ordered_def processed_def)

lemma db_invD:
  assumes "db_inv p as dn sys"
  shows "dbq.ordered (dt_shards (ds_threads sys) s)"
    "unat (dt_nextSequence (ds_threads sys)) = issues as"
    "e \<in> set (dt_shards (ds_threads sys) s) \<Longrightarrow> ev_sequence e < dt_nextSequence (ds_threads sys)"
    "e \<in> set (dt_shards (ds_threads sys) s) \<Longrightarrow> of_player p (ev_request e) \<Longrightarrow> s = ShardForPlayerId p"
    "e \<in> set (dt_shards (ds_threads sys) s) \<Longrightarrow> of_player p (ev_request e) \<Longrightarrow>
       ev_wakeupTime e \<in> fst ` set (issued p as)"
    "processed p dn @ map ev_request (queued p sys) = map snd (issued p as)"
  using assms unfolding db_inv_def by blast+

text \<open>A new request goes behind those of the same player.\<close>

lemma queued_push:
  assumes "\<And>s. dbq.ordered (dt_shards (ds_threads sys) s)"
    and st: "dt_shards st = (dt_shards (ds_threads sys))(s := pq_push DBEventCompare e (dt_shards (ds_threads sys) s))"
    and p: "of_player p (ev_request e) \<Longrightarrow> s = ShardForPlayerId p"
    and last: "\<And>x. of_player p (ev_request e) \<Longrightarrow> x \<in> set (dt_shards (ds_threads sys) s) \<Longrightarrow> of_player p (ev_request x) \<Longrightarrow>
      ev_wakeupTime x \<le> ev_wakeupTime e \<and> ev_sequence x < ev_sequence e"
  shows "queued p (sys\<lparr>ds_threads := st\<rparr>) = queued p sys @ (if of_player p (ev_request e) then [e] else [])"
proof (cases "of_player p (ev_request e)")
  case True
  have "\<forall>x \<in> set (dt_shards (ds_threads sys) s). of_player p (ev_request x) \<longrightarrow> \<not> DBEventCompare x e"
    using last [OF True] by (fastforce simp: dbq.cmp_iff)
  then show ?thesis
    using True st p [OF True] dbq.filter_push_keep [OF assms(1) [of s], of "\<lambda>e. of_player p (ev_request e)" e]
    by (simp add: queued_def)
next
  case False
  then show ?thesis
    using st dbq.filter_push_other [of "\<lambda>e. of_player p (ev_request e)" e] by (simp add: queued_def)
qed

lemma db_inv_issue:
  assumes inv: "db_inv p as dn sys" and fits: "issues as + 1 < 2 ^ 64"
    and clock: "sorted (map fst (issued p (as @ [Issue now r])))"
  shows "\<exists>st. Request hash now r (ds_threads sys) = Some st \<and>
    db_inv p (as @ [Issue now r]) dn (sys\<lparr>ds_threads := st\<rparr>)"
proof -
  let ?st = "ds_threads sys"
  from Request_shards [of hash now r ?st] obtain st s e where
    st: "Request hash now r ?st = Some st"
    "dt_shards st = (dt_shards ?st)(s := pq_push DBEventCompare e (dt_shards ?st s))"
    "dt_nextSequence st = dt_nextSequence ?st + 1"
    "ev_wakeupTime e = now" "ev_sequence e = dt_nextSequence ?st"
    "\<And>q. of_player q (ev_request e) \<longleftrightarrow> of_player q r"
    "\<And>q. of_player q r \<Longrightarrow> s = ShardForPlayerId q \<and> ev_request e = r"
    by metis
  note i = db_invD [OF inv]
  have nxt: "unat (dt_nextSequence st) = issues as + 1"
    using i(2) fits unfolding st(3) by (subst unat_add_noof) simp_all
  have less: "x < dt_nextSequence st" if "x < dt_nextSequence ?st \<or> x = dt_nextSequence ?st" for x
    using that nxt i(2) by (auto simp: unat_less_iff)
  have ord: "dbq.ordered (dt_shards st s')" for s'
    using i(1) dbq.ordered_push by (simp add: st(2))
  have ev: "ev_sequence x < dt_nextSequence st \<and> (of_player p (ev_request x) \<longrightarrow>
      s' = ShardForPlayerId p \<and> ev_wakeupTime x \<in> fst ` set (issued p (as @ [Issue now r])))"
    if "x \<in> set (dt_shards st s')" for x s'
  proof -
    have "x = e \<and> s' = s \<or> x \<in> set (dt_shards ?st s')"
      using that by (auto simp: st(2) split: if_splits)
    then show ?thesis
    proof (elim disjE conjE)
      assume "x = e" "s' = s"
      then show ?thesis
        using less st(4-6) st(7) [of p] by (auto simp: issued_append)
    next
      assume "x \<in> set (dt_shards ?st s')"
      then show ?thesis
        using less i(3-5) by (auto simp: issued_append)
    qed
  qed
  have "ev_wakeupTime x \<le> ev_wakeupTime e \<and> ev_sequence x < ev_sequence e"
    if "of_player p (ev_request e)" "x \<in> set (dt_shards ?st s)" "of_player p (ev_request x)" for x
  proof -
    have "ev_wakeupTime x \<in> fst ` set (issued p as)" "ev_sequence x < ev_sequence e"
      using that i(3,5) st(5) by auto
    moreover have "ev_wakeupTime x \<le> ev_wakeupTime e"
      using calculation(1) clock that(1) st(6) by (auto simp: issued_append sorted_append st(4))
    ultimately show ?thesis
      by blast
  qed
  from queued_push [OF i(1) st(2) _ this] st(6,7)
  have "queued p (sys\<lparr>ds_threads := st\<rparr>) = queued p sys @ (if of_player p r then [e] else [])"
    by simp
  then have "processed p dn @ map ev_request (queued p (sys\<lparr>ds_threads := st\<rparr>))
      = map snd (issued p (as @ [Issue now r]))"
    using i(6) st(7) [of p] by (auto simp: issued_append)
  then show ?thesis
    using st(1) nxt ord ev by (simp add: db_inv_def issues_append)
qed

lemma db_inv_work:
  assumes inv: "db_inv p as dn sys" and step: "DoDataBase_step coll order conn odbc now s sys = Some (e, sys')"
  shows "db_inv p (as @ [Work s now conn odbc]) (dn @ [(ev_request e, ok)]) sys'"
proof -
  let ?st = "ds_threads sys"
  from step obtain rest where q: "dt_shards ?st s = e # rest"
    and sys': "ds_threads sys' = ?st\<lparr>dt_shards := (dt_shards ?st)(s := rest)\<rparr>"
    by (auto simp: DoDataBase_step_def split: list.splits if_splits)
  note i = db_invD [OF inv]
  have "dbq.ordered rest"
    using dbq.ordered_tl [OF i(1) [of s]] q by simp
  then have 1: "\<forall>s'. dbq.ordered (dt_shards (ds_threads sys') s')"
    using i(1) by (simp add: sys')
  have sub: "set (dt_shards (ds_threads sys') s') \<subseteq> set (dt_shards ?st s')" for s'
    using q by (auto simp: sys')
  have "queued p sys = (if of_player p (ev_request e) then e # queued p sys' else queued p sys')"
  proof (cases "s = ShardForPlayerId p")
    case True
    then show ?thesis
      using q by (simp add: queued_def sys')
  next
    case False
    then have "\<not> of_player p (ev_request e)"
      using i(4) q by (metis list.set_intros(1))
    then show ?thesis
      using False by (simp add: queued_def sys')
  qed
  then have "processed p (dn @ [(ev_request e, ok)]) @ map ev_request (queued p sys')
      = processed p dn @ map ev_request (queued p sys)"
    by (simp add: processed_def)
  moreover have "ev_sequence x < dt_nextSequence (ds_threads sys) \<and> (of_player p (ev_request x) \<longrightarrow>
      s' = ShardForPlayerId p \<and> ev_wakeupTime x \<in> fst ` set (issued p as))"
    if "x \<in> set (dt_shards (ds_threads sys') s')" for x s'
    using i(3-5) sub that by blast
  moreover have "dt_nextSequence (ds_threads sys') = dt_nextSequence ?st"
    by (simp add: sys')
  ultimately show ?thesis
    using i(2,6) 1 unfolding db_inv_def by (simp add: issues_append issued_append)
qed

lemma db_run_inv:
  assumes "ds_threads sys0 = initDBThread" "issues as < 2 ^ 64" "sorted (map fst (issued p as))"
  shows "\<exists>dn sys. db_run coll order hash as ([], sys0) = Some (dn, sys) \<and> db_inv p as dn sys"
  using assms(2,3)
proof (induction as rule: rev_induct)
  case Nil
  then show ?case
    using db_inv_init [OF assms(1)] by simp
next
  case (snoc a as)
  then obtain dn sys where ih: "db_run coll order hash as ([], sys0) = Some (dn, sys)" "db_inv p as dn sys"
    by (cases a) (auto simp: issues_append issued_append sorted_append)
  show ?case
  proof (cases a)
    case (Issue now r)
    from db_inv_issue [OF ih(2), of now r hash] snoc.prems Issue obtain st where
      "Request hash now r (ds_threads sys) = Some st"
      "db_inv p (as @ [Issue now r]) dn (sys\<lparr>ds_threads := st\<rparr>)"
      by (auto simp: issues_append)
    then show ?thesis
      using ih(1) Issue by (simp add: db_run_append)
  next
    case (Work s now conn odbc)
    show ?thesis
    proof (cases "DoDataBase_step coll order conn odbc now s sys")
      case None
      then have "db_inv p (as @ [a]) dn sys"
        using ih(2) Work by (simp add: db_inv_def issues_append issued_append)
      then show ?thesis
        using ih(1) Work None by (simp add: db_run_append)
    next
      case (Some es)
      then obtain e sys' where es: "es = (e, sys')"
        by (cases es)
      with db_inv_work [OF ih(2)] Some Work have "db_inv p (as @ [a]) (dn @ [(ev_request e, conn \<and> odbc 0)]) sys'"
        by auto
      then show ?thesis
        using ih(1) Work Some es by (simp add: db_run_append)
    qed
  qed
qed


subsection \<open>What the processed requests leave in the database\<close>

lemma player_exists_iff: "player_exists p db \<longleftrightarrow> p \<in> set (map pr_playerId (db_players db))"
  by (auto simp: player_exists_def list_ex_iff)

lemma put_row_frame:
  assumes "put_row pid arg db = Some db'"
  shows "db_players db' = db_players db" "q \<noteq> pid \<Longrightarrow> db_table q db' = db_table q db"
  using assms by (auto simp: put_row_def upsert_row_def delete_row_def db_table_def fun_eq_iff
      split: prod.splits if_splits)

lemma two_rows_frame:
  assumes "(put_row pid a db \<bind> put_row pid b) = Some db'"
  shows "db_players db' = db_players db" "q \<noteq> pid \<Longrightarrow> db_table q db' = db_table q db"
proof -
  from assms obtain db1 where "put_row pid a db = Some db1" "put_row pid b db1 = Some db'"
    by (auto simp: bind_eq_Some_conv)
  then show "db_players db' = db_players db" "q \<noteq> pid \<Longrightarrow> db_table q db' = db_table q db"
    using put_row_frame by metis+
qed

lemma sp_SaveTwo_frame:
  shows "db_players (sp_SaveTwoInventorySlots pid a b db) = db_players db"
    and "q \<noteq> pid \<Longrightarrow> db_table q (sp_SaveTwoInventorySlots pid a b db) = db_table q db"
proof -
  define c where "c = (if fst a > fst b then (b, a) else (a, b))"
  have *: "sp_SaveTwoInventorySlots pid a b db
      = (case put_row pid (fst c) db \<bind> put_row pid (snd c) of Some db' \<Rightarrow> db' | None \<Rightarrow> db)"
    by (simp add: sp_SaveTwoInventorySlots_def c_def split_beta)
  show "db_players (sp_SaveTwoInventorySlots pid a b db) = db_players db"
    unfolding * by (cases "put_row pid (fst c) db \<bind> put_row pid (snd c)") (simp_all add: two_rows_frame)
  show "db_table q (sp_SaveTwoInventorySlots pid a b db) = db_table q db" if "q \<noteq> pid"
    unfolding * using that
    by (cases "put_row pid (fst c) db \<bind> put_row pid (snd c)") (simp_all add: two_rows_frame)
qed

lemma player_exists_SavePlayerInfo:
  "player_exists p (sp_SavePlayerInfo coll n x y l e db) = player_exists p db"
proof -
  have "map pr_playerId (db_players (sp_SavePlayerInfo coll n x y l e db)) = map pr_playerId (db_players db)"
    by (simp add: sp_SavePlayerInfo_def)
  then show ?thesis
    by (simp only: player_exists_iff)
qed

lemma player_exists_Process:
  assumes "player_exists p (ds_db sys)"
  shows "player_exists p (ds_db (ProcessEvent coll order conn odbc r sys))"
proof (cases r)
  case (DbSaveUser i n x y l e)
  then show ?thesis
    using assms by (simp add: ProcessEvent_def SaveUserInfo_def player_exists_SavePlayerInfo)
next
  case (DbSaveTwo q a b)
  then show ?thesis
    using assms by (simp add: ProcessEvent_def SaveTwoInventorySlots_def sp_SaveTwo_frame player_exists_def)
qed (use assms in \<open>auto simp: ProcessEvent_def Let_def player_exists_def AddUserInfoInDataBase_def
      sp_AddNewPlayer_def SaveInventorySlot_def sp_SaveInventorySlot_def upsert_row_def
      DeleteInventorySlot_def sp_DeleteInventorySlot_def delete_row_def
      split: prod.splits option.splits if_splits\<close>)

text \<open>Processing one request is the abstract effect on the table of its player when the connection is
  there and the write succeeds, nothing when not, and it leaves the tables of the others alone.\<close>

lemma ProcessEvent_table:
  assumes "player_exists p (ds_db sys)"
  shows "db_table p (ds_db (ProcessEvent coll order conn odbc r sys))
    = (if of_player p r \<and> conn \<and> odbc 0 then replay1 (db_table p (ds_db sys)) r else db_table p (ds_db sys))"
proof (cases r)
  case (DbSaveTwo q a b)
  show ?thesis
  proof (cases "q = p")
    case True
    then show ?thesis
      using DbSaveTwo sp_SaveTwo_table(1) [OF assms]
      by (simp add: ProcessEvent_def SaveTwoInventorySlots_def of_player_def)
  next
    case False
    then show ?thesis
      using DbSaveTwo by (simp add: ProcessEvent_def SaveTwoInventorySlots_def of_player_def sp_SaveTwo_frame)
  qed
qed (use assms in \<open>auto simp: ProcessEvent_def Let_def db_table_def of_player_def AddUserInfoInDataBase_def
      sp_AddNewPlayer_def SaveUserInfo_def sp_SavePlayerInfo_def SaveInventorySlot_def
      sp_SaveInventorySlot_def upsert_row_def DeleteInventorySlot_def sp_DeleteInventorySlot_def
      delete_row_def smallint_of_inj fun_eq_iff split: prod.splits option.splits if_splits\<close>)

lemma DoDataBase_step_db:
  assumes "DoDataBase_step coll order conn odbc now s sys = Some (e, sys')"
  shows "ds_db sys' = ds_db (ProcessEvent coll order conn odbc (ev_request e) sys)"
proof -
  have "ds_db (ProcessEvent coll order conn odbc r (sys\<lparr>ds_threads := st\<rparr>))
      = ds_db (ProcessEvent coll order conn odbc r sys)" for r st
    by (cases r) (auto simp: ProcessEvent_def Let_def split: prod.splits option.splits)
  then show ?thesis
    using assms by (auto simp: DoDataBase_step_def split: list.splits if_splits)
qed

lemma db_run_table:
  assumes "player_exists p (ds_db sys0)"
    and "db_run coll order hash as ([], sys0) = Some (dn, sys)"
  shows "player_exists p (ds_db sys) \<and>
    db_table p (ds_db sys) = replay (db_table p (ds_db sys0)) (committed p dn)"
  using assms(2)
proof (induction as arbitrary: dn sys rule: rev_induct)
  case Nil
  then show ?case
    using assms(1) by (auto simp: committed_def)
next
  case (snoc a as)
  then obtain dn1 sys1 where 1: "db_run coll order hash as ([], sys0) = Some (dn1, sys1)"
    "db_action coll order hash a (dn1, sys1) = Some (dn, sys)"
    by (auto simp: db_run_append bind_eq_Some_conv)
  note ih = snoc.IH [OF 1(1)]
  show ?case
  proof (cases a)
    case (Issue now r)
    then show ?thesis
      using 1(2) ih by auto
  next
    case (Work s now conn odbc)
    show ?thesis
    proof (cases "DoDataBase_step coll order conn odbc now s sys1")
      case None
      then show ?thesis
        using 1(2) ih Work by simp
    next
      case (Some es)
      then obtain e where e: "es = (e, sys)" "dn = dn1 @ [(ev_request e, conn \<and> odbc 0)]"
        using 1(2) Work by (cases es) auto
      have d: "ds_db sys = ds_db (ProcessEvent coll order conn odbc (ev_request e) sys1)"
        using DoDataBase_step_db Some e(1) by blast
      show ?thesis
        using ih ProcessEvent_table [of p sys1 coll order conn odbc "ev_request e"]
          player_exists_Process [of p sys1 coll order conn odbc "ev_request e"] d
        by (simp add: e(2) replay_append committed_def)
    qed
  qed
qed


subsection \<open>Reading the rows back\<close>

text \<open>What a query promises: the rows of the player, each once, with slot numbers of the column's
  type.\<close>

definition row_order_for :: "row_order \<Rightarrow> int \<Rightarrow> Database \<Rightarrow> bool" where
  "row_order_for order p db \<longleftrightarrow> distinct (order db p) \<and>
     (\<forall>s. s \<in> set (order db p) \<longleftrightarrow> db_inventory db (p, s) \<noteq> None) \<and>
     (\<forall>s \<in> set (order db p). smallint_of (uint16_of s) = s)"

lemma find_map_filter_slot:
  assumes "\<forall>s \<in> set ss. smallint_of (uint16_of s) = s"
  shows "find (\<lambda>x. ii_slotIndex x = k) (List.map_filter (\<lambda>s. map_option
      (\<lambda>r. \<lparr>ii_slotIndex = uint16_of s, ii_itemId = f r, ii_count = g r, ii_equipped = h r\<rparr>) (m s)) ss)
    = (if smallint_of k \<in> set ss then map_option (\<lambda>r. \<lparr>ii_slotIndex = k, ii_itemId = f r,
        ii_count = g r, ii_equipped = h r\<rparr>) (m (smallint_of k)) else None)"
  using assms
proof (induction ss)
  case (Cons s ss)
  have "uint16_of s = k \<longleftrightarrow> s = smallint_of k"
    using Cons.prems by auto
  then show ?case
    using Cons by (cases "m s") (auto simp: map_filter_simps)
qed (simp add: map_filter_simps)

lemma ExtractInventory_rows:
  assumes "row_order_for order p db"
  shows "rows_of (db_table p db) (ExtractInventory order True p db)"
proof -
  let ?ss = "order db p"
  have inj: "inj_on uint16_of (set ?ss)"
    using assms by (metis inj_onI row_order_for_def)
  have all: "List.map_filter (\<lambda>s. map_option (F s) (db_inventory db (p, s))) ss
      = map (\<lambda>s. F s (the (db_inventory db (p, s)))) ss" if "set ss \<subseteq> set ?ss" for F ss
    using that assms by (induction ss) (auto simp: map_filter_simps row_order_for_def)
  have "distinct (map ii_slotIndex (ExtractInventory order True p db))"
    using inj assms by (simp add: ExtractInventory_def all comp_def distinct_map row_order_for_def)
  moreover have "smallint_of k \<in> set ?ss \<longleftrightarrow> db_inventory db (p, smallint_of k) \<noteq> None" for k
    using assms by (simp add: row_order_for_def)
  ultimately show ?thesis
    using assms unfolding rows_of_def
    by (auto simp: db_table_def ExtractInventory_def find_map_filter_slot row_order_for_def
        option.map_comp comp_def)
qed

end
