(* ===== verification/InventoryProps.thy ===== *)
theory InventoryProps
  imports DbOrder
begin

text \<open>
  The properties of the inventory and of its persistence, each with a witness on a concrete
  inventory: five potions in slot 0 and an equipped wooden sword in slot 3.
\<close>

definition demo_owner :: InvOwner where
  "demo_owner = \<lparr>owner_ObjID = mkObjID eUser 7, owner_playerId = 42,
     owner_stat = newStat\<lparr>m_maxHp := 100, m_hp := 50, m_offensive := 13, m_die := False\<rparr>\<rparr>"

definition demo_potion :: Item where
  "demo_potion = \<lparr>item_class = ConsumableItem, m_itemTableId = 1, m_count = 5,
     m_lootPriorityOwner = npos, m_OwnerID = mkObjID eUser 7, m_Name = ''Health Potion''\<rparr>"

definition demo_sword :: Item where
  "demo_sword = \<lparr>item_class = EquipmentItem True, m_itemTableId = 2, m_count = 1,
     m_lootPriorityOwner = npos, m_OwnerID = mkObjID eUser 7, m_Name = ''Wooden Sword''\<rparr>"

definition demo_spare :: Item where
  "demo_spare = demo_sword\<lparr>item_class := EquipmentItem False, m_itemTableId := 3, m_Name := ''Iron Sword''\<rparr>"

definition demo_inv :: Inventory where
  "demo_inv = \<lparr>inv_owner = Some demo_owner,
     inv_slots = [0 \<mapsto> demo_potion, 3 \<mapsto> demo_sword, 4 \<mapsto> demo_spare], inv_requests = []\<rparr>"

definition demo_db :: Database where
  "demo_db = \<lparr>db_players = [\<lparr>pr_playerId = 42, pr_name = ''kim'', pr_password = [], pr_x = 10,
     pr_y = 20, pr_level = 1, pr_exp = 0\<rparr>], db_identity = 43, db_inventory = Map.empty\<rparr>"

definition demo_sys :: DbSystem where
  "demo_sys = \<lparr>ds_threads = initDBThread, ds_db = demo_db, ds_counter = 0, ds_out = []\<rparr>"

definition demo_actions :: "DbAction list" where
  "demo_actions = [Issue 5 (DbSaveItem 42 0 1 5 False), Issue 4 (DbLogin 1 ''lee'' ''pw''),
     Issue 5 (DbDeleteItem 42 0), Work 2 3 True (\<lambda>_. True), Work 0 9 True (\<lambda>n. n \<noteq> 0),
     Work 2 9 True (\<lambda>_. False), Issue 8 (DbSaveItem 42 3 2 1 True), Work 2 9 True (\<lambda>_. True),
     Work 2 9 False (\<lambda>_. True)]"

definition demo_saved :: Inventory where
  "demo_saved = \<lparr>inv_owner = Some demo_owner, inv_slots = [3 \<mapsto> demo_sword],
     inv_requests = [DbSaveItem 42 0 1 5 False, DbDeleteItem 42 0, DbSaveItem 42 3 2 1 True]\<rparr>"

lemmas demo_defs = demo_owner_def demo_potion_def demo_sword_def demo_spare_def demo_inv_def

lemma demo_equipped: "equipped_set (inv_slots demo_inv) = {(3, 2)}"
  by (auto simp: demo_defs equipped_set_upd IsEquipped_def)

lemma demo_ok: "inv_ok demo_inv"
proof -
  have "item_ok (mkObjID eUser 7) demo_potion" "item_ok (mkObjID eUser 7) demo_sword"
    "item_ok (mkObjID eUser 7) demo_spare"
    by (simp_all add: item_ok_def demo_defs ItemTable_Find_def kRows_def isEquipment_def)
  then have "slots_ok (mkObjID eUser 7) (inv_slots demo_inv)"
    unfolding slots_ok_def demo_equipped
    by (auto simp: demo_inv_def IsValidSlotIndex_def MAX_INVENTORY_SLOTS_def split: if_splits)
  moreover have "offensive_ok (equipped_set (inv_slots demo_inv)) 13"
    unfolding demo_equipped
    by (auto simp: offensive_ok_def ItemTable_Find_def kRows_def PLAYER_OFFENSIVE_def)
  ultimately show ?thesis
    by (simp add: inv_ok_def demo_inv_def demo_owner_def)
qed

lemma demo_iter: "slot_iteration slot_order"
  by (rule slot_order.slot_iteration_axioms)

text \<open>C3. Adding items is all or nothing.  On a well-formed inventory \<open>TryAddItem\<close> never crashes; it
  succeeds exactly when the count is positive, the item exists in the table and the count fits into
  the stacks and free slots; on success exactly that many pieces were added, no other kind of
  item changed, only the reported slots changed; on failure nothing changed at all.\<close>

theorem TryAddItem_all_or_nothing:
  assumes "slot_iteration iter" "inv_ok iv"
  shows "\<exists>res ts iv'. TryAddItem iter i cnt iv = Some (res, ts, iv') \<and>
    (res \<longleftrightarrow> cnt \<noteq> 0 \<and> (\<exists>row. ItemTable_Find i = Some row \<and>
       unat cnt \<le> inv_capacity i (unat (row_maxStack row)) (inv_slots iv))) \<and>
    (if res then inv_total i (inv_slots iv') = inv_total i (inv_slots iv) + unat cnt \<and>
        (\<forall>j. j \<noteq> i \<longrightarrow> inv_total j (inv_slots iv') = inv_total j (inv_slots iv)) \<and>
        (\<forall>k. k \<notin> set ts \<longrightarrow> inv_slots iv' k = inv_slots iv k) \<and> inv_ok iv'
     else iv' = iv \<and> ts = [])"
proof (cases "cnt \<noteq> 0 \<and> (\<exists>row. ItemTable_Find i = Some row \<and>
       unat cnt \<le> inv_capacity i (unat (row_maxStack row)) (inv_slots iv))")
  case True
  then obtain row where row: "cnt \<noteq> 0" "ItemTable_Find i = Some row"
    "unat cnt \<le> inv_capacity i (unat (row_maxStack row)) (inv_slots iv)"
    by blast
  from slot_iteration.TryAddItem_accept_step [OF assms row] obtain ts iv' where
    "TryAddItem iter i cnt iv = Some (True, ts, iv')" "inv_step iv iv'"
    "grown i (inv_slots iv) (inv_slots iv') (set ts)"
    "inv_total i (inv_slots iv') = inv_total i (inv_slots iv) + unat cnt"
    by blast
  with True show ?thesis
    using grown_other [of i "inv_slots iv"]
    by (intro exI [of _ True] exI [of _ ts] exI [of _ iv']) (auto simp: inv_step_def grown_def)
next
  case False
  then have "TryAddItem iter i cnt iv = Some (False, [], iv)"
    by (intro slot_iteration.TryAddItem_reject [OF assms]) (cases "ItemTable_Find i"; auto)
  with False show ?thesis
    by auto
qed

theorem TryAddItem_all_or_nothing_witness:
  "\<exists>res ts iv'. TryAddItem slot_order 1 96 demo_inv = Some (res, ts, iv') \<and>
    (res \<longleftrightarrow> (96::uint16) \<noteq> 0 \<and> (\<exists>row. ItemTable_Find 1 = Some row \<and>
       unat (96::uint16) \<le> inv_capacity 1 (unat (row_maxStack row)) (inv_slots demo_inv))) \<and>
    (if res then inv_total 1 (inv_slots iv') = inv_total 1 (inv_slots demo_inv) + unat (96::uint16) \<and>
        (\<forall>j. j \<noteq> 1 \<longrightarrow> inv_total j (inv_slots iv') = inv_total j (inv_slots demo_inv)) \<and>
        (\<forall>k. k \<notin> set ts \<longrightarrow> inv_slots iv' k = inv_slots demo_inv k) \<and> inv_ok iv'
     else iv' = demo_inv \<and> ts = [])"
  by (rule TryAddItem_all_or_nothing [OF demo_iter demo_ok])

text \<open>C23. Extracting items for the ground conserves quantities.  A legal request returns a loose
  item (no owner, not equipped, of the same kind) of exactly the requested count, and the pieces
  left in the inventory together with the extracted ones are what was there before.\<close>

theorem TryExtractItem_conserves:
  assumes "slot_iteration iter" "inv_ok iv"
    and "inv_slots iv k = Some it" "cnt \<noteq> 0" "cnt \<le> m_count it"
  shows "\<exists>ex iv'. TryExtractItem iter k cnt iv = Some (Some ex, iv') \<and> inv_ok iv' \<and>
    IsOnGround ex \<and> \<not> IsEquipped ex \<and> m_itemTableId ex = m_itemTableId it \<and> m_count ex = cnt \<and>
    (\<forall>i. inv_total i (inv_slots iv') + amount i (Some ex) = inv_total i (inv_slots iv))"
proof -
  from slot_iteration.TryExtractItem_accept [OF assms] obtain ex iv' where
    ex: "TryExtractItem iter k cnt iv = Some (Some ex, iv')" "inv_step iv iv'"
    "inv_slots iv' = taken k cnt it (inv_slots iv)" "m_itemTableId ex = m_itemTableId it"
    "m_count ex = cnt" "\<not> IsEquipped ex" "IsOnGround ex"
    by blast
  have "IsValidSlotIndex k"
    using assms(2,3) slots_okD(2) by (metis inv_okE)
  then have "inv_total i (inv_slots iv') + amount i (Some ex) = inv_total i (inv_slots iv)" for i
    using taken_total [of k "inv_slots iv" it cnt i] assms(3,5) ex(3-5)
    by (simp add: unat_le_iff split: if_splits)
  with ex show ?thesis
    by (auto simp: inv_step_def)
qed

theorem TryExtractItem_conserves_witness:
  "\<exists>ex iv'. TryExtractItem slot_order 0 2 demo_inv = Some (Some ex, iv') \<and> inv_ok iv' \<and>
    IsOnGround ex \<and> \<not> IsEquipped ex \<and> m_itemTableId ex = m_itemTableId demo_potion \<and> m_count ex = 2 \<and>
    (\<forall>i. inv_total i (inv_slots iv') + amount i (Some ex) = inv_total i (inv_slots demo_inv))"
  by (rule TryExtractItem_conserves [OF demo_iter demo_ok]) (simp_all add: demo_defs)

text \<open>C24. Equipping is exclusive.  Equipping an unequipped piece of equipment succeeds, afterwards it is
  the only equipped item, the attack power is the base plus its bonus, and the slot reported as
  previous is the one that was equipped before.\<close>

theorem TryEquip_exclusive:
  assumes "slot_iteration iter" "inv_ok iv"
    and "inv_slots iv k = Some it" "isEquipment it" "\<not> IsEquipped it"
    and "ItemTable_Find (m_itemTableId it) = Some row"
  shows "\<exists>prev iv' owner'. TryEquip iter k iv = Some (True, prev, iv') \<and> inv_ok iv' \<and>
    equipped_set (inv_slots iv') = {(k, m_itemTableId it)} \<and>
    inv_owner iv' = Some owner' \<and>
    m_offensive (owner_stat owner') = PLAYER_OFFENSIVE + row_attackBonus row \<and>
    (\<forall>p. prev = Some p \<longleftrightarrow> (\<exists>i. (p, i) \<in> equipped_set (inv_slots iv)))"
proof -
  from slot_iteration.TryEquip_accept [OF assms(1-5)] obtain prev iv' where
    e: "TryEquip iter k iv = Some (True, prev, iv')" "inv_step iv iv'"
    "equipped_set (inv_slots iv') = {(k, m_itemTableId it)}"
    "\<forall>p. prev = Some p \<longleftrightarrow> (\<exists>i. (p, i) \<in> equipped_set (inv_slots iv))"
    by blast
  then have "inv_ok iv'"
    by (simp add: inv_step_def)
  then obtain owner' where o: "inv_owner iv' = Some owner'"
    "offensive_ok (equipped_set (inv_slots iv')) (m_offensive (owner_stat owner'))"
    by (rule inv_okE)
  from o(2) have "m_offensive (owner_stat owner') = PLAYER_OFFENSIVE + row_attackBonus row"
    unfolding offensive_ok_def e(3) using assms(6) by blast
  with e \<open>inv_ok iv'\<close> o(1) show ?thesis
    by blast
qed

theorem TryEquip_exclusive_witness:
  "\<exists>prev iv' owner'. TryEquip slot_order 4 demo_inv = Some (True, prev, iv') \<and> inv_ok iv' \<and>
    equipped_set (inv_slots iv') = {(4, m_itemTableId demo_spare)} \<and>
    inv_owner iv' = Some owner' \<and>
    m_offensive (owner_stat owner') = PLAYER_OFFENSIVE + row_attackBonus (kRows ! 2) \<and>
    (\<forall>p. prev = Some p \<longleftrightarrow> (\<exists>i. (p, i) \<in> equipped_set (inv_slots demo_inv)))"
  by (rule TryEquip_exclusive [OF demo_iter demo_ok])
    (simp_all add: demo_defs isEquipment_def IsEquipped_def ItemTable_Find_def kRows_def)

text \<open>C4. Every sequence of client operations is safe.  From a well-formed inventory no sequence of
  add, extract, equip, unequip, use and swap requests, with any arguments, crashes; the result is well
  formed, belongs to the same player, and replaying the journal of database requests on the table
  the player was loaded from always gives exactly the current slots.\<close>

theorem inventory_run_safe:
  assumes "slot_iteration iter" "inv_ok iv" "journal_ok T iv"
  shows "\<exists>iv'. inv_run iter ops iv = Some iv' \<and> inv_ok iv' \<and> journal_ok T iv' \<and>
    map_option owner_playerId (inv_owner iv') = map_option owner_playerId (inv_owner iv)"
proof -
  from slot_iteration.inv_run_step [OF assms(1,2)] obtain iv' where
    iv': "inv_run iter ops iv = Some iv'" "inv_step iv iv'"
    by blast
  then show ?thesis
    using assms(3) inv_step_player [OF iv'(2)] by (simp add: inv_step_def)
qed

theorem inventory_run_safe_witness:
  "\<exists>iv'. inv_run slot_order [OpEquip 4, OpUse 0, OpSwap 0 9, OpAdd 1 200, OpExtract 4 1, OpUse 77] demo_inv
      = Some iv' \<and> inv_ok iv' \<and> journal_ok (table_of (inv_slots demo_inv)) iv' \<and>
    map_option owner_playerId (inv_owner iv') = map_option owner_playerId (inv_owner demo_inv)"
proof (rule inventory_run_safe [OF demo_iter demo_ok])
  show "journal_ok (table_of (inv_slots demo_inv)) demo_inv"
    by (simp add: journal_ok_def demo_inv_def)
qed

text \<open>Swapping twice restores the slots, and a swap moves items without changing any total.\<close>

theorem TrySwapSlots_involution:
  assumes "inv_ok iv" "IsValidSlotIndex a" "IsValidSlotIndex b" "a \<noteq> b"
    "inv_slots iv a \<noteq> None \<or> inv_slots iv b \<noteq> None"
  shows "\<exists>iv1 iv2. TrySwapSlots a b iv = Some (True, iv1) \<and> TrySwapSlots a b iv1 = Some (True, iv2) \<and>
    inv_slots iv2 = inv_slots iv \<and> inv_ok iv1 \<and>
    inv_slots iv1 a = inv_slots iv b \<and> inv_slots iv1 b = inv_slots iv a \<and>
    (\<forall>i. inv_total i (inv_slots iv1) = inv_total i (inv_slots iv))"
proof -
  from TrySwapSlots_accept [OF assms] obtain iv1 where
    1: "TrySwapSlots a b iv = Some (True, iv1)" "inv_step iv iv1"
    "inv_slots iv1 = (inv_slots iv)(b := inv_slots iv a, a := inv_slots iv b)"
    by metis
  have "inv_ok iv1" "inv_slots iv1 a \<noteq> None \<or> inv_slots iv1 b \<noteq> None"
    using 1(2,3) assms(4,5) by (auto simp: inv_step_def)
  from TrySwapSlots_accept [OF this(1) assms(2-4) this(2)] obtain iv2 where
    2: "TrySwapSlots a b iv1 = Some (True, iv2)"
    "inv_slots iv2 = (inv_slots iv1)(b := inv_slots iv1 a, a := inv_slots iv1 b)"
    by metis
  have "inv_total i (inv_slots iv1) = inv_total i (inv_slots iv)" for i
    using inv_total_upd2 [of b a i "inv_slots iv" "inv_slots iv a" "inv_slots iv b"] assms(2-4) 1(3)
    by simp
  moreover have "inv_slots iv2 = inv_slots iv"
    using 1(3) 2(2) assms(4) by auto
  ultimately show ?thesis
    using 1 2(1) \<open>inv_ok iv1\<close> assms(4) by auto
qed

theorem TrySwapSlots_involution_witness:
  "\<exists>iv1 iv2. TrySwapSlots 0 29 demo_inv = Some (True, iv1) \<and> TrySwapSlots 0 29 iv1 = Some (True, iv2) \<and>
    inv_slots iv2 = inv_slots demo_inv \<and> inv_ok iv1 \<and>
    inv_slots iv1 0 = inv_slots demo_inv 29 \<and> inv_slots iv1 29 = inv_slots demo_inv 0 \<and>
    (\<forall>i. inv_total i (inv_slots iv1) = inv_total i (inv_slots demo_inv))"
  by (rule TrySwapSlots_involution [OF demo_ok])
    (simp_all add: IsValidSlotIndex_def MAX_INVENTORY_SLOTS_def demo_inv_def)

text \<open>C5. Writes of one player are committed in the order in which they were requested.  In any
  interleaving of requests and worker steps, if the clock readings of that player's requests do not
  go back (they come from one zone thread at a time on a steady clock) and fewer than \<open>2 ^ 64\<close>
  requests are made, no assertion fails and the processed requests of the player followed by those
  still queued are the issued ones in order.\<close>

theorem db_requests_in_order:
  assumes "ds_threads sys0 = initDBThread" "issues as < 2 ^ 64" "sorted (map fst (issued p as))"
  shows "\<exists>dn sys. db_run coll order hash as ([], sys0) = Some (dn, sys) \<and>
    processed p dn @ map ev_request (queued p sys) = map snd (issued p as)"
  using db_run_inv [OF assms, of coll order hash] db_invD(6) by blast

theorem db_requests_in_order_witness:
  "\<exists>dn sys. db_run id (\<lambda>_ _. []) (\<lambda>_. 0) demo_actions ([], demo_sys) = Some (dn, sys) \<and>
    processed 42 dn @ map ev_request (queued 42 sys) =
      [DbSaveItem 42 0 1 5 False, DbDeleteItem 42 0, DbSaveItem 42 3 2 1 True]"
  using db_requests_in_order [of demo_sys demo_actions 42 id "\<lambda>_ _. []" "\<lambda>_. 0"]
  by (simp add: demo_sys_def demo_actions_def of_player_def)

text \<open>C6. The inventory is persisted as far as the writes succeed.  If the inventory requests issued for
  a player are the journal of his inventory and the inventory started from the stored rows, then in
  every interleaving, whatever connections and statements fail, the rows of the player are the replay
  of those processed requests whose write took effect.  A failed write is never repeated, so once no
  request of the player is queued any more, the row of every slot is the current slot of the
  inventory unless the last write of that slot was lost.\<close>

theorem inventory_persisted:
  assumes "ds_threads sys0 = initDBThread" "issues as < 2 ^ 64" "sorted (map fst (issued p as))"
    and "player_exists p (ds_db sys0)" "map snd (issued p as) = inv_requests iv"
    and "journal_ok (db_table p (ds_db sys0)) iv"
  shows "\<exists>dn sys. db_run coll order hash as ([], sys0) = Some (dn, sys) \<and>
    db_table p (ds_db sys) = replay (db_table p (ds_db sys0)) (committed p dn) \<and>
    (\<forall>k. queued p sys = [] \<and> \<not> write_lost p k dn \<longrightarrow>
       db_table p (ds_db sys) k = table_of (inv_slots iv) k)"
proof -
  from db_run_inv [OF assms(1-3), of coll order hash] obtain dn sys where
    r: "db_run coll order hash as ([], sys0) = Some (dn, sys)"
    "processed p dn @ map ev_request (queued p sys) = inv_requests iv"
    using db_invD(6) assms(5) by metis
  then show ?thesis
    using db_run_table [OF assms(4) r(1)] assms(6) committed_slot [of p _ dn "db_table p (ds_db sys0)"]
    by (auto simp: journal_ok_def)
qed

theorem inventory_persisted_witness:
  "\<exists>dn sys. db_run id (\<lambda>_ _. []) (\<lambda>_. 0) demo_actions ([], demo_sys) = Some (dn, sys) \<and>
    db_table 42 (ds_db sys) = replay (db_table 42 (ds_db demo_sys)) (committed 42 dn) \<and>
    (\<forall>k. queued 42 sys = [] \<and> \<not> write_lost 42 k dn \<longrightarrow>
       db_table 42 (ds_db sys) k = table_of (inv_slots demo_saved) k)"
proof (rule inventory_persisted)
  show "journal_ok (db_table 42 (ds_db demo_sys)) demo_saved"
    by (auto simp: journal_ok_def demo_saved_def demo_sys_def demo_db_def demo_owner_def demo_sword_def
        db_table_def table_of_def IsEquipped_def fun_eq_iff)
qed (simp_all add: demo_sys_def demo_db_def demo_actions_def demo_saved_def of_player_def player_exists_def)

text \<open>C7. Login restores what was saved.  If the rows of a player stand for the slots of a well-formed
  inventory, then the query and \<open>LoadFromDB\<close> on a fresh inventory never crash and give a well-formed
  inventory with the same items, counts and equipment flags, whatever order the rows come in.\<close>

theorem login_restores_inventory:
  assumes "slot_iteration iter" "slots_ok ownerId slots" "db_table p db = table_of slots"
    and "row_order_for order p db"
    and "inv_owner iv = Some owner" "inv_slots iv = Map.empty"
  shows "\<exists>iv'. LoadFromDB iter (ExtractInventory order True p db) iv = Some iv' \<and> inv_ok iv' \<and>
    table_of (inv_slots iv') = table_of slots"
  using slot_iteration.LoadFromDB_restores [OF assms(1,2) _ assms(5,6)]
    ExtractInventory_rows [OF assms(4)] assms(3) by metis

theorem login_restores_inventory_witness:
  "\<exists>iv'. LoadFromDB slot_order (ExtractInventory (\<lambda>_ _. [3]) True 42
        (demo_db\<lparr>db_inventory := [(42, 3) \<mapsto> \<lparr>ir_itemId = 2, ir_count = 1, ir_equipped = True\<rparr>]\<rparr>))
      (demo_inv\<lparr>inv_slots := Map.empty\<rparr>) = Some iv' \<and> inv_ok iv' \<and>
    table_of (inv_slots iv') = table_of [3 \<mapsto> demo_sword]"
proof (rule login_restores_inventory [OF demo_iter])
  show "slots_ok (mkObjID eUser 7) [3 \<mapsto> demo_sword]"
    by (auto simp: slots_ok_def equipped_set_upd item_ok_def demo_sword_def ItemTable_Find_def kRows_def
        isEquipment_def IsValidSlotIndex_def MAX_INVENTORY_SLOTS_def split: if_splits)
  have "smallint_of 3 = 3"
    by (simp add: smallint_of_def)
  then have "smallint_of k = 3 \<longleftrightarrow> k = 3" for k
    by (metis smallint_of_inj)
  then show "db_table 42 (demo_db\<lparr>db_inventory := [(42, 3) \<mapsto> \<lparr>ir_itemId = 2, ir_count = 1,
      ir_equipped = True\<rparr>]\<rparr>) = table_of [3 \<mapsto> demo_sword]"
    by (auto simp: db_table_def table_of_def demo_sword_def IsEquipped_def uint16_of_def fun_eq_iff)
qed (auto simp: row_order_for_def demo_inv_def smallint_of_def uint16_of_def)

text \<open>C28. Using a consumable heals the owner without exceeding the maximum, takes exactly one piece from
  the slot and keeps the inventory well formed.\<close>

theorem TryUseItem_heals:
  assumes "inv_ok iv" "inv_slots iv k = Some it" "\<not> isEquipment it" "inv_owner iv = Some owner"
    and "ItemTable_Find (m_itemTableId it) = Some row" "row_healAmount row > 0"
  shows "\<exists>iv' owner'. TryUseItem k iv = Some (True, iv') \<and> inv_ok iv' \<and> inv_owner iv' = Some owner' \<and>
    unat (m_hp (owner_stat owner'))
      = min (unat (m_hp (owner_stat owner)) + unat (row_healAmount row)) (unat PLAYER_MAX_HP) \<and>
    (\<forall>i. inv_total i (inv_slots iv') + (if m_itemTableId it = i then 1 else 0) = inv_total i (inv_slots iv))"
proof -
  from TryUseItem_accept [OF assms(1-5)] assms(6) obtain iv' where
    u: "TryUseItem k iv = Some (True, iv')" "inv_step iv iv'"
    "inv_slots iv' = taken k 1 it (inv_slots iv)"
    "inv_owner iv' = Some (owner\<lparr>owner_stat := HealHp (row_healAmount row) PLAYER_MAX_HP (owner_stat owner)\<rparr>)"
    by auto
  from assms(1,2) obtain ownerId where ok: "slots_ok ownerId (inv_slots iv)"
    by (metis inv_okE)
  have "1 \<le> unat (m_count it)"
    using item_ok_row [OF slots_okD(1) [OF ok assms(2)]] by metis
  then have "inv_total i (inv_slots iv') + (if m_itemTableId it = i then 1 else 0) = inv_total i (inv_slots iv)" for i
    using taken_total [of k "inv_slots iv" it 1 i] slots_okD(2) [OF ok assms(2)] assms(2) u(3)
    by (simp split: if_splits)
  with u show ?thesis
    by (auto simp: inv_step_def HealHp_hp)
qed

theorem TryUseItem_heals_witness:
  "\<exists>iv' owner'. TryUseItem 0 demo_inv = Some (True, iv') \<and> inv_ok iv' \<and> inv_owner iv' = Some owner' \<and>
    unat (m_hp (owner_stat owner'))
      = min (unat (m_hp (owner_stat demo_owner)) + unat (row_healAmount (kRows ! 0))) (unat PLAYER_MAX_HP) \<and>
    (\<forall>i. inv_total i (inv_slots iv') + (if m_itemTableId demo_potion = i then 1 else 0)
       = inv_total i (inv_slots demo_inv))"
  by (rule TryUseItem_heals [OF demo_ok])
    (simp_all add: demo_defs isEquipment_def ItemTable_Find_def kRows_def)

text \<open>C29. \<open>TryRemoveItem\<close> is the one operation that does not recompute the attack power: removing the
  equipped item empties its slot but leaves the owner with the bonus of a weapon he no longer has,
  so the invariant is lost.  (The method has no caller in the server.)\<close>

theorem TryRemoveItem_stale_offensive:
  assumes "inv_ok iv" "inv_slots iv k = Some it" "IsEquipped it"
    and "ItemTable_Find (m_itemTableId it) = Some row"
  shows "\<exists>iv' owner'. TryRemoveItem k 1 iv = Some (True, iv') \<and> equipped_set (inv_slots iv') = {} \<and>
    inv_owner iv' = Some owner' \<and>
    m_offensive (owner_stat owner') = PLAYER_OFFENSIVE + row_attackBonus row \<and>
    (row_attackBonus row \<noteq> 0 \<longrightarrow> \<not> inv_ok iv')"
proof -
  from assms(1) obtain owner where o: "inv_owner iv = Some owner"
    "slots_ok (owner_ObjID owner) (inv_slots iv)"
    "offensive_ok (equipped_set (inv_slots iv)) (m_offensive (owner_stat owner))"
    by (rule inv_okE)
  have e: "(k, m_itemTableId it) \<in> equipped_set (inv_slots iv)"
    using assms(2,3) by (auto simp: equipped_set_def)
  then have off: "m_offensive (owner_stat owner) = PLAYER_OFFENSIVE + row_attackBonus row"
    using o(3) assms(4) by (auto simp: offensive_ok_def)
  have "p = (k, m_itemTableId it)" if "p \<in> equipped_set (inv_slots iv)" for p
    using that e o(2) unfolding slots_ok_def by blast
  then have none: "equipped_set ((inv_slots iv)(k := None)) = {}"
    by (auto simp: equipped_set_upd)
  have one: "m_count it = 1"
    using item_ok_equipment_count [OF slots_okD(1) [OF o(2) assms(2)]] IsEquipped_isEquipment [OF assms(3)]
    by blast
  from SaveSlotToDB_Some [of "iv\<lparr>inv_slots := (inv_slots iv)(k := None)\<rparr>" owner k] o(1) obtain rs where
    "SaveSlotToDB k (iv\<lparr>inv_slots := (inv_slots iv)(k := None)\<rparr>)
      = Some (iv\<lparr>inv_slots := (inv_slots iv)(k := None), inv_requests := rs\<rparr>)"
    by auto
  then have "TryRemoveItem k 1 iv = Some (True, iv\<lparr>inv_slots := (inv_slots iv)(k := None), inv_requests := rs\<rparr>)"
    using assms(2) one slots_okD(2) [OF o(2) assms(2)] o(1)
    by (simp add: TryRemoveItem_def AssertOwnedByCurrentZone_def crash_simps Let_def RemoveCount_zero)
  then show ?thesis
    using none off o(1) by (auto simp: inv_ok_def offensive_ok_def)
qed

theorem TryRemoveItem_stale_offensive_witness:
  "\<exists>iv' owner'. TryRemoveItem 3 1 demo_inv = Some (True, iv') \<and> equipped_set (inv_slots iv') = {} \<and>
    inv_owner iv' = Some owner' \<and>
    m_offensive (owner_stat owner') = PLAYER_OFFENSIVE + row_attackBonus (kRows ! 1) \<and>
    (row_attackBonus (kRows ! 1) \<noteq> 0 \<longrightarrow> \<not> inv_ok iv')"
  by (rule TryRemoveItem_stale_offensive [OF demo_ok, where it = demo_sword])
    (simp_all add: demo_defs IsEquipped_def ItemTable_Find_def kRows_def)

end
