(* ===== verification/Collisions.thy ===== *)
theory Collisions
  imports ZoneLayouts
begin

text \<open>
  The obstacle map of \<^verbatim>\<open>Area/Collision.cpp\<close> and the tile-wise movement of
  \<^verbatim>\<open>Subject/SubjectHelper.cpp\<close>.  \<open>InitCollisionTile\<close> fills the table \<open>GCollision\<close> with its two
  nested loops and \<open>isCollision\<close> reads it, row index first; \<open>isCollision_iff\<close> shows that the
  transposed index is harmless.  Positions are \<^verbatim>\<open>short\<close> values, so every increment below stays
  inside the type because the guards keep the position inside the world.
\<close>

definition checkCollision :: "short \<Rightarrow> short \<Rightarrow> bool" where
  "checkCollision x_pos y_pos =
     (if x_pos < 0 \<or> y_pos < 0 \<or> x_pos \<ge> W_WIDTH \<or> y_pos \<ge> W_HEIGHT then False
      else if (x_pos div 3 + y_pos div 3) mod 3 = 0 then False
      else if (x_pos div 3 + y_pos div 3) mod 3 = 1 then False
      else if (x_pos div 2 + y_pos div 2) mod 3 = 0 then True
      else False)"

type_synonym CollisionTable = "int \<Rightarrow> int \<Rightarrow> bool"

definition InitCollisionTile :: "CollisionTable \<Rightarrow> CollisionTable" where
  "InitCollisionTile g =
     fold (\<lambda>i g. fold (\<lambda>j g. g(i := (g i)(j := checkCollision i j))) [0..W_HEIGHT - 1] g)
       [0..W_WIDTH - 1] g"

definition GCollision :: CollisionTable where
  "GCollision = InitCollisionTile (\<lambda>_ _. False)"

definition isCollision :: "short \<Rightarrow> short \<Rightarrow> bool" where
  "isCollision x_pos y_pos =
     (if x_pos < 0 \<or> y_pos < 0 \<or> x_pos \<ge> W_WIDTH \<or> y_pos \<ge> W_HEIGHT then True
      else GCollision y_pos x_pos)"

definition moveUp :: "short \<times> short \<Rightarrow> short \<times> short" where
  "moveUp p = (case p of (x, y) \<Rightarrow>
     if y > 0 then (if isCollision x (y - 1) then (x, y) else (x, y - 1)) else (x, y))"

definition moveDown :: "short \<times> short \<Rightarrow> short \<times> short" where
  "moveDown p = (case p of (x, y) \<Rightarrow>
     if y < W_HEIGHT - 1 then (if isCollision x (y + 1) then (x, y) else (x, y + 1)) else (x, y))"

definition moveLeft :: "short \<times> short \<Rightarrow> short \<times> short" where
  "moveLeft p = (case p of (x, y) \<Rightarrow>
     if x > 0 then (if isCollision (x - 1) y then (x, y) else (x - 1, y)) else (x, y))"

definition moveRight :: "short \<times> short \<Rightarrow> short \<times> short" where
  "moveRight p = (case p of (x, y) \<Rightarrow>
     if x < W_WIDTH - 1 then (if isCollision (x + 1) y then (x, y) else (x + 1, y)) else (x, y))"

definition MovePositionByDirection :: "short \<Rightarrow> short \<Rightarrow> int \<Rightarrow> short \<times> short" where
  "MovePositionByDirection x y direction =
     (if direction = 0 then moveUp (x, y)
      else if direction = 1 then moveDown (x, y)
      else if direction = 2 then moveLeft (x, y)
      else if direction = 3 then moveRight (x, y)
      else if direction = 4 then moveLeft (moveUp (x, y))
      else if direction = 5 then moveRight (moveUp (x, y))
      else if direction = 6 then moveLeft (moveDown (x, y))
      else if direction = 7 then moveRight (moveDown (x, y))
      else (x, y))"

subsection \<open>The table holds the collision predicate\<close>

lemma inner_fill:
  "distinct js \<Longrightarrow>
   fold (\<lambda>j g. g(i := (g i)(j := f i j))) js g =
   g(i := (\<lambda>j. if j \<in> set js then f i j else g i j))"
  by (induction js arbitrary: g) (auto simp: fun_eq_iff)

lemma outer_fill:
  "distinct is \<Longrightarrow> distinct js \<Longrightarrow>
   fold (\<lambda>i g. fold (\<lambda>j g. g(i := (g i)(j := f i j))) js g) is g =
   (\<lambda>i j. if i \<in> set is \<and> j \<in> set js then f i j else g i j)"
  by (induction "is" arbitrary: g) (auto simp: fun_eq_iff inner_fill)

lemma distinct_upto_int: "distinct [i..j :: int]"
  by (rule distinct_upto)

lemma GCollision_eq:
  "GCollision i j \<longleftrightarrow>
     0 \<le> i \<and> i < W_WIDTH \<and> 0 \<le> j \<and> j < W_HEIGHT \<and> checkCollision i j"
  unfolding GCollision_def InitCollisionTile_def outer_fill [OF distinct_upto distinct_upto]
  by auto

lemma checkCollision_sym: "checkCollision x y = checkCollision y x"
  by (auto simp: checkCollision_def world_consts add.commute)

lemma isCollision_iff:
  "isCollision x y \<longleftrightarrow> \<not> IsValidWorldPosition x y \<or> checkCollision x y"
  using checkCollision_sym [of x y]
  by (auto simp: isCollision_def GCollision_eq IsValidWorldPosition_def world_consts)

lemma not_isCollision_valid: "\<not> isCollision x y \<Longrightarrow> IsValidWorldPosition x y"
  by (simp add: isCollision_iff)

subsection \<open>Movement\<close>

lemmas move_defs = moveUp_def moveDown_def moveLeft_def moveRight_def

text \<open>One axis step keeps the position or goes to the neighbouring tile, which is then free.\<close>

lemma axis_step:
  "moveUp (x, y) = (x, y) \<or> moveUp (x, y) = (x, y - 1) \<and> \<not> isCollision x (y - 1)"
  "moveDown (x, y) = (x, y) \<or> moveDown (x, y) = (x, y + 1) \<and> \<not> isCollision x (y + 1)"
  "moveLeft (x, y) = (x, y) \<or> moveLeft (x, y) = (x - 1, y) \<and> \<not> isCollision (x - 1) y"
  "moveRight (x, y) = (x, y) \<or> moveRight (x, y) = (x + 1, y) \<and> \<not> isCollision (x + 1) y"
  by (auto simp: move_defs)

definition step_ok :: "short \<Rightarrow> short \<Rightarrow> short \<times> short \<Rightarrow> bool" where
  "step_ok x y p \<longleftrightarrow> p = (x, y) \<or>
     \<not> isCollision (fst p) (snd p) \<and> \<bar>fst p - x\<bar> \<le> 1 \<and> \<bar>snd p - y\<bar> \<le> 1"

lemma step_ok_stay: "step_ok x y (x, y)"
  by (simp add: step_ok_def)

lemma step_ok_axis:
  "step_ok x y (moveUp (x, y))" "step_ok x y (moveDown (x, y))"
  "step_ok x y (moveLeft (x, y))" "step_ok x y (moveRight (x, y))"
  using axis_step [where x = x and y = y] by (auto simp: step_ok_def)

lemma step_ok_two:
  assumes "a = (x, y) \<or> a = (x, y') \<and> \<not> isCollision x y'" and "\<bar>y' - y\<bar> \<le> 1"
    and f: "\<And>v. f (x, v) = (x, v) \<or> f (x, v) = (x', v) \<and> \<not> isCollision x' v" and "\<bar>x' - x\<bar> \<le> 1"
  shows "step_ok x y (f a)"
  using assms(1)
proof
  assume "a = (x, y)"
  with f [of y] assms(4) show ?thesis
    by (auto simp: step_ok_def)
next
  assume "a = (x, y') \<and> \<not> isCollision x y'"
  with f [of y'] assms(2,4) show ?thesis
    by (auto simp: step_ok_def)
qed

lemma step_ok_diagonal:
  "step_ok x y (moveLeft (moveUp (x, y)))" "step_ok x y (moveRight (moveUp (x, y)))"
  "step_ok x y (moveLeft (moveDown (x, y)))" "step_ok x y (moveRight (moveDown (x, y)))"
proof -
  show "step_ok x y (moveLeft (moveUp (x, y)))"
    by (rule step_ok_two [OF axis_step(1) _ axis_step(3)]) simp_all
  show "step_ok x y (moveRight (moveUp (x, y)))"
    by (rule step_ok_two [OF axis_step(1) _ axis_step(4)]) simp_all
  show "step_ok x y (moveLeft (moveDown (x, y)))"
    by (rule step_ok_two [OF axis_step(2) _ axis_step(3)]) simp_all
  show "step_ok x y (moveRight (moveDown (x, y)))"
    by (rule step_ok_two [OF axis_step(2) _ axis_step(4)]) simp_all
qed

lemma MovePosition_step_ok: "step_ok x y (MovePositionByDirection x y d)"
  by (simp add: MovePositionByDirection_def step_ok_axis step_ok_diagonal step_ok_stay)

lemma MovePosition_valid:
  assumes "\<not> isCollision x y"
  shows "\<not> isCollision (fst (MovePositionByDirection x y d)) (snd (MovePositionByDirection x y d))"
    and "\<bar>fst (MovePositionByDirection x y d) - x\<bar> \<le> 1"
    and "\<bar>snd (MovePositionByDirection x y d) - y\<bar> \<le> 1"
  using MovePosition_step_ok [of x y d] assms by (auto simp: step_ok_def)

lemma MovePosition_unknown:
  "d < 0 \<or> 7 < d \<Longrightarrow> MovePositionByDirection x y d = (x, y)"
  by (auto simp: MovePositionByDirection_def)

end
