(* ===== verification/Sectors.thy ===== *)
theory Sectors
  imports Collisions ObjIds
begin

text \<open>
  The sector grid of one zone: \<^verbatim>\<open>Area/Sector.h\<close> and \<^verbatim>\<open>Area/Sector.cpp\<close>.  The array
  \<^verbatim>\<open>_sectors\<close> is a function of its two indices, each cell the set of the object ids registered
  there.  The in-out references of the update functions are arguments and results.  The order in
  which an \<^verbatim>\<open>unordered_set\<close> is traversed is not specified, so the scans take it as the
  argument \<open>ord\<close>; the locale \<open>set_traversal\<close> states what the scans rely on.
\<close>

definition kLocalWidth :: short where "kLocalWidth = SectorsPerZoneX"
definition kLocalHeight :: short where "kLocalHeight = SectorsPerZoneY"

record Sector =
  offsetX :: short
  offsetY :: short
  sectors :: "int \<Rightarrow> int \<Rightarrow> ObjID set"

type_synonym set_order = "ObjID set \<Rightarrow> ObjID list"

definition newSector :: "short \<Rightarrow> short \<Rightarrow> Sector" where
  "newSector ox oy = \<lparr>offsetX = ox, offsetY = oy, sectors = (\<lambda>_ _. {})\<rparr>"

definition IsValidSector :: "Sector \<Rightarrow> short \<Rightarrow> short \<Rightarrow> bool" where
  "IsValidSector s sectorX sectorY \<longleftrightarrow>
     sectorX \<ge> offsetX s \<and> sectorX < offsetX s + kLocalWidth \<and>
     sectorY \<ge> offsetY s \<and> sectorY < offsetY s + kLocalHeight"

definition GetSectorCoord :: "short \<Rightarrow> short \<Rightarrow> short \<times> short" where
  "GetSectorCoord worldX worldY =
     (if worldX < 0 \<or> worldX \<ge> W_WIDTH \<or> worldY < 0 \<or> worldY \<ge> W_HEIGHT then (-1, -1)
      else (short_of (worldX div SECTOR_RANGE), short_of (worldY div SECTOR_RANGE)))"

definition GetObjects :: "Sector \<Rightarrow> short \<Rightarrow> short \<Rightarrow> ObjID set option" where
  "GetObjects s sectorX sectorY = do {
     ASSERT_CRASH (IsValidSector s sectorX sectorY);
     Some (sectors s (sectorY - offsetY s) (sectorX - offsetX s)) }"

definition setObjects :: "short \<Rightarrow> short \<Rightarrow> ObjID set \<Rightarrow> Sector \<Rightarrow> Sector" where
  "setObjects sectorX sectorY objs s =
     s\<lparr>sectors := (sectors s)(sectorY - offsetY s :=
        (sectors s (sectorY - offsetY s))(sectorX - offsetX s := objs))\<rparr>"

text \<open>The two scans share the clipped three-by-three window.\<close>

definition window :: "Sector \<Rightarrow> short \<Rightarrow> short \<Rightarrow> (short \<times> short) list" where
  "window s sectorX sectorY =
     (let minY = max (offsetY s) (short_of (sectorY - 1));
          maxY = min (short_of (offsetY s + kLocalHeight - 1)) (short_of (sectorY + 1));
          minX = max (offsetX s) (short_of (sectorX - 1));
          maxX = min (short_of (offsetX s + kLocalWidth - 1)) (short_of (sectorX + 1))
      in concat (map (\<lambda>y. map (\<lambda>x. (x, y)) [minX..maxX]) [minY..maxY]))"

definition ForEachNeighborObjID :: "set_order \<Rightarrow> Sector \<Rightarrow> short \<Rightarrow> short \<Rightarrow> ObjID list" where
  "ForEachNeighborObjID ord s sectorX sectorY =
     (if \<not> IsValidSector s sectorX sectorY then []
      else concat (map (\<lambda>(x, y). ord (sectors s (y - offsetY s) (x - offsetX s)))
                     (window s sectorX sectorY)))"

definition CollectNeighborObjects ::
    "set_order \<Rightarrow> (ObjID \<Rightarrow> 'o option) \<Rightarrow> Sector \<Rightarrow> short \<Rightarrow> short \<Rightarrow> 'o list" where
  "CollectNeighborObjects ord getObject s sectorX sectorY =
     (if \<not> IsValidSector s sectorX sectorY then []
      else let idSnapshot =
                 concat (map (\<lambda>(x, y). ord (sectors s (y - offsetY s) (x - offsetX s)))
                   (window s sectorX sectorY))
           in List.map_filter getObject idSnapshot)"

definition move_cell :: "ObjID \<Rightarrow> short \<times> short \<Rightarrow> short \<times> short \<Rightarrow> Sector \<Rightarrow> Sector option" where
  "move_cell subjectId inOut next s = do {
     s \<leftarrow> (if IsValidSector s (fst inOut) (snd inOut)
           then do { objs \<leftarrow> GetObjects s (fst inOut) (snd inOut);
                     Some (setObjects (fst inOut) (snd inOut) (objs - {subjectId}) s) }
           else Some s);
     objs \<leftarrow> GetObjects s (fst next) (snd next);
     Some (setObjects (fst next) (snd next) (insert subjectId objs) s) }"

definition UpdateObjectSector ::
    "ObjID \<Rightarrow> short \<Rightarrow> short \<Rightarrow> short \<times> short \<Rightarrow> Sector \<Rightarrow> (bool \<times> (short \<times> short) \<times> Sector) option" where
  "UpdateObjectSector subjectId worldX worldY inOut s =
     (let nextSector = GetSectorCoord worldX worldY in
      if \<not> IsValidSector s (fst nextSector) (snd nextSector) then Some (False, inOut, s)
      else if inOut = nextSector then Some (False, inOut, s)
      else do { s \<leftarrow> move_cell subjectId inOut nextSector s; Some (True, nextSector, s) })"

definition UpdateObjectSectorAndPosition ::
    "ObjID \<Rightarrow> short \<Rightarrow> short \<Rightarrow> short \<times> short \<Rightarrow> short \<times> short \<Rightarrow> Sector \<Rightarrow>
     (bool \<times> (short \<times> short) \<times> (short \<times> short) \<times> Sector) option" where
  "UpdateObjectSectorAndPosition subjectId worldX worldY inOutSector inOutPos s =
     (let nextSector = GetSectorCoord worldX worldY in
      if \<not> IsValidSector s (fst nextSector) (snd nextSector)
      then Some (False, inOutSector, inOutPos, s)
      else if inOutSector \<noteq> nextSector
      then do { s \<leftarrow> move_cell subjectId inOutSector nextSector s;
                Some (True, nextSector, (worldX, worldY), s) }
      else Some (True, inOutSector, (worldX, worldY), s))"

definition RemoveObject ::
    "ObjID \<Rightarrow> short \<times> short \<Rightarrow> Sector \<Rightarrow> ((short \<times> short) \<times> Sector) option" where
  "RemoveObject objectId inOut s =
     (if \<not> IsValidSector s (fst inOut) (snd inOut) then Some (inOut, s)
      else do { objs \<leftarrow> GetObjects s (fst inOut) (snd inOut);
                Some ((-1, -1), setObjects (fst inOut) (snd inOut) (objs - {objectId}) s) })"

text \<open>The grid a zone owns: \<^verbatim>\<open>Zone::Zone\<close> computes the offsets from the zone id.\<close>

definition zoneSector :: "ZoneId \<Rightarrow> Sector" where
  "zoneSector zid =
     newSector (short_of (zone_x (GetZoneCoordById zid) * SectorsPerZoneX))
               (short_of (zone_y (GetZoneCoordById zid) * SectorsPerZoneY))"

subsection \<open>Cells by global coordinates\<close>

definition cell :: "Sector \<Rightarrow> short \<times> short \<Rightarrow> ObjID set" where
  "cell s c = sectors s (snd c - offsetY s) (fst c - offsetX s)"

lemma cell_newSector [simp]: "cell (newSector a b) c = {}"
  by (simp add: cell_def newSector_def)

lemma cell_setObjects:
  "cell (setObjects x y objs s) c = (if c = (x, y) then objs else cell s c)"
  by (cases c) (auto simp: cell_def setObjects_def)

lemma setObjects_offsets [simp]:
  "offsetX (setObjects x y objs s) = offsetX s" "offsetY (setObjects x y objs s) = offsetY s"
  by (simp_all add: setObjects_def)

lemma IsValidSector_setObjects [simp]:
  "IsValidSector (setObjects x y objs s) a b = IsValidSector s a b"
  by (simp add: IsValidSector_def)

lemma GetObjects_eq:
  "GetObjects s x y = (if IsValidSector s x y then Some (cell s (x, y)) else None)"
  by (simp add: GetObjects_def cell_def ASSERT_CRASH_def)

lemma move_cell_eq:
  assumes "IsValidSector s (fst nxt) (snd nxt)"
  shows "\<exists>s'. move_cell i old nxt s = Some s' \<and> offsetX s' = offsetX s \<and> offsetY s' = offsetY s \<and>
    (\<forall>c. cell s' c =
       (if c = nxt then insert i (cell s c)
        else if IsValidSector s (fst old) (snd old) \<and> c = old then cell s c - {i} else cell s c))"
  using assms
  by (cases nxt; cases old) (auto simp: move_cell_def GetObjects_eq cell_setObjects)

lemma RemoveObject_eq:
  "\<exists>s'. RemoveObject i old s =
      Some ((if IsValidSector s (fst old) (snd old) then (-1, -1) else old), s') \<and>
    offsetX s' = offsetX s \<and> offsetY s' = offsetY s \<and>
    (\<forall>c. cell s' c = (if IsValidSector s (fst old) (snd old) \<and> c = old then cell s c - {i}
                      else cell s c))"
  by (cases old) (auto simp: RemoveObject_def GetObjects_eq cell_setObjects)

subsection \<open>Traversal of a cell\<close>

locale set_traversal =
  fixes ord :: set_order
  assumes ord_set: "finite S \<Longrightarrow> set (ord S) = S"
    and ord_distinct: "finite S \<Longrightarrow> distinct (ord S)"
begin

lemma set_neighbors:
  assumes "\<forall>c. finite (cell s c)" "IsValidSector s x y"
  shows "set (ForEachNeighborObjID ord s x y) = (\<Union>c \<in> set (window s x y). cell s c)"
  using assms by (auto simp: ForEachNeighborObjID_def cell_def ord_set)

lemma collect_neighbors:
  "CollectNeighborObjects ord get s x y = List.map_filter get (ForEachNeighborObjID ord s x y)"
  by (simp add: CollectNeighborObjects_def ForEachNeighborObjID_def Let_def map_filter_simps)

lemma distinct_neighbors:
  assumes "\<forall>c. finite (cell s c)"
    and "\<forall>c d. c \<noteq> d \<longrightarrow> cell s c \<inter> cell s d = {}"
    and "distinct (window s x y)"
  shows "distinct (ForEachNeighborObjID ord s x y)"
proof -
  have "distinct (concat (map (\<lambda>c. ord (cell s c)) cs))" if "distinct cs" for cs
    using that
  proof (induction cs)
    case (Cons c cs)
    have "set (ord (cell s c)) \<inter> set (concat (map (\<lambda>c. ord (cell s c)) cs)) = {}"
    proof -
      have "cell s c \<inter> cell s d = {}" if d: "d \<in> set cs" for d
      proof -
        from d Cons.prems have "c \<noteq> d" by auto
        with assms(2) show ?thesis by blast
      qed
      then have "\<forall>d \<in> set cs. cell s c \<inter> cell s d = {}" by blast
      moreover have "set (ord (cell s d)) = cell s d" for d
        using assms(1) by (intro ord_set) blast
      ultimately show ?thesis
        by simp blast
    qed
    moreover have "distinct (ord (cell s c))"
      using assms(1) by (intro ord_distinct) blast
    ultimately show ?case
      using Cons.IH Cons.prems by (simp del: set_concat)
  qed simp
  from this [OF assms(3)] show ?thesis
    by (simp add: ForEachNeighborObjID_def cell_def split_def)
qed

end

definition id_order :: set_order where
  "id_order S = sorted_list_of_set S"

interpretation id_order: set_traversal id_order
  by unfold_locales (simp_all add: id_order_def)

subsection \<open>Geometry of the grid of a zone\<close>

text \<open>A grid as a zone creates it, with sectors inside the range of \<^verbatim>\<open>short\<close>.\<close>

definition grid_of :: "ZoneId \<Rightarrow> Sector \<Rightarrow> bool" where
  "grid_of zid s \<longleftrightarrow> IsValidZoneId zid \<and>
     offsetX s = offsetX (zoneSector zid) \<and> offsetY s = offsetY (zoneSector zid)"

lemma zoneSector_offsets:
  assumes "IsValidZoneId zid"
  shows "offsetX (zoneSector zid) = uint zid mod 4 * 50" "offsetY (zoneSector zid) = uint zid div 4 * 50"
proof -
  note c = GetZoneCoordById_valid [OF assms]
  have "short_of (uint zid mod 4 * 50) = uint zid mod 4 * 50"
    using c(3,4) by (intro short_of_id) linarith+
  moreover have "short_of (uint zid div 4 * 50) = uint zid div 4 * 50"
    using c(5,6) by (intro short_of_id) linarith+
  ultimately show "offsetX (zoneSector zid) = uint zid mod 4 * 50"
    "offsetY (zoneSector zid) = uint zid div 4 * 50"
    by (simp_all only: zoneSector_def newSector_def Sector.simps c(1,2) zone_consts)
qed

lemma grid_of_offsets:
  assumes "grid_of zid s"
  shows "0 \<le> offsetX s" "offsetX s \<le> 150" "0 \<le> offsetY s" "offsetY s \<le> 150"
    "offsetX s = uint zid mod 4 * 50" "offsetY s = uint zid div 4 * 50"
proof -
  have v: "IsValidZoneId zid"
    using assms by (simp add: grid_of_def)
  note c = GetZoneCoordById_valid(3-6) [OF v]
  show o: "offsetX s = uint zid mod 4 * 50" "offsetY s = uint zid div 4 * 50"
    using assms zoneSector_offsets [OF v] by (simp_all only: grid_of_def)
  show "0 \<le> offsetX s" "offsetX s \<le> 150" "0 \<le> offsetY s" "offsetY s \<le> 150"
    unfolding o using c by linarith+
qed

lemma grid_of_zoneSector: "IsValidZoneId zid \<Longrightarrow> grid_of zid (zoneSector zid)"
  by (simp add: grid_of_def)

lemma GetSectorCoord_valid:
  assumes "IsValidWorldPosition x y"
  shows "GetSectorCoord x y = (x div 10, y div 10)"
proof -
  note b = IsValidWorldPositionD [OF assms]
  have "short_of (x div 10) = x div 10" "short_of (y div 10) = y div 10"
    using div_bounds(1,2) [OF b(1,2)] div_bounds(1,2) [OF b(3,4)] by (intro short_of_id; linarith)+
  with b show ?thesis
    by (simp only: GetSectorCoord_def world_consts not_le not_less) auto
qed

lemma band: "m * 50 \<le> i div 10 \<and> i div 10 < m * 50 + 50 \<longleftrightarrow> i div 500 = (m :: int)"
  unfolding div_div_500 [symmetric] by linarith

lemma zone_split:
  "0 \<le> a \<Longrightarrow> a < 4 \<Longrightarrow> 0 \<le> m \<Longrightarrow> m < 4 \<Longrightarrow> a = m \<and> b = d \<longleftrightarrow> b * 4 + a = d * 4 + (m :: int)"
  by presburger

text \<open>The position belongs to the grid exactly when the layout puts it into the zone.\<close>

lemma IsValidSector_GetSectorCoord:
  assumes "grid_of zid s"
  shows "IsValidSector s (fst (GetSectorCoord x y)) (snd (GetSectorCoord x y)) \<longleftrightarrow>
         IsValidWorldPosition x y \<and> GetZoneIdByWorld x y = zid"
proof (cases "IsValidWorldPosition x y")
  case True
  note b = IsValidWorldPositionD [OF True]
  note o = grid_of_offsets(5,6) [OF assms]
  have v: "IsValidZoneId zid"
    using assms by (simp add: grid_of_def)
  have z: "GetZoneIdByWorld x y = zid \<longleftrightarrow> y div 500 * 4 + x div 500 = uint zid"
    using uint_GetZoneIdByWorld(1) [OF True] by (auto simp: word_uint_eq_iff)
  have xy: "0 \<le> x div 500" "x div 500 < 4"
    using div_bounds(3,4) [OF b(1,2)] by simp_all
  have s: "uint zid = uint zid div 4 * 4 + uint zid mod 4"
    by simp
  have m: "0 \<le> uint zid mod 4" "uint zid mod 4 < 4"
    by simp_all
  have "IsValidSector s (x div 10) (y div 10) \<longleftrightarrow>
      x div 500 = uint zid mod 4 \<and> y div 500 = uint zid div 4"
    using band [of "uint zid mod 4" x] band [of "uint zid div 4" y]
    by (simp only: IsValidSector_def o kLocalWidth_def kLocalHeight_def zone_consts) blast
  also have "\<dots> \<longleftrightarrow> y div 500 * 4 + x div 500 = uint zid"
    by (subst s, rule zone_split [OF xy m])
  finally show ?thesis
    using True z by (simp add: GetSectorCoord_valid)
next
  case False
  then have "GetSectorCoord x y = (-1, -1)"
    by (auto simp: GetSectorCoord_def IsValidWorldPosition_def)
  with False grid_of_offsets(1) [OF assms] show ?thesis
    by (simp add: IsValidSector_def)
qed

lemma set_window:
  assumes "grid_of zid s" "IsValidSector s sx sy"
  shows "set (window s sx sy) =
    {(x, y). IsValidSector s x y \<and> \<bar>x - sx\<bar> \<le> 1 \<and> \<bar>y - sy\<bar> \<le> 1}"
proof -
  note o = grid_of_offsets(1-4) [OF assms(1)]
  have sh: "short_of (sy - 1) = sy - 1" "short_of (sy + 1) = sy + 1" "short_of (sx - 1) = sx - 1"
    "short_of (sx + 1) = sx + 1" "short_of (offsetY s + 50 - 1) = offsetY s + 50 - 1"
    "short_of (offsetX s + 50 - 1) = offsetX s + 50 - 1"
    using assms(2) o
    by (auto simp: IsValidSector_def kLocalWidth_def kLocalHeight_def intro!: short_of_id)
  show ?thesis
    unfolding window_def Let_def kLocalWidth_def kLocalHeight_def zone_consts sh
    by (auto simp: IsValidSector_def kLocalWidth_def kLocalHeight_def image_iff)
qed

lemma distinct_window: "distinct (window s sx sy)"
proof -
  have "distinct (concat (map (\<lambda>y. map (\<lambda>x. (x, y)) [a..b]) ys))" if "distinct ys"
    for a b :: int and ys :: "int list"
    using that by (induction ys) (auto simp: distinct_map inj_on_def)
  then show ?thesis
    by (simp add: window_def Let_def)
qed

text \<open>The window of a subject's sector contains the sector of every position in its view.\<close>

lemma view_in_window:
  assumes g: "grid_of zid s"
    and p: "IsValidWorldPosition x y" "GetZoneIdByWorld x y = zid"
    and q: "IsValidWorldPosition x' y'" "GetZoneIdByWorld x' y' = zid"
    and near: "\<bar>x - x'\<bar> \<le> VIEW_RANGE" "\<bar>y - y'\<bar> \<le> VIEW_RANGE"
  shows "GetSectorCoord x' y' \<in> set (window s (fst (GetSectorCoord x y)) (snd (GetSectorCoord x y)))"
proof -
  have v: "IsValidSector s (fst (GetSectorCoord x y)) (snd (GetSectorCoord x y))"
    "IsValidSector s (fst (GetSectorCoord x' y')) (snd (GetSectorCoord x' y'))"
    using IsValidSector_GetSectorCoord [OF g] p q by blast+
  have "\<bar>x' div 10 - x div 10\<bar> \<le> 1" "\<bar>y' div 10 - y div 10\<bar> \<le> 1"
    using near unfolding VIEW_RANGE_def by linarith+
  with v show ?thesis
    unfolding set_window [OF g v(1)] by (simp add: GetSectorCoord_valid p(1) q(1))
qed

subsection \<open>Registration of objects in the grid\<close>

text \<open>\<open>pos\<close> gives the objects of the zone with their positions; the grid is registered for it when
  every object is in the cell of its position and nowhere else.\<close>

definition registered :: "ZoneId \<Rightarrow> (ObjID \<rightharpoonup> short \<times> short) \<Rightarrow> Sector \<Rightarrow> bool" where
  "registered zid pos s \<longleftrightarrow> grid_of zid s \<and> finite (dom pos) \<and>
     (\<forall>i x y. pos i = Some (x, y) \<longrightarrow> IsValidWorldPosition x y \<and> GetZoneIdByWorld x y = zid) \<and>
     (\<forall>c i. i \<in> cell s c \<longleftrightarrow> (\<exists>x y. pos i = Some (x, y) \<and> GetSectorCoord x y = c))"

definition sees :: "short \<times> short \<Rightarrow> short \<times> short \<Rightarrow> bool" where
  "sees p q \<longleftrightarrow> \<bar>fst p - fst q\<bar> \<le> VIEW_RANGE \<and> \<bar>snd p - snd q\<bar> \<le> VIEW_RANGE"

lemma registered_cell:
  "registered zid pos s \<Longrightarrow> i \<in> cell s c \<longleftrightarrow> (\<exists>x y. pos i = Some (x, y) \<and> GetSectorCoord x y = c)"
  unfolding registered_def by blast

lemma registered_in_zone:
  "registered zid pos s \<Longrightarrow> pos i = Some (x, y) \<Longrightarrow> IsValidWorldPosition x y \<and> GetZoneIdByWorld x y = zid"
  unfolding registered_def by blast

lemma registered_finite: "registered zid pos s \<Longrightarrow> finite (cell s c)"
  by (rule finite_subset [of _ "dom pos"]) (auto simp: registered_cell, simp add: registered_def)

lemma registered_disjoint: "registered zid pos s \<Longrightarrow> c \<noteq> d \<Longrightarrow> cell s c \<inter> cell s d = {}"
  by (auto simp: registered_cell)

context set_traversal
begin

lemma scan_visible:
  assumes reg: "registered zid pos s" and p: "IsValidWorldPosition x y" "GetZoneIdByWorld x y = zid"
  shows "{i \<in> set (ForEachNeighborObjID ord s (fst (GetSectorCoord x y)) (snd (GetSectorCoord x y))).
           \<exists>q. pos i = Some q \<and> sees (x, y) q} = {i. \<exists>q. pos i = Some q \<and> sees (x, y) q}"
    and "distinct (ForEachNeighborObjID ord s (fst (GetSectorCoord x y)) (snd (GetSectorCoord x y)))"
proof -
  have g: "grid_of zid s"
    using reg by (simp add: registered_def)
  have v: "IsValidSector s (fst (GetSectorCoord x y)) (snd (GetSectorCoord x y))"
    using IsValidSector_GetSectorCoord [OF g] p by blast
  have fin: "\<forall>c. finite (cell s c)"
    using registered_finite [OF reg] by blast
  show "distinct (ForEachNeighborObjID ord s (fst (GetSectorCoord x y)) (snd (GetSectorCoord x y)))"
    using distinct_neighbors [OF fin _ distinct_window] registered_disjoint [OF reg] by blast
  have "i \<in> (\<Union>c \<in> set (window s (fst (GetSectorCoord x y)) (snd (GetSectorCoord x y))). cell s c)"
    if q: "pos i = Some (x', y')" "sees (x, y) (x', y')" for i x' y'
  proof -
    have q': "IsValidWorldPosition x' y'" "GetZoneIdByWorld x' y' = zid" "i \<in> cell s (GetSectorCoord x' y')"
      using reg q(1) unfolding registered_def by blast+
    have n: "\<bar>x - x'\<bar> \<le> VIEW_RANGE" "\<bar>y - y'\<bar> \<le> VIEW_RANGE"
      using q(2) by (simp_all add: sees_def)
    from view_in_window [OF g p q'(1,2) n] q'(3) show ?thesis
      by blast
  qed
  then show "{i \<in> set (ForEachNeighborObjID ord s (fst (GetSectorCoord x y)) (snd (GetSectorCoord x y))).
           \<exists>q. pos i = Some q \<and> sees (x, y) q} = {i. \<exists>q. pos i = Some q \<and> sees (x, y) q}"
    unfolding set_neighbors [OF fin v] by auto
qed

end

text \<open>The sector fields of a subject agree with its registration.\<close>

definition sector_of :: "(ObjID \<rightharpoonup> short \<times> short) \<Rightarrow> ObjID \<Rightarrow> short \<times> short \<Rightarrow> bool" where
  "sector_of pos i sec \<longleftrightarrow>
     (case pos i of Some (x, y) \<Rightarrow> sec = GetSectorCoord x y | None \<Rightarrow> sec = (-1, -1))"

lemma not_valid_minus: "grid_of zid s \<Longrightarrow> \<not> IsValidSector s (-1) (-1)"
  using grid_of_offsets(1) by (fastforce simp: IsValidSector_def)

text \<open>An object is in no cell but that of the sector it remembers.\<close>

lemma registered_sector:
  assumes reg: "registered zid pos s" and sec: "sector_of pos i sec" and c: "i \<in> cell s c"
  shows "IsValidSector s (fst sec) (snd sec) \<and> c = sec"
proof -
  obtain a b where ab: "pos i = Some (a, b)" "GetSectorCoord a b = c"
    using c registered_cell [OF reg] by blast
  then have "IsValidWorldPosition a b" "GetZoneIdByWorld a b = zid" "grid_of zid s"
    using reg by (auto simp: registered_def)
  then have "IsValidSector s (fst (GetSectorCoord a b)) (snd (GetSectorCoord a b))"
    using IsValidSector_GetSectorCoord by blast
  with ab sec show ?thesis
    by (simp add: sector_of_def)
qed

lemma UpdatePosition_registered:
  assumes reg: "registered zid pos s" and sec: "sector_of pos i sec"
    and p: "IsValidWorldPosition x y" "GetZoneIdByWorld x y = zid"
  shows "\<exists>s'. UpdateObjectSectorAndPosition i x y sec old s =
      Some (True, GetSectorCoord x y, (x, y), s') \<and>
    registered zid (pos(i \<mapsto> (x, y))) s' \<and> sector_of (pos(i \<mapsto> (x, y))) i (GetSectorCoord x y)"
proof -
  have g: "grid_of zid s"
    using reg by (simp add: registered_def)
  have v: "IsValidSector s (fst (GetSectorCoord x y)) (snd (GetSectorCoord x y))"
    using IsValidSector_GetSectorCoord [OF g] p by blast
  have cells: "j \<in> cell s c \<longleftrightarrow> (\<exists>a b. pos j = Some (a, b) \<and> GetSectorCoord a b = c)" for j c
    by (rule registered_cell [OF reg])
  have fin: "finite (dom (pos(i \<mapsto> (x, y))))"
    using reg by (simp add: registered_def)
  have inz: "\<forall>j a b. (pos(i \<mapsto> (x, y))) j = Some (a, b) \<longrightarrow> IsValidWorldPosition a b \<and> GetZoneIdByWorld a b = zid"
    using reg p by (auto simp: registered_def)
  show ?thesis
  proof (cases "sec = GetSectorCoord x y")
    case True
    have "pos i \<noteq> None"
    proof
      assume "pos i = None"
      with sec True have "GetSectorCoord x y = (-1, -1)"
        by (simp add: sector_of_def)
      with v not_valid_minus [OF g] show False
        by simp
    qed
    then have "\<exists>a b. pos i = Some (a, b) \<and> GetSectorCoord a b = GetSectorCoord x y"
      using sec True by (auto simp: sector_of_def)
    then have "registered zid (pos(i \<mapsto> (x, y))) s"
      unfolding registered_def using g fin inz cells by auto
    with True v show ?thesis
      by (simp add: UpdateObjectSectorAndPosition_def sector_of_def)
  next
    case False
    obtain s' where s': "move_cell i sec (GetSectorCoord x y) s = Some s'"
      "offsetX s' = offsetX s" "offsetY s' = offsetY s"
      "\<forall>c. cell s' c = (if c = GetSectorCoord x y then insert i (cell s c)
         else if IsValidSector s (fst sec) (snd sec) \<and> c = sec then cell s c - {i} else cell s c)"
      using move_cell_eq [OF v, of i sec] by blast
    have "j \<in> cell s' c \<longleftrightarrow> (\<exists>a b. (pos(i \<mapsto> (x, y))) j = Some (a, b) \<and> GetSectorCoord a b = c)" for j c
    proof -
      have e: "cell s' c = (if c = GetSectorCoord x y then insert i (cell s c)
         else if IsValidSector s (fst sec) (snd sec) \<and> c = sec then cell s c - {i} else cell s c)"
        using s'(4) by blast
      show ?thesis
        using registered_sector [OF reg sec, of c] cells [of j c] by (cases "j = i") (auto simp: e)
    qed
    then have "registered zid (pos(i \<mapsto> (x, y))) s'"
      unfolding registered_def using g fin inz s'(2,3) by (simp add: grid_of_def)
    with False v s'(1) show ?thesis
      by (simp add: UpdateObjectSectorAndPosition_def sector_of_def)
  qed
qed

lemma UpdatePosition_rejected:
  assumes "grid_of zid s" "\<not> (IsValidWorldPosition x y \<and> GetZoneIdByWorld x y = zid)"
  shows "UpdateObjectSectorAndPosition i x y sec old s = Some (False, sec, old, s)"
  using assms IsValidSector_GetSectorCoord [OF assms(1), of x y]
  by (simp add: UpdateObjectSectorAndPosition_def Let_def)

lemma RemoveObject_registered:
  assumes reg: "registered zid pos s" and sec: "sector_of pos i sec"
  shows "\<exists>s'. RemoveObject i sec s = Some ((-1, -1), s') \<and> registered zid (pos(i := None)) s' \<and>
    sector_of (pos(i := None)) i (-1, -1)"
proof -
  have g: "grid_of zid s"
    using reg by (simp add: registered_def)
  have cells: "j \<in> cell s c \<longleftrightarrow> (\<exists>a b. pos j = Some (a, b) \<and> GetSectorCoord a b = c)" for j c
    by (rule registered_cell [OF reg])
  obtain s' where s': "RemoveObject i sec s =
      Some ((if IsValidSector s (fst sec) (snd sec) then (-1, -1) else sec), s')"
    "offsetX s' = offsetX s" "offsetY s' = offsetY s"
    "\<forall>c. cell s' c = (if IsValidSector s (fst sec) (snd sec) \<and> c = sec then cell s c - {i} else cell s c)"
    using RemoveObject_eq by blast
  have sec_ok: "(if IsValidSector s (fst sec) (snd sec) then (-1, -1) else sec) = (-1, -1)"
  proof (cases "pos i")
    case None
    then show ?thesis
      using sec by (simp add: sector_of_def)
  next
    case (Some q)
    then show ?thesis
      using sec reg IsValidSector_GetSectorCoord [OF g] by (cases q) (auto simp: sector_of_def registered_def)
  qed
  have "j \<in> cell s' c \<longleftrightarrow> (\<exists>a b. (pos(i := None)) j = Some (a, b) \<and> GetSectorCoord a b = c)" for j c
  proof -
    have e: "cell s' c = (if IsValidSector s (fst sec) (snd sec) \<and> c = sec then cell s c - {i} else cell s c)"
      using s'(4) by blast
    show ?thesis
      using registered_sector [OF reg sec, of c] cells [of j c] by (cases "j = i") (auto simp: e)
  qed
  then have "registered zid (pos(i := None)) s'"
    unfolding registered_def using g reg s'(2,3) by (auto simp: grid_of_def registered_def)
  with s'(1) sec_ok show ?thesis
    by (simp add: sector_of_def)
qed

end
