(* ===== verification/Zones.thy ===== *)
theory Zones
  imports ZoneLayouts DbTypes
begin

text \<open>
  The actor side of the server: \<^verbatim>\<open>Thread/GameLogicThread.cpp\<close> and
  \<^verbatim>\<open>Zone/ZoneManager.cpp\<close>.  Every zone owns one thread with a task queue; a default thread
  takes the tasks that have no zone.  A closure put into a queue is a value of \<open>Task\<close>, one
  constructor per lambda of the source with the variables it captures; a session is named by its
  index.  The mutexes of the queues and of the object table make each operation below atomic.
\<close>

type_synonym SessionId = nat

datatype Task =
    TRandomMove ObjID
  | TMonsterRespawn ObjID
  | TAttackToPlayer ObjID ObjID
  | TAggroMove ObjID ObjID
  | THeal ObjID
  | TUserRespawn ObjID
  | TItemDespawn ObjID
  | TLootPriorityExpire ObjID
  | TEnterZone ObjID short short
  | TPacket SessionId "uint8 list"
  | TDisconnect ObjID
  | TCloseSession SessionId
  | TLoginFail SessionId
  | TGetUserInfo SessionId DB_USER_INFO "DB_ITEM_INFO list"
  | TAddUserInfo SessionId DB_USER_INFO

subsection \<open>The logic thread\<close>

record 't GameLogicThread =
  lt_queue :: "'t list"
  lt_local :: "'t list"

definition newGameLogicThread :: "'t GameLogicThread" where
  "newGameLogicThread = \<lparr>lt_queue = [], lt_local = []\<rparr>"

definition lt_Enqueue :: "'t \<Rightarrow> 't GameLogicThread \<Rightarrow> 't GameLogicThread" where
  "lt_Enqueue task t = t\<lparr>lt_queue := lt_queue t @ [task]\<rparr>"

text \<open>One turn of the loops of \<^verbatim>\<open>Run\<close>: take the next task of the local queue, or, when it is
  empty, wait for the shared queue and swap the two.\<close>

definition Run_step :: "'t GameLogicThread \<Rightarrow> 't option \<times> 't GameLogicThread" where
  "Run_step t =
     (case lt_local t of
        task # rest \<Rightarrow> (Some task, t\<lparr>lt_local := rest\<rparr>)
      | [] \<Rightarrow> if lt_queue t = [] then (None, t)
              else (None, t\<lparr>lt_queue := lt_local t, lt_local := lt_queue t\<rparr>))"

locale task_queue =
  fixes enqueue :: "'t \<Rightarrow> 'q \<Rightarrow> 'q"
    and step :: "'q \<Rightarrow> 't option \<times> 'q"
    and pending :: "'q \<Rightarrow> 't list"
  assumes pending_enqueue: "pending (enqueue t q) = pending q @ [t]"
    and step_task: "step q = (Some t, q') \<Longrightarrow> pending q = t # pending q'"
    and step_idle: "step q = (None, q') \<Longrightarrow> pending q' = pending q"
    and step_progress: "pending q \<noteq> [] \<Longrightarrow> fst (step q) \<noteq> None \<or> fst (step (snd (step q))) \<noteq> None"
begin

text \<open>An interleaving of producers (\<open>Some task\<close>) and turns of the consumer (\<open>None\<close>).\<close>

fun trace :: "'t option list \<Rightarrow> 'q \<Rightarrow> 't list \<times> 'q" where
  "trace [] q = ([], q)"
| "trace (Some t # as) q = trace as (enqueue t q)"
| "trace (None # as) q =
     (case step q of (r, q') \<Rightarrow> case trace as q' of (ts, q'') \<Rightarrow>
        ((case r of None \<Rightarrow> ts | Some t \<Rightarrow> t # ts), q''))"

lemma step_pending:
  "step q = (r, q') \<Longrightarrow> pending q = (case r of None \<Rightarrow> [] | Some t \<Rightarrow> [t]) @ pending q'"
  by (cases r) (simp_all add: step_task step_idle)

lemma trace_fifo:
  "trace as q = (ts, q') \<Longrightarrow> ts @ pending q' = pending q @ List.map_filter (\<lambda>a. a) as"
proof (induction as q arbitrary: ts q' rule: trace.induct)
  case (1 q)
  then show ?case
    by (simp add: map_filter_simps)
next
  case (2 t as q)
  then show ?case
    by (simp add: map_filter_simps pending_enqueue)
next
  case (3 as q)
  obtain r q1 where s: "step q = (r, q1)"
    by (cases "step q")
  obtain us q2 where t: "trace as q1 = (us, q2)"
    by (cases "trace as q1")
  have ih: "us @ pending q2 = pending q1 @ List.map_filter (\<lambda>a. a) as"
    using 3(1) s t by metis
  show ?case
    using 3(2) s t ih step_pending [OF s]
    by (cases r) (auto simp: map_filter_simps)
qed

lemma all_done:
  assumes "length (pending q) \<le> n"
  shows "\<exists>q'. trace (replicate (2 * n) None) q = (pending q, q') \<and> pending q' = []"
  using assms
proof (induction n arbitrary: q)
  case (Suc n)
  obtain r1 q1 where s1: "step q = (r1, q1)" by (cases "step q")
  obtain r2 q2 where s2: "step q1 = (r2, q2)" by (cases "step q1")
  note p1 = step_pending [OF s1] and p2 = step_pending [OF s2]
  have len: "length (pending q2) \<le> n"
  proof (cases "pending q = []")
    case True
    with p1 p2 show ?thesis by simp
  next
    case False
    with step_progress [of q] s1 s2 have "r1 \<noteq> None \<or> r2 \<noteq> None"
      by simp
    moreover have "length (pending q) \<le> Suc n"
      by (rule Suc.prems)
    ultimately show ?thesis
      unfolding p1 p2 by (cases r1; cases r2) simp_all
  qed
  from Suc.IH [OF len] obtain q' where t: "trace (replicate (2 * n) None) q2 = (pending q2, q')"
    "pending q' = []"
    by blast
  then show ?case
    unfolding p1 p2 using s1 s2 by (cases r1; cases r2) simp_all
qed simp

end

definition lt_pending :: "'t GameLogicThread \<Rightarrow> 't list" where
  "lt_pending t = lt_local t @ lt_queue t"

interpretation logic: task_queue lt_Enqueue Run_step lt_pending
proof unfold_locales
  fix t :: 'a and q q' :: "'a GameLogicThread"
  show "lt_pending (lt_Enqueue t q) = lt_pending q @ [t]"
    by (simp add: lt_pending_def lt_Enqueue_def)
  show "Run_step q = (Some t, q') \<Longrightarrow> lt_pending q = t # lt_pending q'"
    by (auto simp: lt_pending_def Run_step_def split: list.splits if_splits)
  show "Run_step q = (None, q') \<Longrightarrow> lt_pending q' = lt_pending q"
    by (auto simp: lt_pending_def Run_step_def split: list.splits if_splits)
  show "lt_pending q \<noteq> [] \<Longrightarrow> fst (Run_step q) \<noteq> None \<or> fst (Run_step (snd (Run_step q))) \<noteq> None"
    by (auto simp: lt_pending_def Run_step_def split: list.splits)
qed

subsection \<open>The zone manager\<close>

record ZoneManager =
  defaultThread :: "Task GameLogicThread"
  zones :: "Task GameLogicThread list"
  objectZones :: "ObjID \<rightharpoonup> ZoneId"

definition newZoneManager :: ZoneManager where
  "newZoneManager = \<lparr>defaultThread = newGameLogicThread,
     zones = replicate (nat ZoneCount) newGameLogicThread, objectZones = Map.empty\<rparr>"

definition Enqueue :: "Task \<Rightarrow> ZoneManager \<Rightarrow> ZoneManager" where
  "Enqueue task zm = zm\<lparr>defaultThread := lt_Enqueue task (defaultThread zm)\<rparr>"

definition EnqueueByZone :: "ZoneId \<Rightarrow> Task \<Rightarrow> ZoneManager \<Rightarrow> ZoneManager" where
  "EnqueueByZone zoneId task zm =
     (if IsValidZoneId zoneId
      then zm\<lparr>zones := (zones zm)[unat zoneId := lt_Enqueue task (zones zm ! unat zoneId)]\<rparr>
      else Enqueue task zm)"

definition EnqueueByWorld :: "int \<Rightarrow> int \<Rightarrow> Task \<Rightarrow> ZoneManager \<Rightarrow> ZoneManager" where
  "EnqueueByWorld worldX worldY = EnqueueByZone (GetZoneIdByWorld worldX worldY)"

definition GetObjectZone :: "ZoneManager \<Rightarrow> ObjID \<Rightarrow> ZoneId" where
  "GetObjectZone zm objectId =
     (case objectZones zm objectId of None \<Rightarrow> InvalidZoneId | Some z \<Rightarrow> z)"

definition EnqueueByObject :: "ObjID \<Rightarrow> Task \<Rightarrow> ZoneManager \<Rightarrow> ZoneManager" where
  "EnqueueByObject objectId task zm = EnqueueByZone (GetObjectZone zm objectId) task zm"

definition EnqueueBySession :: "ZoneId option \<Rightarrow> Task \<Rightarrow> ZoneManager \<Rightarrow> ZoneManager" where
  "EnqueueBySession routing task =
     EnqueueByZone (case routing of Some z \<Rightarrow> z | None \<Rightarrow> InvalidZoneId) task"

definition UpdateObjectZone :: "ObjID \<Rightarrow> ZoneId \<Rightarrow> ZoneManager \<Rightarrow> ZoneManager" where
  "UpdateObjectZone objectId zoneId zm =
     (if \<not> IsValidZoneId zoneId then zm
      else zm\<lparr>objectZones := (objectZones zm)(objectId \<mapsto> zoneId)\<rparr>)"

definition zm_RemoveObject :: "ObjID \<Rightarrow> ZoneManager \<Rightarrow> ZoneManager" where
  "zm_RemoveObject objectId zm = zm\<lparr>objectZones := (objectZones zm)(objectId := None)\<rparr>"

definition IsCurrentThreadOwner :: "ZoneManager \<Rightarrow> ZoneId \<Rightarrow> ObjID \<Rightarrow> bool" where
  "IsCurrentThreadOwner zm currentZone objectId \<longleftrightarrow>
     currentZone \<noteq> InvalidZoneId \<and> GetObjectZone zm objectId = currentZone"

text \<open>The tasks waiting for a zone, the default thread for an invalid id.\<close>

definition zone_pending :: "ZoneManager \<Rightarrow> ZoneId \<Rightarrow> Task list" where
  "zone_pending zm z =
     lt_pending (if IsValidZoneId z then zones zm ! unat z else defaultThread zm)"

definition zm_ok :: "ZoneManager \<Rightarrow> bool" where
  "zm_ok zm \<longleftrightarrow> length (zones zm) = 16 \<and> (\<forall>z \<in> ran (objectZones zm). IsValidZoneId z)"

lemma IsValidZoneId_unat: "IsValidZoneId z \<longleftrightarrow> unat z < 16"
  by (simp add: IsValidZoneId_def word_less_nat_alt)

lemma zm_ok_new: "zm_ok newZoneManager"
  by (simp add: zm_ok_def newZoneManager_def)

lemma zm_ok_updates:
  assumes "zm_ok zm"
  shows "zm_ok (EnqueueByZone z t zm)" "zm_ok (UpdateObjectZone i z zm)" "zm_ok (zm_RemoveObject i zm)"
proof -
  show "zm_ok (EnqueueByZone z t zm)"
    using assms by (simp add: zm_ok_def EnqueueByZone_def Enqueue_def)
  show "zm_ok (UpdateObjectZone i z zm)"
    using assms by (auto simp: zm_ok_def UpdateObjectZone_def ran_def)
  show "zm_ok (zm_RemoveObject i zm)"
    using assms by (auto simp: zm_ok_def zm_RemoveObject_def ran_def)
qed

text \<open>A task goes to the end of exactly one queue.\<close>

lemma zone_pending_EnqueueByZone:
  assumes "zm_ok zm"
  shows "zone_pending (EnqueueByZone z t zm) z' =
    zone_pending zm z' @ (if z = z' \<or> \<not> IsValidZoneId z \<and> \<not> IsValidZoneId z' then [t] else [])"
proof (cases "IsValidZoneId z")
  case True
  then have "unat z < length (zones zm)"
    using assms by (simp add: IsValidZoneId_unat zm_ok_def)
  then show ?thesis
    using True
    by (auto simp: zone_pending_def EnqueueByZone_def nth_list_update logic.pending_enqueue
        simp flip: word_unat_eq_iff)
next
  case False
  then show ?thesis
    by (auto simp: zone_pending_def EnqueueByZone_def Enqueue_def logic.pending_enqueue)
qed

lemma GetObjectZone_update [simp]:
  "IsValidZoneId z \<Longrightarrow> GetObjectZone (UpdateObjectZone i z zm) j = (if j = i then z else GetObjectZone zm j)"
  by (simp add: GetObjectZone_def UpdateObjectZone_def)

lemma GetObjectZone_remove [simp]:
  "GetObjectZone (zm_RemoveObject i zm) j = (if j = i then InvalidZoneId else GetObjectZone zm j)"
  by (simp add: GetObjectZone_def zm_RemoveObject_def)

end
