(* ===== verification/Timers.thy ===== *)
theory Timers
  imports EventQueues Zones
begin

text \<open>
  The timer: \<^verbatim>\<open>Thread/TimerThread.h\<close> and \<^verbatim>\<open>Thread/TimerThread.cpp\<close>.  Times are points of the
  steady clock in nanoseconds.  The queue is the priority queue of \<open>EventQueues\<close>; its comparator
  is an interpretation of \<open>event_compare\<close>.  \<open>DoTimer_step\<close> is one turn of the inner loop with the
  time that \<^verbatim>\<open>Now()\<close> returned; a turn in which nothing is due leaves the state unchanged, as the
  wait on the condition variable does.  The thread-local \<^verbatim>\<open>LCurrentZoneId\<close> of the caller is an
  argument of the scheduling functions.
\<close>

datatype TIMER_EVENT_TYPE =
    EV_RANOM_MOVE | EV_MONSTER_RESPAWN | EV_MONSTER_ATTACK_TO_USER | EV_HEAL | EV_USER_RESPAWN
  | EV_AGGRO_MOVE | EV_ITEM_DESPAWN | EV_ITEM_LOOT_PRIORITY_EXPIRE

record TIMER_EVENT =
  te_subjectId :: ObjID
  te_wakeupTime :: int
  te_event :: TIMER_EVENT_TYPE
  te_targetId :: ObjID
  te_sequence :: uint64
  te_zoneId :: ZoneId

record TimerThread =
  tm_events :: "TIMER_EVENT list"
  tm_nextSequence :: uint64

definition newTimerThread :: TimerThread where
  "newTimerThread = \<lparr>tm_events = [], tm_nextSequence = 0\<rparr>"

definition TimerEventCompare :: "TIMER_EVENT \<Rightarrow> TIMER_EVENT \<Rightarrow> bool" where
  "TimerEventCompare lhs rhs =
     (if te_wakeupTime lhs \<noteq> te_wakeupTime rhs then te_wakeupTime lhs > te_wakeupTime rhs
      else te_sequence lhs > te_sequence rhs)"

definition ShouldNotifyForNewEventLocked :: "TIMER_EVENT \<Rightarrow> TimerThread \<Rightarrow> bool" where
  "ShouldNotifyForNewEventLocked timerEvent t =
     (case tm_events t of [] \<Rightarrow> True | first # _ \<Rightarrow> te_wakeupTime timerEvent < te_wakeupTime first)"

fun DrainReadyEventsLocked :: "int \<Rightarrow> TIMER_EVENT list \<Rightarrow> TIMER_EVENT list \<times> TIMER_EVENT list" where
  "DrainReadyEventsLocked now [] = ([], [])"
| "DrainReadyEventsLocked now (first # events) =
     (if te_wakeupTime first \<le> now
      then (case DrainReadyEventsLocked now events of (ready, rest) \<Rightarrow> (first # ready, rest))
      else ([], first # events))"

text \<open>The result of \<^verbatim>\<open>Schedule\<close> is whether the timer thread is notified.\<close>

definition Schedule :: "ZoneId \<Rightarrow> TIMER_EVENT \<Rightarrow> TimerThread \<Rightarrow> bool \<times> TimerThread" where
  "Schedule currentZone timerEvent t =
     (let timerEvent = timerEvent\<lparr>te_zoneId := currentZone, te_sequence := tm_nextSequence t\<rparr>
      in (ShouldNotifyForNewEventLocked timerEvent t,
          t\<lparr>tm_nextSequence := tm_nextSequence t + 1,
            tm_events := pq_push TimerEventCompare timerEvent (tm_events t)\<rparr>))"

definition ScheduleAfter ::
    "ZoneId \<Rightarrow> int \<Rightarrow> ObjID \<Rightarrow> int \<Rightarrow> TIMER_EVENT_TYPE \<Rightarrow> ObjID \<Rightarrow> TimerThread \<Rightarrow> TimerThread" where
  "ScheduleAfter currentZone now subjectId delay eventType targetId t =
     snd (Schedule currentZone
       \<lparr>te_subjectId = subjectId, te_wakeupTime = now + delay, te_event = eventType,
        te_targetId = targetId, te_sequence = 0, te_zoneId = InvalidZoneId\<rparr> t)"

definition ScheduleNow ::
    "ZoneId \<Rightarrow> int \<Rightarrow> ObjID \<Rightarrow> TIMER_EVENT_TYPE \<Rightarrow> ObjID \<Rightarrow> TimerThread \<Rightarrow> TimerThread" where
  "ScheduleNow currentZone now subjectId eventType targetId =
     ScheduleAfter currentZone now subjectId 0 eventType targetId"

definition Dispatch :: "TIMER_EVENT \<Rightarrow> ZoneManager \<Rightarrow> ZoneManager" where
  "Dispatch timerEvent zm =
     (let subjectId = te_subjectId timerEvent;
          targetId = te_targetId timerEvent;
          hintedZone = (if hasCategory eUser subjectId then InvalidZoneId else te_zoneId timerEvent);
          enqueue = (\<lambda>task. if \<not> IsValidZoneId hintedZone then EnqueueByObject subjectId task zm
                            else EnqueueByZone hintedZone task zm)
      in case te_event timerEvent of
           EV_RANOM_MOVE \<Rightarrow> enqueue (TRandomMove subjectId)
         | EV_MONSTER_RESPAWN \<Rightarrow> enqueue (TMonsterRespawn subjectId)
         | EV_MONSTER_ATTACK_TO_USER \<Rightarrow> enqueue (TAttackToPlayer subjectId targetId)
         | EV_AGGRO_MOVE \<Rightarrow> enqueue (TAggroMove subjectId targetId)
         | EV_HEAL \<Rightarrow> enqueue (THeal subjectId)
         | EV_USER_RESPAWN \<Rightarrow> enqueue (TUserRespawn subjectId)
         | EV_ITEM_DESPAWN \<Rightarrow> enqueue (TItemDespawn subjectId)
         | EV_ITEM_LOOT_PRIORITY_EXPIRE \<Rightarrow> enqueue (TLootPriorityExpire subjectId))"

definition DoTimer_step :: "int \<Rightarrow> TimerThread \<times> ZoneManager \<Rightarrow> TimerThread \<times> ZoneManager" where
  "DoTimer_step now st =
     (case st of (t, zm) \<Rightarrow>
        (case tm_events t of
           [] \<Rightarrow> (t, zm)
         | first # _ \<Rightarrow>
             if te_wakeupTime first > now then (t, zm)
             else (case DrainReadyEventsLocked now (tm_events t) of (readyEvents, rest) \<Rightarrow>
                     (t\<lparr>tm_events := rest\<rparr>, fold Dispatch readyEvents zm))))"

interpretation tmq: event_compare TimerEventCompare te_wakeupTime te_sequence
  by unfold_locales (auto simp: TimerEventCompare_def)

lemma Schedule_ordered: "tmq.ordered (tm_events t) \<Longrightarrow> tmq.ordered (tm_events (snd (Schedule z e t)))"
  by (simp add: Schedule_def Let_def tmq.ordered_push)

lemma ScheduleAfter_events:
  "mset (tm_events (ScheduleAfter z now i d ev tgt t)) =
     add_mset \<lparr>te_subjectId = i, te_wakeupTime = now + d, te_event = ev, te_targetId = tgt,
               te_sequence = tm_nextSequence t, te_zoneId = z\<rparr> (mset (tm_events t))"
  by (simp add: ScheduleAfter_def Schedule_def Let_def)

lemma set_ScheduleAfter:
  "set (tm_events (ScheduleAfter z now i d ev tgt t)) =
     insert \<lparr>te_subjectId = i, te_wakeupTime = now + d, te_event = ev, te_targetId = tgt,
             te_sequence = tm_nextSequence t, te_zoneId = z\<rparr> (set (tm_events t))"
  by (simp add: ScheduleAfter_def Schedule_def Let_def)

text \<open>On an ordered queue the drained prefix is exactly what is due.\<close>

lemma Drain_exact:
  "tmq.ordered q \<Longrightarrow> DrainReadyEventsLocked now q =
     (filter (\<lambda>e. te_wakeupTime e \<le> now) q, filter (\<lambda>e. te_wakeupTime e > now) q)"
proof (induction q)
  case (Cons e q)
  have o: "tmq.ordered q"
    using tmq.ordered_tl [OF Cons.prems] by simp
  show ?case
  proof (cases "te_wakeupTime e \<le> now")
    case True
    then show ?thesis
      using Cons.IH [OF o] by simp
  next
    case False
    then have "\<forall>x \<in> set q. te_wakeupTime x > now"
      using tmq.ordered_wake [OF Cons.prems] by force
    then show ?thesis
      using False by (simp add: filter_empty_conv not_le filter_id_conv)
  qed
qed simp

subsection \<open>Where an event is sent\<close>

fun event_task :: "TIMER_EVENT_TYPE \<Rightarrow> ObjID \<Rightarrow> ObjID \<Rightarrow> Task" where
  "event_task EV_RANOM_MOVE s t = TRandomMove s"
| "event_task EV_MONSTER_RESPAWN s t = TMonsterRespawn s"
| "event_task EV_MONSTER_ATTACK_TO_USER s t = TAttackToPlayer s t"
| "event_task EV_AGGRO_MOVE s t = TAggroMove s t"
| "event_task EV_HEAL s t = THeal s"
| "event_task EV_USER_RESPAWN s t = TUserRespawn s"
| "event_task EV_ITEM_DESPAWN s t = TItemDespawn s"
| "event_task EV_ITEM_LOOT_PRIORITY_EXPIRE s t = TLootPriorityExpire s"

definition task_of :: "TIMER_EVENT \<Rightarrow> Task" where
  "task_of e = event_task (te_event e) (te_subjectId e) (te_targetId e)"

definition target_zone :: "ZoneManager \<Rightarrow> TIMER_EVENT \<Rightarrow> ZoneId" where
  "target_zone zm e =
     (if \<not> hasCategory eUser (te_subjectId e) \<and> IsValidZoneId (te_zoneId e) then te_zoneId e
      else GetObjectZone zm (te_subjectId e))"

lemma Dispatch_eq: "Dispatch e zm = EnqueueByZone (target_zone zm e) (task_of e) zm"
  by (cases "te_event e")
    (simp_all add: Dispatch_def Let_def task_of_def target_zone_def EnqueueByObject_def)

definition goes_to :: "ZoneManager \<Rightarrow> ZoneId \<Rightarrow> TIMER_EVENT \<Rightarrow> bool" where
  "goes_to zm z e \<longleftrightarrow>
     target_zone zm e = z \<or> \<not> IsValidZoneId (target_zone zm e) \<and> \<not> IsValidZoneId z"

lemma objectZones_Enqueue [simp]: "objectZones (EnqueueByZone z t zm) = objectZones zm"
  by (simp add: EnqueueByZone_def Enqueue_def)

lemma goes_to_Dispatch [simp]: "goes_to (Dispatch e zm) = goes_to zm"
  by (auto simp: goes_to_def target_zone_def Dispatch_eq GetObjectZone_def fun_eq_iff)

lemma fold_Dispatch:
  "zm_ok zm \<Longrightarrow> zm_ok (fold Dispatch es zm) \<and>
     zone_pending (fold Dispatch es zm) z = zone_pending zm z @ map task_of (filter (goes_to zm z) es)"
proof (induction es arbitrary: zm)
  case (Cons e es)
  have "zm_ok (Dispatch e zm)"
    using Cons.prems by (simp add: Dispatch_eq zm_ok_updates)
  note ih = Cons.IH [OF this]
  have "zone_pending (Dispatch e zm) z = zone_pending zm z @ (if goes_to zm z e then [task_of e] else [])"
    by (simp add: Dispatch_eq zone_pending_EnqueueByZone [OF Cons.prems] goes_to_def)
  with ih show ?case
    by simp
qed simp

lemma DoTimer_step_eq:
  assumes "tmq.ordered (tm_events t)"
  shows "DoTimer_step now (t, zm) =
    (t\<lparr>tm_events := filter (\<lambda>e. te_wakeupTime e > now) (tm_events t)\<rparr>,
     fold Dispatch (filter (\<lambda>e. te_wakeupTime e \<le> now) (tm_events t)) zm)"
proof (cases "tm_events t")
  case Nil
  then show ?thesis
    by (simp add: DoTimer_step_def)
next
  case (Cons first q)
  show ?thesis
  proof (cases "te_wakeupTime first > now")
    case True
    then have "\<forall>x \<in> set (first # q). te_wakeupTime x > now"
      using tmq.ordered_wake assms Cons by fastforce
    then have "filter (\<lambda>e. te_wakeupTime e > now) (tm_events t) = tm_events t"
      "filter (\<lambda>e. te_wakeupTime e \<le> now) (tm_events t) = []"
      by (simp_all add: Cons filter_id_conv filter_empty_conv not_le)
    then show ?thesis
      using True Cons by (simp add: DoTimer_step_def)
  next
    case False
    then show ?thesis
      using Drain_exact [OF assms, of now] Cons by (simp add: DoTimer_step_def)
  qed
qed

end
