(* ===== verification/SpaceProps.thy ===== *)
theory SpaceProps
  imports Sectors Timers Stats Items
begin

text \<open>
  Properties of the world geometry, the sector grid, the timer, the task queues, the stats and the
  drop table.
\<close>

subsection \<open>Geometry\<close>

text \<open>C30. The collision table, filled by the start-up loops and read with its indices swapped, blocks
  exactly the tiles outside the world and the obstacle tiles of \<^verbatim>\<open>checkCollision\<close>.\<close>

theorem isCollision_spec:
  "isCollision x y = (if IsValidWorldPosition x y then checkCollision x y else True)"
  by (simp add: isCollision_iff)

text \<open>A move from a free tile in any of the 256 directions a packet can carry ends on a free tile
  of the world at most one tile away on each axis: players cannot walk through obstacles or off the
  map, and an unknown direction does not move.\<close>

theorem move_safe:
  assumes "\<not> isCollision x y" "MovePositionByDirection x y direction = (x', y')"
  shows "\<not> isCollision x' y' \<and> IsValidWorldPosition x' y' \<and> \<bar>x' - x\<bar> \<le> 1 \<and> \<bar>y' - y\<bar> \<le> 1 \<and>
    (direction < 0 \<or> 7 < direction \<longrightarrow> (x', y') = (x, y))"
  using MovePosition_valid [OF assms(1), of direction] MovePosition_unknown [of direction x y] assms(2)
    not_isCollision_valid by auto

theorem move_safe_witness:
  "MovePositionByDirection 0 0 7 = (1, 1) \<and> \<not> isCollision 1 1 \<and> IsValidWorldPosition 1 1 \<and>
   \<bar>1 - (0 :: int)\<bar> \<le> 1 \<and> \<bar>1 - (0 :: int)\<bar> \<le> 1"
proof -
  have free: "\<not> isCollision 0 0" "MovePositionByDirection 0 0 7 = (1, 1)"
    by (simp_all add: isCollision_iff IsValidWorldPosition_def checkCollision_def world_consts
        MovePositionByDirection_def move_defs)
  from move_safe [OF this] free(2) show ?thesis
    by blast
qed

text \<open>Zone numbers and zone coordinates are inverse to each other: every valid id names one zone of
  the four-by-four layout and every valid coordinate one id, and a world position has a valid zone
  exactly when it lies in the world.\<close>

theorem zone_numbering:
  "(IsValidZoneId z \<longrightarrow> IsValidZone (GetZoneCoordById z) \<and> GetZoneId (GetZoneCoordById z) = z) \<and>
   (IsValidZone c \<longrightarrow> IsValidZoneId (GetZoneId c) \<and> GetZoneCoordById (GetZoneId c) = c) \<and>
   (IsValidZoneId (GetZoneIdByWorld x y) \<longleftrightarrow> IsValidWorldPosition x y)"
  using zone_id_coord_roundtrip zone_coord_id_roundtrip GetZoneIdByWorld_IsValidZoneId by blast

theorem zone_numbering_witness:
  "GetZoneId (GetZoneCoordById 7) = 7 \<and> IsValidZoneId (GetZoneIdByWorld 1999 0)"
proof -
  have "IsValidZoneId 7" "IsValidWorldPosition 1999 0"
    by (simp_all add: IsValidZoneId_def IsValidWorldPosition_def world_consts)
  with zone_numbering [of 7 unassignedZone 1999 0] show ?thesis
    by blast
qed

subsection \<open>The sector grid\<close>

text \<open>C20. The scan of the three-by-three sector window around a subject, filtered by the view range,
  finds exactly the objects of the zone that are within the view of its position, each once,
  whatever order the hash set is traversed in: the sector size is large enough for the view range
  and the clipping at the zone border loses nothing of the zone.\<close>

theorem scan_finds_visible:
  assumes "set_traversal ord" "registered zid pos s"
    and "IsValidWorldPosition x y" "GetZoneIdByWorld x y = zid"
  shows "distinct (ForEachNeighborObjID ord s (fst (GetSectorCoord x y)) (snd (GetSectorCoord x y))) \<and>
    {i \<in> set (ForEachNeighborObjID ord s (fst (GetSectorCoord x y)) (snd (GetSectorCoord x y))).
       \<exists>q. pos i = Some q \<and> sees (x, y) q} = {i. \<exists>q. pos i = Some q \<and> sees (x, y) q}"
  using set_traversal.scan_visible [OF assms] by blast

definition demo_pos :: "ObjID \<rightharpoonup> short \<times> short" where
  "demo_pos = [ObjID 2 1 \<mapsto> (19, 9)]"

definition demo_grid :: Sector where
  "demo_grid = setObjects 1 0 {ObjID 2 1} (zoneSector 0)"

lemma zone0: "IsValidZoneId 0" "IsValidWorldPosition 19 9" "GetZoneIdByWorld 19 9 = 0"
  "IsValidWorldPosition 20 10" "GetZoneIdByWorld 20 10 = 0" "GetSectorCoord 19 9 = (1, 0)"
  by (simp_all add: IsValidZoneId_def zone_defs GetSectorCoord_def world_consts)

lemma demo_registered: "registered 0 demo_pos demo_grid"
proof -
  have "grid_of 0 demo_grid"
    using zone0(1) by (simp add: grid_of_def demo_grid_def)
  moreover have "cell (zoneSector 0) c = {}" for c
    by (simp add: zoneSector_def)
  ultimately show ?thesis
    unfolding registered_def using zone0
    by (auto simp: demo_pos_def demo_grid_def cell_setObjects split: if_splits)
qed

theorem scan_finds_visible_witness:
  "ObjID 2 1 \<in> set (ForEachNeighborObjID id_order demo_grid 2 1) \<and> sees (20, 10) (19, 9)"
proof -
  have c: "GetSectorCoord 20 10 = (2, 1)"
    by (simp add: GetSectorCoord_def world_consts)
  have v: "demo_pos (ObjID 2 1) = Some (19, 9)" "sees (20, 10) (19, 9)"
    by (simp_all add: demo_pos_def sees_def VIEW_RANGE_def)
  from scan_finds_visible [OF id_order.set_traversal_axioms demo_registered zone0(4,5)]
  have "{i \<in> set (ForEachNeighborObjID id_order demo_grid 2 1). \<exists>q. demo_pos i = Some q \<and> sees (20, 10) q} =
    {i. \<exists>q. demo_pos i = Some q \<and> sees (20, 10) q}"
    by (simp add: c)
  with v show ?thesis
    by blast
qed

text \<open>Updating a position inside the zone moves the object to the cell of its new position and to no
  other, a position outside the zone is refused without any change, and removal takes the object out
  of the grid; the sector fields of the object stay in step with the grid in every case.\<close>

theorem grid_stays_registered:
  assumes "registered zid pos s" "sector_of pos i sec"
  shows "(IsValidWorldPosition x y \<and> GetZoneIdByWorld x y = zid \<longrightarrow>
      (\<exists>s'. UpdateObjectSectorAndPosition i x y sec old s = Some (True, GetSectorCoord x y, (x, y), s') \<and>
         registered zid (pos(i \<mapsto> (x, y))) s' \<and> sector_of (pos(i \<mapsto> (x, y))) i (GetSectorCoord x y))) \<and>
    (\<not> (IsValidWorldPosition x y \<and> GetZoneIdByWorld x y = zid) \<longrightarrow>
      UpdateObjectSectorAndPosition i x y sec old s = Some (False, sec, old, s)) \<and>
    (\<exists>s'. RemoveObject i sec s = Some ((-1, -1), s') \<and> registered zid (pos(i := None)) s' \<and>
       sector_of (pos(i := None)) i (-1, -1))"
proof -
  have "grid_of zid s"
    using assms(1) by (simp add: registered_def)
  then show ?thesis
    using UpdatePosition_registered [OF assms] UpdatePosition_rejected RemoveObject_registered [OF assms]
    by blast
qed

theorem grid_stays_registered_witness:
  "\<exists>s'. UpdateObjectSectorAndPosition (ObjID 2 1) 20 10 (1, 0) (19, 9) demo_grid =
      Some (True, (2, 1), (20, 10), s') \<and> registered 0 (demo_pos(ObjID 2 1 \<mapsto> (20, 10))) s'"
proof -
  have "sector_of demo_pos (ObjID 2 1) (1, 0)" "GetSectorCoord 20 10 = (2, 1)"
    using zone0(6) by (simp_all add: sector_of_def demo_pos_def GetSectorCoord_def world_consts)
  with grid_stays_registered [OF demo_registered this(1), of 20 10 "(19, 9)"] zone0(4,5) show ?thesis
    by auto
qed

subsection \<open>The timer and the task queues\<close>

text \<open>A run of the timer: schedulings by the threads, turns of the timer thread, and objects that are
  registered in another zone or removed between them.\<close>

datatype TimerAction = Sched ZoneId int ObjID int TIMER_EVENT_TYPE ObjID | Tick int
  | Moved ObjID ZoneId | Removed ObjID

fun timer_act :: "TimerAction \<Rightarrow> TimerThread \<times> ZoneManager \<Rightarrow> TimerThread \<times> ZoneManager" where
  "timer_act (Sched z now i d ev tgt) (t, zm) = (ScheduleAfter z now i d ev tgt t, zm)"
| "timer_act (Tick now) st = DoTimer_step now st"
| "timer_act (Moved i z) (t, zm) = (t, UpdateObjectZone i z zm)"
| "timer_act (Removed i) (t, zm) = (t, zm_RemoveObject i zm)"

definition timer_run :: "TimerAction list \<Rightarrow> TimerThread \<times> ZoneManager \<Rightarrow> TimerThread \<times> ZoneManager" where
  "timer_run as st = fold timer_act as st"

fun scheduled :: "TimerAction list \<Rightarrow> uint64 \<Rightarrow> TIMER_EVENT list" where
  "scheduled [] s = []"
| "scheduled (Sched z now i d ev tgt # as) s =
     \<lparr>te_subjectId = i, te_wakeupTime = now + d, te_event = ev, te_targetId = tgt, te_sequence = s,
      te_zoneId = z\<rparr> # scheduled as (s + 1)"
| "scheduled (_ # as) s = scheduled as s"

lemma scheduled_append:
  "scheduled (as @ bs) s = scheduled as s @ scheduled bs (s + of_nat (length (scheduled as s)))"
  by (induction as s rule: scheduled.induct) (auto simp: algebra_simps)

lemma nextSequence_ScheduleAfter: "tm_nextSequence (ScheduleAfter z now i d ev tgt t) = tm_nextSequence t + 1"
  by (simp add: ScheduleAfter_def Schedule_def Let_def)

text \<open>A log of what the zone manager received: the events with the index of the turn that delivered
  them.\<close>

definition delivered :: "ZoneManager \<Rightarrow> TimerAction list \<Rightarrow> (nat \<times> TIMER_EVENT) list \<Rightarrow> ZoneId \<Rightarrow> Task list" where
  "delivered zm as ds z = map (\<lambda>(n, e). task_of e)
     (filter (\<lambda>(n, e). goes_to (snd (timer_run (take n as) (newTimerThread, zm))) z e) ds)"

definition on_time :: "TimerAction list \<Rightarrow> (nat \<times> TIMER_EVENT) list \<Rightarrow> bool" where
  "on_time as ds \<longleftrightarrow>
     (\<forall>(n, e) \<in> set ds. n < length as \<and> (\<exists>now. as ! n = Tick now \<and> te_wakeupTime e \<le> now)) \<and>
     sorted_wrt (\<lambda>(m, a) (n, b). m < n \<or> m = n \<and> \<not> TimerEventCompare a b) ds"

definition timer_log :: "ZoneManager \<Rightarrow> TimerAction list \<Rightarrow> (nat \<times> TIMER_EVENT) list \<Rightarrow> bool" where
  "timer_log zm as ds \<longleftrightarrow> (case timer_run as (newTimerThread, zm) of (t', zm') \<Rightarrow>
     tmq.ordered (tm_events t') \<and> zm_ok zm' \<and>
     tm_nextSequence t' = of_nat (length (scheduled as 0)) \<and>
     mset (map snd ds) + mset (tm_events t') = mset (scheduled as 0) \<and>
     on_time as ds \<and> (\<forall>z. zone_pending zm' z = zone_pending zm z @ delivered zm as ds z))"

lemma zone_pending_registration [simp]:
  "zone_pending (UpdateObjectZone i z zm) = zone_pending zm" "zone_pending (zm_RemoveObject i zm) = zone_pending zm"
  by (auto simp: zone_pending_def UpdateObjectZone_def zm_RemoveObject_def fun_eq_iff)

lemma on_time_snoc: "on_time as ds \<Longrightarrow> on_time (as @ [a]) ds"
  by (fastforce simp: on_time_def nth_append)

lemma delivered_snoc: "on_time as ds \<Longrightarrow> delivered zm (as @ [a]) ds = delivered zm as ds"
  unfolding delivered_def on_time_def
  by (intro ext arg_cong [of _ _ "map _"] filter_cong refl) auto

lemma delivered_append: "delivered zm as (ds @ es) z = delivered zm as ds z @ delivered zm as es z"
  by (simp add: delivered_def)

lemma delivered_turn:
  "delivered zm (as @ [a]) (map (Pair (length as)) es) z
    = map task_of (filter (goes_to (snd (timer_run as (newTimerThread, zm))) z) es)"
  by (simp add: delivered_def filter_map o_def)

lemma timer_log_tick:
  assumes "timer_log zm as ds" and "timer_run as (newTimerThread, zm) = (t, zm1)"
  shows "timer_log zm (as @ [Tick now])
    (ds @ map (Pair (length as)) (filter (\<lambda>e. te_wakeupTime e \<le> now) (tm_events t)))"
proof -
  let ?due = "filter (\<lambda>e. te_wakeupTime e \<le> now) (tm_events t)"
  let ?rest = "filter (\<lambda>e. te_wakeupTime e > now) (tm_events t)"
  let ?ds = "ds @ map (Pair (length as)) ?due"
  have i: "tmq.ordered (tm_events t)" "zm_ok zm1" "tm_nextSequence t = of_nat (length (scheduled as 0))"
    "mset (map snd ds) + mset (tm_events t) = mset (scheduled as 0)" "on_time as ds"
    "\<And>z. zone_pending zm1 z = zone_pending zm z @ delivered zm as ds z"
    using assms by (auto simp: timer_log_def)
  have run: "timer_run (as @ [Tick now]) (newTimerThread, zm) = (t\<lparr>tm_events := ?rest\<rparr>, fold Dispatch ?due zm1)"
    using assms(2) DoTimer_step_eq [OF i(1)] by (simp add: timer_run_def)
  have ord: "tmq.ordered ?rest" "sorted_wrt (\<lambda>a b. \<not> TimerEventCompare a b) ?due"
    using i(1) by (simp_all add: tmq.ordered_def sorted_wrt_filter)
  have part: "mset (tm_events t) = mset ?due + mset ?rest"
    by (simp add: not_le [symmetric] multiset_partition [symmetric] mset_filter)
  have "mset (map snd ?ds) + mset ?rest = mset (scheduled (as @ [Tick now]) 0)"
  proof -
    have "map snd ?ds = map snd ds @ ?due"
      by (simp add: o_def)
    then have "mset (map snd ?ds) + mset ?rest = mset (map snd ds) + mset (tm_events t)"
      by (simp only: mset_append part add.assoc)
    also have "\<dots> = mset (scheduled (as @ [Tick now]) 0)"
      by (simp only: i(4) scheduled_append scheduled.simps append_Nil2)
    finally show ?thesis .
  qed
  moreover have "on_time (as @ [Tick now]) ?ds"
    using i(5) ord(2) by (auto simp: on_time_def nth_append sorted_wrt_append sorted_wrt_map)
  moreover have "zone_pending (fold Dispatch ?due zm1) z = zone_pending zm z @ delivered zm (as @ [Tick now]) ?ds z" for z
    using fold_Dispatch [OF i(2), of ?due z] assms(2)
    by (simp add: i(6) delivered_append delivered_turn delivered_snoc [OF i(5)])
  ultimately show ?thesis
    using fold_Dispatch [OF i(2)] i(3) ord(1) by (simp add: timer_log_def run scheduled_append)
qed

lemma timer_log_ex:
  assumes "zm_ok zm"
  shows "\<exists>ds. timer_log zm as ds"
proof (induction as rule: rev_induct)
  case Nil
  have "timer_log zm [] []"
    using assms by (simp add: timer_log_def timer_run_def newTimerThread_def tmq.ordered_def on_time_def delivered_def)
  then show ?case ..
next
  case (snoc a as)
  then obtain ds where ds: "timer_log zm as ds" ..
  obtain t zm1 where r: "timer_run as (newTimerThread, zm) = (t, zm1)"
    by (cases "timer_run as (newTimerThread, zm)")
  have on: "on_time as ds"
    using ds by (auto simp: timer_log_def)
  note keep = on_time_snoc [OF on] delivered_snoc [OF on]
  show ?case
  proof (cases a)
    case (Tick now)
    then show ?thesis
      using timer_log_tick [OF ds r] by blast
  next
    case (Sched z now i d ev tgt)
    have "tmq.ordered (tm_events (ScheduleAfter z now i d ev tgt t))"
      using ds r Schedule_ordered by (auto simp: timer_log_def ScheduleAfter_def)
    then have "timer_log zm (as @ [a]) ds"
      using ds r keep Sched
      by (auto simp: timer_log_def timer_run_def scheduled_append ScheduleAfter_events
          nextSequence_ScheduleAfter)
    then show ?thesis ..
  next
    case (Moved i z)
    then have "timer_log zm (as @ [a]) ds"
      using ds r keep
      by (auto simp: timer_log_def timer_run_def scheduled_append zm_ok_updates)
    then show ?thesis ..
  next
    case (Removed i)
    then have "timer_log zm (as @ [a]) ds"
      using ds r keep
      by (auto simp: timer_log_def timer_run_def scheduled_append zm_ok_updates)
    then show ?thesis ..
  qed
qed

text \<open>C25. Over any interleaving of schedulings, timer turns and changes of the zone registration, no
  timer event is lost, duplicated or delivered early.  There is a list of deliveries, each by a turn
  of the timer at or after the wake-up time, in the order of the turns and within a turn of wake-up
  time and sequence number, such that the delivered and the still queued events together are the
  scheduled ones (with the zone of the scheduling thread and consecutive sequence numbers), and what
  the run appended to the task queue of every zone is exactly the tasks of the deliveries that go
  there: player events to the zone the player was registered in at that turn, all other events to the
  zone whose thread scheduled them, and to the registered zone or the default thread if there was
  none.  A turn leaves nothing in the queue that is due.\<close>

theorem timer_exact:
  assumes "zm_ok zm" "timer_run as (newTimerThread, zm) = (t', zm')"
  shows "(\<exists>ds. mset (map snd ds) + mset (tm_events t') = mset (scheduled as 0) \<and> on_time as ds \<and>
      (\<forall>z. zone_pending zm' z = zone_pending zm z @ delivered zm as ds z)) \<and>
    (\<forall>bs now. as = bs @ [Tick now] \<longrightarrow> (\<forall>e \<in> set (tm_events t'). now < te_wakeupTime e))"
proof -
  have "now < te_wakeupTime e" if as: "as = bs @ [Tick now]" and "e \<in> set (tm_events t')" for bs now e
  proof -
    from timer_log_ex [OF assms(1)] obtain ds where "timer_log zm bs ds" ..
    then have "tmq.ordered (tm_events (fst (timer_run bs (newTimerThread, zm))))"
      by (auto simp: timer_log_def)
    then show ?thesis
      using that assms(2) DoTimer_step_eq [of "fst (timer_run bs (newTimerThread, zm))" now
          "snd (timer_run bs (newTimerThread, zm))"]
      by (auto simp: timer_run_def)
  qed
  then show ?thesis
    using timer_log_ex [OF assms(1), of as] assms(2) unfolding timer_log_def by auto
qed

theorem timer_exact_witness:
  "\<exists>ds t' zm'. timer_run [Sched 3 100 (ObjID 3 1) 50 EV_RANOM_MOVE npos, Tick 149, Tick 150]
      (newTimerThread, newZoneManager) = (t', zm') \<and> tm_events t' = [] \<and>
    mset (map snd ds) = mset (scheduled [Sched 3 100 (ObjID 3 1) 50 EV_RANOM_MOVE npos, Tick 149, Tick 150] 0) \<and>
    zone_pending zm' 3 = zone_pending newZoneManager 3 @ delivered newZoneManager
      [Sched 3 100 (ObjID 3 1) 50 EV_RANOM_MOVE npos, Tick 149, Tick 150] ds 3"
proof -
  let ?as = "[Sched 3 100 (ObjID 3 1) 50 EV_RANOM_MOVE npos, Tick 149, Tick 150]"
  obtain t' zm' where r: "timer_run ?as (newTimerThread, newZoneManager) = (t', zm')"
    by (metis surj_pair)
  then have e: "tm_events t' = []"
    by (auto simp: timer_run_def newTimerThread_def ScheduleAfter_def Schedule_def Let_def DoTimer_step_def)
  from timer_exact [OF zm_ok_new r] obtain ds where
    "mset (map snd ds) + mset (tm_events t') = mset (scheduled ?as 0)"
    "\<forall>z. zone_pending zm' z = zone_pending newZoneManager z @ delivered newZoneManager ?as ds z"
    by blast
  with e r show ?thesis
    by auto
qed

text \<open>A turn of the timer on an ordered queue hands every due event, in the order of wake-up time and
  sequence number, to the end of one task queue, and keeps the others: player events go to the zone
  the player is registered in now, all other events to the zone whose thread scheduled them, and to
  the registered zone or the default thread if there was none.\<close>

theorem timer_step_exact:
  assumes "tmq.ordered (tm_events t)" "zm_ok zm" "DoTimer_step now (t, zm) = (t', zm')"
  shows "tm_events t' = filter (\<lambda>e. te_wakeupTime e > now) (tm_events t) \<and> zm_ok zm' \<and>
    zone_pending zm' z = zone_pending zm z @
      map task_of (filter (\<lambda>e. te_wakeupTime e \<le> now \<and> goes_to zm z e) (tm_events t))"
  using assms(3) fold_Dispatch [OF assms(2), of "filter (\<lambda>e. te_wakeupTime e \<le> now) (tm_events t)" z]
  by (auto simp: DoTimer_step_eq [OF assms(1)] conj_commute)

theorem timer_step_exact_witness:
  "\<exists>t' zm'. DoTimer_step 10 (ScheduleAfter 3 0 (ObjID 3 1) 5 EV_RANOM_MOVE npos newTimerThread, newZoneManager) =
      (t', zm') \<and> zone_pending zm' 3 = [TRandomMove (ObjID 3 1)]"
proof -
  let ?t = "ScheduleAfter 3 0 (ObjID 3 1) 5 EV_RANOM_MOVE npos newTimerThread"
  have ev: "tm_events ?t = [\<lparr>te_subjectId = ObjID 3 1, te_wakeupTime = 5, te_event = EV_RANOM_MOVE,
      te_targetId = npos, te_sequence = 0, te_zoneId = 3\<rparr>]"
    by (simp add: ScheduleAfter_def Schedule_def newTimerThread_def Let_def)
  have ord: "tmq.ordered (tm_events ?t)"
    by (simp add: ev tmq.ordered_def)
  obtain t' zm' where r: "DoTimer_step 10 (?t, newZoneManager) = (t', zm')"
    by (metis surj_pair)
  have "zone_pending newZoneManager 3 = []"
    by (simp add: zone_pending_def newZoneManager_def newGameLogicThread_def lt_pending_def
        IsValidZoneId_def nth_append)
  then have "zone_pending zm' 3 = [TRandomMove (ObjID 3 1)]"
    using timer_step_exact [OF ord zm_ok_new r, of 3]
    by (simp add: ev goes_to_def target_zone_def hasCategory_def GetCategory_def content_GetCategory_def
        IsValidZoneId_def task_of_def)
  with r show ?thesis
    by blast
qed

text \<open>The logic thread of a zone runs its tasks first in, first out: over any interleaving of
  producers and turns of the thread, what was executed followed by what is pending is what was
  pending before followed by what was enqueued.\<close>

theorem logic_thread_fifo:
  assumes "logic.trace as q = (executed, q')"
  shows "executed @ lt_pending q' = lt_pending q @ List.map_filter (\<lambda>a. a) as"
  using assms by (rule logic.trace_fifo)

theorem logic_thread_fifo_witness:
  "\<exists>q'. logic.trace [Some (1 :: nat), Some 2, None, None, Some 3] newGameLogicThread = ([1], q') \<and>
     lt_pending q' = [2, 3]"
proof -
  let ?as = "[Some (1 :: nat), Some 2, None, None, Some 3]"
  obtain ts q' where r: "logic.trace ?as newGameLogicThread = (ts, q')"
    by (metis surj_pair)
  then have "ts = [1]"
    by (auto simp: newGameLogicThread_def lt_Enqueue_def Run_step_def)
  with logic_thread_fifo [OF r] r show ?thesis
    by (auto simp: map_filter_simps newGameLogicThread_def lt_pending_def)
qed

text \<open>A logic thread that is left alone executes all its pending tasks: twice as many turns as tasks
  are enough, one of each pair being at most a swap of the two queues.\<close>

theorem logic_thread_progress:
  "\<exists>q'. logic.trace (replicate (2 * length (lt_pending q)) None) q = (lt_pending q, q') \<and> lt_pending q' = []"
  by (rule logic.all_done) simp

subsection \<open>Stats and drops\<close>

text \<open>Damage never underflows and kills exactly at zero, healing never exceeds the cap, and a gain of
  at most thirty experience points changes the level by at most one and loses no experience below
  the highest level; all three keep the invariant that a subject is dead exactly when it has no hit
  points, never has more than its maximum, and has a level with a matching amount of experience.\<close>

theorem stat_operations:
  assumes "stat_ok s" "\<not> m_die s"
  shows "unat (m_hp (snd (TakeDamage a s))) = unat (m_hp s) - unat a \<and> stat_ok (snd (TakeDamage a s)) \<and>
    (cap \<noteq> 0 \<and> cap \<le> m_maxHp s \<longrightarrow>
       unat (m_hp (HealHp a cap s)) = min (unat (m_hp s) + unat a) (unat cap) \<and> stat_ok (HealHp a cap s)) \<and>
    (unat e \<le> 30 \<longrightarrow> (\<exists>b t. AddExp e s = Some (b, t) \<and> stat_ok t \<and>
       unat (m_level t) = unat (m_level s) + (if b then 1 else 0) \<and>
       (unat (m_level s) < 5 \<longrightarrow>
          unat (m_exp t) + (if b then exp_needed (unat (m_level s)) else 0) = unat (m_exp s) + unat e)))"
proof -
  have "\<exists>b t. AddExp e s = Some (b, t) \<and> stat_ok t \<and>
       unat (m_level t) = unat (m_level s) + (if b then 1 else 0) \<and>
       (unat (m_level s) < 5 \<longrightarrow>
          unat (m_exp t) + (if b then exp_needed (unat (m_level s)) else 0) = unat (m_exp s) + unat e)"
    if e: "unat e \<le> 30"
  proof -
    have l: "level_ok s"
      using assms by (simp add: stat_ok_def)
    obtain b t where "AddExp e s = Some (b, t)" "level_ok t" "m_hp t = m_hp s" "m_maxHp t = m_maxHp s"
      "m_die t = m_die s" "unat (m_level t) = unat (m_level s) + (if b then 1 else 0)"
      "unat (m_level s) < 5 \<longrightarrow>
         unat (m_exp t) + (if b then exp_needed (unat (m_level s)) else 0) = unat (m_exp s) + unat e"
      using AddExp_level_ok [OF l e] by blast
    then show ?thesis
      using assms by (intro exI [of _ b] exI [of _ t]) (simp only: stat_ok_def simp_thms)
  qed
  then show ?thesis
    using TakeDamage_hp(1) stat_ok_TakeDamage [OF assms(1)] HealHp_hp stat_ok_HealHp [OF assms] by blast
qed

theorem stat_operations_witness:
  "\<exists>b t. AddExp 5 \<lparr>m_maxHp = 100, m_hp = 40, m_offensive = 10, m_die = False, m_level = 1, m_exp = 28\<rparr> =
     Some (b, t) \<and> unat (m_level t) = 1 + (if b then 1 else 0) \<and>
     unat (m_exp t) + (if b then 30 else 0) = 33"
proof -
  let ?s = "\<lparr>m_maxHp = 100, m_hp = 40, m_offensive = 10, m_die = False, m_level = 1, m_exp = 28\<rparr>"
  have "stat_ok ?s" "\<not> m_die ?s"
    by (simp_all add: stat_ok_def level_ok_def)
  note ops = stat_operations [OF this, of 0 0 5]
  have "unat (5 :: uint32) \<le> 30"
    by simp
  with ops obtain b t where "AddExp 5 ?s = Some (b, t)"
    "unat (m_level t) = unat (m_level ?s) + (if b then 1 else 0)"
    "unat (m_level ?s) < 5 \<longrightarrow>
       unat (m_exp t) + (if b then exp_needed (unat (m_level ?s)) else 0) = unat (m_exp ?s) + unat (5 :: uint32)"
    by blast
  then show ?thesis
    by (intro exI [of _ b] exI [of _ t]) (cases b; simp)
qed

text \<open>The drop table passes the validation that runs before the server starts, and every roll that
  yields an item yields an existing item with a count between one and its stack limit.\<close>

theorem drop_roll_valid:
  assumes "draws_ok index countRoll" "hasItem (Roll index countRoll)"
  shows "ValidateDropTable = Some True \<and> (\<exists>row. ItemTable_Find (roll_itemId (Roll index countRoll)) = Some row \<and>
    1 \<le> roll_count (Roll index countRoll) \<and> roll_count (Roll index countRoll) \<le> row_maxStack row)"
  using Roll_valid [OF assms] ValidateDropTable_True by blast

theorem drop_roll_valid_witness:
  "\<exists>row. ItemTable_Find (roll_itemId (Roll 1 (\<lambda>lo hi. hi))) = Some row \<and>
     roll_count (Roll 1 (\<lambda>lo hi. hi)) \<le> row_maxStack row"
proof -
  have "draws_ok 1 (\<lambda>lo hi. hi)"
    by (simp add: draws_ok_def BuildWeights_eq)
  moreover have "hasItem (Roll 1 (\<lambda>lo hi. hi))"
    by (simp add: Roll_def Let_def)
  ultimately show ?thesis
    using drop_roll_valid [of 1 "\<lambda>lo hi. hi"] by blast
qed

end
