(* ===== verification/Protocols.thy ===== *)
theory Protocols
  imports Zones
begin

unbundle bit_operations_syntax

text \<open>
  The wire format: \<^verbatim>\<open>Protocol.h\<close> and the packet size constants of \<^verbatim>\<open>Network/GameSession.h\<close>.
  A packet structure is a constructor of \<open>ServerPacket\<close> or \<open>ClientPacket\<close>; \<open>encode\<close> and
  \<open>encode_client\<close> give the bytes of the packed structure, little endian, with the 16-bit size and
  the type byte first.  \<open>decode\<close> is what \<^verbatim>\<open>Route::Dispatch\<close> reads from the 131 bytes of a dispatch
  job through \<^verbatim>\<open>reinterpret_cast\<close>.
\<close>

definition NAME_SIZE :: nat where "NAME_SIZE = 20"
definition PASSWORD_SIZE :: nat where "PASSWORD_SIZE = 20"
definition CHAT_SIZE :: nat where "CHAT_SIZE = 128"
definition BUF_SIZE :: nat where "BUF_SIZE = 1024"
definition ITEM_LIST_SLOTS :: nat where "ITEM_LIST_SLOTS = 30"
definition SEND_BATCH_BUFFER_SIZE :: nat where "SEND_BATCH_BUFFER_SIZE = 4096"

lemmas proto_consts = NAME_SIZE_def PASSWORD_SIZE_def CHAT_SIZE_def BUF_SIZE_def ITEM_LIST_SLOTS_def
  SEND_BATCH_BUFFER_SIZE_def

datatype PacketType =
    USER_LOGIN_REQ | USER_MOVE_REQ | USER_ATTACK_REQ | USER_SKILL_REQ | USER_TELEPORT_REQ
  | ITEM_EQUIP_REQ | ITEM_UNEQUIP_REQ | ITEM_SWAP_REQ | ITEM_DISCARD_REQ | ITEM_PICKUP_REQ
  | ITEM_USE_REQ
  | USER_LOGIN_ACK | USER_LOGIN_FAIL_ACK | USER_ATTACK_ACK | ITEM_LIST_ACK | ITEM_EQUIP_ACK
  | ITEM_UNEQUIP_ACK | ITEM_SWAP_ACK | ITEM_DISCARD_ACK | ITEM_PICKUP_ACK | ITEM_USE_ACK
  | SUBJECT_ADD_NFY | SUBJECT_MOVE_NFY | SUBJECT_REMOVE_NFY | SUBJECT_DIE_NFY
  | SUBJECT_RESPAWN_NFY | SUBJECT_ATTACK_NFY | PLAYER_ATTACK_NFY | SUBJECT_EQUIP_CHANGE_NFY
  | USER_HEAL_INF | USER_STAT_CHANGE_INF | ITEM_ACQUIRE_INF | SYSTEM_MESSAGE_INF
  | CS_CHAT | SC_CHAT

definition packet_types :: "PacketType list" where
  "packet_types =
    [USER_LOGIN_REQ, USER_MOVE_REQ, USER_ATTACK_REQ, USER_SKILL_REQ, USER_TELEPORT_REQ,
     ITEM_EQUIP_REQ, ITEM_UNEQUIP_REQ, ITEM_SWAP_REQ, ITEM_DISCARD_REQ, ITEM_PICKUP_REQ,
     ITEM_USE_REQ,
     USER_LOGIN_ACK, USER_LOGIN_FAIL_ACK, USER_ATTACK_ACK, ITEM_LIST_ACK, ITEM_EQUIP_ACK,
     ITEM_UNEQUIP_ACK, ITEM_SWAP_ACK, ITEM_DISCARD_ACK, ITEM_PICKUP_ACK, ITEM_USE_ACK,
     SUBJECT_ADD_NFY, SUBJECT_MOVE_NFY, SUBJECT_REMOVE_NFY, SUBJECT_DIE_NFY,
     SUBJECT_RESPAWN_NFY, SUBJECT_ATTACK_NFY, PLAYER_ATTACK_NFY, SUBJECT_EQUIP_CHANGE_NFY,
     USER_HEAL_INF, USER_STAT_CHANGE_INF, ITEM_ACQUIRE_INF, SYSTEM_MESSAGE_INF,
     CS_CHAT, SC_CHAT]"

fun index_of :: "'a list \<Rightarrow> 'a \<Rightarrow> nat" where
  "index_of [] a = 0"
| "index_of (x # xs) a = (if x = a then 0 else Suc (index_of xs a))"

text \<open>The enumerators count from zero in their order of declaration.\<close>

definition type_val :: "PacketType \<Rightarrow> uint8" where
  "type_val t = of_nat (index_of packet_types t)"

datatype SystemMessageCode = InventoryFull

record ITEM_SLOT_DATA =
  sd_slotIndex :: uint16
  sd_itemId :: uint16
  sd_count :: uint16
  sd_equipped :: uint8

datatype ServerPacket =
    USER_LOGIN_ACK_PACKET ObjID short short uint16 uint16 uint8 uint32
  | USER_LOGIN_FAIL_ACK_PACKET
  | USER_ATTACK_ACK_PACKET ObjID int int
  | ITEM_LIST_ACK_PACKET uint8 "ITEM_SLOT_DATA list"
  | ITEM_EQUIP_ACK_PACKET bool ITEM_SLOT_DATA
  | ITEM_UNEQUIP_ACK_PACKET bool ITEM_SLOT_DATA
  | ITEM_SWAP_ACK_PACKET bool ITEM_SLOT_DATA ITEM_SLOT_DATA
  | ITEM_DISCARD_ACK_PACKET bool ITEM_SLOT_DATA
  | ITEM_PICKUP_ACK_PACKET bool
  | ITEM_USE_ACK_PACKET bool ITEM_SLOT_DATA
  | SUBJECT_ADD_NFY_PACKET uint8 ObjID short short string uint16
  | SUBJECT_MOVE_NFY_PACKET ObjID short short uint32
  | SUBJECT_REMOVE_NFY_PACKET ObjID
  | SUBJECT_DIE_NFY_PACKET ObjID uint16
  | SUBJECT_RESPAWN_NFY_PACKET uint8 ObjID short short uint16 string
  | SUBJECT_ATTACK_NFY_PACKET ObjID ObjID int
  | PLAYER_ATTACK_NFY_PACKET ObjID uint8
  | SUBJECT_EQUIP_CHANGE_NFY_PACKET ObjID uint16
  | USER_HEAL_INF_PACKET int
  | USER_STAT_CHANGE_INF_PACKET uint8 uint16 uint16 uint32
  | ITEM_ACQUIRE_INF_PACKET ITEM_SLOT_DATA
  | SYSTEM_MESSAGE_INF_PACKET SystemMessageCode int int
  | SC_CHAT_PACKET ObjID string

datatype ClientPacket =
    USER_LOGIN_REQ_PACKET string string
  | USER_MOVE_REQ_PACKET int uint32
  | USER_ATTACK_REQ_PACKET uint8
  | USER_SKILL_REQ_PACKET
  | USER_TELEPORT_REQ_PACKET short short
  | ITEM_EQUIP_REQ_PACKET uint16
  | ITEM_UNEQUIP_REQ_PACKET uint16
  | ITEM_SWAP_REQ_PACKET uint16 uint16
  | ITEM_DISCARD_REQ_PACKET uint16 uint16
  | ITEM_PICKUP_REQ_PACKET
  | ITEM_USE_REQ_PACKET uint16
  | CS_CHAT_PACKET string

subsection \<open>Field layouts\<close>

definition le16 :: "uint16 \<Rightarrow> uint8 list" where
  "le16 w = [ucast w, ucast (drop_bit 8 w)]"

definition le32 :: "uint32 \<Rightarrow> uint8 list" where
  "le32 w = [ucast w, ucast (drop_bit 8 w), ucast (drop_bit 16 w), ucast (drop_bit 24 w)]"

definition le64 :: "uint64 \<Rightarrow> uint8 list" where
  "le64 w = le32 (ucast w) @ le32 (ucast (drop_bit 32 w))"

definition le_ObjID :: "ObjID \<Rightarrow> uint8 list" where
  "le_ObjID i = le64 (m_ContentID i) @ le64 (m_DatabaseID i)"

definition le_short :: "short \<Rightarrow> uint8 list" where
  "le_short i = le16 (word_of_int i)"

definition le_int32 :: "int \<Rightarrow> uint8 list" where
  "le_int32 i = le32 (word_of_int i)"

definition byte_of :: "char \<Rightarrow> uint8" where
  "byte_of c = of_nat (of_char c)"

definition char_array :: "nat \<Rightarrow> string \<Rightarrow> uint8 list" where
  "char_array n s = (let bs = map byte_of (take n s) in bs @ replicate (n - length bs) 0)"

text \<open>\<^verbatim>\<open>strncpy_s(dst, n, src, _TRUNCATE)\<close> keeps at most \<open>n - 1\<close> characters.\<close>

definition truncated :: "nat \<Rightarrow> string \<Rightarrow> string" where
  "truncated n s = take (n - 1) s"

definition le_bool :: "bool \<Rightarrow> uint8 list" where
  "le_bool b = [if b then 1 else 0]"

definition le_slot :: "ITEM_SLOT_DATA \<Rightarrow> uint8 list" where
  "le_slot d = le16 (sd_slotIndex d) @ le16 (sd_itemId d) @ le16 (sd_count d) @ [sd_equipped d]"

definition noSlot :: ITEM_SLOT_DATA where
  "noSlot = \<lparr>sd_slotIndex = 0, sd_itemId = 0, sd_count = 0, sd_equipped = 0\<rparr>"

definition slot_array :: "ITEM_SLOT_DATA list \<Rightarrow> ITEM_SLOT_DATA list" where
  "slot_array ds = take ITEM_LIST_SLOTS ds @ replicate (ITEM_LIST_SLOTS - length ds) noSlot"

fun code_val :: "SystemMessageCode \<Rightarrow> uint16" where
  "code_val InventoryFull = 0"

fun packet_type :: "ServerPacket \<Rightarrow> PacketType" where
  "packet_type (USER_LOGIN_ACK_PACKET _ _ _ _ _ _ _) = USER_LOGIN_ACK"
| "packet_type USER_LOGIN_FAIL_ACK_PACKET = USER_LOGIN_FAIL_ACK"
| "packet_type (USER_ATTACK_ACK_PACKET _ _ _) = USER_ATTACK_ACK"
| "packet_type (ITEM_LIST_ACK_PACKET _ _) = ITEM_LIST_ACK"
| "packet_type (ITEM_EQUIP_ACK_PACKET _ _) = ITEM_EQUIP_ACK"
| "packet_type (ITEM_UNEQUIP_ACK_PACKET _ _) = ITEM_UNEQUIP_ACK"
| "packet_type (ITEM_SWAP_ACK_PACKET _ _ _) = ITEM_SWAP_ACK"
| "packet_type (ITEM_DISCARD_ACK_PACKET _ _) = ITEM_DISCARD_ACK"
| "packet_type (ITEM_PICKUP_ACK_PACKET _) = ITEM_PICKUP_ACK"
| "packet_type (ITEM_USE_ACK_PACKET _ _) = ITEM_USE_ACK"
| "packet_type (SUBJECT_ADD_NFY_PACKET _ _ _ _ _ _) = SUBJECT_ADD_NFY"
| "packet_type (SUBJECT_MOVE_NFY_PACKET _ _ _ _) = SUBJECT_MOVE_NFY"
| "packet_type (SUBJECT_REMOVE_NFY_PACKET _) = SUBJECT_REMOVE_NFY"
| "packet_type (SUBJECT_DIE_NFY_PACKET _ _) = SUBJECT_DIE_NFY"
| "packet_type (SUBJECT_RESPAWN_NFY_PACKET _ _ _ _ _ _) = SUBJECT_RESPAWN_NFY"
| "packet_type (SUBJECT_ATTACK_NFY_PACKET _ _ _) = SUBJECT_ATTACK_NFY"
| "packet_type (PLAYER_ATTACK_NFY_PACKET _ _) = PLAYER_ATTACK_NFY"
| "packet_type (SUBJECT_EQUIP_CHANGE_NFY_PACKET _ _) = SUBJECT_EQUIP_CHANGE_NFY"
| "packet_type (USER_HEAL_INF_PACKET _) = USER_HEAL_INF"
| "packet_type (USER_STAT_CHANGE_INF_PACKET _ _ _ _) = USER_STAT_CHANGE_INF"
| "packet_type (ITEM_ACQUIRE_INF_PACKET _) = ITEM_ACQUIRE_INF"
| "packet_type (SYSTEM_MESSAGE_INF_PACKET _ _ _) = SYSTEM_MESSAGE_INF"
| "packet_type (SC_CHAT_PACKET _ _) = SC_CHAT"

fun payload :: "ServerPacket \<Rightarrow> uint8 list" where
  "payload (USER_LOGIN_ACK_PACKET i x y maxhp hp level ex) =
     le_ObjID i @ le_short x @ le_short y @ le16 maxhp @ le16 hp @ [level] @ le32 ex"
| "payload USER_LOGIN_FAIL_ACK_PACKET = []"
| "payload (USER_ATTACK_ACK_PACKET i hp damage) = le_ObjID i @ le_int32 hp @ le_int32 damage"
| "payload (ITEM_LIST_ACK_PACKET n ds) = [n] @ concat (map le_slot (slot_array ds))"
| "payload (ITEM_EQUIP_ACK_PACKET b d) = le_bool b @ le_slot d"
| "payload (ITEM_UNEQUIP_ACK_PACKET b d) = le_bool b @ le_slot d"
| "payload (ITEM_SWAP_ACK_PACKET b d e) = le_bool b @ le_slot d @ le_slot e"
| "payload (ITEM_DISCARD_ACK_PACKET b d) = le_bool b @ le_slot d"
| "payload (ITEM_PICKUP_ACK_PACKET b) = le_bool b"
| "payload (ITEM_USE_ACK_PACKET b d) = le_bool b @ le_slot d"
| "payload (SUBJECT_ADD_NFY_PACKET m i x y name item) =
     [m] @ le_ObjID i @ le_short x @ le_short y @ char_array NAME_SIZE (truncated NAME_SIZE name) @ le16 item"
| "payload (SUBJECT_MOVE_NFY_PACKET i x y t) = le_ObjID i @ le_short x @ le_short y @ le32 t"
| "payload (SUBJECT_REMOVE_NFY_PACKET i) = le_ObjID i"
| "payload (SUBJECT_DIE_NFY_PACKET i hp) = le_ObjID i @ le16 hp"
| "payload (SUBJECT_RESPAWN_NFY_PACKET m i x y hp name) =
     [m] @ le_ObjID i @ le_short x @ le_short y @ le16 hp @ char_array NAME_SIZE (truncated NAME_SIZE name)"
| "payload (SUBJECT_ATTACK_NFY_PACKET v a hp) = le_ObjID v @ le_ObjID a @ le_int32 hp"
| "payload (PLAYER_ATTACK_NFY_PACKET a f) = le_ObjID a @ [f]"
| "payload (SUBJECT_EQUIP_CHANGE_NFY_PACKET i item) = le_ObjID i @ le16 item"
| "payload (USER_HEAL_INF_PACKET hp) = le_int32 hp"
| "payload (USER_STAT_CHANGE_INF_PACKET level hp maxhp ex) = [level] @ le16 hp @ le16 maxhp @ le32 ex"
| "payload (ITEM_ACQUIRE_INF_PACKET d) = le_slot d"
| "payload (SYSTEM_MESSAGE_INF_PACKET c p q) = le16 (code_val c) @ le_int32 p @ le_int32 q"
| "payload (SC_CHAT_PACKET i mess) = le_ObjID i @ char_array CHAT_SIZE (truncated CHAT_SIZE mess)"

text \<open>\<^verbatim>\<open>sizeof\<close> of the packed structures.\<close>

fun sizeof_packet :: "PacketType \<Rightarrow> nat" where
  "sizeof_packet USER_LOGIN_ACK = 2 + 1 + 16 + 4 + 2 + 2 + 1 + 4"
| "sizeof_packet USER_LOGIN_FAIL_ACK = 2 + 1"
| "sizeof_packet USER_ATTACK_ACK = 2 + 1 + 16 + 4 + 4"
| "sizeof_packet ITEM_LIST_ACK = 2 + 1 + 1 + ITEM_LIST_SLOTS * 7"
| "sizeof_packet ITEM_EQUIP_ACK = 2 + 1 + 1 + 7"
| "sizeof_packet ITEM_UNEQUIP_ACK = 2 + 1 + 1 + 7"
| "sizeof_packet ITEM_SWAP_ACK = 2 + 1 + 1 + 7 + 7"
| "sizeof_packet ITEM_DISCARD_ACK = 2 + 1 + 1 + 7"
| "sizeof_packet ITEM_PICKUP_ACK = 2 + 1 + 1"
| "sizeof_packet ITEM_USE_ACK = 2 + 1 + 1 + 7"
| "sizeof_packet SUBJECT_ADD_NFY = 2 + 1 + 1 + 16 + 4 + NAME_SIZE + 2"
| "sizeof_packet SUBJECT_MOVE_NFY = 2 + 1 + 16 + 4 + 4"
| "sizeof_packet SUBJECT_REMOVE_NFY = 2 + 1 + 16"
| "sizeof_packet SUBJECT_DIE_NFY = 2 + 1 + 16 + 2"
| "sizeof_packet SUBJECT_RESPAWN_NFY = 2 + 1 + 1 + 16 + 4 + 2 + NAME_SIZE"
| "sizeof_packet SUBJECT_ATTACK_NFY = 2 + 1 + 16 + 16 + 4"
| "sizeof_packet PLAYER_ATTACK_NFY = 2 + 1 + 16 + 1"
| "sizeof_packet SUBJECT_EQUIP_CHANGE_NFY = 2 + 1 + 16 + 2"
| "sizeof_packet USER_HEAL_INF = 2 + 1 + 4"
| "sizeof_packet USER_STAT_CHANGE_INF = 2 + 1 + 1 + 2 + 2 + 4"
| "sizeof_packet ITEM_ACQUIRE_INF = 2 + 1 + 7"
| "sizeof_packet SYSTEM_MESSAGE_INF = 2 + 1 + 2 + 4 + 4"
| "sizeof_packet SC_CHAT = 2 + 1 + 16 + CHAT_SIZE"
| "sizeof_packet USER_LOGIN_REQ = 2 + 1 + NAME_SIZE + PASSWORD_SIZE"
| "sizeof_packet USER_MOVE_REQ = 2 + 1 + 1 + 4"
| "sizeof_packet USER_ATTACK_REQ = 2 + 1 + 1"
| "sizeof_packet USER_SKILL_REQ = 2 + 1"
| "sizeof_packet USER_TELEPORT_REQ = 2 + 1 + 4"
| "sizeof_packet ITEM_EQUIP_REQ = 2 + 1 + 2"
| "sizeof_packet ITEM_UNEQUIP_REQ = 2 + 1 + 2"
| "sizeof_packet ITEM_SWAP_REQ = 2 + 1 + 2 + 2"
| "sizeof_packet ITEM_DISCARD_REQ = 2 + 1 + 2 + 2"
| "sizeof_packet ITEM_PICKUP_REQ = 2 + 1"
| "sizeof_packet ITEM_USE_REQ = 2 + 1 + 2"
| "sizeof_packet CS_CHAT = 2 + 1 + CHAT_SIZE"

definition ConstMaxSize :: "nat \<Rightarrow> nat \<Rightarrow> nat" where
  "ConstMaxSize lhs rhs = (if lhs > rhs then lhs else rhs)"

definition MAX_SERVER_PACKET_SIZE :: nat where
  "MAX_SERVER_PACKET_SIZE =
     foldl (\<lambda>s t. ConstMaxSize s (sizeof_packet t)) (sizeof_packet USER_LOGIN_ACK)
       [USER_LOGIN_FAIL_ACK, SUBJECT_ADD_NFY, SUBJECT_REMOVE_NFY, SUBJECT_MOVE_NFY, SUBJECT_DIE_NFY,
        SUBJECT_RESPAWN_NFY, USER_ATTACK_ACK, SUBJECT_ATTACK_NFY, USER_HEAL_INF,
        USER_STAT_CHANGE_INF, PLAYER_ATTACK_NFY, SC_CHAT, ITEM_LIST_ACK, ITEM_EQUIP_ACK,
        ITEM_UNEQUIP_ACK, ITEM_SWAP_ACK, ITEM_ACQUIRE_INF, SYSTEM_MESSAGE_INF, ITEM_DISCARD_ACK,
        ITEM_PICKUP_ACK, SUBJECT_EQUIP_CHANGE_NFY, ITEM_USE_ACK]"

text \<open>\<^verbatim>\<open>USER_LOGOUT_REQ_PACKET\<close>, which has no packet type, is three bytes long.\<close>

definition MAX_CLIENT_PACKET_SIZE :: nat where
  "MAX_CLIENT_PACKET_SIZE =
     foldl ConstMaxSize (sizeof_packet USER_LOGIN_REQ)
       [sizeof_packet USER_MOVE_REQ, sizeof_packet USER_ATTACK_REQ, sizeof_packet USER_SKILL_REQ,
        sizeof_packet USER_TELEPORT_REQ, 3, sizeof_packet CS_CHAT, sizeof_packet ITEM_EQUIP_REQ,
        sizeof_packet ITEM_UNEQUIP_REQ, sizeof_packet ITEM_SWAP_REQ,
        sizeof_packet ITEM_DISCARD_REQ, sizeof_packet ITEM_PICKUP_REQ, sizeof_packet ITEM_USE_REQ]"

text \<open>\<^verbatim>\<open>InitializePacket\<close> fills the header with \<^verbatim>\<open>sizeof(Packet)\<close> and the type.\<close>

definition InitializePacket :: "PacketType \<Rightarrow> uint8 list" where
  "InitializePacket t = le16 (of_nat (sizeof_packet t)) @ [type_val t]"

definition encode :: "ServerPacket \<Rightarrow> uint8 list" where
  "encode p = InitializePacket (packet_type p) @ payload p"

subsection \<open>Client packets\<close>

fun client_type :: "ClientPacket \<Rightarrow> PacketType" where
  "client_type (USER_LOGIN_REQ_PACKET _ _) = USER_LOGIN_REQ"
| "client_type (USER_MOVE_REQ_PACKET _ _) = USER_MOVE_REQ"
| "client_type (USER_ATTACK_REQ_PACKET _) = USER_ATTACK_REQ"
| "client_type USER_SKILL_REQ_PACKET = USER_SKILL_REQ"
| "client_type (USER_TELEPORT_REQ_PACKET _ _) = USER_TELEPORT_REQ"
| "client_type (ITEM_EQUIP_REQ_PACKET _) = ITEM_EQUIP_REQ"
| "client_type (ITEM_UNEQUIP_REQ_PACKET _) = ITEM_UNEQUIP_REQ"
| "client_type (ITEM_SWAP_REQ_PACKET _ _) = ITEM_SWAP_REQ"
| "client_type (ITEM_DISCARD_REQ_PACKET _ _) = ITEM_DISCARD_REQ"
| "client_type ITEM_PICKUP_REQ_PACKET = ITEM_PICKUP_REQ"
| "client_type (ITEM_USE_REQ_PACKET _) = ITEM_USE_REQ"
| "client_type (CS_CHAT_PACKET _) = CS_CHAT"

fun client_payload :: "ClientPacket \<Rightarrow> uint8 list" where
  "client_payload (USER_LOGIN_REQ_PACKET name password) =
     char_array NAME_SIZE name @ char_array PASSWORD_SIZE password"
| "client_payload (USER_MOVE_REQ_PACKET direction t) = [word_of_int direction] @ le32 t"
| "client_payload (USER_ATTACK_REQ_PACKET facing) = [facing]"
| "client_payload USER_SKILL_REQ_PACKET = []"
| "client_payload (USER_TELEPORT_REQ_PACKET x y) = le_short x @ le_short y"
| "client_payload (ITEM_EQUIP_REQ_PACKET s) = le16 s"
| "client_payload (ITEM_UNEQUIP_REQ_PACKET s) = le16 s"
| "client_payload (ITEM_SWAP_REQ_PACKET a b) = le16 a @ le16 b"
| "client_payload (ITEM_DISCARD_REQ_PACKET s c) = le16 s @ le16 c"
| "client_payload ITEM_PICKUP_REQ_PACKET = []"
| "client_payload (ITEM_USE_REQ_PACKET s) = le16 s"
| "client_payload (CS_CHAT_PACKET mess) = char_array CHAT_SIZE mess"

definition encode_client :: "ClientPacket \<Rightarrow> uint8 list" where
  "encode_client p = InitializePacket (client_type p) @ client_payload p"

text \<open>Reading fields of the buffer at the offsets of the packed structures.\<close>

definition rd16 :: "uint8 list \<Rightarrow> nat \<Rightarrow> uint16" where
  "rd16 b i = ucast (b ! i) OR push_bit 8 (ucast (b ! (i + 1)))"

definition rd32 :: "uint8 list \<Rightarrow> nat \<Rightarrow> uint32" where
  "rd32 b i = ucast (rd16 b i) OR push_bit 16 (ucast (rd16 b (i + 2)))"

definition rd_short :: "uint8 list \<Rightarrow> nat \<Rightarrow> short" where
  "rd_short b i = sint (rd16 b i)"

text \<open>\<^verbatim>\<open>strncpy_s(dst, src, n)\<close> into a larger buffer copies up to the first null character.\<close>

definition rd_string :: "uint8 list \<Rightarrow> nat \<Rightarrow> nat \<Rightarrow> string" where
  "rd_string b i n = map (\<lambda>w. char_of (unat w)) (takeWhile (\<lambda>w. w \<noteq> 0) (take n (drop i b)))"

definition decode :: "uint8 list \<Rightarrow> ClientPacket option" where
  "decode b =
     (let t = b ! 2 in
      if t = type_val USER_LOGIN_REQ
        then Some (USER_LOGIN_REQ_PACKET (rd_string b 3 NAME_SIZE) (rd_string b (3 + NAME_SIZE) PASSWORD_SIZE))
      else if t = type_val USER_MOVE_REQ then Some (USER_MOVE_REQ_PACKET (sint (b ! 3)) (rd32 b 4))
      else if t = type_val USER_ATTACK_REQ then Some (USER_ATTACK_REQ_PACKET (b ! 3))
      else if t = type_val USER_SKILL_REQ then Some USER_SKILL_REQ_PACKET
      else if t = type_val USER_TELEPORT_REQ
        then Some (USER_TELEPORT_REQ_PACKET (rd_short b 3) (rd_short b 5))
      else if t = type_val ITEM_EQUIP_REQ then Some (ITEM_EQUIP_REQ_PACKET (rd16 b 3))
      else if t = type_val ITEM_UNEQUIP_REQ then Some (ITEM_UNEQUIP_REQ_PACKET (rd16 b 3))
      else if t = type_val ITEM_SWAP_REQ then Some (ITEM_SWAP_REQ_PACKET (rd16 b 3) (rd16 b 5))
      else if t = type_val ITEM_DISCARD_REQ then Some (ITEM_DISCARD_REQ_PACKET (rd16 b 3) (rd16 b 5))
      else if t = type_val ITEM_PICKUP_REQ then Some ITEM_PICKUP_REQ_PACKET
      else if t = type_val ITEM_USE_REQ then Some (ITEM_USE_REQ_PACKET (rd16 b 3))
      else if t = type_val CS_CHAT then Some (CS_CHAT_PACKET (rd_string b 3 CHAT_SIZE))
      else None)"

subsection \<open>Sizes\<close>

named_theorems le_length \<open>lengths of encoded fields\<close>

lemma le_lengths [le_length]:
  "length (le16 a) = 2" "length (le32 b) = 4" "length (le64 c) = 8" "length (le_ObjID i) = 16"
  "length (le_short x) = 2" "length (le_int32 y) = 4" "length (le_bool t) = 1" "length (le_slot d) = 7"
  "length (char_array n s) = n" "length (slot_array ds) = ITEM_LIST_SLOTS"
  by (simp_all add: le16_def le32_def le64_def le_ObjID_def le_short_def le_int32_def le_bool_def
      le_slot_def char_array_def slot_array_def Let_def min_def)

lemma length_slots [le_length]: "length (concat (map le_slot ds)) = 7 * length ds"
  by (induction ds) (simp_all add: le_lengths)

lemma length_InitializePacket [le_length]: "length (InitializePacket t) = 3"
  by (simp add: InitializePacket_def le_length)

lemma length_payload: "length (payload p) + 3 = sizeof_packet (packet_type p)"
  by (cases p) (simp_all add: le_length)

lemma length_encode: "length (encode p) = sizeof_packet (packet_type p)"
  using length_payload [of p] by (simp add: encode_def le_length)

lemma length_client_payload: "length (client_payload p) + 3 = sizeof_packet (client_type p)"
  by (cases p) (simp_all add: le_length)

lemma length_encode_client: "length (encode_client p) = sizeof_packet (client_type p)"
  using length_client_payload [of p] by (simp add: encode_client_def le_length)

lemma packet_size_consts: "MAX_SERVER_PACKET_SIZE = 214" "MAX_CLIENT_PACKET_SIZE = 131"
  by (simp_all add: MAX_SERVER_PACKET_SIZE_def MAX_CLIENT_PACKET_SIZE_def ConstMaxSize_def proto_consts)

lemma sizeof_server: "3 \<le> sizeof_packet (packet_type p)" "sizeof_packet (packet_type p) \<le> 214"
  by (cases p; simp add: proto_consts)+

lemma sizeof_client: "3 \<le> sizeof_packet (client_type p)" "sizeof_packet (client_type p) \<le> 131"
  by (cases p; simp add: proto_consts)+

subsection \<open>Reading back\<close>

lemma rd16_le16: "rd16 (le16 w) 0 = w"
  by (rule bit_word_eqI) (auto simp: rd16_def le16_def bit_simps)

lemma rd32_le32: "rd32 (le32 w) 0 = w"
proof (rule bit_word_eqI)
  fix n
  assume n: "n < LENGTH(32)"
  consider "n < 8" | "8 \<le> n" "n < 16" | "16 \<le> n" "n < 24" | "24 \<le> n"
    by linarith
  then show "bit (rd32 (le32 w) 0) n = bit w n"
    using n by cases (auto simp: rd32_def rd16_def le32_def bit_simps)
qed

lemma rd16_append_left: "length xs = n \<Longrightarrow> rd16 (xs @ ys) (n + i) = rd16 ys i"
  by (auto simp: rd16_def nth_append)

lemma rd16_append_right: "i + 1 < length xs \<Longrightarrow> rd16 (xs @ ys) i = rd16 xs i"
  by (auto simp: rd16_def nth_append)

lemma rd16_header: "rd16 (InitializePacket t @ ys) 0 = of_nat (sizeof_packet t)"
  by (simp add: InitializePacket_def rd16_append_right le_length rd16_le16)

lemma type_byte: "(InitializePacket t @ ys) ! 2 = type_val t"
  by (simp add: InitializePacket_def nth_append le_length)

lemma header_size:
  assumes "sizeof_packet t < 65536"
  shows "unat (rd16 (InitializePacket t @ ys) 0) = sizeof_packet t"
  using assms by (simp add: rd16_header unat_of_nat_noof)

lemma index_of_inj: "a \<in> set xs \<Longrightarrow> b \<in> set xs \<Longrightarrow> index_of xs a = index_of xs b \<Longrightarrow> a = b"
  by (induction xs) (auto split: if_splits)

lemma index_of_bound: "a \<in> set xs \<Longrightarrow> index_of xs a < length xs"
  by (induction xs) auto

lemma in_packet_types: "t \<in> set packet_types"
  by (cases t) (simp_all add: packet_types_def)

lemma type_val_inj: "type_val s = type_val t \<longleftrightarrow> s = t"
proof
  have b: "index_of packet_types u < 256" for u
    using index_of_bound [OF in_packet_types, of u] by (simp add: packet_types_def)
  assume "type_val s = type_val t"
  then have "unat (of_nat (index_of packet_types s) :: uint8) = unat (of_nat (index_of packet_types t) :: uint8)"
    by (simp add: type_val_def)
  then have "index_of packet_types s = index_of packet_types t"
    using b [of s] b [of t] by (simp add: unat_of_nat_noof)
  then show "s = t"
    by (rule index_of_inj [OF in_packet_types in_packet_types])
qed simp

subsection \<open>Strings\<close>

definition c_string :: "string \<Rightarrow> bool" where
  "c_string s \<longleftrightarrow> (\<forall>c \<in> set s. of_char c \<noteq> (0 :: nat))"

lemma byte_of_char: "char_of (unat (byte_of c)) = c" "byte_of c = 0 \<longleftrightarrow> of_char c = (0 :: nat)"
proof -
  have "of_char c < (256 :: nat)"
    using nat_of_char_less_256 by simp
  then have u: "unat (byte_of c) = of_char c"
    by (simp add: byte_of_def unat_of_nat_noof)
  then show "char_of (unat (byte_of c)) = c"
    by simp
  show "byte_of c = 0 \<longleftrightarrow> of_char c = (0 :: nat)"
    using u by (metis unat_eq_zero)
qed

lemma rd_string_char_array:
  assumes "length s \<le> n" "c_string s"
  shows "rd_string (char_array n s @ rest) 0 n = s"
proof -
  have "takeWhile (\<lambda>w. w \<noteq> 0) (map byte_of s @ replicate k 0) = map byte_of s" for k
    using assms(2) by (cases k) (auto simp: takeWhile_append c_string_def byte_of_char)
  moreover have "take n (char_array n s @ rest) = map byte_of s @ replicate (n - length s) 0"
    using assms(1) by (simp add: char_array_def)
  ultimately have "takeWhile (\<lambda>w. w \<noteq> 0) (take n (char_array n s @ rest)) = map byte_of s"
    by (simp only:)
  then show ?thesis
    by (simp add: rd_string_def byte_of_char o_def)
qed

lemma rd_string_drop: "length xs = i \<Longrightarrow> rd_string (xs @ ys) (i + k) n = rd_string ys k n"
  by (simp add: rd_string_def)

subsection \<open>A complete packet is read back, whatever follows it\<close>

fun client_ok :: "ClientPacket \<Rightarrow> bool" where
  "client_ok (USER_LOGIN_REQ_PACKET name password) =
     (length name \<le> NAME_SIZE \<and> c_string name \<and> length password \<le> PASSWORD_SIZE \<and> c_string password)"
| "client_ok (USER_MOVE_REQ_PACKET direction t) = (-128 \<le> direction \<and> direction < 128)"
| "client_ok (USER_TELEPORT_REQ_PACKET x y) =
     (-32768 \<le> x \<and> x < 32768 \<and> -32768 \<le> y \<and> y < 32768)"
| "client_ok (CS_CHAT_PACKET mess) = (length mess \<le> CHAT_SIZE \<and> c_string mess)"
| "client_ok _ = True"

lemma rd16_at: "length xs = n \<Longrightarrow> rd16 (xs @ le16 w @ ys) n = w"
  using rd16_append_left [of xs n "le16 w @ ys" 0] rd16_append_right [of 0 "le16 w" ys]
  by (simp add: le_length rd16_le16)

lemma rd32_at: "length xs = n \<Longrightarrow> rd32 (xs @ le32 w @ ys) n = w"
proof -
  assume "length xs = n"
  then have "rd32 (xs @ le32 w @ ys) n = rd32 (le32 w) 0"
    by (simp add: rd32_def rd16_def nth_append le_length numeral_eq_Suc)
  then show ?thesis
    by (simp add: rd32_le32)
qed

lemma sint_word_of_int_short: "-32768 \<le> i \<Longrightarrow> i < 32768 \<Longrightarrow> sint (word_of_int i :: uint16) = i"
  by (simp add: sint_sbintrunc' signed_take_bit_int_eq_self)

lemma sint_word_of_int_char: "-128 \<le> i \<Longrightarrow> i < 128 \<Longrightarrow> sint (word_of_int i :: uint8) = i"
  by (simp add: sint_sbintrunc' signed_take_bit_int_eq_self)

lemma rd_short_at:
  "length xs = n \<Longrightarrow> -32768 \<le> i \<Longrightarrow> i < 32768 \<Longrightarrow> rd_short (xs @ le_short i @ ys) n = i"
  by (simp add: rd_short_def le_short_def rd16_at sint_word_of_int_short)

lemma rd_string_at:
  "length xs = n \<Longrightarrow> length s \<le> k \<Longrightarrow> c_string s \<Longrightarrow> rd_string (xs @ char_array k s @ ys) n k = s"
  using rd_string_drop [of xs n "char_array k s @ ys" 0 k] by (simp add: rd_string_char_array)

lemma nth_at: "length xs = n \<Longrightarrow> (xs @ a # ys) ! n = a"
  by (simp add: nth_append)

lemmas header3 = length_InitializePacket

lemma header5: "length (InitializePacket t @ le16 a) = 5" "length (InitializePacket t @ le_short b) = 5"
  by (simp_all add: le_length)

lemma decode_encode_login:
  assumes "client_ok (USER_LOGIN_REQ_PACKET name password)"
  shows "decode (encode_client (USER_LOGIN_REQ_PACKET name password) @ rest) =
         Some (USER_LOGIN_REQ_PACKET name password)"
proof -
  let ?h = "InitializePacket USER_LOGIN_REQ" and ?n = "char_array NAME_SIZE name"
    and ?p = "char_array PASSWORD_SIZE password"
  have "rd_string (?h @ ?n @ ?p @ rest) 3 NAME_SIZE = name"
    using assms by (intro rd_string_at header3) simp_all
  moreover have "rd_string ((?h @ ?n) @ ?p @ rest) (3 + NAME_SIZE) PASSWORD_SIZE = password"
    using assms by (intro rd_string_at) (simp_all add: le_length)
  ultimately show ?thesis
    by (simp add: decode_def Let_def encode_client_def type_byte)
qed

lemma decode_encode_two:
  "rd16 (InitializePacket t @ le16 a @ le16 b @ rest) 3 = a"
  "rd16 (InitializePacket t @ le16 a @ le16 b @ rest) 5 = b"
  "rd16 (InitializePacket t @ le16 a @ rest) 3 = a"
  using rd16_at [OF header3, of t a "le16 b @ rest"] rd16_at [OF header5(1), of t a b rest]
    rd16_at [OF header3, of t a rest]
  by simp_all

lemma decode_encode_shorts:
  "-32768 \<le> x \<Longrightarrow> x < 32768 \<Longrightarrow> rd_short (InitializePacket t @ le_short x @ le_short y @ rest) 3 = x"
  "-32768 \<le> y \<Longrightarrow> y < 32768 \<Longrightarrow> rd_short (InitializePacket t @ le_short x @ le_short y @ rest) 5 = y"
  using rd_short_at [OF header3, of x t "le_short y @ rest"] rd_short_at [OF header5(2), of y t x rest]
  by simp_all

lemma decode_encode_move:
  "(InitializePacket t @ a # ys) ! 3 = a" "rd32 (InitializePacket t @ a # le32 w @ ys) 4 = w"
proof -
  show "(InitializePacket t @ a # ys) ! 3 = a"
    by (rule nth_at [OF header3])
  show "rd32 (InitializePacket t @ a # le32 w @ ys) 4 = w"
    using rd32_at [of "InitializePacket t @ [a]" 4 w ys] by (simp add: le_length)
qed

lemma decode_encode:
  assumes "client_ok p"
  shows "decode (encode_client p @ rest) = Some p"
proof (cases p)
  case (USER_LOGIN_REQ_PACKET name password)
  with assms show ?thesis
    using decode_encode_login by blast
next
  case (CS_CHAT_PACKET mess)
  have "rd_string (InitializePacket CS_CHAT @ char_array CHAT_SIZE mess @ rest) 3 CHAT_SIZE = mess"
    using assms CS_CHAT_PACKET by (intro rd_string_at header3) simp_all
  with CS_CHAT_PACKET show ?thesis
    by (simp add: decode_def Let_def encode_client_def type_byte type_val_inj)
qed (use assms in \<open>simp_all add: decode_def Let_def encode_client_def type_byte type_val_inj
      decode_encode_two decode_encode_shorts decode_encode_move sint_word_of_int_char\<close>)

end
