(* ===== verification/Sessions.thy ===== *)
theory Sessions
  imports Protocols
begin

text \<open>
  The sending half of a connection: \<^verbatim>\<open>PendingSendPacket\<close>, \<^verbatim>\<open>SendContext\<close> and the send queue
  of \<^verbatim>\<open>Network/GameSession.h\<close> and \<^verbatim>\<open>Network/GameSession.cpp\<close>.  The outcome of \<^verbatim>\<open>WSASend\<close>
  (\<open>False\<close> is an error other than \<^verbatim>\<open>WSA_IO_PENDING\<close>) and the number of bytes a completion
  reports are arguments.  The session mutex makes each operation atomic.  Byte counts are natural
  numbers: they are bounded by the 4096 bytes of the batch buffer.
\<close>

record PendingSendPacket =
  ps_size :: uint16
  ps_offset :: uint16
  ps_buffer :: "uint8 list"

record SendContext =
  sc_buffer :: "uint8 list"
  sc_packetCount :: nat

record GameSession =
  m_socket_open :: bool
  m_sendQueue :: "PendingSendPacket list"
  m_sendContext :: SendContext
  m_sendInFlight :: bool

definition ps_Assign :: "ServerPacket \<Rightarrow> PendingSendPacket option" where
  "ps_Assign p = do {
     ASSERT_CRASH (unat (rd16 (encode p) 0) \<le> MAX_SERVER_PACKET_SIZE);
     Some \<lparr>ps_size = rd16 (encode p) 0, ps_offset = 0, ps_buffer = encode p\<rparr> }"

definition RemainingSize :: "PendingSendPacket \<Rightarrow> uint16" where
  "RemainingSize ps = ps_size ps - ps_offset ps"

definition ps_Data :: "PendingSendPacket \<Rightarrow> uint8 list" where
  "ps_Data ps = drop (unat (ps_offset ps)) (ps_buffer ps)"

definition Consume :: "nat \<Rightarrow> PendingSendPacket \<Rightarrow> PendingSendPacket option" where
  "Consume bytes ps = do {
     ASSERT_CRASH (bytes \<le> unat (RemainingSize ps));
     Some (ps\<lparr>ps_offset := ps_offset ps + of_nat bytes\<rparr>) }"

definition ResetPayload :: SendContext where
  "ResetPayload = \<lparr>sc_buffer = [], sc_packetCount = 0\<rparr>"

definition AppendPacket :: "uint8 list \<Rightarrow> uint16 \<Rightarrow> SendContext \<Rightarrow> SendContext option" where
  "AppendPacket packet packetSize c =
     (if packetSize = 0 \<or> length (sc_buffer c) + unat packetSize > SEND_BATCH_BUFFER_SIZE then None
      else Some \<lparr>sc_buffer = sc_buffer c @ take (unat packetSize) packet,
                 sc_packetCount = sc_packetCount c + 1\<rparr>)"

fun append_all :: "PendingSendPacket list \<Rightarrow> SendContext \<Rightarrow> SendContext" where
  "append_all [] c = c"
| "append_all (ps # q) c =
     (case AppendPacket (ps_Data ps) (RemainingSize ps) c of
        None \<Rightarrow> c
      | Some c' \<Rightarrow> append_all q c')"

definition SubmitSendBatchImpl :: "bool \<Rightarrow> GameSession \<Rightarrow> bool \<times> GameSession" where
  "SubmitSendBatchImpl wsa s =
     (if \<not> m_socket_open s then (False, s)
      else if m_sendInFlight s then (True, s)
      else if m_sendQueue s = [] then (True, s)
      else let c = append_all (m_sendQueue s) ResetPayload in
           if sc_packetCount c = 0 then (False, s\<lparr>m_sendContext := c\<rparr>)
           else if wsa then (True, s\<lparr>m_sendContext := c, m_sendInFlight := True\<rparr>)
           else (False, s\<lparr>m_sendContext := ResetPayload, m_sendInFlight := False\<rparr>))"

definition PostSend :: "bool \<Rightarrow> ServerPacket \<Rightarrow> GameSession \<Rightarrow> (bool \<times> GameSession) option" where
  "PostSend wsa packet s =
     (if \<not> m_socket_open s then Some (False, s)
      else do {
        pending \<leftarrow> ps_Assign packet;
        let s = s\<lparr>m_sendQueue := m_sendQueue s @ [pending]\<rparr>;
        Some (if m_sendInFlight s then (True, s) else SubmitSendBatchImpl wsa s) })"

text \<open>The loop of \<^verbatim>\<open>HandleSendCompletion\<close>: the flag is \<open>False\<close> when the queue ends before the
  transferred bytes do.\<close>

fun consume_loop :: "nat \<Rightarrow> PendingSendPacket list \<Rightarrow> (bool \<times> PendingSendPacket list) option" where
  "consume_loop remaining [] = Some (remaining = 0, [])"
| "consume_loop remaining (ps # q) =
     (if remaining = 0 then Some (True, ps # q)
      else let pendingBytes = unat (RemainingSize ps) in
           if remaining < pendingBytes
           then do { ps' \<leftarrow> Consume remaining ps; Some (True, ps' # q) }
           else consume_loop (remaining - pendingBytes) q)"

definition HandleSendCompletion :: "bool \<Rightarrow> nat \<Rightarrow> GameSession \<Rightarrow> (bool \<times> GameSession) option" where
  "HandleSendCompletion wsa bytesTransferred s =
     (if bytesTransferred > length (sc_buffer (m_sendContext s)) then Some (False, s)
      else do {
        (ok, q) \<leftarrow> consume_loop bytesTransferred (m_sendQueue s);
        if \<not> ok then Some (False, s\<lparr>m_sendQueue := q\<rparr>)
        else let s = s\<lparr>m_sendQueue := q, m_sendContext := ResetPayload, m_sendInFlight := False\<rparr> in
             Some (if \<not> m_socket_open s \<or> m_sendQueue s = [] then (True, s)
                   else SubmitSendBatchImpl wsa s) })"

definition HandleSendFailure :: "GameSession \<Rightarrow> GameSession" where
  "HandleSendFailure s = s\<lparr>m_sendQueue := [], m_sendContext := ResetPayload, m_sendInFlight := False\<rparr>"

definition CloseSocketImpl :: "GameSession \<Rightarrow> GameSession" where
  "CloseSocketImpl s = s\<lparr>m_sendQueue := [], m_socket_open := False\<rparr>"

definition ResetNetworkState :: GameSession where
  "ResetNetworkState = \<lparr>m_socket_open = False, m_sendQueue = [], m_sendContext = ResetPayload,
     m_sendInFlight = False\<rparr>"

definition AttachSocket :: "bool \<Rightarrow> GameSession \<Rightarrow> bool \<times> GameSession" where
  "AttachSocket valid s =
     (let s = CloseSocketImpl s in
      if \<not> valid then (False, s) else (True, s\<lparr>m_socket_open := True\<rparr>))"

subsection \<open>The bytes still to be sent\<close>

definition ps_ok :: "PendingSendPacket \<Rightarrow> bool" where
  "ps_ok ps \<longleftrightarrow> unat (ps_size ps) = length (ps_buffer ps) \<and> unat (ps_offset ps) < unat (ps_size ps) \<and>
     unat (ps_size ps) \<le> MAX_SERVER_PACKET_SIZE"

definition unsent :: "PendingSendPacket list \<Rightarrow> uint8 list" where
  "unsent q = concat (map ps_Data q)"

definition session_ok :: "GameSession \<Rightarrow> bool" where
  "session_ok s \<longleftrightarrow> m_socket_open s \<and> (\<forall>ps \<in> set (m_sendQueue s). ps_ok ps) \<and>
     (m_sendInFlight s \<longrightarrow> sc_buffer (m_sendContext s) \<noteq> [] \<and>
        (\<exists>rest. unsent (m_sendQueue s) = sc_buffer (m_sendContext s) @ rest))"

lemma ps_ok_remaining:
  assumes "ps_ok ps"
  shows "unat (RemainingSize ps) = length (ps_Data ps)" "0 < length (ps_Data ps)"
    "length (ps_Data ps) \<le> 214"
proof -
  have "ps_offset ps \<le> ps_size ps"
    using assms by (simp add: ps_ok_def unat_simps)
  then show r: "unat (RemainingSize ps) = length (ps_Data ps)"
    using assms by (simp add: RemainingSize_def ps_Data_def unat_diff ps_ok_def)
  show "0 < length (ps_Data ps)"
    using assms by (simp add: ps_ok_def ps_Data_def)
  have "length (ps_Data ps) \<le> length (ps_buffer ps)"
    by (simp add: ps_Data_def)
  also have "\<dots> \<le> 214"
    using assms by (simp add: ps_ok_def packet_size_consts)
  finally show "length (ps_Data ps) \<le> 214" .
qed

lemma ps_Assign_ok:
  "\<exists>ps. ps_Assign p = Some ps \<and> ps_ok ps \<and> ps_Data ps = encode p"
proof -
  have u: "unat (rd16 (encode p) 0) = sizeof_packet (packet_type p)"
    using sizeof_server(2) [of p] by (simp add: encode_def header_size)
  then show ?thesis
    using sizeof_server [of p]
    by (auto simp: ps_Assign_def crash_simps packet_size_consts ps_ok_def ps_Data_def length_encode)
qed

lemma Consume_ok:
  assumes "ps_ok ps" "n < length (ps_Data ps)"
  shows "\<exists>ps'. Consume n ps = Some ps' \<and> ps_ok ps' \<and> ps_Data ps' = drop n (ps_Data ps)"
proof -
  have b: "unat (ps_offset ps) + n < unat (ps_size ps)" "unat (ps_size ps) = length (ps_buffer ps)"
    "unat (ps_size ps) \<le> MAX_SERVER_PACKET_SIZE"
    using assms by (simp_all add: ps_ok_def ps_Data_def)
  have n: "n < 65536" and "unat (ps_size ps) < 65536"
    using b(1) unat16_bound [of "ps_size ps"] by simp_all
  then have "unat (ps_offset ps + of_nat n) = unat (ps_offset ps) + n"
    using b(1) by (simp add: unat_add_noof unat_of_nat_noof)
  then show ?thesis
    using b n assms ps_ok_remaining(1) [OF assms(1)]
    by (simp add: Consume_def crash_simps ps_ok_def ps_Data_def add.commute)
qed

lemma consume_loop_ok:
  "\<forall>ps \<in> set q. ps_ok ps \<Longrightarrow> n \<le> length (unsent q) \<Longrightarrow>
   \<exists>q'. consume_loop n q = Some (True, q') \<and> (\<forall>ps \<in> set q'. ps_ok ps) \<and> unsent q' = drop n (unsent q)"
proof (induction q arbitrary: n)
  case (Cons ps q)
  have ok: "ps_ok ps" "\<forall>ps \<in> set q. ps_ok ps"
    using Cons.prems by simp_all
  show ?case
  proof (cases "n < length (ps_Data ps)")
    case True
    from Consume_ok [OF ok(1) True] obtain ps' where
      "Consume n ps = Some ps'" "ps_ok ps'" "ps_Data ps' = drop n (ps_Data ps)"
      by blast
    with True ok ps_ok_remaining(1) [OF ok(1)] show ?thesis
      by (auto simp: unsent_def)
  next
    case False
    then have "n - length (ps_Data ps) \<le> length (unsent q)"
      using Cons.prems(2) by (simp add: unsent_def)
    from Cons.IH [OF ok(2) this] obtain q' where
      "consume_loop (n - length (ps_Data ps)) q = Some (True, q')" "\<forall>ps \<in> set q'. ps_ok ps"
      "unsent q' = drop (n - length (ps_Data ps)) (unsent q)"
      by blast
    moreover have "0 < n"
      using False ps_ok_remaining(2) [OF ok(1)] by linarith
    ultimately show ?thesis
      using False ps_ok_remaining(1) [OF ok(1)] by (simp add: unsent_def Let_def)
  qed
qed (simp add: unsent_def)

lemma append_all_prefix:
  "\<forall>ps \<in> set q. ps_ok ps \<Longrightarrow>
   \<exists>k \<le> length q. sc_buffer (append_all q c) = sc_buffer c @ unsent (take k q) \<and>
      sc_packetCount (append_all q c) = sc_packetCount c + k"
proof (induction q arbitrary: c)
  case (Cons ps q)
  show ?case
  proof (cases "AppendPacket (ps_Data ps) (RemainingSize ps) c")
    case None
    then show ?thesis
      by (intro exI [of _ 0]) (simp add: unsent_def)
  next
    case (Some c')
    then have c': "sc_buffer c' = sc_buffer c @ ps_Data ps" "sc_packetCount c' = sc_packetCount c + 1"
      using ps_ok_remaining(1) [of ps] Cons.prems by (auto simp: AppendPacket_def split: if_splits)
    from Cons.IH [of c'] Cons.prems obtain k where
      "k \<le> length q" "sc_buffer (append_all q c') = sc_buffer c' @ unsent (take k q)"
      "sc_packetCount (append_all q c') = sc_packetCount c' + k"
      by auto
    with Some c' show ?thesis
      by (intro exI [of _ "Suc k"]) (simp add: unsent_def)
  qed
qed (simp add: unsent_def)

lemma append_all_progress:
  assumes "\<forall>ps \<in> set q. ps_ok ps" "q \<noteq> []"
  shows "\<exists>k > 0. k \<le> length q \<and> sc_buffer (append_all q ResetPayload) = unsent (take k q) \<and>
      sc_packetCount (append_all q ResetPayload) = k"
proof -
  obtain ps q' where q: "q = ps # q'"
    using assms(2) by (cases q) auto
  then have ok: "ps_ok ps"
    using assms(1) by simp
  note r = ps_ok_remaining [OF ok]
  define c where "c = \<lparr>sc_buffer = ps_Data ps, sc_packetCount = 1\<rparr>"
  have "RemainingSize ps \<noteq> 0"
    using r(1,2) by (metis less_numeral_extra(3) unat_0)
  then have "AppendPacket (ps_Data ps) (RemainingSize ps) ResetPayload = Some c"
    using r by (simp add: AppendPacket_def ResetPayload_def proto_consts c_def)
  then have "append_all q ResetPayload = append_all q' c"
    by (simp add: q)
  moreover obtain k where "k \<le> length q'"
    "sc_buffer (append_all q' c) = ps_Data ps @ unsent (take k q')"
    "sc_packetCount (append_all q' c) = 1 + k"
    using append_all_prefix [of q' c] assms(1) by (auto simp: q c_def)
  ultimately show ?thesis
    by (intro exI [of _ "Suc k"]) (simp add: q unsent_def)
qed

lemma unsent_append [simp]: "unsent (a @ b) = unsent a @ unsent b"
  by (simp add: unsent_def)

lemma unsent_take: "\<exists>rest. unsent q = unsent (take k q) @ rest"
  by (metis append_take_drop_id unsent_append)

lemma unsent_take_not_empty:
  assumes "\<forall>ps \<in> set q. ps_ok ps" "0 < k" "k \<le> length q"
  shows "unsent (take k q) \<noteq> []"
proof -
  obtain ps q' where "q = ps # q'"
    using assms(2,3) by (cases q) auto
  then show ?thesis
    using assms ps_ok_remaining(2) [of ps] by (cases k) (auto simp: unsent_def)
qed

lemma Submit_ok:
  assumes "session_ok s"
  shows "session_ok (snd (SubmitSendBatchImpl wsa s))"
    and "m_sendQueue (snd (SubmitSendBatchImpl wsa s)) = m_sendQueue s"
proof -
  have ok: "\<forall>ps \<in> set (m_sendQueue s). ps_ok ps"
    using assms by (simp add: session_ok_def)
  show "m_sendQueue (snd (SubmitSendBatchImpl wsa s)) = m_sendQueue s"
    by (simp add: SubmitSendBatchImpl_def Let_def)
  show "session_ok (snd (SubmitSendBatchImpl wsa s))"
  proof (cases "m_sendInFlight s \<or> m_sendQueue s = []")
    case True
    then show ?thesis
      using assms by (auto simp: SubmitSendBatchImpl_def)
  next
    case False
    then obtain k where "k > 0" "k \<le> length (m_sendQueue s)"
      "sc_buffer (append_all (m_sendQueue s) ResetPayload) = unsent (take k (m_sendQueue s))"
      "sc_packetCount (append_all (m_sendQueue s) ResetPayload) = k"
      using append_all_progress [OF ok] by blast
    then show ?thesis
      using assms False unsent_take_not_empty [OF ok, of k] unsent_take [of "m_sendQueue s" k]
      by (simp add: SubmitSendBatchImpl_def Let_def session_ok_def)
  qed
qed

subsection \<open>Runs of a connection\<close>

text \<open>Packets posted by the game logic and completions reported by the port, interleaved; the
  second component collects the bytes the peer has received.  The port reports a completion only
  for a send in flight, with a positive count within the submitted buffer.\<close>

datatype NetAction = Post ServerPacket bool | Complete nat bool

fun net_step :: "NetAction \<Rightarrow> GameSession \<times> uint8 list \<Rightarrow> (GameSession \<times> uint8 list) option" where
  "net_step (Post p wsa) (s, wire) = do { (_, s') \<leftarrow> PostSend wsa p s; Some (s', wire) }"
| "net_step (Complete n wsa) (s, wire) =
     (if m_sendInFlight s \<and> 0 < n \<and> n \<le> length (sc_buffer (m_sendContext s))
      then do { (_, s') \<leftarrow> HandleSendCompletion wsa n s;
                Some (s', wire @ take n (sc_buffer (m_sendContext s))) }
      else Some (s, wire))"

fun net_run :: "NetAction list \<Rightarrow> GameSession \<times> uint8 list \<Rightarrow> (GameSession \<times> uint8 list) option" where
  "net_run [] st = Some st"
| "net_run (a # as) st = do { st' \<leftarrow> net_step a st; net_run as st' }"

fun posted :: "NetAction list \<Rightarrow> ServerPacket list" where
  "posted [] = []"
| "posted (Post p _ # as) = p # posted as"
| "posted (Complete _ _ # as) = posted as"

lemma PostSend_ok:
  assumes "session_ok s"
  shows "\<exists>r s'. PostSend wsa p s = Some (r, s') \<and> session_ok s' \<and>
    unsent (m_sendQueue s') = unsent (m_sendQueue s) @ encode p"
proof -
  obtain ps where ps: "ps_Assign p = Some ps" "ps_ok ps" "ps_Data ps = encode p"
    using ps_Assign_ok by blast
  let ?s = "s\<lparr>m_sendQueue := m_sendQueue s @ [ps]\<rparr>"
  have ok: "session_ok ?s"
    using assms ps(2) by (auto simp: session_ok_def)
  have u: "unsent (m_sendQueue ?s) = unsent (m_sendQueue s) @ encode p"
    by (simp add: unsent_def ps(3))
  have "m_socket_open s"
    using assms by (simp add: session_ok_def)
  then have e: "PostSend wsa p s =
      Some (if m_sendInFlight ?s then (True, ?s) else SubmitSendBatchImpl wsa ?s)"
    by (simp add: PostSend_def ps(1))
  show ?thesis
  proof (cases "m_sendInFlight ?s")
    case True
    with e ok u show ?thesis
      by auto
  next
    case False
    obtain r s' where r: "SubmitSendBatchImpl wsa ?s = (r, s')"
      by (cases "SubmitSendBatchImpl wsa ?s")
    with False e Submit_ok [OF ok, of wsa] u show ?thesis
      by auto
  qed
qed

lemma Completion_ok:
  assumes "session_ok s" "m_sendInFlight s" "n \<le> length (sc_buffer (m_sendContext s))"
  shows "\<exists>s' r. HandleSendCompletion wsa n s = Some (r, s') \<and> session_ok s' \<and>
    take n (sc_buffer (m_sendContext s)) @ unsent (m_sendQueue s') = unsent (m_sendQueue s) \<and>
    (wsa \<longrightarrow> m_sendInFlight s' \<or> m_sendQueue s' = [])"
proof -
  obtain rest where rest: "unsent (m_sendQueue s) = sc_buffer (m_sendContext s) @ rest"
    and ok: "\<forall>ps \<in> set (m_sendQueue s). ps_ok ps" and open_s: "m_socket_open s"
    using assms by (auto simp: session_ok_def)
  have "n \<le> length (unsent (m_sendQueue s))"
    using assms(3) rest by simp
  from consume_loop_ok [OF ok this] obtain q where
    q: "consume_loop n (m_sendQueue s) = Some (True, q)" "\<forall>ps \<in> set q. ps_ok ps"
      "unsent q = drop n (unsent (m_sendQueue s))"
    by blast
  let ?s = "s\<lparr>m_sendQueue := q, m_sendContext := ResetPayload, m_sendInFlight := False\<rparr>"
  have okq: "session_ok ?s"
    using open_s q(2) by (simp add: session_ok_def)
  have split: "take n (sc_buffer (m_sendContext s)) @ unsent q = unsent (m_sendQueue s)"
    using assms(3) q(3) rest by simp
  have e: "HandleSendCompletion wsa n s =
      Some (if q = [] then (True, ?s) else SubmitSendBatchImpl wsa ?s)"
    using assms(3) q(1) open_s by (simp add: HandleSendCompletion_def Let_def)
  show ?thesis
  proof (cases "q = []")
    case True
    with e okq split show ?thesis
      by auto
  next
    case False
    have "m_sendInFlight (snd (SubmitSendBatchImpl True ?s))"
      using append_all_progress [OF q(2) False] False open_s
      by (auto simp: SubmitSendBatchImpl_def Let_def)
    then have fl: "wsa \<longrightarrow> m_sendInFlight (snd (SubmitSendBatchImpl wsa ?s))"
      by (cases wsa) simp_all
    obtain r s' where r: "SubmitSendBatchImpl wsa ?s = (r, s')"
      by (cases "SubmitSendBatchImpl wsa ?s")
    with False e Submit_ok [OF okq, of wsa] split fl show ?thesis
      by auto
  qed
qed

lemma net_step_ok:
  assumes "session_ok s"
  shows "\<exists>s' wire'. net_step a (s, wire) = Some (s', wire') \<and> session_ok s' \<and>
    wire' @ unsent (m_sendQueue s') = wire @ unsent (m_sendQueue s) @ concat (map encode (posted [a]))"
proof (cases a)
  case (Post p wsa)
  then show ?thesis
    using PostSend_ok [OF assms, of wsa p] by auto
next
  case (Complete n wsa)
  show ?thesis
  proof (cases "m_sendInFlight s \<and> 0 < n \<and> n \<le> length (sc_buffer (m_sendContext s))")
    case True
    with Completion_ok [OF assms, of n wsa] obtain s' r where
      "HandleSendCompletion wsa n s = Some (r, s')" "session_ok s'"
      "take n (sc_buffer (m_sendContext s)) @ unsent (m_sendQueue s') = unsent (m_sendQueue s)"
      by blast
    with True Complete show ?thesis
      by simp
  next
    case False
    then have "net_step a (s, wire) = Some (s, wire)"
      unfolding Complete net_step.simps by (rule if_not_P)
    with Complete assms show ?thesis
      by simp
  qed
qed

lemma posted_Cons: "posted (a # as) = posted [a] @ posted as"
  by (cases a) simp_all

lemma net_run_ok:
  "session_ok s \<Longrightarrow> \<exists>s' wire'. net_run as (s, wire) = Some (s', wire') \<and> session_ok s' \<and>
    wire' @ unsent (m_sendQueue s') = wire @ unsent (m_sendQueue s) @ concat (map encode (posted as))"
proof (induction as arbitrary: s wire)
  case (Cons a as)
  obtain s1 w1 where 1: "net_step a (s, wire) = Some (s1, w1)" "session_ok s1"
    "w1 @ unsent (m_sendQueue s1) = wire @ unsent (m_sendQueue s) @ concat (map encode (posted [a]))"
    using net_step_ok [OF Cons.prems] by blast
  obtain s2 w2 where 2: "net_run as (s1, w1) = Some (s2, w2)" "session_ok s2"
    "w2 @ unsent (m_sendQueue s2) = w1 @ unsent (m_sendQueue s1) @ concat (map encode (posted as))"
    using Cons.IH [OF 1(2)] by blast
  have "w2 @ unsent (m_sendQueue s2) =
      wire @ unsent (m_sendQueue s) @ concat (map encode (posted (a # as)))"
    unfolding posted_Cons [of a as] using 1(3) 2(3) by (simp flip: append_assoc)
  with 1 2 show ?case
    by simp
qed simp

text \<open>When every send is accepted and completes in full, everything posted arrives.\<close>

fun complete_all :: "nat \<Rightarrow> GameSession \<times> uint8 list \<Rightarrow> (GameSession \<times> uint8 list) option" where
  "complete_all 0 st = Some st"
| "complete_all (Suc k) (s, wire) = do {
     st' \<leftarrow> net_step (Complete (length (sc_buffer (m_sendContext s))) True) (s, wire);
     complete_all k st' }"

lemma complete_all_idle: "\<not> m_sendInFlight s \<Longrightarrow> complete_all k (s, wire) = Some (s, wire)"
  by (induction k) simp_all

lemma complete_all_drains:
  "session_ok s \<Longrightarrow> m_sendInFlight s \<Longrightarrow> length (unsent (m_sendQueue s)) \<le> k \<Longrightarrow>
   \<exists>s'. complete_all k (s, wire) = Some (s', wire @ unsent (m_sendQueue s)) \<and> m_sendQueue s' = []"
proof (induction k arbitrary: s wire)
  case 0
  then show ?case
    by (auto simp: session_ok_def)
next
  case (Suc k)
  let ?b = "sc_buffer (m_sendContext s)"
  have b: "?b \<noteq> []"
    using Suc.prems by (simp add: session_ok_def)
  obtain s' r where s': "HandleSendCompletion True (length ?b) s = Some (r, s')" "session_ok s'"
    "?b @ unsent (m_sendQueue s') = unsent (m_sendQueue s)"
    "m_sendInFlight s' \<or> m_sendQueue s' = []"
    using Completion_ok [OF Suc.prems(1,2), of "length ?b" True] by auto
  have st: "complete_all (Suc k) (s, wire) = complete_all k (s', wire @ ?b)"
    using Suc.prems(2) b s'(1) by simp
  show ?case
  proof (cases "m_sendInFlight s'")
    case True
    have "length (unsent (m_sendQueue s')) \<le> k"
    proof -
      have "length ?b + length (unsent (m_sendQueue s')) = length (unsent (m_sendQueue s))"
        by (metis s'(3) length_append)
      moreover have "0 < length ?b"
        using b by simp
      ultimately show ?thesis
        using Suc.prems(3) by linarith
    qed
    from Suc.IH [OF s'(2) True this] st s'(3) show ?thesis
      by (metis append_assoc)
  next
    case False
    with s'(3,4) show ?thesis
      unfolding st complete_all_idle [OF False] by (auto simp: unsent_def)
  qed
qed

end
