(* ===== verification/Streams.thy ===== *)
theory Streams
  imports Protocols "HOL-Library.Sublist"
begin

text \<open>
  Streams of packets.  Three programs cut a byte stream into packets by the size in the header: the
  workers of the server, the game client and the load generator.  The locale \<open>packet_stream\<close> is what
  they rely on in the format; \<open>packet_receiver\<close> adds a program that is handed the stream in chunks, with
  the one law that a chunk delivers the packets it completes and keeps the rest.  Whatever the chunks
  are, the packets are then delivered in order, each once.
\<close>

text \<open>A buffer that holds the beginning of the next packet.\<close>

definition tail_of :: "('p \<Rightarrow> uint8 list) \<Rightarrow> 'p list \<Rightarrow> uint8 list \<Rightarrow> bool" where
  "tail_of enc qs part \<longleftrightarrow> (qs = [] \<and> part = []) \<or> (\<exists>q qs'. qs = q # qs' \<and> strict_prefix part (enc q))"

locale packet_stream =
  fixes enc :: "'p \<Rightarrow> uint8 list"
  assumes size_field: "unat (rd16 (enc p @ ys) 0) = length (enc p)"
    and size_min: "3 \<le> length (enc p)"
begin

lemma tail_of_start: "tail_of enc qs []"
proof (cases qs)
  case (Cons q qs')
  have "strict_prefix [] (enc q)"
    using size_min [of q] by (cases "enc q") auto
  with Cons show ?thesis
    by (auto simp: tail_of_def)
qed (simp add: tail_of_def)

lemma partial_size:
  assumes "strict_prefix part (enc p)" "2 \<le> length part"
  shows "unat (rd16 part 0) = length (enc p)" "length part < length (enc p)"
proof -
  obtain rest where rest: "enc p = part @ rest" "rest \<noteq> []"
    using assms(1) by (auto simp: strict_prefix_def prefix_def)
  have "rd16 (part @ rest) 0 = rd16 part 0"
    using assms(2) by (intro rd16_append_right) simp
  then show "unat (rd16 part 0) = length (enc p)" "length part < length (enc p)"
    using size_field [of p "[]"] rest by simp_all
qed

text \<open>Every prefix of a stream is some packets and the beginning of the next.\<close>

lemma stream_split:
  assumes "prefix d (concat (map enc ps))"
  shows "\<exists>k part. k \<le> length ps \<and> d = concat (map enc (take k ps)) @ part \<and> tail_of enc (drop k ps) part"
  using assms
proof (induction ps arbitrary: d)
  case Nil
  then show ?case
    by (simp add: tail_of_def)
next
  case (Cons p ps)
  show ?case
  proof (cases "prefix (enc p) d")
    case True
    then obtain d' where d: "d = enc p @ d'"
      by (auto simp: prefix_def)
    with Cons.prems have "prefix d' (concat (map enc ps))"
      by simp
    from Cons.IH [OF this] obtain k part where
      "k \<le> length ps" "d' = concat (map enc (take k ps)) @ part" "tail_of enc (drop k ps) part"
      by blast
    with d show ?thesis
      by (intro exI [of _ "Suc k"] exI [of _ part]) simp
  next
    case False
    have "prefix d (enc p) \<or> prefix (enc p) d"
      using Cons.prems prefix_same_cases [of d "concat (map enc (p # ps))" "enc p"]
      by (simp add: prefix_def)
    with False have "strict_prefix d (enc p)"
      by (auto simp: strict_prefix_def)
    then show ?thesis
      by (intro exI [of _ 0]) (simp add: tail_of_def)
  qed
qed

lemma stream_at: "concat (map enc ps) = concat (map enc (take k ps)) @ concat (map enc (drop k ps))"
  by (metis append_take_drop_id concat_append map_append)

lemma prefix_drop_stream:
  assumes "concat (map enc (take k qs)) @ rest = d" "prefix (d @ more_d) (concat (map enc qs))"
  shows "prefix (rest @ more_d) (concat (map enc (drop k qs)))"
  using assms stream_at [of qs k] by (auto simp flip: assms(1))

lemma stream_complete:
  assumes "k \<le> length qs" "tail_of enc (drop k qs) part" "concat (map enc qs) = concat (map enc (take k qs)) @ part"
  shows "k = length qs \<and> part = []"
proof (cases "drop k qs")
  case Nil
  with assms show ?thesis
    by (simp add: tail_of_def)
next
  case (Cons q qs')
  with assms(3) stream_at [of qs k] have "part = enc q @ concat (map enc qs')"
    by simp
  with assms(2) Cons have False
    by (auto simp: tail_of_def strict_prefix_def prefix_def)
  then show ?thesis ..
qed

end

text \<open>A run of receives.  A chunk may carry more than its bytes, such as the time it was received.\<close>

fun recv_chunks :: "('c \<Rightarrow> 's \<Rightarrow> 's option) \<Rightarrow> 'c list \<Rightarrow> 's \<Rightarrow> 's option" where
  "recv_chunks recv [] s = Some s"
| "recv_chunks recv (d # ds) s = (case recv d s of None \<Rightarrow> None | Some s' \<Rightarrow> recv_chunks recv ds s')"

locale packet_receiver = packet_stream enc
  for enc :: "'p \<Rightarrow> uint8 list" +
  fixes recv :: "'c \<Rightarrow> 's \<Rightarrow> 's option"
    and bytes :: "'c \<Rightarrow> uint8 list"
    and holds :: "'s \<Rightarrow> uint8 list \<Rightarrow> bool"
    and delivers :: "'s \<Rightarrow> 'p list \<Rightarrow> 's \<Rightarrow> bool"
    and chunk_ok :: "'c \<Rightarrow> bool"
    and packet_ok :: "'p \<Rightarrow> bool"
  assumes recv_law: "holds s part \<Longrightarrow> chunk_ok d \<Longrightarrow> \<forall>p \<in> set ps. packet_ok p \<Longrightarrow> part @ bytes d = concat (map enc ps) @ rest \<Longrightarrow>
      tail_of enc (ps @ qs) part \<Longrightarrow> tail_of enc qs rest \<Longrightarrow>
      \<exists>s'. recv d s = Some s' \<and> holds s' rest \<and> delivers s ps s'"
    and deliver_none: "delivers s [] s"
    and deliver_more: "delivers s ps s' \<Longrightarrow> delivers s' qs s'' \<Longrightarrow> delivers s (ps @ qs) s''"
begin

lemma recv_chunks_prefix:
  assumes "holds s part" "\<forall>d \<in> set ds. chunk_ok d" "prefix (part @ concat (map bytes ds)) (concat (map enc ps))"
    "tail_of enc ps part" "\<forall>p \<in> set ps. packet_ok p"
  shows "\<exists>k s' rest. k \<le> length ps \<and> recv_chunks recv ds s = Some s' \<and> holds s' rest \<and> delivers s (take k ps) s' \<and>
    part @ concat (map bytes ds) = concat (map enc (take k ps)) @ rest \<and> tail_of enc (drop k ps) rest"
  using assms
proof (induction ds arbitrary: s part ps)
  case Nil
  then show ?case
    using deliver_none by (intro exI [of _ 0] exI [of _ s] exI [of _ part]) simp
next
  case (Cons d ds)
  have pre: "prefix ((part @ bytes d) @ concat (map bytes ds)) (concat (map enc ps))"
    using Cons.prems(3) by simp
  obtain k rest where k: "k \<le> length ps" "part @ bytes d = concat (map enc (take k ps)) @ rest" "tail_of enc (drop k ps) rest"
    using stream_split [OF append_prefixD [OF pre]] by blast
  obtain s1 where 1: "recv d s = Some s1" "holds s1 rest" "delivers s (take k ps) s1"
    using recv_law [OF Cons.prems(1) _ _ k(2) _ k(3)] Cons.prems(2,4,5) by (auto dest: in_set_takeD)
  have "prefix (rest @ concat (map bytes ds)) (concat (map enc (drop k ps)))"
    by (rule prefix_drop_stream [OF k(2) [symmetric] pre])
  moreover have "\<forall>p \<in> set (drop k ps). packet_ok p" "\<forall>d \<in> set ds. chunk_ok d"
    using Cons.prems(2,5) by (auto dest: in_set_dropD)
  ultimately obtain k2 s2 rest2 where 2: "k2 \<le> length (drop k ps)" "recv_chunks recv ds s1 = Some s2" "holds s2 rest2"
    "delivers s1 (take k2 (drop k ps)) s2" "rest @ concat (map bytes ds) = concat (map enc (take k2 (drop k ps))) @ rest2"
    "tail_of enc (drop k2 (drop k ps)) rest2"
    using Cons.IH [OF 1(2) _ _ k(3)] by auto
  have tk: "take (k + k2) ps = take k ps @ take k2 (drop k ps)" and dk: "drop (k + k2) ps = drop k2 (drop k ps)"
    by (rule take_add) (simp add: add.commute)
  have "part @ concat (map bytes (d # ds)) = concat (map enc (take k ps)) @ rest @ concat (map bytes ds)"
    using k(2) by (simp flip: append_assoc)
  then show ?case
    using k(1) 1(1) 2 deliver_more [OF 1(3) 2(4)]
    by (intro exI [of _ "k + k2"] exI [of _ s2] exI [of _ rest2]) (simp add: tk dk)
qed

lemma recv_chunks_exact:
  assumes "holds s []" "\<forall>d \<in> set ds. chunk_ok d" "concat (map bytes ds) = concat (map enc ps)"
    "\<forall>p \<in> set ps. packet_ok p"
  shows "\<exists>s'. recv_chunks recv ds s = Some s' \<and> holds s' [] \<and> delivers s ps s'"
proof -
  obtain k s' rest where r: "k \<le> length ps" "recv_chunks recv ds s = Some s'" "holds s' rest" "delivers s (take k ps) s'"
    "[] @ concat (map bytes ds) = concat (map enc (take k ps)) @ rest" "tail_of enc (drop k ps) rest"
    using recv_chunks_prefix [OF assms(1,2) _ tail_of_start assms(4)] assms(3) by fastforce
  have "concat (map enc ps) = concat (map enc (take k ps)) @ rest"
    using r(5) assms(3) by (metis append_Nil)
  then have "k = length ps \<and> rest = []"
    by (rule stream_complete [OF r(1,6)])
  then have "holds s' []" "delivers s ps s'"
    using r(3,4) by simp_all
  with r(2) show ?thesis
    by blast
qed

end

end
