(* ===== verification/Framing.thy ===== *)
theory Framing
  imports Sessions Streams
begin

text \<open>
  The receiving half of a connection: the \<^verbatim>\<open>IO_RECV\<close> branch of \<^verbatim>\<open>WorkerThread::DoWork\<close>, the
  pool of dispatch jobs and \<^verbatim>\<open>EnqueuePacketDispatch\<close> of \<^verbatim>\<open>Thread/WorkerThread.cpp\<close>.  The bytes
  kept in the receive buffer are the list \<open>pending\<close> (its length is \<^verbatim>\<open>m_pendingRecvBytes\<close>).
  \<^verbatim>\<open>memcpy\<close> of the unconsumed bytes to the front of the same buffer is modelled as the copy it
  is meant to be.  The routing zone of the session is read once per packet, so it is a function of
  the number of packets dispatched by the call.
\<close>

record NetWorker =
  nw_pool :: "uint8 list list"
  nw_zm :: ZoneManager

definition Acquire :: "uint8 list list \<Rightarrow> uint8 list \<times> uint8 list list" where
  "Acquire freeList =
     (case freeList of job # rest \<Rightarrow> (job, rest)
      | [] \<Rightarrow> (replicate MAX_CLIENT_PACKET_SIZE 0, []))"

definition Release :: "uint8 list \<Rightarrow> uint8 list list \<Rightarrow> uint8 list list" where
  "Release job freeList = job # freeList"

text \<open>\<open>None\<close> is the result \<^verbatim>\<open>false\<close>.\<close>

definition EnqueuePacketDispatch ::
    "ZoneId option \<Rightarrow> SessionId \<Rightarrow> uint8 list \<Rightarrow> nat \<Rightarrow> NetWorker \<Rightarrow> NetWorker option" where
  "EnqueuePacketDispatch routing session packet packetSize w =
     (if packetSize = 0 \<or> packetSize > MAX_CLIENT_PACKET_SIZE then None
      else case Acquire (nw_pool w) of (job, pool) \<Rightarrow>
        let job = take packetSize packet @ drop packetSize job in
        Some (w\<lparr>nw_pool := pool,
                nw_zm := EnqueueBySession routing (TPacket session job) (nw_zm w)\<rparr>))"

function recv_loop ::
    "(nat \<Rightarrow> ZoneId option) \<Rightarrow> SessionId \<Rightarrow> nat \<Rightarrow> uint8 list \<Rightarrow> NetWorker \<Rightarrow> bool \<times> uint8 list \<times> NetWorker" where
  "recv_loop routing session i p w =
     (if length p = 0 then (False, p, w)
      else if length p < 2 then (False, p, w)
      else let packetSize = unat (rd16 p 0) in
           if packetSize = 0 then (False, p, w)
           else if packetSize > length p then (False, p, w)
           else case EnqueuePacketDispatch (routing i) session p packetSize w of
                  None \<Rightarrow> (True, p, w)
                | Some w' \<Rightarrow> recv_loop routing session (Suc i) (drop packetSize p) w')"
  by pat_completeness auto
termination
  by (relation "measure (\<lambda>(_, _, _, p, _). length p)") auto

declare recv_loop.simps [simp del]

definition EnqueueDisconnect :: "ObjID option \<Rightarrow> SessionId \<Rightarrow> ZoneManager \<Rightarrow> ZoneManager" where
  "EnqueueDisconnect owner session zm =
     (case owner of
        Some objId \<Rightarrow> EnqueueByObject objId (TDisconnect objId) zm
      | None \<Rightarrow> Enqueue (TCloseSession session) zm)"

text \<open>The result is the bytes kept for the next receive, or \<open>None\<close> after a disconnect.\<close>

definition HandleRecv ::
    "(nat \<Rightarrow> ZoneId option) \<Rightarrow> ObjID option \<Rightarrow> SessionId \<Rightarrow> bool \<Rightarrow> uint8 list \<Rightarrow> uint8 list \<Rightarrow> NetWorker \<Rightarrow>
     uint8 list option \<times> NetWorker" where
  "HandleRecv routing owner session postRecv received pending w =
     (case recv_loop routing session 0 (pending @ received) w of (shouldDisconnect, rest, w) \<Rightarrow>
        if shouldDisconnect
        then (None, w\<lparr>nw_zm := EnqueueDisconnect owner session (nw_zm w)\<rparr>)
        else if \<not> postRecv
        then (None, w\<lparr>nw_zm := EnqueueDisconnect owner session (nw_zm w)\<rparr>)
        else (Some rest, w))"

text \<open>A run of receives: each call brings a chunk and finds some free jobs in the pool.\<close>

fun recv_run ::
    "ZoneId \<Rightarrow> ObjID option \<Rightarrow> SessionId \<Rightarrow> (uint8 list \<times> uint8 list list) list \<Rightarrow> uint8 list \<times> ZoneManager \<Rightarrow>
     (uint8 list \<times> ZoneManager) option" where
  "recv_run z owner session [] st = Some st"
| "recv_run z owner session ((received, pool) # calls) (pending, zm) =
     (case HandleRecv (\<lambda>_. Some z) owner session True received pending
             \<lparr>nw_pool = pool, nw_zm = zm\<rparr> of
        (None, _) \<Rightarrow> None
      | (Some rest, w) \<Rightarrow> recv_run z owner session calls (rest, nw_zm w))"

subsection \<open>One packet\<close>

definition pool_ok :: "uint8 list list \<Rightarrow> bool" where
  "pool_ok pool \<longleftrightarrow> (\<forall>job \<in> set pool. length job = MAX_CLIENT_PACKET_SIZE)"

lemma Acquire_ok:
  "pool_ok pool \<Longrightarrow> \<exists>job pool'. Acquire pool = (job, pool') \<and> length job = 131 \<and> pool_ok pool'"
  by (auto simp: Acquire_def pool_ok_def packet_size_consts split: list.splits)

lemma encode_client_header:
  "unat (rd16 (encode_client p @ ys) 0) = length (encode_client p)"
  "3 \<le> length (encode_client p)" "length (encode_client p) \<le> 131"
  using sizeof_client [of p] header_size [of "client_type p" "client_payload p @ ys"]
  by (simp_all add: length_encode_client, simp_all add: encode_client_def)

interpretation cs: packet_stream encode_client
  by unfold_locales (use encode_client_header in auto)

lemma recv_loop_packet:
  assumes "pool_ok (nw_pool w)"
  shows "\<exists>job w'. recv_loop r sid i (encode_client p @ more_p) w = recv_loop r sid (Suc i) more_p w' \<and>
    length job = 131 \<and> take (length (encode_client p)) job = encode_client p \<and> pool_ok (nw_pool w') \<and>
    nw_zm w' = EnqueueBySession (r i) (TPacket sid job) (nw_zm w)"
proof -
  note h = encode_client_header [of p]
  obtain job pool where a: "Acquire (nw_pool w) = (job, pool)" "length job = 131" "pool_ok pool"
    using Acquire_ok [OF assms] by blast
  let ?n = "length (encode_client p)"
  let ?job = "encode_client p @ drop ?n job"
  let ?w = "w\<lparr>nw_pool := pool, nw_zm := EnqueueBySession (r i) (TPacket sid ?job) (nw_zm w)\<rparr>"
  have e: "EnqueuePacketDispatch (r i) sid (encode_client p @ more_p) ?n w = Some ?w"
    using h(2,3) a by (auto simp: EnqueuePacketDispatch_def packet_size_consts)
  have "recv_loop r sid i (encode_client p @ more_p) w = recv_loop r sid (Suc i) more_p ?w"
  proof -
    have ne: "encode_client p \<noteq> []"
      using h(2) by auto
    then show ?thesis
      using h(2) by (subst recv_loop.simps) (simp add: h(1) e Let_def)
  qed
  then show ?thesis
    using a h(2,3) by (intro exI [of _ ?job] exI [of _ ?w]) simp
qed

lemma recv_loop_partial:
  assumes "strict_prefix part (encode_client p)"
  shows "recv_loop r sid i part w = (False, part, w)"
  using cs.partial_size [OF assms] by (subst recv_loop.simps) (auto simp: not_less Let_def)

lemma recv_loop_nil: "recv_loop r sid i [] w = (False, [], w)"
  by (subst recv_loop.simps) simp

lemma recv_loop_tail: "tail_of encode_client qs part \<Longrightarrow> recv_loop r sid i part w = (False, part, w)"
  by (auto simp: tail_of_def recv_loop_nil recv_loop_partial)

lemma jobs_decode:
  "client_ok p \<Longrightarrow> take (length (encode_client p)) job = encode_client p \<Longrightarrow> decode job = Some p"
  using decode_encode [of p "drop (length (encode_client p)) job"] by (metis append_take_drop_id)

lemma recv_loop_stream:
  assumes "\<forall>q \<in> set ps. client_ok q" "tail_of encode_client qs part" "pool_ok (nw_pool w)" "zm_ok (nw_zm w)"
  shows "\<exists>jobs w'. recv_loop (\<lambda>_. Some z) sid i (concat (map encode_client ps) @ part) w = (False, part, w') \<and>
    map decode jobs = map Some ps \<and> zm_ok (nw_zm w') \<and>
    (\<forall>z'. zone_pending (nw_zm w') z' = zone_pending (nw_zm w) z' @
       (if z = z' \<or> \<not> IsValidZoneId z \<and> \<not> IsValidZoneId z' then map (TPacket sid) jobs else []))"
  using assms
proof (induction ps arbitrary: i w)
  case Nil
  then show ?case
    by (intro exI [of _ "[]"]) (simp add: recv_loop_tail)
next
  case (Cons p ps)
  obtain job w1 where 1: "recv_loop (\<lambda>_. Some z) sid i (encode_client p @ concat (map encode_client ps) @ part) w =
      recv_loop (\<lambda>_. Some z) sid (Suc i) (concat (map encode_client ps) @ part) w1"
    "take (length (encode_client p)) job = encode_client p" "pool_ok (nw_pool w1)"
    "nw_zm w1 = EnqueueByZone z (TPacket sid job) (nw_zm w)"
    using recv_loop_packet [OF Cons.prems(3), of "\<lambda>_. Some z" sid i p "concat (map encode_client ps) @ part"]
    by (auto simp: EnqueueBySession_def)
  have z1: "zm_ok (nw_zm w1)"
    using Cons.prems(4) by (simp add: 1(4) zm_ok_updates)
  have "\<forall>q \<in> set ps. client_ok q"
    using Cons.prems(1) by simp
  from Cons.IH [OF this Cons.prems(2) 1(3) z1, of "Suc i"] obtain jobs w2 where
    2: "recv_loop (\<lambda>_. Some z) sid (Suc i) (concat (map encode_client ps) @ part) w1 = (False, part, w2)"
      "map decode jobs = map Some ps" "zm_ok (nw_zm w2)"
      "\<forall>z'. zone_pending (nw_zm w2) z' = zone_pending (nw_zm w1) z' @
       (if z = z' \<or> \<not> IsValidZoneId z \<and> \<not> IsValidZoneId z' then map (TPacket sid) jobs else [])"
    by blast
  have "decode job = Some p"
    using jobs_decode 1(2) Cons.prems(1) by simp
  then show ?case
    using 1 2 Cons.prems(4) by (intro exI [of _ "job # jobs"] exI [of _ w2])
      (simp add: zone_pending_EnqueueByZone)
qed

lemma HandleRecv_stream:
  assumes "\<forall>q \<in> set qs. client_ok q" "prefix (part @ received) (concat (map encode_client qs))"
    "pool_ok pool" "zm_ok zm"
  shows "\<exists>k part' jobs w'. k \<le> length qs \<and>
    HandleRecv (\<lambda>_. Some z) owner sid True received part \<lparr>nw_pool = pool, nw_zm = zm\<rparr> = (Some part', w') \<and>
    part @ received = concat (map encode_client (take k qs)) @ part' \<and> tail_of encode_client (drop k qs) part' \<and>
    map decode jobs = map Some (take k qs) \<and> zm_ok (nw_zm w') \<and>
    (\<forall>z'. zone_pending (nw_zm w') z' = zone_pending zm z' @
       (if z = z' \<or> \<not> IsValidZoneId z \<and> \<not> IsValidZoneId z' then map (TPacket sid) jobs else []))"
proof -
  obtain k part' where k: "k \<le> length qs" "part @ received = concat (map encode_client (take k qs)) @ part'"
    "tail_of encode_client (drop k qs) part'"
    using cs.stream_split [OF assms(2)] by blast
  have "\<forall>q \<in> set (take k qs). client_ok q"
    using assms(1) by (meson in_set_takeD)
  from recv_loop_stream [OF this k(3), of "\<lparr>nw_pool = pool, nw_zm = zm\<rparr>" z sid 0] assms(3,4)
  obtain jobs w' where "recv_loop (\<lambda>_. Some z) sid 0 (concat (map encode_client (take k qs)) @ part')
      \<lparr>nw_pool = pool, nw_zm = zm\<rparr> = (False, part', w')"
    "map decode jobs = map Some (take k qs)" "zm_ok (nw_zm w')"
    "\<forall>z'. zone_pending (nw_zm w') z' = zone_pending zm z' @
       (if z = z' \<or> \<not> IsValidZoneId z \<and> \<not> IsValidZoneId z' then map (TPacket sid) jobs else [])"
    by auto
  with k show ?thesis
    by (intro exI [of _ k] exI [of _ part'] exI [of _ jobs] exI [of _ w']) (simp add: HandleRecv_def)
qed

subsection \<open>A run of receives\<close>

lemma recv_run_stream:
  assumes "\<forall>q \<in> set qs. client_ok q" "zm_ok zm" "\<forall>c \<in> set calls. pool_ok (snd c)"
    "prefix (part @ concat (map fst calls)) (concat (map encode_client qs))" "tail_of encode_client qs part"
  shows "\<exists>k part' zm' jobs. k \<le> length qs \<and> recv_run z owner sid calls (part, zm) = Some (part', zm') \<and>
    part @ concat (map fst calls) = concat (map encode_client (take k qs)) @ part' \<and>
    tail_of encode_client (drop k qs) part' \<and> map decode jobs = map Some (take k qs) \<and>
    (\<forall>z'. zone_pending zm' z' = zone_pending zm z' @
       (if z = z' \<or> \<not> IsValidZoneId z \<and> \<not> IsValidZoneId z' then map (TPacket sid) jobs else []))"
  using assms
proof (induction calls arbitrary: qs part zm)
  case Nil
  then show ?case
    by (intro exI [of _ 0] exI [of _ part] exI [of _ zm] exI [of _ "[]"]) simp
next
  case (Cons c calls)
  obtain received pool where c: "c = (received, pool)"
    by (cases c)
  have pre: "prefix ((part @ received) @ concat (map fst calls)) (concat (map encode_client qs))"
    using Cons.prems(4) by (simp add: c)
  then have "prefix (part @ received) (concat (map encode_client qs))"
    by (rule append_prefixD)
  from HandleRecv_stream [OF Cons.prems(1) this _ Cons.prems(2), of pool z owner sid] Cons.prems(3)
  obtain k part1 jobs w where 1: "k \<le> length qs"
    "HandleRecv (\<lambda>_. Some z) owner sid True received part \<lparr>nw_pool = pool, nw_zm = zm\<rparr> = (Some part1, w)"
    "part @ received = concat (map encode_client (take k qs)) @ part1" "tail_of encode_client (drop k qs) part1"
    "map decode jobs = map Some (take k qs)" "zm_ok (nw_zm w)"
    "\<forall>z'. zone_pending (nw_zm w) z' = zone_pending zm z' @
       (if z = z' \<or> \<not> IsValidZoneId z \<and> \<not> IsValidZoneId z' then map (TPacket sid) jobs else [])"
    by (auto simp: c)
  have "\<forall>q \<in> set (drop k qs). client_ok q"
    using Cons.prems(1) by (meson in_set_dropD)
  moreover have "prefix (part1 @ concat (map fst calls)) (concat (map encode_client (drop k qs)))"
    using cs.prefix_drop_stream [OF 1(3) [symmetric] pre] .
  ultimately obtain k2 part2 zm2 jobs2 where 2: "k2 \<le> length (drop k qs)"
    "recv_run z owner sid calls (part1, nw_zm w) = Some (part2, zm2)"
    "part1 @ concat (map fst calls) = concat (map encode_client (take k2 (drop k qs))) @ part2"
    "tail_of encode_client (drop k2 (drop k qs)) part2" "map decode jobs2 = map Some (take k2 (drop k qs))"
    "\<forall>z'. zone_pending zm2 z' = zone_pending (nw_zm w) z' @
       (if z = z' \<or> \<not> IsValidZoneId z \<and> \<not> IsValidZoneId z' then map (TPacket sid) jobs2 else [])"
    using Cons.IH [of "drop k qs" "nw_zm w" part1] Cons.prems(3) 1(4,6) by auto
  have tk: "take (k + k2) qs = take k qs @ take k2 (drop k qs)"
    by (rule take_add)
  show ?case
  proof (intro exI [of _ "k + k2"] exI [of _ part2] exI [of _ zm2] exI [of _ "jobs @ jobs2"] conjI)
    show "k + k2 \<le> length qs"
      using 1(1) 2(1) by simp
    show "recv_run z owner sid (c # calls) (part, zm) = Some (part2, zm2)"
      using 1(2) 2(2) by (simp add: c)
    show "part @ concat (map fst (c # calls)) = concat (map encode_client (take (k + k2) qs)) @ part2"
      using 1(3) 2(3) by (simp add: c tk) (metis append_assoc)
    show "tail_of encode_client (drop (k + k2) qs) part2"
      using 2(4) by (simp add: add.commute)
    show "map decode (jobs @ jobs2) = map Some (take (k + k2) qs)"
      using 1(5) 2(5) by (simp add: tk)
    show "\<forall>z'. zone_pending zm2 z' = zone_pending zm z' @
       (if z = z' \<or> \<not> IsValidZoneId z \<and> \<not> IsValidZoneId z' then map (TPacket sid) (jobs @ jobs2) else [])"
      using 1(7) 2(6) by simp
  qed
qed

end
