(* ===== verification/NetworkProps.thy ===== *)
theory NetworkProps
  imports Framing
begin

text \<open>Properties of the wire format, the send queue and the packet framing.\<close>

text \<open>The bytes of every server packet are as long as the size field in its header says, carry its
  type, fit the pending-send buffer and the batch buffer, and no two packet types share a type byte.\<close>

theorem server_packet_layout:
  "length (encode p) = unat (rd16 (encode p) 0) \<and> encode p ! 2 = type_val (packet_type p) \<and>
   length (encode p) \<le> MAX_SERVER_PACKET_SIZE \<and> MAX_SERVER_PACKET_SIZE \<le> SEND_BATCH_BUFFER_SIZE \<and>
   (type_val s = type_val t \<longleftrightarrow> s = t)"
  using sizeof_server(2) [of p] type_val_inj [of s t]
  by (simp add: length_encode packet_size_consts proto_consts)
    (simp add: encode_def header_size type_byte)

text \<open>Reading a client packet out of a dispatch buffer gives the fields the client wrote, whatever
  bytes an earlier packet left behind it in the buffer.\<close>

theorem client_packet_roundtrip:
  assumes "client_ok p"
  shows "decode (encode_client p @ stale) = Some p"
  using assms by (rule decode_encode)

theorem client_packet_roundtrip_witness:
  "decode (encode_client (USER_TELEPORT_REQ_PACKET 700 (- 1)) @ replicate 124 255) =
   Some (USER_TELEPORT_REQ_PACKET 700 (- 1))"
  by (rule client_packet_roundtrip) simp

text \<open>C11. Over any interleaving of posted packets, partial completions and refused sends, the bytes the
  peer has received followed by the bytes still queued are the encodings of the posted packets in
  order: nothing is lost, repeated, reordered or torn, and no assertion of the send path fails.\<close>

theorem send_stream_exact:
  assumes "session_ok s" "m_sendQueue s = []"
  shows "\<exists>s' wire. net_run as (s, []) = Some (s', wire) \<and> session_ok s' \<and>
    wire @ unsent (m_sendQueue s') = concat (map encode (posted as))"
  using net_run_ok [OF assms(1), of as "[]"] assms(2) by (simp add: unsent_def)

lemma attached_ok: "session_ok (snd (AttachSocket True ResetNetworkState))"
  "m_sendQueue (snd (AttachSocket True ResetNetworkState)) = []"
  by (simp_all add: session_ok_def AttachSocket_def CloseSocketImpl_def ResetNetworkState_def Let_def)

theorem send_stream_exact_witness:
  "\<exists>s' wire. net_run [Post (USER_HEAL_INF_PACKET 90) True, Post (ITEM_PICKUP_ACK_PACKET True) True,
      Complete 5 True] (snd (AttachSocket True ResetNetworkState), []) = Some (s', wire) \<and>
    wire @ unsent (m_sendQueue s') = encode (USER_HEAL_INF_PACKET 90) @ encode (ITEM_PICKUP_ACK_PACKET True)"
  using send_stream_exact [OF attached_ok, of "[Post (USER_HEAL_INF_PACKET 90) True,
      Post (ITEM_PICKUP_ACK_PACKET True) True, Complete 5 True]"]
  by auto

text \<open>As long as the port accepts every send and completes it in full, everything queued reaches the
  peer: the queue is empty after at most as many completions as there are unsent bytes.\<close>

theorem send_queue_drains:
  assumes "session_ok s" "m_sendInFlight s"
  shows "\<exists>s'. complete_all (length (unsent (m_sendQueue s))) (s, wire) =
      Some (s', wire @ unsent (m_sendQueue s)) \<and> m_sendQueue s' = []"
  using complete_all_drains [OF assms] by blast

theorem send_queue_drains_witness:
  "\<exists>s. session_ok s \<and> m_sendInFlight s \<and>
     PostSend True (USER_HEAL_INF_PACKET 90) (snd (AttachSocket True ResetNetworkState)) = Some (True, s) \<and>
     (\<exists>s'. complete_all (length (unsent (m_sendQueue s))) (s, []) =
        Some (s', [] @ unsent (m_sendQueue s)) \<and> m_sendQueue s' = [])"
proof -
  let ?s0 = "snd (AttachSocket True ResetNetworkState)"
  obtain r s where s: "PostSend True (USER_HEAL_INF_PACKET 90) ?s0 = Some (r, s)" "session_ok s"
    using PostSend_ok [OF attached_ok(1)] by blast
  obtain ps where ps: "ps_Assign (USER_HEAL_INF_PACKET 90) = Some ps" "ps_ok ps"
    using ps_Assign_ok by blast
  have "\<exists>k > 0. k \<le> length [ps] \<and> sc_packetCount (append_all [ps] ResetPayload) = k"
    using append_all_progress [of "[ps]"] ps(2) by auto
  then have "r" "m_sendInFlight s"
    using s(1) ps(1)
    by (auto simp: PostSend_def AttachSocket_def CloseSocketImpl_def ResetNetworkState_def
        SubmitSendBatchImpl_def Let_def)
  with s send_queue_drains [OF s(2) this(2), of "[]"] show ?thesis
    by auto
qed

text \<open>C10. However the network cuts the byte stream of a client into receives, and whatever jobs are in the
  pool, the framing loop never disconnects a well-formed client and enqueues its packets whole and in
  order into the queue of its zone: the buffers it enqueued decode to the packets received
  completely, and the bytes kept back are a proper beginning of the next packet.\<close>

theorem framing_exact:
  assumes "\<forall>p \<in> set ps. client_ok p" "zm_ok zm" "\<forall>c \<in> set calls. pool_ok (snd c)"
    and "concat (map fst calls) @ outstanding = concat (map encode_client ps)"
  shows "\<exists>k kept zm' jobs. k \<le> length ps \<and> recv_run z owner sid calls ([], zm) = Some (kept, zm') \<and>
    map decode jobs = map Some (take k ps) \<and>
    zone_pending zm' z = zone_pending zm z @ map (TPacket sid) jobs \<and>
    concat (map fst calls) = concat (map encode_client (take k ps)) @ kept \<and>
    (outstanding = [] \<longrightarrow> k = length ps \<and> kept = [])"
proof -
  have pre: "prefix ([] @ concat (map fst calls)) (concat (map encode_client ps))"
    using assms(4) by (metis append_Nil prefixI)
  obtain k kept zm' jobs where r: "k \<le> length ps" "recv_run z owner sid calls ([], zm) = Some (kept, zm')"
    "concat (map fst calls) = concat (map encode_client (take k ps)) @ kept"
    "tail_of encode_client (drop k ps) kept" "map decode jobs = map Some (take k ps)"
    "zone_pending zm' z = zone_pending zm z @ map (TPacket sid) jobs"
    using recv_run_stream [OF assms(1-3) pre cs.tail_of_start, of z owner sid] by auto
  have "outstanding = [] \<longrightarrow> k = length ps \<and> kept = []"
    using cs.stream_complete [OF r(1,4)] r(3) assms(4) by auto
  with r show ?thesis
    by blast
qed

theorem framing_exact_witness:
  "\<exists>zm' job. recv_run 0 None 7 [([3], []), ([0, type_val USER_SKILL_REQ], [])] ([], newZoneManager) =
      Some ([], zm') \<and> decode job = Some USER_SKILL_REQ_PACKET \<and> zone_pending zm' 0 = [TPacket 7 job]"
proof -
  let ?calls = "[([3], []), ([0, type_val USER_SKILL_REQ], [])] :: (uint8 list \<times> uint8 list list) list"
  have e: "concat (map fst ?calls) @ [] = concat (map encode_client [USER_SKILL_REQ_PACKET])"
    by (simp add: encode_client_def InitializePacket_def le16_def)
  have p: "\<forall>q \<in> set [USER_SKILL_REQ_PACKET]. client_ok q" "\<forall>c \<in> set ?calls. pool_ok (snd c)"
    by (simp_all add: pool_ok_def)
  have n: "zone_pending newZoneManager 0 = []"
    by (simp add: zone_pending_def newZoneManager_def newGameLogicThread_def lt_pending_def IsValidZoneId_def)
  from framing_exact [OF p(1) zm_ok_new p(2) e, of 0 None 7] n obtain zm' jobs where
    "recv_run 0 None 7 ?calls ([], newZoneManager) = Some ([], zm')"
    "map decode jobs = [Some USER_SKILL_REQ_PACKET]" "zone_pending zm' 0 = map (TPacket 7) jobs"
    by auto
  then show ?thesis
    by (cases jobs) auto
qed

text \<open>C31. The framing loop accepts a packet that is shorter than the structure its type announces, and the
  job buffers of the pool are not cleared between packets, so the handler reads the missing fields
  from the previous packet that used the buffer, possibly one of another player: a three-byte move
  request moves in the direction an earlier packet left at its fourth byte.\<close>

theorem short_packet_reads_stale:
  assumes "length job = 131"
  shows "\<exists>job' w'. EnqueuePacketDispatch (Some z) sid (le16 3 @ [type_val USER_MOVE_REQ]) 3
      \<lparr>nw_pool = job # pool, nw_zm = zm\<rparr> = Some w' \<and>
    nw_zm w' = EnqueueByZone z (TPacket sid job') zm \<and>
    (\<exists>t. decode job' = Some (USER_MOVE_REQ_PACKET (sint (job ! 3)) t))"
proof -
  let ?job = "(le16 3 @ [type_val USER_MOVE_REQ]) @ drop 3 job"
  have n: "?job ! 2 = type_val USER_MOVE_REQ" "?job ! 3 = job ! 3"
    using assms by (simp_all add: nth_append le_length)
  have d: "decode ?job = Some (USER_MOVE_REQ_PACKET (sint (job ! 3)) (rd32 ?job 4))"
    unfolding decode_def Let_def n by (simp add: type_val_inj)
  show ?thesis
    by (rule exI [of _ ?job], rule exI [of _ "\<lparr>nw_pool = pool, nw_zm = EnqueueByZone z (TPacket sid ?job) zm\<rparr>"])
      (use d in \<open>auto simp: EnqueuePacketDispatch_def Acquire_def packet_size_consts EnqueueBySession_def le16_def\<close>)
qed

theorem short_packet_reads_stale_witness:
  "\<exists>job' w' t. EnqueuePacketDispatch (Some 2) 9 (le16 3 @ [type_val USER_MOVE_REQ]) 3
      \<lparr>nw_pool = [replicate 131 7], nw_zm = newZoneManager\<rparr> = Some w' \<and>
    decode job' = Some (USER_MOVE_REQ_PACKET (sint (replicate 131 (7 :: uint8) ! 3)) t)"
  using short_packet_reads_stale [of "replicate 131 7" 2 9 "[]" newZoneManager] by auto

end
