(* ===== verification/AStars.thy ===== *)
theory AStars
  imports Collisions "HOL-Library.Monad_Syntax"
begin

text \<open>
  Path finding of the monsters: \<^verbatim>\<open>Area/AStar.h\<close> and \<^verbatim>\<open>Area/AStar.cpp\<close>.  The
  \<^verbatim>\<open>priority_queue\<close> is ordered by the total cost only, so which of several cheapest nodes it
  returns is not specified: the position of the next node is the argument \<open>pick\<close>, and the locale
  \<open>open_set\<close> states what a priority queue promises.  The two loops may in principle run forever
  and are partial functions with result \<open>None\<close> for not returning; that they return is proved.
\<close>

type_synonym cell = "short \<times> short"

record NODE =
  node_x :: short
  node_y :: short
  node_g :: int
  node_h :: int
  node_f :: int

record AStar =
  openSet :: "NODE list"
  cameFrom :: "cell \<rightharpoonup> cell"
  gScores :: "cell \<rightharpoonup> int"
  closedSet :: "cell set"

definition node_cell :: "NODE \<Rightarrow> cell" where
  "node_cell n = (node_x n, node_y n)"

definition Heuristic :: "short \<Rightarrow> short \<Rightarrow> short \<Rightarrow> short \<Rightarrow> int" where
  "Heuristic x1 y1 x2 y2 = \<bar>x1 - x2\<bar> + \<bar>y1 - y2\<bar>"

definition directions :: "(short \<times> short) list" where
  "directions = [(0, -1), (0, 1), (-1, 0), (1, 0)]"

definition pop_at :: "nat \<Rightarrow> 'a list \<Rightarrow> 'a list" where
  "pop_at i xs = take i xs @ drop (Suc i) xs"

definition expand :: "cell \<Rightarrow> NODE \<Rightarrow> short \<times> short \<Rightarrow> AStar \<Rightarrow> AStar" where
  "expand goal current d st =
     (let nextX = short_of (node_x current + fst d);
          nextY = short_of (node_y current + snd d) in
      if nextX < 0 \<or> nextX \<ge> W_WIDTH \<or> nextY < 0 \<or> nextY \<ge> W_HEIGHT then st
      else if isCollision nextX nextY then st
      else let newCost = (case gScores st (node_cell current) of Some c \<Rightarrow> c | None \<Rightarrow> 0) + 1 in
           if (case gScores st (nextX, nextY) of None \<Rightarrow> True | Some c \<Rightarrow> newCost < c)
           then let hCost = Heuristic nextX nextY (fst goal) (snd goal) in
                st\<lparr>gScores := (gScores st)((nextX, nextY) \<mapsto> newCost),
                   openSet := openSet st @
                     [\<lparr>node_x = nextX, node_y = nextY, node_g = newCost, node_h = hCost,
                       node_f = newCost + hCost\<rparr>],
                   cameFrom := (cameFrom st)((nextX, nextY) \<mapsto> node_cell current)\<rparr>
           else st)"

partial_function (option) rebuild :: "cell \<Rightarrow> (cell \<rightharpoonup> cell) \<Rightarrow> cell \<Rightarrow> NODE list option" where
  "rebuild start came current =
     (if current = start then Some []
      else do {
        path \<leftarrow> rebuild start came (case came current of Some prev \<Rightarrow> prev | None \<Rightarrow> (0, 0));
        Some (\<lparr>node_x = fst current, node_y = snd current, node_g = 0, node_h = 0, node_f = 0\<rparr> # path) })"

partial_function (option) astar_loop ::
    "(NODE list \<Rightarrow> nat) \<Rightarrow> cell \<Rightarrow> cell \<Rightarrow> AStar \<Rightarrow> NODE list option" where
  "astar_loop pick start goal st =
     (if openSet st = [] then Some []
      else let current = openSet st ! pick (openSet st);
               st1 = st\<lparr>openSet := pop_at (pick (openSet st)) (openSet st)\<rparr> in
           if node_cell current \<in> closedSet st1 then astar_loop pick start goal st1
           else let st2 = st1\<lparr>closedSet := insert (node_cell current) (closedSet st1)\<rparr> in
                if node_cell current = goal then rebuild start (cameFrom st2) (node_cell current)
                else astar_loop pick start goal (fold (expand goal current) directions st2))"

definition astar_init :: "cell \<Rightarrow> cell \<Rightarrow> AStar" where
  "astar_init start goal =
     (let hCost = Heuristic (fst start) (snd start) (fst goal) (snd goal) in
      \<lparr>openSet = [\<lparr>node_x = fst start, node_y = snd start, node_g = 0, node_h = hCost, node_f = hCost\<rparr>],
       cameFrom = [start \<mapsto> start], gScores = [start \<mapsto> 0], closedSet = {}\<rparr>)"

definition FindPath ::
    "(NODE list \<Rightarrow> nat) \<Rightarrow> short \<Rightarrow> short \<Rightarrow> short \<Rightarrow> short \<Rightarrow> NODE list option" where
  "FindPath pick startX startY goalX goalY =
     (if startX = goalX \<and> startY = goalY then Some []
      else astar_loop pick (startX, startY) (goalX, goalY) (astar_init (startX, startY) (goalX, goalY)))"

subsection \<open>What a path is\<close>

definition edge :: "cell \<Rightarrow> cell \<Rightarrow> bool" where
  "edge u v \<longleftrightarrow> \<bar>fst v - fst u\<bar> + \<bar>snd v - snd u\<bar> = 1 \<and> \<not> isCollision (fst v) (snd v)"

inductive walks :: "cell \<Rightarrow> nat \<Rightarrow> cell \<Rightarrow> bool" for s where
  start: "walks s 0 s"
| step: "walks s n u \<Longrightarrow> edge u v \<Longrightarrow> walks s (Suc n) v"

inductive_cases walks_0E: "walks s 0 v"
inductive_cases walks_SucE: "walks s (Suc n) v"

text \<open>A path as \<open>FindPath\<close> returns it: the goal first, the first step from the start last.\<close>

fun is_path :: "cell \<Rightarrow> cell list \<Rightarrow> bool" where
  "is_path s [] = True"
| "is_path s [v] = edge s v"
| "is_path s (v # u # ps) = (edge u v \<and> is_path s (u # ps))"

lemma is_path_walks: "is_path s ps \<Longrightarrow> ps \<noteq> [] \<Longrightarrow> walks s (length ps) (hd ps)"
proof (induction s ps rule: is_path.induct)
  case (2 s v)
  then show ?case
    using walks.step [OF walks.start] by simp
next
  case (3 s v u ps)
  then show ?case
    using walks.step [of s "length (u # ps)" u v] by simp
qed simp

definition hcost :: "cell \<Rightarrow> cell \<Rightarrow> int" where
  "hcost goal v = Heuristic (fst v) (snd v) (fst goal) (snd goal)"

lemma hcost_consistent: "edge u v \<Longrightarrow> hcost goal u \<le> 1 + hcost goal v"
  unfolding edge_def hcost_def Heuristic_def by linarith

lemma edge_valid: "edge u v \<Longrightarrow> IsValidWorldPosition (fst v) (snd v)"
  by (simp add: edge_def isCollision_iff)

locale open_set =
  fixes pick :: "NODE list \<Rightarrow> nat"
  assumes pick_in: "q \<noteq> [] \<Longrightarrow> pick q < length q"
    and pick_min: "q \<noteq> [] \<Longrightarrow> n \<in> set q \<Longrightarrow> node_f (q ! pick q) \<le> node_f n"
begin

lemma pick_mem: "q \<noteq> [] \<Longrightarrow> q ! pick q \<in> set q"
  by (simp add: pick_in)

end

text \<open>A queue that returns the first of the cheapest nodes.\<close>

fun pick_first :: "NODE list \<Rightarrow> nat" where
  "pick_first [] = 0"
| "pick_first (n # q) =
     (if q = [] \<or> node_f n \<le> node_f (q ! pick_first q) then 0 else Suc (pick_first q))"

lemma pick_first_in: "q \<noteq> [] \<Longrightarrow> pick_first q < length q"
  by (induction q) auto

lemma pick_first_min: "n \<in> set q \<Longrightarrow> node_f (q ! pick_first q) \<le> node_f n"
  by (induction q) (auto dest: order.trans)

interpretation pick_first: open_set pick_first
  by unfold_locales (simp_all add: pick_first_in pick_first_min)

subsection \<open>The search invariant\<close>

text \<open>Every recorded score is the length of a walk whose last step comes from a closed cell; every open
  cell with a score has an entry with that score; the scores of closed cells are optimal and their
  neighbours have been scored, for the cell \<open>cur\<close> in the directions \<open>ds\<close> only.\<close>

definition offset :: "cell \<Rightarrow> cell \<Rightarrow> short \<times> short" where
  "offset u v = (fst v - fst u, snd v - snd u)"

definition scores_ok :: "cell \<Rightarrow> AStar \<Rightarrow> bool" where
  "scores_ok s st \<longleftrightarrow> gScores st s = Some 0 \<and>
     (\<forall>v c. gScores st v = Some c \<longrightarrow> (\<exists>n. c = int n \<and> walks s n v)) \<and>
     (\<forall>v c. gScores st v = Some c \<longrightarrow> v \<noteq> s \<longrightarrow>
        (\<exists>u. cameFrom st v = Some u \<and> edge u v \<and> u \<in> closedSet st \<and> gScores st u = Some (c - 1)))"

definition open_ok :: "cell \<Rightarrow> AStar \<Rightarrow> bool" where
  "open_ok goal st \<longleftrightarrow>
     (\<forall>v c. gScores st v = Some c \<longrightarrow> v \<notin> closedSet st \<longrightarrow>
        (\<exists>n \<in> set (openSet st). node_cell n = v \<and> node_f n = c + hcost goal v)) \<and>
     (\<forall>n \<in> set (openSet st). \<exists>c. gScores st (node_cell n) = Some c \<and> c \<le> node_g n \<and>
        node_f n = node_g n + hcost goal (node_cell n))"

definition closed_ok :: "cell \<Rightarrow> cell \<Rightarrow> (short \<times> short) set \<Rightarrow> AStar \<Rightarrow> bool" where
  "closed_ok s cur ds st \<longleftrightarrow> (\<forall>u \<in> closedSet st. \<exists>c. gScores st u = Some c \<and>
     (\<forall>n. walks s n u \<longrightarrow> c \<le> int n) \<and>
     (\<forall>v. edge u v \<longrightarrow> (u = cur \<longrightarrow> offset u v \<in> ds) \<longrightarrow>
        (\<exists>c'. gScores st v = Some c' \<and> c' \<le> c + 1)))"

definition astar_inv :: "cell \<Rightarrow> cell \<Rightarrow> cell \<Rightarrow> (short \<times> short) set \<Rightarrow> AStar \<Rightarrow> bool" where
  "astar_inv s goal cur ds st \<longleftrightarrow>
     scores_ok s st \<and> open_ok goal st \<and> closed_ok s cur ds st \<and> goal \<notin> closedSet st"

lemma edge_offset: "edge u v \<Longrightarrow> offset u v \<in> set directions"
  unfolding edge_def offset_def directions_def by (cases u; cases v) (auto simp: abs_if split: if_splits)

lemma closed_ok_cur: "closed_ok s cur (set directions) st \<Longrightarrow> closed_ok s cur' (set directions) st"
  unfolding closed_ok_def
proof (intro ballI)
  fix u
  assume co: "\<forall>u \<in> closedSet st. \<exists>c. gScores st u = Some c \<and> (\<forall>n. walks s n u \<longrightarrow> c \<le> int n) \<and>
      (\<forall>v. edge u v \<longrightarrow> (u = cur \<longrightarrow> offset u v \<in> set directions) \<longrightarrow>
        (\<exists>c'. gScores st v = Some c' \<and> c' \<le> c + 1))" and u: "u \<in> closedSet st"
  from bspec [OF co u] obtain c where "gScores st u = Some c" "\<forall>n. walks s n u \<longrightarrow> c \<le> int n"
    "\<forall>v. edge u v \<longrightarrow> (\<exists>c'. gScores st v = Some c' \<and> c' \<le> c + 1)"
    using edge_offset by blast
  then show "\<exists>c. gScores st u = Some c \<and> (\<forall>n. walks s n u \<longrightarrow> c \<le> int n) \<and>
      (\<forall>v. edge u v \<longrightarrow> (u = cur' \<longrightarrow> offset u v \<in> set directions) \<longrightarrow>
        (\<exists>c'. gScores st v = Some c' \<and> c' \<le> c + 1))"
    by blast
qed

lemma scores_walk: "scores_ok s st \<Longrightarrow> gScores st v = Some c \<Longrightarrow> \<exists>n. c = int n \<and> walks s n v"
  unfolding scores_ok_def by blast

lemma scores_parent:
  "scores_ok s st \<Longrightarrow> gScores st v = Some c \<Longrightarrow> v \<noteq> s \<Longrightarrow>
   \<exists>u. cameFrom st v = Some u \<and> edge u v \<and> u \<in> closedSet st \<and> gScores st u = Some (c - 1)"
  unfolding scores_ok_def by blast

lemma scores_start: "scores_ok s st \<Longrightarrow> gScores st s = Some 0"
  unfolding scores_ok_def by blast

lemma open_entry:
  "open_ok goal st \<Longrightarrow> gScores st v = Some c \<Longrightarrow> v \<notin> closedSet st \<Longrightarrow>
   \<exists>n \<in> set (openSet st). node_cell n = v \<and> node_f n = c + hcost goal v"
  unfolding open_ok_def by blast

lemma open_scored:
  "open_ok goal st \<Longrightarrow> n \<in> set (openSet st) \<Longrightarrow> \<exists>c. gScores st (node_cell n) = Some c \<and> c \<le> node_g n \<and>
   node_f n = node_g n + hcost goal (node_cell n)"
  unfolding open_ok_def by blast

lemma closed_scored:
  "closed_ok s cur ds st \<Longrightarrow> u \<in> closedSet st \<Longrightarrow> \<exists>c. gScores st u = Some c \<and> (\<forall>n. walks s n u \<longrightarrow> c \<le> int n) \<and>
   (\<forall>v. edge u v \<longrightarrow> (u = cur \<longrightarrow> offset u v \<in> ds) \<longrightarrow> (\<exists>c'. gScores st v = Some c' \<and> c' \<le> c + 1))"
  unfolding closed_ok_def by blast

lemma short_step:
  fixes x d :: int
  assumes "-32768 \<le> x" "x < 32768" "-1 \<le> d" "d \<le> 1" "0 \<le> short_of (x + d)" "short_of (x + d) < 2000"
  shows "short_of (x + d) = x + d"
proof -
  consider "x + d = 32768" | "x + d = -32769" | "-32768 \<le> x + d" "x + d < 32768"
    using assms by linarith
  then show ?thesis
    using assms(5,6) by cases (simp_all add: short_of_def)
qed

lemma short_step_valid:
  fixes x d :: int
  assumes "0 \<le> x + d" "x + d < 2000"
  shows "short_of (x + d) = x + d"
  using assms by (intro short_of_id) linarith+

text \<open>Recording a better score for a neighbour \<open>v\<close> of the closed cell \<open>cur\<close>.\<close>

definition improve :: "cell \<Rightarrow> cell \<Rightarrow> int \<Rightarrow> NODE \<Rightarrow> AStar \<Rightarrow> AStar" where
  "improve cur v c m st = st\<lparr>gScores := (gScores st)(v \<mapsto> c + 1), openSet := openSet st @ [m],
     cameFrom := (cameFrom st)(v \<mapsto> cur)\<rparr>"

lemma improve_simps [simp]:
  "gScores (improve cur v c m st) = (gScores st)(v \<mapsto> c + 1)"
  "openSet (improve cur v c m st) = openSet st @ [m]"
  "cameFrom (improve cur v c m st) = (cameFrom st)(v \<mapsto> cur)"
  "closedSet (improve cur v c m st) = closedSet st"
  by (simp_all add: improve_def)

text \<open>One round of the inner loop either leaves the state alone, when there is no edge in that direction
  or it gives no better score, or records the better score.\<close>

text \<open>The tests of the neighbour reject only cells that no edge leads to.\<close>

lemma rejected_no_edge:
  assumes "isCollision (short_of (a + c)) (short_of (b + e)) \<or> short_of (a + c) < 0 \<or> short_of (a + c) \<ge> W_WIDTH \<or>
    short_of (b + e) < 0 \<or> short_of (b + e) \<ge> W_HEIGHT"
  shows "\<not> edge (a, b) (a + c, b + e)"
proof
  assume "edge (a, b) (a + c, b + e)"
  then have f: "\<not> isCollision (a + c) (b + e)"
    by (simp add: edge_def)
  note v = IsValidWorldPositionD [OF not_isCollision_valid [OF this]]
  have "short_of (a + c) = a + c" "short_of (b + e) = b + e"
    using v by (intro short_step_valid; simp)+
  with assms f v show False
    by (simp add: world_consts)
qed

lemma expand_cases:
  fixes cur :: cell
  assumes rng: "-32768 \<le> fst cur" "fst cur < 32768" "-32768 \<le> snd cur" "snd cur < 32768"
    and cur: "node_cell n = cur" and g: "gScores st cur = Some c" and d: "d \<in> set directions"
  defines "v \<equiv> (fst cur + fst d, snd cur + snd d)"
  obtains (wall) "expand goal n d st = st" "\<not> edge cur v"
  | (worse) c' where "expand goal n d st = st" "gScores st v = Some c'" "c' \<le> c + 1"
  | (better) m where "edge cur v" "\<And>c'. gScores st v = Some c' \<Longrightarrow> c + 1 < c'"
      "node_cell m = v" "node_g m = c + 1" "node_f m = c + 1 + hcost goal v"
      "expand goal n d st = improve cur v c m st"
proof -
  have dd: "\<bar>fst d\<bar> + \<bar>snd d\<bar> = 1" "-1 \<le> fst d" "fst d \<le> 1" "-1 \<le> snd d" "snd d \<le> 1"
    using d by (auto simp: directions_def)
  have nc: "node_x n = fst cur" "node_y n = snd cur"
    using cur by (auto simp: node_cell_def)
  let ?x = "short_of (fst cur + fst d)" and ?y = "short_of (snd cur + snd d)"
  show thesis
  proof (cases "isCollision ?x ?y \<or> ?x < 0 \<or> ?x \<ge> W_WIDTH \<or> ?y < 0 \<or> ?y \<ge> W_HEIGHT")
    case True
    have "\<not> edge cur v"
      using rejected_no_edge [of "fst cur" "fst d" "snd cur" "snd d"] True by (simp add: v_def)
    with True show thesis
      by (intro wall) (auto simp: expand_def nc Let_def)
  next
    case False
    then have w: "0 \<le> ?x" "?x < 2000" "0 \<le> ?y" "?y < 2000" "\<not> isCollision ?x ?y"
      by (auto simp: world_consts)
    have x: "?x = fst cur + fst d" "?y = snd cur + snd d"
      using rng dd w by (intro short_step; simp)+
    have e: "edge cur v"
      using w(5) dd(1) unfolding x by (simp add: edge_def v_def)
    define m where "m = \<lparr>node_x = ?x, node_y = ?y, node_g = c + 1,
      node_h = Heuristic ?x ?y (fst goal) (snd goal),
      node_f = c + 1 + Heuristic ?x ?y (fst goal) (snd goal)\<rparr>"
    have ex: "expand goal n d st =
      (if (case gScores st v of None \<Rightarrow> True | Some c' \<Rightarrow> c + 1 < c')
       then improve cur v c m st else st)"
      using False by (simp add: expand_def Let_def nc cur g m_def x v_def improve_def)
    have m: "node_cell m = v" "node_g m = c + 1" "node_f m = c + 1 + hcost goal v"
      by (simp_all add: m_def node_cell_def x v_def hcost_def)
    show thesis
    proof (cases "gScores st v")
      case None
      then show thesis
        using better [OF e _ m] ex by simp
    next
      case (Some c')
      show thesis
      proof (cases "c + 1 < c'")
        case True
        then show thesis
          using better [OF e _ m] ex Some by simp
      next
        case False
        then show thesis
          using worse [of c'] ex Some by simp
      qed
    qed
  qed
qed

lemma scores_closed_opt:
  assumes "scores_ok s st" "closed_ok s cur ds st" "edge u v" "gScores st u = Some c"
    and "v \<in> closedSet st" "gScores st v = Some c'"
  shows "c' \<le> c + 1"
proof -
  obtain n where n: "c = int n" "walks s n u"
    using scores_walk [OF assms(1,4)] by blast
  have "walks s (Suc n) v"
    using n(2) assms(3) by (rule walks.step)
  then have "c' \<le> int (Suc n)"
    using closed_scored [OF assms(2,5)] assms(6) by auto
  with n show ?thesis
    by simp
qed

lemma improve_scores:
  assumes sc: "scores_ok s st" and cl: "cur \<in> closedSet st" and g: "gScores st cur = Some c"
    and e: "edge cur v" and v: "v \<notin> closedSet st" "v \<noteq> s"
  shows "scores_ok s (improve cur v c m st)"
  unfolding scores_ok_def improve_simps
proof (intro conjI allI impI)
  show "((gScores st)(v \<mapsto> c + 1)) s = Some 0"
    using scores_start [OF sc] v by simp
next
  fix w k
  assume k: "((gScores st)(v \<mapsto> c + 1)) w = Some k"
  obtain n where n: "c = int n" "walks s n cur"
    using scores_walk [OF sc g] by blast
  show "\<exists>n. k = int n \<and> walks s n w"
  proof (cases "w = v")
    case True
    with k n walks.step [OF n(2) e] show ?thesis
      by (intro exI [of _ "Suc n"]) simp
  next
    case False
    with k show ?thesis
      by (intro scores_walk [OF sc]) simp
  qed
  assume ws: "w \<noteq> s"
  show "\<exists>u. ((cameFrom st)(v \<mapsto> cur)) w = Some u \<and> edge u w \<and> u \<in> closedSet st \<and>
      ((gScores st)(v \<mapsto> c + 1)) u = Some (k - 1)"
  proof (cases "w = v")
    case True
    have "cur \<noteq> v"
      using cl v by blast
    with True k e cl g show ?thesis
      by simp
  next
    case False
    then have "gScores st w = Some k"
      using k by simp
    from scores_parent [OF sc this ws] obtain u where "cameFrom st w = Some u" "edge u w"
      "u \<in> closedSet st" "gScores st u = Some (k - 1)"
      by blast
    with False v show ?thesis
      by (intro exI [of _ u]) auto
  qed
qed

lemma improve_open:
  assumes op: "open_ok goal st" and new: "\<And>c'. gScores st v = Some c' \<Longrightarrow> c + 1 < c'"
    and m: "node_cell m = v" "node_g m = c + 1" "node_f m = c + 1 + hcost goal v"
  shows "open_ok goal (improve cur v c m st)"
  unfolding open_ok_def improve_simps
proof (intro conjI allI impI ballI)
  fix w k
  assume k: "((gScores st)(v \<mapsto> c + 1)) w = Some k" and w: "w \<notin> closedSet st"
  show "\<exists>n \<in> set (openSet st @ [m]). node_cell n = w \<and> node_f n = k + hcost goal w"
  proof (cases "w = v")
    case True
    with k m show ?thesis
      by simp
  next
    case False
    then have "gScores st w = Some k"
      using k by simp
    from open_entry [OF op this w] show ?thesis
      by auto
  qed
next
  fix x
  assume "x \<in> set (openSet st @ [m])"
  then consider "x = m" | "x \<in> set (openSet st)"
    by auto
  then show "\<exists>k. ((gScores st)(v \<mapsto> c + 1)) (node_cell x) = Some k \<and> k \<le> node_g x \<and>
      node_f x = node_g x + hcost goal (node_cell x)"
  proof cases
    case 1
    with m show ?thesis
      by simp
  next
    case 2
    from open_scored [OF op 2] obtain k where k: "gScores st (node_cell x) = Some k" "k \<le> node_g x"
      "node_f x = node_g x + hcost goal (node_cell x)"
      by blast
    with new [of k] show ?thesis
      by (cases "node_cell x = v") auto
  qed
qed

lemma improve_closed:
  assumes co: "closed_ok s cur ds st" and g: "gScores st cur = Some c" and v: "v \<notin> closedSet st"
    and new: "\<And>c'. gScores st v = Some c' \<Longrightarrow> c + 1 < c'"
  shows "closed_ok s cur (insert (offset cur v) ds) (improve cur v c m st)"
  unfolding closed_ok_def improve_simps
proof (intro ballI)
  fix u
  assume u: "u \<in> closedSet st"
  from closed_scored [OF co u] obtain k where k: "gScores st u = Some k" "\<forall>n. walks s n u \<longrightarrow> k \<le> int n"
    "\<And>w. edge u w \<Longrightarrow> (u = cur \<longrightarrow> offset u w \<in> ds) \<Longrightarrow> \<exists>c'. gScores st w = Some c' \<and> c' \<le> k + 1"
    by blast
  have uv: "u \<noteq> v"
    using u v by blast
  have nb: "\<exists>c'. ((gScores st)(v \<mapsto> c + 1)) w = Some c' \<and> c' \<le> k + 1"
    if w: "edge u w" "u = cur \<longrightarrow> offset u w \<in> insert (offset cur v) ds" for w
  proof (cases "w = v \<and> u = cur")
    case True
    with k(1) g show ?thesis
      by simp
  next
    case False
    then have "u = cur \<longrightarrow> offset u w \<in> ds"
      using w(2) by (auto simp: offset_def prod_eq_iff)
    from k(3) [OF w(1) this] obtain c' where "gScores st w = Some c'" "c' \<le> k + 1"
      by blast
    with new [of c'] show ?thesis
      by (cases "w = v") auto
  qed
  show "\<exists>c'. ((gScores st)(v \<mapsto> c + 1)) u = Some c' \<and> (\<forall>n. walks s n u \<longrightarrow> c' \<le> int n) \<and>
      (\<forall>w. edge u w \<longrightarrow> (u = cur \<longrightarrow> offset u w \<in> insert (offset cur v) ds) \<longrightarrow>
         (\<exists>c''. ((gScores st)(v \<mapsto> c + 1)) w = Some c'' \<and> c'' \<le> c' + 1))"
  proof -
    have "((gScores st)(v \<mapsto> c + 1)) u = Some k"
      using k(1) uv by simp
    with k(2) nb show ?thesis
      by blast
  qed
qed

lemma improve_inv:
  assumes inv: "astar_inv s goal cur ds st" and cl: "cur \<in> closedSet st" and g: "gScores st cur = Some c"
    and e: "edge cur v" and new: "\<And>c'. gScores st v = Some c' \<Longrightarrow> c + 1 < c'"
    and m: "node_cell m = v" "node_g m = c + 1" "node_f m = c + 1 + hcost goal v"
  shows "astar_inv s goal cur (insert (offset cur v) ds) (improve cur v c m st)"
proof -
  have sc: "scores_ok s st" and op: "open_ok goal st" and co: "closed_ok s cur ds st" and gl: "goal \<notin> closedSet st"
    using inv by (simp_all add: astar_inv_def)
  have v: "v \<notin> closedSet st"
  proof
    assume v: "v \<in> closedSet st"
    then obtain c' where c': "gScores st v = Some c'"
      using closed_scored [OF co] by blast
    with scores_closed_opt [OF sc co e g v c'] new [OF c'] show False
      by simp
  qed
  have "v \<noteq> s"
    using new [of 0] scores_start [OF sc] scores_walk [OF sc g] by auto
  with improve_scores [OF sc cl g e v] improve_open [OF op new m] improve_closed [OF co g v new] gl
  show ?thesis
    by (simp add: astar_inv_def)
qed

definition in_short :: "cell \<Rightarrow> bool" where
  "in_short v \<longleftrightarrow> -32768 \<le> fst v \<and> fst v < 32768 \<and> -32768 \<le> snd v \<and> snd v < 32768"

lemma closed_ok_insert_wall:
  assumes "closed_ok s cur ds st" "\<not> edge cur v \<or> (\<exists>c c'. gScores st cur = Some c \<and> gScores st v = Some c' \<and> c' \<le> c + 1)"
  shows "closed_ok s cur (insert (offset cur v) ds) st"
  unfolding closed_ok_def
proof (intro ballI)
  fix u
  assume u: "u \<in> closedSet st"
  from closed_scored [OF assms(1) u] obtain k where k: "gScores st u = Some k" "\<forall>n. walks s n u \<longrightarrow> k \<le> int n"
    "\<And>w. edge u w \<Longrightarrow> (u = cur \<longrightarrow> offset u w \<in> ds) \<Longrightarrow> \<exists>c'. gScores st w = Some c' \<and> c' \<le> k + 1"
    by blast
  have "\<exists>c'. gScores st w = Some c' \<and> c' \<le> k + 1"
    if w: "edge u w" "u = cur \<longrightarrow> offset u w \<in> insert (offset cur v) ds" for w
  proof (cases "w = v \<and> u = cur")
    case True
    with w(1) assms(2) k(1) show ?thesis
      by auto
  next
    case False
    then have "u = cur \<longrightarrow> offset u w \<in> ds"
      using w(2) by (auto simp: offset_def prod_eq_iff)
    from k(3) [OF w(1) this] show ?thesis .
  qed
  with k(1,2) show "\<exists>c. gScores st u = Some c \<and> (\<forall>n. walks s n u \<longrightarrow> c \<le> int n) \<and>
      (\<forall>w. edge u w \<longrightarrow> (u = cur \<longrightarrow> offset u w \<in> insert (offset cur v) ds) \<longrightarrow>
         (\<exists>c'. gScores st w = Some c' \<and> c' \<le> c + 1))"
    by blast
qed

lemma expand_inv:
  assumes inv: "astar_inv s goal cur ds st" and cl: "cur \<in> closedSet st" and sh: "in_short cur"
    and n: "node_cell n = cur" and d: "d \<in> set directions"
  shows "astar_inv s goal cur (insert d ds) (expand goal n d st)"
    and "closedSet (expand goal n d st) = closedSet st"
    and "length (openSet (expand goal n d st)) \<le> Suc (length (openSet st))"
proof -
  let ?v = "(fst cur + fst d, snd cur + snd d)"
  have co: "closed_ok s cur ds st"
    using inv by (simp add: astar_inv_def)
  obtain c where g: "gScores st cur = Some c"
    using closed_scored [OF co cl] by blast
  have o: "offset cur ?v = d"
    by (simp add: offset_def)
  note r = sh [unfolded in_short_def]
  have "astar_inv s goal cur (insert d ds) (expand goal n d st) \<and> closedSet (expand goal n d st) = closedSet st \<and>
      length (openSet (expand goal n d st)) \<le> Suc (length (openSet st))"
  proof (rule expand_cases [of cur n st c d goal])
    assume "expand goal n d st = st" "\<not> edge cur ?v"
    with inv closed_ok_insert_wall [OF co, of ?v] show ?thesis
      by (simp add: astar_inv_def o)
  next
    fix c'
    assume "expand goal n d st = st" "gScores st ?v = Some c'" "c' \<le> c + 1"
    with inv closed_ok_insert_wall [OF co, of ?v] g show ?thesis
      by (simp add: astar_inv_def o)
  next
    fix m
    assume m: "edge cur ?v" "\<And>c'. gScores st ?v = Some c' \<Longrightarrow> c + 1 < c'" "node_cell m = ?v"
      "node_g m = c + 1" "node_f m = c + 1 + hcost goal ?v" "expand goal n d st = improve cur ?v c m st"
    from improve_inv [OF inv cl g m(1-5)] m(6) show ?thesis
      by (simp add: o)
  qed (use r n g d in simp_all)
  then show "astar_inv s goal cur (insert d ds) (expand goal n d st)"
    "closedSet (expand goal n d st) = closedSet st"
    "length (openSet (expand goal n d st)) \<le> Suc (length (openSet st))"
    by blast+
qed

lemma expand_all_inv:
  assumes "astar_inv s goal cur ds st" "cur \<in> closedSet st" "in_short cur" "node_cell n = cur"
    "set qs \<subseteq> set directions"
  shows "astar_inv s goal cur (ds \<union> set qs) (fold (expand goal n) qs st) \<and>
    closedSet (fold (expand goal n) qs st) = closedSet st \<and>
    length (openSet (fold (expand goal n) qs st)) \<le> length (openSet st) + length qs"
  using assms
proof (induction qs arbitrary: st ds)
  case (Cons d qs)
  have d: "d \<in> set directions"
    using Cons.prems(5) by simp
  note e = expand_inv [OF Cons.prems(1-4) d]
  have "set qs \<subseteq> set directions" "cur \<in> closedSet (expand goal n d st)"
    using Cons.prems(2,5) e(2) by simp_all
  from Cons.IH [OF e(1) this(2) Cons.prems(3,4) this(1)] e(2,3) show ?case
    by simp
qed simp

subsection \<open>Optimality of the next cell\<close>

lemma frontier:
  assumes sc: "scores_ok s st" and co: "closed_ok s cur (set directions) st"
  shows "walks s n v \<Longrightarrow> v \<notin> closedSet st \<Longrightarrow>
    \<exists>w c. w \<notin> closedSet st \<and> gScores st w = Some c \<and> c + hcost goal w \<le> int n + hcost goal v"
proof (induction rule: walks.induct)
  case start
  then show ?case
    using scores_start [OF sc] by fastforce
next
  case (step n u v)
  show ?case
  proof (cases "u \<in> closedSet st")
    case True
    from closed_scored [OF co True] obtain c where "\<forall>n. walks s n u \<longrightarrow> c \<le> int n"
      "\<forall>v. edge u v \<longrightarrow> (u = cur \<longrightarrow> offset u v \<in> set directions) \<longrightarrow>
         (\<exists>c'. gScores st v = Some c' \<and> c' \<le> c + 1)"
      by blast
    then obtain c' where "gScores st v = Some c'" "c' \<le> c + 1" "c \<le> int n"
      using step.hyps edge_offset by blast
    with step.prems show ?thesis
      by (intro exI [of _ v] exI [of _ c']) simp
  next
    case False
    from step.IH [OF this] obtain w c where "w \<notin> closedSet st" "gScores st w = Some c"
      "c + hcost goal w \<le> int n + hcost goal u"
      by blast
    moreover have "hcost goal u \<le> 1 + hcost goal v"
      using step.hyps(2) by (rule hcost_consistent)
    ultimately show ?thesis
      by (intro exI [of _ w] exI [of _ c]) simp
  qed
qed

context open_set
begin

lemma popped_optimal:
  assumes inv: "astar_inv s goal cur (set directions) st" and ne: "openSet st \<noteq> []"
    and v: "node_cell (openSet st ! pick (openSet st)) = v" "v \<notin> closedSet st"
    and c: "gScores st v = Some c" and w: "walks s n v"
  shows "c \<le> int n"
proof -
  let ?n = "openSet st ! pick (openSet st)"
  have sc: "scores_ok s st" and op: "open_ok goal st" and co: "closed_ok s cur (set directions) st"
    using inv by (simp_all add: astar_inv_def)
  obtain u k where u: "u \<notin> closedSet st" "gScores st u = Some k" "k + hcost goal u \<le> int n + hcost goal v"
    using frontier [OF sc co w v(2), of goal] by blast
  obtain m where m: "m \<in> set (openSet st)" "node_f m = k + hcost goal u"
    using open_entry [OF op u(2,1)] by blast
  have "node_f ?n \<le> node_f m"
    using pick_min [OF ne m(1)] .
  moreover have "c \<le> node_g ?n" "node_f ?n = node_g ?n + hcost goal v"
    using open_scored [OF op pick_mem [OF ne]] v(1) c by auto
  ultimately show ?thesis
    using m(2) u(3) by linarith
qed

end

subsection \<open>Popping a node\<close>

lemma set_pop_at: "i < length q \<Longrightarrow> set q = insert (q ! i) (set (pop_at i q))"
  by (metis Cons_nth_drop_Suc Un_insert_right append_take_drop_id list.simps(15) pop_at_def set_append)

lemma length_pop_at: "i < length q \<Longrightarrow> length (pop_at i q) = length q - 1"
  by (simp add: pop_at_def)

lemma pop_inv:
  assumes inv: "astar_inv s goal cur (set directions) st" and i: "i < length (openSet st)"
    and cl: "node_cell (openSet st ! i) \<in> closedSet st"
  shows "astar_inv s goal cur (set directions) (st\<lparr>openSet := pop_at i (openSet st)\<rparr>)"
proof -
  have op: "open_ok goal st"
    using inv by (simp add: astar_inv_def)
  have "open_ok goal (st\<lparr>openSet := pop_at i (openSet st)\<rparr>)"
    unfolding open_ok_def
  proof (intro conjI allI impI ballI)
    fix v c
    assume "gScores (st\<lparr>openSet := pop_at i (openSet st)\<rparr>) v = Some c"
      "v \<notin> closedSet (st\<lparr>openSet := pop_at i (openSet st)\<rparr>)"
    then have "gScores st v = Some c" "v \<notin> closedSet st"
      by simp_all
    then obtain n where "n \<in> set (openSet st)" "node_cell n = v" "node_f n = c + hcost goal v"
      using open_entry [OF op] by blast
    moreover have "n \<noteq> openSet st ! i"
      using calculation(2) cl \<open>v \<notin> closedSet st\<close> by blast
    ultimately show "\<exists>n \<in> set (openSet (st\<lparr>openSet := pop_at i (openSet st)\<rparr>)).
        node_cell n = v \<and> node_f n = c + hcost goal v"
      using set_pop_at [OF i] by auto
  next
    fix n
    assume "n \<in> set (openSet (st\<lparr>openSet := pop_at i (openSet st)\<rparr>))"
    then have "n \<in> set (openSet st)"
      using set_pop_at [OF i] by auto
    from open_scored [OF op this] show "\<exists>c. gScores (st\<lparr>openSet := pop_at i (openSet st)\<rparr>) (node_cell n) = Some c \<and>
        c \<le> node_g n \<and> node_f n = node_g n + hcost goal (node_cell n)"
      by simp
  qed
  with inv show ?thesis
    by (simp add: astar_inv_def scores_ok_def closed_ok_def)
qed

definition close :: "nat \<Rightarrow> AStar \<Rightarrow> AStar" where
  "close i st = st\<lparr>openSet := pop_at i (openSet st),
     closedSet := insert (node_cell (openSet st ! i)) (closedSet st)\<rparr>"

lemma close_simps [simp]:
  "openSet (close i st) = pop_at i (openSet st)" "gScores (close i st) = gScores st"
  "cameFrom (close i st) = cameFrom st"
  "closedSet (close i st) = insert (node_cell (openSet st ! i)) (closedSet st)"
  by (simp_all add: close_def)

lemma close_open:
  assumes op: "open_ok goal st" and i: "i < length (openSet st)"
  shows "open_ok goal (close i st)"
  unfolding open_ok_def close_simps
proof (intro conjI allI impI ballI)
  fix v c
  assume v: "gScores st v = Some c" "v \<notin> insert (node_cell (openSet st ! i)) (closedSet st)"
  then obtain n where "n \<in> set (openSet st)" "node_cell n = v" "node_f n = c + hcost goal v"
    using open_entry [OF op] by blast
  moreover have "n \<noteq> openSet st ! i"
    using calculation(2) v(2) by blast
  ultimately show "\<exists>n \<in> set (pop_at i (openSet st)). node_cell n = v \<and> node_f n = c + hcost goal v"
    using set_pop_at [OF i] by auto
next
  fix n
  assume "n \<in> set (pop_at i (openSet st))"
  then have "n \<in> set (openSet st)"
    using set_pop_at [OF i] by auto
  from open_scored [OF op this] show "\<exists>c. gScores st (node_cell n) = Some c \<and> c \<le> node_g n \<and>
      node_f n = node_g n + hcost goal (node_cell n)" .
qed

lemma close_inv:
  assumes inv: "astar_inv s goal cur (set directions) st" and i: "i < length (openSet st)"
    and v: "node_cell (openSet st ! i) = v" "v \<noteq> goal"
    and opt: "\<And>c n. gScores st v = Some c \<Longrightarrow> walks s n v \<Longrightarrow> c \<le> int n"
    and v_open: "v \<notin> closedSet st"
  shows "astar_inv s goal v {} (close i st)"
proof -
  have sc: "scores_ok s st" and op: "open_ok goal st" and co: "closed_ok s cur (set directions) st"
    and gl: "goal \<notin> closedSet st"
    using inv by (simp_all add: astar_inv_def)
  have "openSet st ! i \<in> set (openSet st)"
    using i by simp
  then obtain c where c: "gScores st v = Some c"
    using open_scored [OF op] v(1) by blast
  have "closed_ok s v {} (close i st)"
    unfolding closed_ok_def close_simps v(1)
  proof (intro ballI)
    fix u
    assume "u \<in> insert v (closedSet st)"
    then consider "u = v" | "u \<in> closedSet st" "u \<noteq> v"
      using v_open by blast
    then show "\<exists>c. gScores st u = Some c \<and> (\<forall>n. walks s n u \<longrightarrow> c \<le> int n) \<and>
        (\<forall>w. edge u w \<longrightarrow> (u = v \<longrightarrow> offset u w \<in> {}) \<longrightarrow> (\<exists>c'. gScores st w = Some c' \<and> c' \<le> c + 1))"
    proof cases
      case 1
      with c opt [OF c] show ?thesis
        by (intro exI [of _ c]) simp
    next
      case 2
      from closed_scored [OF co 2(1)] 2(2) edge_offset show ?thesis
        by blast
    qed
  qed
  moreover have "scores_ok s (close i st)"
    using sc unfolding scores_ok_def close_simps by blast
  ultimately show ?thesis
    using close_open [OF op i] gl v by (simp add: astar_inv_def)
qed

subsection \<open>The result\<close>

lemma rebuild_path:
  assumes sc: "scores_ok s st"
  shows "gScores st v = Some (int k) \<Longrightarrow> \<exists>path. rebuild s (cameFrom st) v = Some path \<and>
    length path = k \<and> is_path s (map node_cell path) \<and> (path \<noteq> [] \<longrightarrow> node_cell (hd path) = v) \<and>
    (path = [] \<longleftrightarrow> v = s)"
proof (induction k arbitrary: v)
  case 0
  have "v = s"
  proof (rule ccontr)
    assume "v \<noteq> s"
    from scores_parent [OF sc 0 this] scores_walk [OF sc] show False
      by force
  qed
  then show ?case
    by (subst rebuild.simps) simp
next
  case (Suc k)
  have vs: "v \<noteq> s"
    using scores_start [OF sc] Suc.prems by auto
  from scores_parent [OF sc Suc.prems vs] obtain u where u: "cameFrom st v = Some u" "edge u v"
    "gScores st u = Some (int k)"
    by auto
  from Suc.IH [OF u(3)] obtain path where p: "rebuild s (cameFrom st) u = Some path" "length path = k"
    "is_path s (map node_cell path)" "path \<noteq> [] \<longrightarrow> node_cell (hd path) = u" "path = [] \<longleftrightarrow> u = s"
    by blast
  let ?n = "\<lparr>node_x = fst v, node_y = snd v, node_g = 0, node_h = 0, node_f = 0\<rparr>"
  have r: "rebuild s (cameFrom st) v = Some (?n # path)"
    using vs u(1) p(1) by (subst rebuild.simps) simp
  have "is_path s (map node_cell (?n # path))"
    using u(2) p(3-5) by (cases path) (auto simp: node_cell_def)
  moreover have nc: "node_cell ?n = v"
    by (simp add: node_cell_def)
  ultimately show ?case
    using r p(2) vs by (intro exI [of _ "?n # path"]) (simp add: nc)
qed

lemma closed_complete:
  assumes inv: "astar_inv s goal cur (set directions) st" and "openSet st = []"
  shows "walks s n v \<Longrightarrow> v \<in> closedSet st"
proof (induction rule: walks.induct)
  case start
  show ?case
    using inv scores_start [of s st] open_entry [of goal st s 0] assms(2) by (auto simp: astar_inv_def)
next
  case (step n u v)
  have co: "closed_ok s cur (set directions) st" and op: "open_ok goal st"
    using inv by (simp_all add: astar_inv_def)
  from closed_scored [OF co step.IH] obtain c' where "gScores st v = Some c'"
    using step.hyps(2) edge_offset by blast
  with open_entry [OF op this] assms(2) show ?case
    by auto
qed

subsection \<open>Termination and correctness\<close>

definition world_cells :: "cell \<Rightarrow> cell set" where
  "world_cells s = insert s ({0..1999} \<times> {0..1999})"

lemma finite_world_cells [simp]: "finite (world_cells s)"
  by (simp add: world_cells_def)

lemma walks_world: "walks s n v \<Longrightarrow> v \<in> world_cells s"
proof (induction rule: walks.induct)
  case (step n u v)
  then show ?case
    using IsValidWorldPositionD [OF edge_valid [OF step.hyps(2)]]
    by (cases v) (auto simp: world_cells_def)
qed (simp add: world_cells_def)

lemma world_in_short: "in_short s \<Longrightarrow> v \<in> world_cells s \<Longrightarrow> in_short v"
  by (cases v) (auto simp: world_cells_def in_short_def)

definition path_result :: "cell \<Rightarrow> cell \<Rightarrow> NODE list \<Rightarrow> bool" where
  "path_result s goal path \<longleftrightarrow>
     (if path = [] then \<forall>n. \<not> walks s n goal
      else node_cell (hd path) = goal \<and> is_path s (map node_cell path) \<and>
           (\<forall>n. walks s n goal \<longrightarrow> length path \<le> n))"

context open_set
begin

lemma goal_popped:
  assumes inv: "astar_inv s goal cur (set directions) st" and ne: "openSet st \<noteq> []" "s \<noteq> goal"
    and v: "node_cell (openSet st ! pick (openSet st)) = goal"
  shows "\<exists>path. rebuild s (cameFrom st) goal = Some path \<and> path_result s goal path"
proof -
  have sc: "scores_ok s st" and op: "open_ok goal st" and gl: "goal \<notin> closedSet st"
    using inv by (simp_all add: astar_inv_def)
  obtain c where c: "gScores st goal = Some c"
    using open_scored [OF op pick_mem [OF ne(1)]] v by auto
  obtain k where k: "c = int k"
    using scores_walk [OF sc c] by blast
  have "k \<le> n" if "walks s n goal" for n
    using popped_optimal [OF inv ne(1) v gl c that] k by simp
  with rebuild_path [OF sc, of goal k] c k ne(2) show ?thesis
    by (auto simp: path_result_def)
qed

text \<open>A popped node that is neither closed nor the goal is closed and expanded: the invariant is kept and the
  measure of the loop decreases, since at most four nodes are pushed.\<close>

lemma expanded_step:
  fixes st s goal cur
  assumes inv: "astar_inv s goal cur (set directions) st" and sh: "in_short s" and ne: "openSet st \<noteq> []"
  defines "i \<equiv> pick (openSet st)"
  defines "n \<equiv> openSet st ! i"
  defines "st' \<equiv> fold (expand goal n) directions (close i st)"
  assumes nc: "node_cell n \<notin> closedSet st" and ng: "node_cell n \<noteq> goal"
  shows "astar_inv s goal (node_cell n) (set directions) st'"
    "5 * card (world_cells s - closedSet st') + length (openSet st') < 5 * card (world_cells s - closedSet st) + length (openSet st)"
proof -
  have i: "i < length (openSet st)"
    using pick_in [OF ne] by (simp add: i_def)
  have inv1: "astar_inv s goal (node_cell n) {} (close i st)"
    using close_inv [OF inv i refl ng [unfolded n_def] _ nc [unfolded n_def]]
      popped_optimal [OF inv ne refl nc [unfolded n_def i_def]] unfolding n_def i_def by blast
  have op: "open_ok goal st" and sc: "scores_ok s st"
    using inv by (simp_all add: astar_inv_def)
  obtain c where c: "gScores st (node_cell n) = Some c"
    using open_scored [OF op pick_mem [OF ne]] unfolding n_def i_def by blast
  have vw: "node_cell n \<in> world_cells s"
    using scores_walk [OF sc c] walks_world by blast
  have "node_cell n \<in> closedSet (close i st)"
    by (simp add: n_def)
  note e = expand_all_inv [OF inv1 this world_in_short [OF sh vw] refl subset_refl]
  show "astar_inv s goal (node_cell n) (set directions) st'"
    using e by (simp add: st'_def)
  have m: "card (world_cells s - insert (node_cell n) (closedSet st)) < card (world_cells s - closedSet st)"
    using vw nc by (intro psubset_card_mono) auto
  have "length directions = 4" "length (openSet (close i st)) = length (openSet st) - 1"
    by (simp add: directions_def) (simp add: length_pop_at [OF i])
  then have "length (openSet st') \<le> length (openSet st) + 3"
    using e i unfolding st'_def by linarith
  then show "5 * card (world_cells s - closedSet st') + length (openSet st') < 5 * card (world_cells s - closedSet st) + length (openSet st)"
    using m e by (simp add: st'_def n_def)
qed

lemma astar_loop_correct:
  assumes sh: "in_short s" and sg: "s \<noteq> goal"
  shows "astar_inv s goal cur (set directions) st \<Longrightarrow>
    \<exists>path. astar_loop pick s goal st = Some path \<and> path_result s goal path"
proof (induction "5 * card (world_cells s - closedSet st) + length (openSet st)" arbitrary: st cur
    rule: less_induct)
  case less
  show ?case
  proof (cases "openSet st = []")
    case True
    have "\<not> walks s n goal" for n
      using closed_complete [OF less.prems True, of n goal] less.prems by (auto simp: astar_inv_def)
    with True show ?thesis
      by (subst astar_loop.simps) (simp add: path_result_def)
  next
    case False
    let ?i = "pick (openSet st)"
    let ?v = "node_cell (openSet st ! ?i)"
    have i: "?i < length (openSet st)"
      using pick_in [OF False] .
    show ?thesis
    proof (cases "?v \<in> closedSet st")
      case True
      let ?st = "st\<lparr>openSet := pop_at ?i (openSet st)\<rparr>"
      have "5 * card (world_cells s - closedSet ?st) + length (openSet ?st)
          < 5 * card (world_cells s - closedSet st) + length (openSet st)"
        using i by (simp add: length_pop_at)
      from less.hyps [OF this pop_inv [OF less.prems i True]] False True show ?thesis
        by (subst astar_loop.simps) (simp add: Let_def)
    next
      case nc: False
      show ?thesis
      proof (cases "?v = goal")
        case True
        with goal_popped [OF less.prems False sg True] False nc show ?thesis
          by (subst astar_loop.simps) (simp add: Let_def)
      next
        case ng: False
        note x = expanded_step [OF less.prems sh False nc ng]
        have "\<exists>path. astar_loop pick s goal (fold (expand goal (openSet st ! ?i)) directions (close ?i st)) = Some path \<and>
            path_result s goal path"
          by (rule less.hyps [OF x(2,1)])
        then show ?thesis
          using False nc ng by (subst astar_loop.simps) (simp add: Let_def close_def)
      qed
    qed
  qed
qed

lemma init_inv: "s \<noteq> goal \<Longrightarrow> astar_inv s goal s (set directions) (astar_init s goal)"
  using walks.start [of s]
  by (auto simp: astar_inv_def scores_ok_def open_ok_def closed_ok_def astar_init_def Let_def node_cell_def
      hcost_def split: if_splits intro: exI [of _ 0])

lemma FindPath_result:
  assumes "in_short (sx, sy)" "(sx, sy) \<noteq> (gx, gy)"
  shows "\<exists>path. FindPath pick sx sy gx gy = Some path \<and> path_result (sx, sy) (gx, gy) path"
proof -
  have "FindPath pick sx sy gx gy = astar_loop pick (sx, sy) (gx, gy) (astar_init (sx, sy) (gx, gy))"
    using assms(2) by (auto simp: FindPath_def)
  with astar_loop_correct [OF assms init_inv [OF assms(2)]] show ?thesis
    by simp
qed

end

end
