(* ===== verification/PathProps.thy ===== *)
theory PathProps
  imports AStars
begin

text \<open>Properties of the path finding of the monsters.\<close>

text \<open>C21. The search for a path returns for every start and goal, whichever of several cheapest nodes the
  priority queue hands out.  An empty result means that no walk over free neighbouring tiles leads
  to the goal; otherwise the result is such a walk, goal first, and no walk is shorter.\<close>

theorem FindPath_shortest:
  assumes "open_set pick" "in_short (sx, sy)" "(sx, sy) \<noteq> (gx, gy)"
  shows "\<exists>path. FindPath pick sx sy gx gy = Some path \<and> path_result (sx, sy) (gx, gy) path"
  using open_set.FindPath_result [OF assms] .

theorem FindPath_shortest_witness:
  "\<exists>path. FindPath pick_first 0 0 1 1 = Some path \<and> path_result (0, 0) (1, 1) path"
  by (rule FindPath_shortest [OF pick_first.open_set_axioms]) (simp_all add: in_short_def)

end
