(* ===== verification/Subjects.thy ===== *)
theory Subjects
  imports Sectors AStars Inventories Zones
begin

text \<open>
  The objects of the world: \<^verbatim>\<open>Transform/Transform.h\<close>, \<^verbatim>\<open>Subject/Subject.h\<close>, \<^verbatim>\<open>User/User.h\<close>,
  \<^verbatim>\<open>Monster/Monster.h\<close> and their \<^verbatim>\<open>InitInstance\<close>, and the predicates of
  \<^verbatim>\<open>Subject/SubjectHelper.cpp\<close>.  The class hierarchy is one record for the members of
  \<^verbatim>\<open>Transform\<close> and \<^verbatim>\<open>Subject\<close> and a datatype for the dynamic class; an item has no \<^verbatim>\<open>Stat\<close>
  (its \<^verbatim>\<open>InitInstance\<close> does not allocate one), so the constructor \<open>ItemB\<close> has none.
\<close>

datatype MONSTER_TYPE = AGGRO | PASSIVE

fun mtype_val :: "MONSTER_TYPE \<Rightarrow> uint8" where
  "mtype_val AGGRO = 0"
| "mtype_val PASSIVE = 1"

record UserData =
  m_lastMoveTime :: uint32
  m_lastAttackTime :: uint32
  m_lastSkillTime :: uint32
  m_lastPotionUseTime :: uint32
  m_session :: "SessionId option"
  m_slots :: "uint16 \<rightharpoonup> Item"
  m_playerId :: int

record MonsterData =
  m_Type :: MONSTER_TYPE
  m_AstarPath :: "NODE list"
  m_Active :: bool
  m_Attack :: bool
  m_spawnX :: short
  m_spawnY :: short
  m_pathGoalX :: short
  m_pathGoalY :: short
  m_viewList :: "ObjID list"

datatype SubjectBody =
    UserB (body_stat: Stat) (body_user: UserData)
  | MonsterB (body_stat: Stat) (body_monster: MonsterData)
  | ItemB (body_item: Item)

record Subject =
  m_SubjID :: ObjID
  m_SubjName :: string
  m_facingLeft :: bool
  m_x :: short
  m_y :: short
  m_sectorX :: short
  m_sectorY :: short
  m_zoneId :: ZoneId
  m_transferring :: bool
  m_body :: SubjectBody

definition newSubject :: "ObjID \<Rightarrow> SubjectBody \<Rightarrow> Subject" where
  "newSubject i b = \<lparr>m_SubjID = i, m_SubjName = [], m_facingLeft = False, m_x = -1, m_y = -1,
     m_sectorX = -1, m_sectorY = -1, m_zoneId = InvalidZoneId, m_transferring = False, m_body = b\<rparr>"

abbreviation subj_stat :: "Subject \<Rightarrow> Stat" where
  "subj_stat s \<equiv> body_stat (m_body s)"

abbreviation subj_user :: "Subject \<Rightarrow> UserData" where
  "subj_user s \<equiv> body_user (m_body s)"

abbreviation subj_monster :: "Subject \<Rightarrow> MonsterData" where
  "subj_monster s \<equiv> body_monster (m_body s)"

abbreviation subj_item :: "Subject \<Rightarrow> Item" where
  "subj_item s \<equiv> body_item (m_body s)"

fun map_stat :: "(Stat \<Rightarrow> Stat) \<Rightarrow> SubjectBody \<Rightarrow> SubjectBody" where
  "map_stat f (UserB st u) = UserB (f st) u"
| "map_stat f (MonsterB st m) = MonsterB (f st) m"
| "map_stat f (ItemB it) = ItemB it"

fun map_user :: "(UserData \<Rightarrow> UserData) \<Rightarrow> SubjectBody \<Rightarrow> SubjectBody" where
  "map_user f (UserB st u) = UserB st (f u)"
| "map_user f b = b"

fun map_monster :: "(MonsterData \<Rightarrow> MonsterData) \<Rightarrow> SubjectBody \<Rightarrow> SubjectBody" where
  "map_monster f (MonsterB st m) = MonsterB st (f m)"
| "map_monster f b = b"

fun map_item :: "(Item \<Rightarrow> Item) \<Rightarrow> SubjectBody \<Rightarrow> SubjectBody" where
  "map_item f (ItemB it) = ItemB (f it)"
| "map_item f b = b"

subsection \<open>Construction\<close>

definition UpdateFacing :: "int \<Rightarrow> Subject \<Rightarrow> Subject" where
  "UpdateFacing dx s = (if dx \<noteq> 0 then s\<lparr>m_facingLeft := (dx < 0)\<rparr> else s)"

definition Transform_Reset :: "Subject \<Rightarrow> Subject" where
  "Transform_Reset s = s\<lparr>m_x := -1, m_y := -1, m_sectorX := -1, m_sectorY := -1\<rparr>"

definition ClearPath :: "MonsterData \<Rightarrow> MonsterData" where
  "ClearPath m = m\<lparr>m_AstarPath := [], m_pathGoalX := -1, m_pathGoalY := -1\<rparr>"

definition HasCachedPathTo :: "short \<Rightarrow> short \<Rightarrow> MonsterData \<Rightarrow> bool" where
  "HasCachedPathTo x y m \<longleftrightarrow> m_pathGoalX m = x \<and> m_pathGoalY m = y \<and> m_AstarPath m \<noteq> []"

text \<open>The state after \<^verbatim>\<open>TryActivate\<close>, and whether the caller was the first to activate.\<close>

definition TryActivate :: "MonsterData \<Rightarrow> bool \<times> MonsterData" where
  "TryActivate m = (\<not> m_Active m, m\<lparr>m_Active := True\<rparr>)"

fun decimal :: "nat \<Rightarrow> string" where
  "decimal n = (if n < 10 then [char_of (48 + n)] else decimal (n div 10) @ [char_of (48 + n mod 10)])"

declare decimal.simps [simp del]

definition User_InitInstance :: "ObjID \<Rightarrow> Subject" where
  "User_InitInstance i =
     newSubject i (UserB
       (newStat\<lparr>m_maxHp := PLAYER_MAX_HP, m_hp := PLAYER_MAX_HP, m_offensive := PLAYER_OFFENSIVE,
                m_die := False\<rparr>)
       \<lparr>m_lastMoveTime = 0, m_lastAttackTime = 0, m_lastSkillTime = 0, m_lastPotionUseTime = 0,
        m_session = None, m_slots = Map.empty, m_playerId = 0\<rparr>)"

definition Monster_InitInstance :: "ObjID \<Rightarrow> Subject" where
  "Monster_InitInstance i =
     (newSubject i (MonsterB
       (newStat\<lparr>m_maxHp := MONSTER_MAX_HP, m_hp := MONSTER_MAX_HP, m_offensive := MONSTER_OFFENSIVE,
                m_die := False\<rparr>)
       (ClearPath
         \<lparr>m_Type = (if m_DatabaseID i \<le> ucast AGGRO_MONSTER_BOUNDARY then AGGRO else PASSIVE),
          m_AstarPath = [], m_Active = False, m_Attack = False, m_spawnX = 0, m_spawnY = 0,
          m_pathGoalX = -1, m_pathGoalY = -1, m_viewList = []\<rparr>)))
     \<lparr>m_SubjName := ''Monster'' @ decimal (unat (m_DatabaseID i))\<rparr>"

definition MakeNewSubject :: "ObjID \<Rightarrow> Subject option" where
  "MakeNewSubject e = (if hasCategory eMonster e then Some (Monster_InitInstance e) else None)"

subsection \<open>Views\<close>

definition CanSee :: "Subject \<Rightarrow> Subject \<Rightarrow> bool" where
  "CanSee a b =
     (if \<bar>m_x a - m_x b\<bar> > VIEW_RANGE then False else \<bar>m_y a - m_y b\<bar> \<le> VIEW_RANGE)"

definition IsAdjacent :: "Subject \<Rightarrow> Subject \<Rightarrow> bool" where
  "IsAdjacent a b \<longleftrightarrow> \<bar>m_x b - m_x a\<bar> + \<bar>m_y b - m_y a\<bar> = 1"

definition CanAttack :: "Subject \<Rightarrow> Subject \<Rightarrow> bool" where
  "CanAttack a b =
     (let dx = m_x b - m_x a; dy = m_y b - m_y a in
      if \<bar>dx\<bar> + \<bar>dy\<bar> \<noteq> 1 then False
      else if dx > 0 \<and> m_facingLeft a then False
      else if dx < 0 \<and> \<not> m_facingLeft a then False
      else True)"

subsection \<open>Facts\<close>

lemma CanSee_sees: "CanSee a b \<longleftrightarrow> sees (m_x a, m_y a) (m_x b, m_y b)"
  by (auto simp: CanSee_def sees_def)

lemma CanAttack_adjacent: "CanAttack a b \<Longrightarrow> IsAdjacent a b"
  by (auto simp: CanAttack_def IsAdjacent_def Let_def split: if_splits)

lemma IsAdjacent_sees: "IsAdjacent a b \<Longrightarrow> CanSee a b"
  unfolding IsAdjacent_def CanSee_def VIEW_RANGE_def by (simp split: if_split) linarith

lemma map_body_simps [simp]:
  "is_UserB (map_stat f b) = is_UserB b" "is_MonsterB (map_stat f b) = is_MonsterB b"
  "is_ItemB (map_stat f b) = is_ItemB b"
  "is_UserB (map_user g b) = is_UserB b" "is_MonsterB (map_user g b) = is_MonsterB b"
  "is_ItemB (map_user g b) = is_ItemB b"
  "is_UserB (map_monster h b) = is_UserB b" "is_MonsterB (map_monster h b) = is_MonsterB b"
  "is_ItemB (map_monster h b) = is_ItemB b"
  "is_UserB (map_item k b) = is_UserB b" "is_MonsterB (map_item k b) = is_MonsterB b"
  "is_ItemB (map_item k b) = is_ItemB b"
  by (cases b; simp)+

end
