(* ===== verification/Worlds.thy ===== *)
theory Worlds
  imports Subjects Timers Protocols
begin

text \<open>
  The state the game logic works on and the operations every handler uses: the object table of
  \<^verbatim>\<open>GameObject/GameObjectManager.h\<close>, the session table of \<^verbatim>\<open>Monster/GameSessionManager.cpp\<close>, the
  scan of the neighbouring sectors and the \<^verbatim>\<open>Send...\<close> functions of \<^verbatim>\<open>User/UserHelper.cpp\<close>.

  A shared pointer to an object is its \<open>ObjID\<close>; the weak pointer from a session to its user can be
  locked as long as the object table has the user, because nothing else keeps a user alive between
  tasks.  A \<open>Thread\<close> is the thread that runs a task: the zone of its thread-local \<^verbatim>\<open>GSector\<close> and
  \<^verbatim>\<open>LCurrentZoneId\<close> (an invalid zone is the default thread, whose \<^verbatim>\<open>GSector\<close> is null) and the values
  it reads from outside the program: the clock, the random generator, and the unspecified orders
  of the hash containers and of the A* queue.  The \<open>n\<close>-th value read is a function of \<open>n\<close>; the
  world counts the reads in \<open>ticks\<close>.  A result \<open>None\<close> is a failed \<^verbatim>\<open>ASSERT_CRASH\<close>, a null
  dereference or a retry loop that never ends.
\<close>

datatype SOCKET_STATE = ST_FREE | ST_ALLOC | ST_INGAME

text \<open>What the game logic sees of a session; \<open>cs_posted\<close> are the packets given to \<^verbatim>\<open>PostSend\<close>
  while the socket was open, and \<open>Sessions\<close> shows how they reach the peer.\<close>

record ClientSession =
  cs_open :: bool
  cs_state :: SOCKET_STATE
  cs_objectId :: uint32
  cs_routing :: ZoneId
  cs_owner :: "ObjID option"
  cs_posted :: "ServerPacket list"

record World =
  objects :: "ObjID \<rightharpoonup> Subject"
  grids :: "ZoneId \<Rightarrow> Sector"
  zmgr :: ZoneManager
  timer :: TimerThread
  sessions :: "SessionId \<Rightarrow> ClientSession"
  registry :: "SessionId set"
  nextSession :: SessionId
  nextObjectId :: uint32
  nextFieldItemId :: uint64
  dbRequests :: "DbRequest list"
  ticks :: nat

record Thread =
  t_zone :: ZoneId
  t_now :: "nat \<Rightarrow> int"
  t_nowms :: "nat \<Rightarrow> uint32"
  t_iter :: slot_iter
  t_ord :: set_order
  t_pick :: "NODE list \<Rightarrow> nat"
  t_uniform :: "nat \<Rightarrow> short \<Rightarrow> short \<Rightarrow> short"
  t_bits :: "nat \<Rightarrow> nat"
  t_roll :: "nat \<Rightarrow> nat"
  t_count :: "nat \<Rightarrow> uint16 \<Rightarrow> uint16 \<Rightarrow> uint16"

definition tick :: "World \<Rightarrow> World" where
  "tick w = w\<lparr>ticks := Suc (ticks w)\<rparr>"

subsection \<open>The object table\<close>

definition Insert :: "ObjID \<Rightarrow> Subject \<Rightarrow> World \<Rightarrow> bool \<times> World" where
  "Insert objID gameObject w =
     (case objects w objID of
        Some _ \<Rightarrow> (False, w)
      | None \<Rightarrow> (True, w\<lparr>objects := (objects w)(objID \<mapsto> gameObject)\<rparr>))"

definition Delete :: "ObjID \<Rightarrow> World \<Rightarrow> World" where
  "Delete objID w = w\<lparr>objects := (objects w)(objID := None)\<rparr>"

definition GetSubject :: "World \<Rightarrow> ObjID \<Rightarrow> Subject option" where
  "GetSubject w objID = objects w objID"

definition GetUser :: "World \<Rightarrow> ObjID \<Rightarrow> Subject option" where
  "GetUser w objID = (if \<not> hasCategory eUser objID then None else objects w objID)"

definition GetMonster :: "World \<Rightarrow> ObjID \<Rightarrow> Subject option" where
  "GetMonster w objID = (if \<not> hasCategory eMonster objID then None else objects w objID)"

definition GetItem :: "World \<Rightarrow> ObjID \<Rightarrow> Subject option" where
  "GetItem w objID =
     (case objects w objID of None \<Rightarrow> None | Some s \<Rightarrow> if is_ItemB (m_body s) then Some s else None)"

text \<open>Writing a member through a pointer.\<close>

definition upd_obj :: "ObjID \<Rightarrow> (Subject \<Rightarrow> Subject) \<Rightarrow> World \<Rightarrow> World" where
  "upd_obj i f w = w\<lparr>objects := (objects w)(i := map_option f (objects w i))\<rparr>"

abbreviation upd_body :: "ObjID \<Rightarrow> (SubjectBody \<Rightarrow> SubjectBody) \<Rightarrow> World \<Rightarrow> World" where
  "upd_body i f \<equiv> upd_obj i (\<lambda>s. s\<lparr>m_body := f (m_body s)\<rparr>)"

abbreviation upd_stat :: "ObjID \<Rightarrow> (Stat \<Rightarrow> Stat) \<Rightarrow> World \<Rightarrow> World" where
  "upd_stat i f \<equiv> upd_body i (map_stat f)"

abbreviation upd_user :: "ObjID \<Rightarrow> (UserData \<Rightarrow> UserData) \<Rightarrow> World \<Rightarrow> World" where
  "upd_user i f \<equiv> upd_body i (map_user f)"

abbreviation upd_monster :: "ObjID \<Rightarrow> (MonsterData \<Rightarrow> MonsterData) \<Rightarrow> World \<Rightarrow> World" where
  "upd_monster i f \<equiv> upd_body i (map_monster f)"

subsection \<open>Sessions\<close>

definition upd_session :: "SessionId \<Rightarrow> (ClientSession \<Rightarrow> ClientSession) \<Rightarrow> World \<Rightarrow> World" where
  "upd_session sid f w = w\<lparr>sessions := (sessions w)(sid := f (sessions w sid))\<rparr>"

definition newClientSession :: "uint32 \<Rightarrow> ClientSession" where
  "newClientSession oid = \<lparr>cs_open = False, cs_state = ST_FREE, cs_objectId = oid,
     cs_routing = InvalidZoneId, cs_owner = None, cs_posted = []\<rparr>"

definition CreateSession :: "World \<Rightarrow> SessionId option \<times> World" where
  "CreateSession w =
     (if nextObjectId w \<ge> MONSTER_ID_START then (None, w)
      else let sid = nextSession w in
        (Some sid, w\<lparr>sessions := (sessions w)(sid := newClientSession (nextObjectId w)),
                     nextSession := Suc sid, nextObjectId := nextObjectId w + 1,
                     registry := insert sid (registry w)\<rparr>))"

definition FindSession :: "World \<Rightarrow> SessionId \<Rightarrow> SessionId option" where
  "FindSession w key = (if key \<in> registry w then Some key else None)"

definition ReleaseSession :: "SessionId \<Rightarrow> World \<Rightarrow> World" where
  "ReleaseSession key w = w\<lparr>registry := registry w - {key}\<rparr>"

definition BindOwner :: "ObjID \<Rightarrow> ClientSession \<Rightarrow> ClientSession" where
  "BindOwner owner s = s\<lparr>cs_owner := Some owner\<rparr>"

definition GetOwner :: "World \<Rightarrow> SessionId \<Rightarrow> ObjID option" where
  "GetOwner w sid =
     (case cs_owner (sessions w sid) of
        None \<Rightarrow> None
      | Some i \<Rightarrow> if GetUser w i = None then None else Some i)"

definition CloseSession :: "SessionId \<Rightarrow> World \<Rightarrow> World" where
  "CloseSession sid = upd_session sid (\<lambda>s. s\<lparr>cs_open := False\<rparr>)"

definition post :: "SessionId \<Rightarrow> ServerPacket \<Rightarrow> World \<Rightarrow> World" where
  "post sid packet =
     upd_session sid (\<lambda>s. if cs_open s then s\<lparr>cs_posted := cs_posted s @ [packet]\<rparr> else s)"

definition GetSession :: "Subject \<Rightarrow> SessionId option" where
  "GetSession sender = m_session (subj_user sender)"

definition send :: "Subject \<Rightarrow> ServerPacket \<Rightarrow> World \<Rightarrow> World" where
  "send sender packet w = (case GetSession sender of None \<Rightarrow> w | Some sid \<Rightarrow> post sid packet w)"

text \<open>The test before every notification: a session, and in the state \<^verbatim>\<open>ST_INGAME\<close>.\<close>

definition in_game :: "World \<Rightarrow> Subject \<Rightarrow> bool" where
  "in_game w user =
     (case GetSession user of None \<Rightarrow> False | Some sid \<Rightarrow> cs_state (sessions w sid) = ST_INGAME)"

subsection \<open>The grid of the running thread\<close>

definition grid :: "Thread \<Rightarrow> World \<Rightarrow> Sector option" where
  "grid th w = (if IsValidZoneId (t_zone th) then Some (grids w (t_zone th)) else None)"

definition set_grid :: "Thread \<Rightarrow> Sector \<Rightarrow> World \<Rightarrow> World" where
  "set_grid th g w = w\<lparr>grids := (grids w)(t_zone th := g)\<rparr>"

definition ForEachNeighborObject :: "Thread \<Rightarrow> World \<Rightarrow> Subject \<Rightarrow> Subject list option" where
  "ForEachNeighborObject th w s = do {
     g \<leftarrow> grid th w;
     Some (CollectNeighborObjects (t_ord th) (GetSubject w) g (m_sectorX s) (m_sectorY s)) }"

definition NeighborObjIDs :: "Thread \<Rightarrow> World \<Rightarrow> Subject \<Rightarrow> ObjID list option" where
  "NeighborObjIDs th w s = do {
     g \<leftarrow> grid th w;
     Some (ForEachNeighborObjID (t_ord th) g (m_sectorX s) (m_sectorY s)) }"

definition world_RemoveObject :: "Thread \<Rightarrow> ObjID \<Rightarrow> World \<Rightarrow> World option" where
  "world_RemoveObject th i w = do {
     s \<leftarrow> objects w i;
     g \<leftarrow> grid th w;
     (sec, g) \<leftarrow> RemoveObject i (m_sectorX s, m_sectorY s) g;
     Some (upd_obj i (\<lambda>s. s\<lparr>m_sectorX := fst sec, m_sectorY := snd sec\<rparr>) (set_grid th g w)) }"

definition schedule ::
    "Thread \<Rightarrow> ObjID \<Rightarrow> int \<Rightarrow> TIMER_EVENT_TYPE \<Rightarrow> ObjID \<Rightarrow> World \<Rightarrow> World" where
  "schedule th subjectId delay eventType targetId w =
     tick (w\<lparr>timer := ScheduleAfter (t_zone th) (t_now th (ticks w)) subjectId delay eventType targetId (timer w)\<rparr>)"

abbreviation msecs :: "int \<Rightarrow> int" where "msecs n \<equiv> n * 1000000"
abbreviation secs :: "int \<Rightarrow> int" where "secs n \<equiv> n * 1000000000"

fun for_each :: "('a \<Rightarrow> 's \<Rightarrow> 's option) \<Rightarrow> 'a list \<Rightarrow> 's \<Rightarrow> 's option" where
  "for_each f [] w = Some w"
| "for_each f (x # xs) w = do { w \<leftarrow> f x w; for_each f xs w }"

end
