(* ===== verification/Sends.thy ===== *)
theory Sends
  imports Worlds
begin

text \<open>
  The packet builders of \<^verbatim>\<open>User/UserHelper.cpp\<close>.  The sender or viewer is the object whose session
  gets the packet; the functions that assert that a slot is filled may crash and return an option.
\<close>

definition FillItemSlotData :: "uint16 \<Rightarrow> Item option \<Rightarrow> ITEM_SLOT_DATA" where
  "FillItemSlotData slotIndex item =
     (case item of
        None \<Rightarrow> \<lparr>sd_slotIndex = slotIndex, sd_itemId = 0, sd_count = 0, sd_equipped = 0\<rparr>
      | Some it \<Rightarrow> \<lparr>sd_slotIndex = slotIndex, sd_itemId = m_itemTableId it, sd_count = m_count it,
                    sd_equipped = (if IsEquipped it then 1 else 0)\<rparr>)"

definition SendSUBJECT_MOVE_NFY :: "Subject \<Rightarrow> Subject \<Rightarrow> World \<Rightarrow> World" where
  "SendSUBJECT_MOVE_NFY sender target =
     send sender (SUBJECT_MOVE_NFY_PACKET (m_SubjID target) (m_x target) (m_y target) 0)"

definition SendSUBJECT_ADD_NFY :: "Thread \<Rightarrow> Subject \<Rightarrow> Subject \<Rightarrow> World \<Rightarrow> World" where
  "SendSUBJECT_ADD_NFY th sender target =
     (let i = m_SubjID target;
          monster_type = (if hasCategory eMonster i then mtype_val (m_Type (subj_monster target)) else 0);
          itemId = (if hasCategory eMonster i then 0
                    else if hasCategory eUser i
                    then GetEquippedItemId (t_iter th) (m_slots (subj_user target))
                    else if hasCategory eItem i then m_itemTableId (subj_item target) else 0)
      in send sender (SUBJECT_ADD_NFY_PACKET monster_type i (m_x target) (m_y target) (m_SubjName target) itemId))"

definition SendSUBJECT_EQUIP_CHANGE_NFY :: "Subject \<Rightarrow> ObjID \<Rightarrow> uint16 \<Rightarrow> World \<Rightarrow> World" where
  "SendSUBJECT_EQUIP_CHANGE_NFY sender targetId itemId =
     send sender (SUBJECT_EQUIP_CHANGE_NFY_PACKET targetId itemId)"

definition BroadcastEquipChange :: "Thread \<Rightarrow> ObjID \<Rightarrow> World \<Rightarrow> World option" where
  "BroadcastEquipChange th playerId w = do {
     player \<leftarrow> objects w playerId;
     let itemId = GetEquippedItemId (t_iter th) (m_slots (subj_user player));
     near \<leftarrow> ForEachNeighborObject th w player;
     Some (fold (\<lambda>viewer w.
       if \<not> hasCategory eUser (m_SubjID viewer) then w
       else if \<not> in_game w viewer then w
       else if \<not> CanSee viewer player then w
       else SendSUBJECT_EQUIP_CHANGE_NFY viewer playerId itemId w) near w) }"

definition SendSUBJECT_REMOVE_NFY :: "Subject \<Rightarrow> ObjID \<Rightarrow> World \<Rightarrow> World" where
  "SendSUBJECT_REMOVE_NFY sender targetId = send sender (SUBJECT_REMOVE_NFY_PACKET targetId)"

definition SendUSER_LOGIN_ACK :: "Subject \<Rightarrow> World \<Rightarrow> World" where
  "SendUSER_LOGIN_ACK sender =
     send sender (USER_LOGIN_ACK_PACKET (m_SubjID sender) (m_x sender) (m_y sender)
       (m_maxHp (subj_stat sender)) (m_hp (subj_stat sender)) (m_level (subj_stat sender))
       (m_exp (subj_stat sender)))"

definition SendUSER_ATTACK_ACK :: "Subject \<Rightarrow> Subject \<Rightarrow> int \<Rightarrow> World \<Rightarrow> World" where
  "SendUSER_ATTACK_ACK sender target damage =
     send sender (USER_ATTACK_ACK_PACKET (m_SubjID target) (uint (m_hp (subj_stat target))) damage)"

definition SendSUBJECT_DIE_NFY :: "Subject \<Rightarrow> Subject \<Rightarrow> World \<Rightarrow> World" where
  "SendSUBJECT_DIE_NFY sender target =
     send sender (SUBJECT_DIE_NFY_PACKET (m_SubjID target) (m_hp (subj_stat target)))"

definition SendSUBJECT_RESPAWN_NFY :: "Subject \<Rightarrow> Subject \<Rightarrow> World \<Rightarrow> World" where
  "SendSUBJECT_RESPAWN_NFY sender target =
     (let monster_type = (if hasCategory eMonster (m_SubjID target)
                          then mtype_val (m_Type (subj_monster target)) else 0)
      in send sender (SUBJECT_RESPAWN_NFY_PACKET monster_type (m_SubjID target) (m_x target) (m_y target)
           (m_hp (subj_stat target)) (m_SubjName target)))"

definition SendSUBJECT_ATTACK_NFY :: "Subject \<Rightarrow> ObjID \<Rightarrow> ObjID \<Rightarrow> int \<Rightarrow> World \<Rightarrow> World" where
  "SendSUBJECT_ATTACK_NFY viewer victimId attackerId victimHp =
     send viewer (SUBJECT_ATTACK_NFY_PACKET victimId attackerId victimHp)"

definition SendPLAYER_ATTACK_NFY :: "Subject \<Rightarrow> ObjID \<Rightarrow> uint8 \<Rightarrow> World \<Rightarrow> World" where
  "SendPLAYER_ATTACK_NFY viewer attackerId facing = send viewer (PLAYER_ATTACK_NFY_PACKET attackerId facing)"

definition SendSC_CHAT :: "Subject \<Rightarrow> ObjID \<Rightarrow> string \<Rightarrow> World \<Rightarrow> World" where
  "SendSC_CHAT viewer senderId mess = send viewer (SC_CHAT_PACKET senderId mess)"

definition SendUSER_HEAL_INF :: "Subject \<Rightarrow> World \<Rightarrow> World" where
  "SendUSER_HEAL_INF sender = send sender (USER_HEAL_INF_PACKET (uint (m_hp (subj_stat sender))))"

definition SendUSER_STAT_CHANGE_INF :: "Subject \<Rightarrow> World \<Rightarrow> World" where
  "SendUSER_STAT_CHANGE_INF sender =
     (let st = subj_stat sender
      in send sender (USER_STAT_CHANGE_INF_PACKET (m_level st) (m_hp st) (m_maxHp st) (m_exp st)))"

definition SendITEM_LIST_ACK :: "Thread \<Rightarrow> Subject \<Rightarrow> World \<Rightarrow> World" where
  "SendITEM_LIST_ACK th sender =
     (let slots = m_slots (subj_user sender);
          items = map (\<lambda>k. FillItemSlotData k (slots k)) (take ITEM_LIST_SLOTS (t_iter th slots))
      in send sender (ITEM_LIST_ACK_PACKET (of_nat (length items)) items))"

definition SendITEM_EQUIP_ACK :: "Subject \<Rightarrow> uint16 \<Rightarrow> bool \<Rightarrow> World \<Rightarrow> World option" where
  "SendITEM_EQUIP_ACK sender slotIndex success w =
     (case GetSession sender of
        None \<Rightarrow> Some w
      | Some sid \<Rightarrow> do {
          data \<leftarrow> (if success
                   then do { it \<leftarrow> m_slots (subj_user sender) slotIndex;
                             Some (FillItemSlotData slotIndex (Some it)) }
                   else Some (noSlot\<lparr>sd_slotIndex := slotIndex\<rparr>));
          Some (post sid (ITEM_EQUIP_ACK_PACKET success data) w) })"

definition SendITEM_UNEQUIP_ACK :: "Subject \<Rightarrow> uint16 \<Rightarrow> bool \<Rightarrow> World \<Rightarrow> World option" where
  "SendITEM_UNEQUIP_ACK sender slotIndex success w =
     (case GetSession sender of
        None \<Rightarrow> Some w
      | Some sid \<Rightarrow> do {
          data \<leftarrow> (if success
                   then do { it \<leftarrow> m_slots (subj_user sender) slotIndex;
                             Some (FillItemSlotData slotIndex (Some it)) }
                   else Some (noSlot\<lparr>sd_slotIndex := slotIndex\<rparr>));
          Some (post sid (ITEM_UNEQUIP_ACK_PACKET success data) w) })"

definition SendITEM_SWAP_ACK :: "Subject \<Rightarrow> uint16 \<Rightarrow> uint16 \<Rightarrow> bool \<Rightarrow> World \<Rightarrow> World" where
  "SendITEM_SWAP_ACK sender slotIndexA slotIndexB success =
     (let slots = m_slots (subj_user sender);
          fill = (\<lambda>k. if success then FillItemSlotData k (slots k) else noSlot\<lparr>sd_slotIndex := k\<rparr>)
      in send sender (ITEM_SWAP_ACK_PACKET success (fill slotIndexA) (fill slotIndexB)))"

definition SendITEM_ACQUIRE_INF :: "Subject \<Rightarrow> uint16 \<Rightarrow> World \<Rightarrow> World option" where
  "SendITEM_ACQUIRE_INF sender slotIndex w =
     (case GetSession sender of
        None \<Rightarrow> Some w
      | Some sid \<Rightarrow> do {
          it \<leftarrow> m_slots (subj_user sender) slotIndex;
          Some (post sid (ITEM_ACQUIRE_INF_PACKET (FillItemSlotData slotIndex (Some it))) w) })"

definition SendSYSTEM_MESSAGE_INF :: "Subject \<Rightarrow> SystemMessageCode \<Rightarrow> int \<Rightarrow> int \<Rightarrow> World \<Rightarrow> World" where
  "SendSYSTEM_MESSAGE_INF sender code param1 param2 =
     send sender (SYSTEM_MESSAGE_INF_PACKET code param1 param2)"

definition SendITEM_DISCARD_ACK :: "Subject \<Rightarrow> uint16 \<Rightarrow> bool \<Rightarrow> World \<Rightarrow> World" where
  "SendITEM_DISCARD_ACK sender slotIndex success =
     send sender (ITEM_DISCARD_ACK_PACKET success
       (if success then FillItemSlotData slotIndex (m_slots (subj_user sender) slotIndex)
        else noSlot\<lparr>sd_slotIndex := slotIndex\<rparr>))"

definition SendITEM_USE_ACK :: "Subject \<Rightarrow> uint16 \<Rightarrow> bool \<Rightarrow> World \<Rightarrow> World" where
  "SendITEM_USE_ACK sender slotIndex success =
     send sender (ITEM_USE_ACK_PACKET success
       (if success then FillItemSlotData slotIndex (m_slots (subj_user sender) slotIndex)
        else noSlot\<lparr>sd_slotIndex := slotIndex\<rparr>))"

definition SendITEM_PICKUP_ACK :: "Subject \<Rightarrow> bool \<Rightarrow> World \<Rightarrow> World" where
  "SendITEM_PICKUP_ACK sender success = send sender (ITEM_PICKUP_ACK_PACKET success)"

lemmas send_defs = SendSUBJECT_MOVE_NFY_def SendSUBJECT_ADD_NFY_def SendSUBJECT_EQUIP_CHANGE_NFY_def
  SendSUBJECT_REMOVE_NFY_def SendUSER_LOGIN_ACK_def SendUSER_ATTACK_ACK_def SendSUBJECT_DIE_NFY_def
  SendSUBJECT_RESPAWN_NFY_def SendSUBJECT_ATTACK_NFY_def SendPLAYER_ATTACK_NFY_def SendSC_CHAT_def
  SendUSER_HEAL_INF_def SendUSER_STAT_CHANGE_INF_def SendITEM_LIST_ACK_def SendITEM_SWAP_ACK_def
  SendSYSTEM_MESSAGE_INF_def SendITEM_DISCARD_ACK_def SendITEM_USE_ACK_def SendITEM_PICKUP_ACK_def

subsection \<open>A send touches nothing but the posted packets\<close>

text \<open>Two worlds that differ at most in the posted packets.\<close>

definition sent :: "World \<Rightarrow> World \<Rightarrow> bool" where
  "sent w w' \<longleftrightarrow> (\<exists>ss. w' = w\<lparr>sessions := ss\<rparr> \<and>
     (\<forall>k. \<exists>ps. ss k = (sessions w k)\<lparr>cs_posted := cs_posted (sessions w k) @ ps\<rparr>))"

lemma sent_refl [simp]: "sent w w"
  by (auto simp: sent_def intro!: exI [of _ "sessions w"] exI [of _ "[]"])

lemma sent_trans: "sent w w' \<Longrightarrow> sent w' w'' \<Longrightarrow> sent w w''"
  unfolding sent_def
proof (elim exE conjE)
  fix ss ss'
  assume a: "w' = w\<lparr>sessions := ss\<rparr>"
    "\<forall>k. \<exists>ps. ss k = (sessions w k)\<lparr>cs_posted := cs_posted (sessions w k) @ ps\<rparr>"
    and b: "w'' = w'\<lparr>sessions := ss'\<rparr>"
    "\<forall>k. \<exists>ps. ss' k = (sessions w' k)\<lparr>cs_posted := cs_posted (sessions w' k) @ ps\<rparr>"
  have "\<exists>ps. ss' k = (sessions w k)\<lparr>cs_posted := cs_posted (sessions w k) @ ps\<rparr>" for k
  proof -
    obtain ps where p: "ss k = (sessions w k)\<lparr>cs_posted := cs_posted (sessions w k) @ ps\<rparr>"
      using a(2) by blast
    obtain qs where q: "ss' k = (ss k)\<lparr>cs_posted := cs_posted (ss k) @ qs\<rparr>"
      using b(2) a(1) by auto
    show ?thesis
      by (intro exI [of _ "ps @ qs"]) (simp add: p q)
  qed
  then show "\<exists>ss. w'' = w\<lparr>sessions := ss\<rparr> \<and>
      (\<forall>k. \<exists>ps. ss k = (sessions w k)\<lparr>cs_posted := cs_posted (sessions w k) @ ps\<rparr>)"
    using a(1) b(1) by (intro exI [of _ ss']) simp
qed

lemma sent_post: "sent w (post sid p w)"
proof -
  have "\<exists>ps. (if cs_open s then s\<lparr>cs_posted := cs_posted s @ [p]\<rparr> else s) =
      s\<lparr>cs_posted := cs_posted s @ ps\<rparr>" for s
    by (cases "cs_open s") (auto intro: exI [of _ "[p]"] exI [of _ "[]"])
  moreover have "\<exists>ps. s = s\<lparr>cs_posted := cs_posted s @ ps\<rparr>" for s :: ClientSession
    by (auto intro: exI [of _ "[]"])
  ultimately show ?thesis
    unfolding sent_def post_def upd_session_def
    by (intro exI [of _ "(sessions w)(sid := (if cs_open (sessions w sid)
      then (sessions w sid)\<lparr>cs_posted := cs_posted (sessions w sid) @ [p]\<rparr> else sessions w sid))"]) auto
qed

lemma sent_send: "sent w (send s p w)"
  by (simp add: send_def sent_post split: option.split)

lemma sentD:
  assumes "sent w w'"
  shows "objects w' = objects w" "grids w' = grids w" "zmgr w' = zmgr w" "timer w' = timer w"
    "registry w' = registry w" "nextSession w' = nextSession w" "nextObjectId w' = nextObjectId w"
    "nextFieldItemId w' = nextFieldItemId w" "dbRequests w' = dbRequests w" "ticks w' = ticks w"
    "cs_state (sessions w' k) = cs_state (sessions w k)" "cs_open (sessions w' k) = cs_open (sessions w k)"
    "cs_owner (sessions w' k) = cs_owner (sessions w k)" "cs_routing (sessions w' k) = cs_routing (sessions w k)"
    "cs_objectId (sessions w' k) = cs_objectId (sessions w k)"
proof -
  obtain ss ps where "w' = w\<lparr>sessions := ss\<rparr>" "ss k = (sessions w k)\<lparr>cs_posted := cs_posted (sessions w k) @ ps\<rparr>"
    using assms unfolding sent_def by blast
  then show "objects w' = objects w" "grids w' = grids w" "zmgr w' = zmgr w" "timer w' = timer w"
    "registry w' = registry w" "nextSession w' = nextSession w" "nextObjectId w' = nextObjectId w"
    "nextFieldItemId w' = nextFieldItemId w" "dbRequests w' = dbRequests w" "ticks w' = ticks w"
    "cs_state (sessions w' k) = cs_state (sessions w k)" "cs_open (sessions w' k) = cs_open (sessions w k)"
    "cs_owner (sessions w' k) = cs_owner (sessions w k)" "cs_routing (sessions w' k) = cs_routing (sessions w k)"
    "cs_objectId (sessions w' k) = cs_objectId (sessions w k)"
    by simp_all
qed

lemma sent_fold: "(\<And>x w. sent w (f x w)) \<Longrightarrow> sent w (fold f xs w)"
  by (induction xs arbitrary: w) (auto intro: sent_trans)

lemma sent_if: "sent w a \<Longrightarrow> sent w b \<Longrightarrow> sent w (if c then a else b)"
  by simp

lemmas sent_sends = sent_send [THEN sent_trans] sent_send

end
