(* ===== verification/Movements.thy ===== *)
theory Movements
  imports Sends
begin

text \<open>
  Placement and movement: \<^verbatim>\<open>Area/SectorHelper.cpp\<close>, and \<^verbatim>\<open>WakeUpMonster\<close> of
  \<^verbatim>\<open>Monster/MonsterHelper.cpp\<close>, which it calls.  The retry loop of \<^verbatim>\<open>GetRandomPosition\<close> is a
  partial function with result \<open>None\<close> when no draw ever hits a free tile.
\<close>

definition UpdatePosition :: "Thread \<Rightarrow> ObjID \<Rightarrow> short \<Rightarrow> short \<Rightarrow> World \<Rightarrow> World option" where
  "UpdatePosition th subjectId nextX nextY w =
     (case GetSubject w subjectId of
        None \<Rightarrow> Some w
      | Some object \<Rightarrow> do {
          g \<leftarrow> grid th w;
          (valid, sec, pos, g) \<leftarrow> UpdateObjectSectorAndPosition subjectId nextX nextY
             (m_sectorX object, m_sectorY object) (m_x object, m_y object) g;
          if \<not> valid then Some w
          else
            let w = upd_obj subjectId (\<lambda>s. s\<lparr>m_sectorX := fst sec, m_sectorY := snd sec,
                       m_x := fst pos, m_y := snd pos\<rparr>) (set_grid th g w);
                zoneId = GetZoneIdByWorld nextX nextY;
                w = (if m_zoneId object \<noteq> zoneId
                     then (upd_obj subjectId (\<lambda>s. s\<lparr>m_zoneId := zoneId\<rparr>) w)
                            \<lparr>zmgr := UpdateObjectZone subjectId zoneId (zmgr w)\<rparr>
                     else w)
            in Some (if hasCategory eUser subjectId
                     then case GetSession object of
                            None \<Rightarrow> w
                          | Some sid \<Rightarrow> upd_session sid (\<lambda>s. s\<lparr>cs_routing := zoneId\<rparr>) w
                     else w) })"

partial_function (option) random_tile ::
    "Thread \<Rightarrow> short \<Rightarrow> short \<Rightarrow> short \<Rightarrow> short \<Rightarrow> nat \<Rightarrow> (short \<times> short \<times> nat) option" where
  "random_tile th minX maxX minY maxY n =
     (let x = t_uniform th n minX maxX; y = t_uniform th (Suc n) minY maxY in
      if isCollision x y then random_tile th minX maxX minY maxY (Suc (Suc n))
      else Some (x, y, Suc (Suc n)))"

definition GetRandomPosition :: "Thread \<Rightarrow> ObjID \<Rightarrow> World \<Rightarrow> World option" where
  "GetRandomPosition th subjectId w = do {
     g \<leftarrow> grid th w;
     let minX = short_of (offsetX g * SECTOR_RANGE);
     let maxX = short_of ((offsetX g + kLocalWidth) * SECTOR_RANGE - 1);
     let minY = short_of (offsetY g * SECTOR_RANGE);
     let maxY = short_of ((offsetY g + kLocalHeight) * SECTOR_RANGE - 1);
     (x, y, n) \<leftarrow> random_tile th minX maxX minY maxY (ticks w);
     UpdatePosition th subjectId x y (w\<lparr>ticks := n\<rparr>) }"

definition CollectUsers :: "Thread \<Rightarrow> World \<Rightarrow> ObjID \<Rightarrow> ObjID list option" where
  "CollectUsers th w monsterId =
     (case GetMonster w monsterId of
        None \<Rightarrow> Some []
      | Some monster \<Rightarrow> do {
          ids \<leftarrow> NeighborObjIDs th w monster;
          Some (filter (\<lambda>i. hasCategory eUser i \<and>
                  (case GetUser w i of None \<Rightarrow> False
                   | Some user \<Rightarrow> in_game w user \<and> CanSee user monster)) ids) })"

definition CollectSubjects :: "Thread \<Rightarrow> World \<Rightarrow> Subject \<Rightarrow> ObjID list option" where
  "CollectSubjects th w player = do {
     near \<leftarrow> ForEachNeighborObject th w player;
     Some (map m_SubjID (filter (\<lambda>object.
       m_SubjID object \<noteq> m_SubjID player \<and> CanSee player object \<and>
       (hasCategory eUser (m_SubjID object) \<longrightarrow> in_game w object)) near)) }"

definition Replace :: "Thread \<Rightarrow> ObjID \<Rightarrow> ObjID list \<Rightarrow> ObjID list \<Rightarrow> World \<Rightarrow> World" where
  "Replace th monsterId oldList newList w =
     (let monster = GetSubject w monsterId;
          w = fold (\<lambda>i w. case GetSubject w i of
                None \<Rightarrow> w
              | Some viewer \<Rightarrow>
                  (case monster of
                     None \<Rightarrow> w
                   | Some monster \<Rightarrow>
                       if i \<notin> set oldList then SendSUBJECT_ADD_NFY th viewer monster w
                       else SendSUBJECT_MOVE_NFY viewer monster w)) newList w
      in fold (\<lambda>i w. case GetSubject w i of
           None \<Rightarrow> w
         | Some viewer \<Rightarrow> if i \<notin> set newList then SendSUBJECT_REMOVE_NFY viewer monsterId w else w)
         oldList w)"

definition WakeUpMonster :: "Thread \<Rightarrow> ObjID \<Rightarrow> ObjID \<Rightarrow> bool \<Rightarrow> World \<Rightarrow> World" where
  "WakeUpMonster th monsterId wakerId forceWake w =
     (case (GetMonster w monsterId, GetUser w wakerId) of
        (Some monster, Some waker) \<Rightarrow>
          if m_die (subj_stat monster) then w
          else if \<not> forceWake \<and> m_Type (subj_monster monster) = AGGRO \<and>
                  (\<bar>m_x monster - m_x waker\<bar> > WAKE_RANGE \<or> \<bar>m_y monster - m_y waker\<bar> > WAKE_RANGE)
          then w
          else let (first, _) = TryActivate (subj_monster monster);
                   w = upd_monster monsterId (\<lambda>m. snd (TryActivate m)) w
               in if \<not> first then w
                  else (case m_Type (subj_monster monster) of
                          PASSIVE \<Rightarrow> schedule th monsterId (msecs 500) EV_RANOM_MOVE npos w
                        | AGGRO \<Rightarrow> schedule th monsterId (msecs 500) EV_AGGRO_MOVE wakerId w)
      | _ \<Rightarrow> w)"

definition NotifyPlayerEnteredWorld :: "Thread \<Rightarrow> ObjID \<Rightarrow> bool \<Rightarrow> World \<Rightarrow> World option" where
  "NotifyPlayerEnteredWorld th playerId isRespawn w =
     (case GetUser w playerId of
        None \<Rightarrow> Some w
      | Some player \<Rightarrow> do {
          visibleSubjects \<leftarrow> CollectSubjects th w player;
          Some (fold (\<lambda>i w. case GetSubject w i of
              None \<Rightarrow> w
            | Some object \<Rightarrow>
                if hasCategory eUser i
                then SendSUBJECT_ADD_NFY th player object
                       (if isRespawn then SendSUBJECT_RESPAWN_NFY object player w
                        else SendSUBJECT_ADD_NFY th object player w)
                else if hasCategory eMonster i
                then WakeUpMonster th i playerId isRespawn (SendSUBJECT_ADD_NFY th player object w)
                else if hasCategory eItem i then SendSUBJECT_ADD_NFY th player object w
                else w) visibleSubjects w) })"

definition HandleZoneTransfer :: "Thread \<Rightarrow> ObjID \<Rightarrow> short \<Rightarrow> short \<Rightarrow> ZoneId \<Rightarrow> World \<Rightarrow> World option" where
  "HandleZoneTransfer th playerId nextX nextY newZoneId w = do {
     let w = upd_obj playerId (\<lambda>s. s\<lparr>m_transferring := True\<rparr>) w;
     player \<leftarrow> GetSubject w playerId;
     oldVisible \<leftarrow> CollectSubjects th w player;
     w \<leftarrow> world_RemoveObject th playerId w;
     let w = upd_obj playerId (\<lambda>s. s\<lparr>m_x := nextX, m_y := nextY\<rparr>) w;
     player \<leftarrow> GetSubject w playerId;
     let w = SendSUBJECT_MOVE_NFY player player w;
     let w = fold (\<lambda>i w.
           let w = SendSUBJECT_REMOVE_NFY player i w in
           if hasCategory eUser i
           then (case GetUser w i of None \<Rightarrow> w | Some viewer \<Rightarrow> SendSUBJECT_REMOVE_NFY viewer playerId w)
           else w) oldVisible w;
     let w = upd_obj playerId (\<lambda>s. s\<lparr>m_zoneId := newZoneId\<rparr>) w;
     let w = w\<lparr>zmgr := UpdateObjectZone playerId newZoneId (zmgr w)\<rparr>;
     let w = (case GetSession player of
                None \<Rightarrow> w
              | Some sid \<Rightarrow> upd_session sid (\<lambda>s. s\<lparr>cs_routing := newZoneId\<rparr>) w);
     Some (w\<lparr>zmgr := EnqueueByZone newZoneId (TEnterZone playerId nextX nextY) (zmgr w)\<rparr>) }"

definition move_pass1 :: "Thread \<Rightarrow> ObjID \<Rightarrow> Subject \<Rightarrow> ObjID list \<Rightarrow> ObjID \<Rightarrow> World \<Rightarrow> World" where
  "move_pass1 th playerId player oldVisible i w =
     (case GetSubject w i of
        None \<Rightarrow> w
      | Some object \<Rightarrow>
          let isNew = i \<notin> set oldVisible;
              w = (if isNew then SendSUBJECT_ADD_NFY th player object w else w)
          in if hasCategory eMonster i then WakeUpMonster th i playerId False w
             else if hasCategory eUser i
             then (if isNew then SendSUBJECT_ADD_NFY th object player w
                   else SendSUBJECT_MOVE_NFY object player w)
             else w)"

definition move_pass2 :: "ObjID \<Rightarrow> Subject \<Rightarrow> ObjID list \<Rightarrow> ObjID \<Rightarrow> World \<Rightarrow> World" where
  "move_pass2 playerId player newVisible i w =
     (if i \<in> set newVisible then w
      else let w = SendSUBJECT_REMOVE_NFY player i w in
           if hasCategory eUser i
           then (case GetUser w i of None \<Rightarrow> w | Some viewer \<Rightarrow> SendSUBJECT_REMOVE_NFY viewer playerId w)
           else w)"

definition HandlePlayerMove :: "Thread \<Rightarrow> ObjID \<Rightarrow> short \<Rightarrow> short \<Rightarrow> World \<Rightarrow> World option" where
  "HandlePlayerMove th playerId nextX nextY w = do {
     player \<leftarrow> GetSubject w playerId;
     let newZoneId = GetZoneIdByWorld nextX nextY;
     let curZoneId = m_zoneId player;
     if newZoneId \<noteq> curZoneId \<and> IsValidZoneId newZoneId
     then HandleZoneTransfer th playerId nextX nextY newZoneId w
     else do {
       let oldX = m_x player;
       let oldY = m_y player;
       oldVisible \<leftarrow> CollectSubjects th w player;
       w \<leftarrow> UpdatePosition th playerId nextX nextY w;
       player \<leftarrow> GetSubject w playerId;
       let w = SendSUBJECT_MOVE_NFY player player w;
       if oldX = m_x player \<and> oldY = m_y player then Some w
       else do {
         newVisible \<leftarrow> CollectSubjects th w player;
         let w = fold (move_pass1 th playerId player oldVisible) newVisible w;
         Some (fold (move_pass2 playerId player newVisible) oldVisible w) } } }"

definition HandleEnterZone :: "Thread \<Rightarrow> ObjID \<Rightarrow> short \<Rightarrow> short \<Rightarrow> World \<Rightarrow> World option" where
  "HandleEnterZone th playerId nextX nextY w =
     (case GetUser w playerId of
        None \<Rightarrow> Some w
      | Some player \<Rightarrow> do {
          g \<leftarrow> grid th w;
          (valid, sec, pos, g) \<leftarrow> UpdateObjectSectorAndPosition playerId nextX nextY
             (m_sectorX player, m_sectorY player) (m_x player, m_y player) g;
          let w = upd_obj playerId (\<lambda>s. s\<lparr>m_sectorX := fst sec, m_sectorY := snd sec,
                    m_x := fst pos, m_y := snd pos\<rparr>) (set_grid th g w);
          w \<leftarrow> (if \<not> valid then GetRandomPosition th playerId w else Some w);
          w \<leftarrow> NotifyPlayerEnteredWorld th playerId False w;
          Some (upd_obj playerId (\<lambda>s. s\<lparr>m_transferring := False\<rparr>) w) })"

end
