(* ===== verification/FieldItems.thy ===== *)
theory FieldItems
  imports Movements InventoryOps
begin

text \<open>
  Items on the ground: \<^verbatim>\<open>Item/ItemHelper.cpp\<close>, and the calls of the inventory of a user.  The
  inventory of \<open>Inventories\<close> has the statistics of its owner and a journal of database requests;
  \<open>with_inventory\<close> builds it from the user, runs an operation and writes the slots, the statistics
  and the requests back.
\<close>

definition inventory_of :: "Subject \<Rightarrow> Inventory" where
  "inventory_of s =
     \<lparr>inv_owner = Some \<lparr>owner_ObjID = m_SubjID s, owner_playerId = m_playerId (subj_user s),
                        owner_stat = subj_stat s\<rparr>,
      inv_slots = m_slots (subj_user s), inv_requests = []\<rparr>"

definition store_inventory :: "ObjID \<Rightarrow> Inventory \<Rightarrow> World \<Rightarrow> World" where
  "store_inventory i iv w =
     (upd_body i (\<lambda>b. map_user (\<lambda>u. u\<lparr>m_slots := inv_slots iv\<rparr>)
        (map_stat (\<lambda>st. case inv_owner iv of Some owner \<Rightarrow> owner_stat owner | None \<Rightarrow> st) b)) w)
     \<lparr>dbRequests := dbRequests w @ inv_requests iv\<rparr>"

definition with_inventory ::
    "ObjID \<Rightarrow> (Inventory \<Rightarrow> ('a \<times> Inventory) option) \<Rightarrow> World \<Rightarrow> ('a \<times> World) option" where
  "with_inventory i f w = do {
     s \<leftarrow> GetSubject w i;
     (r, iv) \<leftarrow> f (inventory_of s);
     Some (r, store_inventory i iv w) }"

definition RemoveFieldItem :: "Thread \<Rightarrow> ObjID \<Rightarrow> World \<Rightarrow> World option" where
  "RemoveFieldItem th itemId w = do {
     item \<leftarrow> GetSubject w itemId;
     near \<leftarrow> ForEachNeighborObject th w item;
     let w = fold (\<lambda>viewer w.
           if \<not> hasCategory eUser (m_SubjID viewer) then w
           else if \<not> in_game w viewer then w
           else if \<not> CanSee viewer item then w
           else SendSUBJECT_REMOVE_NFY viewer itemId w) near w;
     w \<leftarrow> world_RemoveObject th itemId w;
     Some (Delete itemId (w\<lparr>zmgr := zm_RemoveObject itemId (zmgr w)\<rparr>)) }"

definition SpawnFieldItem :: "Thread \<Rightarrow> Item \<Rightarrow> short \<Rightarrow> short \<Rightarrow> ObjID \<Rightarrow> World \<Rightarrow> World option" where
  "SpawnFieldItem th item x y lootPriorityOwner w = do {
     ASSERT_CRASH (IsOnGround item);
     let instanceId = nextFieldItemId w;
     let itemId = mkObjID eItem instanceId;
     let object = (newSubject itemId (ItemB (item\<lparr>m_lootPriorityOwner := lootPriorityOwner\<rparr>)))
                    \<lparr>m_SubjName := m_Name item\<rparr>;
     let (inserted, w) = Insert itemId object (w\<lparr>nextFieldItemId := instanceId + 1\<rparr>);
     ASSERT_CRASH inserted;
     w \<leftarrow> UpdatePosition th itemId x y w;
     object \<leftarrow> GetSubject w itemId;
     near \<leftarrow> ForEachNeighborObject th w object;
     let w = fold (\<lambda>viewer w.
           if \<not> hasCategory eUser (m_SubjID viewer) then w
           else if \<not> in_game w viewer then w
           else if \<not> CanSee viewer object then w
           else SendSUBJECT_ADD_NFY th viewer object w) near w;
     let w = schedule th itemId (secs 30) EV_ITEM_DESPAWN npos w;
     Some (if lootPriorityOwner \<noteq> npos
           then schedule th itemId (secs 10) EV_ITEM_LOOT_PRIORITY_EXPIRE npos w else w) }"

text \<open>The item a pickup takes: the first one of the scan on the tile of the player that is free to
  loot or reserved for this player.\<close>

definition pickup_candidate :: "Subject \<Rightarrow> Subject \<Rightarrow> bool" where
  "pickup_candidate player object \<longleftrightarrow>
     hasCategory eItem (m_SubjID object) \<and> m_x object = m_x player \<and> m_y object = m_y player \<and>
     (m_lootPriorityOwner (subj_item object) = npos \<or>
      m_lootPriorityOwner (subj_item object) = m_SubjID player)"

definition TryPickupAt :: "Thread \<Rightarrow> ObjID \<Rightarrow> World \<Rightarrow> World option" where
  "TryPickupAt th playerId w = do {
     player \<leftarrow> GetSubject w playerId;
     near \<leftarrow> ForEachNeighborObject th w player;
     case find (pickup_candidate player) near of
       None \<Rightarrow> Some (SendITEM_PICKUP_ACK player False w)
     | Some target \<Rightarrow> do {
         let item = subj_item target;
         ((added, touchedSlots), w) \<leftarrow> with_inventory playerId (\<lambda>iv. do {
            (r, ts, iv) \<leftarrow> TryAddItem (t_iter th) (m_itemTableId item) (m_count item) iv;
            Some ((r, ts), iv) }) w;
         if \<not> added
         then Some (SendSYSTEM_MESSAGE_INF player InventoryFull (uint (m_itemTableId item)) (uint (m_count item))
                      (SendITEM_PICKUP_ACK player False w))
         else do {
           w \<leftarrow> RemoveFieldItem th (m_SubjID target) w;
           let w = SendITEM_PICKUP_ACK player True w;
           player \<leftarrow> GetSubject w playerId;
           for_each (SendITEM_ACQUIRE_INF player) touchedSlots w } } }"

definition HandleDespawn :: "Thread \<Rightarrow> ObjID \<Rightarrow> World \<Rightarrow> World option" where
  "HandleDespawn th itemId w =
     (case GetItem w itemId of None \<Rightarrow> Some w | Some item \<Rightarrow> RemoveFieldItem th itemId w)"

definition HandleLootPriorityExpire :: "ObjID \<Rightarrow> World \<Rightarrow> World" where
  "HandleLootPriorityExpire itemId w =
     (case GetItem w itemId of
        None \<Rightarrow> w
      | Some item \<Rightarrow> upd_body itemId (map_item (\<lambda>it. it\<lparr>m_lootPriorityOwner := npos\<rparr>)) w)"

end
