(* ===== verification/UserHandlers.thy ===== *)
theory UserHandlers
  imports FieldItems
begin

text \<open>
  The handlers of \<^verbatim>\<open>User/UserHelper.cpp\<close>: combat, chat, healing, respawn and the two ends of a
  login, and \<^verbatim>\<open>WorkerThread::Disconnect\<close>.
\<close>

definition IsFreePosition :: "int \<Rightarrow> int \<Rightarrow> bool" where
  "IsFreePosition x y =
     (if x < 0 \<or> x \<ge> W_WIDTH \<or> y < 0 \<or> y \<ge> W_HEIGHT then False
      else \<not> isCollision (short_of x) (short_of y))"

definition FindRandomValidPosition :: "Thread \<Rightarrow> World \<Rightarrow> (short \<times> short \<times> World) option" where
  "FindRandomValidPosition th w = do {
     (x, y, n) \<leftarrow> random_tile th 0 (W_WIDTH - 1) 0 (W_HEIGHT - 1) (ticks w);
     Some (x, y, w\<lparr>ticks := n\<rparr>) }"

definition QueueUserSave :: "Subject \<Rightarrow> short \<Rightarrow> short \<Rightarrow> World \<Rightarrow> World" where
  "QueueUserSave user saveX saveY w =
     w\<lparr>dbRequests := dbRequests w @ [DbSaveUser (m_SubjID user) (m_SubjName user) saveX saveY
         (m_level (subj_stat user)) (m_exp (subj_stat user))]\<rparr>"

definition UserHelper_SaveUserInfo :: "Thread \<Rightarrow> ObjID \<Rightarrow> World \<Rightarrow> World option" where
  "UserHelper_SaveUserInfo th targetId w =
     (case GetUser w targetId of
        None \<Rightarrow> Some w
      | Some target \<Rightarrow>
          if \<not> IsFreePosition (m_x target) (m_y target)
          then do { (fallbackX, fallbackY, w) \<leftarrow> FindRandomValidPosition th w;
                    Some (QueueUserSave target fallbackX fallbackY w) }
          else Some (QueueUserSave target (m_x target) (m_y target) w))"

subsection \<open>Combat\<close>

definition HandleItemDrop :: "Thread \<Rightarrow> ObjID \<Rightarrow> short \<Rightarrow> short \<Rightarrow> World \<Rightarrow> World option" where
  "HandleItemDrop th attackerId x y w =
     (let roll = Roll (t_roll th (ticks w)) (t_count th (Suc (ticks w)));
          w = tick (tick w)
      in if \<not> hasItem roll then Some w
         else do {
           item \<leftarrow> MakeNewItem (roll_itemId roll) (roll_count roll);
           SpawnFieldItem th item x y attackerId w })"

text \<open>The rest of \<^verbatim>\<open>AttackMonster\<close> once the monster has no hit points left.\<close>

definition kill_monster :: "Thread \<Rightarrow> ObjID \<Rightarrow> ObjID \<Rightarrow> Subject \<Rightarrow> World \<Rightarrow> World option" where
  "kill_monster th monsterId playerId monster w = do {
     near \<leftarrow> ForEachNeighborObject th w monster;
     let w = fold (\<lambda>object w.
           if \<not> hasCategory eUser (m_SubjID object) then w
           else if \<not> in_game w object then w
           else if CanSee object monster then SendSUBJECT_DIE_NFY object monster w
           else w) near w;
     w \<leftarrow> world_RemoveObject th monsterId w;
     let w = upd_monster monsterId (\<lambda>m. m\<lparr>m_Active := False, m_Attack := False, m_viewList := []\<rparr>) w;
     let expGain = (if m_Type (subj_monster monster) = PASSIVE then 3 else 5);
     attacker \<leftarrow> GetSubject w playerId;
     (_, st) \<leftarrow> AddExp expGain (subj_stat attacker);
     let w = upd_stat playerId (\<lambda>_. st) w;
     attacker \<leftarrow> GetSubject w playerId;
     let w = SendUSER_STAT_CHANGE_INF attacker w;
     w \<leftarrow> HandleItemDrop th playerId (m_x monster) (m_y monster) w;
     Some (schedule th monsterId (secs 10) EV_MONSTER_RESPAWN npos w) }"

definition AttackMonster :: "Thread \<Rightarrow> ObjID \<Rightarrow> ObjID \<Rightarrow> int \<Rightarrow> World \<Rightarrow> World option" where
  "AttackMonster th monsterId playerId damage w =
     (case (GetMonster w monsterId, GetUser w playerId) of
        (Some monster, Some attacker) \<Rightarrow>
          if m_die (subj_stat monster) then Some w
          else
            let remaining = fst (TakeDamage (word_of_int damage) (subj_stat monster));
                w = upd_stat monsterId (\<lambda>st. snd (TakeDamage (word_of_int damage) st)) w
            in do {
              monster \<leftarrow> GetSubject w monsterId;
              if remaining > 0 then Some (SendUSER_ATTACK_ACK attacker monster damage w)
              else kill_monster th monsterId playerId monster w }
      | _ \<Rightarrow> Some w)"

definition SkillAttack :: "Thread \<Rightarrow> ObjID \<Rightarrow> World \<Rightarrow> World option" where
  "SkillAttack th playerId w =
     (case GetUser w playerId of
        None \<Rightarrow> Some w
      | Some player \<Rightarrow>
          if m_die (subj_stat player) then Some w
          else do {
            near \<leftarrow> ForEachNeighborObject th w player;
            let targets = map m_SubjID (filter (\<lambda>object.
                  hasCategory eMonster (m_SubjID object) \<and>
                  \<bar>m_x object - m_x player\<bar> + \<bar>m_y object - m_y player\<bar> = 1) near);
            for_each (\<lambda>i. AttackMonster th i playerId SKILL_DAMAGE) targets w })"

definition HandleAttack :: "Thread \<Rightarrow> ObjID \<Rightarrow> uint8 \<Rightarrow> World \<Rightarrow> World option" where
  "HandleAttack th attackerId facing w = do {
     attacker \<leftarrow> GetSubject w attackerId;
     near \<leftarrow> ForEachNeighborObject th w attacker;
     let w = fold (\<lambda>object w.
           if hasCategory eUser (m_SubjID object)
           then if m_SubjID object = attackerId then w
                else if \<not> in_game w object then w
                else if CanSee object attacker then SendPLAYER_ATTACK_NFY object attackerId facing w
                else w
           else w) near w;
     let monsterTargets = map m_SubjID (filter (\<lambda>object.
           \<not> hasCategory eUser (m_SubjID object) \<and> hasCategory eMonster (m_SubjID object) \<and>
           CanAttack attacker object) near);
     let damage = uint (m_offensive (subj_stat attacker));
     for_each (\<lambda>i. AttackMonster th i attackerId damage) monsterTargets w }"

definition BroadcastChat :: "Thread \<Rightarrow> ObjID \<Rightarrow> string \<Rightarrow> World \<Rightarrow> World option" where
  "BroadcastChat th senderId mess w = do {
     sender \<leftarrow> GetSubject w senderId;
     let w = SendSC_CHAT sender senderId mess w;
     near \<leftarrow> ForEachNeighborObject th w sender;
     Some (fold (\<lambda>object w.
       if m_SubjID object = senderId then w
       else if \<not> hasCategory eUser (m_SubjID object) then w
       else if \<not> in_game w object then w
       else if CanSee object sender then SendSC_CHAT object senderId mess w
       else w) near w) }"

subsection \<open>Healing and respawn\<close>

definition HandleHeal :: "Thread \<Rightarrow> ObjID \<Rightarrow> World \<Rightarrow> World option" where
  "HandleHeal th playerId w =
     (case GetUser w playerId of
        None \<Rightarrow> Some w
      | Some player \<Rightarrow>
          if \<not> in_game w player then Some w
          else if m_die (subj_stat player) then Some w
          else do {
            let w = upd_stat playerId (HealHp HEAL_SIZE PLAYER_MAX_HP) w;
            player \<leftarrow> GetSubject w playerId;
            Some (schedule th playerId (secs 5) EV_HEAL npos (SendUSER_HEAL_INF player w)) })"

definition HandleRespawn :: "Thread \<Rightarrow> ObjID \<Rightarrow> World \<Rightarrow> World option" where
  "HandleRespawn th playerId w =
     (case GetUser w playerId of
        None \<Rightarrow> Some w
      | Some _ \<Rightarrow> do {
          w \<leftarrow> GetRandomPosition th playerId w;
          let w = upd_stat playerId (\<lambda>st. st\<lparr>m_die := False, m_hp := PLAYER_MAX_HP\<rparr>) w;
          player \<leftarrow> GetSubject w playerId;
          let w = SendSUBJECT_RESPAWN_NFY player player w;
          w \<leftarrow> NotifyPlayerEnteredWorld th playerId True w;
          Some (schedule th playerId (secs 5) EV_HEAL npos w) })"

subsection \<open>Login and logout\<close>

definition HandleLoginFail :: "SessionId \<Rightarrow> World \<Rightarrow> World" where
  "HandleLoginFail sid = post sid USER_LOGIN_FAIL_ACK_PACKET"

text \<open>Binding the session and the user to each other.\<close>

definition enter_game :: "SessionId \<Rightarrow> ObjID \<Rightarrow> World \<Rightarrow> World" where
  "enter_game sid i w =
     upd_session sid (\<lambda>s. s\<lparr>cs_state := ST_INGAME\<rparr>)
       (upd_user i (\<lambda>u. u\<lparr>m_session := Some sid\<rparr>) (upd_session sid (BindOwner i) w))"

definition load_user :: "Thread \<Rightarrow> ObjID \<Rightarrow> DB_USER_INFO \<Rightarrow> DB_ITEM_INFO list \<Rightarrow> Subject option" where
  "load_user th i userInfo items = do {
     let player = (User_InitInstance i)\<lparr>m_SubjName := ui_name userInfo\<rparr>;
     let player = player\<lparr>m_body := map_user (\<lambda>u. u\<lparr>m_playerId := ui_playerId userInfo\<rparr>)
           (map_stat (\<lambda>st. st\<lparr>m_level := ui_level userInfo, m_exp := ui_exp userInfo\<rparr>) (m_body player))\<rparr>;
     iv \<leftarrow> LoadFromDB (t_iter th) items (inventory_of player);
     owner \<leftarrow> inv_owner iv;
     Some (player\<lparr>m_body := map_user (\<lambda>u. u\<lparr>m_slots := inv_slots iv\<rparr>)
       (map_stat (\<lambda>_. owner_stat owner) (m_body player))\<rparr>) }"

definition HandleGetUserInfo ::
    "Thread \<Rightarrow> SessionId \<Rightarrow> DB_USER_INFO \<Rightarrow> DB_ITEM_INFO list \<Rightarrow> World \<Rightarrow> World option" where
  "HandleGetUserInfo th sid userInfo items w =
     (if cs_state (sessions w sid) \<noteq> ST_ALLOC then Some w
      else do {
        let objId = mkObjID eUser (ucast (cs_objectId (sessions w sid)));
        player \<leftarrow> load_user th objId userInfo items;
        let (inserted, w) = Insert objId player w;
        if \<not> inserted then Some w
        else do {
          let w = enter_game sid objId w;
          w \<leftarrow> (if IsFreePosition (ui_x userInfo) (ui_y userInfo)
                then UpdatePosition th objId (short_of (ui_x userInfo)) (short_of (ui_y userInfo)) w
                else do {
                  (fallbackX, fallbackY, w) \<leftarrow> FindRandomValidPosition th w;
                  w \<leftarrow> UpdatePosition th objId fallbackX fallbackY w;
                  player \<leftarrow> GetSubject w objId;
                  Some (QueueUserSave player fallbackX fallbackY w) });
          player \<leftarrow> GetSubject w objId;
          let w = SendITEM_LIST_ACK th player (SendUSER_LOGIN_ACK player w);
          let w = schedule th objId (secs 5) EV_HEAL npos w;
          NotifyPlayerEnteredWorld th objId False w } })"

definition HandleAddUserInfo :: "Thread \<Rightarrow> SessionId \<Rightarrow> DB_USER_INFO \<Rightarrow> World \<Rightarrow> World option" where
  "HandleAddUserInfo th sid userInfo w =
     (if cs_state (sessions w sid) \<noteq> ST_ALLOC then Some w
      else
        let objId = mkObjID eUser (ucast (cs_objectId (sessions w sid)));
            player = (User_InitInstance objId)\<lparr>m_SubjName := ui_name userInfo\<rparr>;
            player = player\<lparr>m_body := map_user (\<lambda>u. u\<lparr>m_playerId := ui_playerId userInfo\<rparr>) (m_body player)\<rparr>;
            (inserted, w) = Insert objId player w
        in if \<not> inserted then Some w
           else do {
             let w = enter_game sid objId w;
             w \<leftarrow> GetRandomPosition th objId w;
             player \<leftarrow> GetSubject w objId;
             let w = SendUSER_LOGIN_ACK player w;
             let w = schedule th objId (secs 5) EV_HEAL npos w;
             NotifyPlayerEnteredWorld th objId False w })"

definition Disconnect :: "Thread \<Rightarrow> ObjID \<Rightarrow> World \<Rightarrow> World option" where
  "Disconnect th clientId w =
     (case GetUser w clientId of
        None \<Rightarrow> Some w
      | Some user \<Rightarrow>
          if m_transferring user \<and> IsValidZoneId (m_zoneId user)
          then Some (w\<lparr>zmgr := EnqueueByZone (m_zoneId user) (TDisconnect clientId) (zmgr w)\<rparr>)
          else do {
            near \<leftarrow> ForEachNeighborObject th w user;
            let w = fold (\<lambda>subject w.
                  if m_SubjID subject = clientId then w
                  else if \<not> hasCategory eUser (m_SubjID subject) then w
                  else if \<not> in_game w subject then w
                  else if \<not> CanSee subject user then w
                  else SendSUBJECT_REMOVE_NFY subject clientId w) near w;
            w \<leftarrow> world_RemoveObject th clientId w;
            w \<leftarrow> UserHelper_SaveUserInfo th clientId w;
            let w = (case GetSession user of
                       None \<Rightarrow> w
                     | Some sid \<Rightarrow> ReleaseSession sid (CloseSession sid w));
            let w = Delete clientId w;
            Some (w\<lparr>zmgr := zm_RemoveObject clientId (zmgr w)\<rparr>) })"

end
