(* ===== verification/MonsterAIs.thy ===== *)
theory MonsterAIs
  imports FieldItems
begin

text \<open>The behaviour of the monsters: \<^verbatim>\<open>Monster/MonsterHelper.cpp\<close>.\<close>

definition IsNearZoneBoundary :: "short \<Rightarrow> short \<Rightarrow> bool" where
  "IsNearZoneBoundary x y =
     (let curZone = GetZoneIdByWorld x y in
      if curZone = InvalidZoneId then False
      else
        let x1 = short_of (max 0 (x - ZONE_BOUNDARY_MARGIN));
            x2 = short_of (min (W_WIDTH - 1) (x + ZONE_BOUNDARY_MARGIN));
            y1 = short_of (max 0 (y - ZONE_BOUNDARY_MARGIN));
            y2 = short_of (min (W_HEIGHT - 1) (y + ZONE_BOUNDARY_MARGIN))
        in GetZoneIdByWorld x1 y \<noteq> curZone \<or> GetZoneIdByWorld x2 y \<noteq> curZone \<or>
           GetZoneIdByWorld x y1 \<noteq> curZone \<or> GetZoneIdByWorld x y2 \<noteq> curZone)"

definition ManhattanDistance :: "short \<Rightarrow> short \<Rightarrow> short \<Rightarrow> short \<Rightarrow> int" where
  "ManhattanDistance x1 y1 x2 y2 = \<bar>x1 - x2\<bar> + \<bar>y1 - y2\<bar>"

definition IsWalkableStep :: "short \<Rightarrow> short \<Rightarrow> short \<Rightarrow> short \<Rightarrow> bool" where
  "IsWalkableStep currentX currentY nextX nextY =
     (if \<bar>nextX - currentX\<bar> + \<bar>nextY - currentY\<bar> \<noteq> 1 then False else \<not> isCollision nextX nextY)"

subsection \<open>One step\<close>

definition AStarMove :: "Thread \<Rightarrow> ObjID \<Rightarrow> short \<Rightarrow> short \<Rightarrow> World \<Rightarrow> World option" where
  "AStarMove th monsterId nextX nextY w =
     (case GetMonster w monsterId of
        None \<Rightarrow> Some w
      | Some monster \<Rightarrow> do {
          let oldList = m_viewList (subj_monster monster);
          w \<leftarrow> UpdatePosition th monsterId nextX nextY w;
          newList \<leftarrow> CollectUsers th w monsterId;
          let w = Replace th monsterId oldList newList w;
          Some (upd_monster monsterId (\<lambda>m. m\<lparr>m_viewList := newList\<rparr>) w) })"

definition RandomMove :: "Thread \<Rightarrow> ObjID \<Rightarrow> World \<Rightarrow> World option" where
  "RandomMove th monsterId w =
     (case GetMonster w monsterId of
        None \<Rightarrow> Some w
      | Some monster \<Rightarrow>
          let oldList = m_viewList (subj_monster monster);
              (x, y) = MovePositionByDirection (m_x monster) (m_y monster) (int (t_bits th (ticks w) mod 4));
              w = tick w
          in if \<not> IsValidWorldPosition x y \<or> GetZoneIdByWorld x y \<noteq> m_zoneId monster then Some w
             else do {
               let w = upd_obj monsterId (UpdateFacing (x - m_x monster)) w;
               w \<leftarrow> UpdatePosition th monsterId x y w;
               newList \<leftarrow> CollectUsers th w monsterId;
               let w = Replace th monsterId oldList newList w;
               Some (upd_monster monsterId (\<lambda>m. m\<lparr>m_viewList := newList\<rparr>) w) })"

definition MoveMonsterStep :: "Thread \<Rightarrow> ObjID \<Rightarrow> short \<Rightarrow> short \<Rightarrow> World \<Rightarrow> World option" where
  "MoveMonsterStep th monsterId nextX nextY w = do {
     monster \<leftarrow> GetSubject w monsterId;
     AStarMove th monsterId nextX nextY (upd_obj monsterId (UpdateFacing (nextX - m_x monster)) w) }"

definition TryMoveCachedPathStep :: "Thread \<Rightarrow> ObjID \<Rightarrow> short \<Rightarrow> short \<Rightarrow> World \<Rightarrow> (bool \<times> World) option" where
  "TryMoveCachedPathStep th monsterId goalX goalY w = do {
     monster \<leftarrow> GetSubject w monsterId;
     if \<not> HasCachedPathTo goalX goalY (subj_monster monster) then Some (False, w)
     else
       let next = last (m_AstarPath (subj_monster monster)) in
       if \<not> IsWalkableStep (m_x monster) (m_y monster) (node_x next) (node_y next)
       then Some (False, upd_monster monsterId ClearPath w)
       else do {
         let w = upd_monster monsterId (\<lambda>m. m\<lparr>m_AstarPath := butlast (m_AstarPath m)\<rparr>) w;
         w \<leftarrow> MoveMonsterStep th monsterId (node_x next) (node_y next) w;
         Some (True, w) } }"

text \<open>The loop over the four directions: best tile and its distance so far.\<close>

fun best_step :: "short \<Rightarrow> short \<Rightarrow> short \<Rightarrow> short \<Rightarrow> (short \<times> short) list \<Rightarrow> short \<times> short \<times> int \<Rightarrow> short \<times> short \<times> int" where
  "best_step currentX currentY goalX goalY [] best = best"
| "best_step currentX currentY goalX goalY ((dx, dy) # ds) (bestX, bestY, bestDistance) =
     (let nextX = short_of (currentX + dx); nextY = short_of (currentY + dy) in
      best_step currentX currentY goalX goalY ds
        (if isCollision nextX nextY then (bestX, bestY, bestDistance)
         else let nextDistance = ManhattanDistance nextX nextY goalX goalY in
              if nextDistance \<ge> bestDistance then (bestX, bestY, bestDistance)
              else (nextX, nextY, nextDistance)))"

definition TryMoveOneStepTowardGoal :: "Thread \<Rightarrow> ObjID \<Rightarrow> short \<Rightarrow> short \<Rightarrow> World \<Rightarrow> (bool \<times> World) option" where
  "TryMoveOneStepTowardGoal th monsterId goalX goalY w = do {
     monster \<leftarrow> GetSubject w monsterId;
     let currentX = m_x monster;
     let currentY = m_y monster;
     let currentDistance = ManhattanDistance currentX currentY goalX goalY;
     if currentDistance \<le> 1 then Some (False, w)
     else
       let (bestX, bestY, bestDistance) =
             best_step currentX currentY goalX goalY directions (currentX, currentY, currentDistance)
       in if bestDistance \<ge> currentDistance then Some (False, w)
          else do {
            let w = upd_monster monsterId ClearPath w;
            w \<leftarrow> MoveMonsterStep th monsterId bestX bestY w;
            Some (True, w) } }"

definition TryMoveUsingFreshPath :: "Thread \<Rightarrow> ObjID \<Rightarrow> short \<Rightarrow> short \<Rightarrow> World \<Rightarrow> (bool \<times> World) option" where
  "TryMoveUsingFreshPath th monsterId goalX goalY w = do {
     monster \<leftarrow> GetSubject w monsterId;
     path \<leftarrow> FindPath (t_pick th) (m_x monster) (m_y monster) goalX goalY;
     let w = upd_monster monsterId (\<lambda>m. m\<lparr>m_AstarPath := path, m_pathGoalX := goalX, m_pathGoalY := goalY\<rparr>) w;
     if path = [] then Some (False, upd_monster monsterId ClearPath w)
     else
       let next = last path in
       if \<not> IsWalkableStep (m_x monster) (m_y monster) (node_x next) (node_y next)
       then Some (False, upd_monster monsterId ClearPath w)
       else do {
         let w = upd_monster monsterId (\<lambda>m. m\<lparr>m_AstarPath := butlast (m_AstarPath m)\<rparr>) w;
         w \<leftarrow> MoveMonsterStep th monsterId (node_x next) (node_y next) w;
         Some (True, w) } }"

definition TryAdvanceTowardGoal :: "Thread \<Rightarrow> ObjID \<Rightarrow> short \<Rightarrow> short \<Rightarrow> World \<Rightarrow> (bool \<times> World) option" where
  "TryAdvanceTowardGoal th monsterId goalX goalY w = do {
     (moved, w) \<leftarrow> TryMoveCachedPathStep th monsterId goalX goalY w;
     if moved then Some (True, w)
     else do {
       (moved, w) \<leftarrow> TryMoveOneStepTowardGoal th monsterId goalX goalY w;
       if moved then Some (True, w)
       else TryMoveUsingFreshPath th monsterId goalX goalY w } }"

subsection \<open>Timer events\<close>

definition set_idle :: "MonsterData \<Rightarrow> MonsterData" where
  "set_idle m = (ClearPath m)\<lparr>m_Active := False\<rparr>"

text \<open>The scan of \<^verbatim>\<open>HandleRandomMove\<close>: the users of the game that the monster sees, in the order
  of the scan; the attack target is the last of them it can attack.\<close>

definition seen_users :: "World \<Rightarrow> Subject \<Rightarrow> ObjID list \<Rightarrow> Subject list" where
  "seen_users w monster ids =
     filter (\<lambda>user. in_game w user \<and> CanSee monster user)
       (List.map_filter (GetUser w) (filter (hasCategory eUser) ids))"

definition HandleRandomMove :: "Thread \<Rightarrow> ObjID \<Rightarrow> World \<Rightarrow> World option" where
  "HandleRandomMove th monsterId w =
     (case GetMonster w monsterId of
        None \<Rightarrow> Some w
      | Some monster \<Rightarrow>
          if m_die (subj_stat monster) then Some w
          else do {
            ids \<leftarrow> NeighborObjIDs th w monster;
            let near = seen_users w monster ids;
            let attackTargetId = fold (\<lambda>user t. if CanAttack monster user then m_SubjID user else t) near npos;
            if attackTargetId \<noteq> npos
            then Some (schedule th monsterId 0 EV_MONSTER_ATTACK_TO_USER attackTargetId w)
            else if near \<noteq> []
            then do {
              w \<leftarrow> RandomMove th monsterId w;
              Some (schedule th monsterId (msecs 500) EV_RANOM_MOVE npos w) }
            else Some (upd_monster monsterId set_idle w) })"

definition Monster_HandleRespawn :: "Thread \<Rightarrow> ObjID \<Rightarrow> World \<Rightarrow> World option" where
  "Monster_HandleRespawn th monsterId w =
     (case GetMonster w monsterId of
        None \<Rightarrow> Some w
      | Some _ \<Rightarrow> do {
          let w = upd_stat monsterId (\<lambda>st. st\<lparr>m_hp := MONSTER_MAX_HP, m_die := False\<rparr>) w;
          let w = upd_monster monsterId (\<lambda>m. ClearPath (m\<lparr>m_Active := False, m_Attack := False\<rparr>)) w;
          w \<leftarrow> GetRandomPosition th monsterId w;
          monster \<leftarrow> GetSubject w monsterId;
          let w = upd_monster monsterId (\<lambda>m. m\<lparr>m_spawnX := m_x monster, m_spawnY := m_y monster\<rparr>) w;
          monster \<leftarrow> GetSubject w monsterId;
          near \<leftarrow> ForEachNeighborObject th w monster;
          Some (fold (\<lambda>user w.
            if \<not> hasCategory eUser (m_SubjID user) then w
            else if \<not> in_game w user then w
            else if \<not> CanSee user monster then w
            else SendSUBJECT_RESPAWN_NFY user monster w) near w) })"

text \<open>Going home: the common part of the boundary and the leash branches.\<close>

definition return_to_spawn :: "Thread \<Rightarrow> ObjID \<Rightarrow> ObjID \<Rightarrow> short \<Rightarrow> short \<Rightarrow> World \<Rightarrow> World option" where
  "return_to_spawn th monsterId targetId spawnX spawnY w = do {
     (moved, w) \<leftarrow> TryAdvanceTowardGoal th monsterId spawnX spawnY w;
     Some (if moved then schedule th monsterId (msecs 500) EV_AGGRO_MOVE targetId w
           else upd_monster monsterId set_idle w) }"

definition HandleAggroMove :: "Thread \<Rightarrow> ObjID \<Rightarrow> ObjID \<Rightarrow> World \<Rightarrow> World option" where
  "HandleAggroMove th monsterId targetId w =
     (case GetMonster w monsterId of
        None \<Rightarrow> Some w
      | Some monster \<Rightarrow>
          if m_die (subj_stat monster) then Some w
          else
            let give_up = Some (upd_monster monsterId (\<lambda>m. (set_idle m)\<lparr>m_Attack := False\<rparr>) w) in
            (case GetUser w targetId of
               None \<Rightarrow> give_up
             | Some target \<Rightarrow>
                 if \<not> in_game w target then give_up
                 else if m_zoneId target \<noteq> m_zoneId monster then give_up
                 else if IsNearZoneBoundary (m_x monster) (m_y monster)
                 then
                   let w = upd_monster monsterId (\<lambda>m. m\<lparr>m_Attack := False\<rparr>) w;
                       spawnX = m_spawnX (subj_monster monster);
                       spawnY = m_spawnY (subj_monster monster)
                   in if IsNearZoneBoundary spawnX spawnY
                      then Some (upd_monster monsterId set_idle w)
                      else return_to_spawn th monsterId targetId spawnX spawnY w
                 else if \<bar>m_x monster - m_spawnX (subj_monster monster)\<bar> > 7 \<or>
                         \<bar>m_y monster - m_spawnY (subj_monster monster)\<bar> > 7
                 then return_to_spawn th monsterId targetId
                        (m_spawnX (subj_monster monster)) (m_spawnY (subj_monster monster))
                        (upd_monster monsterId (\<lambda>m. m\<lparr>m_Attack := False\<rparr>) w)
                 else if CanAttack monster target
                 then
                   let w = (if \<not> m_Attack (subj_monster monster)
                            then schedule th monsterId 0 EV_MONSTER_ATTACK_TO_USER targetId w else w)
                   in Some (schedule th monsterId (msecs 500) EV_AGGRO_MOVE targetId w)
                 else do {
                   (_, w) \<leftarrow> TryAdvanceTowardGoal th monsterId (m_x target) (m_y target) w;
                   monster \<leftarrow> GetSubject w monsterId;
                   if CanSee monster target
                   then Some (schedule th monsterId (msecs 500) EV_AGGRO_MOVE targetId
                                (upd_monster monsterId (\<lambda>m. m\<lparr>m_Active := True\<rparr>) w))
                   else Some (upd_monster monsterId set_idle w) }))"

definition HandleAttackToPlayer :: "Thread \<Rightarrow> ObjID \<Rightarrow> ObjID \<Rightarrow> World \<Rightarrow> World option" where
  "HandleAttackToPlayer th monsterId playerId w =
     (case (GetMonster w monsterId, GetUser w playerId) of
        (Some monster, Some victim) \<Rightarrow>
          let w = upd_monster monsterId (\<lambda>m. m\<lparr>m_Attack := True\<rparr>) w;
              stop = (\<lambda>m. (ClearPath m)\<lparr>m_Attack := False\<rparr>)
          in if \<not> in_game w victim \<or> m_die (subj_stat victim) \<or> \<not> IsAdjacent monster victim \<or>
                m_die (subj_stat monster)
             then Some (upd_monster monsterId stop w)
             else do {
               let w = upd_stat playerId (\<lambda>st. snd (TakeDamage MONSTER_OFFENSIVE st)) w;
               victim \<leftarrow> GetSubject w playerId;
               near \<leftarrow> ForEachNeighborObject th w victim;
               if \<not> m_die (subj_stat victim)
               then
                 let w = fold (\<lambda>object w.
                       if \<not> hasCategory eUser (m_SubjID object) then w
                       else if \<not> CanSee victim object then w
                       else if \<not> in_game w object then w
                       else SendSUBJECT_ATTACK_NFY object (m_SubjID victim) monsterId
                              (uint (m_hp (subj_stat victim))) w) near w
                 in Some (if CanAttack monster victim
                          then schedule th monsterId (secs 1) EV_MONSTER_ATTACK_TO_USER playerId w
                          else upd_monster monsterId stop w)
               else do {
                 let w = fold (\<lambda>object w.
                       if \<not> hasCategory eUser (m_SubjID object) then w
                       else if \<not> CanSee victim object then w
                       else if \<not> in_game w object then w
                       else SendSUBJECT_DIE_NFY object victim w) near w;
                 let w = upd_monster monsterId (\<lambda>m. ClearPath (m\<lparr>m_Attack := False, m_Active := False\<rparr>)) w;
                 w \<leftarrow> world_RemoveObject th playerId w;
                 Some (schedule th playerId (secs 30) EV_USER_RESPAWN npos w) } }
      | _ \<Rightarrow> Some w)"

subsection \<open>Start-up\<close>

text \<open>The loop \<^verbatim>\<open>for (i = zoneId; i < MAX_MONSTER; i += stride)\<close>.\<close>

definition monster_indices :: "ZoneId \<Rightarrow> int list" where
  "monster_indices zoneId =
     map (\<lambda>k. uint zoneId + int k * ZoneCount)
       [0..<nat ((MAX_MONSTER - uint zoneId + ZoneCount - 1) div ZoneCount)]"

definition monster_id :: "int \<Rightarrow> ObjID" where
  "monster_id i = mkObjID eMonster (ucast MONSTER_ID_START + word_of_int i)"

definition spawn_monster :: "Thread \<Rightarrow> int \<Rightarrow> World \<Rightarrow> World option" where
  "spawn_monster th i w = do {
     let monsterId = monster_id i;
     newMonster \<leftarrow> MakeNewSubject monsterId;
     let (inserted, w) = Insert monsterId newMonster w;
     ASSERT_CRASH inserted;
     w \<leftarrow> GetRandomPosition th monsterId w;
     Some (case GetMonster w monsterId of
             None \<Rightarrow> w
           | Some monster \<Rightarrow>
               upd_monster monsterId (\<lambda>m. m\<lparr>m_spawnX := m_x monster, m_spawnY := m_y monster\<rparr>) w) }"

definition InitForZone :: "Thread \<Rightarrow> ZoneId \<Rightarrow> World \<Rightarrow> World option" where
  "InitForZone th zoneId = for_each (spawn_monster th) (monster_indices zoneId)"

end
