(* ===== verification/Routes.thy ===== *)
theory Routes
  imports UserHandlers MonsterAIs
begin

text \<open>
  The packet handlers of \<^verbatim>\<open>Route/Route.cpp\<close>, one definition per case of the switch, and the
  execution of a queued task by a logic thread.  The cooldowns are compared on the 32-bit
  millisecond counter, with the wrap-around of the type.
\<close>

definition GetNowTime :: "Thread \<Rightarrow> World \<Rightarrow> uint32 \<times> World" where
  "GetNowTime th w = (t_nowms th (ticks w), tick w)"

text \<open>The first guards of every case but the login: the session is in the game and its user is
  alive; the result is the user.\<close>

definition client_of :: "World \<Rightarrow> SessionId \<Rightarrow> Subject option" where
  "client_of w sid =
     (if cs_state (sessions w sid) \<noteq> ST_INGAME then None
      else case GetOwner w sid of None \<Rightarrow> None | Some i \<Rightarrow> GetSubject w i)"

definition Route_login :: "SessionId \<Rightarrow> string \<Rightarrow> string \<Rightarrow> World \<Rightarrow> World" where
  "Route_login sid name password w =
     (if cs_state (sessions w sid) \<noteq> ST_ALLOC then w
      else w\<lparr>dbRequests := dbRequests w @ [DbLogin sid name password]\<rparr>)"

definition face_direction :: "int \<Rightarrow> Subject \<Rightarrow> Subject" where
  "face_direction dir s =
     (if dir = 2 \<or> dir = 4 \<or> dir = 6 then s\<lparr>m_facingLeft := True\<rparr>
      else if dir = 3 \<or> dir = 5 \<or> dir = 7 then s\<lparr>m_facingLeft := False\<rparr>
      else s)"

definition Route_move :: "Thread \<Rightarrow> SessionId \<Rightarrow> int \<Rightarrow> World \<Rightarrow> World option" where
  "Route_move th sid direction w =
     (case client_of w sid of
        None \<Rightarrow> Some w
      | Some client \<Rightarrow>
          if m_die (subj_stat client) then Some w
          else if m_transferring client then Some w
          else if direction > 7 then Some w
          else
            let i = m_SubjID client; (now, w) = GetNowTime th w in
            if now > m_lastMoveTime (subj_user client) + 500
            then
              let w = upd_user i (\<lambda>u. u\<lparr>m_lastMoveTime := now\<rparr>) w;
                  (x, y) = MovePositionByDirection (m_x client) (m_y client) direction;
                  w = upd_obj i (face_direction direction) w
              in HandlePlayerMove th i x y w
            else Some w)"

definition Route_attack :: "Thread \<Rightarrow> SessionId \<Rightarrow> uint8 \<Rightarrow> World \<Rightarrow> World option" where
  "Route_attack th sid facing w =
     (case client_of w sid of
        None \<Rightarrow> Some w
      | Some client \<Rightarrow>
          if m_die (subj_stat client) then Some w
          else if m_transferring client then Some w
          else
            let i = m_SubjID client; (now, w) = GetNowTime th w in
            if now > m_lastAttackTime (subj_user client) + 500
            then
              let w = upd_user i (\<lambda>u. u\<lparr>m_lastAttackTime := now\<rparr>) w;
                  w = upd_obj i (\<lambda>s. s\<lparr>m_facingLeft := (facing = 1)\<rparr>) w
              in HandleAttack th i facing w
            else Some w)"

definition Route_skill :: "Thread \<Rightarrow> SessionId \<Rightarrow> World \<Rightarrow> World option" where
  "Route_skill th sid w =
     (case client_of w sid of
        None \<Rightarrow> Some w
      | Some client \<Rightarrow>
          if m_die (subj_stat client) then Some w
          else if m_transferring client then Some w
          else
            let i = m_SubjID client; (now, w) = GetNowTime th w in
            if now > m_lastSkillTime (subj_user client) + 5000
            then SkillAttack th i (upd_user i (\<lambda>u. u\<lparr>m_lastSkillTime := now\<rparr>) w)
            else Some w)"

definition Route_teleport :: "Thread \<Rightarrow> SessionId \<Rightarrow> short \<Rightarrow> short \<Rightarrow> World \<Rightarrow> World option" where
  "Route_teleport th sid x y w =
     (case client_of w sid of
        None \<Rightarrow> Some w
      | Some client \<Rightarrow>
          if m_die (subj_stat client) then Some w
          else if m_transferring client then Some w
          else if \<not> IsValidWorldPosition x y then Some w
          else HandlePlayerMove th (m_SubjID client) x y w)"

definition Route_equip :: "Thread \<Rightarrow> SessionId \<Rightarrow> uint16 \<Rightarrow> World \<Rightarrow> World option" where
  "Route_equip th sid slotIndex w =
     (case client_of w sid of
        None \<Rightarrow> Some w
      | Some client \<Rightarrow>
          if m_transferring client then Some w
          else do {
            let i = m_SubjID client;
            ((success, previous), w) \<leftarrow> with_inventory i (\<lambda>iv. do {
               (r, p, iv) \<leftarrow> TryEquip (t_iter th) slotIndex iv; Some ((r, p), iv) }) w;
            let previousSlot = (case previous of None \<Rightarrow> MAX_INVENTORY_SLOTS | Some p \<Rightarrow> p);
            client \<leftarrow> GetSubject w i;
            w \<leftarrow> SendITEM_EQUIP_ACK client slotIndex success w;
            if success
            then do {
              w \<leftarrow> BroadcastEquipChange th i w;
              if previousSlot < MAX_INVENTORY_SLOTS then SendITEM_ACQUIRE_INF client previousSlot w
              else Some w }
            else Some w })"

definition Route_unequip :: "Thread \<Rightarrow> SessionId \<Rightarrow> uint16 \<Rightarrow> World \<Rightarrow> World option" where
  "Route_unequip th sid slotIndex w =
     (case client_of w sid of
        None \<Rightarrow> Some w
      | Some client \<Rightarrow>
          if m_transferring client then Some w
          else do {
            let i = m_SubjID client;
            (success, w) \<leftarrow> with_inventory i (TryUnequip (t_iter th) slotIndex) w;
            client \<leftarrow> GetSubject w i;
            w \<leftarrow> SendITEM_UNEQUIP_ACK client slotIndex success w;
            if success then BroadcastEquipChange th i w else Some w })"

definition Route_swap :: "SessionId \<Rightarrow> uint16 \<Rightarrow> uint16 \<Rightarrow> World \<Rightarrow> World option" where
  "Route_swap sid slotIndexA slotIndexB w =
     (case client_of w sid of
        None \<Rightarrow> Some w
      | Some client \<Rightarrow>
          if m_transferring client then Some w
          else do {
            let i = m_SubjID client;
            (success, w) \<leftarrow> with_inventory i (TrySwapSlots slotIndexA slotIndexB) w;
            client \<leftarrow> GetSubject w i;
            Some (SendITEM_SWAP_ACK client slotIndexA slotIndexB success w) })"

definition Route_discard :: "Thread \<Rightarrow> SessionId \<Rightarrow> uint16 \<Rightarrow> uint16 \<Rightarrow> World \<Rightarrow> World option" where
  "Route_discard th sid slotIndex cnt w =
     (case client_of w sid of
        None \<Rightarrow> Some w
      | Some client \<Rightarrow>
          if m_transferring client then Some w
          else do {
            let i = m_SubjID client;
            (extracted, w) \<leftarrow> with_inventory i (TryExtractItem (t_iter th) slotIndex cnt) w;
            w \<leftarrow> (case extracted of
                    None \<Rightarrow> Some w
                  | Some item \<Rightarrow> do {
                      w \<leftarrow> SpawnFieldItem th item (m_x client) (m_y client) npos w;
                      BroadcastEquipChange th i w });
            client \<leftarrow> GetSubject w i;
            Some (SendITEM_DISCARD_ACK client slotIndex (extracted \<noteq> None) w) })"

definition Route_pickup :: "Thread \<Rightarrow> SessionId \<Rightarrow> World \<Rightarrow> World option" where
  "Route_pickup th sid w =
     (case client_of w sid of
        None \<Rightarrow> Some w
      | Some client \<Rightarrow> if m_transferring client then Some w else TryPickupAt th (m_SubjID client) w)"

definition Route_use :: "Thread \<Rightarrow> SessionId \<Rightarrow> uint16 \<Rightarrow> World \<Rightarrow> World option" where
  "Route_use th sid slotIndex w =
     (case client_of w sid of
        None \<Rightarrow> Some w
      | Some client \<Rightarrow>
          if m_die (subj_stat client) then Some w
          else if m_transferring client then Some w
          else
            let i = m_SubjID client; (now, w) = GetNowTime th w in
            if now > m_lastPotionUseTime (subj_user client) + 5000
            then do {
              let w = upd_user i (\<lambda>u. u\<lparr>m_lastPotionUseTime := now\<rparr>) w;
              (success, w) \<leftarrow> with_inventory i (TryUseItem slotIndex) w;
              client \<leftarrow> GetSubject w i;
              let w = (if success then SendUSER_HEAL_INF client w else w);
              Some (SendITEM_USE_ACK client slotIndex success w) }
            else Some w)"

definition Route_chat :: "Thread \<Rightarrow> SessionId \<Rightarrow> string \<Rightarrow> World \<Rightarrow> World option" where
  "Route_chat th sid mess w =
     (case client_of w sid of
        None \<Rightarrow> Some w
      | Some client \<Rightarrow> BroadcastChat th (m_SubjID client) mess w)"

fun route_packet :: "Thread \<Rightarrow> SessionId \<Rightarrow> ClientPacket \<Rightarrow> World \<Rightarrow> World option" where
  "route_packet th sid (USER_LOGIN_REQ_PACKET name password) w = Some (Route_login sid name password w)"
| "route_packet th sid (USER_MOVE_REQ_PACKET direction _) w = Route_move th sid direction w"
| "route_packet th sid (USER_ATTACK_REQ_PACKET facing) w = Route_attack th sid facing w"
| "route_packet th sid USER_SKILL_REQ_PACKET w = Route_skill th sid w"
| "route_packet th sid (USER_TELEPORT_REQ_PACKET x y) w = Route_teleport th sid x y w"
| "route_packet th sid (ITEM_EQUIP_REQ_PACKET k) w = Route_equip th sid k w"
| "route_packet th sid (ITEM_UNEQUIP_REQ_PACKET k) w = Route_unequip th sid k w"
| "route_packet th sid (ITEM_SWAP_REQ_PACKET a b) w = Route_swap sid a b w"
| "route_packet th sid (ITEM_DISCARD_REQ_PACKET k c) w = Route_discard th sid k c w"
| "route_packet th sid ITEM_PICKUP_REQ_PACKET w = Route_pickup th sid w"
| "route_packet th sid (ITEM_USE_REQ_PACKET k) w = Route_use th sid k w"
| "route_packet th sid (CS_CHAT_PACKET mess) w = Route_chat th sid mess w"

definition Route_Dispatch :: "Thread \<Rightarrow> SessionId \<Rightarrow> uint8 list \<Rightarrow> World \<Rightarrow> World option" where
  "Route_Dispatch th sid packet w =
     (case decode packet of None \<Rightarrow> Some w | Some p \<Rightarrow> route_packet th sid p w)"

subsection \<open>Tasks\<close>

fun run_task :: "Thread \<Rightarrow> Task \<Rightarrow> World \<Rightarrow> World option" where
  "run_task th (TRandomMove i) w = HandleRandomMove th i w"
| "run_task th (TMonsterRespawn i) w = Monster_HandleRespawn th i w"
| "run_task th (TAttackToPlayer i t) w = HandleAttackToPlayer th i t w"
| "run_task th (TAggroMove i t) w = HandleAggroMove th i t w"
| "run_task th (THeal i) w = HandleHeal th i w"
| "run_task th (TUserRespawn i) w = HandleRespawn th i w"
| "run_task th (TItemDespawn i) w = HandleDespawn th i w"
| "run_task th (TLootPriorityExpire i) w = Some (HandleLootPriorityExpire i w)"
| "run_task th (TEnterZone i x y) w = HandleEnterZone th i x y w"
| "run_task th (TPacket sid packet) w = Route_Dispatch th sid packet w"
| "run_task th (TDisconnect i) w = Disconnect th i w"
| "run_task th (TCloseSession sid) w = Some (ReleaseSession sid (CloseSession sid w))"
| "run_task th (TLoginFail sid) w = Some (HandleLoginFail sid w)"
| "run_task th (TGetUserInfo sid info items) w = HandleGetUserInfo th sid info items w"
| "run_task th (TAddUserInfo sid info) w = HandleAddUserInfo th sid info w"

end
