(* ===== verification/WorldInvs.thy ===== *)
theory WorldInvs
  imports Routes
begin

text \<open>
  The invariant of the world and the small calculus in which it is proved: \<open>wp m Q\<close> says that the
  option computation \<open>m\<close> returns (no failed assertion, no null dereference, no endless retry) and its
  result satisfies \<open>Q\<close>.  \<open>ok A w\<close> is the invariant together with the liveness of the objects \<open>A\<close> a
  handler holds pointers to.
\<close>

subsection \<open>Results that are defined\<close>

definition wp :: "'a option \<Rightarrow> ('a \<Rightarrow> bool) \<Rightarrow> bool" where
  "wp m Q \<longleftrightarrow> (\<exists>x. m = Some x \<and> Q x)"

lemma wp_Some [simp]: "wp (Some x) Q = Q x"
  by (simp add: wp_def)

lemma wp_None [simp]: "\<not> wp None Q"
  by (simp add: wp_def)

lemma wp_bindI: "wp m P \<Longrightarrow> (\<And>x. P x \<Longrightarrow> wp (f x) Q) \<Longrightarrow> wp (m \<bind> f) Q"
  by (auto simp: wp_def)

lemma wp_mono: "wp m P \<Longrightarrow> (\<And>x. P x \<Longrightarrow> Q x) \<Longrightarrow> wp m Q"
  by (auto simp: wp_def)

lemma wpE: "wp m Q \<Longrightarrow> (\<And>x. m = Some x \<Longrightarrow> Q x \<Longrightarrow> R) \<Longrightarrow> R"
  by (auto simp: wp_def)

lemma wp_for_each:
  "(\<And>x w. x \<in> set xs \<Longrightarrow> I w \<Longrightarrow> wp (f x w) I) \<Longrightarrow> I w \<Longrightarrow> wp (for_each f xs w) I"
  by (induction xs arbitrary: w) (auto intro!: wp_bindI)

text \<open>A loop whose invariant counts down.\<close>

lemma wp_for_each_countdown:
  "(\<And>x w n. x \<in> set xs \<Longrightarrow> I (Suc n) w \<Longrightarrow> wp (f x w) (I n)) \<Longrightarrow> I (n + length xs) w \<Longrightarrow>
   wp (for_each f xs w) (I n)"
  by (induction xs arbitrary: w) (auto intro!: wp_bindI)

lemma fold_inv: "(\<And>x w. x \<in> set xs \<Longrightarrow> I w \<Longrightarrow> I (f x w)) \<Longrightarrow> I w \<Longrightarrow> I (fold f xs w)"
  by (induction xs arbitrary: w) auto

subsection \<open>The outside world\<close>

text \<open>What the handlers rely on: the loops over hash containers visit every element once, the
  priority queue of the path search returns a cheapest node, draws are in range, and a sequence of
  draws from an area with a free tile hits one.\<close>

definition uniform_ok :: "(nat \<Rightarrow> short \<Rightarrow> short \<Rightarrow> short) \<Rightarrow> bool" where
  "uniform_ok u \<longleftrightarrow> (\<forall>n lo hi. lo \<le> hi \<longrightarrow> lo \<le> u n lo hi \<and> u n lo hi \<le> hi)"

definition fair_tiles :: "(nat \<Rightarrow> short \<Rightarrow> short \<Rightarrow> short) \<Rightarrow> bool" where
  "fair_tiles u \<longleftrightarrow> (\<forall>n a b c d. (\<exists>x y. a \<le> x \<and> x \<le> b \<and> c \<le> y \<and> y \<le> d \<and> \<not> isCollision x y) \<longrightarrow>
     (\<exists>k. \<not> isCollision (u (n + 2 * k) a b) (u (Suc (n + 2 * k)) c d)))"

definition thread_ok :: "Thread \<Rightarrow> bool" where
  "thread_ok th \<longleftrightarrow> slot_iteration (t_iter th) \<and> set_traversal (t_ord th) \<and> open_set (t_pick th) \<and>
     uniform_ok (t_uniform th) \<and> fair_tiles (t_uniform th) \<and>
     (\<forall>m n. draws_ok (t_roll th m) (t_count th n))"

definition zone_thread :: "Thread \<Rightarrow> bool" where
  "zone_thread th \<longleftrightarrow> thread_ok th \<and> IsValidZoneId (t_zone th)"

subsection \<open>The invariant\<close>

definition player_stat_ok :: "Stat \<Rightarrow> bool" where
  "player_stat_ok st \<longleftrightarrow> stat_ok st \<and> m_maxHp st = PLAYER_MAX_HP"

definition body_ok :: "uint64 \<Rightarrow> ObjID \<Rightarrow> Subject \<Rightarrow> bool" where
  "body_ok nxt i s \<longleftrightarrow>
     (case m_body s of
        UserB st u \<Rightarrow> hasCategory eUser i \<and> player_stat_ok st \<and> inv_ok (inventory_of s)
      | MonsterB st m \<Rightarrow> hasCategory eMonster i \<and> stat_ok st \<and> m_maxHp st = MONSTER_MAX_HP
      | ItemB it \<Rightarrow> hasCategory eItem i \<and> m_DatabaseID i < nxt \<and> item_ok npos it)"

definition subject_ok :: "uint64 \<Rightarrow> ObjID \<Rightarrow> Subject \<Rightarrow> bool" where
  "subject_ok nxt i s \<longleftrightarrow> m_SubjID s = i \<and> in_short (m_x s, m_y s) \<and> body_ok nxt i s"

definition rows_ok :: "DB_ITEM_INFO list \<Rightarrow> bool" where
  "rows_ok items \<longleftrightarrow> (\<exists>i slots. slots_ok i slots \<and> rows_of (table_of slots) items)"

definition info_level_ok :: "DB_USER_INFO \<Rightarrow> bool" where
  "info_level_ok info \<longleftrightarrow> level_ok (newStat\<lparr>m_level := ui_level info, m_exp := ui_exp info\<rparr>)"

text \<open>Only the answer of a login carries data that must make sense; coordinates are of type
  \<^verbatim>\<open>short\<close>.\<close>

fun task_ok :: "Task \<Rightarrow> bool" where
  "task_ok (TGetUserInfo sid info items) = (rows_ok items \<and> info_level_ok info)"
| "task_ok (TEnterZone i x y) = in_short (x, y)"
| "task_ok _ = True"

definition tasks_ok :: "ZoneManager \<Rightarrow> bool" where
  "tasks_ok zm \<longleftrightarrow> (\<forall>z. \<forall>t \<in> set (zone_pending zm z). task_ok t)"

definition world_ok :: "World \<Rightarrow> bool" where
  "world_ok w \<longleftrightarrow>
     (\<forall>i s. objects w i = Some s \<longrightarrow> subject_ok (nextFieldItemId w) i s) \<and>
     (\<forall>z. IsValidZoneId z \<longrightarrow> grid_of z (grids w z)) \<and>
     zm_ok (zmgr w) \<and> tasks_ok (zmgr w)"

definition ok :: "ObjID set \<Rightarrow> World \<Rightarrow> bool" where
  "ok A w \<longleftrightarrow> world_ok w \<and> (\<forall>i \<in> A. objects w i \<noteq> None)"

subsection \<open>Frames\<close>

lemma ok_world: "ok A w \<Longrightarrow> world_ok w"
  by (simp add: ok_def)

lemma ok_mono: "ok A w \<Longrightarrow> B \<subseteq> A \<Longrightarrow> ok B w"
  by (auto simp: ok_def)

lemma ok_insert: "ok A w \<Longrightarrow> objects w i = Some s \<Longrightarrow> ok (insert i A) w"
  by (auto simp: ok_def)

lemma ok_subject: "ok A w \<Longrightarrow> objects w i = Some s \<Longrightarrow> subject_ok (nextFieldItemId w) i s"
  by (auto simp: ok_def world_ok_def)

lemma ok_alive: "ok A w \<Longrightarrow> i \<in> A \<Longrightarrow> \<exists>s. objects w i = Some s \<and> subject_ok (nextFieldItemId w) i s"
  by (auto simp: ok_def world_ok_def)

lemma ok_frames [simp]:
  "ok A (w\<lparr>ticks := n\<rparr>) = ok A w" "ok A (w\<lparr>dbRequests := rs\<rparr>) = ok A w"
  "ok A (w\<lparr>timer := t\<rparr>) = ok A w" "ok A (w\<lparr>sessions := ss\<rparr>) = ok A w"
  "ok A (w\<lparr>registry := r\<rparr>) = ok A w"
  by (simp_all add: ok_def world_ok_def)

lemma ok_ops [simp]:
  "ok A (tick w) = ok A w" "ok A (schedule th i d ev t w) = ok A w" "ok A (upd_session sid f w) = ok A w"
  "ok A (post sid p w) = ok A w" "ok A (send s p w) = ok A w" "ok A (ReleaseSession sid w) = ok A w"
  "ok A (CloseSession sid w) = ok A w"
  by (simp_all add: tick_def schedule_def upd_session_def post_def send_def ReleaseSession_def
      CloseSession_def split: option.split)

lemma ok_sent: "sent w w' \<Longrightarrow> ok A w' = ok A w"
  unfolding sent_def by (elim exE conjE) simp

lemma ok_sends [simp]:
  "ok A (SendSUBJECT_MOVE_NFY v t w) = ok A w" "ok A (SendSUBJECT_ADD_NFY th v t w) = ok A w"
  "ok A (SendSUBJECT_REMOVE_NFY v i w) = ok A w" "ok A (SendUSER_LOGIN_ACK v w) = ok A w"
  "ok A (SendUSER_ATTACK_ACK v t d w) = ok A w" "ok A (SendSUBJECT_DIE_NFY v t w) = ok A w"
  "ok A (SendSUBJECT_RESPAWN_NFY v t w) = ok A w" "ok A (SendSUBJECT_ATTACK_NFY v i j h w) = ok A w"
  "ok A (SendPLAYER_ATTACK_NFY v i f w) = ok A w" "ok A (SendSC_CHAT v i m w) = ok A w"
  "ok A (SendUSER_HEAL_INF v w) = ok A w" "ok A (SendUSER_STAT_CHANGE_INF v w) = ok A w"
  "ok A (SendITEM_LIST_ACK th v w) = ok A w" "ok A (SendITEM_SWAP_ACK v a b s w) = ok A w"
  "ok A (SendSYSTEM_MESSAGE_INF v c p q w) = ok A w" "ok A (SendITEM_DISCARD_ACK v k s w) = ok A w"
  "ok A (SendITEM_USE_ACK v k s w) = ok A w" "ok A (SendITEM_PICKUP_ACK v s w) = ok A w"
  "ok A (SendSUBJECT_EQUIP_CHANGE_NFY v i it w) = ok A w"
  by (simp_all add: send_defs Let_def)

lemma objects_upd_obj: "objects (upd_obj i f w) j = (if j = i then map_option f (objects w i) else objects w j)"
  by (simp add: upd_obj_def)

lemma ok_upd_obj:
  assumes "ok A w" "\<And>s. objects w i = Some s \<Longrightarrow> subject_ok (nextFieldItemId w) i s \<Longrightarrow>
    subject_ok (nextFieldItemId w) i (f s)"
  shows "ok A (upd_obj i f w)"
  using assms by (auto simp: ok_def world_ok_def upd_obj_def)

lemma ok_zmgr:
  assumes "ok A w" "zm_ok z" "tasks_ok z"
  shows "ok A (w\<lparr>zmgr := z\<rparr>)"
  using assms by (simp add: ok_def world_ok_def)

lemma tasks_ok_Enqueue:
  "zm_ok zm \<Longrightarrow> tasks_ok zm \<Longrightarrow> task_ok t \<Longrightarrow> tasks_ok (EnqueueByZone z t zm)"
  by (auto simp: tasks_ok_def zone_pending_EnqueueByZone)

lemma tasks_ok_objectZones:
  "tasks_ok (UpdateObjectZone i z zm) = tasks_ok zm" "tasks_ok (zm_RemoveObject i zm) = tasks_ok zm"
  by (simp_all add: tasks_ok_def zone_pending_def UpdateObjectZone_def zm_RemoveObject_def)

lemma ok_zm_ops:
  assumes "ok A w"
  shows "ok A (w\<lparr>zmgr := UpdateObjectZone i z (zmgr w)\<rparr>)" "ok A (w\<lparr>zmgr := zm_RemoveObject i (zmgr w)\<rparr>)"
    "task_ok t \<Longrightarrow> ok A (w\<lparr>zmgr := EnqueueByZone z t (zmgr w)\<rparr>)"
proof -
  have z: "zm_ok (zmgr w)" "tasks_ok (zmgr w)"
    using assms by (simp_all add: ok_def world_ok_def)
  show "ok A (w\<lparr>zmgr := UpdateObjectZone i z (zmgr w)\<rparr>)" "ok A (w\<lparr>zmgr := zm_RemoveObject i (zmgr w)\<rparr>)"
    "task_ok t \<Longrightarrow> ok A (w\<lparr>zmgr := EnqueueByZone z t (zmgr w)\<rparr>)"
    using ok_zmgr [OF assms] z by (simp_all add: zm_ok_updates tasks_ok_objectZones tasks_ok_Enqueue)
qed

lemma grid_ok:
  assumes "zone_thread th" "ok A w"
  shows "\<exists>g. grid th w = Some g \<and> grid_of (t_zone th) g"
  using assms by (auto simp: zone_thread_def grid_def ok_def world_ok_def)

lemma ok_set_grid:
  assumes "ok A w" "grid_of (t_zone th) g"
  shows "ok A (set_grid th g w)"
  using assms by (auto simp: ok_def world_ok_def set_grid_def)

lemma set_grid_frames [simp]:
  "objects (set_grid th g w) = objects w" "nextFieldItemId (set_grid th g w) = nextFieldItemId w"
  "zmgr (set_grid th g w) = zmgr w" "ticks (set_grid th g w) = ticks w"
  by (simp_all add: set_grid_def)

subsection \<open>Members that the invariant does not read\<close>

lemma inventory_of_frames [simp]:
  "inventory_of (s\<lparr>m_x := a\<rparr>) = inventory_of s" "inventory_of (s\<lparr>m_y := a\<rparr>) = inventory_of s"
  "inventory_of (s\<lparr>m_sectorX := a\<rparr>) = inventory_of s" "inventory_of (s\<lparr>m_sectorY := a\<rparr>) = inventory_of s"
  "inventory_of (s\<lparr>m_zoneId := z\<rparr>) = inventory_of s" "inventory_of (s\<lparr>m_transferring := b\<rparr>) = inventory_of s"
  "inventory_of (s\<lparr>m_facingLeft := b\<rparr>) = inventory_of s" "inventory_of (s\<lparr>m_SubjName := n\<rparr>) = inventory_of s"
  by (simp_all add: inventory_of_def)

lemma body_ok_frames [simp]:
  "body_ok n i (s\<lparr>m_x := a\<rparr>) = body_ok n i s" "body_ok n i (s\<lparr>m_y := a\<rparr>) = body_ok n i s"
  "body_ok n i (s\<lparr>m_sectorX := a\<rparr>) = body_ok n i s" "body_ok n i (s\<lparr>m_sectorY := a\<rparr>) = body_ok n i s"
  "body_ok n i (s\<lparr>m_zoneId := z\<rparr>) = body_ok n i s" "body_ok n i (s\<lparr>m_transferring := b\<rparr>) = body_ok n i s"
  "body_ok n i (s\<lparr>m_facingLeft := b\<rparr>) = body_ok n i s" "body_ok n i (s\<lparr>m_SubjName := nm\<rparr>) = body_ok n i s"
  by (simp_all add: body_ok_def split: SubjectBody.split)

lemma subject_ok_frames [simp]:
  "subject_ok n i (s\<lparr>m_sectorX := a\<rparr>) = subject_ok n i s" "subject_ok n i (s\<lparr>m_sectorY := a\<rparr>) = subject_ok n i s"
  "subject_ok n i (s\<lparr>m_zoneId := z\<rparr>) = subject_ok n i s"
  "subject_ok n i (s\<lparr>m_transferring := b\<rparr>) = subject_ok n i s"
  "subject_ok n i (s\<lparr>m_facingLeft := b\<rparr>) = subject_ok n i s"
  "subject_ok n i (s\<lparr>m_SubjName := nm\<rparr>) = subject_ok n i s"
  by (simp_all add: subject_ok_def)

lemma subject_ok_position:
  "subject_ok n i s \<Longrightarrow> in_short (x, y) \<Longrightarrow> subject_ok n i (s\<lparr>m_x := x, m_y := y\<rparr>)"
  by (simp add: subject_ok_def)

lemma subject_ok_UpdateFacing [simp]: "subject_ok n i (UpdateFacing d s) = subject_ok n i s"
  by (simp add: UpdateFacing_def)

lemma subject_ok_face [simp]: "subject_ok n i (face_direction d s) = subject_ok n i s"
  by (simp add: face_direction_def)

lemma subject_ok_monster [simp]:
  "subject_ok n i (s\<lparr>m_body := map_monster f (m_body s)\<rparr>) = subject_ok n i s"
  by (cases "m_body s") (simp_all add: subject_ok_def body_ok_def inventory_of_def)

lemma subject_ok_user:
  assumes "subject_ok n i s" "\<And>u. m_slots (f u) = m_slots u"
  shows "subject_ok n i (s\<lparr>m_body := map_user f (m_body s)\<rparr>)"
  using assms by (cases "m_body s") (auto simp: subject_ok_def body_ok_def inventory_of_def inv_ok_def)

lemma subject_ok_stat:
  assumes "subject_ok n i s"
    "is_UserB (m_body s) \<Longrightarrow> player_stat_ok (subj_stat s) \<Longrightarrow>
      player_stat_ok (f (subj_stat s)) \<and> m_offensive (f (subj_stat s)) = m_offensive (subj_stat s)"
    "is_MonsterB (m_body s) \<Longrightarrow> stat_ok (subj_stat s) \<Longrightarrow> m_maxHp (subj_stat s) = MONSTER_MAX_HP \<Longrightarrow>
      stat_ok (f (subj_stat s)) \<and> m_maxHp (f (subj_stat s)) = MONSTER_MAX_HP"
  shows "subject_ok n i (s\<lparr>m_body := map_stat f (m_body s)\<rparr>)"
  using assms by (cases "m_body s") (auto simp: subject_ok_def body_ok_def inventory_of_def inv_ok_def)

lemma subject_ok_loot [simp]:
  "subject_ok n i (s\<lparr>m_body := map_item (\<lambda>it. it\<lparr>m_lootPriorityOwner := o1\<rparr>) (m_body s)\<rparr>) = subject_ok n i s"
  by (cases "m_body s")
    (simp_all add: subject_ok_def body_ok_def item_ok_def isEquipment_def inventory_of_def split: option.split)

lemma ok_upd_monster [simp]: "ok A w \<Longrightarrow> ok A (upd_monster i f w)"
  by (rule ok_upd_obj) simp_all

lemma subject_ok_kind:
  assumes "subject_ok n i s"
  shows "m_SubjID s = i" "in_short (m_x s, m_y s)"
    "hasCategory eUser i \<longleftrightarrow> is_UserB (m_body s)" "hasCategory eMonster i \<longleftrightarrow> is_MonsterB (m_body s)"
    "hasCategory eItem i \<longleftrightarrow> is_ItemB (m_body s)"
    "is_UserB (m_body s) \<Longrightarrow> player_stat_ok (subj_stat s) \<and> inv_ok (inventory_of s)"
    "is_MonsterB (m_body s) \<Longrightarrow> stat_ok (subj_stat s) \<and> m_maxHp (subj_stat s) = MONSTER_MAX_HP"
    "is_ItemB (m_body s) \<Longrightarrow> m_DatabaseID i < n \<and> item_ok npos (subj_item s)"
  using assms
  by (cases "m_body s"; auto simp: subject_ok_def body_ok_def dest: hasCategory_unique)+

subsection \<open>Placement\<close>

lemma UpdateObject_total:
  assumes "grid_of z g"
  shows "\<exists>v sec pos g'. UpdateObjectSectorAndPosition i x y osec opos g = Some (v, sec, pos, g') \<and>
    grid_of z g' \<and> (pos = (x, y) \<or> pos = opos)"
proof (cases "IsValidSector g (fst (GetSectorCoord x y)) (snd (GetSectorCoord x y))")
  case True
  from move_cell_eq [OF True, of i osec] obtain g' where
    "move_cell i osec (GetSectorCoord x y) g = Some g'" "offsetX g' = offsetX g" "offsetY g' = offsetY g"
    by blast
  with True assms show ?thesis
    by (auto simp: UpdateObjectSectorAndPosition_def Let_def grid_of_def)
qed (use assms in \<open>auto simp: UpdateObjectSectorAndPosition_def Let_def\<close>)

lemma world_RemoveObject_ok:
  assumes "zone_thread th" "ok A w" "i \<in> A"
  shows "wp (world_RemoveObject th i w) (\<lambda>w'. ok A w' \<and> nextFieldItemId w' = nextFieldItemId w)"
proof -
  obtain s where s: "objects w i = Some s"
    using ok_alive [OF assms(2,3)] by blast
  obtain g where g: "grid th w = Some g" "grid_of (t_zone th) g"
    using grid_ok [OF assms(1,2)] by blast
  from RemoveObject_eq [of i "(m_sectorX s, m_sectorY s)" g] obtain sec g' where
    r: "RemoveObject i (m_sectorX s, m_sectorY s) g = Some (sec, g')" "offsetX g' = offsetX g" "offsetY g' = offsetY g"
    by blast
  have "ok A (set_grid th g' w)"
    using assms(2) g(2) r by (intro ok_set_grid) (simp_all add: grid_of_def)
  then have "ok A (upd_obj i (\<lambda>s. s\<lparr>m_sectorX := fst sec, m_sectorY := snd sec\<rparr>) (set_grid th g' w))"
    by (rule ok_upd_obj) simp
  then show ?thesis
    by (simp add: world_RemoveObject_def s g r upd_obj_def)
qed

lemma place_ok:
  assumes "ok A w" "grid_of (t_zone th) g" "in_short pos \<or> objects w i = None"
  shows "ok A (upd_obj i (\<lambda>s. s\<lparr>m_sectorX := a, m_sectorY := b, m_x := fst pos, m_y := snd pos\<rparr>) (set_grid th g w))"
  using assms by (intro ok_upd_obj ok_set_grid) (auto simp: subject_ok_position)

lemma UpdatePosition_ok:
  assumes th: "zone_thread th" and w: "ok A w" and p: "in_short (x, y)"
  shows "wp (UpdatePosition th i x y w) (\<lambda>w'. ok A w' \<and> nextFieldItemId w' = nextFieldItemId w)"
proof (cases "objects w i")
  case None
  then show ?thesis
    using w by (simp add: UpdatePosition_def GetSubject_def)
next
  case (Some s)
  obtain g where g: "grid th w = Some g" "grid_of (t_zone th) g"
    using grid_ok [OF th w] by blast
  obtain v sec pos g' where u: "UpdateObjectSectorAndPosition i x y (m_sectorX s, m_sectorY s) (m_x s, m_y s) g =
      Some (v, sec, pos, g')" "grid_of (t_zone th) g'" "pos = (x, y) \<or> pos = (m_x s, m_y s)"
    using UpdateObject_total [OF g(2)] by blast
  have "in_short pos"
    using u(3) p subject_ok_kind(2) [OF ok_subject [OF w Some]] by auto
  then have 1: "ok A (upd_obj i (\<lambda>s. s\<lparr>m_sectorX := fst sec, m_sectorY := snd sec, m_x := fst pos,
      m_y := snd pos\<rparr>) (set_grid th g' w))" (is "ok A ?w1")
    by (intro place_ok w u) simp
  have 2: "ok A ((upd_obj i (\<lambda>s. s\<lparr>m_zoneId := z\<rparr>) ?w1)\<lparr>zmgr := UpdateObjectZone i z (zmgr ?w1)\<rparr>)" for z
  proof -
    have "ok A (upd_obj i (\<lambda>s. s\<lparr>m_zoneId := z\<rparr>) ?w1)" (is "ok A ?w2")
      using 1 by (rule ok_upd_obj) simp
    moreover have "zmgr ?w2 = zmgr ?w1"
      by (simp add: upd_obj_def)
    ultimately show ?thesis
      using ok_zm_ops(1) by metis
  qed
  have n: "nextFieldItemId (upd_obj i f w) = nextFieldItemId w" for f w
    by (simp add: upd_obj_def)
  have m: "nextFieldItemId (upd_session sid f w) = nextFieldItemId w" for sid f w
    by (simp add: upd_session_def)
  show ?thesis
    using w 1 2 by (simp add: UpdatePosition_def GetSubject_def Some g u(1) Let_def n m split: option.split)
qed

subsection \<open>The item counter\<close>

lemma nextItem_frames [simp]:
  "nextFieldItemId (upd_obj i f w) = nextFieldItemId w" "nextFieldItemId (upd_session sid g w) = nextFieldItemId w"
  "nextFieldItemId (tick w) = nextFieldItemId w" "nextFieldItemId (schedule th i d ev t w) = nextFieldItemId w"
  "nextFieldItemId (post sid p w) = nextFieldItemId w" "nextFieldItemId (send s p w) = nextFieldItemId w"
  by (simp_all add: upd_obj_def upd_session_def tick_def schedule_def post_def send_def split: option.split)

lemma nextItem_sends [simp]:
  "nextFieldItemId (SendSUBJECT_MOVE_NFY v t w) = nextFieldItemId w"
  "nextFieldItemId (SendSUBJECT_ADD_NFY th v t w) = nextFieldItemId w"
  "nextFieldItemId (SendSUBJECT_REMOVE_NFY v i w) = nextFieldItemId w"
  "nextFieldItemId (SendUSER_LOGIN_ACK v w) = nextFieldItemId w"
  "nextFieldItemId (SendUSER_ATTACK_ACK v t d w) = nextFieldItemId w"
  "nextFieldItemId (SendSUBJECT_DIE_NFY v t w) = nextFieldItemId w"
  "nextFieldItemId (SendSUBJECT_RESPAWN_NFY v t w) = nextFieldItemId w"
  "nextFieldItemId (SendSUBJECT_ATTACK_NFY v i j h w) = nextFieldItemId w"
  "nextFieldItemId (SendPLAYER_ATTACK_NFY v i f w) = nextFieldItemId w"
  "nextFieldItemId (SendSC_CHAT v i m w) = nextFieldItemId w"
  "nextFieldItemId (SendUSER_HEAL_INF v w) = nextFieldItemId w"
  "nextFieldItemId (SendUSER_STAT_CHANGE_INF v w) = nextFieldItemId w"
  "nextFieldItemId (SendSUBJECT_EQUIP_CHANGE_NFY v i it w) = nextFieldItemId w"
  by (simp_all add: send_defs Let_def)

text \<open>The invariant with the value of the item counter.\<close>

definition okn :: "ObjID set \<Rightarrow> uint64 \<Rightarrow> World \<Rightarrow> bool" where
  "okn A n w \<longleftrightarrow> ok A w \<and> nextFieldItemId w = n"

lemma okn_ok: "okn A n w \<Longrightarrow> ok A w"
  by (simp add: okn_def)

lemma okn_alive: "okn A n w \<Longrightarrow> i \<in> A \<Longrightarrow> \<exists>s. objects w i = Some s \<and> subject_ok n i s"
  using ok_alive [of A w i] by (auto simp: okn_def)

lemma okn_subject: "okn A n w \<Longrightarrow> objects w i = Some s \<Longrightarrow> subject_ok n i s"
  using ok_subject [of A w i s] by (auto simp: okn_def)

lemma okn_upd_obj:
  assumes "okn A n w" "\<And>s. objects w i = Some s \<Longrightarrow> subject_ok n i s \<Longrightarrow> subject_ok n i (f s)"
  shows "okn A n (upd_obj i f w)"
  using assms ok_upd_obj [of A w i f] by (auto simp: okn_def)

lemma okn_upd_monster [simp]: "okn A n w \<Longrightarrow> okn A n (upd_monster i f w)"
  by (simp add: okn_def)

lemma okn_frames [simp]:
  "okn A n (w\<lparr>ticks := k\<rparr>) = okn A n w" "okn A n (w\<lparr>dbRequests := rs\<rparr>) = okn A n w"
  "okn A n (w\<lparr>timer := t\<rparr>) = okn A n w" "okn A n (tick w) = okn A n w"
  "okn A n (schedule th i d ev t' w) = okn A n w" "okn A n (upd_session sid f w) = okn A n w"
  "okn A n (post sid p w) = okn A n w" "okn A n (send s p w) = okn A n w"
  "okn A n (ReleaseSession sid w) = okn A n w" "okn A n (CloseSession sid w) = okn A n w"
  by (simp_all add: okn_def ReleaseSession_def CloseSession_def)

lemma okn_sends [simp]:
  "okn A n (SendSUBJECT_MOVE_NFY v t w) = okn A n w" "okn A n (SendSUBJECT_ADD_NFY th v t w) = okn A n w"
  "okn A n (SendSUBJECT_REMOVE_NFY v i w) = okn A n w" "okn A n (SendUSER_LOGIN_ACK v w) = okn A n w"
  "okn A n (SendUSER_ATTACK_ACK v t d w) = okn A n w" "okn A n (SendSUBJECT_DIE_NFY v t w) = okn A n w"
  "okn A n (SendSUBJECT_RESPAWN_NFY v t w) = okn A n w" "okn A n (SendSUBJECT_ATTACK_NFY v i j h w) = okn A n w"
  "okn A n (SendPLAYER_ATTACK_NFY v i f w) = okn A n w" "okn A n (SendSC_CHAT v i m w) = okn A n w"
  "okn A n (SendUSER_HEAL_INF v w) = okn A n w" "okn A n (SendUSER_STAT_CHANGE_INF v w) = okn A n w"
  "okn A n (SendITEM_LIST_ACK th v w) = okn A n w" "okn A n (SendITEM_SWAP_ACK v a b sc w) = okn A n w"
  "okn A n (SendSYSTEM_MESSAGE_INF v c p q w) = okn A n w" "okn A n (SendITEM_DISCARD_ACK v k sc w) = okn A n w"
  "okn A n (SendITEM_USE_ACK v k sc w) = okn A n w" "okn A n (SendITEM_PICKUP_ACK v sc w) = okn A n w"
  "okn A n (SendSUBJECT_EQUIP_CHANGE_NFY v i it w) = okn A n w"
  by (simp_all add: send_defs Let_def)

lemma okn_zm_ops:
  assumes "okn A n w"
  shows "okn A n (w\<lparr>zmgr := UpdateObjectZone i z (zmgr w)\<rparr>)" "okn A n (w\<lparr>zmgr := zm_RemoveObject i (zmgr w)\<rparr>)"
    "task_ok t \<Longrightarrow> okn A n (w\<lparr>zmgr := EnqueueByZone z t (zmgr w)\<rparr>)"
  using assms ok_zm_ops [of A w] by (simp_all add: okn_def)

lemma okn_insert: "okn A n w \<Longrightarrow> objects w i = Some s \<Longrightarrow> okn (insert i A) n w"
  by (simp add: okn_def ok_insert)

lemma okn_mono: "okn A n w \<Longrightarrow> B \<subseteq> A \<Longrightarrow> okn B n w"
  by (auto simp: okn_def intro: ok_mono)

subsection \<open>Random tiles\<close>

lemma mod3_cases: "p mod 3 = 0 \<or> p mod 3 = 1 \<or> (p + 1) mod 3 = (0 :: int)"
  by presburger

lemma checkCollision_free:
  "(x div 3 + y div 3) mod 3 = 0 \<or> (x div 3 + y div 3) mod 3 = 1 \<Longrightarrow> \<not> checkCollision x y"
  unfolding checkCollision_def by (elim disjE) simp_all

lemma free_tile:
  assumes "0 \<le> x" "x + 3 < W_WIDTH" "0 \<le> y" "y < W_HEIGHT"
  shows "\<not> isCollision x y \<or> \<not> isCollision (x + 3) y"
proof -
  have "(x + 3) div 3 + y div 3 = x div 3 + y div 3 + 1"
    by simp
  then have "\<not> checkCollision x y \<or> \<not> checkCollision (x + 3) y"
    using mod3_cases [of "x div 3 + y div 3"] checkCollision_free [of x y] checkCollision_free [of "x + 3" y]
    by metis
  moreover have "IsValidWorldPosition x y" "IsValidWorldPosition (x + 3) y"
    using assms by (simp_all add: IsValidWorldPosition_def)
  ultimately show ?thesis
    unfolding isCollision_iff by blast
qed

lemma random_tile_unfold:
  "random_tile th a b c d n =
     (if isCollision (t_uniform th n a b) (t_uniform th (Suc n) c d) then random_tile th a b c d (Suc (Suc n))
      else Some (t_uniform th n a b, t_uniform th (Suc n) c d, Suc (Suc n)))"
  by (subst random_tile.simps) (simp add: Let_def)

lemma random_tile_steps:
  "\<not> isCollision (t_uniform th (n + 2 * k) a b) (t_uniform th (Suc (n + 2 * k)) c d) \<Longrightarrow>
   \<exists>m j. random_tile th a b c d n = Some (t_uniform th m a b, t_uniform th (Suc m) c d, j) \<and>
     \<not> isCollision (t_uniform th m a b) (t_uniform th (Suc m) c d)"
proof (induction k arbitrary: n)
  case 0
  then show ?case
    by (subst random_tile_unfold) auto
next
  case (Suc k)
  then have "\<not> isCollision (t_uniform th (Suc (Suc n) + 2 * k) a b) (t_uniform th (Suc (Suc (Suc n) + 2 * k)) c d)"
    by simp
  from Suc.IH [OF this] show ?case
    by (subst random_tile_unfold) auto
qed

lemma random_tile_total:
  assumes th: "thread_ok th" and t: "a \<le> x" "x \<le> b" "c \<le> y" "y \<le> d" "\<not> isCollision x y"
  shows "wp (random_tile th a b c d n)
    (\<lambda>(x, y, _). a \<le> x \<and> x \<le> b \<and> c \<le> y \<and> y \<le> d \<and> \<not> isCollision x y)"
proof -
  have "fair_tiles (t_uniform th)" and u: "uniform_ok (t_uniform th)"
    using th by (simp_all add: thread_ok_def)
  then obtain k where "\<not> isCollision (t_uniform th (n + 2 * k) a b) (t_uniform th (Suc (n + 2 * k)) c d)"
    using t unfolding fair_tiles_def by meson
  from random_tile_steps [OF this] obtain m j where
    "random_tile th a b c d n = Some (t_uniform th m a b, t_uniform th (Suc m) c d, j)"
    "\<not> isCollision (t_uniform th m a b) (t_uniform th (Suc m) c d)"
    by blast
  moreover have "a \<le> b" "c \<le> d"
    using t by auto
  then have "a \<le> t_uniform th m a b" "t_uniform th m a b \<le> b" "c \<le> t_uniform th (Suc m) c d"
    "t_uniform th (Suc m) c d \<le> d"
    using u unfolding uniform_ok_def by blast+
  ultimately show ?thesis
    by simp
qed

lemma random_tile_world:
  assumes th: "thread_ok th" and b: "0 \<le> a" "a + 3 \<le> b" "b < W_WIDTH" "0 \<le> c" "c \<le> d" "d < W_HEIGHT"
  shows "wp (random_tile th a b c d n)
    (\<lambda>(x, y, _). a \<le> x \<and> x \<le> b \<and> c \<le> y \<and> y \<le> d \<and> \<not> isCollision x y)"
  using free_tile [of a c] random_tile_total [OF th, of a a b c c d n]
    random_tile_total [OF th, of a "a + 3" b c c d n] b by auto

lemma GetRandomPosition_ok:
  assumes th: "zone_thread th" and w: "okn A n w"
  shows "wp (GetRandomPosition th i w) (okn A n)"
proof -
  obtain g where g: "grid th w = Some g" "grid_of (t_zone th) g"
    using grid_ok [OF th okn_ok [OF w]] by blast
  note o = grid_of_offsets(1-4) [OF g(2)]
  have b: "short_of (offsetX g * SECTOR_RANGE) = offsetX g * 10"
    "short_of ((offsetX g + kLocalWidth) * SECTOR_RANGE - 1) = offsetX g * 10 + 499"
    "short_of (offsetY g * SECTOR_RANGE) = offsetY g * 10"
    "short_of ((offsetY g + kLocalHeight) * SECTOR_RANGE - 1) = offsetY g * 10 + 499"
    using o by (simp_all add: SECTOR_RANGE_def kLocalWidth_def kLocalHeight_def)
  have t: "thread_ok th"
    using th by (simp add: zone_thread_def)
  have "wp (random_tile th (offsetX g * 10) (offsetX g * 10 + 499) (offsetY g * 10) (offsetY g * 10 + 499) (ticks w))
      (\<lambda>(x, y, _). in_short (x, y))"
    by (rule wp_mono [OF random_tile_world [OF t]]) (use o in \<open>auto simp: in_short_def world_consts\<close>)
  then show ?thesis
    unfolding GetRandomPosition_def g b Let_def bind.bind_lunit
  proof (rule wp_bindI)
    fix r :: "short \<times> short \<times> nat"
    assume "case r of (x, y, _) \<Rightarrow> in_short (x, y)"
    then show "wp (case r of (x, y, k) \<Rightarrow> UpdatePosition th i x y (w\<lparr>ticks := k\<rparr>)) (okn A n)"
      using w UpdatePosition_ok [OF th, of A "w\<lparr>ticks := snd (snd r)\<rparr>" "fst r" "fst (snd r)" i]
      by (cases r) (auto simp: okn_def elim: wp_mono)
  qed
qed

end
