(* ===== verification/InventoryCalls.thy ===== *)
theory InventoryCalls
  imports WorldInvs
begin

text \<open>
  What a handler relies on when it calls the inventory of a user: the call returns, keeps the
  inventory invariant, changes no statistic but the attack power (or heals), and the slots it
  reports are filled.  \<open>with_inventory_ok\<close> lifts such a call to the world.
\<close>

subsection \<open>The statistics of the owner\<close>

definition owner_frame :: "Inventory \<Rightarrow> Inventory \<Rightarrow> bool" where
  "owner_frame iv iv' \<longleftrightarrow> (\<forall>p. inv_owner iv = Some p \<longrightarrow>
     (\<exists>off. inv_owner iv' = Some (p\<lparr>owner_stat := (owner_stat p)\<lparr>m_offensive := off\<rparr>\<rparr>)))"

lemma owner_frame_same: "inv_owner iv' = inv_owner iv \<Longrightarrow> owner_frame iv iv'"
  unfolding owner_frame_def
proof (intro allI impI)
  fix p
  assume "inv_owner iv' = inv_owner iv" "inv_owner iv = Some p"
  then show "\<exists>off. inv_owner iv' = Some (p\<lparr>owner_stat := (owner_stat p)\<lparr>m_offensive := off\<rparr>\<rparr>)"
    by (intro exI [of _ "m_offensive (owner_stat p)"]) simp
qed

lemma owner_frame_trans: "owner_frame a b \<Longrightarrow> owner_frame b c \<Longrightarrow> owner_frame a c"
  unfolding owner_frame_def
proof (intro allI impI)
  fix p
  assume 1: "\<forall>p. inv_owner a = Some p \<longrightarrow> (\<exists>off. inv_owner b = Some (p\<lparr>owner_stat := (owner_stat p)\<lparr>m_offensive := off\<rparr>\<rparr>))"
    and 2: "\<forall>p. inv_owner b = Some p \<longrightarrow> (\<exists>off. inv_owner c = Some (p\<lparr>owner_stat := (owner_stat p)\<lparr>m_offensive := off\<rparr>\<rparr>))"
    and p: "inv_owner a = Some p"
  obtain off where "inv_owner b = Some (p\<lparr>owner_stat := (owner_stat p)\<lparr>m_offensive := off\<rparr>\<rparr>)"
    using 1 p by blast
  then show "\<exists>off. inv_owner c = Some (p\<lparr>owner_stat := (owner_stat p)\<lparr>m_offensive := off\<rparr>\<rparr>)"
    using 2 by fastforce
qed

lemma SaveSlot_owner: "SaveSlotToDB k iv = Some iv' \<Longrightarrow> inv_owner iv' = inv_owner iv"
  by (auto simp: SaveSlotToDB_def bind_eq_Some_conv request_def split: option.splits)

lemma SaveTwo_owner: "SaveTwoSlotsToDB a b iv = Some iv' \<Longrightarrow> inv_owner iv' = inv_owner iv"
  by (auto simp: SaveTwoSlotsToDB_def bind_eq_Some_conv request_def)

lemma save_slots_owner: "save_slots ks iv = Some iv' \<Longrightarrow> inv_owner iv' = inv_owner iv"
  by (induction ks arbitrary: iv) (auto simp: bind_eq_Some_conv dest: SaveSlot_owner)

lemma Recompute_owner: "RecomputeOffensive iter iv = Some iv' \<Longrightarrow> owner_frame iv iv'"
  by (auto simp: RecomputeOffensive_def bind_eq_Some_conv owner_frame_def Let_def)

lemma owner_frame_slots: "owner_frame (iv\<lparr>inv_slots := sl\<rparr>) iv' = owner_frame iv iv'"
  by (simp add: owner_frame_def)

lemma Recompute_save_frame:
  "RecomputeOffensive iter (iv\<lparr>inv_slots := sl\<rparr>) = Some iv1 \<Longrightarrow> inv_owner iv' = inv_owner iv1 \<Longrightarrow> owner_frame iv iv'"
  using Recompute_owner owner_frame_slots owner_frame_same owner_frame_trans by blast

lemmas call_simps = bind_eq_Some_conv Let_def AssertOwnedByCurrentZone_def crash_simps

lemma TryEquip_frame: "TryEquip iter k iv = Some (r, p, iv') \<Longrightarrow> owner_frame iv iv'"
  unfolding TryEquip_def
  by (auto simp: call_simps owner_frame_same split: if_splits option.splits
      dest!: SaveSlot_owner SaveTwo_owner intro: Recompute_save_frame)

lemma TryUnequip_frame: "TryUnequip iter k iv = Some (r, iv') \<Longrightarrow> owner_frame iv iv'"
  unfolding TryUnequip_def
  by (auto simp: call_simps owner_frame_same split: if_splits option.splits
      dest!: SaveSlot_owner intro: Recompute_save_frame)

lemma TrySwapSlots_frame: "TrySwapSlots a b iv = Some (r, iv') \<Longrightarrow> owner_frame iv iv'"
  unfolding TrySwapSlots_def
  by (auto simp: call_simps owner_frame_same split: if_splits dest!: SaveTwo_owner)

lemma TryExtractItem_frame: "TryExtractItem iter k c iv = Some (r, iv') \<Longrightarrow> owner_frame iv iv'"
  unfolding TryExtractItem_def
  by (auto simp: call_simps owner_frame_same split: if_splits option.splits
      dest!: SaveSlot_owner intro: Recompute_save_frame owner_frame_same)

lemma TryAddItem_frame: "TryAddItem iter i c iv = Some (r, ts, iv') \<Longrightarrow> owner_frame iv iv'"
  unfolding TryAddItem_def
  by (auto simp: call_simps owner_frame_same split: if_splits option.splits prod.splits
      dest!: save_slots_owner)

subsection \<open>The calls\<close>

text \<open>The result of a call: a step of the inventory that leaves the owner with legal statistics.\<close>

definition call_ok :: "Inventory \<Rightarrow> Inventory \<Rightarrow> bool" where
  "call_ok iv iv' \<longleftrightarrow> inv_step iv iv' \<and>
     (\<forall>p. inv_owner iv = Some p \<longrightarrow> player_stat_ok (owner_stat p) \<longrightarrow>
        (\<exists>p'. inv_owner iv' = Some p' \<and> player_stat_ok (owner_stat p')))"

lemma player_stat_ok_offensive [simp]: "player_stat_ok (st\<lparr>m_offensive := x\<rparr>) = player_stat_ok st"
  by (simp add: player_stat_ok_def stat_ok_def level_ok_def)

lemma call_okI: "inv_step iv iv' \<Longrightarrow> owner_frame iv iv' \<Longrightarrow> call_ok iv iv'"
  unfolding call_ok_def owner_frame_def by fastforce

lemma call_ok_refl: "inv_ok iv \<Longrightarrow> call_ok iv iv"
  by (simp add: call_ok_def inv_step_refl)

lemma TrySwapSlots_call:
  assumes "inv_ok iv"
  shows "wp (TrySwapSlots a b iv) (\<lambda>(r, iv'). call_ok iv iv')"
proof (cases "IsValidSlotIndex a \<and> IsValidSlotIndex b \<and> a \<noteq> b \<and> (inv_slots iv a \<noteq> None \<or> inv_slots iv b \<noteq> None)")
  case True
  then obtain iv' where "TrySwapSlots a b iv = Some (True, iv')" "inv_step iv iv'"
    using TrySwapSlots_accept [OF assms] by metis
  then show ?thesis
    using TrySwapSlots_frame [of a b iv True iv'] by (simp add: call_okI)
qed (use inv_op_reject(5) [OF inv_ok_owner [OF assms], of a b] call_ok_refl [OF assms] in simp)

lemma TryUseItem_call:
  assumes ok: "inv_ok iv" and o: "inv_owner iv = Some p" and d: "\<not> m_die (owner_stat p)"
  shows "wp (TryUseItem k iv) (\<lambda>(r, iv'). call_ok iv iv')"
proof (cases "\<exists>it. inv_slots iv k = Some it \<and> IsValidSlotIndex k \<and> \<not> isEquipment it")
  case True
  then obtain it where it: "inv_slots iv k = Some it" "\<not> isEquipment it"
    by blast
  have sl: "slots_ok (owner_ObjID p) (inv_slots iv)"
    using ok o by (auto elim: inv_okE)
  obtain row where r: "ItemTable_Find (m_itemTableId it) = Some row"
    using item_ok_row [OF slots_okD(1) [OF sl it(1)]] by metis
  have "player_stat_ok (HealHp a PLAYER_MAX_HP (owner_stat p))" if "player_stat_ok (owner_stat p)" for a
    using that d stat_ok_HealHp [of "owner_stat p" PLAYER_MAX_HP a]
    by (simp add: player_stat_ok_def PLAYER_MAX_HP_def)
  then show ?thesis
    using TryUseItem_accept [OF ok it o r] o by (auto simp: call_ok_def)
qed (use inv_op_reject(4) [OF inv_ok_owner [OF ok], of k] call_ok_refl [OF ok] in simp)

context slot_iteration
begin

lemma TryEquip_call:
  assumes ok: "inv_ok iv"
  shows "wp (TryEquip iter k iv) (\<lambda>(r, p, iv'). call_ok iv iv' \<and> (r \<longrightarrow> inv_slots iv' k \<noteq> None) \<and>
    (\<forall>q. r \<longrightarrow> p = Some q \<longrightarrow> inv_slots iv' q \<noteq> None))"
proof (cases "\<exists>it. inv_slots iv k = Some it \<and> IsValidSlotIndex k \<and> isEquipment it \<and> \<not> IsEquipped it")
  case True
  then obtain it where it: "inv_slots iv k = Some it" "isEquipment it" "\<not> IsEquipped it"
    by blast
  from TryEquip_accept [OF ok it] obtain prev iv' where
    e: "TryEquip iter k iv = Some (True, prev, iv')" "inv_step iv iv'"
    "equipped_set (inv_slots iv') = {(k, m_itemTableId it)}"
    "\<forall>p. prev = Some p \<longleftrightarrow> (\<exists>i. (p, i) \<in> equipped_set (inv_slots iv))"
    by blast
  have d: "dom (inv_slots iv') = dom (inv_slots iv)"
    using e(1) it
    by (auto simp: TryEquip_def call_simps RecomputeOffensive_def SaveSlotToDB_def SaveTwoSlotsToDB_def
        request_def unequip_at_def equip_at_def split: if_splits option.splits)
  have "inv_slots iv' q \<noteq> None" if "prev = Some q" for q
    using e(4) that d equipped_set_fst [of q _ "inv_slots iv"] by blast
  moreover have "inv_slots iv' k \<noteq> None"
    using d it(1) by blast
  ultimately show ?thesis
    using e TryEquip_frame [OF e(1)] by (simp add: call_okI)
next
  case False
  then show ?thesis
    using inv_op_reject(2) [OF inv_ok_owner [OF ok], of k] call_ok_refl [OF ok] by simp
qed

lemma TryUnequip_call:
  assumes ok: "inv_ok iv"
  shows "wp (TryUnequip iter k iv) (\<lambda>(r, iv'). call_ok iv iv' \<and> (r \<longrightarrow> inv_slots iv' k \<noteq> None))"
proof (cases "\<exists>it. inv_slots iv k = Some it \<and> IsValidSlotIndex k \<and> IsEquipped it")
  case True
  then obtain it where it: "inv_slots iv k = Some it" "IsEquipped it"
    by blast
  from TryUnequip_accept [OF ok it] obtain iv' where
    e: "TryUnequip iter k iv = Some (True, iv')" "inv_step iv iv'" "inv_slots iv' = unequip_at k (inv_slots iv)"
    by blast
  then show ?thesis
    using TryUnequip_frame [OF e(1)] it by (simp add: call_okI unequip_at_def)
next
  case False
  then show ?thesis
    using inv_op_reject(3) [OF inv_ok_owner [OF ok], of k] call_ok_refl [OF ok] by simp
qed

lemma TryExtractItem_call:
  assumes ok: "inv_ok iv"
  shows "wp (TryExtractItem iter k c iv) (\<lambda>(r, iv'). call_ok iv iv' \<and> (\<forall>it. r = Some it \<longrightarrow> item_ok npos it))"
proof (cases "\<exists>it. inv_slots iv k = Some it \<and> IsValidSlotIndex k \<and> c \<noteq> 0 \<and> c \<le> m_count it")
  case True
  then obtain it where it: "inv_slots iv k = Some it" "c \<noteq> 0" "c \<le> m_count it"
    by blast
  from TryExtractItem_accept [OF ok it] obtain ex iv' where
    e: "TryExtractItem iter k c iv = Some (Some ex, iv')" "inv_step iv iv'"
    "m_itemTableId ex = m_itemTableId it" "m_count ex = c" "IsOnGround ex" "isEquipment ex = isEquipment it"
    by blast
  obtain p where "slots_ok p (inv_slots iv)"
    using ok by (auto elim: inv_okE)
  from slots_okD(1) [OF this it(1)] have "item_ok npos ex"
    using e it(2,3) by (auto simp: item_ok_def IsOnGround_def unat_le_iff unat_gt_0 Suc_le_eq split: option.splits)
  then show ?thesis
    using e TryExtractItem_frame [OF e(1)] by (simp add: call_okI)
next
  case False
  then show ?thesis
    using inv_op_reject(1) [OF inv_ok_owner [OF ok], of k c] call_ok_refl [OF ok] by simp
qed

lemma TryAddItem_call:
  assumes ok: "inv_ok iv"
  shows "wp (TryAddItem iter i c iv) (\<lambda>(r, ts, iv'). call_ok iv iv' \<and> (\<forall>k \<in> set ts. inv_slots iv' k \<noteq> None))"
proof (cases "c \<noteq> 0 \<and> (\<exists>row. ItemTable_Find i = Some row \<and>
      unat c \<le> inv_capacity i (unat (row_maxStack row)) (inv_slots iv))")
  case True
  then obtain row where row: "c \<noteq> 0" "ItemTable_Find i = Some row"
    "unat c \<le> inv_capacity i (unat (row_maxStack row)) (inv_slots iv)"
    by blast
  from TryAddItem_accept_step [OF ok row] obtain ts iv' where
    e: "TryAddItem iter i c iv = Some (True, ts, iv')" "inv_step iv iv'"
    "grown i (inv_slots iv) (inv_slots iv') (set ts)"
    by blast
  then show ?thesis
    using TryAddItem_frame [OF e(1)] by (auto simp: call_okI grown_def)
next
  case False
  then have "TryAddItem iter i c iv = Some (False, [], iv)"
    by (intro TryAddItem_reject [OF ok]) (cases "ItemTable_Find i"; auto)
  then show ?thesis
    using call_ok_refl [OF ok] by simp
qed

end

subsection \<open>In the world\<close>

lemma store_subject_ok:
  assumes s: "subject_ok n i s" "is_UserB (m_body s)" and c: "call_ok (inventory_of s) iv"
  shows "subject_ok n i (s\<lparr>m_body := map_user (\<lambda>u. u\<lparr>m_slots := inv_slots iv\<rparr>)
    (map_stat (\<lambda>st. case inv_owner iv of Some owner \<Rightarrow> owner_stat owner | None \<Rightarrow> st) (m_body s))\<rparr>)"
proof -
  obtain st u where b: "m_body s = UserB st u"
    using s(2) by (cases "m_body s") auto
  have st: "player_stat_ok st"
    using s(1) b by (simp add: subject_ok_def body_ok_def)
  then obtain p' where p': "inv_owner iv = Some p'" "player_stat_ok (owner_stat p')"
    using c b unfolding call_ok_def by (auto simp: inventory_of_def)
  have "inv_ok iv" "owner_ObjID p' = m_SubjID s"
    using c p' by (simp_all add: call_ok_def inv_step_def inventory_of_def)
  then have "inv_ok \<lparr>inv_owner = Some \<lparr>owner_ObjID = m_SubjID s, owner_playerId = m_playerId u,
      owner_stat = owner_stat p'\<rparr>, inv_slots = inv_slots iv, inv_requests = []\<rparr>"
    using p' by (simp add: inv_ok_def)
  then show ?thesis
    using s(1) b p' by (simp add: subject_ok_def body_ok_def inventory_of_def)
qed

lemma with_inventory_ok:
  assumes w: "okn A n w" and i: "i \<in> A" "hasCategory eUser i"
    and f: "\<And>s. objects w i = Some s \<Longrightarrow> inv_ok (inventory_of s) \<Longrightarrow>
      wp (f (inventory_of s)) (\<lambda>(r, iv'). call_ok (inventory_of s) iv' \<and> R r (inv_slots iv'))"
  shows "wp (with_inventory i f w) (\<lambda>(r, w'). okn A n w' \<and>
    (\<exists>s'. objects w' i = Some s' \<and> R r (m_slots (subj_user s'))))"
proof -
  obtain s where s: "objects w i = Some s" "subject_ok n i s"
    using okn_alive [OF w i(1)] by blast
  note k = subject_ok_kind(3,6) [OF s(2)]
  have u: "is_UserB (m_body s)"
    using k(1) i(2) by simp
  then have "inv_ok (inventory_of s)"
    using k(2) by simp
  from f [OF s(1) this] obtain r iv where r: "f (inventory_of s) = Some (r, iv)"
    "call_ok (inventory_of s) iv" "R r (inv_slots iv)"
    by (auto elim!: wpE)
  have "okn A n (store_inventory i iv w)"
    using s store_subject_ok [OF s(2) u r(2)]
    by (simp add: store_inventory_def) (rule okn_upd_obj [OF w], simp)
  moreover have "\<exists>s'. objects (store_inventory i iv w) i = Some s' \<and> R r (m_slots (subj_user s'))"
    using s r u by (cases "m_body s") (simp_all add: store_inventory_def objects_upd_obj)
  ultimately show ?thesis
    by (simp add: with_inventory_def GetSubject_def s r)
qed

end
