(* ===== verification/WorldSafety.thy ===== *)
theory WorldSafety
  imports InventoryCalls
begin

text \<open>Every handler returns and keeps the invariant, when a zone thread runs it.\<close>

subsection \<open>Reading the world\<close>

lemma wp_GetSubject: "okn A n w \<Longrightarrow> i \<in> A \<Longrightarrow> wp (GetSubject w i) (\<lambda>s. objects w i = Some s \<and> subject_ok n i s)"
  using okn_alive [of A n w i] by (auto simp: wp_def GetSubject_def)

lemma wp_Neighbors:
  assumes "zone_thread th" "okn A n w"
  shows "wp (ForEachNeighborObject th w s) (\<lambda>near. \<forall>t \<in> set near. objects w (m_SubjID t) = Some t)"
proof -
  obtain g where g: "grid th w = Some g"
    using grid_ok [OF assms(1) okn_ok [OF assms(2)]] by blast
  have "objects w (m_SubjID t) = Some t" if "objects w i = Some t" for i t
    using okn_subject [OF assms(2) that] that by (simp add: subject_ok_def)
  then show ?thesis
    by (auto simp: ForEachNeighborObject_def g CollectNeighborObjects_def Let_def GetSubject_def
        List.map_filter_def)
qed

lemma wp_NeighborObjIDs: "zone_thread th \<Longrightarrow> okn A n w \<Longrightarrow> wp (NeighborObjIDs th w s) (\<lambda>_. True)"
  using grid_ok [of th A w] by (auto simp: NeighborObjIDs_def okn_def)

lemma wp_CollectUsers: "zone_thread th \<Longrightarrow> okn A n w \<Longrightarrow> wp (CollectUsers th w i) (\<lambda>_. True)"
  unfolding CollectUsers_def
  by (auto split: option.split intro!: wp_bindI [OF wp_NeighborObjIDs])

lemma wp_CollectSubjects: "zone_thread th \<Longrightarrow> okn A n w \<Longrightarrow> wp (CollectSubjects th w s) (\<lambda>_. True)"
  unfolding CollectSubjects_def by (auto intro!: wp_bindI [OF wp_Neighbors])

lemma UpdatePosition_okn:
  assumes "zone_thread th" "okn A n w" "in_short (x, y)"
  shows "wp (UpdatePosition th i x y w) (okn A n)"
  using UpdatePosition_ok [OF assms(1) okn_ok [OF assms(2)] assms(3), of i] assms(2)
  by (auto simp: okn_def elim: wp_mono)

lemma world_RemoveObject_okn:
  assumes "zone_thread th" "okn A n w" "i \<in> A"
  shows "wp (world_RemoveObject th i w) (okn A n)"
  using world_RemoveObject_ok [OF assms(1) okn_ok [OF assms(2)] assms(3)] assms(2)
  by (auto simp: okn_def elim: wp_mono)

subsection \<open>Movement\<close>

lemma WakeUpMonster_ok: "okn A n w \<Longrightarrow> okn A n (WakeUpMonster th m p f w)"
  by (simp add: WakeUpMonster_def Let_def split_def split: option.split MONSTER_TYPE.split)

lemma Replace_ok: "okn A n w \<Longrightarrow> okn A n (Replace th m old new w)"
  unfolding Replace_def Let_def
  by (intro fold_inv [where I = "okn A n"]) (auto split: option.split)

lemma Notify_ok:
  assumes th: "zone_thread th" and w: "okn A n w"
  shows "wp (NotifyPlayerEnteredWorld th i r w) (okn A n)"
proof (cases "GetUser w i")
  case (Some player)
  show ?thesis
    unfolding NotifyPlayerEnteredWorld_def Some option.case
    by (rule wp_bindI [OF wp_CollectSubjects [OF th w]])
      (auto split: option.split intro!: fold_inv [where I = "okn A n"] WakeUpMonster_ok w)
qed (simp add: NotifyPlayerEnteredWorld_def w)

lemma HandleZoneTransfer_ok:
  assumes th: "zone_thread th" and w: "okn A n w" and i: "i \<in> A" and p: "in_short (x, y)"
  shows "wp (HandleZoneTransfer th i x y z w) (okn A n)"
proof -
  have 1: "okn A n (upd_obj i (\<lambda>s. s\<lparr>m_transferring := True\<rparr>) w)"
    by (rule okn_upd_obj [OF w]) simp
  show ?thesis
    unfolding HandleZoneTransfer_def Let_def
    apply (rule wp_bindI [OF wp_GetSubject [OF 1 i]])
    apply (rule wp_bindI [OF wp_CollectSubjects [OF th 1]])
    apply (rule wp_bindI [OF world_RemoveObject_okn [OF th 1 i]])
    subgoal for player old w1
      apply (rule wp_bindI [OF wp_GetSubject [of A n _ i]])
        apply (rule okn_upd_obj, assumption, simp add: subject_ok_position p)
       apply (rule i)
      apply (simp only: wp_Some)
      apply (rule okn_zm_ops(3))
       apply (auto split: option.split intro!: okn_zm_ops(1) okn_upd_obj fold_inv [where I = "okn A n"]
          simp: subject_ok_position p)
      done
    done
qed

lemma HandlePlayerMove_ok:
  assumes th: "zone_thread th" and w: "okn A n w" and i: "i \<in> A" and p: "in_short (x, y)"
  shows "wp (HandlePlayerMove th i x y w) (okn A n)"
proof -
  have 1: "okn A n (move_pass1 th i s old j w)" if "okn A n w" for s old j w
    using that by (auto simp: move_pass1_def Let_def split: option.split intro: WakeUpMonster_ok)
  have 2: "okn A n (move_pass2 i s new j w)" if "okn A n w" for s new j w
    using that by (simp add: move_pass2_def Let_def split: option.split)
  show ?thesis
    unfolding HandlePlayerMove_def Let_def
    apply (rule wp_bindI [OF wp_GetSubject [OF w i]])
    apply (rule if_split [THEN iffD2], intro conjI impI)
     apply (rule HandleZoneTransfer_ok [OF th w i p])
    apply (rule wp_bindI [OF wp_CollectSubjects [OF th w]])
    apply (rule wp_bindI [OF UpdatePosition_okn [OF th w p]])
    subgoal for player old w1
      apply (rule wp_bindI [OF wp_GetSubject [OF _ i]], assumption)
      apply (auto intro!: wp_bindI [OF wp_CollectSubjects [OF th, of A n]] fold_inv [where I = "okn A n"] 1 2)
      done
    done
qed

lemma HandleEnterZone_ok:
  assumes th: "zone_thread th" and w: "okn A n w" and p: "in_short (x, y)"
  shows "wp (HandleEnterZone th i x y w) (okn A n)"
proof (cases "GetUser w i")
  case (Some s)
  then have s: "objects w i = Some s"
    by (simp add: GetUser_def split: if_splits)
  obtain g where g: "grid th w = Some g" "grid_of (t_zone th) g"
    using grid_ok [OF th okn_ok [OF w]] by blast
  obtain v sec pos g' where u: "UpdateObjectSectorAndPosition i x y (m_sectorX s, m_sectorY s) (m_x s, m_y s) g =
      Some (v, sec, pos, g')" "grid_of (t_zone th) g'" "pos = (x, y) \<or> pos = (m_x s, m_y s)"
    using UpdateObject_total [OF g(2)] by blast
  have "in_short pos"
    using u(3) p subject_ok_kind(2) [OF okn_subject [OF w s]] by auto
  then have 1: "okn A n (upd_obj i (\<lambda>s. s\<lparr>m_sectorX := fst sec, m_sectorY := snd sec, m_x := fst pos,
      m_y := snd pos\<rparr>) (set_grid th g' w))" (is "okn A n ?w1")
    using place_ok [OF okn_ok [OF w] u(2)] w by (simp add: okn_def)
  have 2: "wp (if \<not> v then GetRandomPosition th i ?w1 else Some ?w1) (okn A n)"
    using GetRandomPosition_ok [OF th 1] 1 by simp
  show ?thesis
    unfolding HandleEnterZone_def Some option.case g u(1) bind.bind_lunit Let_def split_conv prod.case
    by (rule wp_bindI [OF 2], rule wp_bindI [OF Notify_ok [OF th]])
      (auto intro: okn_upd_obj)
qed (simp add: HandleEnterZone_def w)

subsection \<open>Items on the ground\<close>

lemma okn_Delete: "okn A n w \<Longrightarrow> i \<notin> A \<Longrightarrow> okn A n (Delete i w)"
  by (auto simp: okn_def ok_def world_ok_def Delete_def)

lemma RemoveFieldItem_ok:
  assumes th: "zone_thread th" and w: "okn A n w" and i: "objects w i \<noteq> None" "i \<notin> A"
  shows "wp (RemoveFieldItem th i w) (okn A n)"
proof -
  have B: "okn (insert i A) n w"
    using w i by (auto intro: okn_insert)
  show ?thesis
    unfolding RemoveFieldItem_def Let_def
    apply (rule wp_bindI [OF wp_GetSubject [OF B insertI1]])
    apply (rule wp_bindI [OF wp_Neighbors [OF th B]])
    apply (rule wp_bindI [OF world_RemoveObject_okn [OF th, of "insert i A" n]])
      apply (intro fold_inv [where I = "okn (insert i A) n"] B, simp)
     apply simp
    apply (auto intro!: okn_Delete okn_zm_ops(2) i intro: okn_mono)
    done
qed

lemma HandleDespawn_ok:
  assumes th: "zone_thread th" and w: "okn {} n w"
  shows "wp (HandleDespawn th i w) (okn {} n)"
  using RemoveFieldItem_ok [OF th w, of i] w
  by (auto simp: HandleDespawn_def GetItem_def split: option.split)

lemma HandleLootPriorityExpire_ok: "okn A n w \<Longrightarrow> okn A n (HandleLootPriorityExpire i w)"
  by (auto simp: HandleLootPriorityExpire_def split: option.split intro: okn_upd_obj)

lemma subject_ok_next:
  assumes "subject_ok n i s" "unat n + 1 < 2 ^ 64"
  shows "subject_ok (n + 1) i s"
proof -
  have "unat (n + 1) = unat n + 1"
    using assms(2) by (simp add: unat_add_noof)
  then have "m_DatabaseID i < n \<Longrightarrow> m_DatabaseID i < n + 1"
    by (simp add: unat_simps)
  then show ?thesis
    using assms(1) by (auto simp: subject_ok_def body_ok_def split: SubjectBody.splits)
qed

lemma fresh_item:
  assumes "okn A n w"
  shows "objects w (mkObjID eItem n) = None"
proof (cases "objects w (mkObjID eItem n)")
  case (Some s)
  then show ?thesis
    using subject_ok_kind(5,8) [OF okn_subject [OF assms Some]] by simp
qed

lemma SpawnFieldItem_ok:
  assumes th: "zone_thread th" and w: "okn A n w" and it: "item_ok npos item" and p: "in_short (x, y)"
    and room: "unat n + 1 < 2 ^ 64"
  shows "wp (SpawnFieldItem th item x y o1 w) (okn A (n + 1))"
proof -
  let ?i = "mkObjID eItem n"
  let ?s = "(newSubject ?i (ItemB (item\<lparr>m_lootPriorityOwner := o1\<rparr>)))\<lparr>m_SubjName := m_Name item\<rparr>"
  let ?w = "w\<lparr>nextFieldItemId := n + 1, objects := (objects w)(?i \<mapsto> ?s)\<rparr>"
  have n: "nextFieldItemId w = n" and f: "objects w ?i = None"
    using w fresh_item [OF w] by (simp_all add: okn_def)
  have "unat (n + 1) = unat n + 1"
    using room by (simp add: unat_add_noof)
  then have "n < n + 1"
    by (simp add: unat_simps)
  moreover have "isEquipment (item\<lparr>m_lootPriorityOwner := o1\<rparr>) = isEquipment item"
    by (simp add: isEquipment_def)
  then have "item_ok npos (item\<lparr>m_lootPriorityOwner := o1\<rparr>)"
    using it by (simp add: item_ok_def split: option.splits)
  ultimately have s: "subject_ok (n + 1) ?i ?s"
    by (simp add: subject_ok_def body_ok_def newSubject_def in_short_def)
  have 1: "okn (insert ?i A) (n + 1) ?w"
    using w s subject_ok_next [OF _ room] n by (auto simp: okn_def ok_def world_ok_def)
  have g: "ASSERT_CRASH (IsOnGround item) = Some ()"
    using it by (simp add: item_ok_def IsOnGround_def)
  have ins: "Insert ?i ?s (w\<lparr>nextFieldItemId := n + 1\<rparr>) = (True, ?w)"
    using f by (simp add: Insert_def)
  show ?thesis
    unfolding SpawnFieldItem_def n Let_def ins g ASSERT_CRASH_True bind.bind_lunit prod.case
    apply (rule wp_bindI [OF UpdatePosition_okn [OF th 1 p]])
    subgoal for w1
      apply (rule wp_bindI [OF wp_GetSubject [OF _ insertI1]], assumption)
      apply (rule wp_bindI [OF wp_Neighbors [OF th]], assumption)
      apply (auto intro!: fold_inv [where I = "okn A (n + 1)"] intro: okn_mono)
      done
    done
qed

lemma find_SomeD: "find P xs = Some x \<Longrightarrow> x \<in> set xs \<and> P x"
  by (auto simp: find_Some_iff)

lemma acquire_all_ok:
  assumes "okn A n w" "\<forall>k \<in> set ts. m_slots (subj_user s) k \<noteq> None"
  shows "wp (for_each (SendITEM_ACQUIRE_INF s) ts w) (okn A n)"
  using assms by (intro wp_for_each) (auto simp: SendITEM_ACQUIRE_INF_def split: option.split)

lemma pickup_call:
  assumes th: "zone_thread th" and w: "okn A n w" and i: "i \<in> A" "hasCategory eUser i"
  shows "wp (with_inventory i (\<lambda>iv. do { (r, ts, iv) \<leftarrow> TryAddItem (t_iter th) k c iv; Some ((r, ts), iv) }) w)
      (\<lambda>((r, ts), w'). okn A n w' \<and> (\<exists>s'. objects w' i = Some s' \<and> (\<forall>k \<in> set ts. m_slots (subj_user s') k \<noteq> None)))"
proof -
  have it: "slot_iteration (t_iter th)"
    using th by (simp add: zone_thread_def thread_ok_def)
  have "wp (with_inventory i (\<lambda>iv. do { (r, ts, iv) \<leftarrow> TryAddItem (t_iter th) k c iv; Some ((r, ts), iv) }) w)
      (\<lambda>(r, w'). okn A n w' \<and> (\<exists>s'. objects w' i = Some s' \<and>
        (\<forall>k \<in> set (snd r). m_slots (subj_user s') k \<noteq> None)))"
    by (rule with_inventory_ok [OF w i])
      (auto intro!: wp_bindI [OF slot_iteration.TryAddItem_call [OF it]])
  then show ?thesis
    by (rule wp_mono) auto
qed

lemma RemoveFieldItem_objects:
  assumes "RemoveFieldItem th j w = Some w'" "i \<noteq> j"
  shows "objects w' i = objects w i"
proof -
  have f: "objects (fold (\<lambda>viewer w. if \<not> hasCategory eUser (m_SubjID viewer) then w
           else if \<not> in_game w viewer then w
           else if \<not> CanSee viewer item then w
           else SendSUBJECT_REMOVE_NFY viewer j w) near w) = objects w" for item near w
    by (rule sentD(1), rule sent_fold) (simp add: send_defs sent_send)
  from assms show ?thesis
    unfolding RemoveFieldItem_def world_RemoveObject_def Let_def
    by (auto simp: bind_eq_Some_conv Delete_def objects_upd_obj f)
qed

lemma TryPickupAt_ok:
  assumes th: "zone_thread th" and w: "okn A n w" and i: "i \<in> A" "hasCategory eUser i"
    and A: "\<forall>j \<in> A. \<not> hasCategory eItem j"
  shows "wp (TryPickupAt th i w) (okn A n)"
  unfolding TryPickupAt_def
proof (rule wp_bindI [OF wp_GetSubject [OF w i(1)]], rule wp_bindI [OF wp_Neighbors [OF th w]], goal_cases)
  case (1 player near)
  show ?case
  proof (cases "find (pickup_candidate player) near")
    case (Some t)
    let ?t = "m_SubjID t"
    have t: "objects w ?t = Some t" "?t \<notin> A" "?t \<noteq> i"
      using find_SomeD [OF Some] 1(2) A i by (auto simp: pickup_candidate_def)
    have B: "okn (insert ?t A) n w"
      using okn_insert [OF w t(1)] .
    show ?thesis
      unfolding Some option.case Let_def
    proof (rule wp_bindI [OF pickup_call [OF th B insertI2 [OF i(1)] i(2)]], goal_cases)
      case (1 r)
      obtain added ts w1 s1 where r: "r = ((added, ts), w1)" "okn (insert ?t A) n w1" "objects w1 i = Some s1"
        "\<forall>k \<in> set ts. m_slots (subj_user s1) k \<noteq> None"
        using 1 by auto
      have w1: "okn A n w1" "objects w1 ?t \<noteq> None"
        using r(2) okn_alive [OF r(2) insertI1] by (auto intro: okn_mono)
      obtain w2 where w2: "RemoveFieldItem th ?t w1 = Some w2" "okn A n w2"
        using RemoveFieldItem_ok [OF th w1 t(2)] by (auto elim: wpE)
      have "objects (SendITEM_PICKUP_ACK player True w2) i = Some s1"
        using sentD(1) [OF sent_send] RemoveFieldItem_objects [OF w2(1) t(3) [symmetric]] r(3)
        by (simp add: SendITEM_PICKUP_ACK_def)
      with r w1 w2 show ?case
        by (simp add: GetSubject_def acquire_all_ok)
    qed
  qed (simp add: w)
qed

end
