(* ===== verification/UserSafety.thy ===== *)
theory UserSafety
  imports WorldSafety
begin

text \<open>Combat, chat, healing, respawn, login and logout return and keep the invariant.  A kill may
  take an id for a dropped item, so the loops over attack targets count the ids that are left.\<close>

definition okr :: "ObjID set \<Rightarrow> nat \<Rightarrow> World \<Rightarrow> bool" where
  "okr A k w \<longleftrightarrow> (\<exists>n. okn A n w \<and> unat n + k < 2 ^ 64)"

lemma okr_less: "okr A (Suc k) w \<Longrightarrow> okr A k w"
  by (auto simp: okr_def)

lemma okr_mono: "okr A k w \<Longrightarrow> B \<subseteq> A \<Longrightarrow> okr B k w"
  by (auto simp: okr_def intro: okn_mono)

lemma okrI: "okn A n w \<Longrightarrow> unat n + k < 2 ^ 64 \<Longrightarrow> okr A k w"
  by (auto simp: okr_def)

lemma okr_next: "okn A (n + 1) w \<Longrightarrow> unat n + Suc k < 2 ^ 64 \<Longrightarrow> okr A k w"
  by (rule okrI, assumption) (simp add: unat_add_noof)

subsection \<open>Combat\<close>

lemma subject_ok_damage:
  "subject_ok n i s \<Longrightarrow> subject_ok n i (s\<lparr>m_body := map_stat (\<lambda>st. snd (TakeDamage d st)) (m_body s)\<rparr>)"
  by (rule subject_ok_stat) (simp_all add: player_stat_ok_def stat_ok_TakeDamage)

lemma HandleItemDrop_ok:
  assumes th: "zone_thread th" and w: "okn A n w" and p: "in_short (x, y)" and room: "unat n + Suc k < 2 ^ 64"
  shows "wp (HandleItemDrop th i x y w) (okr A k)"
proof -
  let ?r = "Roll (t_roll th (ticks w)) (t_count th (Suc (ticks w)))"
  have d: "draws_ok (t_roll th (ticks w)) (t_count th (Suc (ticks w)))"
    using th by (simp add: zone_thread_def thread_ok_def)
  show ?thesis
  proof (cases "hasItem ?r")
    case True
    from Roll_valid [OF d True] obtain row where row: "ItemTable_Find (roll_itemId ?r) = Some row"
      "1 \<le> roll_count ?r" "roll_count ?r \<le> row_maxStack row"
      by blast
    then obtain item where item: "MakeNewItem (roll_itemId ?r) (roll_count ?r) = Some item"
      using MakeNewItem_None_iff by fastforce
    have "item_ok npos item"
      using MakeNewItem_Some [OF item] row by (simp add: item_ok_def)
    then have "wp (SpawnFieldItem th item x y i (tick (tick w))) (okn A (n + 1))"
      using w room by (intro SpawnFieldItem_ok th p) simp_all
    then show ?thesis
      using True item room
      by (simp add: HandleItemDrop_def Let_def) (erule wp_mono, rule okr_next, simp_all)
  qed (use w room in \<open>auto simp: HandleItemDrop_def Let_def intro: okrI\<close>)
qed

lemma AddExp_player:
  assumes "player_stat_ok st" "e = 3 \<or> e = 5"
  shows "wp (AddExp e st) (\<lambda>(_, st'). player_stat_ok st' \<and> m_offensive st' = m_offensive st)"
proof -
  have "unat e \<le> 30" "level_ok st"
    using assms by (auto simp: player_stat_ok_def stat_ok_def)
  from AddExp_level_ok [OF this(2,1)] obtain b t where
    "AddExp e st = Some (b, t)" "level_ok t" "m_hp t = m_hp st" "m_maxHp t = m_maxHp st" "m_die t = m_die st"
    "m_offensive t = m_offensive st"
    by blast
  then show ?thesis
    using assms(1) by (auto simp: player_stat_ok_def stat_ok_def)
qed

lemma subject_ok_set_stat:
  assumes "subject_ok n i s" "is_UserB (m_body s)" "player_stat_ok st" "m_offensive st = m_offensive (subj_stat s)"
  shows "subject_ok n i (s\<lparr>m_body := map_stat (\<lambda>_. st) (m_body s)\<rparr>)"
  using assms by (intro subject_ok_stat) (auto simp: is_UserB_def)

lemma kill_monster_ok:
  assumes th: "zone_thread th" and w: "okn B n w" and B: "m \<in> B" "p \<in> B" "hasCategory eUser p"
    and mon: "in_short (m_x monster, m_y monster)" and room: "unat n + Suc k < 2 ^ 64"
  shows "wp (kill_monster th m p monster w) (okr B k)"
  unfolding kill_monster_def Let_def
proof (rule wp_bindI [OF wp_Neighbors [OF th w]], rule wp_bindI [OF world_RemoveObject_okn [OF th _ B(1), of n]],
    goal_cases)
  case (1 near)
  show ?case
    by (intro fold_inv [where I = "okn B n"] w) simp
next
  case (2 near w1)
  then have w2: "okn B n (upd_monster m (\<lambda>m. m\<lparr>m_Active := False, m_Attack := False, m_viewList := []\<rparr>) w1)"
    (is "okn B n ?w2")
    by simp
  obtain s where s: "objects ?w2 p = Some s" "subject_ok n p s"
    using okn_alive [OF w2 B(2)] by blast
  have u: "is_UserB (m_body s)" "player_stat_ok (subj_stat s)"
    using subject_ok_kind(3,6) [OF s(2)] B(3) by simp_all
  let ?e = "if m_Type (subj_monster monster) = PASSIVE then 3 else 5 :: uint32"
  have "?e = 3 \<or> ?e = 5"
    by simp
  from AddExp_player [OF u(2) this] obtain b st where
    st: "AddExp ?e (subj_stat s) = Some (b, st)" "player_stat_ok st" "m_offensive st = m_offensive (subj_stat s)"
    by (auto elim: wpE)
  have w3: "okn B n (upd_stat p (\<lambda>_. st) ?w2)" (is "okn B n ?w3")
    using s st(2,3) u(1) by (intro okn_upd_obj [OF w2]) (auto intro: subject_ok_set_stat)
  show ?case
    unfolding s(1) GetSubject_def bind.bind_lunit st(1) prod.case
  proof (rule wp_bindI [OF wp_GetSubject [OF w3 B(2), unfolded GetSubject_def]], goal_cases)
    case (1 attacker)
    have "okn B n (SendUSER_STAT_CHANGE_INF attacker ?w3)"
      using w3 by simp
    then show ?case
      by (rule wp_bindI [OF HandleItemDrop_ok [OF th _ mon room]]) (auto simp: okr_def)
  qed
qed

lemma AttackMonster_ok:
  assumes th: "zone_thread th" and w: "okr A (Suc k) w"
  shows "wp (AttackMonster th m p d w) (okr A k)"
proof (cases "\<exists>monster attacker. GetMonster w m = Some monster \<and> GetUser w p = Some attacker \<and>
    \<not> m_die (subj_stat monster)")
  case True
  then obtain monster attacker where g: "GetMonster w m = Some monster" "GetUser w p = Some attacker"
    "\<not> m_die (subj_stat monster)"
    by blast
  obtain n where n: "okn A n w" "unat n + Suc k < 2 ^ 64"
    using w by (auto simp: okr_def)
  have o: "objects w m = Some monster" "objects w p = Some attacker" "hasCategory eUser p"
    using g by (simp_all add: GetMonster_def GetUser_def split: if_splits)
  let ?B = "insert m (insert p A)"
  have 1: "okn ?B n (upd_stat m (\<lambda>st. snd (TakeDamage (word_of_int d) st)) w)" (is "okn ?B n ?w")
    using okn_insert [OF okn_insert [OF n(1) o(2)] o(1)] by (rule okn_upd_obj) (rule subject_ok_damage)
  obtain mon where mon: "objects ?w m = Some mon" "subject_ok n m mon"
    using okn_alive [OF 1 insertI1] by blast
  have "wp (kill_monster th m p mon ?w) (okr ?B k)"
    using subject_ok_kind(2) [OF mon(2)] by (intro kill_monster_ok [OF th 1 _ _ o(3) _ n(2)]) auto
  then have "wp (kill_monster th m p mon ?w) (okr A k)"
    by (rule wp_mono) (auto intro: okr_mono)
  moreover have "okr A k (SendUSER_ATTACK_ACK attacker mon d ?w)"
    using 1 n(2) by (auto intro!: okrI intro: okn_mono)
  ultimately show ?thesis
    by (simp add: AttackMonster_def g Let_def GetSubject_def mon(1))
next
  case False
  then show ?thesis
    using okr_less [OF w] by (auto simp: AttackMonster_def split: option.split)
qed

text \<open>The 64-bit counter of field items has room for one item per object around any sector.\<close>

definition ids_left :: "Thread \<Rightarrow> World \<Rightarrow> bool" where
  "ids_left th w \<longleftrightarrow> (\<forall>sx sy. unat (nextFieldItemId w) +
     length (ForEachNeighborObjID (t_ord th) (grids w (t_zone th)) sx sy) + 1 < 2 ^ 64)"

lemma grids_frames [simp]:
  "grids (upd_obj i f w) = grids w" "grids (upd_session sid g w) = grids w" "grids (tick w) = grids w"
  "grids (send s p w) = grids w" "grids (schedule th i d ev t w) = grids w"
  by (simp_all add: upd_obj_def upd_session_def tick_def send_def post_def schedule_def split: option.split)

lemma ids_left_frames [simp]:
  "ids_left th (upd_obj i f w) = ids_left th w" "ids_left th (tick w) = ids_left th w"
  by (simp_all add: ids_left_def)

lemma ids_left_room: "ids_left th w \<Longrightarrow> unat (nextFieldItemId w) + 1 < 2 ^ 64"
  unfolding ids_left_def
proof -
  assume a: "\<forall>sx sy. unat (nextFieldItemId w) + length (ForEachNeighborObjID (t_ord th) (grids w (t_zone th)) sx sy) + 1 < 2 ^ 64"
  show ?thesis
    using spec [OF spec [OF a, of 0], of 0] by linarith
qed

lemma near_room:
  assumes "zone_thread th" "ids_left th w"
  shows "wp (ForEachNeighborObject th w s) (\<lambda>near. unat (nextFieldItemId w) + length near + 1 < 2 ^ 64)"
proof -
  let ?g = "grids w (t_zone th)"
  have "length (CollectNeighborObjects (t_ord th) (GetSubject w) ?g (m_sectorX s) (m_sectorY s)) \<le>
      length (ForEachNeighborObjID (t_ord th) ?g (m_sectorX s) (m_sectorY s))"
    by (simp add: CollectNeighborObjects_def ForEachNeighborObjID_def Let_def List.map_filter_def)
  moreover have "unat (nextFieldItemId w) +
      length (ForEachNeighborObjID (t_ord th) ?g (m_sectorX s) (m_sectorY s)) + 1 < 2 ^ 64"
    using assms(2) unfolding ids_left_def by blast
  ultimately show ?thesis
    using assms(1) by (simp add: ForEachNeighborObject_def grid_def zone_thread_def)
qed

lemma attack_all_ok:
  assumes th: "zone_thread th" and w: "okn A n w" and r0: "unat n + length near + 1 < 2 ^ 64"
  shows "wp (for_each (\<lambda>i. AttackMonster th i p d) (map m_SubjID (filter P near)) w) (ok A)"
    (is "wp (for_each _ ?ms w) _")
proof -
  have "length ?ms \<le> length near"
    by simp
  then have r: "unat n + length ?ms < 2 ^ 64"
    using r0 by linarith
  have "wp (for_each (\<lambda>i. AttackMonster th i p d) ?ms w) (okr A 0)"
    by (rule wp_for_each_countdown) (use AttackMonster_ok [OF th] w r in \<open>auto intro: okrI\<close>)
  then show ?thesis
    by (rule wp_mono) (auto simp: okr_def okn_def)
qed

lemma SkillAttack_ok:
  assumes th: "zone_thread th" and w: "okn A n w" and r: "ids_left th w"
  shows "wp (SkillAttack th p w) (ok A)"
proof (cases "\<exists>s. GetUser w p = Some s \<and> \<not> m_die (subj_stat s)")
  case True
  then obtain s where s: "GetUser w p = Some s" "\<not> m_die (subj_stat s)"
    by blast
  have n: "nextFieldItemId w = n"
    using w by (simp add: okn_def)
  show ?thesis
    unfolding SkillAttack_def s option.case Let_def
    by (simp only: s if_False, rule wp_bindI [OF near_room [OF th r]], rule attack_all_ok [OF th w]) (simp add: n)
qed (use w in \<open>auto simp: SkillAttack_def okn_def split: option.split\<close>)

lemma HandleAttack_ok:
  assumes th: "zone_thread th" and w: "okn A n w" and i: "p \<in> A" and r: "ids_left th w"
  shows "wp (HandleAttack th p f w) (ok A)"
proof -
  have n: "nextFieldItemId w = n"
    using w by (simp add: okn_def)
  show ?thesis
    unfolding HandleAttack_def Let_def
    by (rule wp_bindI [OF wp_GetSubject [OF w i]], rule wp_bindI [OF near_room [OF th r]],
        rule attack_all_ok [OF th, of A n])
      (rule fold_inv [where I = "okn A n"], simp_all add: w n)
qed

subsection \<open>Chat, healing, respawn\<close>

lemma BroadcastChat_ok:
  assumes th: "zone_thread th" and w: "okn A n w" and i: "p \<in> A"
  shows "wp (BroadcastChat th p m w) (okn A n)"
  unfolding BroadcastChat_def Let_def
proof (rule wp_bindI [OF wp_GetSubject [OF w i]], goal_cases)
  case (1 s)
  have "okn A n (SendSC_CHAT s p m w)"
    using w by simp
  from wp_Neighbors [OF th this] show ?case
    by (rule wp_bindI) (use w in \<open>auto intro!: fold_inv [where I = "okn A n"]\<close>)
qed

lemma BroadcastEquipChange_ok:
  assumes th: "zone_thread th" and w: "okn A n w" and i: "p \<in> A"
  shows "wp (BroadcastEquipChange th p w) (okn A n)"
  unfolding BroadcastEquipChange_def Let_def
  by (rule wp_bindI [OF wp_GetSubject [OF w i, unfolded GetSubject_def]], rule wp_bindI [OF wp_Neighbors [OF th w]])
    (use w in \<open>auto intro!: fold_inv [where I = "okn A n"]\<close>)

lemma subject_ok_heal:
  assumes "subject_ok n i s" "\<not> m_die (subj_stat s)" "is_UserB (m_body s)"
  shows "subject_ok n i (s\<lparr>m_body := map_stat (HealHp a PLAYER_MAX_HP) (m_body s)\<rparr>)"
  using assms stat_ok_HealHp [of "subj_stat s" PLAYER_MAX_HP a]
  by (intro subject_ok_stat) (auto simp: player_stat_ok_def PLAYER_MAX_HP_def is_UserB_def)

lemma HandleHeal_ok:
  assumes w: "okn A n w"
  shows "wp (HandleHeal th p w) (okn A n)"
proof (cases "\<exists>s. GetUser w p = Some s \<and> in_game w s \<and> \<not> m_die (subj_stat s)")
  case True
  then obtain s where s: "GetUser w p = Some s" "in_game w s" "\<not> m_die (subj_stat s)"
    by blast
  have o: "objects w p = Some s" "hasCategory eUser p"
    using s(1) by (simp_all add: GetUser_def split: if_splits)
  note k = okn_subject [OF w o(1)]
  have "is_UserB (m_body s)"
    using subject_ok_kind(3) [OF k] o(2) by simp
  then have "okn A n (upd_stat p (HealHp HEAL_SIZE PLAYER_MAX_HP) w)"
    using subject_ok_heal [OF k s(3)] o(1) by (intro okn_upd_obj [OF w]) simp
  then show ?thesis
    using s o by (simp add: HandleHeal_def Let_def GetSubject_def objects_upd_obj)
qed (use w in \<open>auto simp: HandleHeal_def split: option.split\<close>)

lemma subject_ok_respawn:
  assumes "subject_ok n i s" "is_UserB (m_body s)"
  shows "subject_ok n i (s\<lparr>m_body := map_stat (\<lambda>st. st\<lparr>m_die := False, m_hp := PLAYER_MAX_HP\<rparr>) (m_body s)\<rparr>)"
  using assms
  by (intro subject_ok_stat) (auto simp: player_stat_ok_def stat_ok_def level_ok_def PLAYER_MAX_HP_def is_UserB_def)

lemma HandleRespawn_ok:
  assumes th: "zone_thread th" and w: "okn A n w"
  shows "wp (HandleRespawn th p w) (okn A n)"
proof (cases "GetUser w p")
  case (Some s)
  have o: "objects w p = Some s" "hasCategory eUser p"
    using Some by (simp_all add: GetUser_def split: if_splits)
  have B: "okn (insert p A) n w"
    using okn_insert [OF w o(1)] .
  show ?thesis
    unfolding HandleRespawn_def Some option.case Let_def
  proof (rule wp_bindI [OF GetRandomPosition_ok [OF th B]], goal_cases)
    case (1 w1)
    have w2: "okn (insert p A) n (upd_stat p (\<lambda>st. st\<lparr>m_die := False, m_hp := PLAYER_MAX_HP\<rparr>) w1)"
      using subject_ok_kind(3) o(2) by (intro okn_upd_obj [OF 1] subject_ok_respawn) blast+
    show ?case
    proof (rule wp_bindI [OF wp_GetSubject [OF w2 insertI1]], goal_cases)
      case (1 player)
      have "okn A n (SendSUBJECT_RESPAWN_NFY player player
          (upd_stat p (\<lambda>st. st\<lparr>m_die := False, m_hp := PLAYER_MAX_HP\<rparr>) w1))"
        using okn_mono [OF w2] by auto
      from Notify_ok [OF th this] show ?case
        by (rule wp_bindI) simp
    qed
  qed
qed (simp add: HandleRespawn_def w)

subsection \<open>Login and logout\<close>

lemma FindRandomValidPosition_ok:
  assumes th: "thread_ok th" and w: "okn A n w"
  shows "wp (FindRandomValidPosition th w) (\<lambda>(x, y, w'). in_short (x, y) \<and> okn A n w' \<and> objects w' = objects w)"
  unfolding FindRandomValidPosition_def
  by (rule wp_bindI [OF random_tile_world [OF th]])
    (use w in \<open>auto simp: in_short_def world_consts split: prod.splits\<close>)

lemma LoadFromDB_frame: "LoadFromDB iter items iv = Some iv' \<Longrightarrow> owner_frame iv iv'"
  by (auto simp: LoadFromDB_def bind_eq_Some_conv owner_frame_slots dest: Recompute_owner)

lemma load_user_ok:
  assumes th: "thread_ok th" and i: "hasCategory eUser i" and rows: "rows_ok items" and lv: "info_level_ok info"
  shows "wp (load_user th i info items) (subject_ok n i)"
proof -
  have it: "slot_iteration (t_iter th)"
    using th by (simp add: thread_ok_def)
  obtain j slots where sl: "slots_ok j slots" "rows_of (table_of slots) items"
    using rows by (auto simp: rows_ok_def)
  define st where "st = newStat\<lparr>m_maxHp := PLAYER_MAX_HP, m_hp := PLAYER_MAX_HP, m_offensive := PLAYER_OFFENSIVE,
      m_die := False, m_level := ui_level info, m_exp := ui_exp info\<rparr>"
  have st: "player_stat_ok st"
    using lv by (simp add: player_stat_ok_def stat_ok_def st_def info_level_ok_def level_ok_def PLAYER_MAX_HP_def)
  let ?s = "(User_InitInstance i)\<lparr>m_SubjName := ui_name info\<rparr>"
  let ?p = "?s\<lparr>m_body := map_user (\<lambda>u. u\<lparr>m_playerId := ui_playerId info\<rparr>)
     (map_stat (\<lambda>st. st\<lparr>m_level := ui_level info, m_exp := ui_exp info\<rparr>) (m_body ?s))\<rparr>"
  let ?o = "\<lparr>owner_ObjID = i, owner_playerId = ui_playerId info, owner_stat = st\<rparr>"
  have iv: "inv_owner (inventory_of ?p) = Some ?o" "inv_slots (inventory_of ?p) = Map.empty"
    by (simp_all add: inventory_of_def User_InitInstance_def newSubject_def st_def)
  obtain iv' where iv': "LoadFromDB (t_iter th) items (inventory_of ?p) = Some iv'" "inv_ok iv'"
    using slot_iteration.LoadFromDB_restores [OF it sl iv] by blast
  have "owner_frame (inventory_of ?p) iv'"
    using iv'(1) by (rule LoadFromDB_frame)
  then obtain off where off: "inv_owner iv' = Some (?o\<lparr>owner_stat := st\<lparr>m_offensive := off\<rparr>\<rparr>)"
    using iv(1) unfolding owner_frame_def by fastforce
  have "slots_ok i (inv_slots iv')" "offensive_ok (equipped_set (inv_slots iv')) off"
    using iv'(2) off by (auto simp: inv_ok_def)
  then show ?thesis
    unfolding load_user_def Let_def iv'(1) bind.bind_lunit off
    using st i
    by (simp add: subject_ok_def body_ok_def inventory_of_def User_InitInstance_def newSubject_def in_short_def
        inv_ok_def)
qed

lemma Insert_ok:
  assumes "okn A n w" "subject_ok n i s" "Insert i s w = (True, w')"
  shows "okn (insert i A) n w'"
  using assms by (auto simp: Insert_def okn_def ok_def world_ok_def split: option.splits if_splits)

lemma Insert_reject: "Insert i s w = (False, w') \<Longrightarrow> w' = w"
  by (simp add: Insert_def split: option.splits)

lemma enter_game_ok: "okn A n w \<Longrightarrow> okn A n (enter_game sid i w)"
  by (simp add: enter_game_def) (rule okn_upd_obj, simp, rule subject_ok_user, simp_all)

text \<open>The end of both login handlers.\<close>

lemma login_end_ok:
  assumes th: "zone_thread th" and w: "okn A n w"
  shows "wp (NotifyPlayerEnteredWorld th i False (schedule th i d ev t (SendUSER_LOGIN_ACK s w))) (okn A n)"
    "wp (NotifyPlayerEnteredWorld th i False (schedule th i d ev t (SendITEM_LIST_ACK th s (SendUSER_LOGIN_ACK s w))))
       (okn A n)"
  using w by (simp_all add: Notify_ok [OF th])

lemma login_place_ok:
  assumes th: "zone_thread th" and w: "okn (insert i A) n w"
  shows "wp (if IsFreePosition x y then UpdatePosition th i (short_of x) (short_of y) w
     else do { (fx, fy, w) \<leftarrow> FindRandomValidPosition th w;
               w \<leftarrow> UpdatePosition th i fx fy w;
               player \<leftarrow> GetSubject w i;
               Some (QueueUserSave player fx fy w) }) (okn (insert i A) n)"
proof -
  have t: "thread_ok th"
    using th by (simp add: zone_thread_def)
  have "in_short (short_of x, short_of y)"
    using short_of_bounds by (simp add: in_short_def)
  moreover have "wp (do { (fx, fy, w) \<leftarrow> FindRandomValidPosition th w;
               w \<leftarrow> UpdatePosition th i fx fy w;
               player \<leftarrow> GetSubject w i;
               Some (QueueUserSave player fx fy w) }) (okn (insert i A) n)"
    by (rule wp_bindI [OF FindRandomValidPosition_ok [OF t w]])
      (auto simp: QueueUserSave_def split: prod.splits
        intro!: wp_bindI [OF UpdatePosition_okn [OF th, of "insert i A" n]] wp_bindI [OF wp_GetSubject [of "insert i A" n]])
  ultimately show ?thesis
    using UpdatePosition_okn [OF th w] by simp
qed

lemma HandleGetUserInfo_ok:
  assumes th: "zone_thread th" and w: "okn A n w" and rows: "rows_ok items" and lv: "info_level_ok info"
  shows "wp (HandleGetUserInfo th sid info items w) (okn A n)"
proof (cases "cs_state (sessions w sid) = ST_ALLOC")
  case True
  let ?i = "mkObjID eUser (ucast (cs_objectId (sessions w sid)))"
  have t: "thread_ok th"
    using th by (simp add: zone_thread_def)
  show ?thesis
    unfolding HandleGetUserInfo_def Let_def
  proof (simp only: True not_True_eq_False simp_thms if_False,
      rule wp_bindI [OF load_user_ok [where n = n, OF t _ rows lv]], simp, goal_cases)
    case (1 player)
    obtain b w1 where ins: "Insert ?i player w = (b, w1)"
      by (cases "Insert ?i player w")
    show ?case
    proof (cases b)
      case True
      have w1: "okn (insert ?i A) n (enter_game sid ?i w1)"
        using Insert_ok [OF w 1] ins True by (simp add: enter_game_ok)
      show ?thesis
        unfolding ins prod.case if_not_P [OF not_not [THEN iffD2, OF True]]
        by (rule wp_bindI [OF login_place_ok [OF th w1]])
          (auto intro!: wp_bindI [OF wp_GetSubject [of "insert ?i A" n]] wp_mono [OF login_end_ok(2) [OF th]]
            intro: okn_mono)
    qed (use w Insert_reject ins in auto)
  qed
qed (simp add: HandleGetUserInfo_def w)

lemma new_user_ok:
  assumes "hasCategory eUser i"
  shows "subject_ok n i ((User_InitInstance i)\<lparr>m_SubjName := nm,
    m_body := map_user (\<lambda>u. u\<lparr>m_playerId := p\<rparr>) (m_body ((User_InitInstance i)\<lparr>m_SubjName := nm\<rparr>))\<rparr>)"
  using assms
  by (simp add: subject_ok_def body_ok_def inventory_of_def User_InitInstance_def newSubject_def in_short_def
      inv_ok_def slots_ok_def offensive_ok_def player_stat_ok_def stat_ok_def level_ok_def newStat_def
      PLAYER_MAX_HP_def)

lemma HandleAddUserInfo_ok:
  assumes th: "zone_thread th" and w: "okn A n w"
  shows "wp (HandleAddUserInfo th sid info w) (okn A n)"
proof (cases "cs_state (sessions w sid) = ST_ALLOC")
  case True
  let ?i = "mkObjID eUser (ucast (cs_objectId (sessions w sid)))"
  let ?p = "(User_InitInstance ?i)\<lparr>m_SubjName := ui_name info,
    m_body := map_user (\<lambda>u. u\<lparr>m_playerId := ui_playerId info\<rparr>) (m_body ((User_InitInstance ?i)\<lparr>m_SubjName := ui_name info\<rparr>))\<rparr>"
  obtain b w1 where ins: "Insert ?i ?p w = (b, w1)"
    by (cases "Insert ?i ?p w")
  show ?thesis
  proof (cases b)
    case b: True
    have w1: "okn (insert ?i A) n (enter_game sid ?i w1)"
      using Insert_ok [OF w new_user_ok] ins b by (simp add: enter_game_ok)
    show ?thesis
      unfolding HandleAddUserInfo_def Let_def
      using True b ins
      by (simp, intro wp_bindI [OF GetRandomPosition_ok [OF th w1]])
        (auto intro!: wp_bindI [OF wp_GetSubject [of "insert ?i A" n]] wp_mono [OF login_end_ok(1) [OF th]]
          intro: okn_mono)
  qed (use w Insert_reject ins True in \<open>auto simp: HandleAddUserInfo_def Let_def\<close>)
qed (simp add: HandleAddUserInfo_def w)

lemma SaveUserInfo_ok:
  assumes "thread_ok th" "okn A n w"
  shows "wp (UserHelper_SaveUserInfo th i w) (okn A n)"
  unfolding UserHelper_SaveUserInfo_def QueueUserSave_def
  by (auto split: option.split prod.splits intro!: wp_bindI [OF FindRandomValidPosition_ok [OF assms]] assms)

lemma Disconnect_ok:
  assumes th: "zone_thread th" and w: "okn {} n w"
  shows "wp (Disconnect th i w) (okn {} n)"
proof (cases "GetUser w i")
  case (Some user)
  then have o: "objects w i = Some user"
    by (simp add: GetUser_def split: if_splits)
  have B: "okn {i} n w"
    using okn_insert [OF w o] .
  have t: "thread_ok th"
    using th by (simp add: zone_thread_def)
  have fin: "okn {} n (Delete i w)" if "okn {i} n w" for w
    using okn_Delete [OF okn_mono [OF that]] by auto
  show ?thesis
  proof (cases "m_transferring user \<and> IsValidZoneId (m_zoneId user)")
    case False
    show ?thesis
      unfolding Disconnect_def Some option.case Let_def if_not_P [OF False]
      by (rule wp_bindI [OF wp_Neighbors [OF th B]], rule wp_bindI [OF world_RemoveObject_okn [OF th, of "{i}" n]])
        (auto split: option.split intro!: fold_inv [where I = "okn {i} n"] B okn_zm_ops(2) fin
          wp_bindI [OF SaveUserInfo_ok [OF t, of "{i}" n]])
  qed (use Some w in \<open>simp add: Disconnect_def okn_zm_ops\<close>)
qed (simp add: Disconnect_def w)

end
