(* ===== verification/TaskSafety.thy ===== *)
theory TaskSafety
  imports UserSafety
begin

text \<open>The monsters, the packet handlers and every task return and keep the invariant.\<close>

subsection \<open>Monsters\<close>

lemma valid_in_short: "IsValidWorldPosition x y \<Longrightarrow> in_short (x, y)"
  by (auto simp: IsValidWorldPosition_def world_consts in_short_def)

lemma walkable_in_short: "IsWalkableStep a b x y \<Longrightarrow> in_short (x, y)"
  by (auto simp: IsWalkableStep_def isCollision_iff valid_in_short split: if_splits)

text \<open>The common end of the two moves.\<close>

lemma view_ok:
  assumes th: "zone_thread th" and w: "okn A n w" and p: "in_short (x, y)"
  shows "wp (do { w \<leftarrow> UpdatePosition th i x y w;
                  newList \<leftarrow> CollectUsers th w i;
                  Some (upd_monster i (\<lambda>m. m\<lparr>m_viewList := newList\<rparr>) (Replace th i old newList w)) }) (okn A n)"
  by (rule wp_bindI [OF UpdatePosition_okn [OF th w p]], rule wp_bindI [OF wp_CollectUsers [OF th]])
    (auto intro!: okn_upd_monster Replace_ok)

lemma AStarMove_ok:
  assumes "zone_thread th" "okn A n w" "in_short (x, y)"
  shows "wp (AStarMove th i x y w) (okn A n)"
  using view_ok [OF assms] assms(2) by (simp add: AStarMove_def Let_def split: option.split)

lemma RandomMove_ok:
  assumes th: "zone_thread th" and w: "okn A n w"
  shows "wp (RandomMove th i w) (okn A n)"
proof (cases "GetMonster w i")
  case (Some s)
  obtain x y where m: "MovePositionByDirection (m_x s) (m_y s) (int (t_bits th (ticks w) mod 4)) = (x, y)"
    by (cases "MovePositionByDirection (m_x s) (m_y s) (int (t_bits th (ticks w) mod 4))")
  have f: "okn A n (upd_obj i (UpdateFacing d) (tick w))" for d
    using w by (intro okn_upd_obj) simp_all
  show ?thesis
    unfolding RandomMove_def Some option.case Let_def m prod.case
    using w view_ok [OF th f valid_in_short] by simp
qed (simp add: RandomMove_def w)

lemma MoveMonsterStep_ok:
  assumes th: "zone_thread th" and w: "okn A n w" and i: "i \<in> A" and p: "in_short (x, y)"
  shows "wp (MoveMonsterStep th i x y w) (okn A n)"
proof -
  have "okn A n (upd_obj i (UpdateFacing d) w)" for d
    by (rule okn_upd_obj [OF w]) simp
  then show ?thesis
    unfolding MoveMonsterStep_def
    by (intro wp_bindI [OF wp_GetSubject [OF w i]] AStarMove_ok [OF th _ p])
qed

lemma step_ok:
  assumes th: "zone_thread th" and w: "okn A n w" and i: "i \<in> A" and p: "in_short (x, y)"
  shows "wp (do { w \<leftarrow> MoveMonsterStep th i x y w; Some (True, w) }) (\<lambda>(b, w). okn A n w)"
  by (rule wp_bindI [OF MoveMonsterStep_ok [OF assms]]) simp

lemma TryMoveCached_ok:
  assumes th: "zone_thread th" and w: "okn A n w" and i: "i \<in> A"
  shows "wp (TryMoveCachedPathStep th i gx gy w) (\<lambda>(b, w). okn A n w)"
  unfolding TryMoveCachedPathStep_def Let_def
  by (rule wp_bindI [OF wp_GetSubject [OF w i]])
    (auto simp: w intro!: step_ok [OF th _ i] dest: walkable_in_short)

lemma best_step_in_short:
  "in_short (fst best, fst (snd best)) \<Longrightarrow>
   in_short (fst (best_step cx cy gx gy ds best), fst (snd (best_step cx cy gx gy ds best)))"
proof (induction cx cy gx gy ds best rule: best_step.induct)
  case (2 cx cy gx gy dx dy ds bx by' bd)
  have "in_short (short_of (cx + dx), short_of (cy + dy))"
    using short_of_bounds by (simp add: in_short_def)
  then show ?case
    using 2 by (simp add: Let_def)
qed simp

lemma TryMoveOneStep_ok:
  assumes th: "zone_thread th" and w: "okn A n w" and i: "i \<in> A"
  shows "wp (TryMoveOneStepTowardGoal th i gx gy w) (\<lambda>(b, w). okn A n w)"
  unfolding TryMoveOneStepTowardGoal_def Let_def
proof (rule wp_bindI [OF wp_GetSubject [OF w i]], goal_cases)
  case (1 s)
  let ?d = "ManhattanDistance (m_x s) (m_y s) gx gy"
  obtain bx by' bd where b: "best_step (m_x s) (m_y s) gx gy directions (m_x s, m_y s, ?d) = (bx, by', bd)"
    by (cases "best_step (m_x s) (m_y s) gx gy directions (m_x s, m_y s, ?d)")
  have "in_short (bx, by')"
    using best_step_in_short [of "(m_x s, m_y s, ?d)" "m_x s" "m_y s" gx gy directions] b
      subject_ok_kind(2) 1 by auto
  then show ?case
    using step_ok [OF th _ i, of n "upd_monster i ClearPath w" bx by'] w by (simp add: b)
qed

lemma FindPath_total:
  assumes "thread_ok th" "in_short (x, y)"
  shows "wp (FindPath (t_pick th) x y gx gy) (\<lambda>_. True)"
proof (cases "(x, y) = (gx, gy)")
  case False
  have "open_set (t_pick th)"
    using assms(1) by (simp add: thread_ok_def)
  from open_set.FindPath_result [OF this assms(2) False] show ?thesis
    by (auto simp: wp_def)
qed (simp add: FindPath_def)

lemma TryMoveFresh_ok:
  assumes th: "zone_thread th" and w: "okn A n w" and i: "i \<in> A"
  shows "wp (TryMoveUsingFreshPath th i gx gy w) (\<lambda>(b, w). okn A n w)"
  unfolding TryMoveUsingFreshPath_def Let_def
proof (rule wp_bindI [OF wp_GetSubject [OF w i]], goal_cases)
  case (1 s)
  then have "in_short (m_x s, m_y s)"
    using subject_ok_kind(2) by blast
  with th show ?case
    by (intro wp_bindI [OF FindPath_total])
      (auto simp: zone_thread_def w intro!: step_ok [OF th _ i] dest: walkable_in_short)
qed

lemma TryAdvance_ok:
  assumes th: "zone_thread th" and w: "okn A n w" and i: "i \<in> A"
  shows "wp (TryAdvanceTowardGoal th i gx gy w) (\<lambda>(b, w). okn A n w)"
  unfolding TryAdvanceTowardGoal_def
proof (rule wp_bindI [OF TryMoveCached_ok [OF th w i]], goal_cases)
  case (1 r)
  then show ?case
    by (cases r) (auto intro!: wp_bindI [OF TryMoveOneStep_ok [OF th _ i, of n]] TryMoveFresh_ok [OF th _ i])
qed

lemma HandleRandomMove_ok:
  assumes th: "zone_thread th" and w: "okn A n w"
  shows "wp (HandleRandomMove th i w) (okn A n)"
  unfolding HandleRandomMove_def Let_def
  by (auto split: option.split simp: w
      intro!: wp_bindI [OF wp_NeighborObjIDs [OF th w]] wp_bindI [OF RandomMove_ok [OF th w]])

lemma return_to_spawn_ok:
  assumes "zone_thread th" "okn A n w" "i \<in> A"
  shows "wp (return_to_spawn th i t x y w) (okn A n)"
  unfolding return_to_spawn_def by (rule wp_bindI [OF TryAdvance_ok [OF assms]]) auto

lemma HandleAggroMove_ok:
  assumes th: "zone_thread th" and w: "okn A n w"
  shows "wp (HandleAggroMove th i t w) (okn A n)"
proof (cases "GetMonster w i")
  case (Some s)
  then have o: "objects w i = Some s"
    by (simp add: GetMonster_def split: if_splits)
  have B: "okn (insert i A) n w"
    by (rule okn_insert [OF w o])
  have r: "wp (return_to_spawn th i t x y (upd_monster i f w)) (okn A n)" for x y f
    by (rule wp_mono [OF return_to_spawn_ok [OF th okn_upd_monster [OF B] insertI1]]) (auto intro: okn_mono)
  have c: "wp (TryAdvanceTowardGoal th i x y w \<bind> f) (okn A n)"
    if "\<And>b w. okn (insert i A) n w \<Longrightarrow> wp (f (b, w)) (okn A n)" for x y f
    by (rule wp_bindI [OF TryAdvance_ok [OF th B insertI1]]) (use that in auto)
  show ?thesis
    unfolding HandleAggroMove_def Some option.case Let_def
    by (auto split: option.split simp: w intro!: r c wp_bindI [OF wp_GetSubject [of "insert i A" n]] okn_upd_monster
        intro: okn_mono)
qed (simp add: HandleAggroMove_def w)

lemma subject_ok_reset:
  assumes "subject_ok n i s" "is_MonsterB (m_body s)"
  shows "subject_ok n i (s\<lparr>m_body := map_stat (\<lambda>st. st\<lparr>m_hp := MONSTER_MAX_HP, m_die := False\<rparr>) (m_body s)\<rparr>)"
  using assms
  by (intro subject_ok_stat) (auto simp: stat_ok_def level_ok_def MONSTER_MAX_HP_def is_MonsterB_def)

lemma Monster_HandleRespawn_ok:
  assumes th: "zone_thread th" and w: "okn A n w"
  shows "wp (Monster_HandleRespawn th i w) (okn A n)"
proof (cases "GetMonster w i")
  case (Some s)
  then have o: "objects w i = Some s" "hasCategory eMonster i"
    by (simp_all add: GetMonster_def split: if_splits)
  let ?B = "insert i A"
  let ?w = "upd_stat i (\<lambda>st. st\<lparr>m_hp := MONSTER_MAX_HP, m_die := False\<rparr>) w"
  have B: "okn ?B n ?w"
    using subject_ok_kind(4) o(2) by (intro okn_upd_obj [OF okn_insert [OF w o(1)]] subject_ok_reset) blast+
  show ?thesis
    unfolding Monster_HandleRespawn_def Some option.case Let_def
  proof (rule wp_bindI [OF GetRandomPosition_ok [OF th okn_upd_monster [OF B]]],
      rule wp_bindI [OF wp_GetSubject [OF _ insertI1]], assumption, goal_cases)
    case (1 w1 s1)
    then have w2: "okn ?B n (upd_monster i (\<lambda>m. m\<lparr>m_spawnX := m_x s1, m_spawnY := m_y s1\<rparr>) w1)"
      by simp
    show ?case
      by (rule wp_bindI [OF wp_GetSubject [OF w2 insertI1]], rule wp_bindI [OF wp_Neighbors [OF th w2]])
        (use w2 in \<open>auto intro!: fold_inv [where I = "okn A n"] intro: okn_mono\<close>)
  qed
qed (simp add: Monster_HandleRespawn_def w)

lemma HandleAttackToPlayer_ok:
  assumes th: "zone_thread th" and w: "okn A n w"
  shows "wp (HandleAttackToPlayer th i p w) (okn A n)"
proof (cases "GetMonster w i = None \<or> GetUser w p = None")
  case False
  then obtain m v where g: "GetMonster w i = Some m" "GetUser w p = Some v"
    by auto
  then have o: "objects w i = Some m" "objects w p = Some v"
    by (simp_all add: GetMonster_def GetUser_def split: if_splits)
  let ?B = "insert p A"
  let ?w = "upd_stat p (\<lambda>st. snd (TakeDamage MONSTER_OFFENSIVE st)) (upd_monster i (\<lambda>m. m\<lparr>m_Attack := True\<rparr>) w)"
  have B: "okn ?B n ?w"
    by (rule okn_upd_obj [OF okn_upd_monster [OF okn_insert [OF w o(2)]]]) (rule subject_ok_damage)
  have A: "okn A n w" if "okn ?B n w" for w
    using that by (rule okn_mono) auto
  show ?thesis
    unfolding HandleAttackToPlayer_def g prod.case option.case Let_def
    apply (rule if_split [THEN iffD2], intro conjI impI)
    subgoal using w by simp
    apply (rule wp_bindI [OF wp_GetSubject [OF B insertI1]])
    apply (rule wp_bindI [OF wp_Neighbors [OF th B]])
    apply (rule if_split [THEN iffD2], intro conjI impI)
    subgoal using A [OF B] by (auto intro!: okn_upd_monster fold_inv [where I = "okn A n"])
    apply (rule wp_bindI [OF world_RemoveObject_okn [OF th, of ?B n]])
      apply (intro okn_upd_monster fold_inv [where I = "okn ?B n"] B, simp)
     apply simp
    apply (use A in simp)
    done
qed (use w in \<open>auto simp: HandleAttackToPlayer_def split: option.split\<close>)

subsection \<open>Packets\<close>

lemma client_of_user:
  assumes "okn A n w" "client_of w sid = Some s"
  shows "objects w (m_SubjID s) = Some s" "hasCategory eUser (m_SubjID s)" "subject_ok n (m_SubjID s) s"
proof -
  obtain i where i: "hasCategory eUser i" "objects w i = Some s"
    using assms(2)
    by (auto simp: client_of_def GetOwner_def GetSubject_def GetUser_def split: if_splits option.splits)
  have s: "subject_ok n i s"
    using okn_subject [OF assms(1) i(2)] .
  then have "m_SubjID s = i"
    by (rule subject_ok_kind(1))
  then show "objects w (m_SubjID s) = Some s" "hasCategory eUser (m_SubjID s)" "subject_ok n (m_SubjID s) s"
    using i s by simp_all
qed

lemma MovePosition_in_short:
  assumes "in_short (x, y)"
  shows "in_short (fst (MovePositionByDirection x y d), snd (MovePositionByDirection x y d))"
  using MovePosition_step_ok [of x y d] assms valid_in_short not_isCollision_valid
  by (cases "MovePositionByDirection x y d") (auto simp: step_ok_def)

lemma okn_upd_time:
  assumes "okn A n w" "\<And>u. m_slots (f u) = m_slots u"
  shows "okn A n (upd_user i f w)"
  using assms by (intro okn_upd_obj) (auto intro: subject_ok_user)

lemma Route_move_ok:
  assumes th: "zone_thread th" and w: "okn {} n w"
  shows "wp (Route_move th sid d w) (okn {} n)"
proof (cases "client_of w sid")
  case (Some c)
  note u = client_of_user [OF w Some]
  let ?i = "m_SubjID c" and ?x = "fst (MovePositionByDirection (m_x c) (m_y c) d)"
    and ?y = "snd (MovePositionByDirection (m_x c) (m_y c) d)"
  have "okn {?i} n (upd_obj ?i (face_direction d) (upd_user ?i (\<lambda>u. u\<lparr>m_lastMoveTime := t\<rparr>) (tick w)))" for t
    using okn_insert [OF w u(1)] by (intro okn_upd_obj [OF okn_upd_time]) simp_all
  from HandlePlayerMove_ok [OF th this singletonI MovePosition_in_short [OF subject_ok_kind(2) [OF u(3)]]]
  have "wp (HandlePlayerMove th ?i ?x ?y
      (upd_obj ?i (face_direction d) (upd_user ?i (\<lambda>u. u\<lparr>m_lastMoveTime := t\<rparr>) (tick w)))) (okn {} n)" for t
    by (rule wp_mono) (auto intro: okn_mono)
  then show ?thesis
    using w by (simp add: Route_move_def Some GetNowTime_def Let_def split_def)
qed (simp add: Route_move_def w)

lemma Route_attack_ok:
  assumes th: "zone_thread th" and w: "okn {} n w" and r: "ids_left th w"
  shows "wp (Route_attack th sid f w) (ok {})"
proof (cases "client_of w sid")
  case (Some c)
  note u = client_of_user [OF w Some]
  let ?i = "m_SubjID c"
  have "okn {?i} n (upd_obj ?i (\<lambda>s. s\<lparr>m_facingLeft := b\<rparr>) (upd_user ?i (\<lambda>u. u\<lparr>m_lastAttackTime := t\<rparr>) (tick w)))" for t b
    using okn_insert [OF w u(1)] by (intro okn_upd_obj [OF okn_upd_time]) simp_all
  from HandleAttack_ok [OF th this singletonI]
  have "wp (HandleAttack th ?i f
      (upd_obj ?i (\<lambda>s. s\<lparr>m_facingLeft := b\<rparr>) (upd_user ?i (\<lambda>u. u\<lparr>m_lastAttackTime := t\<rparr>) (tick w)))) (ok {})" for t b
    by (rule wp_mono) (use r in \<open>auto intro: ok_mono\<close>)
  then show ?thesis
    using w by (simp add: Route_attack_def Some GetNowTime_def Let_def okn_def)
qed (use w in \<open>simp add: Route_attack_def okn_def\<close>)

lemma Route_skill_ok:
  assumes th: "zone_thread th" and w: "okn {} n w" and r: "ids_left th w"
  shows "wp (Route_skill th sid w) (ok {})"
proof (cases "client_of w sid")
  case (Some c)
  have "okn {} n (upd_user (m_SubjID c) (\<lambda>u. u\<lparr>m_lastSkillTime := t\<rparr>) (tick w))" for t
    using w by (intro okn_upd_time) simp_all
  from SkillAttack_ok [OF th this] show ?thesis
    using w r by (simp add: Route_skill_def Some GetNowTime_def Let_def okn_def)
qed (use w in \<open>simp add: Route_skill_def okn_def\<close>)

lemma Route_teleport_ok:
  assumes th: "zone_thread th" and w: "okn {} n w"
  shows "wp (Route_teleport th sid x y w) (okn {} n)"
proof (cases "client_of w sid")
  case (Some c)
  note u = client_of_user [OF w Some]
  from HandlePlayerMove_ok [OF th okn_insert [OF w u(1)] insertI1 valid_in_short]
  have "IsValidWorldPosition x y \<Longrightarrow> wp (HandlePlayerMove th (m_SubjID c) x y w) (okn {} n)"
    by (rule wp_mono) (auto intro: okn_mono)
  then show ?thesis
    using w by (simp add: Route_teleport_def Some)
qed (simp add: Route_teleport_def w)

lemma Route_chat_ok:
  assumes th: "zone_thread th" and w: "okn {} n w"
  shows "wp (Route_chat th sid m w) (okn {} n)"
proof (cases "client_of w sid")
  case (Some c)
  from BroadcastChat_ok [OF th okn_insert [OF w client_of_user(1) [OF w Some]] insertI1, of m] show ?thesis
    by (auto simp: Route_chat_def Some intro: okn_mono elim: wp_mono)
qed (simp add: Route_chat_def w)


lemma equip_acks_ok:
  assumes "okn A n w" "b \<longrightarrow> m_slots (subj_user s) k \<noteq> None"
  shows "wp (SendITEM_EQUIP_ACK s k b w) (okn A n)" "wp (SendITEM_UNEQUIP_ACK s k b w) (okn A n)"
  using assms
  by (auto simp: SendITEM_EQUIP_ACK_def SendITEM_UNEQUIP_ACK_def split: option.split)

lemma thread_iter: "zone_thread th \<Longrightarrow> slot_iteration (t_iter th)"
  by (simp add: zone_thread_def thread_ok_def)

text \<open>What the inventory handlers have in common: the user stays alive through the call.\<close>

lemma client_call_ok:
  assumes w: "okn {} n w" and c: "client_of w sid = Some c"
    and f: "\<And>iv. inv_ok iv \<Longrightarrow> wp (f iv) (\<lambda>(r, iv'). call_ok iv iv' \<and> R r (inv_slots iv'))"
  shows "wp (with_inventory (m_SubjID c) f w) (\<lambda>(r, w'). okn {m_SubjID c} n w' \<and>
    (\<exists>s'. objects w' (m_SubjID c) = Some s' \<and> R r (m_slots (subj_user s'))))"
  by (rule with_inventory_ok [OF okn_insert [OF w client_of_user(1) [OF w c]] insertI1 client_of_user(2) [OF w c]])
    (rule f)

lemma Route_equip_ok:
  assumes th: "zone_thread th" and w: "okn {} n w"
  shows "wp (Route_equip th sid k w) (okn {} n)"
proof (cases "client_of w sid")
  case (Some c)
  note it = slot_iteration.TryEquip_call [OF thread_iter [OF th]]
  let ?R = "\<lambda>r slots. (fst r \<longrightarrow> slots k \<noteq> None) \<and> (\<forall>q. fst r \<longrightarrow> snd r = Some q \<longrightarrow> slots q \<noteq> None)"
  have "wp (with_inventory (m_SubjID c) (\<lambda>iv. do { (r, p, iv) \<leftarrow> TryEquip (t_iter th) k iv; Some ((r, p), iv) }) w)
      (\<lambda>(r, w'). okn {m_SubjID c} n w' \<and> (\<exists>s'. objects w' (m_SubjID c) = Some s' \<and> ?R r (m_slots (subj_user s'))))"
    by (rule client_call_ok [OF w Some]) (rule wp_bindI [OF it], auto)
  then have "wp (do { ((success, previous), w) \<leftarrow> with_inventory (m_SubjID c) (\<lambda>iv. do {
               (r, p, iv) \<leftarrow> TryEquip (t_iter th) k iv; Some ((r, p), iv) }) w;
            let previousSlot = (case previous of None \<Rightarrow> MAX_INVENTORY_SLOTS | Some p \<Rightarrow> p);
            client \<leftarrow> GetSubject w (m_SubjID c);
            w \<leftarrow> SendITEM_EQUIP_ACK client k success w;
            if success
            then do {
              w \<leftarrow> BroadcastEquipChange th (m_SubjID c) w;
              if previousSlot < MAX_INVENTORY_SLOTS then SendITEM_ACQUIRE_INF client previousSlot w
              else Some w }
            else Some w }) (okn {m_SubjID c} n)"
  proof (rule wp_bindI, goal_cases)
    case (1 r)
    obtain b p w1 s1 where r: "r = ((b, p), w1)" "okn {m_SubjID c} n w1" "objects w1 (m_SubjID c) = Some s1"
      "?R (b, p) (m_slots (subj_user s1))"
      using 1 by auto
    have "wp (SendITEM_ACQUIRE_INF s1 q w) (okn {m_SubjID c} n)" if "okn {m_SubjID c} n w" "b" "p = Some q" for q w
      using that r(4) by (auto simp: SendITEM_ACQUIRE_INF_def split: option.split)
    then show ?case
      using r by (auto simp: GetSubject_def split: option.split
          intro!: wp_bindI [OF equip_acks_ok(1)] wp_bindI [OF BroadcastEquipChange_ok [OF th _ singletonI]]
          BroadcastEquipChange_ok [OF th _ singletonI])
  qed
  then show ?thesis
    using w by (auto simp: Route_equip_def Some Let_def intro: okn_mono elim: wp_mono)
qed (simp add: Route_equip_def w)

lemma Route_unequip_ok:
  assumes th: "zone_thread th" and w: "okn {} n w"
  shows "wp (Route_unequip th sid k w) (okn {} n)"
proof (cases "client_of w sid")
  case (Some c)
  note it = slot_iteration.TryUnequip_call [OF thread_iter [OF th]]
  have "wp (with_inventory (m_SubjID c) (TryUnequip (t_iter th) k) w)
      (\<lambda>(r, w'). okn {m_SubjID c} n w' \<and> (\<exists>s'. objects w' (m_SubjID c) = Some s' \<and>
        (r \<longrightarrow> m_slots (subj_user s') k \<noteq> None)))"
    by (rule client_call_ok [OF w Some]) (rule it)
  then have "wp (do { (success, w) \<leftarrow> with_inventory (m_SubjID c) (TryUnequip (t_iter th) k) w;
      client \<leftarrow> GetSubject w (m_SubjID c);
      w \<leftarrow> SendITEM_UNEQUIP_ACK client k success w;
      if success then BroadcastEquipChange th (m_SubjID c) w else Some w }) (okn {m_SubjID c} n)"
    by (rule wp_bindI) (auto simp: GetSubject_def equip_acks_ok(2)
        intro!: wp_bindI [OF equip_acks_ok(2)] BroadcastEquipChange_ok [OF th _ singletonI])
  then show ?thesis
    using w by (auto simp: Route_unequip_def Some Let_def intro: okn_mono elim: wp_mono)
qed (simp add: Route_unequip_def w)

lemma Route_swap_ok:
  assumes w: "okn {} n w"
  shows "wp (Route_swap sid a b w) (okn {} n)"
proof (cases "client_of w sid")
  case (Some c)
  have "wp (with_inventory (m_SubjID c) (TrySwapSlots a b) w)
      (\<lambda>(r, w'). okn {m_SubjID c} n w' \<and> (\<exists>s'. objects w' (m_SubjID c) = Some s' \<and> True))"
    by (rule client_call_ok [OF w Some, where R = "\<lambda>_ _. True"]) (simp add: TrySwapSlots_call)
  then have "wp (do { (success, w) \<leftarrow> with_inventory (m_SubjID c) (TrySwapSlots a b) w;
      client \<leftarrow> GetSubject w (m_SubjID c);
      Some (SendITEM_SWAP_ACK client a b success w) }) (okn {m_SubjID c} n)"
    by (rule wp_bindI) (auto simp: GetSubject_def)
  then show ?thesis
    using w by (auto simp: Route_swap_def Some Let_def intro: okn_mono elim: wp_mono)
qed (simp add: Route_swap_def w)

lemma Route_discard_ok:
  assumes th: "zone_thread th" and w: "okn {} n w" and room: "unat n + 1 < 2 ^ 64"
  shows "wp (Route_discard th sid k cnt w) (ok {})"
proof (cases "client_of w sid")
  case (Some c)
  let ?i = "m_SubjID c"
  note p = subject_ok_kind(2) [OF client_of_user(3) [OF w Some]]
  have "wp (with_inventory ?i (TryExtractItem (t_iter th) k cnt) w)
      (\<lambda>(r, w'). okn {?i} n w' \<and> (\<exists>s'. objects w' ?i = Some s' \<and> (\<forall>it. r = Some it \<longrightarrow> item_ok npos it)))"
    by (rule client_call_ok [OF w Some, where R = "\<lambda>r _. \<forall>it. r = Some it \<longrightarrow> item_ok npos it"])
      (rule slot_iteration.TryExtractItem_call [OF thread_iter [OF th]])
  then have "wp (do {
      (extracted, w) \<leftarrow> with_inventory ?i (TryExtractItem (t_iter th) k cnt) w;
      w \<leftarrow> (case extracted of
              None \<Rightarrow> Some w
            | Some item \<Rightarrow> do {
                w \<leftarrow> SpawnFieldItem th item (m_x c) (m_y c) npos w;
                BroadcastEquipChange th ?i w });
      client \<leftarrow> GetSubject w ?i;
      Some (SendITEM_DISCARD_ACK client k (extracted \<noteq> None) w) }) (ok {?i})"
  proof (rule wp_bindI, goal_cases)
    case (1 r)
    obtain e w1 where r: "r = (e, w1)" "okn {?i} n w1" "\<forall>it. e = Some it \<longrightarrow> item_ok npos it"
      using 1 by auto
    have "wp (case e of None \<Rightarrow> Some w1 | Some item \<Rightarrow> do {
        w \<leftarrow> SpawnFieldItem th item (m_x c) (m_y c) npos w1;
        BroadcastEquipChange th ?i w }) (ok {?i})"
    proof (cases e)
      case (Some item)
      from r(3) Some have "item_ok npos item"
        by simp
      from SpawnFieldItem_ok [OF th r(2) this p room]
      have "wp (do { w \<leftarrow> SpawnFieldItem th item (m_x c) (m_y c) npos w1; BroadcastEquipChange th ?i w }) (ok {?i})"
        by (rule wp_bindI) (auto intro: okn_ok wp_mono [OF BroadcastEquipChange_ok [OF th _ singletonI]])
      then show ?thesis
        by (simp add: Some)
    qed (use r(2) in \<open>simp add: okn_def\<close>)
    then show ?case
      unfolding r prod.case by (rule wp_bindI) (use ok_alive in \<open>fastforce simp: GetSubject_def\<close>)
  qed
  then show ?thesis
    using w by (auto simp: Route_discard_def Some Let_def okn_def intro: ok_mono elim: wp_mono)
qed (use w in \<open>simp add: Route_discard_def okn_def\<close>)

lemma Route_pickup_ok:
  assumes th: "zone_thread th" and w: "okn {} n w"
  shows "wp (Route_pickup th sid w) (okn {} n)"
proof (cases "client_of w sid")
  case (Some c)
  note u = client_of_user [OF w Some]
  have "\<forall>j \<in> {m_SubjID c}. \<not> hasCategory eItem j"
    using hasCategory_unique u(2) by fastforce
  from TryPickupAt_ok [OF th okn_insert [OF w u(1)] insertI1 u(2) this] show ?thesis
    using w by (auto simp: Route_pickup_def Some intro: okn_mono elim: wp_mono)
qed (simp add: Route_pickup_def w)

lemma Route_use_ok:
  assumes w: "okn {} n w"
  shows "wp (Route_use th sid k w) (okn {} n)"
proof (cases "client_of w sid")
  case (Some c)
  let ?i = "m_SubjID c"
  note u = client_of_user [OF w Some]
  have "wp (do {
      (success, w) \<leftarrow> with_inventory ?i (TryUseItem k) (upd_user ?i (\<lambda>u. u\<lparr>m_lastPotionUseTime := t\<rparr>) (tick w));
      client \<leftarrow> GetSubject w ?i;
      Some (SendITEM_USE_ACK client k success (if success then SendUSER_HEAL_INF client w else w)) }) (okn {?i} n)"
    if d: "\<not> m_die (subj_stat c)" for t
  proof -
    let ?w = "upd_user ?i (\<lambda>u. u\<lparr>m_lastPotionUseTime := t\<rparr>) (tick w)"
    have w1: "okn {?i} n ?w"
      using okn_insert [OF w u(1)] by (intro okn_upd_time) simp_all
    have b: "is_UserB (m_body c)"
      using subject_ok_kind(3) [OF u(3)] u(2) by simp
    have "\<not> m_die (subj_stat s)" if "objects ?w ?i = Some s" for s
      using that u(1) d b by (cases "m_body c") (auto simp: objects_upd_obj tick_def)
    then have "wp (with_inventory ?i (TryUseItem k) ?w)
        (\<lambda>(r, w'). okn {?i} n w' \<and> (\<exists>s'. objects w' ?i = Some s' \<and> True))"
      by (intro with_inventory_ok [OF w1 singletonI u(2), where R = "\<lambda>_ _. True"])
        (simp add: TryUseItem_call inventory_of_def)
    then show ?thesis
      by (rule wp_bindI) (auto simp: GetSubject_def)
  qed
  then show ?thesis
    using w by (auto simp: Route_use_def Some Let_def GetNowTime_def intro!: okn_mono intro: wp_mono)
qed (simp add: Route_use_def w)

lemma route_packet_ok:
  assumes th: "zone_thread th" and w: "okn {} n w" and r: "ids_left th w"
  shows "wp (route_packet th sid p w) (ok {})"
proof -
  have n: "unat n + 1 < 2 ^ 64"
    using ids_left_room [OF r] w by (simp add: okn_def)
  note k = wp_mono [OF _ okn_ok]
  show ?thesis
    using w okn_ok [OF w] Route_discard_ok [OF th w n]
    by (cases p)
      (simp_all add: th r Route_login_def k [OF Route_move_ok] Route_attack_ok
        Route_skill_ok k [OF Route_teleport_ok] k [OF Route_equip_ok] k [OF Route_unequip_ok]
        k [OF Route_swap_ok] k [OF Route_pickup_ok] k [OF Route_use_ok] k [OF Route_chat_ok])
qed

subsection \<open>Tasks\<close>

text \<open>Every task a zone thread takes from its queue runs to its end and keeps the invariant.\<close>

lemma run_task_ok:
  assumes th: "zone_thread th" and w: "world_ok w" and t: "task_ok t" and r: "ids_left th w"
  shows "wp (run_task th t w) world_ok"
proof -
  obtain n where n: "okn {} n w"
    using w by (simp add: okn_def ok_def)
  note k = wp_mono [OF _ okn_ok]
  have "wp (run_task th t w) (ok {})"
    using t okn_ok [OF n] k [OF HandleRandomMove_ok [OF th n]] k [OF Monster_HandleRespawn_ok [OF th n]]
      k [OF HandleAttackToPlayer_ok [OF th n]] k [OF HandleAggroMove_ok [OF th n]] k [OF HandleHeal_ok [OF n]]
      k [OF HandleRespawn_ok [OF th n]] k [OF HandleDespawn_ok [OF th n]]
      okn_ok [OF HandleLootPriorityExpire_ok [OF n]] k [OF HandleEnterZone_ok [OF th n]]
      route_packet_ok [OF th n r] k [OF Disconnect_ok [OF th n]] k [OF HandleGetUserInfo_ok [OF th n]]
      k [OF HandleAddUserInfo_ok [OF th n]]
    by (cases t) (simp_all add: Route_Dispatch_def HandleLoginFail_def split: option.split)
  then show ?thesis
    by (rule wp_mono) (rule ok_world)
qed

end
