(* ===== verification/Placement.thy ===== *)
theory Placement
  imports TaskSafety
begin

text \<open>
  Where an object is: in exactly one cell of the grid of one zone, the cell of its position, with the
  zone member, the sector members and the zone table in agreement.
\<close>

definition placed :: "World \<Rightarrow> ZoneId \<Rightarrow> ObjID \<Rightarrow> bool" where
  "placed w z i \<longleftrightarrow> (case objects w i of
     None \<Rightarrow> False
   | Some s \<Rightarrow> m_zoneId s = z \<and> GetObjectZone (zmgr w) i = z \<and> GetZoneIdByWorld (m_x s) (m_y s) = z \<and>
       GetSectorCoord (m_x s) (m_y s) = (m_sectorX s, m_sectorY s) \<and>
       (\<forall>c. i \<in> cell (grids w z) c \<longleftrightarrow> c = (m_sectorX s, m_sectorY s)))"

definition absent :: "World \<Rightarrow> ZoneId \<Rightarrow> ObjID \<Rightarrow> bool" where
  "absent w z i \<longleftrightarrow> (\<forall>c. i \<notin> cell (grids w z) c) \<and> (case objects w i of
     None \<Rightarrow> True
   | Some s \<Rightarrow> (m_sectorX s, m_sectorY s) = (-1, -1) \<and> (m_zoneId s = z \<longrightarrow> GetObjectZone (zmgr w) i = z))"

text \<open>Nothing but the object \<open>i\<close> changed, and nothing outside the grid of the zone \<open>z\<close>.\<close>

definition others_same :: "ZoneId \<Rightarrow> ObjID \<Rightarrow> World \<Rightarrow> World \<Rightarrow> bool" where
  "others_same z i w w' \<longleftrightarrow>
     (\<forall>j. j \<noteq> i \<longrightarrow> objects w' j = objects w j \<and> GetObjectZone (zmgr w') j = GetObjectZone (zmgr w) j \<and>
        (\<forall>c. j \<in> cell (grids w' z) c \<longleftrightarrow> j \<in> cell (grids w z) c)) \<and>
     (\<forall>z'. z' \<noteq> z \<longrightarrow> grids w' z' = grids w z')"

text \<open>The queues, and all of a session but its routing.\<close>

definition sess_same :: "World \<Rightarrow> World \<Rightarrow> bool" where
  "sess_same w w' \<longleftrightarrow> zones (zmgr w') = zones (zmgr w) \<and> defaultThread (zmgr w') = defaultThread (zmgr w) \<and>
     (\<forall>k. cs_state (sessions w' k) = cs_state (sessions w k) \<and>
     cs_owner (sessions w' k) = cs_owner (sessions w k) \<and> cs_open (sessions w' k) = cs_open (sessions w k))"

lemma others_same_refl: "others_same z i w w"
  by (simp add: others_same_def)

lemma others_same_trans: "others_same z i u v \<Longrightarrow> others_same z i v w \<Longrightarrow> others_same z i u w"
  by (simp add: others_same_def)

lemma placed_others:
  assumes "others_same z i w w'" "j \<noteq> i"
  shows "placed w' z' j = placed w z' j"
  using assms by (cases "z' = z") (auto simp: others_same_def placed_def split: option.split)

lemma zone_valid_position: "zone_thread th \<Longrightarrow> GetZoneIdByWorld x y = t_zone th \<Longrightarrow> IsValidWorldPosition x y"
  using GetZoneIdByWorld_IsValidZoneId [of x y] by (simp add: zone_thread_def)

text \<open>The grid part: the object leaves its old cell and enters the cell of the new position.\<close>

lemma grid_place:
  assumes g: "grid_of z g" and v: "IsValidWorldPosition x y" "GetZoneIdByWorld x y = z"
    and sec: "(\<forall>c. i \<in> cell g c \<longleftrightarrow> c = sec) \<and> IsValidSector g (fst sec) (snd sec) \<or>
      (\<forall>c. i \<notin> cell g c) \<and> sec = (-1, -1)"
  shows "\<exists>g'. UpdateObjectSectorAndPosition i x y sec old g = Some (True, GetSectorCoord x y, (x, y), g') \<and>
    grid_of z g' \<and> (\<forall>c. i \<in> cell g' c \<longleftrightarrow> c = GetSectorCoord x y) \<and>
    (\<forall>j c. j \<noteq> i \<longrightarrow> (j \<in> cell g' c \<longleftrightarrow> j \<in> cell g c))"
proof -
  let ?n = "GetSectorCoord x y"
  have n: "IsValidSector g (fst ?n) (snd ?n)"
    using IsValidSector_GetSectorCoord [OF g] v by simp
  obtain g' where g': "move_cell i sec ?n g = Some g'" "offsetX g' = offsetX g" "offsetY g' = offsetY g"
    "\<forall>c. cell g' c = (if c = ?n then insert i (cell g c)
       else if IsValidSector g (fst sec) (snd sec) \<and> c = sec then cell g c - {i} else cell g c)"
    using move_cell_eq [OF n, of i sec] by blast
  show ?thesis
  proof (cases "sec = ?n")
    case True
    then have "?n \<noteq> (-1, -1)"
      using n not_valid_minus [OF g] by auto
    then show ?thesis
      using sec True n g by (auto simp: UpdateObjectSectorAndPosition_def Let_def)
  next
    case False
    then show ?thesis
      using sec n g g' by (auto simp: UpdateObjectSectorAndPosition_def Let_def grid_of_def)
  qed
qed

lemma queues_UpdateObjectZone [simp]:
  "zones (UpdateObjectZone i z zm) = zones zm" "defaultThread (UpdateObjectZone i z zm) = defaultThread zm"
  by (simp_all add: UpdateObjectZone_def)

lemma UpdatePosition_placed:
  assumes th: "zone_thread th" and g: "grid_of (t_zone th) (grids w (t_zone th))"
    and s: "objects w i = Some s" and at: "placed w (t_zone th) i \<or> absent w (t_zone th) i"
    and z: "GetZoneIdByWorld x y = t_zone th"
  shows "\<exists>w'. UpdatePosition th i x y w = Some w' \<and> placed w' (t_zone th) i \<and>
    objects w' i = Some (s\<lparr>m_sectorX := fst (GetSectorCoord x y), m_sectorY := snd (GetSectorCoord x y),
      m_x := x, m_y := y, m_zoneId := t_zone th\<rparr>) \<and> others_same (t_zone th) i w w' \<and>
    grid_of (t_zone th) (grids w' (t_zone th)) \<and>
    (\<forall>sid. hasCategory eUser i \<longrightarrow> GetSession s = Some sid \<longrightarrow> cs_routing (sessions w' sid) = t_zone th) \<and>
    sess_same w w'"
proof -
  let ?z = "t_zone th" and ?sec = "(m_sectorX s, m_sectorY s)"
  note v = zone_valid_position [OF th z]
  have zv: "IsValidZoneId ?z"
    using th by (simp add: zone_thread_def)
  have sec: "(\<forall>c. i \<in> cell (grids w ?z) c \<longleftrightarrow> c = ?sec) \<and> IsValidSector (grids w ?z) (fst ?sec) (snd ?sec) \<or>
      (\<forall>c. i \<notin> cell (grids w ?z) c) \<and> ?sec = (-1, -1)"
    using at s IsValidSector_GetSectorCoord [OF g, of "m_x s" "m_y s"]
      zone_valid_position [OF th, of "m_x s" "m_y s"]
    by (auto simp: placed_def absent_def)
  from grid_place [OF g v z this] obtain g' where
    u: "UpdateObjectSectorAndPosition i x y ?sec (m_x s, m_y s) (grids w ?z) =
      Some (True, GetSectorCoord x y, (x, y), g')" "grid_of ?z g'"
    "\<forall>c. i \<in> cell g' c \<longleftrightarrow> c = GetSectorCoord x y" "\<forall>j c. j \<noteq> i \<longrightarrow> (j \<in> cell g' c \<longleftrightarrow> j \<in> cell (grids w ?z) c)"
    by blast
  have "m_zoneId s = ?z \<longrightarrow> GetObjectZone (zmgr w) i = ?z"
    using at s by (auto simp: placed_def absent_def)
  moreover obtain a b where "GetSectorCoord x y = (a, b)"
    by (cases "GetSectorCoord x y")
  ultimately show ?thesis
    using s u zv z
    by (auto simp: UpdatePosition_def GetSubject_def grid_def Let_def upd_obj_def set_grid_def upd_session_def
        placed_def others_same_def sess_same_def split: option.split)
qed

lemma UpdatePosition_outside:
  assumes th: "zone_thread th" and g: "grid_of (t_zone th) (grids w (t_zone th))"
    and z: "GetZoneIdByWorld x y \<noteq> t_zone th"
  shows "UpdatePosition th i x y w = Some w"
  using UpdatePosition_rejected [OF g, of x y] z th
  by (auto simp: UpdatePosition_def GetSubject_def grid_def zone_thread_def split: option.split)

lemma div_tile: "(m :: int) * 500 \<le> x \<Longrightarrow> x \<le> m * 500 + 499 \<Longrightarrow> x div 500 = m"
  by simp

lemma GetRandomPosition_placed:
  assumes th: "zone_thread th" and g: "grid_of (t_zone th) (grids w (t_zone th))"
    and s: "objects w i = Some s" and at: "placed w (t_zone th) i \<or> absent w (t_zone th) i"
  shows "\<exists>w' x y. GetRandomPosition th i w = Some w' \<and> placed w' (t_zone th) i \<and> \<not> isCollision x y \<and>
    objects w' i = Some (s\<lparr>m_sectorX := fst (GetSectorCoord x y), m_sectorY := snd (GetSectorCoord x y),
      m_x := x, m_y := y, m_zoneId := t_zone th\<rparr>) \<and> others_same (t_zone th) i w w' \<and>
    grid_of (t_zone th) (grids w' (t_zone th)) \<and>
    (\<forall>sid. hasCategory eUser i \<longrightarrow> GetSession s = Some sid \<longrightarrow> cs_routing (sessions w' sid) = t_zone th) \<and>
    sess_same w w'"
proof -
  let ?z = "t_zone th" and ?g = "grids w (t_zone th)"
  have t: "thread_ok th" and z: "IsValidZoneId ?z" and gr: "grid th w = Some ?g"
    using th by (simp_all add: zone_thread_def grid_def)
  note o = grid_of_offsets [OF g]
  have b: "short_of (offsetX ?g * SECTOR_RANGE) = offsetX ?g * 10"
    "short_of ((offsetX ?g + kLocalWidth) * SECTOR_RANGE - 1) = offsetX ?g * 10 + 499"
    "short_of (offsetY ?g * SECTOR_RANGE) = offsetY ?g * 10"
    "short_of ((offsetY ?g + kLocalHeight) * SECTOR_RANGE - 1) = offsetY ?g * 10 + 499"
    using o(1-4) by (simp_all add: SECTOR_RANGE_def kLocalWidth_def kLocalHeight_def)
  obtain x y k where r: "random_tile th (offsetX ?g * 10) (offsetX ?g * 10 + 499) (offsetY ?g * 10)
      (offsetY ?g * 10 + 499) (ticks w) = Some (x, y, k)" "offsetX ?g * 10 \<le> x" "x \<le> offsetX ?g * 10 + 499"
      "offsetY ?g * 10 \<le> y" "y \<le> offsetY ?g * 10 + 499" "\<not> isCollision x y"
    using random_tile_world [OF t, of "offsetX ?g * 10" "offsetX ?g * 10 + 499" "offsetY ?g * 10"
      "offsetY ?g * 10 + 499" "ticks w"] o(1-4) by (auto simp: world_consts elim!: wpE)
  have "x div 500 = uint ?z mod 4" "y div 500 = uint ?z div 4"
    by (rule div_tile; use r(2-5) o(5,6) in simp)+
  then have "uint (GetZoneIdByWorld x y) = uint ?z"
    using uint_GetZoneIdByWorld(1) [OF not_isCollision_valid [OF r(6)]] div_mult_mod_eq [of "uint ?z" 4] by simp
  then have "GetZoneIdByWorld x y = ?z"
    by (simp only: word_uint_eq_iff)
  from UpdatePosition_placed [OF th _ _ _ this, of "w\<lparr>ticks := k\<rparr>" i s] g s at obtain w' where
    "UpdatePosition th i x y (w\<lparr>ticks := k\<rparr>) = Some w'" "placed w' ?z i"
    "objects w' i = Some (s\<lparr>m_sectorX := fst (GetSectorCoord x y), m_sectorY := snd (GetSectorCoord x y),
      m_x := x, m_y := y, m_zoneId := ?z\<rparr>)" "others_same ?z i (w\<lparr>ticks := k\<rparr>) w'" "grid_of ?z (grids w' ?z)"
    "\<forall>sid. hasCategory eUser i \<longrightarrow> GetSession s = Some sid \<longrightarrow> cs_routing (sessions w' sid) = ?z"
    "sess_same (w\<lparr>ticks := k\<rparr>) w'"
    by (auto simp: placed_def absent_def)
  then show ?thesis
    using r(1,6) by (auto simp: GetRandomPosition_def gr b Let_def others_same_def sess_same_def)
qed

end
