(* ===== verification/WorldFrames.thy ===== *)
theory WorldFrames
  imports Placement
begin

text \<open>
  What notifications leave alone: after any number of packets, wake-ups and timer requests the grids,
  the queues, the users and items, and all of a session but its posted packets are as before.
\<close>

definition quiet :: "World \<Rightarrow> World \<Rightarrow> bool" where
  "quiet w w' \<longleftrightarrow> grids w' = grids w \<and> zmgr w' = zmgr w \<and> dbRequests w' = dbRequests w \<and>
     nextFieldItemId w' = nextFieldItemId w \<and> registry w' = registry w \<and>
     (\<forall>i. \<not> hasCategory eMonster i \<longrightarrow> objects w' i = objects w i) \<and>
     (\<forall>k. cs_state (sessions w' k) = cs_state (sessions w k) \<and> cs_open (sessions w' k) = cs_open (sessions w k) \<and>
        cs_owner (sessions w' k) = cs_owner (sessions w k) \<and> cs_routing (sessions w' k) = cs_routing (sessions w k) \<and>
        cs_objectId (sessions w' k) = cs_objectId (sessions w k))"

lemma quiet_refl [simp]: "quiet w w"
  by (simp add: quiet_def)

lemma quiet_trans: "quiet u v \<Longrightarrow> quiet v w \<Longrightarrow> quiet u w"
  by (simp add: quiet_def)

lemma sent_quiet: "sent w w' \<Longrightarrow> quiet w w'"
  using sentD [of w w'] by (simp add: quiet_def)

lemma quiet_fold: "(\<And>x w. quiet w (f x w)) \<Longrightarrow> quiet w (fold f xs w)"
  by (induction xs arbitrary: w) (auto intro: quiet_trans)

lemma quiet_schedule: "quiet w (schedule th i d ev t w)"
  by (simp add: quiet_def schedule_def tick_def)

lemma quiet_monster: "hasCategory eMonster i \<Longrightarrow> quiet w (upd_obj i f w)"
  by (auto simp: quiet_def upd_obj_def)

lemma quiet_send: "quiet w (send s p w)"
  by (rule sent_quiet [OF sent_send])

lemma quiet_sends:
  "quiet w (SendSUBJECT_MOVE_NFY v t w)" "quiet w (SendSUBJECT_ADD_NFY th v t w)"
  "quiet w (SendSUBJECT_REMOVE_NFY v i w)" "quiet w (SendUSER_LOGIN_ACK v w)"
  "quiet w (SendSUBJECT_RESPAWN_NFY v t w)" "quiet w (SendITEM_LIST_ACK th v w)"
  "quiet w (SendSUBJECT_DIE_NFY v t w)" "quiet w (SendUSER_STAT_CHANGE_INF v w)"
  by (simp_all add: send_defs quiet_send Let_def)

lemma quiet_WakeUp: "quiet w (WakeUpMonster th i p b w)"
proof (cases "GetMonster w i")
  case (Some s)
  then have i: "hasCategory eMonster i"
    by (simp add: GetMonster_def split: if_splits)
  show ?thesis
    using quiet_trans [OF quiet_monster [OF i] quiet_schedule] quiet_monster [OF i]
    by (auto simp: WakeUpMonster_def Some Let_def split: option.split prod.split MONSTER_TYPE.split)
qed (simp add: WakeUpMonster_def)

lemma quiet_Notify:
  assumes "NotifyPlayerEnteredWorld th i b w = Some w'"
  shows "quiet w w'"
proof -
  have "quiet w (fold (\<lambda>i w. case GetSubject w i of
              None \<Rightarrow> w
            | Some object \<Rightarrow>
                if hasCategory eUser i
                then SendSUBJECT_ADD_NFY th player object
                       (if b then SendSUBJECT_RESPAWN_NFY object player w
                        else SendSUBJECT_ADD_NFY th object player w)
                else if hasCategory eMonster i
                then WakeUpMonster th i p b (SendSUBJECT_ADD_NFY th player object w)
                else if hasCategory eItem i then SendSUBJECT_ADD_NFY th player object w
                else w) ids w)" for player ids p
    by (rule quiet_fold)
      (auto split: option.split intro: quiet_sends quiet_trans [OF quiet_sends(2) quiet_WakeUp]
        quiet_trans [OF quiet_sends(5) quiet_sends(2)] quiet_trans [OF quiet_sends(2) quiet_sends(2)])
  then show ?thesis
    using assms by (auto simp: NotifyPlayerEnteredWorld_def bind_eq_Some_conv split: option.splits)
qed

lemma placed_quiet: "quiet w w' \<Longrightarrow> \<not> hasCategory eMonster i \<Longrightarrow> placed w' z i = placed w z i"
  by (simp add: quiet_def placed_def split: option.split)

lemma quietD:
  assumes "quiet w w'"
  shows "grids w' = grids w" "zmgr w' = zmgr w" "dbRequests w' = dbRequests w"
    "nextFieldItemId w' = nextFieldItemId w"
    "\<not> hasCategory eMonster i \<Longrightarrow> objects w' i = objects w i"
    "cs_state (sessions w' k) = cs_state (sessions w k)" "cs_owner (sessions w' k) = cs_owner (sessions w k)"
    "cs_routing (sessions w' k) = cs_routing (sessions w k)" "cs_open (sessions w' k) = cs_open (sessions w k)"
  using assms by (simp_all add: quiet_def)

subsection \<open>Login of a new player\<close>

definition login_id :: "World \<Rightarrow> SessionId \<Rightarrow> ObjID" where
  "login_id w sid = mkObjID eUser (ucast (cs_objectId (sessions w sid)))"

lemma InvalidZone_invalid: "IsValidZoneId z \<Longrightarrow> z \<noteq> InvalidZoneId"
  by (auto simp: IsValidZoneId_def InvalidZoneId_def)

lemma HandleAddUserInfo_enters:
  assumes th: "zone_thread th" and w: "okn {} n w" and st: "cs_state (sessions w sid) = ST_ALLOC"
    and i: "objects w (login_id w sid) = None" "\<forall>c. login_id w sid \<notin> cell (grids w (t_zone th)) c"
  shows "\<exists>w' s. HandleAddUserInfo th sid info w = Some w' \<and> placed w' (t_zone th) (login_id w sid) \<and>
    cs_state (sessions w' sid) = ST_INGAME \<and> cs_owner (sessions w' sid) = Some (login_id w sid) \<and>
    cs_routing (sessions w' sid) = t_zone th \<and> cs_open (sessions w' sid) = cs_open (sessions w sid) \<and>
    objects w' (login_id w sid) = Some s \<and> m_session (subj_user s) = Some sid \<and> m_SubjName s = ui_name info \<and> m_playerId (subj_user s) = ui_playerId info \<and>
    m_slots (subj_user s) = Map.empty \<and> \<not> m_die (subj_stat s) \<and> \<not> m_transferring s \<and> \<not> isCollision (m_x s) (m_y s) \<and>
    (\<forall>z. zone_pending (zmgr w') z = zone_pending (zmgr w) z)"
proof -
  let ?i = "login_id w sid" and ?z = "t_zone th"
  let ?p = "(User_InitInstance ?i)\<lparr>m_SubjName := ui_name info,
      m_body := map_user (\<lambda>u. u\<lparr>m_playerId := ui_playerId info\<rparr>) (m_body (User_InitInstance ?i))\<rparr>"
  let ?w2 = "enter_game sid ?i (w\<lparr>objects := (objects w)(?i \<mapsto> ?p)\<rparr>)"
  have z: "?z \<noteq> InvalidZoneId" "grid_of ?z (grids w ?z)"
    using th w by (simp_all add: zone_thread_def InvalidZone_invalid okn_def ok_def world_ok_def)
  have u: "hasCategory eUser ?i" "\<not> hasCategory eMonster ?i"
    by (simp_all add: login_id_def)
  let ?p2 = "?p\<lparr>m_body := map_user (\<lambda>u. u\<lparr>m_session := Some sid\<rparr>) (m_body ?p)\<rparr>"
  have e: "objects ?w2 ?i = Some ?p2" "grids ?w2 = grids w" "cs_state (sessions ?w2 sid) = ST_INGAME"
    "cs_owner (sessions ?w2 sid) = Some ?i" "cs_open (sessions ?w2 sid) = cs_open (sessions w sid)" "zmgr ?w2 = zmgr w"
    by (simp_all add: enter_game_def upd_session_def upd_obj_def BindOwner_def)
  have p2: "GetSession ?p2 = Some sid" "m_playerId (subj_user ?p2) = ui_playerId info"
    "m_slots (subj_user ?p2) = Map.empty" "\<not> m_die (subj_stat ?p2)" "\<not> m_transferring ?p2" "m_SubjName ?p2 = ui_name info"
    by (simp_all add: GetSession_def User_InitInstance_def newSubject_def)
  have "absent ?w2 ?z ?i"
    using i(2) z e by (simp add: absent_def User_InitInstance_def newSubject_def)
  then obtain w3 x y where r: "GetRandomPosition th ?i ?w2 = Some w3" "placed w3 ?z ?i" "\<not> isCollision x y"
    "objects w3 ?i = Some (?p2\<lparr>m_sectorX := fst (GetSectorCoord x y), m_sectorY := snd (GetSectorCoord x y),
      m_x := x, m_y := y, m_zoneId := ?z\<rparr>)" (is "_ = Some ?s")
    "cs_routing (sessions w3 sid) = ?z" "sess_same ?w2 w3"
    using GetRandomPosition_placed [OF th, of ?w2 ?i ?p2] e z(2) u p2(1) by auto
  let ?w4 = "schedule th ?i (secs 5) EV_HEAL npos (SendUSER_LOGIN_ACK ?s w3)"
  obtain w5 where h: "HandleAddUserInfo th sid info w = Some w5"
    using HandleAddUserInfo_ok [OF th w, of sid info] by (auto elim: wpE)
  then have w5: "NotifyPlayerEnteredWorld th ?i False ?w4 = Some w5"
    using st i(1) r(1,4) by (simp add: HandleAddUserInfo_def login_id_def [symmetric] Insert_def GetSubject_def Let_def)
  have q: "quiet w3 w5"
    using quiet_Notify [OF w5] quiet_trans quiet_schedule quiet_sends(4) by blast
  note quietD [OF q] placed_quiet [OF q u(2)]
  then show ?thesis
    using h r e p2 u(2) by (intro exI [of _ w5] exI [of _ ?s]) (simp add: sess_same_def GetSession_def zone_pending_def)
qed

subsection \<open>Zone transfer\<close>

lemma world_RemoveObject_placed:
  assumes th: "zone_thread th" and g: "grid_of (t_zone th) (grids w (t_zone th))" and p: "placed w (t_zone th) i"
    and s: "objects w i = Some s"
  shows "\<exists>w'. world_RemoveObject th i w = Some w' \<and> objects w' i = Some (s\<lparr>m_sectorX := -1, m_sectorY := -1\<rparr>) \<and>
    (\<forall>c. i \<notin> cell (grids w' (t_zone th)) c) \<and> others_same (t_zone th) i w w' \<and> zmgr w' = zmgr w \<and>
    sessions w' = sessions w"
proof -
  let ?z = "t_zone th"
  have v: "IsValidSector (grids w ?z) (m_sectorX s) (m_sectorY s)"
    using IsValidSector_GetSectorCoord [OF g, of "m_x s" "m_y s"] p s
      zone_valid_position [OF th, of "m_x s" "m_y s"] by (simp add: placed_def)
  from RemoveObject_eq [of i "(m_sectorX s, m_sectorY s)" "grids w ?z"] v obtain g' where
    "RemoveObject i (m_sectorX s, m_sectorY s) (grids w ?z) = Some ((-1, -1), g')"
    "\<forall>c. cell g' c = (if c = (m_sectorX s, m_sectorY s) then cell (grids w ?z) c - {i} else cell (grids w ?z) c)"
    by auto
  then show ?thesis
    using p s th
    by (auto simp: world_RemoveObject_def grid_def zone_thread_def upd_obj_def set_grid_def others_same_def placed_def)
qed

lemma HandleZoneTransfer_leaves:
  assumes th: "zone_thread th" and w: "okn {} n w" and p: "placed w (t_zone th) i" and u: "hasCategory eUser i"
    and s: "objects w i = Some s" and z: "IsValidZoneId z" "z \<noteq> t_zone th" "GetZoneIdByWorld x y = z"
  shows "\<exists>w'. HandlePlayerMove th i x y w = Some w' \<and> (\<forall>c. i \<notin> cell (grids w' (t_zone th)) c) \<and>
    objects w' i = Some (s\<lparr>m_transferring := True, m_sectorX := -1, m_sectorY := -1, m_x := x, m_y := y, m_zoneId := z\<rparr>) \<and>
    GetObjectZone (zmgr w') i = z \<and> (\<forall>z'. z' \<noteq> t_zone th \<longrightarrow> grids w' z' = grids w z') \<and>
    zone_pending (zmgr w') z = zone_pending (zmgr w) z @ [TEnterZone i x y] \<and>
    (\<forall>sid. GetSession s = Some sid \<longrightarrow> cs_routing (sessions w' sid) = z)"
proof -
  let ?z = "t_zone th" and ?s1 = "s\<lparr>m_transferring := True\<rparr>"
  let ?w1 = "upd_obj i (\<lambda>s. s\<lparr>m_transferring := True\<rparr>) w"
  have g: "grid_of ?z (grids ?w1 ?z)" and zm: "zm_ok (zmgr w)" and ut: "\<not> hasCategory eMonster i"
    using th w u by (auto simp: zone_thread_def okn_def ok_def world_ok_def dest: hasCategory_unique)
  have s1: "objects ?w1 i = Some ?s1" "placed ?w1 ?z i"
    using p s by (simp_all add: placed_def upd_obj_def)
  have "grid th ?w1 = Some (grids ?w1 ?z)"
    using th by (simp add: grid_def zone_thread_def)
  then obtain vis where vis: "CollectSubjects th ?w1 ?s1 = Some vis"
    by (simp add: CollectSubjects_def ForEachNeighborObject_def)
  from world_RemoveObject_placed [OF th g s1(2,1)] obtain w2 where w2: "world_RemoveObject th i ?w1 = Some w2"
    "objects w2 i = Some (?s1\<lparr>m_sectorX := -1, m_sectorY := -1\<rparr>)" "\<forall>c. i \<notin> cell (grids w2 ?z) c"
    "others_same ?z i ?w1 w2" "zmgr w2 = zmgr ?w1" "sessions w2 = sessions ?w1"
    by blast
  let ?w3 = "upd_obj i (\<lambda>s. s\<lparr>m_x := x, m_y := y\<rparr>) w2"
  let ?p = "?s1\<lparr>m_sectorX := -1, m_sectorY := -1, m_x := x, m_y := y\<rparr>"
  let ?w4 = "fold (\<lambda>j w. let w = SendSUBJECT_REMOVE_NFY ?p j w in
           if hasCategory eUser j
           then (case GetUser w j of None \<Rightarrow> w | Some viewer \<Rightarrow> SendSUBJECT_REMOVE_NFY viewer i w)
           else w) vis (SendSUBJECT_MOVE_NFY ?p ?p ?w3)"
  have "quiet (SendSUBJECT_MOVE_NFY ?p ?p ?w3) ?w4"
    by (rule quiet_fold) (auto simp: Let_def split: option.split intro: quiet_sends quiet_trans [OF quiet_sends(3) quiet_sends(3)])
  from quiet_trans [OF quiet_sends(1) this] have q: "quiet ?w3 ?w4" .
  have o4: "objects ?w4 i = Some ?p" "grids ?w4 = grids w2" "zmgr ?w4 = zmgr w"
    using quietD(1,2) [OF q] quietD(5) [OF q ut] w2(2,5) by (simp_all add: upd_obj_def)
  have gr: "grids w2 z' = grids w z'" if "z' \<noteq> ?z" for z'
    using w2(4) that by (simp add: others_same_def)
  have zp: "zone_pending (EnqueueByZone z t (UpdateObjectZone i z (zmgr w))) z = zone_pending (zmgr w) z @ [t]" for t
    using zone_pending_EnqueueByZone [OF zm_ok_updates(2) [OF zm]]
    by (simp add: zone_pending_def UpdateObjectZone_def)
  define fin where "fin v =
    (let v = upd_obj i (\<lambda>s. s\<lparr>m_zoneId := z\<rparr>) v; v = v\<lparr>zmgr := UpdateObjectZone i z (zmgr v)\<rparr>;
         v = (case GetSession ?p of None \<Rightarrow> v | Some sid \<Rightarrow> upd_session sid (\<lambda>s. s\<lparr>cs_routing := z\<rparr>) v)
     in v\<lparr>zmgr := EnqueueByZone z (TEnterZone i x y) (zmgr v)\<rparr>)" for v
  have "m_zoneId s = ?z"
    using p s by (simp add: placed_def)
  then have "HandlePlayerMove th i x y w = HandleZoneTransfer th i x y z w"
    using s z by (simp add: HandlePlayerMove_def GetSubject_def)
  also have "\<dots> = Some (fin ?w4)"
    using s1(1) vis w2(1,2)
    by (simp only: HandleZoneTransfer_def Let_def GetSubject_def bind.bind_lunit objects_upd_obj if_True option.map fin_def) simp
  finally obtain w4 where w4: "HandlePlayerMove th i x y w = Some (fin w4)" "objects w4 i = Some ?p" "grids w4 = grids w2"
    "zmgr w4 = zmgr w"
    using o4 by blast
  have "objects (fin w4) i = Some (?p\<lparr>m_zoneId := z\<rparr>)" "grids (fin w4) = grids w2"
    "zmgr (fin w4) = EnqueueByZone z (TEnterZone i x y) (UpdateObjectZone i z (zmgr w))"
    "\<forall>sid. GetSession s = Some sid \<longrightarrow> cs_routing (sessions (fin w4) sid) = z"
    using w4(2-4) by (auto simp: fin_def Let_def upd_obj_def upd_session_def GetSession_def split: option.split)
  then show ?thesis
    using w4(1) w2(3) gr zp z(1) by (simp add: GetObjectZone_def EnqueueByZone_def UpdateObjectZone_def)
qed

lemma HandleEnterZone_arrives:
  assumes th: "zone_thread th" and w: "okn {} n w" and a: "absent w (t_zone th) i" and u: "hasCategory eUser i"
    and s: "objects w i = Some s" "m_zoneId s = t_zone th" and z: "GetZoneIdByWorld x y = t_zone th"
  shows "\<exists>w'. HandleEnterZone th i x y w = Some w' \<and> placed w' (t_zone th) i \<and>
    objects w' i = Some (s\<lparr>m_sectorX := fst (GetSectorCoord x y), m_sectorY := snd (GetSectorCoord x y), m_x := x,
      m_y := y, m_transferring := False\<rparr>) \<and> (\<forall>z'. z' \<noteq> t_zone th \<longrightarrow> grids w' z' = grids w z') \<and>
    (\<forall>sid. cs_routing (sessions w' sid) = cs_routing (sessions w sid))"
proof -
  let ?z = "t_zone th"
  have g: "grid_of ?z (grids w ?z)" "grid th w = Some (grids w ?z)" and ut: "\<not> hasCategory eMonster i"
    using th w u by (auto simp: zone_thread_def okn_def ok_def world_ok_def grid_def dest: hasCategory_unique)
  note v = zone_valid_position [OF th z]
  have sec: "(\<forall>c. i \<notin> cell (grids w ?z) c) \<and> (m_sectorX s, m_sectorY s) = (-1, -1)" "GetObjectZone (zmgr w) i = ?z"
    using a s by (simp_all add: absent_def)
  from grid_place [OF g(1) v z disjI2 [OF sec(1)], of "(m_x s, m_y s)"] obtain g' where
    u1: "UpdateObjectSectorAndPosition i x y (m_sectorX s, m_sectorY s) (m_x s, m_y s) (grids w ?z) =
      Some (True, GetSectorCoord x y, (x, y), g')" "\<forall>c. i \<in> cell g' c \<longleftrightarrow> c = GetSectorCoord x y"
    by blast
  let ?s = "s\<lparr>m_sectorX := fst (GetSectorCoord x y), m_sectorY := snd (GetSectorCoord x y), m_x := x, m_y := y\<rparr>"
  define w1 where "w1 = upd_obj i (\<lambda>s. s\<lparr>m_sectorX := fst (GetSectorCoord x y), m_sectorY := snd (GetSectorCoord x y),
      m_x := x, m_y := y\<rparr>) (set_grid th g' w)"
  have w1: "objects w1 i = Some ?s" "placed w1 ?z i" "\<forall>z'. z' \<noteq> ?z \<longrightarrow> grids w1 z' = grids w z'" "sessions w1 = sessions w"
    using s sec u1(2) z by (auto simp: w1_def placed_def upd_obj_def set_grid_def)
  obtain w3 where h: "HandleEnterZone th i x y w = Some w3"
    using HandleEnterZone_ok [OF th w valid_in_short [OF v], of i] by (auto elim: wpE)
  then obtain w2 where w2: "NotifyPlayerEnteredWorld th i False w1 = Some w2"
    "w3 = upd_obj i (\<lambda>s. s\<lparr>m_transferring := False\<rparr>) w2"
    using s u g(2) u1(1) by (auto simp: HandleEnterZone_def GetUser_def w1_def Let_def bind_eq_Some_conv)
  note q = quiet_Notify [OF w2(1)]
  have "objects w2 i = Some ?s" "placed w2 ?z i" "grids w2 = grids w1" "\<forall>sid. cs_routing (sessions w2 sid) = cs_routing (sessions w sid)"
    using quietD [OF q] placed_quiet [OF q ut] w1 ut by simp_all
  then show ?thesis
    using h w1(3) w2(2) by (auto simp: upd_obj_def placed_def)
qed

end
