(* ===== verification/Servers.thy ===== *)
theory Servers
  imports Routes Framing DbThreads
begin

text \<open>
  The whole server as a step relation: the turns of the zone threads and of the default thread, the
  timer thread, the branches of \<^verbatim>\<open>WorkerThread::DoWork\<close> and the answers of the database workers.
  Every step is atomic; the code serialises the members it shares by the queues and the locks, and a
  receive of several packets is a sequence of receives of one.  The thread of zone \<open>z\<close> is
  \<open>threads z\<close>, for an invalid \<open>z\<close> the default thread.
\<close>

record Server =
  sv_world :: World
  sv_pool :: "uint8 list list"
  sv_pending :: "SessionId \<Rightarrow> uint8 list"

subsection \<open>Logic threads\<close>

text \<open>The next task of a thread, taken from its queue before it runs.\<close>

definition take_task :: "ZoneId \<Rightarrow> ZoneManager \<Rightarrow> Task option \<times> ZoneManager" where
  "take_task z zm =
     (if IsValidZoneId z
      then (case Run_step (zones zm ! unat z) of (t, q) \<Rightarrow> (t, zm\<lparr>zones := (zones zm)[unat z := q]\<rparr>))
      else (case Run_step (defaultThread zm) of (t, q) \<Rightarrow> (t, zm\<lparr>defaultThread := q\<rparr>)))"

definition logic_turn :: "Thread \<Rightarrow> World \<Rightarrow> World option" where
  "logic_turn th w =
     (case take_task (t_zone th) (zmgr w) of
        (None, zm) \<Rightarrow> Some (w\<lparr>zmgr := zm\<rparr>)
      | (Some t, zm) \<Rightarrow> run_task th t (w\<lparr>zmgr := zm\<rparr>))"

definition timer_turn :: "int \<Rightarrow> World \<Rightarrow> World" where
  "timer_turn now w = (case DoTimer_step now (timer w, zmgr w) of (t, zm) \<Rightarrow> w\<lparr>timer := t, zmgr := zm\<rparr>)"

subsection \<open>The completion port\<close>

definition CloseSocket :: "SessionId \<Rightarrow> World \<Rightarrow> World" where
  "CloseSocket sid = upd_session sid (\<lambda>s. s\<lparr>cs_open := False\<rparr>)"

definition session_disconnect :: "SessionId \<Rightarrow> World \<Rightarrow> World" where
  "session_disconnect sid w =
     (let w = CloseSocket sid w
      in w\<lparr>zmgr := EnqueueDisconnect (GetOwner w sid) sid (zmgr w)\<rparr>)"

text \<open>The branch \<^verbatim>\<open>IO_ACCEPT\<close>: whether the socket could be attached and whether the first receive
  could be posted are arguments.\<close>

definition io_accept :: "bool \<Rightarrow> bool \<Rightarrow> World \<Rightarrow> World" where
  "io_accept attached postRecv w =
     (case CreateSession w of
        (None, w) \<Rightarrow> w
      | (Some sid, w) \<Rightarrow>
          if \<not> attached then ReleaseSession sid w
          else let w = upd_session sid (\<lambda>s. s\<lparr>cs_open := True, cs_state := ST_ALLOC\<rparr>) w
               in if \<not> postRecv then session_disconnect sid w else w)"

text \<open>The branch \<^verbatim>\<open>IO_RECV\<close>, with the bytes that arrived and the bytes kept from the last receive.\<close>

definition io_recv :: "SessionId \<Rightarrow> bool \<Rightarrow> uint8 list \<Rightarrow> Server \<Rightarrow> Server" where
  "io_recv sid postRecv received s =
     (let w = sv_world s;
          (kept, nw) = HandleRecv (\<lambda>_. Some (cs_routing (sessions w sid))) (GetOwner w sid) sid postRecv received
             (sv_pending s sid) \<lparr>nw_pool = sv_pool s, nw_zm = zmgr w\<rparr>;
          w = w\<lparr>zmgr := nw_zm nw\<rparr>;
          s = s\<lparr>sv_pool := nw_pool nw\<rparr>
      in case kept of
           None \<Rightarrow> s\<lparr>sv_world := CloseSocket sid w, sv_pending := (sv_pending s)(sid := [])\<rparr>
         | Some rest \<Rightarrow> s\<lparr>sv_world := w, sv_pending := (sv_pending s)(sid := rest)\<rparr>)"

text \<open>A failed completion, a closed connection or a failed send; \<^verbatim>\<open>CloseSocketImpl\<close> also forgets the
  bytes kept.\<close>

definition io_failed :: "SessionId \<Rightarrow> Server \<Rightarrow> Server" where
  "io_failed sid s =
     s\<lparr>sv_world := session_disconnect sid (sv_world s), sv_pending := (sv_pending s)(sid := [])\<rparr>"

subsection \<open>Answers of the database\<close>

fun db_answer :: "DbOutcome \<Rightarrow> World \<Rightarrow> World" where
  "db_answer (EnqueueGetUserInfo z sid info items) w =
     w\<lparr>zmgr := EnqueueByZone z (TGetUserInfo sid info items) (zmgr w)\<rparr>"
| "db_answer (EnqueueAddUserInfo z sid info) w = w\<lparr>zmgr := EnqueueByZone z (TAddUserInfo sid info) (zmgr w)\<rparr>"
| "db_answer (CallLoginFail sid) w = HandleLoginFail sid w"

subsection \<open>Start-up\<close>

definition newWorld :: World where
  "newWorld = \<lparr>objects = Map.empty, grids = zoneSector, zmgr = newZoneManager, timer = newTimerThread,
     sessions = (\<lambda>_. newClientSession 0), registry = {}, nextSession = 0,
     nextObjectId = PLAYER_ID_START, nextFieldItemId = 1, dbRequests = [], ticks = 0\<rparr>"

text \<open>Every zone thread places its monsters before its first task.\<close>

definition boot :: "(ZoneId \<Rightarrow> Thread) \<Rightarrow> World option" where
  "boot threads = for_each (\<lambda>z. InitForZone (threads z) z) (map word_of_nat [0..<16]) newWorld"

definition newServer :: "World \<Rightarrow> Server" where
  "newServer w = \<lparr>sv_world = w, sv_pool = [], sv_pending = (\<lambda>_. [])\<rparr>"

end
