(* ===== verification/DefaultThread.thy ===== *)
theory DefaultThread
  imports TaskSafety Servers
begin

text \<open>
  The default thread has no grid: its \<^verbatim>\<open>GSector\<close> is null.  Every handler that reaches the grid
  crashes there; the tasks that return keep the invariant of the world.
\<close>

definition wlp :: "'a option \<Rightarrow> ('a \<Rightarrow> bool) \<Rightarrow> bool" where
  "wlp m Q \<longleftrightarrow> (\<forall>x. m = Some x \<longrightarrow> Q x)"

lemma wlp_simps [simp]: "wlp None Q" "wlp (Some x) Q = Q x"
  by (simp_all add: wlp_def)

lemma wp_wlp: "wp m Q \<Longrightarrow> wlp m Q"
  by (auto simp: wlp_def wp_def)

lemma wlp_bindI: "wlp m P \<Longrightarrow> (\<And>x. P x \<Longrightarrow> wlp (f x) Q) \<Longrightarrow> wlp (m \<bind> f) Q"
  by (cases m) simp_all

lemma wlp_mono: "wlp m P \<Longrightarrow> (\<And>x. P x \<Longrightarrow> Q x) \<Longrightarrow> wlp m Q"
  by (simp add: wlp_def)

definition default_thread :: "Thread \<Rightarrow> bool" where
  "default_thread th \<longleftrightarrow> thread_ok th \<and> \<not> IsValidZoneId (t_zone th)"

lemma default_iter: "default_thread th \<Longrightarrow> slot_iteration (t_iter th)"
  by (simp add: default_thread_def thread_ok_def)

subsection \<open>What needs the grid\<close>

lemma default_grid:
  assumes "default_thread th"
  shows "grid th w = None" "ForEachNeighborObject th w s = None" "NeighborObjIDs th w s = None"
    "world_RemoveObject th i w = None" "GetRandomPosition th i w = None" "CollectSubjects th w s = None"
    "UpdatePosition th i x y w = (if objects w i = None then Some w else None)"
proof -
  show g: "grid th w = None" for w
    using assms by (simp add: grid_def default_thread_def)
  then show f: "ForEachNeighborObject th w s = None"
    by (simp add: ForEachNeighborObject_def)
  show "NeighborObjIDs th w s = None" "GetRandomPosition th i w = None"
    by (simp_all add: NeighborObjIDs_def GetRandomPosition_def g)
  show "world_RemoveObject th i w = None" "CollectSubjects th w s = None"
    by (cases "objects w i"; simp add: world_RemoveObject_def g) (simp add: CollectSubjects_def f)
  show "UpdatePosition th i x y w = (if objects w i = None then Some w else None)"
    by (simp add: UpdatePosition_def GetSubject_def g split: option.split)
qed

lemma bind_None [simp]: "m \<bind> (\<lambda>_. None) = None"
  by (cases m) simp_all

lemma default_moves:
  assumes "default_thread th"
  shows "HandleZoneTransfer th i x y z w = None" "HandlePlayerMove th i x y w = None"
    "NotifyPlayerEnteredWorld th i b w = (if GetUser w i = None then Some w else None)"
    "HandleEnterZone th i x y w = (if GetUser w i = None then Some w else None)"
    "RemoveFieldItem th i w = None" "SpawnFieldItem th item x y o1 w = None" "TryPickupAt th i w = None"
    "HandleAttack th i f w = None" "BroadcastChat th i m w = None" "BroadcastEquipChange th i w = None"
    "CollectUsers th w i = (if GetMonster w i = None then Some [] else None)"
proof -
  note g = default_grid [OF assms]
  show z: "HandleZoneTransfer th i x y z w = None" for z
    by (simp add: HandleZoneTransfer_def g Let_def)
  show "HandlePlayerMove th i x y w = None"
    by (cases "GetSubject w i") (simp_all add: HandlePlayerMove_def z g Let_def)
  show "NotifyPlayerEnteredWorld th i b w = (if GetUser w i = None then Some w else None)"
    "HandleEnterZone th i x y w = (if GetUser w i = None then Some w else None)"
    "CollectUsers th w i = (if GetMonster w i = None then Some [] else None)"
    by (simp_all add: NotifyPlayerEnteredWorld_def HandleEnterZone_def CollectUsers_def g split: option.split)
  show "RemoveFieldItem th i w = None" "TryPickupAt th i w = None" "HandleAttack th i f w = None"
    "BroadcastChat th i m w = None" "BroadcastEquipChange th i w = None"
    by (simp_all add: RemoveFieldItem_def TryPickupAt_def HandleAttack_def BroadcastChat_def
        BroadcastEquipChange_def g Let_def)
  show "SpawnFieldItem th item x y o1 w = None"
    by (auto simp: SpawnFieldItem_def Insert_def g Let_def ASSERT_CRASH_def bind_eq_None_conv
        split: option.split)
qed

subsection \<open>Monsters\<close>

lemma default_step:
  assumes d: "default_thread th" and i: "hasCategory eMonster i" and w: "okn A n w"
  shows "MoveMonsterStep th i x y w = None"
    "wlp (TryMoveCachedPathStep th i gx gy w) (\<lambda>(b, w). okn A n w)"
    "wlp (TryMoveOneStepTowardGoal th i gx gy w) (\<lambda>(b, w). okn A n w)"
    "wlp (TryMoveUsingFreshPath th i gx gy w) (\<lambda>(b, w). okn A n w)"
proof -
  show m: "MoveMonsterStep th i x y w = None" for x y w
    using i by (cases "objects w i")
      (simp_all add: MoveMonsterStep_def AStarMove_def GetSubject_def GetMonster_def upd_obj_def default_grid [OF d] Let_def)
  show "wlp (TryMoveCachedPathStep th i gx gy w) (\<lambda>(b, w). okn A n w)"
    "wlp (TryMoveOneStepTowardGoal th i gx gy w) (\<lambda>(b, w). okn A n w)"
    "wlp (TryMoveUsingFreshPath th i gx gy w) (\<lambda>(b, w). okn A n w)"
    using w by (auto simp: TryMoveCachedPathStep_def TryMoveOneStepTowardGoal_def TryMoveUsingFreshPath_def
        m Let_def wlp_def bind_eq_Some_conv split_def split: if_splits)
qed

lemma default_advance:
  assumes d: "default_thread th" and i: "hasCategory eMonster i" and w: "okn A n w"
  shows "wlp (TryAdvanceTowardGoal th i gx gy w) (\<lambda>(b, w). okn A n w)"
  unfolding TryAdvanceTowardGoal_def
  by (rule wlp_bindI [OF default_step(2) [OF assms]])
    (auto intro!: wlp_bindI [OF default_step(3) [OF d i]] default_step(4) [OF d i])

lemma default_return:
  assumes "default_thread th" "hasCategory eMonster i" "okn A n w"
  shows "wlp (return_to_spawn th i t x y w) (okn A n)"
  unfolding return_to_spawn_def by (rule wlp_bindI [OF default_advance [OF assms]]) auto

lemma default_HandleAggroMove:
  assumes d: "default_thread th" and w: "okn A n w"
  shows "wlp (HandleAggroMove th i t w) (okn A n)"
proof (cases "GetMonster w i")
  case (Some s)
  then have i: "hasCategory eMonster i"
    by (simp add: GetMonster_def split: if_splits)
  have "wlp (do { (_, w) \<leftarrow> TryAdvanceTowardGoal th i x y w;
      monster \<leftarrow> GetSubject w i;
      if CanSee monster target
      then Some (schedule th i (msecs 500) EV_AGGRO_MOVE t (upd_monster i (\<lambda>m. m\<lparr>m_Active := True\<rparr>) w))
      else Some (upd_monster i set_idle w) }) (okn A n)" for x y target
    by (rule wlp_bindI [OF default_advance [OF d i w]]) (auto simp: wlp_def bind_eq_Some_conv split: if_splits)
  then show ?thesis
    using w by (auto simp: HandleAggroMove_def Some Let_def split: option.split intro!: default_return [OF d i])
qed (simp add: HandleAggroMove_def w)

lemma default_monsters:
  assumes d: "default_thread th" and w: "okn A n w"
  shows "wlp (HandleRandomMove th i w) (okn A n)" "wlp (Monster_HandleRespawn th i w) (okn A n)"
    "wlp (HandleAttackToPlayer th i t w) (okn A n)"
  using w by (auto simp: HandleRandomMove_def Monster_HandleRespawn_def HandleAttackToPlayer_def
      default_grid [OF d] Let_def split: option.split)

subsection \<open>Users\<close>

lemma default_users:
  assumes d: "default_thread th" and w: "okn A n w"
  shows "wlp (HandleRespawn th i w) (okn A n)" "wlp (HandleDespawn th i w) (okn A n)"
    "wlp (SkillAttack th i w) (okn A n)" "wlp (HandleAddUserInfo th sid info w) (okn A n)"
    "wlp (HandleEnterZone th i x y w) (okn A n)" "wlp (Disconnect th i w) (okn A n)"
proof -
  note g = default_grid [OF d] default_moves [OF d]
  show "wlp (HandleRespawn th i w) (okn A n)" "wlp (HandleDespawn th i w) (okn A n)"
    "wlp (SkillAttack th i w) (okn A n)" "wlp (HandleEnterZone th i x y w) (okn A n)"
    using w by (simp_all add: HandleRespawn_def HandleDespawn_def SkillAttack_def g split: option.split)
  show "wlp (HandleAddUserInfo th sid info w) (okn A n)"
    using w by (auto simp: HandleAddUserInfo_def Insert_def g Let_def split: option.split)
  show "wlp (Disconnect th i w) (okn A n)"
    using w okn_zm_ops(3) [OF w] by (auto simp: Disconnect_def g split: option.split)
qed

lemma default_HandleGetUserInfo:
  assumes d: "default_thread th" and w: "okn A n w"
  shows "wlp (HandleGetUserInfo th sid info items w) (okn A n)"
proof (cases "cs_state (sessions w sid) = ST_ALLOC")
  case True
  let ?i = "mkObjID eUser (ucast (cs_objectId (sessions w sid)))"
  have "objects (enter_game sid ?i (w\<lparr>objects := (objects w)(?i \<mapsto> p)\<rparr>)) ?i \<noteq> None" for p
    by (simp add: enter_game_def upd_session_def objects_upd_obj)
  then show ?thesis
    using w True
    by (auto simp: HandleGetUserInfo_def FindRandomValidPosition_def Insert_def Let_def wlp_def bind_eq_Some_conv
        default_grid [OF d] split: option.splits if_splits)
qed (simp add: HandleGetUserInfo_def w)

subsection \<open>Packets\<close>

lemma default_routes:
  assumes d: "default_thread th" and w: "okn {} n w"
  shows "wlp (Route_move th sid dir w) (okn {} n)" "wlp (Route_attack th sid f w) (okn {} n)"
    "wlp (Route_skill th sid w) (okn {} n)" "wlp (Route_teleport th sid x y w) (okn {} n)"
    "wlp (Route_pickup th sid w) (okn {} n)" "wlp (Route_chat th sid m w) (okn {} n)"
proof -
  note g = default_moves [OF d]
  show "wlp (Route_move th sid dir w) (okn {} n)" "wlp (Route_attack th sid f w) (okn {} n)"
    "wlp (Route_teleport th sid x y w) (okn {} n)" "wlp (Route_pickup th sid w) (okn {} n)"
    "wlp (Route_chat th sid m w) (okn {} n)"
    using w by (auto simp: Route_move_def Route_attack_def Route_teleport_def Route_pickup_def Route_chat_def
        GetNowTime_def Let_def g split_def split: option.split)
  have "okn {} n (upd_user i (\<lambda>u. u\<lparr>m_lastSkillTime := t\<rparr>) (tick w))" for i t
    using w by (intro okn_upd_time) simp_all
  then show "wlp (Route_skill th sid w) (okn {} n)"
    using w by (auto simp: Route_skill_def GetNowTime_def Let_def split: option.split
        intro!: default_users(3) [OF d])
qed

lemma ok_reply:
  assumes "okn A n w"
  shows "wlp (SendITEM_EQUIP_ACK s k b w) (okn A n)" "wlp (SendITEM_UNEQUIP_ACK s k b w) (okn A n)"
  using assms
  by (auto simp: SendITEM_EQUIP_ACK_def SendITEM_UNEQUIP_ACK_def wlp_def bind_eq_Some_conv split: option.splits)

lemma client_call_wlp:
  assumes w: "okn {} n w" and c: "client_of w sid = Some cl"
    and f: "\<And>iv. inv_ok iv \<Longrightarrow> wp (f iv) (\<lambda>(r, iv'). call_ok iv iv')"
  shows "wlp (with_inventory (m_SubjID cl) f w) (\<lambda>(r, w'). okn {} n w')"
proof -
  have "wp (with_inventory (m_SubjID cl) f w) (\<lambda>(r, w'). okn {m_SubjID cl} n w' \<and>
      (\<exists>s'. objects w' (m_SubjID cl) = Some s' \<and> True))"
    by (rule client_call_ok [OF w c, where R = "\<lambda>_ _. True"]) (simp add: f)
  then show ?thesis
    by (intro wp_wlp) (auto elim!: wp_mono intro: okn_mono)
qed

lemma default_inventory_routes:
  assumes d: "default_thread th" and w: "okn {} n w"
  shows "wlp (Route_equip th sid k w) (okn {} n)" "wlp (Route_unequip th sid k w) (okn {} n)"
    "wlp (Route_discard th sid k c w) (okn {} n)"
proof -
  note g = default_moves [OF d] and it = default_iter [OF d]
  show "wlp (Route_equip th sid k w) (okn {} n)"
  proof (cases "client_of w sid")
    case (Some cl)
    have "wlp (with_inventory (m_SubjID cl) (\<lambda>iv. do {
        (r, p, iv) \<leftarrow> TryEquip (t_iter th) k iv; Some ((r, p), iv) }) w) (\<lambda>(r, w'). okn {} n w')"
      by (rule client_call_wlp [OF w Some]) (rule wp_bindI [OF slot_iteration.TryEquip_call [OF it]], auto)
    then show ?thesis
      using w unfolding Route_equip_def Some option.case Let_def
      by (auto simp: g wlp_def bind_eq_Some_conv split: if_splits dest: ok_reply(1) [unfolded wlp_def, rule_format])
  qed (simp add: Route_equip_def w)
  show "wlp (Route_unequip th sid k w) (okn {} n)"
  proof (cases "client_of w sid")
    case (Some cl)
    have "wlp (with_inventory (m_SubjID cl) (TryUnequip (t_iter th) k) w) (\<lambda>(r, w'). okn {} n w')"
      by (rule client_call_wlp [OF w Some])
        (rule wp_mono [OF slot_iteration.TryUnequip_call [OF it]], auto)
    then show ?thesis
      using w unfolding Route_unequip_def Some option.case Let_def
      by (auto simp: g wlp_def bind_eq_Some_conv split: if_splits dest: ok_reply(2) [unfolded wlp_def, rule_format])
  qed (simp add: Route_unequip_def w)
  show "wlp (Route_discard th sid k c w) (okn {} n)"
  proof (cases "client_of w sid")
    case (Some cl)
    have "wlp (with_inventory (m_SubjID cl) (TryExtractItem (t_iter th) k c) w) (\<lambda>(r, w'). okn {} n w')"
      by (rule client_call_wlp [OF w Some])
        (rule wp_mono [OF slot_iteration.TryExtractItem_call [OF it]], auto)
    then show ?thesis
      using w unfolding Route_discard_def Some option.case Let_def
      by (auto simp: g wlp_def bind_eq_Some_conv split: if_splits option.splits)
  qed (simp add: Route_discard_def w)
qed

lemma default_route_packet:
  assumes d: "default_thread th" and w: "okn {} n w"
  shows "wlp (route_packet th sid p w) (okn {} n)"
  using default_routes [OF d w] default_inventory_routes [OF d w] Route_swap_ok [OF w, THEN wp_wlp]
    Route_use_ok [OF w, THEN wp_wlp] w
  by (cases p) (simp_all add: Route_login_def)

text \<open>A task of the default thread that returns keeps the invariant.\<close>

lemma default_run_task:
  assumes d: "default_thread th" and w: "world_ok w"
  shows "wlp (run_task th t w) world_ok"
proof -
  obtain n where n: "okn {} n w"
    using w by (simp add: okn_def ok_def)
  note g = default_monsters [OF d n] default_HandleAggroMove [OF d n] default_users [OF d n]
    default_HandleGetUserInfo [OF d n] default_route_packet [OF d n] HandleHeal_ok [OF n, THEN wp_wlp]
    HandleLootPriorityExpire_ok [OF n]
  have "wlp (run_task th t w) (okn {} n)"
    using g n by (cases t) (simp_all add: Route_Dispatch_def HandleLoginFail_def split: option.split)
  then show ?thesis
    by (rule wlp_mono) (simp add: okn_def ok_def)
qed

end
