(* ===== verification/Boots.thy ===== *)
theory Boots
  imports Placement Servers
begin

text \<open>
  Start-up: the strided distribution of the monsters over the zones by \<open>InitForZone\<close>, run by every
  zone thread before its first task.
\<close>

lemma set_monster_indices:
  assumes "IsValidZoneId z"
  shows "set (monster_indices z) = {k. 0 \<le> k \<and> k < MAX_MONSTER \<and> k mod 16 = uint z}"
    and "distinct (monster_indices z)"
proof -
  have z: "0 \<le> uint z" "uint z < 16"
    using assms by (simp_all add: IsValidZoneId_def word_less_def)
  have "k \<in> set (monster_indices z) \<longleftrightarrow> 0 \<le> k \<and> k < 200000 \<and> k mod 16 = uint z" for k
  proof
    assume "k \<in> set (monster_indices z)"
    then show "0 \<le> k \<and> k < 200000 \<and> k mod 16 = uint z"
      using z by (auto simp: monster_indices_def MAX_MONSTER_def ZoneCount_def)
  next
    assume k: "0 \<le> k \<and> k < 200000 \<and> k mod 16 = uint z"
    have "k div 16 < (200015 - u) div 16" if "k mod 16 = u" "k < 200000" for u
      using that by presburger
    with k have "k = uint z + int (nat (k div 16)) * 16" "nat (k div 16) < nat ((200000 - uint z + 16 - 1) div 16)"
      using z mult_div_mod_eq [of 16 k] by (simp_all add: nat_less_eq_zless)
    then show "k \<in> set (monster_indices z)"
      unfolding monster_indices_def MAX_MONSTER_def ZoneCount_def set_map set_upt
      by (intro image_eqI [of _ _ "nat (k div 16)"]) simp_all
  qed
  then show "set (monster_indices z) = {k. 0 \<le> k \<and> k < MAX_MONSTER \<and> k mod 16 = uint z}"
    by (auto simp: MAX_MONSTER_def)
  show "distinct (monster_indices z)"
    by (simp add: monster_indices_def distinct_map inj_on_def ZoneCount_def)
qed

lemma uint_monster_number: "0 \<le> k \<Longrightarrow> k < 200000 \<Longrightarrow> uint (ucast MONSTER_ID_START + word_of_int k :: uint64) = 1000000000 + k"
  by (simp add: MONSTER_ID_START_def uint_word_ariths uint_word_of_int)

lemma monster_id_inj: "inj_on monster_id {0..<200000}"
proof (rule inj_onI)
  fix a b :: int
  assume ab: "a \<in> {0..<200000}" "b \<in> {0..<200000}" "monster_id a = monster_id b"
  then have "uint (ucast MONSTER_ID_START + word_of_int a :: uint64) = uint (ucast MONSTER_ID_START + word_of_int b :: uint64)"
    by (simp only: monster_id_def mkObjID_inj)
  then show "a = b"
    using ab(1,2) by (simp add: uint_monster_number)
qed

lemma hasCategory_monster_id [simp]: "hasCategory c (monster_id k) \<longleftrightarrow> c = eMonster"
  by (auto simp: monster_id_def)

lemma monster_type:
  assumes "0 \<le> k" "k < 200000"
  shows "m_DatabaseID (monster_id k) \<le> ucast AGGRO_MONSTER_BOUNDARY \<longleftrightarrow> k < 50000"
  using uint_monster_number [OF assms]
  by (simp add: monster_id_def AGGRO_MONSTER_BOUNDARY_def MONSTER_ID_START_def MAX_MONSTER_def word_le_def)
    auto

text \<open>A monster as start-up leaves it.\<close>

definition monster_at :: "World \<Rightarrow> int \<Rightarrow> bool" where
  "monster_at w k \<longleftrightarrow> placed w (word_of_int (k mod 16)) (monster_id k) \<and>
     (\<exists>s. objects w (monster_id k) = Some s \<and> \<not> isCollision (m_x s) (m_y s) \<and> is_MonsterB (m_body s) \<and>
        m_spawnX (subj_monster s) = m_x s \<and> m_spawnY (subj_monster s) = m_y s \<and> \<not> m_die (subj_stat s) \<and>
        m_Type (subj_monster s) = (if k < 50000 then AGGRO else PASSIVE))"

text \<open>What start-up does not touch.\<close>

definition boot_frame :: "World \<Rightarrow> World \<Rightarrow> bool" where
  "boot_frame w w' \<longleftrightarrow> sessions w' = sessions w \<and> nextSession w' = nextSession w \<and> nextObjectId w' = nextObjectId w \<and>
     nextFieldItemId w' = nextFieldItemId w \<and> dbRequests w' = dbRequests w \<and> timer w' = timer w \<and>
     zones (zmgr w') = zones (zmgr w) \<and> defaultThread (zmgr w') = defaultThread (zmgr w)"

lemma boot_frame_trans: "boot_frame u v \<Longrightarrow> boot_frame v w \<Longrightarrow> boot_frame u w"
  by (simp add: boot_frame_def)

lemma UpdatePosition_boot_frame:
  assumes "UpdatePosition th i x y w = Some w'" "\<not> hasCategory eUser i"
  shows "boot_frame w w'"
  using assms
  by (auto simp: UpdatePosition_def boot_frame_def bind_eq_Some_conv upd_obj_def set_grid_def UpdateObjectZone_def Let_def
      split: option.splits if_splits)

lemma spawn_monster_frame:
  assumes "spawn_monster th k w = Some w'"
  shows "boot_frame w w'"
proof -
  have i: "\<not> hasCategory eUser (monster_id k)"
    by (simp add: monster_id_def)
  have f: "boot_frame v (v\<lparr>ticks := n\<rparr>)" "boot_frame v (upd_obj j g v)" "boot_frame v (snd (Insert j t v))" for v n j g t
    by (simp_all add: boot_frame_def upd_obj_def Insert_def split: option.split)
  let ?m = "Monster_InitInstance (monster_id k)"
  obtain b w1 where ins: "Insert (monster_id k) ?m w = (b, w1)"
    by (cases "Insert (monster_id k) ?m w")
  with assms have b: "b"
    by (cases b) (simp_all add: spawn_monster_def MakeNewSubject_def Let_def ASSERT_CRASH_def)
  with assms ins obtain w2 where w2: "GetRandomPosition th (monster_id k) w1 = Some w2"
    "w' = (case GetMonster w2 (monster_id k) of None \<Rightarrow> w2 | Some s \<Rightarrow>
       upd_monster (monster_id k) (\<lambda>m. m\<lparr>m_spawnX := m_x s, m_spawnY := m_y s\<rparr>) w2)"
    by (cases "GetRandomPosition th (monster_id k) w1")
      (simp_all add: spawn_monster_def MakeNewSubject_def Let_def)
  from w2(1) obtain x y n where "UpdatePosition th (monster_id k) x y (w1\<lparr>ticks := n\<rparr>) = Some w2"
    by (auto simp: GetRandomPosition_def bind_eq_Some_conv Let_def split: prod.splits)
  from boot_frame_trans [OF f(1) UpdatePosition_boot_frame [OF this i]] have "boot_frame w1 w2" .
  moreover have "boot_frame w w1"
    using f(3) [of w "monster_id k" ?m] ins by simp
  ultimately have "boot_frame w w2"
    using boot_frame_trans by blast
  then show ?thesis
    using boot_frame_trans [OF _ f(2)] w2(2) by (auto split: option.split)
qed

definition booted :: "int set \<Rightarrow> World \<Rightarrow> bool" where
  "booted D w \<longleftrightarrow> boot_frame newWorld w \<and> (\<exists>n. okn {} n w) \<and> dom (objects w) = monster_id ` D \<and> (\<forall>k \<in> D. monster_at w k) \<and>
     (\<forall>z c. cell (grids w z) c \<subseteq> dom (objects w))"

lemma Monster_Init_ok: "hasCategory eMonster i \<Longrightarrow> subject_ok n i (Monster_InitInstance i)"
  by (simp add: subject_ok_def body_ok_def Monster_InitInstance_def newSubject_def in_short_def stat_ok_def
      level_ok_def newStat_def MONSTER_MAX_HP_def ClearPath_def)

lemma spawn_monster_placed:
  assumes th: "zone_thread th" and w: "okn {} n w" and i: "objects w (monster_id k) = None"
    and c: "\<forall>c. monster_id k \<notin> cell (grids w (t_zone th)) c"
    and k: "0 \<le> k" "k < 200000" "k mod 16 = uint (t_zone th)"
  shows "\<exists>w'. spawn_monster th k w = Some w' \<and> okn {} n w' \<and> monster_at w' k \<and>
    others_same (t_zone th) (monster_id k) w w'"
proof -
  let ?i = "monster_id k" and ?z = "t_zone th"
  let ?m = "Monster_InitInstance ?i"
  let ?w = "w\<lparr>objects := (objects w)(?i \<mapsto> ?m)\<rparr>"
  have zk: "word_of_int (k mod 16) = ?z"
    using k(3) by simp
  have ins: "MakeNewSubject ?i = Some ?m" "Insert ?i ?m w = (True, ?w)"
    using i by (simp_all add: MakeNewSubject_def Insert_def)
  have w1: "okn {?i} n ?w"
    using Insert_ok [OF w Monster_Init_ok ins(2)] by simp
  have g: "grid_of ?z (grids ?w ?z)"
    using th w by (simp add: zone_thread_def okn_def ok_def world_ok_def)
  have z: "?z \<noteq> InvalidZoneId"
    using th by (auto simp: zone_thread_def IsValidZoneId_def InvalidZoneId_def)
  have "absent ?w ?z ?i"
    using c z by (simp add: absent_def Monster_InitInstance_def newSubject_def)
  with GetRandomPosition_placed [OF th g, of ?i ?m] obtain w2 x y where
    r: "GetRandomPosition th ?i ?w = Some w2" "placed w2 ?z ?i" "\<not> isCollision x y"
    "objects w2 ?i = Some (?m\<lparr>m_sectorX := fst (GetSectorCoord x y), m_sectorY := snd (GetSectorCoord x y),
      m_x := x, m_y := y, m_zoneId := ?z\<rparr>)" "others_same ?z ?i ?w w2"
    by auto
  have w2: "okn {?i} n w2"
    using GetRandomPosition_ok [OF th w1, of ?i] r(1) by simp
  let ?w' = "upd_monster ?i (\<lambda>m. m\<lparr>m_spawnX := x, m_spawnY := y\<rparr>) w2"
  have "spawn_monster th k w = Some ?w'"
    using r(4) by (simp add: spawn_monster_def ins r(1) GetMonster_def Let_def)
  moreover have "okn {} n ?w'"
    using okn_upd_monster [OF okn_mono [OF w2, of "{}"]] by simp
  moreover have "placed ?w' ?z ?i"
    using r(2,4) by (simp add: placed_def upd_obj_def)
  then have "monster_at ?w' k"
    using r(3,4) monster_type [OF k(1,2)] zk
    by (simp add: monster_at_def objects_upd_obj Monster_InitInstance_def newSubject_def ClearPath_def)
  moreover have "others_same ?z ?i w ?w'"
    using r(5) by (simp add: others_same_def upd_obj_def)
  ultimately show ?thesis
    by blast
qed

lemma booted_step:
  assumes th: "zone_thread th" and b: "booted D w" and D: "D \<subseteq> {0..<200000}"
    and k: "k \<in> {0..<200000} - D" "k mod 16 = uint (t_zone th)"
  shows "wp (spawn_monster th k w) (booted (insert k D))"
proof -
  obtain n where w: "okn {} n w" and d: "dom (objects w) = monster_id ` D" "\<forall>k \<in> D. monster_at w k"
    "\<forall>z c. cell (grids w z) c \<subseteq> dom (objects w)"
    using b by (auto simp: booted_def)
  have ne: "monster_id j \<noteq> monster_id k" if "j \<in> D" for j
    using that D k inj_onD [OF monster_id_inj, of j k] by auto
  then have f: "monster_id k \<notin> dom (objects w)"
    unfolding d(1) by (metis imageE)
  then have "objects w (monster_id k) = None" "\<forall>c. monster_id k \<notin> cell (grids w (t_zone th)) c"
    using d(3) by blast+
  from spawn_monster_placed [OF th w this] obtain w' where w': "spawn_monster th k w = Some w'" "okn {} n w'"
    "monster_at w' k" "others_same (t_zone th) (monster_id k) w w'"
    using k by auto
  have "monster_at w' j" if "j \<in> D" for j
    using bspec [OF d(2) that] placed_others [OF w'(4) ne [OF that]] w'(4) ne [OF that]
    by (simp add: monster_at_def others_same_def)
  moreover have o: "objects w' j = objects w j" "j \<in> cell (grids w' z) c \<longleftrightarrow> j \<in> cell (grids w z) c"
    if "j \<noteq> monster_id k" for j z c
    using w'(4) that unfolding others_same_def by (blast, metis)
  have dm: "dom (objects w') = insert (monster_id k) (dom (objects w))"
  proof (rule set_eqI)
    fix i
    have "objects w' (monster_id k) \<noteq> None"
      using w'(3) by (auto simp: monster_at_def)
    then show "i \<in> dom (objects w') \<longleftrightarrow> i \<in> insert (monster_id k) (dom (objects w))"
      using o(1) [of i] by (cases "i = monster_id k") (simp_all add: domIff)
  qed
  moreover have "cell (grids w' z) c \<subseteq> dom (objects w')" for z c
    using o(2) d(3) dm by blast
  moreover have "boot_frame newWorld w'"
    using b boot_frame_trans spawn_monster_frame [OF w'(1)] by (auto simp: booted_def)
  ultimately show ?thesis
    using w' d(1) by (auto simp: booted_def)
qed

lemma InitForZone_booted:
  assumes th: "zone_thread th" and b: "booted D w" and D: "D \<subseteq> {0..<200000}" "\<forall>k \<in> D. k mod 16 \<noteq> uint (t_zone th)"
  shows "wp (InitForZone th (t_zone th) w) (booted (D \<union> {k. 0 \<le> k \<and> k < 200000 \<and> k mod 16 = uint (t_zone th)}))"
proof -
  have loop: "wp (for_each (spawn_monster th) ks w) (booted (E \<union> set ks))"
    if "booted E w" "E \<subseteq> {0..<200000}" "distinct ks" "set ks \<inter> E = {}"
      "\<forall>k \<in> set ks. 0 \<le> k \<and> k < 200000 \<and> k mod 16 = uint (t_zone th)" for E ks w
    using that
  proof (induction ks arbitrary: E w)
    case (Cons k ks)
    have "wp (spawn_monster th k w) (booted (insert k E))"
      by (rule booted_step [OF th Cons.prems(1,2)]) (use Cons.prems in auto)
    then show ?case
      using Cons.IH [of "insert k E"] Cons.prems by (auto intro!: wp_bindI)
  qed simp
  have v: "IsValidZoneId (t_zone th)"
    using th by (simp add: zone_thread_def)
  note ks = set_monster_indices [OF v]
  have "wp (InitForZone th (t_zone th) w) (booted (D \<union> set (monster_indices (t_zone th))))"
    unfolding InitForZone_def by (rule loop [OF b D(1) ks(2)]) (use D(2) ks(1) in \<open>auto simp: MAX_MONSTER_def\<close>)
  then show ?thesis
    unfolding ks(1) by (simp add: MAX_MONSTER_def)
qed

subsection \<open>The whole start-up\<close>

lemma for_each_snoc: "for_each f (xs @ [x]) w = (for_each f xs w \<bind> f x)"
proof (induction xs arbitrary: w)
  case Nil
  show ?case
    by (cases "f x w") simp_all
next
  case (Cons y ys)
  then show ?case
    by (cases "f y w") simp_all
qed

lemma tasks_ok_new: "tasks_ok newZoneManager"
  by (auto simp: tasks_ok_def zone_pending_def newZoneManager_def newGameLogicThread_def lt_pending_def
      IsValidZoneId_unat)

lemma booted_new: "booted {} newWorld"
  by (auto simp: booted_def boot_frame_def okn_def ok_def world_ok_def newWorld_def zm_ok_new tasks_ok_new grid_of_def zoneSector_def)

lemma uint_zone: "k < 16 \<Longrightarrow> uint (word_of_nat k :: ZoneId) = int k"
  by (simp add: uint_nat unat_of_nat)

lemma boot_zones:
  assumes th: "\<forall>z. IsValidZoneId z \<longrightarrow> zone_thread (threads z) \<and> t_zone (threads z) = z"
  shows "m \<le> 16 \<Longrightarrow> wp (for_each (\<lambda>z. InitForZone (threads z) z) (map word_of_nat [0..<m]) newWorld)
    (booted {k. 0 \<le> k \<and> k < 200000 \<and> k mod 16 < int m})"
proof (induction m)
  case (Suc m)
  let ?z = "word_of_nat m :: ZoneId"
  have z: "uint ?z = int m" "IsValidZoneId ?z"
    using Suc.prems uint_zone [of m] by (simp_all add: IsValidZoneId_unat unat_of_nat)
  note t = th [rule_format, OF z(2)]
  have e: "{k. 0 \<le> k \<and> k < 200000 \<and> k mod 16 < int m} \<union> {k. 0 \<le> k \<and> k < 200000 \<and> k mod 16 = uint ?z} =
      {k. 0 \<le> k \<and> k < 200000 \<and> k mod 16 < int (Suc m)}"
    using z(1) by auto
  have "wp (InitForZone (threads ?z) ?z w) (booted {k. 0 \<le> k \<and> k < 200000 \<and> k mod 16 < int (Suc m)})"
    if "booted {k. 0 \<le> k \<and> k < 200000 \<and> k mod 16 < int m} w" for w
  proof -
    have "{k. 0 \<le> k \<and> k < 200000 \<and> k mod 16 < int m} \<subseteq> {0..<200000}"
      "\<forall>k \<in> {k. 0 \<le> k \<and> k < 200000 \<and> k mod 16 < int m}. k mod 16 \<noteq> uint (t_zone (threads ?z))"
      using t z(1) by auto
    from InitForZone_booted [OF conjunct1 [OF t] that this] show ?thesis
      unfolding conjunct2 [OF t] e .
  qed
  then show ?case
    using Suc by (auto simp: for_each_snoc intro: wp_bindI)
next
  case 0
  have "{k :: int. 0 \<le> k \<and> k < 200000 \<and> k mod 16 < int 0} = {}"
    by auto
  from booted_new show ?case
    unfolding \<open>_ = {}\<close> by simp
qed

lemma boot_booted:
  assumes "\<forall>z. IsValidZoneId z \<longrightarrow> zone_thread (threads z) \<and> t_zone (threads z) = z"
  shows "wp (boot threads) (booted {0..<200000})"
proof -
  have e: "{k :: int. 0 \<le> k \<and> k < 200000 \<and> k mod 16 < int 16} = {0..<200000}"
    by auto
  show ?thesis
    using boot_zones [OF assms order_refl] unfolding boot_def e .
qed

end
