(* ===== verification/ServerSafety.thy ===== *)
theory ServerSafety
  imports DefaultThread Boots
begin

text \<open>
  The reachable states of the server and their invariant.  The threads read the outside world through
  \<open>threads\<close>; a login answer carries rows the database could have stored; the 64-bit counter of the
  dropped items has not run out.  Under these conditions no zone thread ever fails an assertion,
  dereferences a null pointer or hangs.
\<close>

definition threads_ok :: "(ZoneId \<Rightarrow> Thread) \<Rightarrow> bool" where
  "threads_ok threads \<longleftrightarrow> (\<forall>z. thread_ok (threads z) \<and> t_zone (threads z) = z)"

fun answer_ok :: "DbOutcome \<Rightarrow> bool" where
  "answer_ok (EnqueueGetUserInfo z sid info items) = (rows_ok items \<and> info_level_ok info)"
| "answer_ok _ = True"

text \<open>Only a login that was requested is answered.\<close>

fun answer_session :: "DbOutcome \<Rightarrow> SessionId" where
  "answer_session (EnqueueGetUserInfo z sid info items) = sid"
| "answer_session (EnqueueAddUserInfo z sid info) = sid"
| "answer_session (CallLoginFail sid) = sid"

definition requested :: "World \<Rightarrow> SessionId \<Rightarrow> bool" where
  "requested w sid \<longleftrightarrow> (\<exists>name password. DbLogin sid name password \<in> set (dbRequests w))"

inductive server_step :: "(ZoneId \<Rightarrow> Thread) \<Rightarrow> Server \<Rightarrow> Server \<Rightarrow> bool"
  for threads :: "ZoneId \<Rightarrow> Thread" where
  logic: "(IsValidZoneId z \<longrightarrow> ids_left (threads z) (sv_world s)) \<Longrightarrow> logic_turn (threads z) (sv_world s) = Some w \<Longrightarrow>
    server_step threads s (s\<lparr>sv_world := w\<rparr>)"
| timer: "server_step threads s (s\<lparr>sv_world := timer_turn now (sv_world s)\<rparr>)"
| accept: "server_step threads s (s\<lparr>sv_world := io_accept attached postRecv (sv_world s)\<rparr>)"
| recv: "server_step threads s (io_recv sid postRecv received s)"
| failed: "server_step threads s (io_failed sid s)"
| answer: "requested (sv_world s) (answer_session a) \<Longrightarrow> answer_ok a \<Longrightarrow> server_step threads s (s\<lparr>sv_world := db_answer a (sv_world s)\<rparr>)"

inductive reachable :: "(ZoneId \<Rightarrow> Thread) \<Rightarrow> Server \<Rightarrow> bool" for threads :: "ZoneId \<Rightarrow> Thread" where
  start: "boot threads = Some w \<Longrightarrow> reachable threads (newServer w)"
| step: "reachable threads s \<Longrightarrow> server_step threads s s' \<Longrightarrow> reachable threads s'"

inductive_cases server_stepE: "server_step threads s s'"

subsection \<open>Steps keep the invariant\<close>

lemma threads_zone: "threads_ok threads \<Longrightarrow> IsValidZoneId z \<Longrightarrow> zone_thread (threads z)"
  by (simp add: threads_ok_def zone_thread_def)

lemma threads_default: "threads_ok threads \<Longrightarrow> \<not> IsValidZoneId z \<Longrightarrow> default_thread (threads z)"
  by (simp add: threads_ok_def default_thread_def)

lemma Run_step_pending: "Run_step q = (r, q') \<Longrightarrow> set (lt_pending q) = set_option r \<union> set (lt_pending q')"
  using logic.step_pending [of q r q'] by (cases r) auto

lemma take_task_ok:
  assumes "zm_ok zm" "tasks_ok zm" "take_task z zm = (r, zm')"
  shows "zm_ok zm' \<and> tasks_ok zm' \<and> (\<forall>t. r = Some t \<longrightarrow> task_ok t)"
proof -
  have z: "unat z < length (zones zm)" if "IsValidZoneId z"
    using assms(1) that by (simp add: zm_ok_def IsValidZoneId_unat)
  let ?q = "if IsValidZoneId z then zones zm ! unat z else defaultThread zm"
  obtain q' where r: "Run_step ?q = (r, q')"
    "zm' = (if IsValidZoneId z then zm\<lparr>zones := (zones zm)[unat z := q']\<rparr> else zm\<lparr>defaultThread := q'\<rparr>)"
    using assms(3) by (auto simp: take_task_def split: prod.splits if_splits)
  note p = Run_step_pending [OF r(1)]
  have "task_ok t" if "t \<in> set (lt_pending ?q)" for t
    using assms(2) that by (auto simp: tasks_ok_def zone_pending_def)
  with p have q: "\<forall>t \<in> set_option r \<union> set (lt_pending q'). task_ok t"
    by blast
  have "task_ok t" if "t \<in> set (zone_pending zm' y)" for y t
  proof -
    have "t \<in> set (lt_pending q') \<or> t \<in> set (zone_pending zm y)"
      using that r(2) z by (auto simp: zone_pending_def nth_list_update split: if_splits)
    then show ?thesis
      using q assms(2) by (auto simp: tasks_ok_def)
  qed
  then show ?thesis
    using q assms(1) r(2) by (auto simp: tasks_ok_def zm_ok_def)
qed

lemma world_ok_zmgr: "world_ok w \<Longrightarrow> zm_ok z \<Longrightarrow> tasks_ok z \<Longrightarrow> world_ok (w\<lparr>zmgr := z\<rparr>)"
  by (simp add: world_ok_def)

lemma world_ok_zm: "world_ok w \<Longrightarrow> zm_ok (zmgr w) \<and> tasks_ok (zmgr w)"
  by (simp add: world_ok_def)

lemma logic_turn_zone:
  assumes th: "zone_thread th" and w: "world_ok w" and r: "ids_left th w"
  shows "wp (logic_turn th w) world_ok"
proof -
  obtain t zm where t: "take_task (t_zone th) (zmgr w) = (t, zm)"
    by (cases "take_task (t_zone th) (zmgr w)")
  note k = take_task_ok [OF conjunct1 [OF world_ok_zm [OF w]] conjunct2 [OF world_ok_zm [OF w]] t]
  have w1: "world_ok (w\<lparr>zmgr := zm\<rparr>)"
    using world_ok_zmgr [OF w] k by blast
  have "ids_left th (w\<lparr>zmgr := zm\<rparr>)"
    using r by (simp add: ids_left_def)
  then show ?thesis
    using run_task_ok [OF th w1] k w1 by (simp add: logic_turn_def t split: option.split)
qed

lemma logic_turn_default:
  assumes d: "default_thread th" and w: "world_ok w"
  shows "wlp (logic_turn th w) world_ok"
proof -
  obtain t zm where t: "take_task (t_zone th) (zmgr w) = (t, zm)"
    by (cases "take_task (t_zone th) (zmgr w)")
  have "world_ok (w\<lparr>zmgr := zm\<rparr>)"
    using world_ok_zmgr [OF w] take_task_ok [OF conjunct1 [OF world_ok_zm [OF w]] conjunct2 [OF world_ok_zm [OF w]] t]
    by blast
  then show ?thesis
    using default_run_task [OF d] by (simp add: logic_turn_def t split: option.split)
qed

lemma Enqueue_ok:
  assumes "zm_ok zm" "tasks_ok zm" "task_ok t"
  shows "zm_ok (EnqueueByZone z t zm) \<and> tasks_ok (EnqueueByZone z t zm)"
  using assms by (simp add: zm_ok_updates tasks_ok_Enqueue)

lemma Enqueue_default: "Enqueue t zm = EnqueueByZone InvalidZoneId t zm"
  by (simp add: EnqueueByZone_def IsValidZoneId_def InvalidZoneId_def)

lemma Dispatch_ok: "zm_ok zm \<and> tasks_ok zm \<Longrightarrow> zm_ok (Dispatch e zm) \<and> tasks_ok (Dispatch e zm)"
proof -
  assume a: "zm_ok zm \<and> tasks_ok zm"
  have "task_ok (task_of e)"
    by (cases "te_event e") (simp_all add: task_of_def)
  then show ?thesis
    using Enqueue_ok a by (simp add: Dispatch_eq)
qed

lemma timer_turn_ok:
  assumes "world_ok w"
  shows "world_ok (timer_turn now w)"
proof -
  have "zm_ok (fold Dispatch es (zmgr w)) \<and> tasks_ok (fold Dispatch es (zmgr w))" for es
    by (rule fold_inv [where I = "\<lambda>zm. zm_ok zm \<and> tasks_ok zm"])
      (use Dispatch_ok world_ok_zm [OF assms] in auto)
  then show ?thesis
    using assms by (auto simp: timer_turn_def DoTimer_step_def world_ok_def split: list.split prod.split)
qed

lemma EnqueueDisconnect_ok:
  assumes "zm_ok zm" "tasks_ok zm"
  shows "zm_ok (EnqueueDisconnect owner sid zm) \<and> tasks_ok (EnqueueDisconnect owner sid zm)"
  using Enqueue_ok [OF assms]
  by (simp add: EnqueueDisconnect_def EnqueueByObject_def Enqueue_default split: option.split)

lemma world_ok_sessions [simp]:
  "world_ok (w\<lparr>sessions := ss\<rparr>) = world_ok w" "world_ok (upd_session sid f w) = world_ok w"
  "world_ok (ReleaseSession sid w) = world_ok w" "world_ok (CloseSocket sid w) = world_ok w"
  by (simp_all add: world_ok_def upd_session_def ReleaseSession_def CloseSocket_def)

lemma session_disconnect_ok: "world_ok w \<Longrightarrow> world_ok (session_disconnect sid w)"
  using world_ok_zmgr EnqueueDisconnect_ok world_ok_zm world_ok_sessions(4)
  by (simp add: session_disconnect_def Let_def)

lemma io_accept_ok:
  assumes "world_ok w"
  shows "world_ok (io_accept attached postRecv w)"
proof -
  have "world_ok (snd (CreateSession w))"
    using assms by (simp add: CreateSession_def world_ok_def Let_def)
  then show ?thesis
    by (auto simp: io_accept_def Let_def session_disconnect_ok split: prod.split option.split)
qed

lemma recv_loop_ok:
  "zm_ok (nw_zm nw) \<and> tasks_ok (nw_zm nw) \<Longrightarrow>
   recv_loop r sid i p nw = (b, rest, nw') \<Longrightarrow> zm_ok (nw_zm nw') \<and> tasks_ok (nw_zm nw')"
proof (induction r sid i p nw rule: recv_loop.induct)
  case (1 r sid i p w)
  show ?case
  proof (cases "length p < 2 \<or> unat (rd16 p 0) = 0 \<or> unat (rd16 p 0) > length p \<or>
      EnqueuePacketDispatch (r i) sid p (unat (rd16 p 0)) w = None")
    case True
    then show ?thesis
      using "1.prems" by (subst (asm) recv_loop.simps) (auto simp: Let_def split: if_splits)
  next
    case False
    then obtain w' where w': "EnqueuePacketDispatch (r i) sid p (unat (rd16 p 0)) w = Some w'"
      by auto
    then have "zm_ok (nw_zm w') \<and> tasks_ok (nw_zm w')"
      using "1.prems"(1) Enqueue_ok
      by (auto simp: EnqueuePacketDispatch_def EnqueueBySession_def Let_def split: if_splits prod.splits)
    then show ?thesis
      using "1.IH" [OF _ _ refl _ _ w'] "1.prems"(2) False w'
      by (subst (asm) (2) recv_loop.simps) (auto simp: Let_def split: if_splits)
  qed
qed

lemma io_recv_ok:
  assumes "world_ok (sv_world s)"
  shows "world_ok (sv_world (io_recv sid postRecv received s))"
proof -
  let ?w = "sv_world s"
  obtain kept nw where h: "HandleRecv (\<lambda>_. Some (cs_routing (sessions ?w sid))) (GetOwner ?w sid) sid postRecv received
      (sv_pending s sid) \<lparr>nw_pool = sv_pool s, nw_zm = zmgr ?w\<rparr> = (kept, nw)"
    by fastforce
  obtain b rest nw1 where l: "recv_loop (\<lambda>_. Some (cs_routing (sessions ?w sid))) sid 0 (sv_pending s sid @ received)
      \<lparr>nw_pool = sv_pool s, nw_zm = zmgr ?w\<rparr> = (b, rest, nw1)"
    by (metis prod_cases3)
  have "zm_ok (nw_zm nw1) \<and> tasks_ok (nw_zm nw1)"
    by (rule recv_loop_ok [OF _ l]) (use world_ok_zm [OF assms] in simp)
  then have "zm_ok (nw_zm nw) \<and> tasks_ok (nw_zm nw)"
    using h l EnqueueDisconnect_ok by (auto simp: HandleRecv_def split: if_splits)
  then show ?thesis
    using assms h world_ok_zmgr by (simp add: io_recv_def Let_def split: option.split)
qed

lemma db_answer_ok: "world_ok w \<Longrightarrow> answer_ok a \<Longrightarrow> world_ok (db_answer a w)"
  using Enqueue_ok world_ok_zmgr world_ok_zm
  by (cases a) (simp_all add: HandleLoginFail_def post_def)

lemma server_step_ok:
  assumes th: "threads_ok threads" and s: "server_step threads s s'" and w: "world_ok (sv_world s)"
  shows "world_ok (sv_world s')"
  using s
proof cases
  case (logic z w')
  show ?thesis
  proof (cases "IsValidZoneId z")
    case True
    with logic logic_turn_zone [OF threads_zone [OF th True] w] show ?thesis
      by simp
  next
    case False
    with logic logic_turn_default [OF threads_default [OF th False] w] show ?thesis
      by simp
  qed
qed (use w in \<open>simp_all add: timer_turn_ok io_accept_ok io_recv_ok io_failed_def session_disconnect_ok db_answer_ok\<close>)

lemma reachable_ok:
  assumes th: "threads_ok threads" and r: "reachable threads s"
  shows "world_ok (sv_world s)"
  using r
proof induction
  case (start w)
  have "\<forall>z. IsValidZoneId z \<longrightarrow> zone_thread (threads z) \<and> t_zone (threads z) = z"
    using th by (simp add: threads_ok_def zone_thread_def)
  from boot_booted [OF this] start show ?case
    by (auto simp: newServer_def booted_def okn_def ok_def)
next
  case (step s s')
  then show ?case
    using server_step_ok [OF th] by blast
qed

end
