(* ===== verification/LoginRace.thy ===== *)
theory LoginRace
  imports WorldFrames ServerSafety
begin

text \<open>
  A run of the server that ends in a crash: a client sends a login and a chat message before the login
  is answered.  Both packets are routed to the default thread; when the answer has put the player into
  the game, the default thread handles the chat message and dereferences its null grid.
\<close>

subsection \<open>Executing the first task of a queue\<close>

abbreviation same_queue :: "ZoneId \<Rightarrow> ZoneId \<Rightarrow> bool" where
  "same_queue y z \<equiv> y = z \<or> \<not> IsValidZoneId y \<and> \<not> IsValidZoneId z"

lemma take_task_pending:
  assumes "zm_ok zm" "take_task z zm = (r, zm')"
  shows "zone_pending zm' y = (if same_queue y z then drop (length (case r of None \<Rightarrow> [] | Some t \<Rightarrow> [t])) (zone_pending zm y)
      else zone_pending zm y)"
    "zone_pending zm z = (case r of None \<Rightarrow> [] | Some t \<Rightarrow> [t]) @ zone_pending zm' z"
    "zm_ok zm'" "objectZones zm' = objectZones zm"
proof -
  have z: "unat z < length (zones zm)" if "IsValidZoneId z"
    using assms(1) that by (simp add: zm_ok_def IsValidZoneId_unat)
  let ?q = "if IsValidZoneId z then zones zm ! unat z else defaultThread zm"
  obtain q' where r: "Run_step ?q = (r, q')"
    "zm' = (if IsValidZoneId z then zm\<lparr>zones := (zones zm)[unat z := q']\<rparr> else zm\<lparr>defaultThread := q'\<rparr>)"
    using assms(2) by (auto simp: take_task_def split: prod.splits if_splits)
  note p = logic.step_pending [OF r(1)]
  show "zone_pending zm z = (case r of None \<Rightarrow> [] | Some t \<Rightarrow> [t]) @ zone_pending zm' z"
    using p r(2) z by (auto simp: zone_pending_def)
  then show "zone_pending zm' y = (if same_queue y z then drop (length (case r of None \<Rightarrow> [] | Some t \<Rightarrow> [t])) (zone_pending zm y)
      else zone_pending zm y)"
    using r(2) z by (auto simp: zone_pending_def nth_list_update simp flip: word_unat_eq_iff)
  show "zm_ok zm'" "objectZones zm' = objectZones zm"
    using r(2) assms(1) by (auto simp: zm_ok_def)
qed

lemma take_task_progress:
  assumes "zm_ok zm" "zone_pending zm z \<noteq> []" "take_task z zm = (None, zm')"
  shows "\<exists>t zm''. take_task z zm' = (Some t, zm'')"
proof -
  have z: "unat z < length (zones zm)" if "IsValidZoneId z"
    using assms(1) that by (simp add: zm_ok_def IsValidZoneId_unat)
  let ?q = "if IsValidZoneId z then zones zm ! unat z else defaultThread zm"
  have "fst (Run_step ?q) = None" "fst (take_task z zm') = fst (Run_step (snd (Run_step ?q)))"
    using assms(3) z by (auto simp: take_task_def split: prod.splits if_splits)
  with logic.step_progress [of ?q] assms(2) have "fst (take_task z zm') \<noteq> None"
    by (auto simp: zone_pending_def)
  then show ?thesis
    by (cases "take_task z zm'") auto
qed

text \<open>A turn, or two when the queues have to be swapped first, executes the first task.\<close>

lemma reachable_exec:
  assumes r: "reachable threads s" and th: "threads_ok threads" and id: "IsValidZoneId z \<longrightarrow> ids_left (threads z) (sv_world s)"
    and p: "zone_pending (zmgr (sv_world s)) z = t # ts"
  shows "\<exists>zm. world_ok ((sv_world s)\<lparr>zmgr := zm\<rparr>) \<and>
    (\<forall>y. zone_pending zm y = (if same_queue y z then ts else zone_pending (zmgr (sv_world s)) y)) \<and>
    (\<forall>w'. run_task (threads z) t ((sv_world s)\<lparr>zmgr := zm\<rparr>) = Some w' \<longrightarrow> reachable threads (s\<lparr>sv_world := w'\<rparr>)) \<and>
    (run_task (threads z) t ((sv_world s)\<lparr>zmgr := zm\<rparr>) = None \<longrightarrow>
       (\<exists>s'. reachable threads s' \<and> logic_turn (threads z) (sv_world s') = None))"
proof -
  let ?w = "sv_world s"
  have tz: "t_zone (threads z) = z"
    using th by (simp add: threads_ok_def)
  have now: ?thesis if r1: "reachable threads (s\<lparr>sv_world := ?w\<lparr>zmgr := zm1\<rparr>\<rparr>)"
      and same: "\<forall>y. zone_pending zm1 y = zone_pending (zmgr ?w) y" and take: "take_task z zm1 = (Some t', zm2)" for zm1 zm2 t'
  proof -
    have w1: "world_ok (?w\<lparr>zmgr := zm1\<rparr>)"
      using reachable_ok [OF th r1] by simp
    then have zm1: "zm_ok zm1" "tasks_ok zm1"
      using world_ok_zm by fastforce+
    note p1 = take_task_pending [OF zm1(1) take]
    have "t' = t" "\<forall>y. zone_pending zm2 y = (if same_queue y z then ts else zone_pending (zmgr ?w) y)"
      using p1(1,2) p same by (auto simp: zone_pending_def)
    moreover have "world_ok (?w\<lparr>zmgr := zm2\<rparr>)"
      using world_ok_zmgr [OF w1, of zm2] take_task_ok [OF zm1 take] by simp
    moreover have turn: "logic_turn (threads z) (?w\<lparr>zmgr := zm1\<rparr>) = run_task (threads z) t' (?w\<lparr>zmgr := zm2\<rparr>)"
      by (simp add: logic_turn_def tz take)
    moreover have "IsValidZoneId z \<longrightarrow> ids_left (threads z) (?w\<lparr>zmgr := zm1\<rparr>)"
      using id by (simp add: ids_left_def)
    then have "reachable threads (s\<lparr>sv_world := w'\<rparr>)" if "logic_turn (threads z) (?w\<lparr>zmgr := zm1\<rparr>) = Some w'" for w'
      using reachable.step [OF r1 server_step.logic [of z threads "s\<lparr>sv_world := ?w\<lparr>zmgr := zm1\<rparr>\<rparr>" w']] that by simp
    ultimately show ?thesis
      using r1 by (intro exI [of _ zm2]) fastforce
  qed
  obtain t' zm1 where t1: "take_task z (zmgr ?w) = (t', zm1)"
    by (cases "take_task z (zmgr ?w)")
  note zw = conjunct1 [OF world_ok_zm [OF reachable_ok [OF th r]]]
  show ?thesis
  proof (cases t')
    case (Some u)
    then show ?thesis
      using now [of "zmgr ?w" u zm1] r t1 by simp
  next
    case None
    then have turn: "logic_turn (threads z) ?w = Some (?w\<lparr>zmgr := zm1\<rparr>)"
      by (simp add: logic_turn_def tz t1)
    obtain u zm2 where "take_task z zm1 = (Some u, zm2)"
      using take_task_progress [OF zw, of z zm1] p t1 None by auto
    moreover have "\<forall>y. zone_pending zm1 y = zone_pending (zmgr ?w) y"
      using take_task_pending(1) [OF zw t1] None by simp
    ultimately show ?thesis
      using now reachable.step [OF r server_step.logic [of z threads s, OF id turn]] by blast
  qed
qed

subsection \<open>The item counter after start-up\<close>

lemma length_window: "length (window g x y) \<le> 2500" if "0 \<le> offsetX g" "offsetX g \<le> 150" "0 \<le> offsetY g" "offsetY g \<le> 150"
proof -
  have b: "short_of (offsetY g + kLocalHeight - 1) = offsetY g + 49" "short_of (offsetX g + kLocalWidth - 1) = offsetX g + 49"
    using that by (simp_all add: kLocalHeight_def kLocalWidth_def)
  have "length [max (offsetX g) a..min (offsetX g + 49) c] \<le> 50" "length [max (offsetY g) a..min (offsetY g + 49) c] \<le> 50" for a c
    by auto
  then have "length [max (offsetX g) a..min (offsetX g + 49) c] * length [max (offsetY g) d..min (offsetY g + 49) e] \<le> 50 * 50" for a c d e
    by (intro mult_le_mono)
  then show ?thesis
    unfolding window_def Let_def b by (simp add: length_concat o_def sum_list_triv mult.commute)
qed

lemma length_concat_le: "(\<And>x. x \<in> set xs \<Longrightarrow> length (f x) \<le> n) \<Longrightarrow> length (concat (map f xs)) \<le> length xs * n"
  by (induction xs) (auto intro: add_mono)

lemma scan_bound:
  assumes "set_traversal ord" "0 \<le> offsetX g" "offsetX g \<le> 150" "0 \<le> offsetY g" "offsetY g \<le> 150"
    and S: "finite S" "\<forall>c. cell g c \<subseteq> S"
  shows "length (ForEachNeighborObjID ord g x y) \<le> 2500 * card S"
proof -
  have "length (ord (cell g c)) \<le> card S" for c
  proof -
    have f: "finite (cell g c)"
      using S finite_subset by blast
    then have "length (ord (cell g c)) = card (cell g c)"
      using set_traversal.ord_set [OF assms(1) f] set_traversal.ord_distinct [OF assms(1) f] distinct_card by metis
    then show ?thesis
      using S card_mono by metis
  qed
  then have "length (concat (map (\<lambda>c. ord (cell g c)) (window g x y))) \<le> length (window g x y) * card S"
    by (intro length_concat_le) simp
  also have "\<dots> \<le> 2500 * card S"
    using length_window [OF assms(2-5)] by simp
  finally show ?thesis
    by (simp add: ForEachNeighborObjID_def cell_def split_def)
qed

lemma booted_ids_left:
  assumes th: "threads_ok threads" and b: "booted {0..<200000} w" and z: "IsValidZoneId z"
  shows "ids_left (threads z) w"
proof -
  have t: "set_traversal (t_ord (threads z))" and tz: "t_zone (threads z) = z"
    using th by (simp_all add: threads_ok_def thread_ok_def)
  have d: "dom (objects w) = monster_id ` {0..<200000}" "\<forall>c. cell (grids w z) c \<subseteq> dom (objects w)" "nextFieldItemId w = 1"
    using b unfolding booted_def boot_frame_def by (simp, blast, simp add: newWorld_def)
  have c: "finite (dom (objects w))" "card (dom (objects w)) \<le> 200000"
    unfolding d(1) using card_image_le [of "{0..<200000}" monster_id] by simp_all
  have "grid_of z (grids w z)"
    using b z by (auto simp: booted_def okn_def ok_def world_ok_def)
  note o = grid_of_offsets(1-4) [OF this]
  have "length (ForEachNeighborObjID (t_ord (threads z)) (grids w z) x y) \<le> 2500 * 200000" for x y
    using scan_bound [OF t o c(1) d(2), of x y] c(2) by linarith
  then have "1 + length (ForEachNeighborObjID (t_ord (threads z)) (grids w z) x y) + 1 \<le> 500000002" for x y
    by (simp add: add.commute)
  then have "1 + length (ForEachNeighborObjID (t_ord (threads z)) (grids w z) x y) + 1 < 2 ^ 64" for x y
    by (rule le_less_trans) simp
  then show ?thesis
    by (simp add: ids_left_def tz d(3))
qed

subsection \<open>The run\<close>

definition race_login :: ClientPacket where "race_login = USER_LOGIN_REQ_PACKET ''ann'' ''pw''"
definition race_chat :: ClientPacket where "race_chat = CS_CHAT_PACKET ''hi''"

definition race_info :: DB_USER_INFO where
  "race_info = default_user_info\<lparr>ui_playerId := 1, ui_name := ''ann'', ui_password := ''pw''\<rparr>"

text \<open>The world after the connection is accepted and the two packets have arrived.\<close>

lemma race_received:
  assumes th: "threads_ok threads" and b: "booted {0..<200000} w" "boot threads = Some w"
  shows "\<exists>s j1 j2. reachable threads s \<and>
    grids (sv_world s) = grids w \<and> objects (sv_world s) = objects w \<and> nextFieldItemId (sv_world s) = 1 \<and>
    cs_state (sessions (sv_world s) 0) = ST_ALLOC \<and> cs_objectId (sessions (sv_world s) 0) = 1 \<and> cs_open (sessions (sv_world s) 0) \<and>
    decode j1 = Some race_login \<and> decode j2 = Some race_chat \<and>
    (\<forall>z. zone_pending (zmgr (sv_world s)) z = (if IsValidZoneId z then [] else [TPacket 0 j1, TPacket 0 j2]))"
proof -
  have f: "boot_frame newWorld w" and zw: "zm_ok (zmgr w)"
    using b(1) by (auto simp: booted_def okn_def ok_def world_ok_def)
  let ?w1 = "io_accept True True w" and ?bytes = "concat (map encode_client [race_login, race_chat])"
  let ?s1 = "(newServer w)\<lparr>sv_world := ?w1\<rparr>"
  have r1: "reachable threads ?s1"
    using reachable.step [OF reachable.start [OF b(2)] server_step.accept [of threads "newServer w" True True]]
    by (simp add: newServer_def)
  have n: "nextSession w = 0" "nextObjectId w = 1" "zones (zmgr w) = zones newZoneManager"
    "defaultThread (zmgr w) = defaultThread newZoneManager" "nextFieldItemId w = 1"
    using f by (simp_all add: boot_frame_def newWorld_def PLAYER_ID_START_def)
  have nm: "\<not> MONSTER_ID_START \<le> 1"
    by (simp add: MONSTER_ID_START_def word_le_nat_alt)
  have w1: "sessions ?w1 0 = \<lparr>cs_open = True, cs_state = ST_ALLOC, cs_objectId = 1, cs_routing = InvalidZoneId,
      cs_owner = None, cs_posted = []\<rparr>" "zmgr ?w1 = zmgr w" "grids ?w1 = grids w" "objects ?w1 = objects w"
      "nextFieldItemId ?w1 = 1"
    using n nm by (simp_all add: io_accept_def CreateSession_def newClientSession_def upd_session_def Let_def)
  have ok: "\<forall>q \<in> set [race_login, race_chat]. client_ok q"
    by (simp add: race_login_def race_chat_def NAME_SIZE_def PASSWORD_SIZE_def CHAT_SIZE_def c_string_def)
  have "tail_of encode_client [] []" "pool_ok (nw_pool \<lparr>nw_pool = [], nw_zm = zmgr w\<rparr>)" "zm_ok (nw_zm \<lparr>nw_pool = [], nw_zm = zmgr w\<rparr>)"
    using zw by (simp_all add: pool_ok_def tail_of_def)
  from recv_loop_stream [OF ok this, of InvalidZoneId 0 0]
  obtain jobs nw where l: "recv_loop (\<lambda>_. Some InvalidZoneId) 0 0 ?bytes \<lparr>nw_pool = [], nw_zm = zmgr w\<rparr> = (False, [], nw)"
    "map decode jobs = map Some [race_login, race_chat]"
    "\<forall>z'. zone_pending (nw_zm nw) z' = zone_pending (zmgr w) z' @
       (if InvalidZoneId = z' \<or> \<not> IsValidZoneId InvalidZoneId \<and> \<not> IsValidZoneId z' then map (TPacket 0) jobs else [])"
    unfolding append_Nil2 NetWorker.select_convs by blast
  obtain j1 j2 where j: "jobs = [j1, j2]" "decode j1 = Some race_login" "decode j2 = Some race_chat"
    using l(2) by (auto simp: map_eq_Cons_conv)
  let ?s2 = "io_recv 0 True ?bytes ?s1"
  have iv: "\<not> IsValidZoneId InvalidZoneId"
    using InvalidZone_invalid by blast
  have s2: "sv_world ?s2 = ?w1\<lparr>zmgr := nw_zm nw\<rparr>"
    using l(1) w1 by (simp add: io_recv_def HandleRecv_def newServer_def)
  have p0: "zone_pending (zmgr w) z = []" for z
    using n(3,4) by (auto simp: zone_pending_def newZoneManager_def newGameLogicThread_def lt_pending_def IsValidZoneId_unat)
  have "reachable threads ?s2"
    by (rule reachable.step [OF r1 server_step.recv])
  then show ?thesis
    using s2 w1 j l(3) p0 iv by (intro exI [of _ ?s2] exI [of _ j1] exI [of _ j2]) auto
qed

lemma booted_no_user:
  assumes "booted D w" "hasCategory eUser i"
  shows "objects w i = None" "\<forall>z c. i \<notin> cell (grids w z) c"
proof -
  have d: "dom (objects w) = monster_id ` D" "\<forall>z c. cell (grids w z) c \<subseteq> dom (objects w)"
    using assms(1) unfolding booted_def by blast+
  have "i \<notin> monster_id ` D"
    using assms(2) by auto
  then have i: "i \<notin> dom (objects w)"
    unfolding d(1) .
  show "objects w i = None"
    using i by blast
  show "\<forall>z c. i \<notin> cell (grids w z) c"
    using d(2) i by blast
qed

lemma FalseE_imp: "\<not> A \<Longrightarrow> A \<longrightarrow> B"
  by blast

text \<open>The default thread handles the login request and the database answers it.\<close>

lemma race_answered:
  assumes th: "threads_ok threads" and b: "booted {0..<200000} w" "boot threads = Some w"
  shows "\<exists>s j2. reachable threads s \<and> grids (sv_world s) = grids w \<and> objects (sv_world s) = objects w \<and>
    nextFieldItemId (sv_world s) = 1 \<and> cs_state (sessions (sv_world s) 0) = ST_ALLOC \<and>
    cs_objectId (sessions (sv_world s) 0) = 1 \<and> cs_open (sessions (sv_world s) 0) \<and> decode j2 = Some race_chat \<and>
    (\<forall>z. zone_pending (zmgr (sv_world s)) z = (if z = 0 then [TAddUserInfo 0 race_info]
       else if IsValidZoneId z then [] else [TPacket 0 j2]))"
proof -
  have iv: "\<not> IsValidZoneId InvalidZoneId" and z0: "IsValidZoneId 0"
    using InvalidZone_invalid by (blast, simp add: IsValidZoneId_def)
  obtain s j1 j2 where s: "reachable threads s" "grids (sv_world s) = grids w" "objects (sv_world s) = objects w"
    "nextFieldItemId (sv_world s) = 1" "cs_state (sessions (sv_world s) 0) = ST_ALLOC"
    "cs_objectId (sessions (sv_world s) 0) = 1" "decode j1 = Some race_login" "decode j2 = Some race_chat"
    "\<forall>z. zone_pending (zmgr (sv_world s)) z = (if IsValidZoneId z then [] else [TPacket 0 j1, TPacket 0 j2])"
    "cs_open (sessions (sv_world s) 0)"
    using race_received [OF th b] by blast
  have "zone_pending (zmgr (sv_world s)) InvalidZoneId = TPacket 0 j1 # [TPacket 0 j2]"
    using s(9) iv by simp
  from reachable_exec [OF s(1) th iv [THEN FalseE_imp] this] obtain zm1 where
    zm1: "\<forall>y. zone_pending zm1 y = (if same_queue y InvalidZoneId then [TPacket 0 j2] else zone_pending (zmgr (sv_world s)) y)"
    "\<forall>w'. run_task (threads InvalidZoneId) (TPacket 0 j1) ((sv_world s)\<lparr>zmgr := zm1\<rparr>) = Some w' \<longrightarrow>
       reachable threads (s\<lparr>sv_world := w'\<rparr>)"
    by (elim exE conjE) (rule that)
  have q1: "zone_pending zm1 y = (if IsValidZoneId y then [] else [TPacket 0 j2])" for y
    using zm1(1) s(9) iv by simp
  let ?w1 = "(sv_world s)\<lparr>zmgr := zm1, dbRequests := dbRequests (sv_world s) @ [DbLogin 0 ''ann'' ''pw'']\<rparr>"
  have r1: "reachable threads (s\<lparr>sv_world := ?w1\<rparr>)"
    using zm1(2) s(5,7) by (simp add: Route_Dispatch_def race_login_def Route_login_def)
  let ?a = "EnqueueAddUserInfo 0 0 race_info"
  let ?s2 = "s\<lparr>sv_world := db_answer ?a ?w1\<rparr>"
  have r2: "reachable threads ?s2"
    using reachable.step [OF r1 server_step.answer [of "s\<lparr>sv_world := ?w1\<rparr>" ?a]] by (auto simp: requested_def)
  have p2: "zone_pending (zmgr (sv_world ?s2)) y = (if y = 0 then [TAddUserInfo 0 race_info]
      else if IsValidZoneId y then [] else [TPacket 0 j2])" for y
    using zone_pending_EnqueueByZone [of zm1 0 "TAddUserInfo 0 race_info" y] q1 z0
      world_ok_zm [OF reachable_ok [OF th r1]] by auto
  show ?thesis
    using r2 s p2 by (intro exI [of _ ?s2] exI [of _ j2]) simp
qed

text \<open>Zone 0 lets the player in.\<close>

lemma race_entered:
  assumes th: "threads_ok threads"
  shows "\<exists>s j2 c. reachable threads s \<and> decode j2 = Some race_chat \<and> client_of (sv_world s) 0 = Some c \<and>
    GetSession c = Some 0 \<and> cs_open (sessions (sv_world s) 0) \<and> zone_pending (zmgr (sv_world s)) InvalidZoneId = [TPacket 0 j2]"
proof -
  have "\<forall>z. IsValidZoneId z \<longrightarrow> zone_thread (threads z) \<and> t_zone (threads z) = z"
    using th by (simp add: threads_ok_def zone_thread_def)
  from boot_booted [OF this] obtain w where b: "boot threads = Some w" "booted {0..<200000} w"
    by (auto elim: wpE)
  have iv: "\<not> IsValidZoneId InvalidZoneId" and z0: "IsValidZoneId 0"
    using InvalidZone_invalid by (blast, simp add: IsValidZoneId_def)
  obtain s j2 where s: "reachable threads s" "grids (sv_world s) = grids w" "objects (sv_world s) = objects w"
    "nextFieldItemId (sv_world s) = 1" "cs_state (sessions (sv_world s) 0) = ST_ALLOC"
    "cs_objectId (sessions (sv_world s) 0) = 1" "decode j2 = Some race_chat"
    "\<forall>z. zone_pending (zmgr (sv_world s)) z = (if z = 0 then [TAddUserInfo 0 race_info]
       else if IsValidZoneId z then [] else [TPacket 0 j2])" "cs_open (sessions (sv_world s) 0)"
    using race_answered [OF th b(2,1)] by blast
  have id: "ids_left (threads 0) (sv_world s)"
    using booted_ids_left [OF th b(2) z0] b(2) s(2,4) by (simp add: ids_left_def booted_def boot_frame_def newWorld_def)
  have "zone_pending (zmgr (sv_world s)) 0 = TAddUserInfo 0 race_info # []"
    using s(8) by simp
  from reachable_exec [OF s(1) th impI [OF id] this] obtain zm3 where
    zm3: "world_ok ((sv_world s)\<lparr>zmgr := zm3\<rparr>)"
    "\<forall>y. zone_pending zm3 y = (if same_queue y 0 then [] else zone_pending (zmgr (sv_world s)) y)"
    "\<forall>w'. run_task (threads 0) (TAddUserInfo 0 race_info) ((sv_world s)\<lparr>zmgr := zm3\<rparr>) = Some w' \<longrightarrow>
       reachable threads (s\<lparr>sv_world := w'\<rparr>)"
    by (elim exE conjE) (rule that)
  let ?w3 = "(sv_world s)\<lparr>zmgr := zm3\<rparr>" and ?i = "mkObjID eUser 1"
  have zt: "zone_thread (threads 0)" "t_zone (threads 0) = 0"
    using threads_zone [OF th z0] th by (simp_all add: threads_ok_def)
  have ok3: "okn {} 1 ?w3" "login_id ?w3 0 = ?i" "cs_state (sessions ?w3 0) = ST_ALLOC"
    using zm3(1) s(4-6) by (simp_all add: okn_def ok_def login_id_def)
  have new: "objects ?w3 ?i = None" "\<forall>c. ?i \<notin> cell (grids ?w3 0) c"
    using booted_no_user [OF b(2), of ?i] s(2,3) by simp_all
  from HandleAddUserInfo_enters [OF zt(1) ok3(1,3), unfolded ok3(2) zt(2), OF new, of race_info] obtain w4 c where
    w4: "HandleAddUserInfo (threads 0) 0 race_info ?w3 = Some w4" "cs_state (sessions w4 0) = ST_INGAME"
    "cs_owner (sessions w4 0) = Some ?i" "objects w4 ?i = Some c" "\<forall>z. zone_pending (zmgr w4) z = zone_pending zm3 z"
    "cs_open (sessions w4 0) = cs_open (sessions (sv_world s) 0)" "m_session (subj_user c) = Some 0"
    by auto
  have "reachable threads (s\<lparr>sv_world := w4\<rparr>)"
    using zm3(3) w4(1) by simp
  moreover have "zone_pending (zmgr w4) InvalidZoneId = [TPacket 0 j2]"
    using w4(5) zm3(2) s(8) iv InvalidZone_invalid [OF z0] z0 by simp
  moreover have "client_of w4 0 = Some c"
    using w4(2-4) by (simp add: client_of_def GetOwner_def GetUser_def GetSubject_def)
  moreover have "cs_open (sessions w4 0)" "GetSession c = Some 0"
    using w4(6,7) s(9) by (simp_all add: GetSession_def)
  ultimately show ?thesis
    using s(7) by (intro exI [of _ "s\<lparr>sv_world := w4\<rparr>"] exI [of _ j2] exI [of _ c]) simp
qed

lemma race_crash:
  assumes th: "threads_ok threads"
  shows "\<exists>s. reachable threads s \<and> logic_turn (threads InvalidZoneId) (sv_world s) = None"
proof -
  have iv: "\<not> IsValidZoneId InvalidZoneId"
    using InvalidZone_invalid by blast
  obtain s j2 c where s: "reachable threads s" "decode j2 = Some race_chat" "client_of (sv_world s) 0 = Some c"
    "zone_pending (zmgr (sv_world s)) InvalidZoneId = TPacket 0 j2 # []"
    using race_entered [OF th] by blast
  from reachable_exec [OF s(1) th iv [THEN FalseE_imp] s(4)] obtain zm5 where
    zm5: "run_task (threads InvalidZoneId) (TPacket 0 j2) ((sv_world s)\<lparr>zmgr := zm5\<rparr>) = None \<longrightarrow>
       (\<exists>s'. reachable threads s' \<and> logic_turn (threads InvalidZoneId) (sv_world s') = None)"
    by (elim exE conjE) (rule that)
  have "client_of ((sv_world s)\<lparr>zmgr := zm5\<rparr>) 0 = Some c"
    using s(3) by (auto simp: client_of_def GetOwner_def GetUser_def GetSubject_def split: if_splits option.splits)
  then have "run_task (threads InvalidZoneId) (TPacket 0 j2) ((sv_world s)\<lparr>zmgr := zm5\<rparr>) = None"
    using default_moves(9) [OF threads_default [OF th iv]] s(2)
    by (simp add: Route_Dispatch_def race_chat_def Route_chat_def)
  then show ?thesis
    using zm5 by simp
qed

end
