(* ===== verification/DemoWorld.thy ===== *)
theory DemoWorld
  imports ServerSafety "HOL-Library.Countable"
begin

text \<open>
  Concrete threads: every value a thread reads from outside is given by an executable function, and
  the functions satisfy what the handlers rely on.  The draws enumerate all pairs of numbers, again
  and again, from every starting point.
\<close>

definition draw :: "nat \<Rightarrow> nat" where
  "draw m = (let r = prod_decode (m div 6); p = m mod 6 in
     if p = 0 \<or> p = 3 then fst r else if p = 1 \<or> p = 4 then fst (prod_decode (snd r)) else 0)"

definition demo_uniform :: "nat \<Rightarrow> short \<Rightarrow> short \<Rightarrow> short" where
  "demo_uniform n lo hi = lo + int (draw n) mod (hi - lo + 1)"

definition demo_thread :: "ZoneId \<Rightarrow> Thread" where
  "demo_thread z = \<lparr>t_zone = z, t_now = (\<lambda>n. int n), t_nowms = (\<lambda>n. 60000 + word_of_nat n),
     t_iter = slot_order, t_ord = id_order, t_pick = pick_first, t_uniform = demo_uniform,
     t_bits = (\<lambda>n. n), t_roll = (\<lambda>_. 0), t_count = (\<lambda>_ lo hi. lo)\<rparr>"

lemma draw_pair:
  assumes "m = 6 * prod_encode (i, prod_encode (j, k)) \<or> m = 6 * prod_encode (i, prod_encode (j, k)) + 3"
  shows "draw m = i" "draw (Suc m) = j"
proof -
  let ?r = "prod_encode (i, prod_encode (j, k))"
  have "(6 * ?r) div 6 = ?r" "(6 * ?r + 3) div 6 = ?r" "Suc (6 * ?r) div 6 = ?r" "Suc (6 * ?r + 3) div 6 = ?r"
    "(6 * ?r) mod 6 = 0" "(6 * ?r + 3) mod 6 = 3" "Suc (6 * ?r) mod 6 = 1" "Suc (6 * ?r + 3) mod 6 = 4"
    by presburger+
  note e = this
  from assms show "draw m = i" "draw (Suc m) = j"
    unfolding draw_def Let_def by (elim disjE; simp only: e; simp)+
qed

lemma draw_pair_later: "\<exists>k. draw (n + 2 * k) = i \<and> draw (Suc (n + 2 * k)) = j"
proof -
  let ?r = "prod_encode (i, prod_encode (j, n))"
  have le: "n \<le> ?r"
    using le_prod_encode_2 order_trans by blast
  define m where "m = (if even n then 6 * ?r else 6 * ?r + 3)"
  have "n \<le> m" "even (m - n)"
    using le by (auto simp: m_def)
  then obtain k where "m = n + 2 * k"
    by (metis dvd_def le_add_diff_inverse)
  moreover have "draw m = i" "draw (Suc m) = j"
    by (rule draw_pair [where i = i and j = j and k = n], simp add: m_def)+
  ultimately show ?thesis
    by blast
qed

lemma demo_uniform_hit: "lo \<le> x \<Longrightarrow> x \<le> hi \<Longrightarrow> draw n = nat (x - lo) \<Longrightarrow> demo_uniform n lo hi = x"
  by (simp add: demo_uniform_def)

lemma demo_uniform_ok: "uniform_ok demo_uniform" "fair_tiles demo_uniform"
proof -
  show "uniform_ok demo_uniform"
    unfolding uniform_ok_def demo_uniform_def
  proof (intro allI impI)
    fix n and lo hi :: short
    assume "lo \<le> hi"
    then show "lo \<le> lo + int (draw n) mod (hi - lo + 1) \<and> lo + int (draw n) mod (hi - lo + 1) \<le> hi"
      using pos_mod_bound [of "hi - lo + 1" "int (draw n)"] by simp
  qed
  show "fair_tiles demo_uniform"
    unfolding fair_tiles_def
  proof (intro allI impI, elim exE conjE)
    fix n and a b c d x y :: short
    assume h: "a \<le> x" "x \<le> b" "c \<le> y" "y \<le> d" "\<not> isCollision x y"
    obtain k where "draw (n + 2 * k) = nat (x - a)" "draw (Suc (n + 2 * k)) = nat (y - c)"
      using draw_pair_later by blast
    then show "\<exists>k. \<not> isCollision (demo_uniform (n + 2 * k) a b) (demo_uniform (Suc (n + 2 * k)) c d)"
      using h demo_uniform_hit by metis
  qed
qed

lemma demo_thread_ok: "thread_ok (demo_thread z)"
  using demo_uniform_ok slot_order.slot_iteration_axioms id_order.set_traversal_axioms
    pick_first.open_set_axioms
  by (simp add: thread_ok_def demo_thread_def draws_ok_def BuildWeights_def)

lemma demo_threads_ok: "threads_ok demo_thread"
  using demo_thread_ok by (simp add: threads_ok_def demo_thread_def)

end
