(* ===== verification/WorldProps.thy ===== *)
theory WorldProps
  imports LoginRace DemoWorld
begin

text \<open>
  Properties of the running server: safety and invariants of the reachable states, start-up,
  placement, zone transfer and login.
\<close>

subsection \<open>Reachable states\<close>

text \<open>C1. In every state the server can reach, whatever the clients, the timer and the database have
  done before, the next turn of a zone thread returns: no failed \<^verbatim>\<open>ASSERT_CRASH\<close>, no null
  dereference and no endless retry in any handler, and the new state is again reachable.  The only
  reservation is the 64-bit counter of the dropped items.\<close>

theorem zone_threads_never_crash:
  assumes "threads_ok threads" "reachable threads s" "IsValidZoneId z" "ids_left (threads z) (sv_world s)"
  shows "\<exists>w'. logic_turn (threads z) (sv_world s) = Some w' \<and> reachable threads (s\<lparr>sv_world := w'\<rparr>)"
proof -
  obtain w' where w': "logic_turn (threads z) (sv_world s) = Some w'"
    using logic_turn_zone [OF threads_zone [OF assms(1,3)] reachable_ok [OF assms(1,2)] assms(4)]
    by (auto elim: wpE)
  then show ?thesis
    using reachable.step [OF assms(2) server_step.logic [of z threads s w']] assms(4) by blast
qed

lemma demo_boot: "\<exists>w. boot demo_thread = Some w \<and> booted {0..<200000} w"
proof -
  have "\<forall>z. IsValidZoneId z \<longrightarrow> zone_thread (demo_thread z) \<and> t_zone (demo_thread z) = z"
    using demo_threads_ok by (simp add: threads_ok_def zone_thread_def)
  from boot_booted [OF this] show ?thesis
    by (auto elim: wpE)
qed

lemma booted_monster: "booted {0..<200000} w \<Longrightarrow> 0 \<le> k \<Longrightarrow> k < 200000 \<Longrightarrow> monster_at w k"
  by (simp add: booted_def)

theorem zone_threads_never_crash_witness:
  "\<exists>s w'. reachable demo_thread s \<and> logic_turn (demo_thread 3) (sv_world s) = Some w' \<and>
     reachable demo_thread (s\<lparr>sv_world := w'\<rparr>)"
proof -
  obtain w where w: "boot demo_thread = Some w" "booted {0..<200000} w"
    using demo_boot by blast
  have z: "IsValidZoneId (3 :: ZoneId)"
    by (simp add: IsValidZoneId_def)
  have "ids_left (demo_thread 3) (sv_world (newServer w))"
    using booted_ids_left [OF demo_threads_ok w(2) z] by (simp add: newServer_def)
  from zone_threads_never_crash [OF demo_threads_ok reachable.start [OF w(1)] z this]
  show ?thesis
    using reachable.start [OF w(1)] by blast
qed

text \<open>C19. The object table is well typed in every reachable state: the category in the identifier of an
  object is its dynamic class, so that every \<^verbatim>\<open>static_pointer_cast\<close> that relies on the category is
  sound, and an object stores the identifier it is filed under.\<close>

theorem reachable_objects_typed:
  assumes "threads_ok threads" "reachable threads s" "objects (sv_world s) i = Some ob"
  shows "m_SubjID ob = i \<and> (hasCategory eUser i \<longleftrightarrow> is_UserB (m_body ob)) \<and>
    (hasCategory eMonster i \<longleftrightarrow> is_MonsterB (m_body ob)) \<and> (hasCategory eItem i \<longleftrightarrow> is_ItemB (m_body ob)) \<and>
    (GetItem (sv_world s) i \<noteq> None \<longleftrightarrow> hasCategory eItem i)"
proof -
  have "subject_ok (nextFieldItemId (sv_world s)) i ob"
    using reachable_ok [OF assms(1,2)] assms(3) by (simp add: world_ok_def)
  note k = subject_ok_kind(1,3-5) [OF this]
  then show ?thesis
    using assms(3) by (simp add: GetItem_def)
qed

theorem reachable_objects_typed_witness:
  "\<exists>s ob. reachable demo_thread s \<and> objects (sv_world s) (monster_id 7) = Some ob \<and> is_MonsterB (m_body ob)"
proof -
  obtain w where w: "boot demo_thread = Some w" "booted {0..<200000} w"
    using demo_boot by blast
  then obtain ob where ob: "objects (sv_world (newServer w)) (monster_id 7) = Some ob"
    using booted_monster [OF w(2), of 7] by (auto simp: monster_at_def newServer_def)
  from reachable_objects_typed [OF demo_threads_ok reachable.start [OF w(1)] ob] reachable.start [OF w(1)] ob
  show ?thesis
    by auto
qed

text \<open>C18. In every reachable state every player has a legal inventory (legal stacks, at most one equipped
  item, the attack power that the equipment gives) and legal statistics, every monster has legal
  statistics and every item on the ground is a legal stack that no inventory owns.\<close>

theorem reachable_objects_legal:
  assumes "threads_ok threads" "reachable threads s" "objects (sv_world s) i = Some ob"
  shows "(is_UserB (m_body ob) \<longrightarrow> inv_ok (inventory_of ob) \<and> player_stat_ok (subj_stat ob)) \<and>
    (is_MonsterB (m_body ob) \<longrightarrow> stat_ok (subj_stat ob) \<and> m_maxHp (subj_stat ob) = MONSTER_MAX_HP) \<and>
    (is_ItemB (m_body ob) \<longrightarrow> item_ok npos (subj_item ob) \<and> m_DatabaseID i < nextFieldItemId (sv_world s))"
proof -
  have "subject_ok (nextFieldItemId (sv_world s)) i ob"
    using reachable_ok [OF assms(1,2)] assms(3) by (simp add: world_ok_def)
  from subject_ok_kind(6-8) [OF this] show ?thesis
    by blast
qed

theorem reachable_objects_legal_witness:
  "\<exists>s i ob. reachable demo_thread s \<and> objects (sv_world s) i = Some ob \<and> is_UserB (m_body ob) \<and>
     inv_ok (inventory_of ob) \<and> player_stat_ok (subj_stat ob)"
proof -
  obtain s c where r: "reachable demo_thread s" "client_of (sv_world s) 0 = Some c"
    using race_entered [OF demo_threads_ok] by blast
  have "okn {} (nextFieldItemId (sv_world s)) (sv_world s)"
    using reachable_ok [OF demo_threads_ok r(1)] by (simp add: okn_def ok_def)
  note u = client_of_user [OF this r(2)]
  have "is_UserB (m_body c)"
    using u(2,3) subject_ok_kind(3) by blast
  with reachable_objects_legal [OF demo_threads_ok r(1) u(1)] r(1) u(1) show ?thesis
    by blast
qed

text \<open>C22. Start-up terminates with all 200000 monsters, each once, monster \<open>k\<close> in zone \<open>k mod 16\<close> on a free
  tile that is its spawn point, registered in exactly the cell of its position; the first quarter of
  the identifiers is aggressive.\<close>

theorem boot_places_monsters:
  assumes "threads_ok threads"
  shows "\<exists>w. boot threads = Some w \<and> dom (objects w) = monster_id ` {0..<200000} \<and> inj_on monster_id {0..<200000} \<and>
    (\<forall>k. 0 \<le> k \<and> k < 200000 \<longrightarrow> monster_at w k)"
proof -
  have "\<forall>z. IsValidZoneId z \<longrightarrow> zone_thread (threads z) \<and> t_zone (threads z) = z"
    using assms by (simp add: threads_ok_def zone_thread_def)
  from boot_booted [OF this] obtain w where w: "boot threads = Some w" "booted {0..<200000} w"
    by (auto elim: wpE)
  have "dom (objects w) = monster_id ` {0..<200000}"
    using w(2) unfolding booted_def by blast
  then show ?thesis
    using w booted_monster monster_id_inj by blast
qed

theorem boot_places_monsters_witness:
  "\<exists>w s. boot demo_thread = Some w \<and> objects w (monster_id 199999) = Some s \<and> m_zoneId s = 15 \<and>
     \<not> isCollision (m_x s) (m_y s) \<and> m_Type (subj_monster s) = PASSIVE"
proof -
  obtain w where w: "boot demo_thread = Some w" "\<forall>k. 0 \<le> k \<and> k < 200000 \<longrightarrow> monster_at w k"
    using boot_places_monsters [OF demo_threads_ok] by blast
  from spec [OF w(2), of 199999] have "monster_at w 199999"
    by simp
  then show ?thesis
    using w(1) by (auto simp: monster_at_def placed_def)
qed

text \<open>C26. A client can crash the server: there is a reachable state in which the next turn of the default
  thread dereferences the null \<^verbatim>\<open>GSector\<close>.  The run is a connection, a login and a chat message that
  arrive together, and the answer of the database overtaking the second packet.\<close>

theorem login_race_crashes:
  assumes "threads_ok threads"
  shows "\<exists>s. reachable threads s \<and> logic_turn (threads InvalidZoneId) (sv_world s) = None"
  using assms by (rule race_crash)

theorem login_race_crashes_witness:
  "\<exists>s. reachable demo_thread s \<and> logic_turn (demo_thread InvalidZoneId) (sv_world s) = None"
  by (rule login_race_crashes [OF demo_threads_ok])

end
