(* ===== verification/ZoneProps.thy ===== *)
theory ZoneProps
  imports WorldFrames DemoWorld
begin

text \<open>
  Properties of placement, of the hand-over between two zone threads and of the login.
\<close>

definition demo_guest_id :: ObjID where "demo_guest_id = mkObjID eUser 1"

definition demo_guest :: Subject where
  "demo_guest = (User_InitInstance demo_guest_id)\<lparr>m_SubjName := ''ann'',
     m_body := map_user (\<lambda>u. u\<lparr>m_playerId := 1\<rparr>) (m_body ((User_InitInstance demo_guest_id)\<lparr>m_SubjName := ''ann''\<rparr>))\<rparr>"

text \<open>An empty world with one player who is not on the map yet.\<close>

definition demo_lobby :: World where
  "demo_lobby = newWorld\<lparr>objects := [demo_guest_id \<mapsto> demo_guest]\<rparr>"

lemma newWorld_ok: "okn {} 1 newWorld"
  using booted_new by (auto simp: booted_def okn_def newWorld_def)

lemma demo_lobby_ok: "okn {} 1 demo_lobby" "objects demo_lobby demo_guest_id = Some demo_guest"
  "hasCategory eUser demo_guest_id" "\<forall>z c. demo_guest_id \<notin> cell (grids demo_lobby z) c"
  "IsValidZoneId z \<Longrightarrow> absent demo_lobby z demo_guest_id"
proof -
  show u: "hasCategory eUser demo_guest_id"
    by (simp add: demo_guest_id_def)
  show o: "objects demo_lobby demo_guest_id = Some demo_guest" "\<forall>z c. demo_guest_id \<notin> cell (grids demo_lobby z) c"
    by (simp_all add: demo_lobby_def newWorld_def zoneSector_def)
  show "okn {} 1 demo_lobby"
    using newWorld_ok new_user_ok [OF u] by (auto simp: okn_def ok_def world_ok_def demo_lobby_def demo_guest_def newWorld_def)
  show "IsValidZoneId z \<Longrightarrow> absent demo_lobby z demo_guest_id"
    using o InvalidZone_invalid by (auto simp: absent_def demo_guest_def User_InitInstance_def newSubject_def)
qed

lemma demo_zone_thread: "IsValidZoneId z \<Longrightarrow> zone_thread (demo_thread z)" "t_zone (demo_thread z) = z"
  using demo_thread_ok by (simp_all add: zone_thread_def demo_thread_def)

lemma demo_zones: "IsValidZoneId 0" "IsValidZoneId 1" "GetZoneIdByWorld 499 9 = 0" "GetZoneIdByWorld 500 9 = 1"
proof -
  show "IsValidZoneId 0" "IsValidZoneId 1"
    by (simp_all add: IsValidZoneId_def)
  have "IsValidWorldPosition 499 9" "IsValidWorldPosition 500 9"
    by (simp_all add: IsValidWorldPosition_def world_consts)
  from this [THEN uint_GetZoneIdByWorld(1)] show "GetZoneIdByWorld 499 9 = 0" "GetZoneIdByWorld 500 9 = 1"
    by (simp_all add: word_uint_eq_iff)
qed

subsection \<open>Placement\<close>

text \<open>A position inside the zone of the running thread puts the object there, into exactly the cell of
  that position, with its zone, its sector, the zone table and the routing of its session in
  agreement, and changes no other object; a position outside the zone changes nothing, so a zone
  thread never moves an object into a foreign grid.\<close>

theorem UpdatePosition_exact:
  assumes "zone_thread th" "world_ok w" "objects w i = Some s" "placed w (t_zone th) i \<or> absent w (t_zone th) i"
  shows "\<exists>w'. UpdatePosition th i x y w = Some w' \<and>
    (if GetZoneIdByWorld x y = t_zone th
     then placed w' (t_zone th) i \<and> others_same (t_zone th) i w w' \<and>
       objects w' i = Some (s\<lparr>m_sectorX := fst (GetSectorCoord x y), m_sectorY := snd (GetSectorCoord x y),
         m_x := x, m_y := y, m_zoneId := t_zone th\<rparr>) \<and>
       (\<forall>sid. hasCategory eUser i \<longrightarrow> GetSession s = Some sid \<longrightarrow> cs_routing (sessions w' sid) = t_zone th)
     else w' = w)"
proof -
  have g: "grid_of (t_zone th) (grids w (t_zone th))"
    using assms(1,2) by (simp add: zone_thread_def world_ok_def)
  show ?thesis
    using UpdatePosition_placed [OF assms(1) g assms(3,4), of x y] UpdatePosition_outside [OF assms(1) g, of x y i]
    by (cases "GetZoneIdByWorld x y = t_zone th") auto
qed

theorem UpdatePosition_exact_witness:
  "\<exists>w'. UpdatePosition (demo_thread 0) demo_guest_id 499 9 demo_lobby = Some w' \<and> placed w' 0 demo_guest_id"
proof -
  have w: "world_ok demo_lobby"
    using demo_lobby_ok(1) by (simp add: okn_def ok_def)
  note t = demo_zone_thread(1) [OF demo_zones(1)]
  have a: "placed demo_lobby (t_zone (demo_thread 0)) demo_guest_id \<or> absent demo_lobby (t_zone (demo_thread 0)) demo_guest_id"
    using demo_lobby_ok(5) [OF demo_zones(1)] demo_zone_thread(2) by simp
  show ?thesis
    using UpdatePosition_exact [OF t w demo_lobby_ok(2) a, of 499 9] demo_zones(3) demo_zone_thread(2) by auto
qed

text \<open>The player of the lobby, placed at the eastern border of zone 0.\<close>

lemma demo_placed:
  "\<exists>w s. world_ok w \<and> placed w 0 demo_guest_id \<and> objects w demo_guest_id = Some s \<and> \<not> m_transferring s \<and>
     m_x s = 499 \<and> m_y s = 9 \<and> (\<forall>c. demo_guest_id \<notin> cell (grids w 1) c)"
proof -
  note t0 = demo_zone_thread(1) [OF demo_zones(1)]
  have g: "grid_of 0 (grids demo_lobby 0)"
    using demo_lobby_ok(1) demo_zones(1) by (simp add: okn_def ok_def world_ok_def)
  from UpdatePosition_placed [OF t0, unfolded demo_zone_thread(2), OF g demo_lobby_ok(2)
      disjI2 [OF demo_lobby_ok(5) [OF demo_zones(1)]] demo_zones(3)]
  obtain w s where w: "UpdatePosition (demo_thread 0) demo_guest_id 499 9 demo_lobby = Some w" "placed w 0 demo_guest_id"
    "objects w demo_guest_id = Some s" "others_same 0 demo_guest_id demo_lobby w" "m_transferring s = m_transferring demo_guest"
    "m_x s = 499" "m_y s = 9"
    by auto
  have "in_short (499, 9)"
    by (simp add: in_short_def)
  from UpdatePosition_okn [OF t0 demo_lobby_ok(1) this, of demo_guest_id] w(1) have "world_ok w"
    by (simp add: okn_def ok_def)
  moreover have "\<forall>c. demo_guest_id \<notin> cell (grids w 1) c"
    using w(4) demo_lobby_ok(4) by (simp add: others_same_def)
  moreover have "\<not> m_transferring s"
    using w(5) by (simp add: demo_guest_def User_InitInstance_def newSubject_def)
  ultimately show ?thesis
    using w(2,3,6,7) by blast
qed

subsection \<open>Zone transfer\<close>

text \<open>C12. A move across a zone border: the old zone thread takes the player out of its grid, marks the
  transfer, switches the routing and queues exactly one entry task behind the tasks of the new zone;
  when the new zone thread runs it, the player is in exactly one cell of the new grid and in none of
  the old one, at the requested position, and the transfer is over.\<close>

theorem zone_transfer_completes:
  assumes "zone_thread th1" "zone_thread th2" "t_zone th2 \<noteq> t_zone th1" "world_ok w" "hasCategory eUser i"
    "objects w i = Some s" "placed w (t_zone th1) i" "\<forall>c. i \<notin> cell (grids w (t_zone th2)) c"
    "GetZoneIdByWorld x y = t_zone th2"
  shows "\<exists>w1 w2 s1 s2. HandlePlayerMove th1 i x y w = Some w1 \<and> objects w1 i = Some s1 \<and> m_transferring s1 \<and>
    zone_pending (zmgr w1) (t_zone th2) = zone_pending (zmgr w) (t_zone th2) @ [TEnterZone i x y] \<and>
    (\<forall>sid. GetSession s = Some sid \<longrightarrow> cs_routing (sessions w1 sid) = t_zone th2) \<and>
    run_task th2 (TEnterZone i x y) w1 = Some w2 \<and> placed w2 (t_zone th2) i \<and> (\<forall>c. i \<notin> cell (grids w2 (t_zone th1)) c) \<and>
    objects w2 i = Some s2 \<and> m_x s2 = x \<and> m_y s2 = y \<and> \<not> m_transferring s2 \<and> m_body s2 = m_body s"
proof -
  have w: "okn {} (nextFieldItemId w) w"
    using assms(4) by (simp add: okn_def ok_def)
  have z: "IsValidZoneId (t_zone th2)"
    using assms(2) by (simp add: zone_thread_def)
  from HandleZoneTransfer_leaves [OF assms(1) w assms(7,5,6) z assms(3,9)] obtain w1 where
    w1: "HandlePlayerMove th1 i x y w = Some w1" "\<forall>c. i \<notin> cell (grids w1 (t_zone th1)) c"
    "objects w1 i = Some (s\<lparr>m_transferring := True, m_sectorX := -1, m_sectorY := -1, m_x := x, m_y := y, m_zoneId := t_zone th2\<rparr>)"
    "GetObjectZone (zmgr w1) i = t_zone th2" "\<forall>z'. z' \<noteq> t_zone th1 \<longrightarrow> grids w1 z' = grids w z'"
    "zone_pending (zmgr w1) (t_zone th2) = zone_pending (zmgr w) (t_zone th2) @ [TEnterZone i x y]"
    "\<forall>sid. GetSession s = Some sid \<longrightarrow> cs_routing (sessions w1 sid) = t_zone th2"
    by blast
  have "okn {i} (nextFieldItemId w) w1"
    using HandlePlayerMove_ok [OF assms(1) okn_insert [OF w assms(6)] singletonI
        valid_in_short [OF zone_valid_position [OF assms(2,9)]]] w1(1) by simp
  then have o1: "okn {} (nextFieldItemId w) w1"
    by (rule okn_mono) simp
  have a1: "absent w1 (t_zone th2) i"
    using w1(3,4,5) assms(3,8) by (simp add: absent_def)
  from HandleEnterZone_arrives [OF assms(2) o1 a1 assms(5) w1(3) _ assms(9)] w1 assms(3) show ?thesis
    by auto
qed

theorem zone_transfer_completes_witness:
  "\<exists>w w1 w2. placed w 0 demo_guest_id \<and> HandlePlayerMove (demo_thread 0) demo_guest_id 500 9 w = Some w1 \<and>
     run_task (demo_thread 1) (TEnterZone demo_guest_id 500 9) w1 = Some w2 \<and> placed w2 1 demo_guest_id"
proof -
  obtain w s where w: "world_ok w" "placed w 0 demo_guest_id" "objects w demo_guest_id = Some s"
    "\<forall>c. demo_guest_id \<notin> cell (grids w 1) c"
    using demo_placed by blast
  show ?thesis
    using zone_transfer_completes [OF demo_zone_thread(1) [OF demo_zones(1)] demo_zone_thread(1) [OF demo_zones(2)],
        unfolded demo_zone_thread(2), of w demo_guest_id s 500 9] demo_lobby_ok(3) w demo_zones(4) by auto
qed

end
