(* ===== verification/LootProps.thy ===== *)
theory LootProps
  imports ZoneProps
begin

text \<open>Properties of the items on the ground.\<close>

lemma store_inventory_objects:
  assumes "objects w i = Some p" "is_UserB (m_body p)"
  shows "\<exists>p'. objects (store_inventory i iv w) = (objects w)(i \<mapsto> p') \<and> m_slots (subj_user p') = inv_slots iv"
proof -
  obtain st u where b: "m_body p = UserB st u"
    using assms(2) by (cases "m_body p") simp_all
  show ?thesis
    by (rule exI [of _ "p\<lparr>m_body := UserB (case inv_owner iv of Some owner \<Rightarrow> owner_stat owner | None \<Rightarrow> st)
          (u\<lparr>m_slots := inv_slots iv\<rparr>)\<rparr>"]) (simp add: store_inventory_def upd_obj_def assms(1) b)
qed

lemma acquire_sent: "for_each (SendITEM_ACQUIRE_INF s) ts w = Some w' \<Longrightarrow> objects w' = objects w"
proof (induction ts arbitrary: w)
  case (Cons k ts)
  then obtain w1 where "SendITEM_ACQUIRE_INF s k w = Some w1" "objects w' = objects w1"
    by (auto simp: bind_eq_Some_conv)
  then show ?case
    using sentD(1) [OF sent_post] by (auto simp: SendITEM_ACQUIRE_INF_def bind_eq_Some_conv split: option.splits)
qed simp

lemma RemoveFieldItem_gone: "RemoveFieldItem th j w = Some w' \<Longrightarrow> objects w' = (objects w)(j := None)"
proof (rule ext)
  fix i
  assume r: "RemoveFieldItem th j w = Some w'"
  show "objects w' i = ((objects w)(j := None)) i"
  proof (cases "i = j")
    case True
    then show ?thesis
      using r by (auto simp: RemoveFieldItem_def bind_eq_Some_conv Delete_def Let_def)
  qed (simp add: RemoveFieldItem_objects [OF r])
qed

lemma send_objects [simp]: "objects (send s p w) = objects w" "dbRequests (send s p w) = dbRequests w"
  using sentD(1,9) [OF sent_send] .

lemma GetSubject_eq: "GetSubject w i = objects w i"
  by (simp add: GetSubject_def)

text \<open>The item fits into the stacks and free slots of the player; a pickup of it that only moves it; and a
  pickup that changes nothing.\<close>

definition fits :: "Subject \<Rightarrow> Item \<Rightarrow> bool" where
  "fits p it \<longleftrightarrow> (case ItemTable_Find (m_itemTableId it) of
     None \<Rightarrow> False
   | Some row \<Rightarrow> unat (m_count it) \<le> inv_capacity (m_itemTableId it) (unat (row_maxStack row)) (m_slots (subj_user p)))"

definition item_moved :: "ObjID \<Rightarrow> Subject \<Rightarrow> Subject \<Rightarrow> World \<Rightarrow> World \<Rightarrow> bool" where
  "item_moved i p t w w' \<longleftrightarrow> (\<exists>p'. objects w' = (objects w)(m_SubjID t := None, i \<mapsto> p') \<and>
     (\<forall>k. inv_total k (m_slots (subj_user p')) = inv_total k (m_slots (subj_user p)) + amount k (Some (subj_item t))))"

definition nothing_moved :: "World \<Rightarrow> World \<Rightarrow> bool" where
  "nothing_moved w w' \<longleftrightarrow> objects w' = objects w \<and> dbRequests w' = dbRequests w"

text \<open>What a pickup of the item \<open>t\<close> does, by the answer of the inventory.\<close>

lemma TryPickupAt_takes:
  assumes th: "zone_thread th" and p: "objects w i = Some p" "is_UserB (m_body p)" "inv_ok (inventory_of p)"
    and n: "ForEachNeighborObject th w p = Some near" "find (pickup_candidate p) near = Some t" "m_SubjID t \<noteq> i"
    and t: "item_ok npos (subj_item t)" and f: "fits p (subj_item t)" and r: "TryPickupAt th i w = Some w'"
  shows "item_moved i p t w w'"
proof -
  obtain row where row: "ItemTable_Find (m_itemTableId (subj_item t)) = Some row"
    "unat (m_count (subj_item t)) \<le> inv_capacity (m_itemTableId (subj_item t)) (unat (row_maxStack row)) (m_slots (subj_user p))"
    using f by (auto simp: fits_def split: option.splits)
  have c: "m_count (subj_item t) \<noteq> 0"
    using t by (auto simp: item_ok_def split: option.splits)
  have it: "slot_iteration (t_iter th)"
    using th by (simp add: zone_thread_def thread_ok_def)
  have s: "inv_slots (inventory_of p) = m_slots (subj_user p)"
    by (simp add: inventory_of_def)
  from slot_iteration.TryAddItem_accept_step [OF it p(3) c row(1)] row(2) obtain ts iv where
    a: "TryAddItem (t_iter th) (m_itemTableId (subj_item t)) (m_count (subj_item t)) (inventory_of p) = Some (True, ts, iv)"
    "grown (m_itemTableId (subj_item t)) (m_slots (subj_user p)) (inv_slots iv) (set ts)"
    "inv_total (m_itemTableId (subj_item t)) (inv_slots iv) =
       inv_total (m_itemTableId (subj_item t)) (m_slots (subj_user p)) + unat (m_count (subj_item t))"
    unfolding s by blast
  obtain p' where p': "objects (store_inventory i iv w) = (objects w)(i \<mapsto> p')" "m_slots (subj_user p') = inv_slots iv"
    using store_inventory_objects [OF p(1,2)] by blast
  have "objects w' = (objects w)(m_SubjID t := None, i \<mapsto> p')"
    using r n(3) by (auto simp: TryPickupAt_def GetSubject_eq p(1) n(1,2) with_inventory_def a(1) bind_eq_Some_conv
        SendITEM_PICKUP_ACK_def p'(1) dest!: acquire_sent RemoveFieldItem_gone)
  moreover have "inv_total k (inv_slots iv) = inv_total k (m_slots (subj_user p)) + amount k (Some (subj_item t))" for k
    using a(3) grown_other [OF a(2), of k] by (cases "k = m_itemTableId (subj_item t)") (auto simp: amount_def)
  ultimately show ?thesis
    using p'(2) unfolding item_moved_def by metis
qed

lemma TryPickupAt_full:
  assumes th: "zone_thread th" and p: "objects w i = Some p" "is_UserB (m_body p)" "inv_ok (inventory_of p)"
    and n: "ForEachNeighborObject th w p = Some near" "find (pickup_candidate p) near = Some t"
    and f: "\<not> fits p (subj_item t)" and r: "TryPickupAt th i w = Some w'"
  shows "nothing_moved w w'"
proof -
  have it: "slot_iteration (t_iter th)"
    using th by (simp add: zone_thread_def thread_ok_def)
  have a: "TryAddItem (t_iter th) (m_itemTableId (subj_item t)) (m_count (subj_item t)) (inventory_of p) = Some (False, [], inventory_of p)"
    by (rule slot_iteration.TryAddItem_reject [OF it p(3)]) (use f in \<open>auto simp: fits_def inventory_of_def split: option.splits\<close>)
  have "objects (store_inventory i (inventory_of p) w) = objects w" "dbRequests (store_inventory i (inventory_of p) w) = dbRequests w"
    using p(1,2) by (cases "m_body p"; auto simp: store_inventory_def inventory_of_def upd_obj_def map_upd_triv)+
  with r show ?thesis
    by (auto simp: nothing_moved_def TryPickupAt_def GetSubject_eq p(1) n(1,2) with_inventory_def a bind_eq_Some_conv
        Let_def SendITEM_PICKUP_ACK_def SendSYSTEM_MESSAGE_INF_def)
qed

lemma TryPickupAt_nothing:
  assumes "objects w i = Some p" "ForEachNeighborObject th w p = Some near" "find (pickup_candidate p) near = None"
    and "TryPickupAt th i w = Some w'"
  shows "nothing_moved w w'"
  using assms by (auto simp: nothing_moved_def TryPickupAt_def GetSubject_eq SendITEM_PICKUP_ACK_def)

subsection \<open>Pickup\<close>

text \<open>C13. A pickup moves one stack and conserves the pieces.  When an item lies on the tile of the player
  that is free or reserved for him and it fits, exactly that item leaves the world and its pieces,
  and no others, are added to his inventory; when nothing is there or it does not fit, no object
  changes and nothing is saved.  An item reserved for another player is never taken.\<close>

theorem pickup_conserves:
  assumes "zone_thread th" "world_ok w" "objects w i = Some p" "hasCategory eUser i"
  shows "\<exists>near w'. ForEachNeighborObject th w p = Some near \<and> TryPickupAt th i w = Some w' \<and>
    ((\<exists>t \<in> set near. pickup_candidate p t \<and> fits p (subj_item t) \<and> item_moved i p t w w') \<or>
     ((\<forall>t \<in> set near. \<not> pickup_candidate p t) \<or> (\<exists>t \<in> set near. pickup_candidate p t \<and> \<not> fits p (subj_item t))) \<and>
       nothing_moved w w') \<and>
    (\<forall>j s. objects w j = Some s \<longrightarrow> hasCategory eItem j \<longrightarrow> m_lootPriorityOwner (subj_item s) \<noteq> npos \<longrightarrow>
       m_lootPriorityOwner (subj_item s) \<noteq> i \<longrightarrow> objects w' j = Some s)"
proof -
  have w: "okn {} (nextFieldItemId w) w" and pk: "subject_ok (nextFieldItemId w) i p"
    using assms(2,3) by (simp_all add: okn_def ok_def world_ok_def)
  have u: "is_UserB (m_body p)" "inv_ok (inventory_of p)" "m_SubjID p = i"
    using subject_ok_kind(1,3,6) [OF pk] assms(4) by auto
  have A: "\<forall>j \<in> {i}. \<not> hasCategory eItem j"
    using assms(4) by (auto dest: hasCategory_unique)
  obtain w' where w': "TryPickupAt th i w = Some w'"
    using TryPickupAt_ok [OF assms(1) okn_insert [OF w assms(3)] singletonI assms(4) A] by (auto elim: wpE)
  obtain near where n: "ForEachNeighborObject th w p = Some near" "\<forall>t \<in> set near. objects w (m_SubjID t) = Some t"
    using wp_Neighbors [OF assms(1) w, of p] by (auto elim: wpE)
  show ?thesis
  proof (cases "find (pickup_candidate p) near")
    case None
    then have "\<forall>t \<in> set near. \<not> pickup_candidate p t"
      by (auto simp: find_None_iff)
    with TryPickupAt_nothing [OF assms(3) n(1) None w'] n(1) w' show ?thesis
      by (auto simp: nothing_moved_def)
  next
    case (Some t)
    note t = find_SomeD [OF Some]
    have it: "hasCategory eItem (m_SubjID t)" "objects w (m_SubjID t) = Some t" "m_SubjID t \<noteq> i"
      using t n(2) A by (auto simp: pickup_candidate_def)
    have "subject_ok (nextFieldItemId w) (m_SubjID t) t"
      using assms(2) it(2) by (simp add: world_ok_def)
    then have ok: "item_ok npos (subj_item t)"
      using subject_ok_kind(5,8) it(1) by blast
    have m: "objects w' j = Some s" if "item_moved i p t w w'" "objects w j = Some s" "hasCategory eItem j"
      "m_lootPriorityOwner (subj_item s) \<noteq> npos" "m_lootPriorityOwner (subj_item s) \<noteq> i" for j s
      using that t it A u(3) by (auto simp: pickup_candidate_def item_moved_def)
    show ?thesis
    proof (cases "fits p (subj_item t)")
      case True
      from TryPickupAt_takes [OF assms(1,3) u(1,2) n(1) Some it(3) ok True w'] n(1) w' t True m show ?thesis
        by blast
    next
      case False
      from TryPickupAt_full [OF assms(1,3) u(1,2) n(1) Some False w'] n(1) w' t False show ?thesis
        by (auto simp: nothing_moved_def)
    qed
  qed
qed

text \<open>Three potions on the tile of a player.\<close>

definition demo_loot_id :: ObjID where "demo_loot_id = mkObjID eItem 0"

definition demo_loot :: Subject where
  "demo_loot = (newSubject demo_loot_id (ItemB \<lparr>item_class = ConsumableItem, m_itemTableId = 1, m_count = 3,
     m_lootPriorityOwner = npos, m_OwnerID = npos, m_Name = ''potion''\<rparr>))
     \<lparr>m_x := 9, m_y := 9, m_sectorX := 0, m_sectorY := 0, m_zoneId := 0\<rparr>"

definition demo_looter :: Subject where
  "demo_looter = demo_guest\<lparr>m_x := 9, m_y := 9, m_sectorX := 0, m_sectorY := 0, m_zoneId := 0\<rparr>"

definition demo_ground :: World where
  "demo_ground = newWorld\<lparr>objects := [demo_guest_id \<mapsto> demo_looter, demo_loot_id \<mapsto> demo_loot],
     grids := zoneSector(0 := setObjects 0 0 {demo_guest_id, demo_loot_id} (zoneSector 0))\<rparr>"

lemma demo_loot_item: "hasCategory eItem demo_loot_id" "demo_loot_id \<noteq> demo_guest_id"
  "m_SubjID demo_loot = demo_loot_id" "item_ok npos (subj_item demo_loot)"
proof -
  show i: "hasCategory eItem demo_loot_id"
    by (simp add: demo_loot_id_def)
  then show "demo_loot_id \<noteq> demo_guest_id"
    using demo_lobby_ok(3) by (auto dest: hasCategory_unique)
  show "m_SubjID demo_loot = demo_loot_id" "item_ok npos (subj_item demo_loot)"
    by (simp_all add: demo_loot_def newSubject_def item_ok_def isEquipment_def ItemTable_Find_def kRows_def)
qed

lemma demo_ground_ok: "world_ok demo_ground"
proof -
  have n: "world_ok newWorld" "nextFieldItemId newWorld = 1" "grids newWorld = zoneSector"
    using newWorld_ok by (simp_all add: okn_def ok_def newWorld_def)
  have g: "subject_ok 1 demo_guest_id demo_looter"
    using new_user_ok [OF demo_lobby_ok(3), of 1 1 "''ann''"]
    by (simp add: demo_looter_def demo_guest_def subject_ok_def in_short_def)
  have "subject_ok 1 demo_loot_id demo_loot"
    using demo_loot_item by (simp add: subject_ok_def body_ok_def in_short_def demo_loot_def newSubject_def demo_loot_id_def)
  with n g show ?thesis
    by (auto simp: world_ok_def demo_ground_def grid_of_def setObjects_def)
qed

lemma neighbor_in_cell:
  assumes "zone_thread th" "grid_of (t_zone th) (grids w (t_zone th))" "\<forall>c. finite (cell (grids w (t_zone th)) c)"
    and "IsValidSector (grids w (t_zone th)) (m_sectorX s) (m_sectorY s)"
    and "j \<in> cell (grids w (t_zone th)) (m_sectorX s, m_sectorY s)" "objects w j = Some t"
    and "ForEachNeighborObject th w s = Some near"
  shows "t \<in> set near"
proof -
  let ?g = "grids w (t_zone th)"
  have o: "set_traversal (t_ord th)"
    using assms(1) by (simp add: zone_thread_def thread_ok_def)
  have "(m_sectorX s, m_sectorY s) \<in> set (window ?g (m_sectorX s) (m_sectorY s))"
    using set_window [OF assms(2,4)] assms(4) by simp
  with assms(5) have "j \<in> set (ForEachNeighborObjID (t_ord th) ?g (m_sectorX s) (m_sectorY s))"
    unfolding set_traversal.set_neighbors [OF o assms(3,4)] by blast
  moreover have "near = List.map_filter (GetSubject w) (ForEachNeighborObjID (t_ord th) ?g (m_sectorX s) (m_sectorY s))"
    using assms(1,7) by (simp add: ForEachNeighborObject_def grid_def zone_thread_def set_traversal.collect_neighbors [OF o])
  ultimately show ?thesis
    using assms(6) by (auto simp: List.map_filter_def GetSubject_eq intro!: image_eqI [of _ _ j])
qed

theorem pickup_conserves_witness:
  "\<exists>w'. TryPickupAt (demo_thread 0) demo_guest_id demo_ground = Some w' \<and>
     item_moved demo_guest_id demo_looter demo_loot demo_ground w'"
proof -
  note t = demo_zone_thread(1) [OF demo_zones(1)]
  have p: "objects demo_ground demo_guest_id = Some demo_looter" "objects demo_ground demo_loot_id = Some demo_loot"
    "\<And>i s. objects demo_ground i = Some s \<Longrightarrow> hasCategory eItem i \<Longrightarrow> s = demo_loot"
    using demo_loot_item(2) demo_lobby_ok(3) by (auto simp: demo_ground_def split: if_splits dest: hasCategory_unique)
  obtain near w' where n: "ForEachNeighborObject (demo_thread 0) demo_ground demo_looter = Some near"
    "TryPickupAt (demo_thread 0) demo_guest_id demo_ground = Some w'" and
    c: "(\<exists>t \<in> set near. pickup_candidate demo_looter t \<and> fits demo_looter (subj_item t) \<and>
         item_moved demo_guest_id demo_looter t demo_ground w') \<or>
     ((\<forall>t \<in> set near. \<not> pickup_candidate demo_looter t) \<or>
      (\<exists>t \<in> set near. pickup_candidate demo_looter t \<and> \<not> fits demo_looter (subj_item t))) \<and> nothing_moved demo_ground w'"
    using pickup_conserves [OF t demo_ground_ok p(1) demo_lobby_ok(3)] by blast
  have ok0: "okn {} (nextFieldItemId demo_ground) demo_ground"
    using demo_ground_ok by (simp add: okn_def ok_def)
  have g: "grid_of 0 (grids demo_ground 0)"
    using demo_ground_ok demo_zones(1) by (simp add: world_ok_def)
  have e: "cell (grids demo_ground 0) c = (if c = (0, 0) then {demo_guest_id, demo_loot_id} else {})" for c
    by (simp add: demo_ground_def cell_setObjects zoneSector_def)
  have "IsValidSector (grids demo_ground 0) (m_sectorX demo_looter) (m_sectorY demo_looter)"
    using grid_of_offsets [OF g] zoneSector_offsets [OF demo_zones(1)] g
    by (simp add: IsValidSector_def demo_looter_def grid_of_def kLocalWidth_def kLocalHeight_def zone_consts)
  then have "demo_loot \<in> set near"
    using neighbor_in_cell [OF t, unfolded demo_zone_thread(2), OF g _ _ _ p(2) n(1)] e
    by (simp add: demo_looter_def)
  moreover have "pickup_candidate demo_looter demo_loot"
    using demo_loot_item by (simp add: pickup_candidate_def demo_looter_def demo_loot_def newSubject_def)
  moreover have "m_slots (subj_user demo_looter) = Map.empty"
    by (simp add: demo_looter_def demo_guest_def User_InitInstance_def newSubject_def)
  then have "fits demo_looter (subj_item demo_loot)"
    by (simp add: fits_def demo_loot_def newSubject_def ItemTable_Find_def kRows_def inv_capacity_def room_in_def slot_indices_def
        o_def sum_list_triv)
  moreover have "t = demo_loot" if "t \<in> set near" "pickup_candidate demo_looter t" for t
    using that p(3) [of "m_SubjID t" t] wp_Neighbors [OF t ok0, of demo_looter] n(1) by (simp add: pickup_candidate_def)
  ultimately show ?thesis
    using n(2) c by blast
qed

end
