(* ===== verification/SessionProps.thy ===== *)
theory SessionProps
  imports ZoneProps
begin

text \<open>Properties of the two ends of a session in the game: entering the world and leaving it.\<close>

subsection \<open>Entering\<close>

text \<open>C15. A new player enters the game when his zone thread runs the answer of the database: he stands on
  a free tile of that zone, in exactly the cell of his position, alive, with the name and the player
  number of his account and an empty inventory; his session is in the game, owned by him and routed
  to that zone, and no queue has changed.\<close>

theorem new_player_enters:
  assumes "zone_thread th" "world_ok w" "cs_state (sessions w sid) = ST_ALLOC" "objects w (login_id w sid) = None"
    "\<forall>c. login_id w sid \<notin> cell (grids w (t_zone th)) c"
  shows "\<exists>w' s. run_task th (TAddUserInfo sid info) w = Some w' \<and> placed w' (t_zone th) (login_id w sid) \<and>
    cs_state (sessions w' sid) = ST_INGAME \<and> GetOwner w' sid = Some (login_id w sid) \<and>
    cs_routing (sessions w' sid) = t_zone th \<and> objects w' (login_id w sid) = Some s \<and> GetSession s = Some sid \<and>
    m_SubjName s = ui_name info \<and> m_playerId (subj_user s) = ui_playerId info \<and> m_slots (subj_user s) = Map.empty \<and>
    \<not> m_die (subj_stat s) \<and> \<not> isCollision (m_x s) (m_y s) \<and>
    (\<forall>z. zone_pending (zmgr w') z = zone_pending (zmgr w) z)"
proof -
  have "okn {} (nextFieldItemId w) w"
    using assms(2) by (simp add: okn_def ok_def)
  from HandleAddUserInfo_enters [OF assms(1) this assms(3-5), of info] show ?thesis
    by (elim exE conjE, intro exI conjI) (assumption | simp add: GetOwner_def GetUser_def GetSession_def login_id_def)+
qed

text \<open>A world with one accepted session and nobody in it.\<close>

definition demo_accepted :: World where
  "demo_accepted = newWorld\<lparr>sessions := (sessions newWorld)(0 := (newClientSession 1)\<lparr>cs_open := True, cs_state := ST_ALLOC\<rparr>)\<rparr>"

theorem new_player_enters_witness:
  "\<exists>w' s. run_task (demo_thread 1) (TAddUserInfo 0 default_user_info) demo_accepted = Some w' \<and>
     objects w' (login_id demo_accepted 0) = Some s \<and> placed w' 1 (login_id demo_accepted 0)"
proof -
  have "world_ok demo_accepted"
    using newWorld_ok by (auto simp: demo_accepted_def okn_def ok_def world_ok_def)
  moreover have "cs_state (sessions demo_accepted 0) = ST_ALLOC" "objects demo_accepted (login_id demo_accepted 0) = None"
    "\<forall>c. login_id demo_accepted 0 \<notin> cell (grids demo_accepted (t_zone (demo_thread 1))) c"
    by (simp_all add: demo_accepted_def newWorld_def zoneSector_def)
  ultimately show ?thesis
    using new_player_enters [OF demo_zone_thread(1) [OF demo_zones(2)], of demo_accepted 0 default_user_info]
      demo_zone_thread(2) by auto
qed

subsection \<open>Leaving\<close>

lemma world_RemoveObject_frame:
  "world_RemoveObject th i w = Some w' \<Longrightarrow> dbRequests w' = dbRequests w \<and> registry w' = registry w"
  by (auto simp: world_RemoveObject_def bind_eq_Some_conv upd_obj_def set_grid_def)

lemma others_same_cells:
  assumes "others_same z i w w'" "\<forall>c. i \<notin> cell (grids w' z) c"
  shows "cell (grids w' z) c = cell (grids w z) c - {i}"
proof (rule set_eqI)
  fix j
  show "j \<in> cell (grids w' z) c \<longleftrightarrow> j \<in> cell (grids w z) c - {i}"
    using assms unfolding others_same_def by (cases "j = i") blast+
qed

lemma SaveUserInfo_saves:
  assumes th: "thread_ok th" and s: "objects w i = Some s" "hasCategory eUser i" "m_SubjID s = i"
  shows "\<exists>w' x y. UserHelper_SaveUserInfo th i w = Some w' \<and> IsFreePosition x y \<and>
    (IsFreePosition (m_x s) (m_y s) \<longrightarrow> x = m_x s \<and> y = m_y s) \<and>
    w' = w\<lparr>ticks := ticks w', dbRequests := dbRequests w @ [DbSaveUser i (m_SubjName s) x y (m_level (subj_stat s)) (m_exp (subj_stat s))]\<rparr>"
proof (cases "IsFreePosition (m_x s) (m_y s)")
  case True
  then show ?thesis
    using s by (simp add: UserHelper_SaveUserInfo_def GetUser_def QueueUserSave_def)
next
  case False
  obtain x y n where r: "random_tile th 0 (W_WIDTH - 1) 0 (W_HEIGHT - 1) (ticks w) = Some (x, y, n)"
    "0 \<le> x" "x \<le> W_WIDTH - 1" "0 \<le> y" "y \<le> W_HEIGHT - 1" "\<not> isCollision x y"
    using random_tile_world [OF th, of 0 "W_WIDTH - 1" 0 "W_HEIGHT - 1" "ticks w"]
    by (auto simp: world_consts elim!: wpE)
  then have "IsFreePosition x y"
    by (simp add: IsFreePosition_def short_of_id world_consts)
  with False r s show ?thesis
    by (auto simp: UserHelper_SaveUserInfo_def GetUser_def QueueUserSave_def FindRandomValidPosition_def)
qed

text \<open>C14. When a zone thread handles the end of a session of a player that stands in its zone, nothing of
  him stays behind: he is in no cell of the grid, not in the object table and not in the zone table;
  his session is closed and released; exactly one save is queued, with his level, his experience
  and his position when that is a free tile and some free tile otherwise; every other object, cell
  and zone entry is as before.\<close>

theorem disconnect_complete:
  assumes "zone_thread th" "world_ok w" "hasCategory eUser i" "objects w i = Some s" "placed w (t_zone th) i"
    "\<not> m_transferring s"
  shows "\<exists>w' x y. run_task th (TDisconnect i) w = Some w' \<and> objects w' = (objects w)(i := None) \<and>
    (\<forall>c. cell (grids w' (t_zone th)) c = cell (grids w (t_zone th)) c - {i}) \<and>
    objectZones (zmgr w') = (objectZones (zmgr w))(i := None) \<and>
    (\<forall>sid. GetSession s = Some sid \<longrightarrow> \<not> cs_open (sessions w' sid) \<and> FindSession w' sid = None) \<and>
    IsFreePosition x y \<and> (IsFreePosition (m_x s) (m_y s) \<longrightarrow> x = m_x s \<and> y = m_y s) \<and>
    dbRequests w' = dbRequests w @ [DbSaveUser i (m_SubjName s) x y (m_level (subj_stat s)) (m_exp (subj_stat s))]"
proof -
  let ?z = "t_zone th"
  have g: "grid_of ?z (grids w ?z)" and t: "thread_ok th" and n: "okn {} (nextFieldItemId w) w"
    and id: "m_SubjID s = i"
    using assms(1,2,4) by (auto simp: zone_thread_def world_ok_def okn_def ok_def dest: subject_ok_kind(1))
  obtain near where near: "ForEachNeighborObject th w s = Some near"
    using wp_Neighbors [OF assms(1) n, of s] by (auto elim: wpE)
  let ?f = "\<lambda>subject w. if m_SubjID subject = i then w else if \<not> hasCategory eUser (m_SubjID subject) then w
     else if \<not> in_game w subject then w else if \<not> CanSee subject s then w else SendSUBJECT_REMOVE_NFY subject i w"
  let ?w1 = "fold ?f near w"
  have "sent w ?w1"
    by (rule sent_fold) (simp add: send_defs sent_send)
  note q = sentD [OF this]
  have p1: "placed ?w1 ?z i" "objects ?w1 i = Some s" "grid_of ?z (grids ?w1 ?z)"
    using assms(4,5) g q by (simp_all add: placed_def)
  from world_RemoveObject_placed [OF assms(1) p1(3,1,2)] obtain w2 where
    w2: "world_RemoveObject th i ?w1 = Some w2" "objects w2 i = Some (s\<lparr>m_sectorX := -1, m_sectorY := -1\<rparr>)"
    "\<forall>c. i \<notin> cell (grids w2 ?z) c" "others_same ?z i ?w1 w2" "zmgr w2 = zmgr ?w1"
    by blast
  from SaveUserInfo_saves [OF t w2(2) assms(3)] id obtain w3 x y where
    w3: "UserHelper_SaveUserInfo th i w2 = Some w3" "IsFreePosition x y"
    "IsFreePosition (m_x s) (m_y s) \<longrightarrow> x = m_x s \<and> y = m_y s"
    "w3 = w2\<lparr>ticks := ticks w3, dbRequests := dbRequests w2 @ [DbSaveUser i (m_SubjName s) x y (m_level (subj_stat s)) (m_exp (subj_stat s))]\<rparr>"
    by auto
  define w4 where "w4 = (case GetSession s of None \<Rightarrow> w3 | Some sid \<Rightarrow> ReleaseSession sid (CloseSession sid w3))"
  have o3: "objects w3 = objects w2" "grids w3 = grids w2" "zmgr w3 = zmgr w" "dbRequests w3 = dbRequests w @
      [DbSaveUser i (m_SubjName s) x y (m_level (subj_stat s)) (m_exp (subj_stat s))]"
    by (subst w3(4), use w2(5) q world_RemoveObject_frame [OF w2(1)] in simp)+
  have o4: "objects w4 = objects w3" "grids w4 = grids w3" "zmgr w4 = zmgr w3" "dbRequests w4 = dbRequests w3"
    "\<forall>sid. GetSession s = Some sid \<longrightarrow> \<not> cs_open (sessions w4 sid) \<and> FindSession w4 sid = None"
    by (simp_all add: w4_def ReleaseSession_def CloseSession_def upd_session_def FindSession_def split: option.split)
  have "run_task th (TDisconnect i) w = Some ((Delete i w4)\<lparr>zmgr := zm_RemoveObject i (zmgr w4)\<rparr>)"
    using assms(3,4,6) near w2(1) w3(1)
    by (simp add: Disconnect_def GetUser_def Let_def w4_def Delete_def)
  moreover have "objects w4 j = objects w j" if "j \<noteq> i" for j
    using w2(4) that q by (simp add: others_same_def o3 o4)
  then have "objects (Delete i w4) = (objects w)(i := None)"
    by (auto simp: Delete_def)
  moreover have "cell (grids w4 ?z) c = cell (grids w ?z) c - {i}" for c
    using others_same_cells [OF w2(4,3), of c] by (simp only: q(2) o3(2) o4(2))
  ultimately show ?thesis
    using w3(2,3) o3 o4 by (intro exI conjI) (assumption | simp add: Delete_def zm_RemoveObject_def FindSession_def)+
qed

theorem disconnect_complete_witness:
  "\<exists>w w'. placed w 0 demo_guest_id \<and> run_task (demo_thread 0) (TDisconnect demo_guest_id) w = Some w' \<and>
     objects w' demo_guest_id = None \<and> GetObjectZone (zmgr w') demo_guest_id = InvalidZoneId"
proof -
  obtain w s where w: "world_ok w" "placed w 0 demo_guest_id" "objects w demo_guest_id = Some s" "\<not> m_transferring s"
    using demo_placed by blast
  then show ?thesis
    using disconnect_complete [OF demo_zone_thread(1) [OF demo_zones(1)] w(1) demo_lobby_ok(3) w(3) _ w(4)]
      demo_zone_thread(2) by (auto simp: GetObjectZone_def)
qed

end
