(* ===== verification/DbPools.thy ===== *)
theory DbPools
  imports DbThreads
begin

text \<open>
  The pool of database connections: \<^verbatim>\<open>Core/DBConnectionPool.cpp\<close>, and \<^verbatim>\<open>ScopedDBConnection\<close> of
  \<^verbatim>\<open>Thread/DBThread.cpp\<close>, by which a database worker holds a connection while it processes an event.
  Connections are numbered in the order of their creation.  The locale \<open>resource_pool\<close> is what the
  workers rely on: a pool is a multiset of resources from which \<^verbatim>\<open>Pop\<close> takes one, waiting while there is
  none, and to which \<^verbatim>\<open>Push\<close> gives one back.
\<close>

record DBConnectionPool =
  p_idleConnections :: "nat list"
  p_ownedConnections :: "nat list"

definition newDBConnectionPool :: DBConnectionPool where
  "newDBConnectionPool = \<lparr>p_idleConnections = [], p_ownedConnections = []\<rparr>"

text \<open>The loop of \<^verbatim>\<open>Connect\<close>; \<open>ok i\<close> is the result of \<^verbatim>\<open>DBConnection::Connect\<close> of connection \<open>i\<close>.\<close>

fun connect_loop :: "(nat \<Rightarrow> bool) \<Rightarrow> nat list \<Rightarrow> nat list \<Rightarrow> nat list option" where
  "connect_loop ok [] newConnections = Some newConnections"
| "connect_loop ok (i # is) newConnections =
     (if \<not> ok i then None else connect_loop ok is (newConnections @ [i]))"

definition pool_Connect :: "(nat \<Rightarrow> bool) \<Rightarrow> nat \<Rightarrow> DBConnectionPool \<Rightarrow> bool \<times> DBConnectionPool" where
  "pool_Connect ok connectionCount p =
     (let start = length (p_ownedConnections p)
      in case connect_loop ok [start..<start + connectionCount] [] of
           None \<Rightarrow> (False, p)
         | Some newConnections \<Rightarrow>
             (True, p\<lparr>p_idleConnections := p_idleConnections p @ newConnections,
                      p_ownedConnections := p_ownedConnections p @ newConnections\<rparr>))"

definition pool_Clear :: "DBConnectionPool \<Rightarrow> DBConnectionPool" where
  "pool_Clear p = p\<lparr>p_idleConnections := [], p_ownedConnections := []\<rparr>"

text \<open>\<open>None\<close>: the caller waits on the condition variable.\<close>

definition pool_Pop :: "DBConnectionPool \<Rightarrow> (nat \<times> DBConnectionPool) option" where
  "pool_Pop p =
     (if p_idleConnections p = [] then None
      else Some (last (p_idleConnections p), p\<lparr>p_idleConnections := butlast (p_idleConnections p)\<rparr>))"

definition pool_Push :: "nat \<Rightarrow> DBConnectionPool \<Rightarrow> DBConnectionPool" where
  "pool_Push connection p = p\<lparr>p_idleConnections := p_idleConnections p @ [connection]\<rparr>"

text \<open>\<^verbatim>\<open>main\<close> connects one connection per shard and ignores the result.\<close>

definition main_Connect :: "(nat \<Rightarrow> bool) \<Rightarrow> DBConnectionPool" where
  "main_Connect ok = snd (pool_Connect ok kShardCount newDBConnectionPool)"

subsection \<open>The workers as clients of the pool\<close>

datatype PoolAction = BeginEvent nat | EndEvent nat

text \<open>Construction and destruction of a \<^verbatim>\<open>ScopedDBConnection\<close> by the worker of a shard; a worker that
  has to wait stays where it is.\<close>

fun scoped_step :: "PoolAction \<Rightarrow> DBConnectionPool \<times> (nat \<rightharpoonup> nat) \<Rightarrow> DBConnectionPool \<times> (nat \<rightharpoonup> nat)" where
  "scoped_step (BeginEvent k) (p, held) =
     (if k < kShardCount \<and> held k = None
      then (case pool_Pop p of None \<Rightarrow> (p, held) | Some (c, p) \<Rightarrow> (p, held(k \<mapsto> c)))
      else (p, held))"
| "scoped_step (EndEvent k) (p, held) =
     (case held k of None \<Rightarrow> (p, held) | Some c \<Rightarrow> (pool_Push c p, held(k := None)))"

definition scoped_run :: "PoolAction list \<Rightarrow> DBConnectionPool \<times> (nat \<rightharpoonup> nat) \<Rightarrow> DBConnectionPool \<times> (nat \<rightharpoonup> nat)" where
  "scoped_run = fold scoped_step"

definition held_mset :: "('k \<rightharpoonup> 'c) \<Rightarrow> 'c multiset" where
  "held_mset held = image_mset (\<lambda>k. the (held k)) (mset_set (dom held))"

lemma held_mset_empty [simp]: "held_mset Map.empty = {#}"
  by (simp add: held_mset_def)

lemma held_mset_upd: "finite (dom h) \<Longrightarrow> h k = None \<Longrightarrow> held_mset (h(k \<mapsto> c)) = add_mset c (held_mset h)"
  by (auto simp: held_mset_def domIff intro!: image_mset_cong)

lemma held_mset_none: "finite (dom h) \<Longrightarrow> h k = Some c \<Longrightarrow> add_mset c (held_mset (h(k := None))) = held_mset h"
  using held_mset_upd [of "h(k := None)" k c] by (simp add: map_upd_triv)

lemma size_held_mset [simp]: "size (held_mset h) = card (dom h)"
  by (simp add: held_mset_def)

lemma held_mset_inj:
  assumes "finite (dom h)" "h j = Some c" "h k = Some c" "j \<noteq> k"
  shows "{#c, c#} \<subseteq># held_mset h"
proof -
  have "held_mset h = add_mset c (held_mset (h(j := None)))"
    using held_mset_none [OF assms(1,2)] by simp
  also have "held_mset (h(j := None)) = add_mset c (held_mset (h(j := None, k := None)))"
    using held_mset_none [of "h(j := None)" k c] assms by simp
  finally show ?thesis
    by simp
qed

locale resource_pool =
  fixes pop :: "'p \<Rightarrow> ('c \<times> 'p) option"
    and push :: "'c \<Rightarrow> 'p \<Rightarrow> 'p"
    and idle :: "'p \<Rightarrow> 'c multiset"
  assumes pop_none: "pop p = None \<longleftrightarrow> idle p = {#}"
    and pop_some: "pop p = Some (c, p') \<Longrightarrow> idle p = add_mset c (idle p')"
    and push_idle: "idle (push c p) = add_mset c (idle p)"
begin

lemma pop_conserves:
  "pop p = Some (c, p') \<Longrightarrow> finite (dom h) \<Longrightarrow> h k = None \<Longrightarrow> idle p' + held_mset (h(k \<mapsto> c)) = idle p + held_mset h"
  by (simp add: held_mset_upd pop_some)

lemma push_conserves:
  "finite (dom h) \<Longrightarrow> h k = Some c \<Longrightarrow> idle (push c p) + held_mset (h(k := None)) = idle p + held_mset h"
  using held_mset_none [of h k c] by (simp add: push_idle)

lemma pop_ready:
  assumes "card (dom h) < size (idle p + held_mset h)"
  shows "pop p \<noteq> None"
  using assms by (auto simp: pop_none)

lemma exclusive:
  assumes "idle p + held_mset h = mset owned" "distinct owned" "finite (dom h)" "h j = Some c" "h k = Some c"
  shows "j = k"
proof (rule ccontr)
  assume "j \<noteq> k"
  from held_mset_inj [OF assms(3-5) this] have "{#c, c#} \<subseteq># mset owned"
    using assms(1) by (metis mset_subset_eq_add_right subset_mset.order_trans)
  then have "2 \<le> Multiset.count (mset owned) c"
    using mset_subset_eq_count [of "{#c, c#}" "mset owned" c] by simp
  then show False
    using assms(2) by (simp add: distinct_count_atmost_1 split: if_splits)
qed

end

interpretation conn: resource_pool pool_Pop pool_Push "\<lambda>p. mset (p_idleConnections p)"
proof (unfold_locales, goal_cases)
  case (2 p c p')
  then have "p_idleConnections p = p_idleConnections p' @ [c]"
    by (auto simp: pool_Pop_def split: if_splits)
  then show ?case
    by simp
qed (simp_all add: pool_Pop_def pool_Push_def)

subsection \<open>The invariant of the runs\<close>

definition scoped_inv :: "nat list \<Rightarrow> DBConnectionPool \<times> (nat \<rightharpoonup> nat) \<Rightarrow> bool" where
  "scoped_inv owned s \<longleftrightarrow> dom (snd s) \<subseteq> {..<kShardCount} \<and>
     mset (p_idleConnections (fst s)) + held_mset (snd s) = mset owned"

lemma scoped_inv_finite: "scoped_inv owned s \<Longrightarrow> finite (dom (snd s))"
  by (auto simp: scoped_inv_def intro: finite_subset)

lemma scoped_inv_step:
  assumes "scoped_inv owned s"
  shows "scoped_inv owned (scoped_step a s)"
proof -
  obtain p h where s: "s = (p, h)"
    by (cases s)
  have i: "dom h \<subseteq> {..<kShardCount}" "mset (p_idleConnections p) + held_mset h = mset owned" "finite (dom h)"
    using assms scoped_inv_finite [OF assms] by (simp_all add: scoped_inv_def s)
  show ?thesis
  proof (cases a)
    case (BeginEvent k)
    then show ?thesis
      using i conn.pop_conserves [of p _ _ h k] by (auto simp: scoped_inv_def s split: option.split)
  next
    case (EndEvent k)
    then show ?thesis
      using i conn.push_conserves [of h k _ p] by (auto simp: scoped_inv_def s split: option.split)
  qed
qed

lemma scoped_inv_run: "scoped_inv owned s \<Longrightarrow> scoped_inv owned (scoped_run acts s)"
proof (induction acts arbitrary: s)
  case (Cons a acts)
  from Cons.IH [OF scoped_inv_step [OF Cons.prems]] show ?case
    by (simp add: scoped_run_def)
qed (simp add: scoped_run_def)

lemma connect_loop_all: "connect_loop ok is acc = (if \<forall>i \<in> set is. ok i then Some (acc @ is) else None)"
  by (induction "is" arbitrary: acc) auto

lemma main_Connect_eq:
  "main_Connect ok = (if \<forall>i<kShardCount. ok i
     then \<lparr>p_idleConnections = [0..<kShardCount], p_ownedConnections = [0..<kShardCount]\<rparr> else newDBConnectionPool)"
  by (auto simp: main_Connect_def pool_Connect_def connect_loop_all newDBConnectionPool_def)

lemma scoped_inv_start:
  "\<forall>i<kShardCount. ok i \<Longrightarrow> scoped_inv [0..<kShardCount] (main_Connect ok, Map.empty)"
  by (simp add: scoped_inv_def main_Connect_eq)

lemma starved_step: "scoped_step a (newDBConnectionPool, Map.empty) = (newDBConnectionPool, Map.empty)"
  by (cases a) (simp_all add: pool_Pop_def newDBConnectionPool_def)

lemma starved_run: "scoped_run acts (newDBConnectionPool, Map.empty) = (newDBConnectionPool, Map.empty)"
  by (induction acts) (simp_all add: scoped_run_def starved_step)

subsection \<open>Properties\<close>

text \<open>C27. With every connection up, however the eight database workers begin and end their events, no two
  of them ever use the same connection, every connection is either idle or held by one worker, and a
  worker that begins an event never waits for a connection.\<close>

theorem pool_serves_workers:
  assumes "\<forall>i<kShardCount. ok i" "scoped_run acts (main_Connect ok, Map.empty) = (p, held)"
  shows "(\<forall>j k c. held j = Some c \<longrightarrow> held k = Some c \<longrightarrow> j = k) \<and>
    mset (p_idleConnections p) + held_mset held = mset [0..<kShardCount] \<and>
    (\<forall>k<kShardCount. held k = None \<longrightarrow> (\<exists>c. snd (scoped_step (BeginEvent k) (p, held)) k = Some c))"
proof -
  have i: "scoped_inv [0..<kShardCount] (p, held)"
    using scoped_inv_run [OF scoped_inv_start [OF assms(1)], of acts] assms(2) by simp
  then have e: "dom held \<subseteq> {..<kShardCount}" "mset (p_idleConnections p) + held_mset held = mset [0..<kShardCount]"
    by (simp_all add: scoped_inv_def)
  have f: "finite (dom held)"
    using scoped_inv_finite [OF i] by simp
  have "pool_Pop p \<noteq> None" if "k < kShardCount" "held k = None" for k
  proof (rule conn.pop_ready)
    have "dom held \<subset> {..<kShardCount}"
      using e(1) that by auto
    then have "card (dom held) < kShardCount"
      using psubset_card_mono [of "{..<kShardCount}" "dom held"] by simp
    then show "card (dom held) < size (mset (p_idleConnections p) + held_mset held)"
      unfolding e(2) by simp
  qed
  then have "\<exists>c. snd (scoped_step (BeginEvent k) (p, held)) k = Some c" if "k < kShardCount" "held k = None" for k
    using that by (cases "pool_Pop p") auto
  moreover have "\<forall>j k c. held j = Some c \<longrightarrow> held k = Some c \<longrightarrow> j = k"
    using conn.exclusive [OF e(2) distinct_upt f] by blast
  ultimately show ?thesis
    using e(2) by blast
qed

theorem pool_serves_workers_witness:
  "\<exists>c. snd (scoped_step (BeginEvent 5) (scoped_run [BeginEvent 2, BeginEvent 7, EndEvent 2] (main_Connect (\<lambda>_. True), Map.empty))) 5 = Some c"
proof -
  obtain p h where s: "scoped_run [BeginEvent 2, BeginEvent 7, EndEvent 2] (main_Connect (\<lambda>_. True), Map.empty) = (p, h)"
    by fastforce
  then have "h 5 = None"
    by (auto simp: scoped_run_def main_Connect_eq kShardCount_def pool_Pop_def pool_Push_def upt_rec)
  then show ?thesis
    using pool_serves_workers [OF _ s] by (simp add: s kShardCount_def del: scoped_step.simps)
qed

text \<open>C32. When one connection cannot be opened, \<^verbatim>\<open>Connect\<close> keeps none of the others and \<^verbatim>\<open>main\<close> goes on
  without looking at the result: every database worker then waits for ever, so no login is answered
  and nothing is saved.\<close>

theorem failed_connect_starves:
  assumes "i < kShardCount" "\<not> ok i"
  shows "fst (pool_Connect ok kShardCount newDBConnectionPool) = False \<and>
    scoped_run acts (main_Connect ok, Map.empty) = (newDBConnectionPool, Map.empty)"
proof -
  have n: "\<not> (\<forall>i<kShardCount. ok i)"
    using assms by blast
  then have "main_Connect ok = newDBConnectionPool"
    by (subst main_Connect_eq) (rule if_not_P)
  then show ?thesis
    using n starved_run by (auto simp: pool_Connect_def connect_loop_all newDBConnectionPool_def)
qed

theorem failed_connect_starves_witness:
  "fst (pool_Connect (\<lambda>i. i \<noteq> 7) kShardCount newDBConnectionPool) = False \<and>
   scoped_run [BeginEvent 0, BeginEvent 3] (main_Connect (\<lambda>i. i \<noteq> 7), Map.empty) = (newDBConnectionPool, Map.empty)"
  by (rule failed_connect_starves [of 7]) (simp_all add: kShardCount_def)

end
