(* ===== verification/ServerReads.thy ===== *)
theory ServerReads
  imports Streams
begin

text \<open>
  How the game client and the load generator read the packets of the server: they cast the buffer to
  the structure that the type byte names, so a field is the bytes at its offset, whatever follows the
  packet in the buffer.  \<open>decode_server\<close> is the common part of the two switches over the type byte;
  \<open>as_read\<close> is a packet as its fields come out again, with strings cut to their arrays and the slot
  list filled up.  The decimal printing at the end is shared by the two programs as well.
\<close>

unbundle bit_operations_syntax

definition rd64 :: "uint8 list \<Rightarrow> nat \<Rightarrow> uint64" where
  "rd64 b i = ucast (rd32 b i) OR push_bit 32 (ucast (rd32 b (i + 4)))"

definition rd_ObjID :: "uint8 list \<Rightarrow> nat \<Rightarrow> ObjID" where
  "rd_ObjID b i = ObjID (rd64 b i) (rd64 b (i + 8))"

definition rd_int32 :: "uint8 list \<Rightarrow> nat \<Rightarrow> int" where
  "rd_int32 b i = sint (rd32 b i)"

definition rd_slot :: "uint8 list \<Rightarrow> nat \<Rightarrow> ITEM_SLOT_DATA" where
  "rd_slot b i = \<lparr>sd_slotIndex = rd16 b i, sd_itemId = rd16 b (i + 2), sd_count = rd16 b (i + 4),
     sd_equipped = b ! (i + 6)\<rparr>"

definition rd_slots :: "uint8 list \<Rightarrow> nat \<Rightarrow> ITEM_SLOT_DATA list" where
  "rd_slots b i = map (\<lambda>k. rd_slot b (i + 7 * k)) [0..<ITEM_LIST_SLOTS]"

definition decode_server :: "uint8 list \<Rightarrow> ServerPacket option" where
  "decode_server b =
     (let t = b ! 2 in
      if t = type_val USER_LOGIN_ACK
        then Some (USER_LOGIN_ACK_PACKET (rd_ObjID b 3) (rd_short b 19) (rd_short b 21) (rd16 b 23) (rd16 b 25)
          (b ! 27) (rd32 b 28))
      else if t = type_val USER_LOGIN_FAIL_ACK then Some USER_LOGIN_FAIL_ACK_PACKET
      else if t = type_val USER_ATTACK_ACK
        then Some (USER_ATTACK_ACK_PACKET (rd_ObjID b 3) (rd_int32 b 19) (rd_int32 b 23))
      else if t = type_val ITEM_LIST_ACK then Some (ITEM_LIST_ACK_PACKET (b ! 3) (rd_slots b 4))
      else if t = type_val ITEM_EQUIP_ACK then Some (ITEM_EQUIP_ACK_PACKET (b ! 3 \<noteq> 0) (rd_slot b 4))
      else if t = type_val ITEM_UNEQUIP_ACK then Some (ITEM_UNEQUIP_ACK_PACKET (b ! 3 \<noteq> 0) (rd_slot b 4))
      else if t = type_val ITEM_SWAP_ACK then Some (ITEM_SWAP_ACK_PACKET (b ! 3 \<noteq> 0) (rd_slot b 4) (rd_slot b 11))
      else if t = type_val ITEM_DISCARD_ACK then Some (ITEM_DISCARD_ACK_PACKET (b ! 3 \<noteq> 0) (rd_slot b 4))
      else if t = type_val ITEM_PICKUP_ACK then Some (ITEM_PICKUP_ACK_PACKET (b ! 3 \<noteq> 0))
      else if t = type_val ITEM_USE_ACK then Some (ITEM_USE_ACK_PACKET (b ! 3 \<noteq> 0) (rd_slot b 4))
      else if t = type_val SUBJECT_ADD_NFY
        then Some (SUBJECT_ADD_NFY_PACKET (b ! 3) (rd_ObjID b 4) (rd_short b 20) (rd_short b 22)
          (rd_string b 24 NAME_SIZE) (rd16 b 44))
      else if t = type_val SUBJECT_MOVE_NFY
        then Some (SUBJECT_MOVE_NFY_PACKET (rd_ObjID b 3) (rd_short b 19) (rd_short b 21) (rd32 b 23))
      else if t = type_val SUBJECT_REMOVE_NFY then Some (SUBJECT_REMOVE_NFY_PACKET (rd_ObjID b 3))
      else if t = type_val SUBJECT_DIE_NFY then Some (SUBJECT_DIE_NFY_PACKET (rd_ObjID b 3) (rd16 b 19))
      else if t = type_val SUBJECT_RESPAWN_NFY
        then Some (SUBJECT_RESPAWN_NFY_PACKET (b ! 3) (rd_ObjID b 4) (rd_short b 20) (rd_short b 22) (rd16 b 24)
          (rd_string b 26 NAME_SIZE))
      else if t = type_val SUBJECT_ATTACK_NFY
        then Some (SUBJECT_ATTACK_NFY_PACKET (rd_ObjID b 3) (rd_ObjID b 19) (rd_int32 b 35))
      else if t = type_val PLAYER_ATTACK_NFY then Some (PLAYER_ATTACK_NFY_PACKET (rd_ObjID b 3) (b ! 19))
      else if t = type_val SUBJECT_EQUIP_CHANGE_NFY
        then Some (SUBJECT_EQUIP_CHANGE_NFY_PACKET (rd_ObjID b 3) (rd16 b 19))
      else if t = type_val USER_HEAL_INF then Some (USER_HEAL_INF_PACKET (rd_int32 b 3))
      else if t = type_val USER_STAT_CHANGE_INF
        then Some (USER_STAT_CHANGE_INF_PACKET (b ! 3) (rd16 b 4) (rd16 b 6) (rd32 b 8))
      else if t = type_val ITEM_ACQUIRE_INF then Some (ITEM_ACQUIRE_INF_PACKET (rd_slot b 3))
      else if t = type_val SYSTEM_MESSAGE_INF
        then (if rd16 b 3 = code_val InventoryFull
              then Some (SYSTEM_MESSAGE_INF_PACKET InventoryFull (rd_int32 b 5) (rd_int32 b 9)) else None)
      else if t = type_val SC_CHAT then Some (SC_CHAT_PACKET (rd_ObjID b 3) (rd_string b 19 CHAT_SIZE))
      else None)"

fun as_read :: "ServerPacket \<Rightarrow> ServerPacket" where
  "as_read (ITEM_LIST_ACK_PACKET n ds) = ITEM_LIST_ACK_PACKET n (slot_array ds)"
| "as_read (SUBJECT_ADD_NFY_PACKET m i x y name item) =
     SUBJECT_ADD_NFY_PACKET m i x y (truncated NAME_SIZE name) item"
| "as_read (SUBJECT_RESPAWN_NFY_PACKET m i x y hp name) =
     SUBJECT_RESPAWN_NFY_PACKET m i x y hp (truncated NAME_SIZE name)"
| "as_read (SC_CHAT_PACKET i mess) = SC_CHAT_PACKET i (truncated CHAT_SIZE mess)"
| "as_read p = p"

text \<open>The numbers fit their fields and the strings hold no null character.\<close>

abbreviation short_ok :: "int \<Rightarrow> bool" where "short_ok x \<equiv> -32768 \<le> x \<and> x < 32768"
abbreviation int32_ok :: "int \<Rightarrow> bool" where "int32_ok x \<equiv> -2147483648 \<le> x \<and> x < 2147483648"

fun server_ok :: "ServerPacket \<Rightarrow> bool" where
  "server_ok (USER_LOGIN_ACK_PACKET i x y maxhp hp level ex) = (short_ok x \<and> short_ok y)"
| "server_ok (USER_ATTACK_ACK_PACKET i hp damage) = (int32_ok hp \<and> int32_ok damage)"
| "server_ok (SUBJECT_ADD_NFY_PACKET m i x y name item) = (short_ok x \<and> short_ok y \<and> c_string name)"
| "server_ok (SUBJECT_MOVE_NFY_PACKET i x y t) = (short_ok x \<and> short_ok y)"
| "server_ok (SUBJECT_RESPAWN_NFY_PACKET m i x y hp name) = (short_ok x \<and> short_ok y \<and> c_string name)"
| "server_ok (SUBJECT_ATTACK_NFY_PACKET v a hp) = int32_ok hp"
| "server_ok (USER_HEAL_INF_PACKET hp) = int32_ok hp"
| "server_ok (SYSTEM_MESSAGE_INF_PACKET c p q) = (int32_ok p \<and> int32_ok q)"
| "server_ok (SC_CHAT_PACKET i mess) = c_string mess"
| "server_ok p = True"

subsection \<open>Fields are read back at their offsets\<close>

named_theorems rd_skip \<open>reading past a field\<close>
named_theorems rd_here \<open>reading a field at its start\<close>

lemma rd16_skip [rd_skip]: "length xs \<le> n \<Longrightarrow> rd16 (xs @ ys) n = rd16 ys (n - length xs)"
  by (simp add: rd16_def nth_append Suc_diff_le)

lemma rd32_skip [rd_skip]: "length xs \<le> n \<Longrightarrow> rd32 (xs @ ys) n = rd32 ys (n - length xs)"
  by (simp add: rd32_def rd16_skip Suc_diff_le)

lemma rd_more_skip [rd_skip]:
  assumes "length xs \<le> n"
  shows "rd64 (xs @ ys) n = rd64 ys (n - length xs)" "rd_ObjID (xs @ ys) n = rd_ObjID ys (n - length xs)"
    "rd_int32 (xs @ ys) n = rd_int32 ys (n - length xs)" "rd_short (xs @ ys) n = rd_short ys (n - length xs)"
    "rd_slot (xs @ ys) n = rd_slot ys (n - length xs)" "rd_string (xs @ ys) n k = rd_string ys (n - length xs) k"
    "(xs @ ys) ! n = ys ! (n - length xs)"
  using assms by (simp_all add: rd64_def rd_ObjID_def rd_int32_def rd_short_def rd_slot_def rd_string_def
      rd16_skip rd32_skip nth_append Suc_diff_le)

lemma rd_cons_skip [rd_skip]:
  assumes "0 < n"
  shows "rd16 (a # ys) n = rd16 ys (n - 1)" "rd32 (a # ys) n = rd32 ys (n - 1)"
    "rd_ObjID (a # ys) n = rd_ObjID ys (n - 1)" "rd_short (a # ys) n = rd_short ys (n - 1)"
    "rd_slot (a # ys) n = rd_slot ys (n - 1)" "rd_string (a # ys) n k = rd_string ys (n - 1) k"
  using assms rd16_skip [of "[a]" n ys] rd32_skip [of "[a]" n ys] rd_more_skip [of "[a]" n ys] by simp_all

lemma rd_byte [rd_here]: "(a # ys) ! 0 = a"
  by simp

lemma rd16_here [rd_here]: "rd16 (le16 w @ ys) 0 = w"
  using rd16_at [of "[]" 0 w ys] by simp

lemma rd32_here [rd_here]: "rd32 (le32 w @ ys) 0 = w"
  using rd32_at [of "[]" 0 w ys] by simp

lemma rd64_here [rd_here]: "rd64 (le64 w @ ys) 0 = w"
proof -
  have "rd64 (le64 w @ ys) 0 = ucast (ucast w :: uint32) OR push_bit 32 (ucast (ucast (drop_bit 32 w) :: uint32))"
    by (simp add: rd64_def le64_def rd32_here rd32_skip le_length)
  also have "\<dots> = w"
    by (rule bit_word_eqI) (auto simp: bit_simps)
  finally show ?thesis .
qed

lemma rd_ObjID_here [rd_here]: "rd_ObjID (le_ObjID i @ ys) 0 = i"
  by (cases i) (simp add: rd_ObjID_def le_ObjID_def rd64_here rd_more_skip le_length)

lemma rd_int32_here [rd_here]: "int32_ok x \<Longrightarrow> rd_int32 (le_int32 x @ ys) 0 = x"
  by (simp add: rd_int32_def le_int32_def rd32_here sint_sbintrunc' signed_take_bit_int_eq_self)

lemma rd_short_here [rd_here]: "short_ok x \<Longrightarrow> rd_short (le_short x @ ys) 0 = x"
  by (simp add: rd_short_def le_short_def rd16_here sint_word_of_int_short)

lemma rd_string_here [rd_here]: "length s \<le> k \<Longrightarrow> c_string s \<Longrightarrow> rd_string (char_array k s @ ys) 0 k = s"
  by (rule rd_string_char_array)

lemma rd_bool_here [rd_here]: "(le_bool b @ ys) ! 0 \<noteq> 0 \<longleftrightarrow> b"
  by (simp add: le_bool_def)

lemma rd_slot_here [rd_here]: "rd_slot (le_slot d @ ys) 0 = d"
  by (simp add: rd_slot_def le_slot_def rd16_here rd16_skip rd_more_skip le_length)

lemma rd_slots_here: "length ds = ITEM_LIST_SLOTS \<Longrightarrow> rd_slots (concat (map le_slot ds) @ ys) 0 = ds"
proof (rule nth_equalityI)
  fix k
  assume l: "length ds = ITEM_LIST_SLOTS" and "k < length (rd_slots (concat (map le_slot ds) @ ys) 0)"
  then have k: "k < ITEM_LIST_SLOTS"
    by (simp add: rd_slots_def)
  have "concat (map le_slot ds) = concat (map le_slot (take k ds)) @ le_slot (ds ! k) @ concat (map le_slot (drop (Suc k) ds))"
    using k l by (simp add: id_take_nth_drop [of k ds, THEN arg_cong [of _ _ "\<lambda>xs. concat (map le_slot xs)"]])
  then have "rd_slot (concat (map le_slot ds) @ ys) (7 * k) = ds ! k"
    using k l by (simp add: rd_more_skip rd_here length_slots)
  then show "rd_slots (concat (map le_slot ds) @ ys) 0 ! k = ds ! k"
    using k by (simp add: rd_slots_def)
qed (simp add: rd_slots_def)

lemma truncated_ok: "c_string s \<Longrightarrow> c_string (truncated n s)" "length (truncated n s) \<le> n"
  by (auto simp: c_string_def truncated_def dest: in_set_takeD)

lemma only_code: "code_val c = 0" "InventoryFull = c"
  by (cases c; simp)+

lemma decode_encode_list: "decode_server (encode (ITEM_LIST_ACK_PACKET n ds) @ rest) = Some (ITEM_LIST_ACK_PACKET n (slot_array ds))"
proof -
  let ?h = "InitializePacket ITEM_LIST_ACK @ [n]" and ?s = "concat (map le_slot (slot_array ds)) @ rest"
  have "rd_slots (?h @ ?s) 4 = rd_slots ?s 0"
    by (auto simp: rd_slots_def rd_skip le_length)
  then have "rd_slots (InitializePacket ITEM_LIST_ACK @ n # ?s) 4 = slot_array ds"
    by (simp add: rd_slots_here le_length)
  then show ?thesis
    by (simp add: decode_server_def encode_def Let_def type_byte type_val_inj decode_encode_move(1))
qed

lemma decode_encode_server:
  assumes "server_ok p"
  shows "decode_server (encode p @ rest) = Some (as_read p)"
proof (cases p)
  case (ITEM_LIST_ACK_PACKET n ds)
  then show ?thesis
    using decode_encode_list by simp
qed (use assms truncated_ok in \<open>simp_all add: decode_server_def encode_def type_byte type_val_inj rd_skip rd_here le_length proto_consts only_code\<close>)

lemma encode_header: "unat (rd16 (encode p @ ys) 0) = length (encode p)" "3 \<le> length (encode p)" "length (encode p) \<le> 214"
  using sizeof_server [of p] header_size [of "packet_type p" "payload p @ ys"]
  by (simp_all add: length_encode, simp_all add: encode_def)

interpretation ss: packet_stream encode
  by unfold_locales (use encode_header in auto)

subsection \<open>Numbers\<close>

text \<open>Division of \<^verbatim>\<open>int\<close> values truncates.\<close>

definition quot :: "int \<Rightarrow> int \<Rightarrow> int" where
  "quot a b = (if (0 \<le> a) = (0 \<le> b) then \<bar>a\<bar> div \<bar>b\<bar> else - (\<bar>a\<bar> div \<bar>b\<bar>))"

text \<open>\<^verbatim>\<open>%d\<close> of \<^verbatim>\<open>sprintf\<close>, used by both programs.\<close>

fun digits :: "nat \<Rightarrow> string" where
  "digits n = (if n < 10 then [char_of (48 + n)] else digits (n div 10) @ [char_of (48 + n mod 10)])"

declare digits.simps [simp del]

definition dec :: "int \<Rightarrow> string" where
  "dec i = (if i < 0 then CHR ''-'' # digits (nat (- i)) else digits (nat i))"

definition string_val :: "string \<Rightarrow> nat" where
  "string_val s = foldl (\<lambda>a c. 10 * a + (of_char c - 48)) 0 s"

lemma string_val_snoc: "string_val (s @ [c]) = 10 * string_val s + (of_char c - 48)"
  by (simp add: string_val_def)

lemma digit_char: "(d :: nat) < 10 \<Longrightarrow> of_char (char_of (48 + d) :: char) = 48 + d"
  by (simp add: of_char_of)

lemma string_val_digits: "string_val (digits n) = n"
proof (induction n rule: digits.induct)
  case (1 n)
  show ?case
  proof (cases "n < 10")
    case True
    then show ?thesis
      by (subst digits.simps) (simp add: string_val_def digit_char)
  next
    case False
    then show ?thesis
      using 1 by (subst digits.simps) (simp add: string_val_snoc digit_char)
  qed
qed

lemma digits_chars: "c \<in> set (digits n) \<Longrightarrow> of_char c \<noteq> (0 :: nat)"
proof (induction n rule: digits.induct)
  case (1 n)
  show ?case
  proof (cases "n < 10")
    case True
    with 1(2) show ?thesis
      by (subst (asm) digits.simps) (simp add: digit_char)
  next
    case False
    with 1 show ?thesis
      by (subst (asm) (2) digits.simps) (auto simp: digit_char)
  qed
qed

lemma digits_length: "n < 10 ^ k \<Longrightarrow> 0 < k \<Longrightarrow> length (digits n) \<le> k"
proof (induction n arbitrary: k rule: digits.induct)
  case (1 n)
  show ?case
  proof (cases "n < 10")
    case True
    then show ?thesis
      using 1(3) by (subst digits.simps) simp
  next
    case False
    then obtain k' where k: "k = Suc k'" "0 < k'"
      using 1(2,3) by (cases k; cases "k - 1") auto
    then have "n div 10 < 10 ^ k'"
      using 1(2) by (simp add: less_mult_imp_div_less mult.commute)
    then show ?thesis
      using 1(1) [OF False _ k(2)] False k by (subst digits.simps) simp
  qed
qed

end
