(* ===== verification/Bots.thy ===== *)
theory Bots
  imports ServerReads Stats Inventories
begin

text \<open>
  The load generator, \<^verbatim>\<open>STRESS_TEST/NetworkModule.cpp\<close>: an array of simulated players, the packets
  they react to, the requests they send and the controller that adds and removes players.  The
  operating system, the clock and the random number generator answer through the fields \<open>env_os\<close>,
  \<open>env_clock\<close> (nanoseconds) and \<open>env_rand\<close>, indexed by the number of calls made so far; the theorems
  hold for every choice of them.  \<open>sent\<close> lists what was handed to \<^verbatim>\<open>WSASend\<close>.  A call is a
  function on the whole state, so the compare-and-swap loops succeed at once; how the accesses of
  several threads to a client mix is the relation \<open>race_step\<close> of \<open>BotCounts\<close>.  \<open>None\<close> is the process that \<^verbatim>\<open>memcpy\<close> with a negative length has killed.
\<close>

definition MAX_TEST :: int where "MAX_TEST = 500000"
definition MAX_CLIENTS :: int where "MAX_CLIENTS = MAX_TEST * 2 + 10000"
definition MAX_PACKET_SIZE :: nat where "MAX_PACKET_SIZE = 255"
definition INVALID_SLOT :: uint16 where "INVALID_SLOT = 0xFFFF"
definition HEALTH_POTION_ID :: uint16 where "HEALTH_POTION_ID = 1"
definition FIRST_EQUIPMENT_ID :: uint16 where "FIRST_EQUIPMENT_ID = 2"
definition DELAY_LIMIT :: int where "DELAY_LIMIT = 100"
definition DELAY_LIMIT2 :: int where "DELAY_LIMIT2 = 150"
definition ACCEPT_DELAY :: int where "ACCEPT_DELAY = 5"
definition MAX_BATCH :: int where "MAX_BATCH = 100"
definition GRAPH_HISTORY_SIZE :: nat where "GRAPH_HISTORY_SIZE = 300"
definition ZONE_COUNT :: int where "ZONE_COUNT = 16"
definition INT_MAX :: int where "INT_MAX = 2147483647"

lemmas bot_consts = MAX_TEST_def MAX_CLIENTS_def MAX_PACKET_SIZE_def INVALID_SLOT_def HEALTH_POTION_ID_def
  FIRST_EQUIPMENT_ID_def DELAY_LIMIT_def DELAY_LIMIT2_def ACCEPT_DELAY_def MAX_BATCH_def
  GRAPH_HISTORY_SIZE_def ZONE_COUNT_def INT_MAX_def

datatype TestPhase = RAMP_UP | STABLE | REDUCING

text \<open>A \<^verbatim>\<open>SOCKET\<close> is open or \<^verbatim>\<open>INVALID_SOCKET\<close>; time points are nanoseconds.\<close>

record CLIENT =
  b_id :: ObjID
  b_x :: short
  b_y :: short
  b_maxHp :: uint16
  b_hp :: uint16
  b_level :: uint8
  b_exp :: uint32
  visible_monsters :: int
  visible_players :: int
  b_dead :: bool
  facing_left :: bool
  zone_id :: int
  last_sent_move_ms :: uint64
  connected :: bool
  potion_slot :: uint16
  potion_count :: uint16
  equip_slot :: uint16
  b_equipped :: bool
  visible_items :: int
  target_item_id :: ObjID
  target_item_x :: short
  target_item_y :: short
  has_target_item :: bool
  client_socket :: bool
  packet_buf :: "uint8 list"
  buffered_bytes :: nat
  next_move_time :: nat
  next_attack_time :: nat
  next_skill_time :: nat
  next_chat_time :: nat
  next_pickup_time :: nat
  next_potion_time :: nat
  next_equip_time :: nat
  next_discard_time :: nat

record BOTS =
  g_clients :: "nat \<Rightarrow> CLIENT"
  num_connections :: int
  active_clients :: int
  global_delay :: int
  dead_clients_count :: int
  delay_min_val :: int
  delay_max_val :: int
  delay_avg_val :: int
  current_phase :: TestPhase
  g_delay_history :: "int list"
  g_client_history :: "int list"
  g_history_index :: nat
  g_avg_visible :: "(int \<times> int \<times> int) \<times> int"
  g_zone_player_count :: "int \<Rightarrow> int"
  g_monsterMap :: "uint64 \<rightharpoonup> bool"
  g_monster_known :: int
  g_monster_dead :: int
  g_playerMap :: "uint64 \<rightharpoonup> bool"
  g_player_dead :: int
  g_items_picked :: int
  g_potions_used :: int
  client_to_close :: int
  last_connect_time :: nat
  delayMultiplier :: int
  maxLimit :: int
  increasing :: bool
  stableCount :: int
  historyCounter :: int
  env_clock :: "nat \<Rightarrow> nat"
  env_rand :: "nat \<Rightarrow> nat"
  env_os :: "nat \<Rightarrow> bool"
  env_calls :: nat
  sent :: "(nat \<times> ClientPacket) list"

definition upd :: "nat \<Rightarrow> (CLIENT \<Rightarrow> CLIENT) \<Rightarrow> BOTS \<Rightarrow> BOTS" where
  "upd i f s = s\<lparr>g_clients := (g_clients s)(i := f (g_clients s i))\<rparr>"

text \<open>The calls outside the program: the clock, a uniform draw from an interval and the operating
  system's answer, with the count of calls moving on.\<close>

definition now :: "BOTS \<Rightarrow> nat \<times> BOTS" where
  "now s = (env_clock s (env_calls s), s\<lparr>env_calls := env_calls s + 1\<rparr>)"

definition NowMilliseconds :: "BOTS \<Rightarrow> uint64 \<times> BOTS" where
  "NowMilliseconds s = (let (t, s) = now s in (of_nat (t div 1000000), s))"

definition RandomRange :: "int \<Rightarrow> int \<Rightarrow> BOTS \<Rightarrow> int \<times> BOTS" where
  "RandomRange minValue maxValue s =
     (minValue + int (env_rand s (env_calls s)) mod (maxValue - minValue + 1), s\<lparr>env_calls := env_calls s + 1\<rparr>)"

definition os_ok :: "BOTS \<Rightarrow> bool \<times> BOTS" where
  "os_ok s = (env_os s (env_calls s), s\<lparr>env_calls := env_calls s + 1\<rparr>)"

definition plus_ms :: "nat \<Rightarrow> int \<Rightarrow> nat" where
  "plus_ms t ms = t + nat ms * 1000000"

definition soon :: "int \<Rightarrow> int \<Rightarrow> BOTS \<Rightarrow> nat \<times> BOTS" where
  "soon lo hi s = (let (t, s) = now s; (r, s) = RandomRange lo hi s in (plus_ms t r, s))"

definition bot_GetZoneId :: "short \<Rightarrow> short \<Rightarrow> int" where
  "bot_GetZoneId x y =
     (let col = quot x 500; row = quot y 500;
          col = (if col < 0 then 0 else if col > 3 then 3 else col);
          row = (if row < 0 then 0 else if row > 3 then 3 else row)
      in row * 4 + col)"

definition ScheduleBehavior :: "nat \<Rightarrow> BOTS \<Rightarrow> BOTS" where
  "ScheduleBehavior i s =
     (let (t, s) = now s;
          (r1, s) = RandomRange 400 600 s;
          (r2, s) = RandomRange 400 600 s;
          (r3, s) = RandomRange 5200 7000 s;
          (r4, s) = RandomRange 10000 20000 s;
          (r5, s) = RandomRange 800 1400 s;
          (r6, s) = RandomRange 5200 7000 s;
          (r7, s) = RandomRange 8000 15000 s;
          (r8, s) = RandomRange 30000 60000 s
      in upd i (\<lambda>c. c\<lparr>next_move_time := plus_ms t r1, next_attack_time := plus_ms t r2,
           next_skill_time := plus_ms t r3, next_chat_time := plus_ms t r4,
           next_pickup_time := plus_ms t r5, next_potion_time := plus_ms t r6,
           next_equip_time := plus_ms t r7, next_discard_time := plus_ms t r8\<rparr>) s)"

definition ResetRuntimeState :: "CLIENT \<Rightarrow> CLIENT" where
  "ResetRuntimeState c =
     \<lparr>b_id = npos, b_x = 0, b_y = 0, b_maxHp = PLAYER_MAX_HP, b_hp = PLAYER_MAX_HP, b_level = 1, b_exp = 0,
      visible_monsters = 0, visible_players = 0, b_dead = False, facing_left = False, zone_id = -1,
      last_sent_move_ms = 0, connected = False, potion_slot = INVALID_SLOT, potion_count = 0,
      equip_slot = INVALID_SLOT, b_equipped = False, visible_items = 0, target_item_id = npos,
      target_item_x = -1, target_item_y = -1, has_target_item = False, client_socket = client_socket c,
      packet_buf = replicate MAX_PACKET_SIZE 0, buffered_bytes = 0, next_move_time = 0,
      next_attack_time = 0, next_skill_time = 0, next_chat_time = 0, next_pickup_time = 0,
      next_potion_time = 0, next_equip_time = 0, next_discard_time = 0\<rparr>"

text \<open>\<^verbatim>\<open>ResetForConnect\<close> also clears the overlapped structure of the receive, which holds no state
  between calls.\<close>

definition ResetForConnect :: "CLIENT \<Rightarrow> CLIENT" where
  "ResetForConnect c = ResetRuntimeState c"

text \<open>\<^verbatim>\<open>static_cast<int>\<close> of a 64-bit difference keeps the low 32 bits; products of the averages
  are \<^verbatim>\<open>int\<close> and wrap.\<close>

definition int_of64 :: "uint64 \<Rightarrow> int" where
  "int_of64 w = sint (ucast w :: uint32)"

definition int_wrap :: "int \<Rightarrow> int" where
  "int_wrap i = sint (word_of_int i :: uint32)"

definition UpdateDelayEstimate :: "uint64 \<Rightarrow> BOTS \<Rightarrow> BOTS" where
  "UpdateDelayEstimate sentMoveTimeMs s =
     (if sentMoveTimeMs = 0 then s
      else let (t, s) = NowMilliseconds s;
               delayMs = int_of64 (t - sentMoveTimeMs);
               expected = global_delay s;
               expAvg = delay_avg_val s
           in s\<lparr>global_delay := (if expected = 0 then delayMs else quot (int_wrap (expected * 7 + delayMs)) 8),
                delay_min_val := (if delayMs < delay_min_val s then delayMs else delay_min_val s),
                delay_max_val := (if delayMs > delay_max_val s then delayMs else delay_max_val s),
                delay_avg_val := (if expAvg = 0 then delayMs else quot (int_wrap (expAvg * 15 + delayMs)) 16)\<rparr>)"

definition bot_ApplyInventorySlot :: "ITEM_SLOT_DATA \<Rightarrow> CLIENT \<Rightarrow> CLIENT" where
  "bot_ApplyInventorySlot slot c =
     (let c = (if sd_itemId slot = HEALTH_POTION_ID
               then c\<lparr>potion_slot := sd_slotIndex slot, potion_count := sd_count slot\<rparr>
               else if potion_slot c = sd_slotIndex slot then c\<lparr>potion_slot := INVALID_SLOT, potion_count := 0\<rparr>
               else c)
      in if FIRST_EQUIPMENT_ID \<le> sd_itemId slot
         then c\<lparr>equip_slot := sd_slotIndex slot, b_equipped := (sd_equipped slot \<noteq> 0)\<rparr>
         else if equip_slot c = sd_slotIndex slot then c\<lparr>equip_slot := INVALID_SLOT, b_equipped := False\<rparr>
         else c)"

definition ChooseDirectionTowardItem :: "CLIENT \<Rightarrow> int option" where
  "ChooseDirectionTowardItem c =
     (if \<not> has_target_item c then None
      else let dx = target_item_x c - b_x c; dy = target_item_y c - b_y c in
           if dx = 0 \<and> dy = 0 then None
           else if dx > 0 \<and> dy > 0 then Some 7
           else if dx > 0 \<and> dy < 0 then Some 5
           else if dx < 0 \<and> dy > 0 then Some 6
           else if dx < 0 \<and> dy < 0 then Some 4
           else if dx > 0 then Some 3
           else if dx < 0 then Some 2
           else if dy > 0 then Some 1
           else Some 0)"

definition move_candidates :: "CLIENT \<Rightarrow> int list" where
  "move_candidates c =
     (let canUp = b_y c > 0; canDown = b_y c < W_HEIGHT - 1; canLeft = b_x c > 0; canRight = b_x c < W_WIDTH - 1
      in (if canUp then [0] else []) @ (if canDown then [1] else []) @ (if canLeft then [2] else [])
         @ (if canRight then [3] else []) @ (if canUp \<and> canLeft then [4] else [])
         @ (if canUp \<and> canRight then [5] else []) @ (if canDown \<and> canLeft then [6] else [])
         @ (if canDown \<and> canRight then [7] else []))"

definition ChooseMoveDirection :: "CLIENT \<Rightarrow> BOTS \<Rightarrow> int \<times> BOTS" where
  "ChooseMoveDirection c s =
     (case ChooseDirectionTowardItem c of
        Some towardItem \<Rightarrow> (towardItem, s)
      | None \<Rightarrow>
          let candidates = move_candidates c in
          if candidates = [] then (0, s)
          else let (k, s) = RandomRange 0 (int (length candidates) - 1) s in (candidates ! nat k, s))"

subsection \<open>Connections\<close>

definition zone_count_add :: "int \<Rightarrow> int \<Rightarrow> BOTS \<Rightarrow> BOTS" where
  "zone_count_add z d s = s\<lparr>g_zone_player_count := (g_zone_player_count s)(z := g_zone_player_count s z + d)\<rparr>"

definition leave_zone :: "nat \<Rightarrow> BOTS \<Rightarrow> BOTS" where
  "leave_zone i s =
     (let z = zone_id (g_clients s i) in
      if z \<ge> 0 \<and> z < ZONE_COUNT then zone_count_add z (-1) s else s)"

definition DisconnectClient :: "nat \<Rightarrow> BOTS \<Rightarrow> BOTS" where
  "DisconnectClient i s =
     (let wasConnected = connected (g_clients s i);
          s = upd i (\<lambda>c. c\<lparr>connected := False\<rparr>) s;
          s = upd i (\<lambda>c. if client_socket c then c\<lparr>client_socket := False\<rparr> else c) s;
          s = (if wasConnected then leave_zone i (s\<lparr>active_clients := active_clients s - 1\<rparr>) else s)
      in upd i ResetRuntimeState s)"

definition bot_PostRecv :: "nat \<Rightarrow> BOTS \<Rightarrow> bool \<times> BOTS" where
  "bot_PostRecv i s = (if \<not> client_socket (g_clients s i) then (False, s) else os_ok s)"

definition bot_SendPacket :: "nat \<Rightarrow> ClientPacket \<Rightarrow> BOTS \<Rightarrow> bool \<times> BOTS" where
  "bot_SendPacket i pkt s =
     (if \<not> client_socket (g_clients s i) then (False, s)
      else let packetSize = unat (rd16 (encode_client pkt) 0) in
           if packetSize = 0 \<or> packetSize > MAX_PACKET_SIZE then (False, s)
           else let (ok, s) = os_ok s in
                if ok then (True, s\<lparr>sent := sent s @ [(i, pkt)]\<rparr>)
                else (False, DisconnectClient i s))"

text \<open>\<^verbatim>\<open>sprintf\<close> with \<^verbatim>\<open>%06d\<close>.\<close>

definition pad6 :: "nat \<Rightarrow> string" where
  "pad6 n = replicate (6 - length (digits n)) (CHR ''0'') @ digits n"

definition login_packet :: "nat \<Rightarrow> ClientPacket" where
  "login_packet i = USER_LOGIN_REQ_PACKET (''bot'' @ pad6 i) (''pw'' @ pad6 i)"

definition ConnectClient :: "nat \<Rightarrow> BOTS \<Rightarrow> bool \<times> BOTS" where
  "ConnectClient i s =
     (let s = upd i ResetForConnect s;
          (created, s) = os_ok s;
          s = upd i (\<lambda>c. c\<lparr>client_socket := created\<rparr>) s
      in if \<not> created then (False, s)
         else let (conn, s) = os_ok s in
              if \<not> conn then (False, DisconnectClient i s)
              else let (port, s) = os_ok s in
                   if \<not> port then (False, DisconnectClient i s)
                   else let (posted, s) = bot_PostRecv i s in
                        if \<not> posted then (False, DisconnectClient i s)
                        else bot_SendPacket i (login_packet i) s)"

subsection \<open>Reactions to packets\<close>

definition enter_zone :: "nat \<Rightarrow> int \<Rightarrow> BOTS \<Rightarrow> BOTS" where
  "enter_zone i newZone s = zone_count_add newZone 1 (upd i (\<lambda>c. c\<lparr>zone_id := newZone\<rparr>) s)"

text \<open>The two tables map a database id to \<^verbatim>\<open>1\<close> (dead, \<open>True\<close>) or \<^verbatim>\<open>0\<close>.  \<open>emplace\<close> reports whether
  the key was new.\<close>

definition emplace :: "uint64 \<Rightarrow> (uint64 \<rightharpoonup> bool) \<Rightarrow> (uint64 \<rightharpoonup> bool) \<times> bool" where
  "emplace k m = (if m k = None then (m(k \<mapsto> False), True) else (m, False))"

definition monster_seen :: "uint64 \<Rightarrow> BOTS \<Rightarrow> BOTS" where
  "monster_seen mid s =
     (case emplace mid (g_monsterMap s) of (m, new) \<Rightarrow>
        let s = s\<lparr>g_monsterMap := m\<rparr> in if new then s\<lparr>g_monster_known := g_monster_known s + 1\<rparr> else s)"

definition monster_respawned :: "uint64 \<Rightarrow> BOTS \<Rightarrow> BOTS" where
  "monster_respawned mid s =
     (case emplace mid (g_monsterMap s) of (m, new) \<Rightarrow>
        let s = s\<lparr>g_monsterMap := m\<rparr> in
        if new then s\<lparr>g_monster_known := g_monster_known s + 1\<rparr>
        else if m mid = Some True
        then s\<lparr>g_monsterMap := m(mid \<mapsto> False), g_monster_dead := g_monster_dead s - 1\<rparr>
        else s)"

definition monster_died :: "uint64 \<Rightarrow> BOTS \<Rightarrow> BOTS" where
  "monster_died mid s =
     (if g_monsterMap s mid = Some False
      then s\<lparr>g_monsterMap := (g_monsterMap s)(mid \<mapsto> True), g_monster_dead := g_monster_dead s + 1\<rparr> else s)"

definition player_logged_in :: "uint64 \<Rightarrow> BOTS \<Rightarrow> BOTS" where
  "player_logged_in pid s = s\<lparr>g_playerMap := fst (emplace pid (g_playerMap s))\<rparr>"

definition player_seen :: "uint64 \<Rightarrow> BOTS \<Rightarrow> BOTS" where
  "player_seen pid s =
     (case emplace pid (g_playerMap s) of (m, new) \<Rightarrow>
        let s = s\<lparr>g_playerMap := m\<rparr> in
        if \<not> new \<and> m pid = Some True
        then s\<lparr>g_playerMap := m(pid \<mapsto> False), g_player_dead := g_player_dead s - 1\<rparr>
        else s)"

definition player_died :: "uint64 \<Rightarrow> BOTS \<Rightarrow> BOTS" where
  "player_died pid s =
     (if g_playerMap s pid = Some False
      then s\<lparr>g_playerMap := (g_playerMap s)(pid \<mapsto> True), g_player_dead := g_player_dead s + 1\<rparr> else s)"

definition player_respawned :: "uint64 \<Rightarrow> BOTS \<Rightarrow> BOTS" where
  "player_respawned pid s =
     (if g_playerMap s pid = Some True
      then s\<lparr>g_playerMap := (g_playerMap s)(pid \<mapsto> False), g_player_dead := g_player_dead s - 1\<rparr> else s)"

definition on_login_ack :: "nat \<Rightarrow> ObjID \<Rightarrow> short \<Rightarrow> short \<Rightarrow> uint16 \<Rightarrow> uint16 \<Rightarrow> uint8 \<Rightarrow> uint32 \<Rightarrow> BOTS \<Rightarrow> BOTS" where
  "on_login_ack i pid x y maxhp hp level ex s =
     (let s = (if \<not> connected (g_clients s i) then s\<lparr>active_clients := active_clients s + 1\<rparr> else s);
          s = upd i (\<lambda>c. c\<lparr>connected := True, b_id := pid, b_x := x, b_y := y, b_maxHp := maxhp, b_hp := hp,
                b_level := level, b_exp := ex, b_dead := False, visible_monsters := 0, visible_players := 0,
                last_sent_move_ms := 0\<rparr>) s;
          s = enter_zone i (bot_GetZoneId x y) (leave_zone i s);
          s = player_logged_in (m_DatabaseID pid) s
      in ScheduleBehavior i s)"

definition on_move :: "nat \<Rightarrow> ObjID \<Rightarrow> short \<Rightarrow> short \<Rightarrow> BOTS \<Rightarrow> BOTS" where
  "on_move i pid x y s =
     (if pid = b_id (g_clients s i)
      then let s = upd i (\<lambda>c. c\<lparr>b_x := x, b_y := y\<rparr>) s;
               s = UpdateDelayEstimate (last_sent_move_ms (g_clients s i)) s;
               s = upd i (\<lambda>c. c\<lparr>last_sent_move_ms := 0\<rparr>) s;
               newZone = bot_GetZoneId x y
           in if newZone \<noteq> zone_id (g_clients s i) then enter_zone i newZone (leave_zone i s) else s
      else s)"

definition on_add :: "nat \<Rightarrow> ObjID \<Rightarrow> short \<Rightarrow> short \<Rightarrow> BOTS \<Rightarrow> BOTS" where
  "on_add i pid x y s =
     (if hasCategory eMonster pid
      then monster_seen (m_DatabaseID pid) (upd i (\<lambda>c. c\<lparr>visible_monsters := visible_monsters c + 1\<rparr>) s)
      else if hasCategory eUser pid
      then player_seen (m_DatabaseID pid) (upd i (\<lambda>c. c\<lparr>visible_players := visible_players c + 1\<rparr>) s)
      else if hasCategory eItem pid
      then upd i (\<lambda>c. let c = c\<lparr>visible_items := visible_items c + 1\<rparr> in
             if \<not> has_target_item c
             then c\<lparr>target_item_id := pid, target_item_x := x, target_item_y := y, has_target_item := True\<rparr>
             else c) s
      else s)"

definition on_remove :: "nat \<Rightarrow> ObjID \<Rightarrow> BOTS \<Rightarrow> BOTS" where
  "on_remove i pid s =
     (if hasCategory eMonster pid
      then upd i (\<lambda>c. c\<lparr>visible_monsters := max 0 (visible_monsters c - 1)\<rparr>) s
      else if hasCategory eUser pid
      then upd i (\<lambda>c. c\<lparr>visible_players := max 0 (visible_players c - 1)\<rparr>) s
      else if hasCategory eItem pid
      then upd i (\<lambda>c. let c = c\<lparr>visible_items := max 0 (visible_items c - 1)\<rparr> in
             if has_target_item c \<and> pid = target_item_id c then c\<lparr>has_target_item := False\<rparr> else c) s
      else s)"

definition on_die :: "nat \<Rightarrow> ObjID \<Rightarrow> uint16 \<Rightarrow> BOTS \<Rightarrow> BOTS" where
  "on_die i pid hp s =
     (if hasCategory eMonster pid
      then monster_died (m_DatabaseID pid) (upd i (\<lambda>c. c\<lparr>visible_monsters := max 0 (visible_monsters c - 1)\<rparr>) s)
      else if hasCategory eUser pid
      then let s = player_died (m_DatabaseID pid) s in
           if pid = b_id (g_clients s i)
           then let s = upd i (\<lambda>c. c\<lparr>b_hp := hp, b_dead := True, visible_monsters := 0, visible_players := 0\<rparr>) s;
                    s = leave_zone i s
                in upd i (\<lambda>c. c\<lparr>zone_id := -1\<rparr>) s
           else upd i (\<lambda>c. c\<lparr>visible_players := max 0 (visible_players c - 1)\<rparr>) s
      else s)"

definition on_respawn :: "nat \<Rightarrow> ObjID \<Rightarrow> short \<Rightarrow> short \<Rightarrow> uint16 \<Rightarrow> BOTS \<Rightarrow> BOTS" where
  "on_respawn i pid x y hp s =
     (if hasCategory eMonster pid
      then monster_respawned (m_DatabaseID pid) (upd i (\<lambda>c. c\<lparr>visible_monsters := visible_monsters c + 1\<rparr>) s)
      else if hasCategory eUser pid
      then let s = player_respawned (m_DatabaseID pid) s in
           if pid = b_id (g_clients s i)
           then let s = upd i (\<lambda>c. c\<lparr>b_x := x, b_y := y, b_hp := hp, b_dead := False,
                      visible_monsters := 0, visible_players := 0\<rparr>) s;
                    s = enter_zone i (bot_GetZoneId x y) s
                in ScheduleBehavior i s
           else upd i (\<lambda>c. c\<lparr>visible_players := visible_players c + 1\<rparr>) s
      else s)"

definition on_item_list :: "nat \<Rightarrow> uint8 \<Rightarrow> ITEM_SLOT_DATA list \<Rightarrow> BOTS \<Rightarrow> BOTS" where
  "on_item_list i slotCount items s =
     upd i (\<lambda>c. fold bot_ApplyInventorySlot (take (min (unat slotCount) (unat MAX_INVENTORY_SLOTS)) items)
       (c\<lparr>potion_slot := INVALID_SLOT, potion_count := 0, equip_slot := INVALID_SLOT, b_equipped := False\<rparr>)) s"

fun bot_handle :: "nat \<Rightarrow> ServerPacket \<Rightarrow> BOTS \<Rightarrow> BOTS" where
  "bot_handle i (USER_LOGIN_ACK_PACKET pid x y maxhp hp level ex) s = on_login_ack i pid x y maxhp hp level ex s"
| "bot_handle i USER_LOGIN_FAIL_ACK_PACKET s = DisconnectClient i s"
| "bot_handle i (SUBJECT_MOVE_NFY_PACKET pid x y t) s = on_move i pid x y s"
| "bot_handle i (SUBJECT_ADD_NFY_PACKET m pid x y name item) s = on_add i pid x y s"
| "bot_handle i (SUBJECT_REMOVE_NFY_PACKET pid) s = on_remove i pid s"
| "bot_handle i (SUBJECT_DIE_NFY_PACKET pid hp) s = on_die i pid hp s"
| "bot_handle i (SUBJECT_RESPAWN_NFY_PACKET m pid x y hp name) s = on_respawn i pid x y hp s"
| "bot_handle i (SUBJECT_ATTACK_NFY_PACKET v a hp) s = upd i (\<lambda>c. c\<lparr>b_hp := word_of_int (max 0 hp)\<rparr>) s"
| "bot_handle i (USER_HEAL_INF_PACKET hp) s = upd i (\<lambda>c. c\<lparr>b_hp := word_of_int (max 0 hp)\<rparr>) s"
| "bot_handle i (USER_STAT_CHANGE_INF_PACKET level hp maxhp ex) s =
     upd i (\<lambda>c. c\<lparr>b_level := level, b_hp := hp, b_maxHp := maxhp, b_exp := ex\<rparr>) s"
| "bot_handle i (ITEM_LIST_ACK_PACKET slotCount items) s = on_item_list i slotCount items s"
| "bot_handle i (ITEM_ACQUIRE_INF_PACKET slot) s = upd i (bot_ApplyInventorySlot slot) s"
| "bot_handle i (ITEM_PICKUP_ACK_PACKET success) s =
     (if success then upd i (\<lambda>c. c\<lparr>has_target_item := False\<rparr>) (s\<lparr>g_items_picked := g_items_picked s + 1\<rparr>) else s)"
| "bot_handle i (ITEM_USE_ACK_PACKET success slot) s =
     (if success then (upd i (bot_ApplyInventorySlot slot) s)\<lparr>g_potions_used := g_potions_used s + 1\<rparr> else s)"
| "bot_handle i (ITEM_EQUIP_ACK_PACKET success slot) s = (if success then upd i (bot_ApplyInventorySlot slot) s else s)"
| "bot_handle i (ITEM_UNEQUIP_ACK_PACKET success slot) s = (if success then upd i (bot_ApplyInventorySlot slot) s else s)"
| "bot_handle i (ITEM_DISCARD_ACK_PACKET success slot) s = (if success then upd i (bot_ApplyInventorySlot slot) s else s)"
| "bot_handle i (SYSTEM_MESSAGE_INF_PACKET InventoryFull p q) s =
     (let (t, s) = soon 8000 15000 (upd i (\<lambda>c. c\<lparr>has_target_item := False\<rparr>) s)
      in upd i (\<lambda>c. c\<lparr>next_pickup_time := t\<rparr>) s)"
| "bot_handle i _ s = s"

text \<open>The switch over the type byte of the packet.\<close>

definition bot_ProcessPacket :: "nat \<Rightarrow> uint8 list \<Rightarrow> BOTS \<Rightarrow> BOTS" where
  "bot_ProcessPacket i packet s = (case decode_server packet of Some p \<Rightarrow> bot_handle i p s | None \<Rightarrow> s)"

text \<open>\<^verbatim>\<open>memcpy\<close> to an offset of the packet buffer.\<close>

definition copy_in :: "uint8 list \<Rightarrow> CLIENT \<Rightarrow> CLIENT" where
  "copy_in bs c = c\<lparr>packet_buf := take (buffered_bytes c) (packet_buf c) @ bs @
      drop (buffered_bytes c + length bs) (packet_buf c),
    buffered_bytes := buffered_bytes c + length bs\<rparr>"

text \<open>The first \<^verbatim>\<open>if\<close> of the loop completes the two size bytes; the rest is one turn with them known.\<close>

definition fill_header :: "nat \<Rightarrow> uint8 list \<Rightarrow> BOTS \<Rightarrow> uint8 list \<times> BOTS" where
  "fill_header i bs s =
     (if buffered_bytes (g_clients s i) < 2
      then let bytesToCopy = min (2 - buffered_bytes (g_clients s i)) (length bs)
           in (drop bytesToCopy bs, upd i (copy_in (take bytesToCopy bs)) s)
      else (bs, s))"

text \<open>\<open>Inl None\<close> is the negative \<^verbatim>\<open>memcpy\<close>, \<open>Inl (Some s)\<close> the return of \<^verbatim>\<open>false\<close>.\<close>

definition fill_body :: "nat \<Rightarrow> uint8 list \<Rightarrow> BOTS \<Rightarrow> BOTS option + uint8 list \<times> BOTS" where
  "fill_body i bs s =
     (let packetSize = unat (rd16 (packet_buf (g_clients s i)) 0) in
      if packetSize = 0 \<or> packetSize > MAX_PACKET_SIZE then Inl (Some s)
      else if packetSize < buffered_bytes (g_clients s i) then Inl None
      else let bytesToCopy = min (packetSize - buffered_bytes (g_clients s i)) (length bs);
               s = upd i (copy_in (take bytesToCopy bs)) s;
               bs = drop bytesToCopy bs
           in if buffered_bytes (g_clients s i) = packetSize
              then let packet = take packetSize (packet_buf (g_clients s i)) @ replicate (MAX_PACKET_SIZE - packetSize) 0
                   in Inr (bs, bot_ProcessPacket i packet (upd i (\<lambda>c. c\<lparr>buffered_bytes := 0\<rparr>) s))
              else Inr (bs, s))"

subsection \<open>What the reactions leave alone\<close>

named_theorems bot_frame \<open>components that an operation of the load generator leaves alone\<close>

lemma g_clients_upd [simp]: "g_clients (upd i f s) = (g_clients s)(i := f (g_clients s i))"
  by (simp add: upd_def)

lemma g_clients_env [bot_frame]:
  "g_clients (snd (now s)) = g_clients s" "g_clients (snd (NowMilliseconds s)) = g_clients s"
  "g_clients (snd (RandomRange a b s)) = g_clients s" "g_clients (snd (os_ok s)) = g_clients s"
  "g_clients (snd (soon a b s)) = g_clients s"
  by (simp_all add: now_def NowMilliseconds_def RandomRange_def os_ok_def soon_def)

lemma g_clients_counts [bot_frame]:
  "g_clients (zone_count_add z d s) = g_clients s" "g_clients (leave_zone i s) = g_clients s"
  "g_clients (monster_seen m s) = g_clients s" "g_clients (monster_died m s) = g_clients s"
  "g_clients (monster_respawned m s) = g_clients s" "g_clients (player_logged_in m s) = g_clients s"
  "g_clients (player_seen m s) = g_clients s" "g_clients (player_died m s) = g_clients s"
  "g_clients (player_respawned m s) = g_clients s" "g_clients (UpdateDelayEstimate t s) = g_clients s"
  by (simp_all add: zone_count_add_def leave_zone_def monster_seen_def monster_died_def monster_respawned_def
      player_logged_in_def player_seen_def player_died_def player_respawned_def UpdateDelayEstimate_def
      NowMilliseconds_def now_def Let_def split: prod.split)

lemma g_clients_enter [bot_frame]:
  "g_clients (enter_zone i z s) = (g_clients s)(i := (g_clients s i)\<lparr>zone_id := z\<rparr>)"
  by (simp add: enter_zone_def bot_frame)

lemma g_clients_Schedule:
  "\<exists>t1 t2 t3 t4 t5 t6 t7 t8. g_clients (ScheduleBehavior i s) = (g_clients s)(i := (g_clients s i)\<lparr>next_move_time := t1,
     next_attack_time := t2, next_skill_time := t3, next_chat_time := t4, next_pickup_time := t5,
     next_potion_time := t6, next_equip_time := t7, next_discard_time := t8\<rparr>)"
  by (simp add: ScheduleBehavior_def now_def RandomRange_def Let_def) blast

text \<open>The buffer of a client: what a packet does to it is nothing, or the reset of a disconnect.\<close>

definition buffer_of :: "nat \<Rightarrow> BOTS \<Rightarrow> uint8 list \<times> nat" where
  "buffer_of i s = (packet_buf (g_clients s i), buffered_bytes (g_clients s i))"

lemma buffer_of_upd: "(\<And>c. packet_buf (f c) = packet_buf c \<and> buffered_bytes (f c) = buffered_bytes c) \<Longrightarrow>
  buffer_of i (upd j f s) = buffer_of i s"
  by (simp add: buffer_of_def)

lemma buffer_of_frame: "g_clients s' = g_clients s \<Longrightarrow> buffer_of i s' = buffer_of i s"
  by (simp add: buffer_of_def)

lemma buffer_of_enter: "buffer_of i (enter_zone j z s) = buffer_of i s"
  by (simp add: buffer_of_def bot_frame)

lemma buffer_of_Schedule: "buffer_of i (ScheduleBehavior j s) = buffer_of i s"
  using g_clients_Schedule [of j s] by (auto simp: buffer_of_def)

lemma buffer_of_slot: "buffer_of i (upd j (bot_ApplyInventorySlot d) s) = buffer_of i s"
  by (rule buffer_of_upd) (simp add: bot_ApplyInventorySlot_def Let_def)

lemma fold_slots_buffer:
  "packet_buf (fold bot_ApplyInventorySlot ds c) = packet_buf c \<and>
   buffered_bytes (fold bot_ApplyInventorySlot ds c) = buffered_bytes c"
  by (induction ds arbitrary: c) (simp_all add: bot_ApplyInventorySlot_def Let_def)

lemma buffer_of_list: "buffer_of i (on_item_list j n ds s) = buffer_of i s"
  unfolding on_item_list_def by (rule buffer_of_upd) (simp add: fold_slots_buffer)

lemma buffer_of_counts:
  "buffer_of i (leave_zone j s) = buffer_of i s" "buffer_of i (monster_seen m s) = buffer_of i s"
  "buffer_of i (monster_died m s) = buffer_of i s" "buffer_of i (monster_respawned m s) = buffer_of i s"
  "buffer_of i (player_logged_in m s) = buffer_of i s" "buffer_of i (player_seen m s) = buffer_of i s"
  "buffer_of i (player_died m s) = buffer_of i s" "buffer_of i (player_respawned m s) = buffer_of i s"
  "buffer_of i (UpdateDelayEstimate t s) = buffer_of i s" "buffer_of i (snd (soon a b s)) = buffer_of i s"
  "buffer_of i (s\<lparr>active_clients := n\<rparr>) = buffer_of i s" "buffer_of i (s\<lparr>g_items_picked := n\<rparr>) = buffer_of i s"
  "buffer_of i (s\<lparr>g_potions_used := n\<rparr>) = buffer_of i s"
  by (simp_all add: buffer_of_def bot_frame)

lemmas buffer_rules = buffer_of_enter buffer_of_Schedule buffer_of_slot buffer_of_list buffer_of_counts

lemma buffer_of_moves:
  "buffer_of i (on_login_ack j pid x y maxhp hp level ex s) = buffer_of i s"
  "buffer_of i (on_move j pid x y s) = buffer_of i s" "buffer_of i (on_add j pid x y s) = buffer_of i s"
  "buffer_of i (on_remove j pid s) = buffer_of i s" "buffer_of i (on_die j pid hp s) = buffer_of i s"
  "buffer_of i (on_respawn j pid x y hp s) = buffer_of i s"
  by (simp_all add: on_login_ack_def on_move_def on_add_def on_remove_def on_die_def on_respawn_def Let_def
      buffer_rules buffer_of_upd)

lemma buffer_of_disconnect:
  "buffer_of i (DisconnectClient j s) = (if i = j then (replicate MAX_PACKET_SIZE 0, 0) else buffer_of i s)"
  by (simp add: DisconnectClient_def Let_def buffer_of_def bot_frame ResetRuntimeState_def)

lemma buffer_of_handle:
  "buffer_of i (bot_handle j p s) =
     (if i = j \<and> p = USER_LOGIN_FAIL_ACK_PACKET then (replicate MAX_PACKET_SIZE 0, 0) else buffer_of i s)"
  by (cases "(j, p, s)" rule: bot_handle.cases)
    (auto simp: buffer_of_moves buffer_rules buffer_of_upd buffer_of_disconnect case_prod_unfold Let_def)

lemma buffered_handle: "buffered_bytes (g_clients (bot_ProcessPacket i p s) i) \<le> buffered_bytes (g_clients s i)"
proof (cases "decode_server p")
  case (Some q)
  then show ?thesis
    using buffer_of_handle [of i i q s] by (auto simp: bot_ProcessPacket_def buffer_of_def split: if_splits)
qed (simp add: bot_ProcessPacket_def)

subsection \<open>The receive loop\<close>

lemma fill_header_less:
  assumes "bs \<noteq> []" "fill_header i bs s = (bs', s')"
  shows "length bs' < length bs \<or> bs' = bs \<and> s' = s \<and> 2 \<le> buffered_bytes (g_clients s i)"
  using assms by (cases bs) (auto simp: fill_header_def Let_def split: if_splits)

lemma fill_body_less:
  assumes "fill_body i bs s = Inr (bs', s')" "2 \<le> buffered_bytes (g_clients s i)" "bs \<noteq> []"
  shows "length bs' < length bs \<or> bs' = bs \<and> buffered_bytes (g_clients s' i) < buffered_bytes (g_clients s i)"
proof (cases "unat (rd16 (packet_buf (g_clients s i)) 0) = buffered_bytes (g_clients s i)")
  case True
  then show ?thesis
    using assms(1,2) buffered_handle [of i _ "upd i (\<lambda>c. c\<lparr>buffered_bytes := 0\<rparr>) (upd i (copy_in []) s)"]
    by (auto simp: fill_body_def Let_def copy_in_def split: if_splits elim!: le_less_trans)
next
  case False
  then show ?thesis
    using assms by (auto simp: fill_body_def Let_def split: if_splits)
qed

lemma fill_body_length: "fill_body i bs s = Inr (bs', s') \<Longrightarrow> length bs' \<le> length bs"
  by (auto simp: fill_body_def Let_def split: if_splits)

function ConsumeReceivedBytes :: "nat \<Rightarrow> uint8 list \<Rightarrow> BOTS \<Rightarrow> (bool \<times> BOTS) option" where
  "ConsumeReceivedBytes i bs s =
     (if bs = [] then Some (True, s)
      else case fill_header i bs s of (bs', s') \<Rightarrow>
        if buffered_bytes (g_clients s' i) < 2 then ConsumeReceivedBytes i bs' s'
        else case fill_body i bs' s' of
               Inl None \<Rightarrow> None
             | Inl (Some s'') \<Rightarrow> Some (False, s'')
             | Inr (bs'', s'') \<Rightarrow> ConsumeReceivedBytes i bs'' s'')"
  by pat_completeness auto
termination
proof (relation "inv_image (less_than <*lex*> less_than) (\<lambda>(i, bs, s). (length bs, buffered_bytes (g_clients s i)))", goal_cases)
  case 1
  then show ?case
    by auto
next
  case (2 i bs s bs' s')
  show ?case
    using fill_header_less [OF 2(1) 2(2) [symmetric]] 2(3) by auto
next
  case (3 i bs s bs' s' r bs'' s'')
  note h = fill_header_less [OF 3(1) 3(2) [symmetric]] and b = 3(4-)
  show ?case
    using h 3(3) b fill_body_less [of i bs' s' bs'' s''] fill_body_length [of i bs' s' bs'' s''] 3(1)
    by (auto simp: not_less)
qed

declare ConsumeReceivedBytes.simps [simp del]

subsection \<open>Requests\<close>

definition set_facing :: "int \<Rightarrow> CLIENT \<Rightarrow> CLIENT" where
  "set_facing direction c =
     (if direction \<in> {2, 4, 6} then c\<lparr>facing_left := True\<rparr>
      else if direction \<in> {3, 5, 7} then c\<lparr>facing_left := False\<rparr> else c)"

definition SendMovePacket :: "nat \<Rightarrow> BOTS \<Rightarrow> BOTS" where
  "SendMovePacket i s =
     (let (direction, s) = ChooseMoveDirection (g_clients s i) s;
          (t, s) = NowMilliseconds s;
          move_time = (ucast t :: uint32);
          s = upd i (set_facing direction) s;
          s = upd i (\<lambda>c. c\<lparr>last_sent_move_ms := ucast move_time\<rparr>) s;
          s = snd (bot_SendPacket i (USER_MOVE_REQ_PACKET direction move_time) s);
          (next_t, s) = soon 400 600 s
      in upd i (\<lambda>c. c\<lparr>next_move_time := next_t\<rparr>) s)"

definition SendAttackPacket :: "nat \<Rightarrow> BOTS \<Rightarrow> BOTS" where
  "SendAttackPacket i s =
     (let s = snd (bot_SendPacket i (USER_ATTACK_REQ_PACKET (if facing_left (g_clients s i) then 1 else 0)) s);
          (next_t, s) = soon 400 600 s
      in upd i (\<lambda>c. c\<lparr>next_attack_time := next_t\<rparr>) s)"

definition SendSkillPacket :: "nat \<Rightarrow> BOTS \<Rightarrow> BOTS" where
  "SendSkillPacket i s =
     (let s = snd (bot_SendPacket i USER_SKILL_REQ_PACKET s);
          (next_t, s) = soon 5200 7000 s
      in upd i (\<lambda>c. c\<lparr>next_skill_time := next_t\<rparr>) s)"

definition standingOnTarget :: "CLIENT \<Rightarrow> bool" where
  "standingOnTarget c \<longleftrightarrow> has_target_item c \<and> b_x c = target_item_x c \<and> b_y c = target_item_y c"

definition SendPickupPacket :: "nat \<Rightarrow> BOTS \<Rightarrow> BOTS" where
  "SendPickupPacket i s =
     (let standing = standingOnTarget (g_clients s i) in
      if \<not> standing \<and> visible_items (g_clients s i) = 0
      then let (next_t, s) = soon 1500 2500 s in upd i (\<lambda>c. c\<lparr>next_pickup_time := next_t\<rparr>) s
      else let s = snd (bot_SendPacket i ITEM_PICKUP_REQ_PACKET s);
               (next_t, s) = (if standing then soon 400 700 s else soon 1500 2500 s)
           in upd i (\<lambda>c. c\<lparr>next_pickup_time := next_t\<rparr>) s)"

definition wounded :: "CLIENT \<Rightarrow> bool" where
  "wounded c \<longleftrightarrow> b_maxHp c > 0 \<and> unat (b_hp c) * 100 < unat (b_maxHp c) * 60"

definition TryUsePotion :: "nat \<Rightarrow> BOTS \<Rightarrow> BOTS" where
  "TryUsePotion i s =
     (let c = g_clients s i;
          s = (if potion_slot c \<noteq> INVALID_SLOT \<and> potion_count c > 0 \<and> wounded c
               then snd (bot_SendPacket i (ITEM_USE_REQ_PACKET (potion_slot c)) s) else s);
          (next_t, s) = soon 5200 7000 s
      in upd i (\<lambda>c. c\<lparr>next_potion_time := next_t\<rparr>) s)"

definition TryEquipItem :: "nat \<Rightarrow> BOTS \<Rightarrow> BOTS" where
  "TryEquipItem i s =
     (let c = g_clients s i;
          s = (if equip_slot c \<noteq> INVALID_SLOT
               then if \<not> b_equipped c then snd (bot_SendPacket i (ITEM_EQUIP_REQ_PACKET (equip_slot c)) s)
                    else let (r, s) = RandomRange 0 3 s in
                         if r = 0 then snd (bot_SendPacket i (ITEM_UNEQUIP_REQ_PACKET (equip_slot c)) s) else s
               else s);
          (next_t, s) = soon 8000 15000 s
      in upd i (\<lambda>c. c\<lparr>next_equip_time := next_t\<rparr>) s)"

definition TryDiscardItem :: "nat \<Rightarrow> BOTS \<Rightarrow> BOTS" where
  "TryDiscardItem i s =
     (let c = g_clients s i;
          s = (if potion_slot c \<noteq> INVALID_SLOT \<and> potion_count c \<ge> 3
               then snd (bot_SendPacket i (ITEM_DISCARD_REQ_PACKET (potion_slot c) 1) s) else s);
          (next_t, s) = soon 30000 60000 s
      in upd i (\<lambda>c. c\<lparr>next_discard_time := next_t\<rparr>) s)"

definition MESSAGES :: "string list" where
  "MESSAGES = [''hello'', ''what's your name'', ''today weather's good'', ''anyone here?'', ''nice to meet you'',
     ''let's fight together'', ''watch out for monsters'']"

definition SendChatPacket :: "nat \<Rightarrow> BOTS \<Rightarrow> BOTS" where
  "SendChatPacket i s =
     (let (k, s) = RandomRange 0 (int (length MESSAGES) - 1) s;
          s = snd (bot_SendPacket i (CS_CHAT_PACKET (take (CHAT_SIZE - 1) (MESSAGES ! nat k))) s);
          (next_t, s) = soon 10000 20000 s
      in upd i (\<lambda>c. c\<lparr>next_chat_time := next_t\<rparr>) s)"

subsection \<open>The worker threads\<close>

text \<open>A completion of the port: its overlapped structure, with the receive buffer or the length of
  the send.\<close>

datatype OverlappedEx = OP_RECV "uint8 list" | OP_SEND nat | OP_DO_MOVE

definition Worker_Turn :: "bool \<Rightarrow> nat \<Rightarrow> nat \<Rightarrow> OverlappedEx option \<Rightarrow> BOTS \<Rightarrow> BOTS option" where
  "Worker_Turn ret ioSize i over s =
     (case over of None \<Rightarrow> Some s
      | Some ov \<Rightarrow>
          if \<not> ret then Some (DisconnectClient i s)
          else if ioSize = 0 then Some (DisconnectClient i s)
          else case ov of
                 OP_RECV buf \<Rightarrow>
                   (case ConsumeReceivedBytes i (take ioSize buf) s of
                      None \<Rightarrow> None
                    | Some (ok, s) \<Rightarrow>
                        if \<not> ok then Some (DisconnectClient i s)
                        else let (posted, s) = bot_PostRecv i s in
                             Some (if posted then s else DisconnectClient i s))
               | OP_SEND len \<Rightarrow> Some (if ioSize \<noteq> len then DisconnectClient i s else s)
               | OP_DO_MOVE \<Rightarrow> Some s)"

end
