(* ===== verification/BotControl.thy ===== *)
theory BotControl
  imports Bots
begin

text \<open>
  The controller of the load generator: \<^verbatim>\<open>Adjust_Number_Of_Client\<close>, one turn of \<^verbatim>\<open>Test_Thread\<close>,
  \<^verbatim>\<open>InitializeNetwork\<close> and \<^verbatim>\<open>GetPointCloud\<close> of \<^verbatim>\<open>STRESS_TEST/NetworkModule.cpp\<close>, and the relation
  \<open>bot_step\<close> that interleaves whole turns of the worker threads and of the test thread.  The static
  variables of the controller are fields of the state.  The graph keeps the integers that the source
  converts to \<^verbatim>\<open>float\<close>; the averages are kept as the totals and the number they are divided by.
\<close>

definition RECOVERY_STABLE_COUNT :: int where "RECOVERY_STABLE_COUNT = 100"

definition soft_limit :: "BOTS \<Rightarrow> int" where
  "soft_limit s = maxLimit s - quot (maxLimit s) 20"

text \<open>The search for a connected client from \<^verbatim>\<open>startIndex\<close> on.\<close>

fun close_one :: "int \<Rightarrow> int list \<Rightarrow> int \<Rightarrow> BOTS \<Rightarrow> BOTS" where
  "close_one startIndex [] n s = s"
| "close_one startIndex (attempt # attempts) n s =
     (let victim = (startIndex + attempt) mod n in
      if connected (g_clients s (nat victim)) then DisconnectClient (nat victim) s
      else close_one startIndex attempts n s)"

definition Adjust_reduce :: "int \<Rightarrow> int \<Rightarrow> nat \<Rightarrow> int \<Rightarrow> BOTS \<Rightarrow> BOTS" where
  "Adjust_reduce activeClientCount currentConnections t elapsedMs s =
     (let s = s\<lparr>current_phase := REDUCING\<rparr>;
          s = (if increasing s then s\<lparr>maxLimit := activeClientCount, increasing := False\<rparr> else s);
          s = s\<lparr>stableCount := 0\<rparr>
      in if activeClientCount < 100 \<or> ACCEPT_DELAY * 10 > elapsedMs then s
         else let s = s\<lparr>last_connect_time := t\<rparr>;
                  startIndex = client_to_close s;
                  s = s\<lparr>client_to_close := startIndex + 1\<rparr>
              in close_one startIndex [0..currentConnections - 1] currentConnections s)"

fun connect_batch :: "nat \<Rightarrow> BOTS \<Rightarrow> BOTS" where
  "connect_batch 0 s = s"
| "connect_batch (Suc b) s =
     (let cur = num_connections s in
      if cur \<ge> MAX_CLIENTS \<or> active_clients s \<ge> MAX_TEST then s
      else if soft_limit s < active_clients s then s
      else let s = s\<lparr>num_connections := num_connections s + 1\<rparr>;
               (ok, s) = ConnectClient (nat cur) s;
               s = (if ok then s else DisconnectClient (nat cur) s)
           in connect_batch b s)"

definition Adjust_ramp :: "int \<Rightarrow> nat \<Rightarrow> int \<Rightarrow> BOTS \<Rightarrow> BOTS" where
  "Adjust_ramp activeClientCount t elapsedMs s =
     (let s = s\<lparr>delayMultiplier := 1\<rparr>;
          s = (if \<not> increasing s
               then let s = s\<lparr>stableCount := stableCount s + 1\<rparr> in
                    if stableCount s \<ge> RECOVERY_STABLE_COUNT then s\<lparr>maxLimit := INT_MAX, stableCount := 0\<rparr> else s
               else s)
      in if soft_limit s < activeClientCount then s\<lparr>current_phase := STABLE\<rparr>
         else let s = s\<lparr>current_phase := RAMP_UP, increasing := True, last_connect_time := t\<rparr>;
                  batchSize = min (quot elapsedMs ACCEPT_DELAY) MAX_BATCH
              in connect_batch (nat batchSize) s)"

definition Adjust_Number_Of_Client :: "BOTS \<Rightarrow> BOTS" where
  "Adjust_Number_Of_Client s =
     (let activeClientCount = active_clients s; currentConnections = num_connections s in
      if activeClientCount \<ge> MAX_TEST \<or> currentConnections \<ge> MAX_CLIENTS then s
      else let (t, s) = now s;
               elapsedMs = quot (int t - int (last_connect_time s)) 1000000
           in if ACCEPT_DELAY * delayMultiplier s > elapsedMs then s
              else let delaySnapshot = global_delay s in
                   if delaySnapshot > DELAY_LIMIT2
                   then Adjust_reduce activeClientCount currentConnections t elapsedMs s
                   else if delaySnapshot > DELAY_LIMIT
                   then s\<lparr>current_phase := STABLE, delayMultiplier := 10, stableCount := 0\<rparr>
                   else Adjust_ramp activeClientCount t elapsedMs s)"

text \<open>The actions of one live client in one turn, in the order of the source; each guard reads the
  state that the action before it left.\<close>

definition when_due :: "(CLIENT \<Rightarrow> bool) \<Rightarrow> (nat \<Rightarrow> BOTS \<Rightarrow> BOTS) \<Rightarrow> nat \<Rightarrow> BOTS \<Rightarrow> BOTS" where
  "when_due due act i s = (if due (g_clients s i) then act i s else s)"

definition client_actions :: "nat \<Rightarrow> nat \<Rightarrow> BOTS \<Rightarrow> BOTS" where
  "client_actions t i s =
     (let s = when_due (\<lambda>c. next_move_time c \<le> t) SendMovePacket i s;
          s = when_due (\<lambda>c. visible_monsters c > 0 \<and> next_attack_time c \<le> t) SendAttackPacket i s;
          s = when_due (\<lambda>c. visible_monsters c > 0 \<and> next_skill_time c \<le> t) SendSkillPacket i s;
          s = when_due (\<lambda>c. next_chat_time c \<le> t) SendChatPacket i s;
          s = when_due (\<lambda>c. next_pickup_time c \<le> t) SendPickupPacket i s;
          s = when_due (\<lambda>c. next_potion_time c \<le> t) TryUsePotion i s;
          s = when_due (\<lambda>c. next_equip_time c \<le> t) TryEquipItem i s
      in when_due (\<lambda>c. next_discard_time c \<le> t) TryDiscardItem i s)"

record TickSums =
  localDead :: int
  totalMonsters :: int
  totalPlayers :: int
  totalItems :: int
  connectedCount :: int

definition visit_client :: "nat \<Rightarrow> nat \<Rightarrow> TickSums \<times> BOTS \<Rightarrow> TickSums \<times> BOTS" where
  "visit_client t i st =
     (case st of (sums, s) \<Rightarrow>
        let c = g_clients s i in
        if \<not> connected c then (sums, s)
        else let sums = sums\<lparr>connectedCount := connectedCount sums + 1\<rparr> in
             if b_dead c then (sums\<lparr>localDead := localDead sums + 1\<rparr>, s)
             else (sums\<lparr>totalMonsters := totalMonsters sums + visible_monsters c,
                        totalPlayers := totalPlayers sums + visible_players c,
                        totalItems := totalItems sums + visible_items c\<rparr>,
                   client_actions t i s))"

definition record_history :: "BOTS \<Rightarrow> BOTS" where
  "record_history s =
     (let s = s\<lparr>historyCounter := historyCounter s + 1\<rparr> in
      if historyCounter s \<ge> 50
      then let idx = g_history_index s in
           s\<lparr>historyCounter := 0,
             g_delay_history := (g_delay_history s)[idx := global_delay s],
             g_client_history := (g_client_history s)[idx := active_clients s],
             g_history_index := (idx + 1) mod GRAPH_HISTORY_SIZE\<rparr>
      else s)"

definition Test_Turn :: "BOTS \<Rightarrow> BOTS" where
  "Test_Turn s =
     (let s = Adjust_Number_Of_Client s;
          (t, s) = now s;
          currentConnections = num_connections s;
          zero = \<lparr>localDead = 0, totalMonsters = 0, totalPlayers = 0, totalItems = 0, connectedCount = 0\<rparr>;
          (sums, s) = fold (visit_client t) [0..<nat currentConnections] (zero, s);
          s = s\<lparr>dead_clients_count := localDead sums\<rparr>;
          s = (if connectedCount sums > 0
               then s\<lparr>g_avg_visible := ((totalMonsters sums, totalPlayers sums, totalItems sums), connectedCount sums)\<rparr>
               else s)
      in record_history s)"

definition InitializeNetwork :: "BOTS \<Rightarrow> BOTS" where
  "InitializeNetwork s =
     (let s = s\<lparr>g_clients := (\<lambda>i. ResetRuntimeState ((g_clients s i)\<lparr>connected := False, client_socket := False\<rparr>)),
            num_connections := 0, client_to_close := 0, active_clients := 0, global_delay := 0,
            dead_clients_count := 0, delay_min_val := INT_MAX, delay_max_val := 0, delay_avg_val := 0,
            current_phase := RAMP_UP, g_history_index := 0, g_avg_visible := ((0, 0, 0), 1),
            g_items_picked := 0, g_potions_used := 0,
            g_delay_history := replicate GRAPH_HISTORY_SIZE 0, g_client_history := replicate GRAPH_HISTORY_SIZE 0,
            g_zone_player_count := (\<lambda>_. 0), g_monsterMap := Map.empty, g_monster_known := 0, g_monster_dead := 0,
            g_playerMap := Map.empty, g_player_dead := 0\<rparr>;
          (t, s) = now s
      in s\<lparr>last_connect_time := t, historyCounter := 0\<rparr>)"

text \<open>The initial values of the static variables, with the network initialised.\<close>

definition bots_start :: "(nat \<Rightarrow> nat) \<Rightarrow> (nat \<Rightarrow> nat) \<Rightarrow> (nat \<Rightarrow> bool) \<Rightarrow> BOTS" where
  "bots_start clock rand os =
     (let c = ResetRuntimeState \<lparr>b_id = npos, b_x = 0, b_y = 0, b_maxHp = 0, b_hp = 0, b_level = 0, b_exp = 0,
        visible_monsters = 0, visible_players = 0, b_dead = False, facing_left = False, zone_id = 0,
        last_sent_move_ms = 0, connected = False, potion_slot = 0, potion_count = 0, equip_slot = 0,
        b_equipped = False, visible_items = 0, target_item_id = npos, target_item_x = 0, target_item_y = 0,
        has_target_item = False, client_socket = False, packet_buf = [], buffered_bytes = 0,
        next_move_time = 0, next_attack_time = 0, next_skill_time = 0, next_chat_time = 0,
        next_pickup_time = 0, next_potion_time = 0, next_equip_time = 0, next_discard_time = 0\<rparr>
      in InitializeNetwork
        \<lparr>g_clients = (\<lambda>_. c), num_connections = 0, active_clients = 0, global_delay = 0, dead_clients_count = 0,
         delay_min_val = INT_MAX, delay_max_val = 0, delay_avg_val = 0, current_phase = RAMP_UP,
         g_delay_history = replicate GRAPH_HISTORY_SIZE 0, g_client_history = replicate GRAPH_HISTORY_SIZE 0,
         g_history_index = 0, g_avg_visible = ((0, 0, 0), 1), g_zone_player_count = (\<lambda>_. 0),
         g_monsterMap = Map.empty, g_monster_known = 0, g_monster_dead = 0, g_playerMap = Map.empty,
         g_player_dead = 0, g_items_picked = 0, g_potions_used = 0, client_to_close = 0, last_connect_time = 0,
         delayMultiplier = 1, maxLimit = INT_MAX, increasing = True, stableCount = 0, historyCounter = 0,
         env_clock = clock, env_rand = rand, env_os = os, env_calls = 0, sent = []\<rparr>)"

text \<open>Position and state of every connected client, packed to the front of the two arrays.\<close>

definition GetPointCloud :: "BOTS \<Rightarrow> (short \<times> short \<times> bool) list" where
  "GetPointCloud s =
     concat (map (\<lambda>i. let c = g_clients s i in if \<not> connected c then [] else [(b_x c, b_y c, b_dead c)])
       [0..<nat (num_connections s)])"

text \<open>A completion carries the index of a client that \<^verbatim>\<open>ConnectClient\<close> has put on the port.\<close>

inductive bot_step :: "BOTS \<Rightarrow> BOTS \<Rightarrow> bool" where
  worker: "int i < num_connections s \<Longrightarrow> Worker_Turn ret ioSize i over s = Some s' \<Longrightarrow> bot_step s s'"
| test: "bot_step s (Test_Turn s)"

inductive bot_reachable :: "BOTS \<Rightarrow> bool" where
  start: "bot_reachable (bots_start clock rand os)"
| step: "bot_reachable s \<Longrightarrow> bot_step s s' \<Longrightarrow> bot_reachable s'"

inductive_cases bot_stepE: "bot_step s s'"

end
