(* ===== verification/BotThreads.thy ===== *)
theory BotThreads
  imports BotControl
begin

text \<open>
  What the threads of the load generator may do to its state.  The locale \<open>thread_relation\<close> is the
  contract of a relation between the states before and after: it is reflexive and transitive, holds
  for a login, a disconnection and the operations on the two tables, and for every change that leaves
  \<open>bview\<close> alone.  Inside it the receive loop, the requests and the turns of the worker threads are shown to be
  in the relation.  It is interpreted for runs of single accesses in \<open>BotCounts\<close> and for keeping the
  variables of the controller in \<open>BotLimits\<close>.
\<close>

definition conn :: "BOTS \<Rightarrow> nat set" where
  "conn s = {i. connected (g_clients s i)}"

definition cview where
  "cview s = (conn s, num_connections s, active_clients s, g_monsterMap s, g_monster_known s, g_monster_dead s,
     g_playerMap s, g_player_dead s)"

text \<open>The counted part of the state and the static variables of the controller.\<close>

definition bview where
  "bview s = (cview s, maxLimit s, increasing s, stableCount s)"

named_theorems cview_rules \<open>operations that leave the counted part of the state alone\<close>

lemma conn_upd: "conn (upd i f s) = (if connected (f (g_clients s i)) then insert i (conn s) else conn s - {i})"
  by (auto simp: conn_def)

lemma cview_upd: "(\<And>c. connected (f c) = connected c) \<Longrightarrow> cview (upd i f s) = cview s"
  by (auto simp: cview_def conn_def upd_def)

lemma cview_env [cview_rules]:
  "cview (snd (now s)) = cview s" "cview (snd (NowMilliseconds s)) = cview s" "cview (snd (RandomRange a b s)) = cview s"
  "cview (snd (os_ok s)) = cview s" "cview (snd (soon a b s)) = cview s" "cview (zone_count_add z d s) = cview s"
  "cview (leave_zone i s) = cview s" "cview (UpdateDelayEstimate t s) = cview s"
  by (simp_all add: cview_def conn_def now_def NowMilliseconds_def RandomRange_def os_ok_def soon_def
      zone_count_add_def leave_zone_def UpdateDelayEstimate_def Let_def split: prod.split)

lemma cview_fields [cview_rules]:
  "cview (s\<lparr>g_items_picked := n\<rparr>) = cview s" "cview (s\<lparr>g_potions_used := n\<rparr>) = cview s"
  "cview (s\<lparr>sent := ps\<rparr>) = cview s" "cview (s\<lparr>current_phase := ph\<rparr>) = cview s"
  "cview (s\<lparr>maxLimit := n\<rparr>) = cview s" "cview (s\<lparr>increasing := b\<rparr>) = cview s" "cview (s\<lparr>stableCount := n\<rparr>) = cview s"
  "cview (s\<lparr>last_connect_time := t\<rparr>) = cview s" "cview (s\<lparr>client_to_close := n\<rparr>) = cview s"
  "cview (s\<lparr>delayMultiplier := n\<rparr>) = cview s" "cview (s\<lparr>historyCounter := n\<rparr>) = cview s"
  "cview (s\<lparr>dead_clients_count := n\<rparr>) = cview s" "cview (s\<lparr>g_avg_visible := a\<rparr>) = cview s"
  "cview (s\<lparr>g_delay_history := h\<rparr>) = cview s" "cview (s\<lparr>g_client_history := h\<rparr>) = cview s"
  "cview (s\<lparr>g_history_index := k\<rparr>) = cview s"
  by (simp_all add: cview_def conn_def)

lemma cview_enter [cview_rules]: "cview (enter_zone i z s) = cview s"
  by (simp add: enter_zone_def cview_rules cview_upd)

lemma cview_Schedule [cview_rules]: "cview (ScheduleBehavior i s) = cview s"
  by (simp add: ScheduleBehavior_def Let_def case_prod_unfold cview_rules cview_upd)

lemma connected_slot [simp]: "connected (bot_ApplyInventorySlot d c) = connected c"
  by (simp add: bot_ApplyInventorySlot_def Let_def)

lemma connected_slots [simp]: "connected (fold bot_ApplyInventorySlot ds c) = connected c"
  by (induction ds arbitrary: c) simp_all

lemma connected_small [simp]: "connected (copy_in bs c) = connected c" "connected (set_facing d c) = connected c"
  by (simp_all add: copy_in_def set_facing_def)

lemma num_cview: "cview s' = cview s \<Longrightarrow> num_connections s' = num_connections s"
  by (simp add: cview_def)

lemma bview_upd: "(\<And>c. connected (f c) = connected c) \<Longrightarrow> bview (upd i f s) = bview s"
  using cview_upd [of f i s] by (simp add: bview_def upd_def)

lemma bview_env:
  "bview (snd (now s)) = bview s" "bview (snd (NowMilliseconds s)) = bview s" "bview (snd (RandomRange a b s)) = bview s"
  "bview (snd (os_ok s)) = bview s" "bview (snd (soon a b s)) = bview s" "bview (zone_count_add z d s) = bview s"
  "bview (leave_zone i s) = bview s" "bview (UpdateDelayEstimate t s) = bview s"
  by (simp_all add: bview_def cview_env) (simp_all add: now_def NowMilliseconds_def RandomRange_def os_ok_def soon_def
      zone_count_add_def leave_zone_def UpdateDelayEstimate_def Let_def)

lemma bview_fields:
  "bview (s\<lparr>g_items_picked := n\<rparr>) = bview s" "bview (s\<lparr>g_potions_used := n\<rparr>) = bview s"
  "bview (s\<lparr>sent := ps\<rparr>) = bview s" "bview (s\<lparr>historyCounter := n\<rparr>) = bview s"
  "bview (s\<lparr>dead_clients_count := n\<rparr>) = bview s" "bview (s\<lparr>g_avg_visible := a\<rparr>) = bview s"
  "bview (s\<lparr>g_delay_history := h\<rparr>) = bview s" "bview (s\<lparr>g_client_history := h\<rparr>) = bview s"
  "bview (s\<lparr>g_history_index := k\<rparr>) = bview s"
  by (simp_all add: bview_def cview_fields)

lemma bview_enter: "bview (enter_zone i z s) = bview s"
  by (simp add: enter_zone_def bview_env bview_upd)

lemma bview_Schedule: "bview (ScheduleBehavior i s) = bview s"
  by (simp add: ScheduleBehavior_def Let_def case_prod_unfold bview_env bview_upd)

lemma num_tables:
  "num_connections (monster_seen k s) = num_connections s" "num_connections (monster_died k s) = num_connections s"
  "num_connections (monster_respawned k s) = num_connections s" "num_connections (player_logged_in k s) = num_connections s"
  "num_connections (player_seen k s) = num_connections s" "num_connections (player_died k s) = num_connections s"
  "num_connections (player_respawned k s) = num_connections s"
  by (simp_all add: monster_seen_def monster_died_def monster_respawned_def player_logged_in_def player_seen_def
      player_died_def player_respawned_def emplace_def Let_def)

lemma active_tables:
  "active_clients (monster_seen k s) = active_clients s" "active_clients (monster_died k s) = active_clients s"
  "active_clients (monster_respawned k s) = active_clients s" "active_clients (player_logged_in k s) = active_clients s"
  "active_clients (player_seen k s) = active_clients s" "active_clients (player_died k s) = active_clients s"
  "active_clients (player_respawned k s) = active_clients s"
  by (simp_all add: monster_seen_def monster_died_def monster_respawned_def player_logged_in_def player_seen_def
      player_died_def player_respawned_def emplace_def Let_def)

text \<open>A move request that the operating system takes, with the direction that was chosen.\<close>

lemma SendMove_eq:
  fixes s :: BOTS
  assumes "ChooseMoveDirection (g_clients s i) s = (d, s\<lparr>env_calls := k\<rparr>)" "client_socket (g_clients s i)"
    and "env_os s (Suc k)"
  defines "t \<equiv> (ucast (of_nat (env_clock s k div 1000000) :: uint64) :: uint32)"
  shows "SendMovePacket i s = upd i (\<lambda>c. (set_facing d c)\<lparr>last_sent_move_ms := ucast t, next_move_time :=
      plus_ms (env_clock s (Suc (Suc k))) (400 + int (env_rand s (Suc (Suc (Suc k)))) mod 201)\<rparr>)
    (s\<lparr>env_calls := Suc (Suc (Suc (Suc k))), sent := sent s @ [(i, USER_MOVE_REQ_PACKET d t)]\<rparr>)"
proof -
  let ?pkt = "USER_MOVE_REQ_PACKET d t"
  let ?u = "upd i (\<lambda>c. c\<lparr>last_sent_move_ms := ucast t\<rparr>) (upd i (set_facing d) (s\<lparr>env_calls := Suc k\<rparr>))"
  have size: "unat (rd16 (encode_client ?pkt) 0) = 8"
    by (simp add: encode_client_def InitializePacket_def le16_def rd16_def)
  have "client_socket (g_clients ?u i)" "os_ok ?u = (True, ?u\<lparr>env_calls := Suc (Suc k)\<rparr>)" "sent ?u = sent s"
    using assms(2,3) by (simp_all add: os_ok_def upd_def set_facing_def)
  then have sent: "bot_SendPacket i ?pkt ?u = (True, ?u\<lparr>env_calls := Suc (Suc k), sent := sent s @ [(i, ?pkt)]\<rparr>)"
    using size by (simp add: bot_SendPacket_def bot_consts)
  have "SendMovePacket i s = (let (next_t, s) = soon 400 600 (?u\<lparr>env_calls := Suc (Suc k), sent := sent s @ [(i, ?pkt)]\<rparr>)
      in upd i (\<lambda>c. c\<lparr>next_move_time := next_t\<rparr>) s)"
    unfolding SendMovePacket_def assms(1) by (simp add: NowMilliseconds_def now_def sent t_def [symmetric])
  then show ?thesis
    by (simp add: soon_def now_def RandomRange_def upd_def)
qed

locale thread_relation =
  fixes R :: "BOTS \<Rightarrow> BOTS \<Rightarrow> bool"
  assumes R_refl [simp]: "R s s"
    and R_trans: "R s s' \<Longrightarrow> R s' s'' \<Longrightarrow> R s s''"
    and R_num: "R s s' \<Longrightarrow> num_connections s' = num_connections s"
    and R_view: "bview s' = bview s \<Longrightarrow> R s s'"
    and R_disconnect: "R s (DisconnectClient i s)"
    and R_login: "int i < num_connections s \<Longrightarrow> R s (on_login_ack i pid x y maxhp hp level ex s)"
    and R_tables: "R s (monster_seen k s)" "R s (monster_died k s)" "R s (monster_respawned k s)"
      "R s (player_logged_in k s)" "R s (player_seen k s)" "R s (player_died k s)" "R s (player_respawned k s)"
begin

lemma R_view_right: "bview s'' = bview s' \<Longrightarrow> R s s'' \<longleftrightarrow> R s s'"
  using R_view [of s'' s'] R_view [of s' s''] R_trans by metis

lemma R_upd: "(\<And>c. connected (f c) = connected c) \<Longrightarrow> R s (upd i f t) \<longleftrightarrow> R s t"
  by (rule R_view_right) (rule bview_upd)

lemmas R_simps = R_upd bview_env [THEN R_view_right] bview_fields [THEN R_view_right]
  bview_enter [THEN R_view_right] bview_Schedule [THEN R_view_right]

lemma R_tables_after:
  assumes "bview s' = bview s"
  shows "R s (monster_seen k s')" "R s (monster_died k s')" "R s (monster_respawned k s')" "R s (player_seen k s')"
  using R_trans [OF R_view [OF assms]] R_tables by blast+

lemma R_moves:
  "R s (on_move i pid x y s)" "R s (on_add i pid x y s)" "R s (on_remove i pid s)"
  "R s (on_item_list i n ds s)"
  by (simp_all add: on_move_def on_add_def on_remove_def on_item_list_def Let_def R_tables_after bview_upd R_simps)

lemma R_die: "R s (on_die i pid hp s)"
  using R_tables(6) [of s "m_DatabaseID pid"]
  by (simp add: on_die_def Let_def R_tables_after bview_upd R_simps)

lemma R_respawn: "R s (on_respawn i pid x y hp s)"
  using R_tables(7) [of s "m_DatabaseID pid"]
  by (simp add: on_respawn_def Let_def R_tables_after bview_upd R_simps)

lemma R_handle: "int i < num_connections s \<Longrightarrow> R s (bot_handle i p s)"
  by (cases "(i, p, s)" rule: bot_handle.cases)
    (auto simp: R_login R_disconnect R_moves R_die R_respawn case_prod_unfold Let_def R_simps)

lemma R_process: "int i < num_connections s \<Longrightarrow> R s (bot_ProcessPacket i packet s)"
  by (simp add: bot_ProcessPacket_def R_handle split: option.split)

subsection \<open>The receive loop\<close>

lemma R_header: "fill_header i bs s = (bs', s') \<Longrightarrow> R s s'"
  by (auto simp: fill_header_def Let_def bview_upd R_view split: if_splits)

lemma R_body:
  assumes "int i < num_connections s"
  shows "fill_body i bs s = Inl (Some s') \<Longrightarrow> R s s'" "fill_body i bs s = Inr (bs', s') \<Longrightarrow> R s s'"
proof -
  show "fill_body i bs s = Inl (Some s') \<Longrightarrow> R s s'"
    by (auto simp: fill_body_def Let_def split: if_splits)
  let ?t = "\<lambda>n. upd i (copy_in (take n bs)) s" and ?z = "\<lambda>n. upd i (\<lambda>c. c\<lparr>buffered_bytes := 0\<rparr>) (upd i (copy_in (take n bs)) s)"
  have t: "R s (?t n)" and z: "R s (?z n)" for n
    by (simp_all add: R_view bview_upd)
  have "R s (bot_ProcessPacket i packet (?z n))" for packet n
    using z [of n] assms by (intro R_trans [OF z [of n]] R_process) (simp add: R_num [OF z [of n]])
  with t show "fill_body i bs s = Inr (bs', s') \<Longrightarrow> R s s'"
    unfolding fill_body_def Let_def by (metis Inl_Inr_False Inr_inject prod.inject)
qed

lemma R_consume:
  "int i < num_connections s \<Longrightarrow> ConsumeReceivedBytes i bs s = Some (ok, s') \<Longrightarrow> R s s'"
proof (induction i bs s rule: ConsumeReceivedBytes.induct)
  case (1 i bs s)
  show ?case
  proof (cases "bs = []")
    case False
    obtain bs1 s1 where h: "fill_header i bs s = (bs1, s1)"
      by fastforce
    note k1 = R_header [OF h]
    have n1: "int i < num_connections s1"
      using 1(3) by (simp add: R_num [OF k1])
    show ?thesis
    proof (cases "buffered_bytes (g_clients s1 i) < 2")
      case True
      then have "R s1 s'"
        using 1(1) [OF False h [symmetric] True n1] 1(4) False h by (subst (asm) ConsumeReceivedBytes.simps) simp
      then show ?thesis
        using k1 R_trans by blast
    next
      case b: False
      have "R s1 s'"
      proof (cases "fill_body i bs1 s1")
        case (Inl r)
        then show ?thesis
          using 1(4) False h b R_body(1) [OF n1, of bs1 s']
          by (subst (asm) ConsumeReceivedBytes.simps) (auto split: option.splits)
      next
        case (Inr r)
        obtain bs2 s2 where r: "r = (bs2, s2)"
          by fastforce
        have k2: "R s1 s2"
          using R_body(2) [OF n1] Inr r by blast
        have "ConsumeReceivedBytes i bs2 s2 = Some (ok, s')"
          using 1(4) False h b Inr r by (subst (asm) ConsumeReceivedBytes.simps) simp
        then have "R s2 s'"
          using 1(2) [OF False h [symmetric] b Inr r [symmetric]] n1 by (simp add: R_num [OF k2])
        with k2 show ?thesis
          by (rule R_trans)
      qed
      with k1 show ?thesis
        by (rule R_trans)
    qed
  qed (use 1(4) in \<open>subst (asm) ConsumeReceivedBytes.simps, simp\<close>)
qed

subsection \<open>Requests and turns\<close>

lemma R_disconnect_after: "R s t \<Longrightarrow> R s (DisconnectClient i t)"
  using R_disconnect R_trans by blast

lemma R_send: "R s t \<Longrightarrow> R s (snd (bot_SendPacket i pkt t))"
  by (simp add: bot_SendPacket_def Let_def case_prod_unfold R_simps R_disconnect_after)

lemma R_choose: "R s t \<Longrightarrow> R s (snd (ChooseMoveDirection c t))"
  by (simp add: ChooseMoveDirection_def Let_def case_prod_unfold R_simps split: option.split)

lemma R_requests:
  "R s (SendMovePacket i s)" "R s (SendAttackPacket i s)" "R s (SendSkillPacket i s)"
  "R s (SendChatPacket i s)" "R s (SendPickupPacket i s)" "R s (TryUsePotion i s)"
  "R s (TryEquipItem i s)" "R s (TryDiscardItem i s)"
  by (simp_all add: SendMovePacket_def SendAttackPacket_def SendSkillPacket_def SendChatPacket_def SendPickupPacket_def
      TryUsePotion_def TryEquipItem_def TryDiscardItem_def Let_def case_prod_unfold R_simps R_send R_choose)

lemma R_worker:
  assumes "int i < num_connections s" "Worker_Turn ret ioSize i over s = Some s'"
  shows "R s s'"
proof -
  have "R s (snd (bot_PostRecv i t))" if "R s t" for t
    using that by (simp add: bot_PostRecv_def R_simps)
  then show ?thesis
    using assms R_consume [OF assms(1)]
    by (auto simp: Worker_Turn_def R_disconnect R_disconnect_after case_prod_unfold Let_def
        split: option.splits if_splits OverlappedEx.splits)
qed

lemma R_due: "(\<And>s. R s (act i s)) \<Longrightarrow> R s t \<Longrightarrow> R s (when_due due act i t)"
  using R_trans by (auto simp: when_due_def)

lemma R_actions: "R s (client_actions t i s)"
  by (simp add: client_actions_def Let_def R_due R_requests)

lemma R_visits: "R s (snd (fold (visit_client t) is (sums, s)))"
proof (induction "is" arbitrary: sums s)
  case (Cons i "is")
  have "R s (snd (visit_client t i (sums, s)))"
    by (simp add: visit_client_def Let_def R_actions)
  with Cons [of "snd (visit_client t i (sums, s))" "fst (visit_client t i (sums, s))"] show ?case
    using R_trans by simp
qed simp

lemma R_close: "R s t \<Longrightarrow> R s (close_one st attempts n t)"
  by (induction attempts) (simp_all add: Let_def R_disconnect_after)

end

end
