(* ===== verification/BotCounts.thy ===== *)
theory BotCounts
  imports BotThreads
begin

text \<open>
  The counters of the load generator under interleaving.  The threads of
  \<^verbatim>\<open>STRESS_TEST/NetworkModule.cpp\<close> hold no lock on a client: the flag \<open>connected\<close> and the counter
  \<open>active_clients\<close> are two atomics that a login and a disconnection change one after the other.
  \<open>race_step\<close> interleaves these single accesses; \<open>race_inv\<close> is what holds between them, and every
  turn of every thread, run without interruption, is a run of \<open>race_step\<close>.  \<open>cview\<close> is the part of the
  state the counters speak about; an operation that leaves it alone is one step of the relation, so
  only logging in, disconnecting, opening a connection and the two tables need an argument.
\<close>

definition deads :: "(uint64 \<rightharpoonup> bool) \<Rightarrow> uint64 set" where
  "deads m = {k. m k = Some True}"

text \<open>The accesses of one thread to the two atomics: a login exchanges the flag and, if it was off,
  counts the client; a disconnection exchanges the flag, uncounts the client if it was on, and resets
  the client, which writes the flag once more.  \<open>P\<close> holds what the threads have still to do, \<open>n\<close>
  counts the resets that found the flag on again.  The tables change under their locks.  The last
  rule is everything else the threads do, to the clients and to the rest of the state.\<close>

datatype Pending = Counting | Closing nat bool | Resetting nat

type_synonym Race = "BOTS \<times> Pending multiset \<times> nat"

inductive race_step :: "Race \<Rightarrow> Race \<Rightarrow> bool" where
  login: "int i < num_connections s \<Longrightarrow> race_step (s, P, n)
     (upd i (\<lambda>c. c\<lparr>connected := True\<rparr>) s, if connected (g_clients s i) then P else add_mset Counting P, n)"
| count: "race_step (s, add_mset Counting P, n) (s\<lparr>active_clients := active_clients s + 1\<rparr>, P, n)"
| close: "race_step (s, P, n)
     (upd i (\<lambda>c. c\<lparr>connected := False\<rparr>) s, add_mset (Closing i (connected (g_clients s i))) P, n)"
| uncount: "race_step (s, add_mset (Closing i was) P, n)
     (s\<lparr>active_clients := active_clients s - (if was then 1 else 0)\<rparr>, add_mset (Resetting i) P, n)"
| reset: "race_step (s, add_mset (Resetting i) P, n)
     (upd i ResetRuntimeState s, P, if connected (g_clients s i) then Suc n else n)"
| tables: "s' \<in> {monster_seen k s, monster_died k s, monster_respawned k s, player_logged_in k s, player_seen k s,
     player_died k s, player_respawned k s} \<Longrightarrow> race_step (s, P, n) (s', P, n)"
| opened: "num_connections s < MAX_CLIENTS \<Longrightarrow>
     race_step (s, P, n) (s\<lparr>num_connections := num_connections s + 1\<rparr>, P, n)"
| other: "cview s' = cview s \<Longrightarrow> race_step (s, P, n) (s', P, n)"

definition race_reachable :: "Race \<Rightarrow> bool" where
  "race_reachable r \<longleftrightarrow> (\<exists>clock rand os. race_step\<^sup>*\<^sup>* (bots_start clock rand os, {#}, 0) r)"

definition uncounted :: "Pending multiset \<Rightarrow> int" where
  "uncounted P = int (size {#p \<in># P. p = Counting#})"

definition closing :: "Pending multiset \<Rightarrow> int" where
  "closing P = int (size {#p \<in># P. \<exists>i. p = Closing i True#})"

definition tables_inv :: "BOTS \<Rightarrow> bool" where
  "tables_inv s \<longleftrightarrow>
     g_monster_known s = int (card (dom (g_monsterMap s))) \<and>
     g_monster_dead s = int (card (deads (g_monsterMap s))) \<and>
     g_player_dead s = int (card (deads (g_playerMap s)))"

definition race_inv :: "Race \<Rightarrow> bool" where
  "race_inv r \<longleftrightarrow> (case r of (s, P, n) \<Rightarrow>
     0 \<le> num_connections s \<and> num_connections s \<le> MAX_CLIENTS \<and>
     (\<forall>i \<in> conn s. int i < num_connections s) \<and>
     active_clients s + uncounted P = int (card (conn s)) + closing P + int n \<and> tables_inv s)"

lemma race_inv_cview: "cview s' = cview s \<Longrightarrow> race_inv (s', P, n) \<longleftrightarrow> race_inv (s, P, n)"
  by (simp add: cview_def race_inv_def tables_inv_def)

subsection \<open>The tables\<close>

lemma deads_upd: "deads (m(k \<mapsto> b)) = (if b then insert k (deads m) else deads m - {k})"
  by (auto simp: deads_def)

lemma finite_ids [simp]: "finite (A :: uint64 set)"
  by (rule finite_subset [OF subset_UNIV]) simp

lemma card_dead: "m k = Some True \<Longrightarrow> int (card (deads m - {k})) = int (card (deads m)) - 1"
  using card_Suc_Diff1 [of "deads m" k] by (simp add: deads_def)

lemma tables_inv_tables:
  assumes "tables_inv s"
  shows "tables_inv (monster_seen k s)" "tables_inv (monster_died k s)" "tables_inv (monster_respawned k s)"
    "tables_inv (player_logged_in k s)" "tables_inv (player_seen k s)" "tables_inv (player_died k s)" "tables_inv (player_respawned k s)"
proof -
  have new: "deads (m(k \<mapsto> False)) = deads m" if "m k = None" for m :: "uint64 \<rightharpoonup> bool"
    using that by (auto simp: deads_def)
  have old: "int (card (deads (m(k \<mapsto> False)))) = int (card (deads m)) - 1" if "m k = Some True" for m :: "uint64 \<rightharpoonup> bool"
    using that by (simp add: deads_upd card_dead)
  have died: "int (card (deads (m(k \<mapsto> True)))) = int (card (deads m)) + 1" if "m k = Some False" for m :: "uint64 \<rightharpoonup> bool"
    using that by (simp add: deads_upd) (simp add: deads_def)
  have known: "card (insert k (dom m)) = Suc (card (dom m))" if "m k = None" for m :: "uint64 \<rightharpoonup> bool"
    using that by (simp add: domIff card_insert_if)
  have same: "insert k (dom m) = dom m" if "m k \<noteq> None" for m :: "uint64 \<rightharpoonup> bool"
    using that by auto
  note defs = tables_inv_def emplace_def Let_def
  show "tables_inv (monster_seen k s)" "tables_inv (player_logged_in k s)"
    using assms by (simp_all add: monster_seen_def player_logged_in_def defs new known)
  show "tables_inv (monster_died k s)" "tables_inv (player_died k s)"
    using assms by (simp_all add: monster_died_def player_died_def defs died same)
  show "tables_inv (monster_respawned k s)" "tables_inv (player_seen k s)" "tables_inv (player_respawned k s)"
    using assms by (simp_all add: monster_respawned_def player_seen_def player_respawned_def defs new old known same)
qed

subsection \<open>Turns are runs\<close>

definition keeps :: "BOTS \<Rightarrow> BOTS \<Rightarrow> bool" where
  "keeps s s' \<longleftrightarrow> (\<forall>P n. race_step\<^sup>*\<^sup>* (s, P, n) (s', P, n)) \<and> num_connections s' = num_connections s"

lemma keeps_refl [simp]: "keeps s s"
  by (simp add: keeps_def)

lemma keeps_trans: "keeps s s' \<Longrightarrow> keeps s' s'' \<Longrightarrow> keeps s s''"
  unfolding keeps_def by (metis rtranclp_trans)

lemma keeps_cview: "cview s' = cview s \<Longrightarrow> keeps s s'"
  unfolding keeps_def using race_step.other num_cview by blast

lemma keeps_cview_right: "cview s'' = cview s' \<Longrightarrow> keeps s s'' \<longleftrightarrow> keeps s s'"
  using keeps_cview [of s'' s'] keeps_cview [of s' s''] keeps_trans by metis

lemma keeps_upd: "(\<And>c. connected (f c) = connected c) \<Longrightarrow> keeps s (upd i f t) \<longleftrightarrow> keeps s t"
  by (rule keeps_cview_right) (rule cview_upd)

lemmas keeps_simps = keeps_upd cview_env [THEN keeps_cview_right] cview_fields [THEN keeps_cview_right]
  cview_enter [THEN keeps_cview_right] cview_Schedule [THEN keeps_cview_right]

lemma keeps_tables:
  "keeps s (monster_seen k s)" "keeps s (monster_died k s)" "keeps s (monster_respawned k s)"
  "keeps s (player_logged_in k s)" "keeps s (player_seen k s)" "keeps s (player_died k s)" "keeps s (player_respawned k s)"
  unfolding keeps_def num_tables using race_step.tables [of _ k s] by blast+

lemma DisconnectClient_cview:
  "cview (DisconnectClient i s) = (conn s - {i}, num_connections s,
     active_clients s - (if i \<in> conn s then 1 else 0), g_monsterMap s, g_monster_known s, g_monster_dead s,
     g_playerMap s, g_player_dead s)"
proof -
  have c: "connected (g_clients (DisconnectClient i s) j) \<longleftrightarrow> connected (g_clients s j) \<and> j \<noteq> i" for j
    by (simp add: DisconnectClient_def Let_def bot_frame ResetRuntimeState_def)
  then have "conn (DisconnectClient i s) = conn s - {i}"
    by (auto simp: conn_def)
  then show ?thesis
    by (simp add: cview_def) (simp add: DisconnectClient_def Let_def conn_def upd_def leave_zone_def zone_count_add_def)
qed

lemma keeps_disconnect: "keeps s (DisconnectClient i s)"
proof -
  let ?was = "connected (g_clients s i)"
  let ?s1 = "upd i (\<lambda>c. c\<lparr>connected := False\<rparr>) s"
  let ?s2 = "upd i (\<lambda>c. if client_socket c then c\<lparr>client_socket := False\<rparr> else c) ?s1"
  let ?s3 = "?s2\<lparr>active_clients := active_clients ?s2 - (if ?was then 1 else 0)\<rparr>"
  let ?s4 = "if ?was then leave_zone i ?s3 else ?s3"
  have d: "DisconnectClient i s = upd i ResetRuntimeState ?s4"
    by (simp add: DisconnectClient_def Let_def)
  have off: "connected (g_clients ?s4 i) = False"
    by (simp add: bot_frame)
  have "race_step\<^sup>*\<^sup>* (s, P, n) (DisconnectClient i s, P, n)" for P n
  proof -
    have "race_step\<^sup>*\<^sup>* (s, P, n) (?s1, add_mset (Closing i ?was) P, n)"
      by (rule r_into_rtranclp) (rule race_step.close)
    also have "race_step (?s1, add_mset (Closing i ?was) P, n) (?s2, add_mset (Closing i ?was) P, n)"
      by (rule race_step.other) (rule cview_upd, simp)
    also have "race_step (?s2, add_mset (Closing i ?was) P, n) (?s3, add_mset (Resetting i) P, n)"
      by (rule race_step.uncount)
    also have "race_step (?s3, add_mset (Resetting i) P, n) (?s4, add_mset (Resetting i) P, n)"
      by (rule race_step.other) (simp add: cview_env)
    also have "race_step (?s4, add_mset (Resetting i) P, n) (upd i ResetRuntimeState ?s4, P, n)"
      using race_step.reset [of ?s4 i P n] by (simp only: off if_False)
    finally show ?thesis
      unfolding d .
  qed
  moreover have "num_connections (DisconnectClient i s) = num_connections s"
    using DisconnectClient_cview [of i s] by (simp add: cview_def)
  ultimately show ?thesis
    by (simp add: keeps_def)
qed

lemma keeps_login:
  assumes "int i < num_connections s"
  shows "keeps s (on_login_ack i pid x y maxhp hp level ex s)"
proof -
  let ?s0 = "upd i (\<lambda>c. c\<lparr>connected := True\<rparr>) s"
  let ?s1 = "if \<not> connected (g_clients s i) then s\<lparr>active_clients := active_clients s + 1\<rparr> else s"
  let ?s2 = "upd i (\<lambda>c. c\<lparr>connected := True, b_id := pid, b_x := x, b_y := y, b_maxHp := maxhp, b_hp := hp,
      b_level := level, b_exp := ex, b_dead := False, visible_monsters := 0, visible_players := 0,
      last_sent_move_ms := 0\<rparr>) ?s1"
  have "race_step\<^sup>*\<^sup>* (s, P, n) (?s2, P, n)" for P n
  proof (cases "connected (g_clients s i)")
    case True
    have "race_step\<^sup>*\<^sup>* (s, P, n) (?s0, P, n)"
      using r_into_rtranclp [of race_step] race_step.login [OF assms, of P n] True by simp
    also have "race_step (?s0, P, n) (?s2, P, n)"
      using True by (intro race_step.other) (auto simp: cview_def conn_def upd_def)
    finally show ?thesis .
  next
    case False
    have "race_step\<^sup>*\<^sup>* (s, P, n) (?s0, add_mset Counting P, n)"
      using r_into_rtranclp [of race_step] race_step.login [OF assms, of P n] False by simp
    also have "race_step (?s0, add_mset Counting P, n) (?s0\<lparr>active_clients := active_clients ?s0 + 1\<rparr>, P, n)"
      by (rule race_step.count)
    also have "race_step (?s0\<lparr>active_clients := active_clients ?s0 + 1\<rparr>, P, n) (?s2, P, n)"
      using False by (intro race_step.other) (auto simp: cview_def conn_def upd_def)
    finally show ?thesis .
  qed
  then have "keeps s ?s2"
    by (simp add: keeps_def upd_def)
  then have "keeps s (enter_zone i (bot_GetZoneId x y) (leave_zone i ?s2))"
    by (simp only: keeps_simps)
  then have "keeps s (player_logged_in (m_DatabaseID pid) (enter_zone i (bot_GetZoneId x y) (leave_zone i ?s2)))"
    using keeps_tables(4) keeps_trans by blast
  then show ?thesis
    unfolding on_login_ack_def Let_def by (simp only: keeps_simps)
qed

interpretation race: thread_relation keeps
proof
  show "num_connections s' = num_connections s" if "keeps s s'" for s s'
    using that by (simp add: keeps_def)
  show "keeps s s'" if "bview s' = bview s" for s s'
    using that by (simp add: bview_def keeps_cview)
qed (auto intro: keeps_trans keeps_disconnect keeps_login keeps_tables)

lemma keeps_reduce: "keeps s t \<Longrightarrow> keeps s (Adjust_reduce a n tm e t)"
  by (simp add: Adjust_reduce_def Let_def keeps_simps race.R_close)

subsection \<open>New connections\<close>

text \<open>Up to the answer of the server a new client is not counted, whatever the operating system says.\<close>

definition off :: "nat \<Rightarrow> BOTS \<Rightarrow> BOTS \<Rightarrow> bool" where
  "off i s t \<longleftrightarrow> i \<notin> conn t \<and> cview t = cview s"

lemma off_cview: "cview t' = cview t \<Longrightarrow> off i s t' \<longleftrightarrow> off i s t"
  by (auto simp: off_def cview_def)

lemmas off_simps = cview_env [THEN off_cview] cview_fields [THEN off_cview]

lemma off_upd: "(\<And>c. connected (f c) \<Longrightarrow> connected c) \<Longrightarrow> off i s t \<Longrightarrow> off i s (upd i f t)"
  using conn_upd [of i f t] by (auto simp: off_def cview_def conn_def upd_def)

lemma off_socket: "off i s (upd i (\<lambda>c. c\<lparr>client_socket := b\<rparr>) t) \<longleftrightarrow> off i s t"
  by (rule off_cview) (simp add: cview_upd)

lemma off_disconnect: "off i s t \<Longrightarrow> off i s (DisconnectClient i t)"
  using DisconnectClient_cview [of i t] by (auto simp: off_def cview_def)

lemma off_connect:
  assumes "off i s t"
  shows "off i s (snd (ConnectClient i t))"
proof -
  have r: "off i s (upd i ResetForConnect t)"
    by (rule off_upd) (simp_all add: assms ResetForConnect_def ResetRuntimeState_def)
  have p: "off i s (snd (bot_PostRecv i t))" and q: "off i s (snd (bot_SendPacket i pkt t))" if "off i s t" for t pkt
    using that by (simp_all add: bot_PostRecv_def bot_SendPacket_def Let_def case_prod_unfold off_simps off_disconnect)
  show ?thesis
    by (simp add: ConnectClient_def Let_def case_prod_unfold off_simps off_disconnect off_socket p q r)
qed

lemma finite_conn: "race_inv (s, P, n) \<Longrightarrow> finite (conn s)"
  by (rule finite_subset [of _ "{..<nat (num_connections s)}"]) (auto simp: race_inv_def)

lemma pending_counts [simp]:
  "uncounted (add_mset p P) = (if p = Counting then 1 else 0) + uncounted P"
  "closing (add_mset p P) = (if \<exists>i. p = Closing i True then 1 else 0) + closing P"
  "uncounted {#} = 0" "closing {#} = 0"
  by (simp_all add: uncounted_def closing_def)

lemma race_inv_conn:
  assumes "race_inv (s, P, n)" "num_connections s' = num_connections s" "conn s' \<subseteq> {i. int i < num_connections s}"
    and "tables_inv s' = tables_inv s"
    and "active_clients s' + uncounted Q - int (card (conn s')) - closing Q - int k
      = active_clients s + uncounted P - int (card (conn s)) - closing P - int n"
  shows "race_inv (s', Q, k)"
  using assms by (auto simp: race_inv_def)

lemma card_conn_upd:
  assumes "finite (conn s)"
  shows "int (card (conn (upd i f s))) = int (card (conn s)) - (if connected (g_clients s i) then 1 else 0)
    + (if connected (f (g_clients s i)) then 1 else 0)"
proof -
  have "i \<in> conn s \<longleftrightarrow> connected (g_clients s i)"
    by (simp add: conn_def)
  then show ?thesis
    using assms card_Suc_Diff1 [of "conn s" i] by (auto simp: conn_upd card_insert_if)
qed

lemma race_inv_upd:
  assumes inv: "race_inv (s, P, n)"
    and c: "connected (f (g_clients s i)) \<Longrightarrow> int i < num_connections s"
    and eq: "uncounted Q - (if connected (f (g_clients s i)) then 1 else 0) - closing Q - int k
      = uncounted P - (if connected (g_clients s i) then 1 else 0) - closing P - int n"
  shows "race_inv (upd i f s, Q, k)"
proof (rule race_inv_conn [OF inv])
  show "conn (upd i f s) \<subseteq> {i. int i < num_connections s}"
    using inv c by (auto simp: conn_upd race_inv_def)
  show "active_clients (upd i f s) + uncounted Q - int (card (conn (upd i f s))) - closing Q - int k
      = active_clients s + uncounted P - int (card (conn s)) - closing P - int n"
  proof -
    have "active_clients (upd i f s) = active_clients s"
      by (simp add: upd_def)
    then show ?thesis
      using eq card_conn_upd [OF finite_conn [OF inv], of i f] by linarith
  qed
qed (simp_all add: upd_def tables_inv_def)

lemma race_inv_step: "race_step r r' \<Longrightarrow> race_inv r \<Longrightarrow> race_inv r'"
proof (induction rule: race_step.induct)
  case (login i s P n)
  then show ?case
    by (intro race_inv_upd [OF login(2)]) auto
next
  case (close s P n i)
  then show ?case
    by (intro race_inv_upd [OF close]) auto
next
  case (reset s i P n)
  then show ?case
    by (intro race_inv_upd [OF reset]) (auto simp: ResetRuntimeState_def)
next
  case (tables s' k s P n)
  have "tables_inv s'"
    using tables tables_inv_tables [of s] by (auto simp: race_inv_def)
  moreover have "conn s' = conn s" "active_clients s' = active_clients s" "num_connections s' = num_connections s"
    using tables(1) by (auto simp: conn_def num_tables bot_frame active_tables)
  ultimately show ?case
    using tables(2) by (simp add: race_inv_def)
next
  case (opened s P n)
  then show ?case
    by (auto simp: race_inv_def conn_def tables_inv_def)
next
  case (other s' s P n)
  then show ?case
    using race_inv_cview by blast
qed (auto simp: race_inv_def conn_def tables_inv_def)

lemma race_inv_run: "race_step\<^sup>*\<^sup>* r r' \<Longrightarrow> race_inv r \<Longrightarrow> race_inv r'"
  by (induction rule: rtranclp_induct) (auto intro: race_inv_step)

lemma race_inv_start: "race_inv (bots_start clock rand os, {#}, 0)"
  by (simp add: bots_start_def InitializeNetwork_def Let_def now_def race_inv_def tables_inv_def conn_def deads_def
      ResetRuntimeState_def bot_consts)

lemma race_inv_reachable: "race_reachable r \<Longrightarrow> race_inv r"
  unfolding race_reachable_def using race_inv_run race_inv_start by blast

text \<open>Opening connections uses an index that no client has.\<close>

lemma run_connect:
  assumes "race_inv (s, P, n)" "num_connections s < MAX_CLIENTS"
  defines "i \<equiv> nat (num_connections s)" and "t \<equiv> s\<lparr>num_connections := num_connections s + 1\<rparr>"
  shows "race_step\<^sup>*\<^sup>* (s, P, n) (snd (ConnectClient i t), P, n)"
    "race_step\<^sup>*\<^sup>* (s, P, n) (DisconnectClient i (snd (ConnectClient i t)), P, n)"
proof -
  have "0 \<le> num_connections s" "\<forall>j \<in> conn s. int j < num_connections s"
    using assms(1) by (simp_all add: race_inv_def)
  then have "i \<notin> conn s"
    unfolding i_def by (metis int_nat_eq less_irrefl)
  then have "off i t t"
    by (simp add: off_def t_def conn_def)
  then have o: "off i t (snd (ConnectClient i t))"
    by (rule off_connect)
  have "race_step (s, P, n) (t, P, n)"
    unfolding t_def using assms(2) by (rule race_step.opened)
  then show "race_step\<^sup>*\<^sup>* (s, P, n) (snd (ConnectClient i t), P, n)"
    "race_step\<^sup>*\<^sup>* (s, P, n) (DisconnectClient i (snd (ConnectClient i t)), P, n)"
    using o off_disconnect [OF o] race_step.other unfolding off_def
    by (blast intro: converse_rtranclp_into_rtranclp)+
qed

lemma run_batch: "race_inv (s, P, n) \<Longrightarrow> race_step\<^sup>*\<^sup>* (s, P, n) (connect_batch b s, P, n)"
proof (induction b arbitrary: s)
  case (Suc b)
  have step: "race_step\<^sup>*\<^sup>* (s, P, n) (connect_batch b t, P, n)" if "race_step\<^sup>*\<^sup>* (s, P, n) (t, P, n)" for t
    using that Suc.IH [OF race_inv_run [OF that Suc.prems]] by (rule rtranclp_trans)
  show ?case
    using run_connect [OF Suc.prems] step by (simp add: Let_def case_prod_unfold not_le)
qed simp

text \<open>A run followed by changes outside the counted part.\<close>

lemma run_cview: "cview t = cview u \<Longrightarrow> race_step\<^sup>*\<^sup>* r (t, P, n) \<longleftrightarrow> race_step\<^sup>*\<^sup>* r (u, P, n)"
  using race_step.other [of t u P n] race_step.other [of u t P n]
    rtranclp.rtrancl_into_rtrancl [of race_step r "(t, P, n)" "(u, P, n)"]
    rtranclp.rtrancl_into_rtrancl [of race_step r "(u, P, n)" "(t, P, n)"]
  by auto

lemmas run_simps = cview_fields [THEN run_cview] cview_env [THEN run_cview]

lemma run_keeps: "race_step\<^sup>*\<^sup>* r (s, P, n) \<Longrightarrow> keeps s t \<Longrightarrow> race_step\<^sup>*\<^sup>* r (t, P, n)"
  using rtranclp_trans [of race_step r "(s, P, n)" "(t, P, n)"] by (simp add: keeps_def)

lemma run_ramp:
  assumes "race_inv (s, P, n)"
  shows "race_step\<^sup>*\<^sup>* (s, P, n) (Adjust_ramp a tm e s, P, n)"
proof -
  have batch: "race_step\<^sup>*\<^sup>* (s, P, n) (connect_batch b t, P, n)" if "cview t = cview s" for b t
  proof -
    have "race_step (s, P, n) (t, P, n)" "race_inv (t, P, n)"
      using that assms race_inv_cview [OF that] by (simp_all add: race_step.other)
    then show ?thesis
      using converse_rtranclp_into_rtranclp [of race_step, OF _ run_batch] by simp
  qed
  show ?thesis
    unfolding Adjust_ramp_def Let_def by (simp add: batch cview_fields run_simps)
qed

lemma run_adjust:
  assumes "race_inv (s, P, n)"
  shows "race_step\<^sup>*\<^sup>* (s, P, n) (Adjust_Number_Of_Client s, P, n)"
proof -
  have now: "race_step\<^sup>*\<^sup>* (s, P, n) (snd (now s), P, n)"
    by (simp add: run_simps)
  then have "race_step\<^sup>*\<^sup>* (s, P, n) (Adjust_ramp a tm e (snd (now s)), P, n)" for a tm e
    using rtranclp_trans [OF now run_ramp [OF race_inv_run [OF now assms]]] by simp
  moreover have "race_step\<^sup>*\<^sup>* (s, P, n) (Adjust_reduce a c tm e (snd (now s)), P, n)" for a c tm e
    using run_keeps [OF now keeps_reduce [OF keeps_refl]] .
  ultimately show ?thesis
    by (simp add: Adjust_Number_Of_Client_def Let_def case_prod_unfold run_simps)
qed

lemma run_history: "race_step\<^sup>*\<^sup>* r (record_history s, P, n) \<longleftrightarrow> race_step\<^sup>*\<^sup>* r (s, P, n)"
  by (simp add: record_history_def Let_def run_simps)

lemma run_test:
  assumes "race_inv (s, P, n)"
  shows "race_step\<^sup>*\<^sup>* (s, P, n) (Test_Turn s, P, n)"
proof -
  have "race_step\<^sup>*\<^sup>* (s, P, n) (snd (now (Adjust_Number_Of_Client s)), P, n)"
    using run_adjust [OF assms] by (simp add: run_simps)
  then have "race_step\<^sup>*\<^sup>* (s, P, n) (snd (fold (visit_client t) is (sums, snd (now (Adjust_Number_Of_Client s)))), P, n)"
    for t "is" sums
    using run_keeps race.R_visits by blast
  then show ?thesis
    by (simp add: Test_Turn_def Let_def case_prod_unfold run_history run_simps)
qed

text \<open>Every turn of a thread that runs without interruption is a run of single accesses.\<close>

lemma run_turn: "bot_step s s' \<Longrightarrow> race_inv (s, P, n) \<Longrightarrow> race_step\<^sup>*\<^sup>* (s, P, n) (s', P, n)"
  by (elim bot_stepE) (use race.R_worker run_test in \<open>auto simp: keeps_def\<close>)

lemma race_turn: "race_reachable (s, P, n) \<Longrightarrow> bot_step s s' \<Longrightarrow> race_reachable (s', P, n)"
  using run_turn [OF _ race_inv_reachable, of s s' P n] rtranclp_trans [of race_step _ "(s, P, n)" "(s', P, n)"]
  unfolding race_reachable_def by blast

end
