(* ===== verification/BotFraming.thy ===== *)
theory BotFraming
  imports BotCounts
begin

text \<open>
  The receive loop of the load generator against the reference: \<open>ConsumeReceivedBytes\<close>, which assembles
  packets in a fixed buffer of 255 bytes, delivers the packets of the stream one by one.  \<open>unbuf\<close> forgets
  the content of the buffer of one client; the reactions to packets commute with it.
\<close>

definition clear_buf :: "CLIENT \<Rightarrow> CLIENT" where
  "clear_buf c = c\<lparr>packet_buf := replicate MAX_PACKET_SIZE 0, buffered_bytes := 0\<rparr>"

definition unbuf :: "nat \<Rightarrow> BOTS \<Rightarrow> BOTS" where
  "unbuf i s = upd i clear_buf s"

named_theorems unbuf_rules \<open>operations that commute with forgetting a receive buffer\<close>

lemma upd_upd: "upd i f (upd i g s) = upd i (\<lambda>c. f (g c)) s"
  by (simp add: upd_def)

lemma unbuf_upd: "(\<And>c. f (clear_buf c) = clear_buf (f c)) \<Longrightarrow> upd i f (unbuf i s) = unbuf i (upd i f s)"
  by (simp add: unbuf_def upd_upd)

lemma unbuf_env [unbuf_rules]:
  "now (unbuf i s) = (fst (now s), unbuf i (snd (now s)))"
  "RandomRange a b (unbuf i s) = (fst (RandomRange a b s), unbuf i (snd (RandomRange a b s)))"
  by (simp_all add: now_def RandomRange_def unbuf_def upd_def)

lemma unbuf_soon [unbuf_rules]: "soon a b (unbuf i s) = (fst (soon a b s), unbuf i (snd (soon a b s)))"
  by (simp add: soon_def unbuf_rules case_prod_unfold Let_def)

lemma unbuf_fields [simp]:
  "connected (g_clients (unbuf i s) i) = connected (g_clients s i)" "zone_id (g_clients (unbuf i s) i) = zone_id (g_clients s i)"
  "b_id (g_clients (unbuf i s) i) = b_id (g_clients s i)"
  "last_sent_move_ms (g_clients (unbuf i s) i) = last_sent_move_ms (g_clients s i)"
  by (simp_all add: unbuf_def clear_buf_def)

lemma unbuf_globals [simp]:
  "active_clients (unbuf i s) = active_clients s" "g_items_picked (unbuf i s) = g_items_picked s"
  "g_potions_used (unbuf i s) = g_potions_used s" "global_delay (unbuf i s) = global_delay s"
  by (simp_all add: unbuf_def upd_def)

lemma unbuf_sets [unbuf_rules]:
  "(unbuf i s)\<lparr>active_clients := n\<rparr> = unbuf i (s\<lparr>active_clients := n\<rparr>)"
  "(unbuf i s)\<lparr>g_items_picked := n\<rparr> = unbuf i (s\<lparr>g_items_picked := n\<rparr>)"
  "(unbuf i s)\<lparr>g_potions_used := n\<rparr> = unbuf i (s\<lparr>g_potions_used := n\<rparr>)"
  by (simp_all add: unbuf_def upd_def)

lemma unbuf_counts [unbuf_rules]:
  "leave_zone i (unbuf i s) = unbuf i (leave_zone i s)" "zone_count_add z d (unbuf i s) = unbuf i (zone_count_add z d s)"
  "monster_seen m (unbuf i s) = unbuf i (monster_seen m s)" "monster_died m (unbuf i s) = unbuf i (monster_died m s)"
  "monster_respawned m (unbuf i s) = unbuf i (monster_respawned m s)"
  "player_logged_in m (unbuf i s) = unbuf i (player_logged_in m s)" "player_seen m (unbuf i s) = unbuf i (player_seen m s)"
  "player_died m (unbuf i s) = unbuf i (player_died m s)" "player_respawned m (unbuf i s) = unbuf i (player_respawned m s)"
  "UpdateDelayEstimate t (unbuf i s) = unbuf i (UpdateDelayEstimate t s)"
  by (simp_all add: leave_zone_def zone_count_add_def monster_seen_def monster_died_def monster_respawned_def
      player_logged_in_def player_seen_def player_died_def player_respawned_def UpdateDelayEstimate_def
      NowMilliseconds_def now_def emplace_def Let_def unbuf_def upd_def clear_buf_def)

lemma clear_fields [unbuf_rules]:
  "(clear_buf c)\<lparr>b_id := v0\<rparr> = clear_buf (c\<lparr>b_id := v0\<rparr>)"
  "(clear_buf c)\<lparr>b_x := v1\<rparr> = clear_buf (c\<lparr>b_x := v1\<rparr>)"
  "(clear_buf c)\<lparr>b_y := v2\<rparr> = clear_buf (c\<lparr>b_y := v2\<rparr>)"
  "(clear_buf c)\<lparr>b_maxHp := v3\<rparr> = clear_buf (c\<lparr>b_maxHp := v3\<rparr>)"
  "(clear_buf c)\<lparr>b_hp := v4\<rparr> = clear_buf (c\<lparr>b_hp := v4\<rparr>)"
  "(clear_buf c)\<lparr>b_level := v5\<rparr> = clear_buf (c\<lparr>b_level := v5\<rparr>)"
  "(clear_buf c)\<lparr>b_exp := v6\<rparr> = clear_buf (c\<lparr>b_exp := v6\<rparr>)"
  "(clear_buf c)\<lparr>visible_monsters := v7\<rparr> = clear_buf (c\<lparr>visible_monsters := v7\<rparr>)"
  "(clear_buf c)\<lparr>visible_players := v8\<rparr> = clear_buf (c\<lparr>visible_players := v8\<rparr>)"
  "(clear_buf c)\<lparr>b_dead := v9\<rparr> = clear_buf (c\<lparr>b_dead := v9\<rparr>)"
  "(clear_buf c)\<lparr>zone_id := v10\<rparr> = clear_buf (c\<lparr>zone_id := v10\<rparr>)"
  "(clear_buf c)\<lparr>last_sent_move_ms := v11\<rparr> = clear_buf (c\<lparr>last_sent_move_ms := v11\<rparr>)"
  "(clear_buf c)\<lparr>connected := v12\<rparr> = clear_buf (c\<lparr>connected := v12\<rparr>)"
  "(clear_buf c)\<lparr>potion_slot := v13\<rparr> = clear_buf (c\<lparr>potion_slot := v13\<rparr>)"
  "(clear_buf c)\<lparr>potion_count := v14\<rparr> = clear_buf (c\<lparr>potion_count := v14\<rparr>)"
  "(clear_buf c)\<lparr>equip_slot := v15\<rparr> = clear_buf (c\<lparr>equip_slot := v15\<rparr>)"
  "(clear_buf c)\<lparr>b_equipped := v16\<rparr> = clear_buf (c\<lparr>b_equipped := v16\<rparr>)"
  "(clear_buf c)\<lparr>visible_items := v17\<rparr> = clear_buf (c\<lparr>visible_items := v17\<rparr>)"
  "(clear_buf c)\<lparr>target_item_id := v18\<rparr> = clear_buf (c\<lparr>target_item_id := v18\<rparr>)"
  "(clear_buf c)\<lparr>target_item_x := v19\<rparr> = clear_buf (c\<lparr>target_item_x := v19\<rparr>)"
  "(clear_buf c)\<lparr>target_item_y := v20\<rparr> = clear_buf (c\<lparr>target_item_y := v20\<rparr>)"
  "(clear_buf c)\<lparr>has_target_item := v21\<rparr> = clear_buf (c\<lparr>has_target_item := v21\<rparr>)"
  "(clear_buf c)\<lparr>client_socket := v22\<rparr> = clear_buf (c\<lparr>client_socket := v22\<rparr>)"
  "(clear_buf c)\<lparr>next_pickup_time := v23\<rparr> = clear_buf (c\<lparr>next_pickup_time := v23\<rparr>)"
  by (simp_all add: clear_buf_def)

lemma clear_reads [simp]:
  "visible_monsters (clear_buf c) = visible_monsters c"
  "visible_players (clear_buf c) = visible_players c"
  "visible_items (clear_buf c) = visible_items c"
  "has_target_item (clear_buf c) = has_target_item c"
  "target_item_id (clear_buf c) = target_item_id c"
  "client_socket (clear_buf c) = client_socket c"
  "potion_slot (clear_buf c) = potion_slot c"
  "equip_slot (clear_buf c) = equip_slot c"
  by (simp_all add: clear_buf_def)

lemma unbuf_updates [unbuf_rules]:
  "upd i (\<lambda>c. c\<lparr>zone_id := z\<rparr>) (unbuf i s) = unbuf i (upd i (\<lambda>c. c\<lparr>zone_id := z\<rparr>) s)"
  by (simp add: unbuf_upd clear_buf_def)

lemma unbuf_enter [unbuf_rules]: "enter_zone i z (unbuf i s) = unbuf i (enter_zone i z s)"
  by (simp add: enter_zone_def unbuf_rules)

lemma unbuf_Schedule [unbuf_rules]: "ScheduleBehavior i (unbuf i s) = unbuf i (ScheduleBehavior i s)"
  by (simp add: ScheduleBehavior_def Let_def case_prod_unfold unbuf_rules unbuf_upd clear_buf_def)

lemma clear_slot: "bot_ApplyInventorySlot d (clear_buf c) = clear_buf (bot_ApplyInventorySlot d c)"
  by (simp add: bot_ApplyInventorySlot_def Let_def clear_buf_def)

lemma clear_slots: "fold bot_ApplyInventorySlot ds (clear_buf c) = clear_buf (fold bot_ApplyInventorySlot ds c)"
  by (induction ds arbitrary: c) (simp_all add: clear_slot)

lemma unbuf_list [unbuf_rules]: "on_item_list i n ds (unbuf i s) = unbuf i (on_item_list i n ds s)"
proof -
  have "(clear_buf c)\<lparr>potion_slot := a, potion_count := b, equip_slot := d, b_equipped := e\<rparr> =
      clear_buf (c\<lparr>potion_slot := a, potion_count := b, equip_slot := d, b_equipped := e\<rparr>)" for c a b d e
    by (simp add: clear_buf_def)
  then show ?thesis
    by (simp add: on_item_list_def unbuf_upd clear_slots)
qed

lemma unbuf_slot [unbuf_rules]: "upd i (bot_ApplyInventorySlot d) (unbuf i s) = unbuf i (upd i (bot_ApplyInventorySlot d) s)"
  by (simp add: unbuf_upd clear_slot)

lemma unbuf_disconnect [unbuf_rules]: "DisconnectClient i (unbuf i s) = unbuf i (DisconnectClient i s)"
proof -
  have "ResetRuntimeState (clear_buf c) = clear_buf (ResetRuntimeState c)" for c
    by (simp add: clear_buf_def ResetRuntimeState_def)
  moreover have "(if client_socket (clear_buf c) then (clear_buf c)\<lparr>client_socket := False\<rparr> else clear_buf c) =
      clear_buf (if client_socket c then c\<lparr>client_socket := False\<rparr> else c)" for c
    by (simp add: clear_buf_def)
  moreover have "(clear_buf c)\<lparr>connected := False\<rparr> = clear_buf (c\<lparr>connected := False\<rparr>)" for c
    by (simp add: clear_buf_def)
  ultimately show ?thesis
    by (simp add: DisconnectClient_def Let_def unbuf_rules unbuf_upd)
qed

lemma unbuf_on_login_ack [unbuf_rules]: "on_login_ack i pid x y maxhp hp level ex (unbuf i s) = unbuf i (on_login_ack i pid x y maxhp hp level ex s)"
  by (simp add: on_login_ack_def Let_def unbuf_rules unbuf_upd)

lemma unbuf_on_move [unbuf_rules]: "on_move i pid x y (unbuf i s) = unbuf i (on_move i pid x y s)"
  by (simp add: on_move_def Let_def unbuf_rules unbuf_upd)

lemma unbuf_on_add [unbuf_rules]: "on_add i pid x y (unbuf i s) = unbuf i (on_add i pid x y s)"
  by (simp add: on_add_def Let_def unbuf_rules unbuf_upd)

lemma unbuf_on_remove [unbuf_rules]: "on_remove i pid (unbuf i s) = unbuf i (on_remove i pid s)"
proof -
  have "upd i (\<lambda>c. let c = c\<lparr>visible_items := max 0 (visible_items c - 1)\<rparr> in
      if has_target_item c \<and> pid = target_item_id c then c\<lparr>has_target_item := False\<rparr> else c) (unbuf i s) =
    unbuf i (upd i (\<lambda>c. let c = c\<lparr>visible_items := max 0 (visible_items c - 1)\<rparr> in
      if has_target_item c \<and> pid = target_item_id c then c\<lparr>has_target_item := False\<rparr> else c) s)"
    by (rule unbuf_upd) (auto simp: Let_def unbuf_rules)
  then show ?thesis
    by (simp add: on_remove_def unbuf_rules unbuf_upd)
qed

lemma unbuf_on_die [unbuf_rules]: "on_die i pid hp (unbuf i s) = unbuf i (on_die i pid hp s)"
  by (simp add: on_die_def Let_def unbuf_rules unbuf_upd)

lemma unbuf_on_respawn [unbuf_rules]: "on_respawn i pid x y hp (unbuf i s) = unbuf i (on_respawn i pid x y hp s)"
  by (simp add: on_respawn_def Let_def unbuf_rules unbuf_upd)

lemma unbuf_handle: "bot_handle i p (unbuf i s) = unbuf i (bot_handle i p s)"
  by (cases "(i, p, s)" rule: bot_handle.cases)
    (auto simp: unbuf_rules unbuf_upd case_prod_unfold Let_def)

subsection \<open>Assembling a packet\<close>

definition bot_holds :: "nat \<Rightarrow> BOTS \<Rightarrow> uint8 list \<Rightarrow> bool" where
  "bot_holds i s part \<longleftrightarrow> length (packet_buf (g_clients s i)) = MAX_PACKET_SIZE \<and>
     buffered_bytes (g_clients s i) = length part \<and> take (length part) (packet_buf (g_clients s i)) = part"

definition bot_recv :: "nat \<Rightarrow> uint8 list \<Rightarrow> BOTS \<Rightarrow> BOTS option" where
  "bot_recv i d s = (case ConsumeReceivedBytes i d s of Some (True, s') \<Rightarrow> Some s' | _ \<Rightarrow> None)"

definition bot_delivers :: "nat \<Rightarrow> BOTS \<Rightarrow> ServerPacket list \<Rightarrow> BOTS \<Rightarrow> bool" where
  "bot_delivers i s ps s' \<longleftrightarrow> unbuf i s' = fold (\<lambda>p. bot_handle i (as_read p)) ps (unbuf i s)"

lemma unbuf_copy: "unbuf i (upd i (copy_in bs) s) = unbuf i s" "unbuf i (upd i (\<lambda>c. c\<lparr>buffered_bytes := n\<rparr>) s) = unbuf i s"
  by (simp_all add: unbuf_def upd_def copy_in_def clear_buf_def)

lemma holds_copy:
  assumes "bot_holds i s part" "length part + length bs \<le> MAX_PACKET_SIZE"
  shows "bot_holds i (upd i (copy_in bs) s) (part @ bs)"
  using assms by (simp add: bot_holds_def copy_in_def)

lemma holds_size:
  assumes "bot_holds i s part" "2 \<le> length part"
  shows "rd16 (packet_buf (g_clients s i)) 0 = rd16 part 0"
proof -
  have "packet_buf (g_clients s i) = part @ drop (length part) (packet_buf (g_clients s i))"
    using assms(1) by (metis append_take_drop_id bot_holds_def)
  then show ?thesis
    using assms(2) rd16_append_right [of 0 part] by (metis One_nat_def Suc_1 Suc_le_lessD add_0)
qed

lemma body_packet:
  assumes "bot_holds i s part" "2 \<le> length part" "strict_prefix part (encode p)" "part @ d1 = encode p"
  shows "\<exists>s1. fill_body i (d1 @ d2) s =
      Inr (d2, bot_ProcessPacket i (encode p @ replicate (MAX_PACKET_SIZE - length (encode p)) 0) s1) \<and>
    bot_holds i s1 [] \<and> unbuf i s1 = unbuf i s"
proof -
  let ?s = "upd i (copy_in d1) s" let ?s1 = "upd i (\<lambda>c. c\<lparr>buffered_bytes := 0\<rparr>) ?s"
  have size: "unat (rd16 (packet_buf (g_clients s i)) 0) = length (encode p)"
    using holds_size [OF assms(1,2)] ss.partial_size [OF assms(3,2)] by simp
  have le: "length (encode p) \<le> 214" "3 \<le> length (encode p)" "encode p \<noteq> []"
    using encode_header [of p] by auto
  have len: "length (encode p) - length part = length d1" "buffered_bytes (g_clients s i) = length part"
    "length part \<le> length (encode p)"
    using assms(1) by (simp_all add: bot_holds_def flip: assms(4))
  have h: "bot_holds i ?s (encode p)"
    using holds_copy [OF assms(1), of d1] le assms(4) len by (simp add: bot_consts)
  then have "take (length (encode p)) (packet_buf (g_clients ?s i)) = encode p" "buffered_bytes (g_clients ?s i) = length (encode p)"
    by (simp_all add: bot_holds_def)
  then have "fill_body i (d1 @ d2) s =
      Inr (d2, bot_ProcessPacket i (encode p @ replicate (MAX_PACKET_SIZE - length (encode p)) 0) ?s1)"
    using size len le by (simp only: fill_body_def Let_def) (simp add: bot_consts)
  moreover have "bot_holds i ?s1 []"
    using h by (simp add: bot_holds_def)
  ultimately show ?thesis
    by (intro exI [of _ ?s1]) (simp add: unbuf_copy)
qed

lemma body_part:
  assumes "bot_holds i s part" "2 \<le> length part" "strict_prefix (part @ d) (encode p)"
  shows "\<exists>s1. fill_body i d s = Inr ([], s1) \<and> bot_holds i s1 (part @ d) \<and> unbuf i s1 = unbuf i s"
proof -
  let ?s = "upd i (copy_in d) s"
  have le: "length (encode p) \<le> 214" "encode p \<noteq> []"
    using encode_header [of p] by auto
  have part: "strict_prefix part (encode p)"
    using assms(3) by (auto simp: strict_prefix_def prefix_def)
  have size: "unat (rd16 (packet_buf (g_clients s i)) 0) = length (encode p)"
    using holds_size [OF assms(1,2)] ss.partial_size [OF part assms(2)] by simp
  have len: "length part + length d < length (encode p)" "buffered_bytes (g_clients s i) = length part"
    using assms(1) prefix_length_less [OF assms(3)] by (simp_all add: bot_holds_def)
  have h: "bot_holds i ?s (part @ d)"
    using holds_copy [OF assms(1), of d] le len by (simp add: bot_consts)
  then have b: "buffered_bytes (g_clients ?s i) = length part + length d"
    by (simp add: bot_holds_def)
  have "fill_body i d s = Inr ([], ?s)"
    using size len le b by (simp only: fill_body_def Let_def) (simp add: bot_consts)
  with h show ?thesis
    by (intro exI [of _ ?s]) (simp add: unbuf_copy)
qed

lemma header_part:
  assumes "bot_holds i s part"
  obtains s1 where "fill_header i d s = (drop (2 - length part) d, s1)" "bot_holds i s1 (part @ take (2 - length part) d)"
    "unbuf i s1 = unbuf i s"
proof (cases "length part < 2")
  case True
  let ?n = "min (2 - length part) (length d)"
  have "take ?n d = take (2 - length part) d" "drop ?n d = drop (2 - length part) d"
    by (simp_all add: min_def)
  moreover have "buffered_bytes (g_clients s i) = length part"
    using assms by (simp add: bot_holds_def)
  ultimately have "fill_header i d s = (drop (2 - length part) d, upd i (copy_in (take (2 - length part) d)) s)"
    using True by (simp add: fill_header_def Let_def)
  moreover have "bot_holds i (upd i (copy_in (take (2 - length part) d)) s) (part @ take (2 - length part) d)"
    using True by (intro holds_copy [OF assms]) (simp add: bot_consts)
  ultimately show ?thesis
    using that by (simp add: unbuf_copy)
next
  case False
  then show ?thesis
    using assms that [of s] by (simp add: fill_header_def bot_holds_def)
qed

lemma Consume_nil: "ConsumeReceivedBytes i [] s = Some (True, s)"
  by (subst ConsumeReceivedBytes.simps) simp

lemma holds_buffered: "bot_holds i s part \<Longrightarrow> buffered_bytes (g_clients s i) = length part"
  by (simp add: bot_holds_def)

lemma consume_packet:
  assumes "bot_holds i s part" "strict_prefix part (encode p)" "part @ d1 = encode p"
  shows "\<exists>s1. ConsumeReceivedBytes i (d1 @ d2) s =
      ConsumeReceivedBytes i d2 (bot_ProcessPacket i (encode p @ replicate (MAX_PACKET_SIZE - length (encode p)) 0) s1) \<and>
    bot_holds i s1 [] \<and> unbuf i s1 = unbuf i s"
proof -
  let ?n = "2 - length part"
  have len: "3 \<le> length part + length d1" "d1 \<noteq> []"
    using encode_header(2) [of p] assms(2,3) by (metis length_append) (use assms(2,3) in auto)
  then have "0 < length d1"
    by simp
  with len(1) have "?n < length d1"
    by linarith
  then have n: "?n \<le> length d1" "part @ take ?n d1 @ drop ?n d1 = encode p" "drop ?n d1 \<noteq> []"
    using assms(3) by simp_all
  obtain s1 where h: "fill_header i (d1 @ d2) s = (drop ?n (d1 @ d2), s1)" "bot_holds i s1 (part @ take ?n (d1 @ d2))"
    "unbuf i s1 = unbuf i s"
    using header_part [OF assms(1)] .
  have t: "part @ take ?n (d1 @ d2) = part @ take ?n d1" "drop ?n (d1 @ d2) = drop ?n d1 @ d2"
    using n(1) by simp_all
  have pre: "strict_prefix (part @ take ?n d1) (encode p)"
    using n(2,3) by (metis append_assoc append_self_conv prefixI strict_prefixI)
  have l2: "2 \<le> length (part @ take ?n d1)"
    using n(1) by simp
  have eq: "(part @ take ?n d1) @ drop ?n d1 = encode p"
    using n(2) by simp
  obtain s2 where b: "fill_body i (drop ?n d1 @ d2) s1 =
      Inr (d2, bot_ProcessPacket i (encode p @ replicate (MAX_PACKET_SIZE - length (encode p)) 0) s2)"
    "bot_holds i s2 []" "unbuf i s2 = unbuf i s1"
    using body_packet [OF h(2) [unfolded t(1)] l2 pre eq, of d2] by blast
  have "\<not> buffered_bytes (g_clients s1 i) < 2"
    using holds_buffered [OF h(2)] l2 t(1) by simp
  then have "ConsumeReceivedBytes i (d1 @ d2) s =
      ConsumeReceivedBytes i d2 (bot_ProcessPacket i (encode p @ replicate (MAX_PACKET_SIZE - length (encode p)) 0) s2)"
    using len(2) h(1) b(1) t(2) by (subst ConsumeReceivedBytes.simps) simp
  with b h(3) show ?thesis
    by auto
qed

lemma consume_part:
  assumes "bot_holds i s part" "strict_prefix (part @ d) (encode p)"
  shows "\<exists>s1. ConsumeReceivedBytes i d s = Some (True, s1) \<and> bot_holds i s1 (part @ d) \<and> unbuf i s1 = unbuf i s"
proof (cases "d = []")
  case False
  let ?n = "2 - length part"
  obtain s1 where h: "fill_header i d s = (drop ?n d, s1)" "bot_holds i s1 (part @ take ?n d)" "unbuf i s1 = unbuf i s"
    using header_part [OF assms(1)] .
  show ?thesis
  proof (cases "length (part @ take ?n d) < 2")
    case True
    then have "drop ?n d = []" "take ?n d = d"
      by auto
    moreover have "buffered_bytes (g_clients s1 i) < 2"
      using holds_buffered [OF h(2)] True by simp
    ultimately have "ConsumeReceivedBytes i d s = Some (True, s1)"
      using False h(1) by (subst ConsumeReceivedBytes.simps) (simp add: Consume_nil)
    with h \<open>take ?n d = d\<close> show ?thesis
      by auto
  next
    case b2: False
    have "strict_prefix ((part @ take ?n d) @ drop ?n d) (encode p)"
      using assms(2) by simp
    then obtain s2 where b: "fill_body i (drop ?n d) s1 = Inr ([], s2)" "bot_holds i s2 ((part @ take ?n d) @ drop ?n d)"
      "unbuf i s2 = unbuf i s1"
      using body_part [OF h(2) b2 [unfolded not_less]] by blast
    have "\<not> buffered_bytes (g_clients s1 i) < 2"
      using holds_buffered [OF h(2)] b2 by simp
    then have "ConsumeReceivedBytes i d s = Some (True, s2)"
      using False h(1) b(1) by (subst ConsumeReceivedBytes.simps) (simp add: Consume_nil)
    with b h(3) show ?thesis
      by auto
  qed
qed (use assms(1) Consume_nil in auto)

lemma process_encoded:
  "server_ok p \<Longrightarrow> bot_ProcessPacket i (encode p @ zs) s = bot_handle i (as_read p) s"
  by (simp add: bot_ProcessPacket_def decode_encode_server)

lemma holds_handle:
  assumes "bot_holds i s []"
  shows "bot_holds i (bot_handle i p s) []"
  using buffer_of_handle [of i i p s] assms by (auto simp: bot_holds_def buffer_of_def split: if_splits)

lemma bot_recv_law:
  assumes "bot_holds i s part" "\<forall>p \<in> set ps. server_ok p" "part @ d = concat (map encode ps) @ rest"
    "tail_of encode (ps @ qs) part" "tail_of encode qs rest"
  shows "\<exists>s'. ConsumeReceivedBytes i d s = Some (True, s') \<and> bot_holds i s' rest \<and> bot_delivers i s ps s'"
  using assms
proof (induction ps arbitrary: s part d)
  case Nil
  show ?case
  proof (cases "d = []")
    case True
    then show ?thesis
      using Nil by (simp add: Consume_nil bot_delivers_def)
  next
    case False
    then obtain q qs' where "qs = q # qs'" "strict_prefix (part @ d) (encode q)"
      using Nil.prems(3,5) by (auto simp: tail_of_def)
    then show ?thesis
      using consume_part [OF Nil.prems(1)] Nil.prems(3) by (auto simp: bot_delivers_def)
  qed
next
  case (Cons p ps)
  have pre: "strict_prefix part (encode p)"
    using Cons.prems(4) by (auto simp: tail_of_def)
  then obtain d1 where d1: "part @ d1 = encode p"
    by (auto simp: strict_prefix_def prefix_def)
  then have d: "d = d1 @ concat (map encode ps) @ rest"
    using Cons.prems(3) by (simp flip: d1)
  obtain s1 where 1: "ConsumeReceivedBytes i d s = ConsumeReceivedBytes i (concat (map encode ps) @ rest)
      (bot_handle i (as_read p) s1)" "bot_holds i s1 []" "unbuf i s1 = unbuf i s"
    using consume_packet [OF Cons.prems(1) pre d1] Cons.prems(2) by (auto simp: d process_encoded)
  have "\<exists>s'. ConsumeReceivedBytes i (concat (map encode ps) @ rest) (bot_handle i (as_read p) s1) = Some (True, s') \<and>
      bot_holds i s' rest \<and> bot_delivers i (bot_handle i (as_read p) s1) ps s'"
    using Cons.IH [OF holds_handle [OF 1(2)] _ _ ss.tail_of_start Cons.prems(5)] Cons.prems(2) by simp
  moreover have "unbuf i (bot_handle i (as_read p) s1) = bot_handle i (as_read p) (unbuf i s)"
    using unbuf_handle [of i "as_read p" s1] 1(3) by simp
  ultimately show ?case
    using 1(1) by (auto simp: bot_delivers_def)
qed

interpretation bot: packet_receiver encode "bot_recv i" "\<lambda>d. d" "bot_holds i" "bot_delivers i" "\<lambda>_. True" server_ok for i
proof unfold_locales
  fix s part d ps rest qs
  assume "bot_holds i s part" "\<forall>p \<in> set ps. server_ok p" "part @ d = concat (map encode ps) @ rest"
    "tail_of encode (ps @ qs) part" "tail_of encode qs rest"
  from bot_recv_law [OF this] show "\<exists>s'. bot_recv i d s = Some s' \<and> bot_holds i s' rest \<and> bot_delivers i s ps s'"
    by (auto simp: bot_recv_def)
qed (simp_all add: bot_delivers_def)

end
