(* ===== verification/BotLimits.thy ===== *)
theory BotLimits
  imports BotThreads
begin

text \<open>
  The ceiling that the controller of the load generator puts on the number of players.  The worker
  threads and the actions of the players leave the static variables of
  \<^verbatim>\<open>Adjust_Number_Of_Client\<close> alone, which is the interpretation \<open>ctrl\<close> of \<open>thread_relation\<close>; the lemmas
  below follow these variables through the turns of the controller itself.
\<close>

definition same_limit :: "BOTS \<Rightarrow> BOTS \<Rightarrow> bool" where
  "same_limit s t \<longleftrightarrow> maxLimit t = maxLimit s \<and> increasing t = increasing s \<and> stableCount t = stableCount s \<and>
     num_connections t = num_connections s"

lemma same_limit_bview: "bview t = bview s \<Longrightarrow> same_limit s t"
  by (simp add: same_limit_def bview_def cview_def)

lemma same_limit_disconnect: "same_limit s (DisconnectClient i s)"
  by (simp add: same_limit_def DisconnectClient_def Let_def upd_def leave_zone_def zone_count_add_def)

lemma same_limit_tables:
  "same_limit s (monster_seen k s)" "same_limit s (monster_died k s)" "same_limit s (monster_respawned k s)"
  "same_limit s (player_logged_in k s)" "same_limit s (player_seen k s)" "same_limit s (player_died k s)"
  "same_limit s (player_respawned k s)"
  by (simp_all add: same_limit_def monster_seen_def monster_died_def monster_respawned_def player_logged_in_def
      player_seen_def player_died_def player_respawned_def emplace_def Let_def)

lemma same_limit_login: "same_limit s (on_login_ack i pid x y maxhp hp level ex s)"
proof -
  let ?u = "enter_zone i (bot_GetZoneId x y) (leave_zone i (upd i (\<lambda>c. c\<lparr>connected := True, b_id := pid, b_x := x, b_y := y,
      b_maxHp := maxhp, b_hp := hp, b_level := level, b_exp := ex, b_dead := False, visible_monsters := 0,
      visible_players := 0, last_sent_move_ms := 0\<rparr>)
      (if \<not> connected (g_clients s i) then s\<lparr>active_clients := active_clients s + 1\<rparr> else s)))"
  have "same_limit s ?u"
    by (simp add: same_limit_def upd_def leave_zone_def enter_zone_def zone_count_add_def Let_def)
  then have "same_limit s (player_logged_in (m_DatabaseID pid) ?u)"
    using same_limit_tables(4) [of ?u "m_DatabaseID pid"] by (simp add: same_limit_def)
  then show ?thesis
    using same_limit_bview [OF bview_Schedule [of i "player_logged_in (m_DatabaseID pid) ?u"]]
    unfolding on_login_ack_def Let_def by (simp add: same_limit_def)
qed

interpretation ctrl: thread_relation same_limit
proof
  show "same_limit s s''" if "same_limit s s'" "same_limit s' s''" for s s' s''
    using that by (simp add: same_limit_def)
qed (simp_all add: same_limit_bview same_limit_disconnect same_limit_tables same_limit_login, simp_all add: same_limit_def)

subsection \<open>Turns of the controller\<close>

text \<open>Above the ceiling with an acceptable delay the controller changes nothing while \<open>increasing\<close> is set.\<close>

lemma Adjust_full:
  assumes "increasing s" "soft_limit s < active_clients s" "global_delay s \<le> DELAY_LIMIT"
  shows "same_limit s (Adjust_Number_Of_Client s)"
proof -
  have "\<not> global_delay s > DELAY_LIMIT" "\<not> global_delay s > DELAY_LIMIT2"
    using assms(3) by (simp_all add: bot_consts)
  moreover have "Adjust_ramp (active_clients s) t e (s\<lparr>env_calls := k\<rparr>) =
      s\<lparr>env_calls := k, delayMultiplier := 1, current_phase := STABLE\<rparr>" for t e k
    using assms(1,2) by (simp add: Adjust_ramp_def Let_def soft_limit_def)
  ultimately show ?thesis
    by (simp add: Adjust_Number_Of_Client_def Let_def now_def same_limit_def)
qed

text \<open>Opening connections leaves the ceiling alone.\<close>

definition limit :: "BOTS \<Rightarrow> int \<times> bool \<times> int" where
  "limit s = (maxLimit s, increasing s, stableCount s)"

lemma same_limit_limit: "same_limit s t \<Longrightarrow> limit t = limit s"
  by (simp add: same_limit_def limit_def)

lemma limit_ops [simp]:
  "limit (upd i f s) = limit s" "limit (snd (os_ok s)) = limit s" "limit (snd (bot_PostRecv i s)) = limit s"
  "limit (DisconnectClient i s) = limit s" "limit (snd (bot_SendPacket i pkt s)) = limit s"
  "limit (s\<lparr>num_connections := n\<rparr>) = limit s"
  using same_limit_limit [OF same_limit_disconnect] same_limit_limit [OF ctrl.R_send [OF ctrl.R_refl]]
  by (simp_all add: limit_def upd_def os_ok_def bot_PostRecv_def)

lemma limit_connect: "limit (snd (ConnectClient i s)) = limit s"
  by (simp add: ConnectClient_def Let_def case_prod_unfold)

lemma limit_batch: "limit (connect_batch b s) = limit s"
proof (induction b arbitrary: s)
  case (Suc b)
  then show ?case
    by (simp add: Let_def case_prod_unfold limit_connect)
qed simp

text \<open>A turn that adds players below the ceiling sets \<open>increasing\<close>.\<close>

lemma Adjust_ramps:
  assumes "\<not> increasing s" "stableCount s + 1 < RECOVERY_STABLE_COUNT"
    and "active_clients s < MAX_TEST" "num_connections s < MAX_CLIENTS"
    and "ACCEPT_DELAY * delayMultiplier s \<le> quot (int (fst (now s)) - int (last_connect_time s)) 1000000"
    and "global_delay s \<le> DELAY_LIMIT" "active_clients s \<le> soft_limit s"
  shows "limit (Adjust_Number_Of_Client s) = (maxLimit s, True, stableCount s + 1)"
proof -
  have d: "\<not> global_delay s > DELAY_LIMIT" "\<not> global_delay s > DELAY_LIMIT2"
    using assms(6) by (simp_all add: bot_consts)
  have "limit (Adjust_ramp (active_clients s) t e (s\<lparr>env_calls := k\<rparr>)) = (maxLimit s, True, stableCount s + 1)" for t e k
    using assms(1,2,7) by (simp add: Adjust_ramp_def Let_def soft_limit_def limit_batch) (simp add: limit_def)
  then show ?thesis
    using assms(3-5) d by (simp add: Adjust_Number_Of_Client_def Let_def now_def)
qed

text \<open>The rest of a turn of the test thread.\<close>

lemma rest_of_turn: "same_limit (Adjust_Number_Of_Client s) (Test_Turn s)"
proof -
  let ?s = "Adjust_Number_Of_Client s"
  have n: "same_limit ?s (snd (now ?s))"
    by (simp add: now_def same_limit_def)
  have "same_limit ?s (snd (fold (visit_client t) is (sums, snd (now ?s))))" for t "is" sums
    using ctrl.R_trans [OF n ctrl.R_visits] .
  then show ?thesis
    by (simp add: Test_Turn_def record_history_def Let_def case_prod_unfold ctrl.R_simps)
qed

lemma Test_full:
  assumes "increasing s" "soft_limit s < active_clients s" "global_delay s \<le> DELAY_LIMIT"
  shows "same_limit s (Test_Turn s)"
  using ctrl.R_trans [OF Adjust_full [OF assms] rest_of_turn] .

subsection \<open>Above the ceiling\<close>

text \<open>Turns of the threads in which every turn of the test thread finds an acceptable delay and more
  than 95 percent of the ceiling.\<close>

inductive capped_step :: "BOTS \<Rightarrow> BOTS \<Rightarrow> bool" where
  worker: "int i < num_connections s \<Longrightarrow> Worker_Turn ret ioSize i over s = Some s' \<Longrightarrow> capped_step s s'"
| test: "global_delay s \<le> DELAY_LIMIT \<Longrightarrow> soft_limit s < active_clients s \<Longrightarrow> capped_step s (Test_Turn s)"

lemma capped_step_limit: "capped_step s s' \<Longrightarrow> increasing s \<Longrightarrow> same_limit s s'"
  by (induction rule: capped_step.induct) (auto intro: ctrl.R_worker Test_full)

lemma capped_run_limit: "capped_step\<^sup>*\<^sup>* s s' \<Longrightarrow> increasing s \<Longrightarrow> same_limit s s'"
proof (induction rule: rtranclp_induct)
  case (step t u)
  then have "increasing t"
    by (simp add: same_limit_def)
  then show ?case
    using step capped_step_limit ctrl.R_trans by blast
qed simp

end
