(* ===== verification/BotScenario.thy ===== *)
theory BotScenario
  imports BotFraming BotLimits
begin

text \<open>
  A run of the load generator from its start: one player connects, logs in and moves four times.  The
  first answer takes 151 ms, which makes the controller put a ceiling of one player; the next three
  come at once, and the measured delay falls to 100 ms.  The state at the end is reachable and lies
  below the ceiling.  \<open>ticking\<close> is what the clock returns at each call.
\<close>

definition ticking :: "nat \<Rightarrow> nat" where
  "ticking n = (if n = 0 then 0 else if n < 19 then 5 else if n < 25 then 405 else if n < 28 then 556
     else if n < 38 then 806 else if n < 48 then 1207 else 1608) * 1000000"

definition scenario_id :: ObjID where "scenario_id = mkObjID eUser 7"

definition lone_client :: "uint64 \<Rightarrow> nat \<Rightarrow> nat \<Rightarrow> CLIENT \<Rightarrow> bool" where
  "lone_client L M N c \<longleftrightarrow> connected c \<and> \<not> b_dead c \<and> client_socket c \<and> b_id c = scenario_id \<and> b_x c = 10 \<and> b_y c = 10 \<and>
     zone_id c = 0 \<and> \<not> has_target_item c \<and> visible_monsters c = 0 \<and> visible_items c = 0 \<and>
     last_sent_move_ms c = L \<and> next_move_time c = M \<and> next_pickup_time c = N \<and> 10 ^ 10 \<le> next_chat_time c \<and>
     5 * 10 ^ 9 \<le> next_potion_time c \<and> 8 * 10 ^ 9 \<le> next_equip_time c \<and> 3 * 10 ^ 10 \<le> next_discard_time c"

text \<open>One player is connected, \<open>k\<close> calls were made, the delay is \<open>e\<close> and the multiplier \<open>d\<close>.\<close>

definition lone_state :: "int \<Rightarrow> nat \<Rightarrow> int \<Rightarrow> uint64 \<Rightarrow> nat \<Rightarrow> nat \<Rightarrow> BOTS \<Rightarrow> bool" where
  "lone_state d k e L M N s \<longleftrightarrow> env_clock s = ticking \<and> env_rand s = (\<lambda>_. 0) \<and> env_os s = (\<lambda>_. True) \<and> env_calls s = k \<and>
     global_delay s = e \<and> num_connections s = 1 \<and> active_clients s = 1 \<and> last_connect_time s = 5000000 \<and>
     delayMultiplier s = d \<and> lone_client L M N (g_clients s 0)"

definition lone :: "int \<Rightarrow> nat \<Rightarrow> int \<Rightarrow> uint64 \<Rightarrow> nat \<Rightarrow> nat \<Rightarrow> BOTS \<Rightarrow> bool" where
  "lone d k e L M N s \<longleftrightarrow> lone_state d k e L M N s \<and> bot_holds 0 s []"

lemmas lone_defs = lone_def lone_state_def lone_client_def bot_holds_def

lemma lone_unbuf:
  assumes "unbuf 0 s = unbuf 0 t" "bot_holds 0 s []" "lone_state d k e L M N t"
  shows "lone d k e L M N s"
proof -
  have "lone_state d k e L M N (unbuf 0 u) = lone_state d k e L M N u" for u
    by (simp add: lone_state_def lone_client_def unbuf_def upd_def clear_buf_def)
  then show ?thesis
    using assms by (metis lone_def)
qed

subsection \<open>Requests\<close>

lemma lone_move:
  assumes "lone d k e L M N s"
  shows "lone d (Suc (Suc (Suc (Suc (Suc k))))) e (ucast (ucast (of_nat (ticking (Suc k) div 1000000) :: uint64) :: uint32))
    (ticking (Suc (Suc (Suc k))) + 400000000) N (SendMovePacket 0 s)"
proof -
  have "move_candidates (g_clients s 0) = [0, 1, 2, 3, 4, 5, 6, 7]"
    using assms by (simp add: lone_defs move_candidates_def world_consts)
  then have d: "ChooseMoveDirection (g_clients s 0) s = (0, s\<lparr>env_calls := Suc k\<rparr>)"
    using assms by (simp add: ChooseMoveDirection_def ChooseDirectionTowardItem_def RandomRange_def lone_defs)
  have o: "client_socket (g_clients s 0)" "env_os s (Suc (Suc k))"
    using assms by (simp_all add: lone_defs)
  show ?thesis
    using assms unfolding SendMove_eq [OF d o] by (simp add: lone_defs plus_ms_def set_facing_def upd_def)
qed

lemma lone_pickup:
  assumes "lone d k e L M N s"
  shows "lone d (Suc (Suc k)) e L M (ticking k + 1500000000) (SendPickupPacket 0 s)"
  using assms
  by (simp add: lone_defs SendPickupPacket_def standingOnTarget_def soon_def now_def RandomRange_def
      plus_ms_def upd_def Let_def)

text \<open>The actions of a turn at time \<open>t\<close>: a move that is due, and a look for items when that is due.\<close>

lemma lone_actions:
  assumes s: "lone d k e L M N s" and t: "M \<le> t" "t \<le> 2 * 10 ^ 9"
  defines "L' \<equiv> ucast (ucast (of_nat (ticking (Suc k) div 1000000) :: uint64) :: uint32)"
    and "M' \<equiv> ticking (Suc (Suc (Suc k))) + 400000000" and "k' \<equiv> Suc (Suc (Suc (Suc (Suc k))))"
  shows "if t < N then lone d k' e L' M' N (client_actions t 0 s)
    else lone d (Suc (Suc k')) e L' M' (ticking k' + 1500000000) (client_actions t 0 s)"
proof -
  let ?m = "SendMovePacket 0 s"
  have m: "lone d k' e L' M' N ?m"
    unfolding L'_def M'_def k'_def by (rule lone_move [OF s])
  have later: "when_due (\<lambda>c. visible_monsters c > 0 \<and> next_attack_time c \<le> t) act 0 u = u"
    "when_due (\<lambda>c. visible_monsters c > 0 \<and> next_skill_time c \<le> t) act 0 u = u"
    "when_due (\<lambda>c. next_chat_time c \<le> t) act 0 u = u" "when_due (\<lambda>c. next_potion_time c \<le> t) act 0 u = u"
    "when_due (\<lambda>c. next_equip_time c \<le> t) act 0 u = u" "when_due (\<lambda>c. next_discard_time c \<le> t) act 0 u = u"
    if "lone d l e K A B u" for act u l K A B
    using that t(2) by (simp_all add: when_due_def lone_defs)
  have first: "when_due (\<lambda>c. next_move_time c \<le> t) SendMovePacket 0 s = ?m"
    using s t(1) by (simp add: when_due_def lone_defs)
  have pick: "when_due (\<lambda>c. next_pickup_time c \<le> t) SendPickupPacket 0 ?m = (if t < N then ?m else SendPickupPacket 0 ?m)"
    using m by (simp add: when_due_def lone_defs)
  show ?thesis
    using m lone_pickup [OF m] by (simp add: client_actions_def Let_def first later [OF m] pick later [OF lone_pickup [OF m]])
qed

subsection \<open>Turns of the test thread\<close>

lemma lone_turn:
  assumes s: "lone d (Suc k) e L M N (Adjust_Number_Of_Client s)" and t: "M \<le> ticking (Suc k)"
  defines "u \<equiv> snd (now (Adjust_Number_Of_Client s))"
  shows "lone d k' e L' M' N' (Test_Turn s) = lone d k' e L' M' N' (client_actions (ticking (Suc k)) 0 u)"
    "lone d (Suc (Suc k)) e L M N u"
proof -
  have one: "[0..<nat (num_connections u)] = [0]"
    using s by (simp add: u_def now_def lone_defs)
  have c: "connected (g_clients u 0)" "\<not> b_dead (g_clients u 0)" "fst (now (Adjust_Number_Of_Client s)) = ticking (Suc k)"
    using s by (simp_all add: u_def now_def lone_defs)
  show "lone d (Suc (Suc k)) e L M N u"
    using s by (simp add: u_def now_def lone_defs)
  show "lone d k' e L' M' N' (Test_Turn s) = lone d k' e L' M' N' (client_actions (ticking (Suc k)) 0 u)"
    using one c unfolding Test_Turn_def Let_def case_prod_unfold u_def [symmetric] c(3)
    by (simp add: visit_client_def Let_def record_history_def lone_defs)
qed

lemma lone_test:
  assumes "lone d (Suc k) e L M N (Adjust_Number_Of_Client s)" "M \<le> ticking (Suc k)"
  defines "L' \<equiv> ucast (ucast (of_nat (ticking (Suc (Suc (Suc k))) div 1000000) :: uint64) :: uint32)"
    and "M' \<equiv> ticking (Suc (Suc (Suc (Suc (Suc k))))) + 400000000"
    and "k' \<equiv> Suc (Suc (Suc (Suc (Suc (Suc (Suc k))))))"
  shows "if ticking (Suc k) < N then lone d k' e L' M' N (Test_Turn s)
    else lone d (Suc (Suc k')) e L' M' (ticking k' + 1500000000) (Test_Turn s)"
proof -
  have "ticking (Suc k) \<le> 2 * 10 ^ 9"
    by (simp add: ticking_def)
  from lone_actions [OF lone_turn(2) [OF assms(1,2)] assms(2) this] show ?thesis
    unfolding lone_turn(1) [OF assms(1,2)] L'_def M'_def k'_def .
qed

lemma Adjust_lone:
  assumes "lone d k e L M N s" "0 < d" "int (ticking k) - 5000000 \<ge> 0"
  defines "elapsed \<equiv> (int (ticking k) - 5000000) div 1000000"
  shows "elapsed < 5 * d \<Longrightarrow> lone d (Suc k) e L M N (Adjust_Number_Of_Client s) \<and> limit (Adjust_Number_Of_Client s) = limit s"
    and "5 * d \<le> elapsed \<Longrightarrow> 150 < e \<Longrightarrow> increasing s \<Longrightarrow>
      lone d (Suc k) e L M N (Adjust_Number_Of_Client s) \<and> limit (Adjust_Number_Of_Client s) = (1, False, 0)"
    and "5 * d \<le> elapsed \<Longrightarrow> 100 < e \<Longrightarrow> e \<le> 150 \<Longrightarrow>
      lone 10 (Suc k) e L M N (Adjust_Number_Of_Client s) \<and>
      limit (Adjust_Number_Of_Client s) = (maxLimit s, increasing s, 0)"
  using assms(1-3) unfolding elapsed_def
  by (simp_all add: lone_defs Adjust_Number_Of_Client_def Adjust_reduce_def now_def quot_def limit_def bot_consts Let_def)

subsection \<open>Turns of a worker\<close>

lemma recv_turn:
  assumes "bot_holds i s []" "server_ok p" "int i < num_connections s"
    and "client_socket (g_clients (bot_handle i (as_read p) s) i)" "env_os (bot_handle i (as_read p) s) = (\<lambda>_. True)"
  shows "\<exists>s'. bot_step s s' \<and> same_limit s s' \<and> bot_holds i s' [] \<and>
    unbuf i s' = unbuf i ((bot_handle i (as_read p) s)\<lparr>env_calls := Suc (env_calls (bot_handle i (as_read p) s))\<rparr>)"
proof -
  let ?h = "bot_handle i (as_read p) s"
  have "\<exists>s1. ConsumeReceivedBytes i (encode p) s = Some (True, s1) \<and> bot_holds i s1 [] \<and> unbuf i s1 = unbuf i ?h"
    using bot_recv_law [OF assms(1), of "[p]" "encode p" "[]" "[]"] assms(2) unbuf_handle [of i "as_read p" s]
      ss.tail_of_start by (auto simp: bot_delivers_def)
  then obtain s1 where s1: "ConsumeReceivedBytes i (encode p) s = Some (True, s1)" "bot_holds i s1 []" "unbuf i s1 = unbuf i ?h"
    by blast
  let ?s' = "s1\<lparr>env_calls := Suc (env_calls s1)\<rparr>"
  have f: "f (unbuf i s1) = f (unbuf i ?h)" for f :: "BOTS \<Rightarrow> 'a"
    by (simp add: s1(3))
  have same: "client_socket (g_clients s1 i)" "env_os s1 = (\<lambda>_. True)" "env_calls s1 = env_calls ?h"
    using f [of "\<lambda>u. client_socket (g_clients u i)"] f [of env_os] f [of env_calls] assms(4,5)
    by (simp_all add: unbuf_def upd_def clear_buf_def)
  have "encode p \<noteq> []"
    using encode_header(2) [of p] by auto
  then have w: "Worker_Turn True (length (encode p)) i (Some (OP_RECV (encode p))) s = Some ?s'"
    using s1(1) same by (simp add: Worker_Turn_def bot_PostRecv_def os_ok_def)
  moreover have "unbuf i (u\<lparr>env_calls := n\<rparr>) = (unbuf i u)\<lparr>env_calls := n\<rparr>" for u n
    by (simp add: unbuf_def upd_def)
  then have "unbuf i ?s' = unbuf i (?h\<lparr>env_calls := Suc (env_calls ?h)\<rparr>)"
    by (simp add: s1(3) same(3))
  moreover have "bot_holds i ?s' []"
    using s1(2) by (simp add: bot_holds_def)
  ultimately show ?thesis
    using bot_step.worker [OF assms(3) w] ctrl.R_worker [OF assms(3) w] by blast
qed

lemma lone_answer:
  assumes s: "lone d k e L M N s" and "L \<noteq> 0"
  defines "ms \<equiv> int_of64 (of_nat (ticking k div 1000000) - L)"
  shows "\<exists>s'. bot_step s s' \<and> same_limit s s' \<and>
    lone d (Suc (Suc k)) (if e = 0 then ms else quot (int_wrap (e * 7 + ms)) 8) 0 M N s'"
proof -
  let ?p = "SUBJECT_MOVE_NFY_PACKET scenario_id 10 10 0"
  let ?h = "bot_handle 0 (as_read ?p) s"
  let ?e = "if e = 0 then ms else quot (int_wrap (e * 7 + ms)) 8"
  have h: "lone_state d (Suc k) ?e 0 M N ?h"
    using s assms(2)
    by (simp add: lone_defs on_move_def UpdateDelayEstimate_def NowMilliseconds_def now_def
        bot_GetZoneId_def quot_def ms_def upd_def Let_def)
  have "server_ok ?p" "int 0 < num_connections s" "client_socket (g_clients ?h 0)" "env_os ?h = (\<lambda>_. True)" "bot_holds 0 s []"
    using s h by (simp_all add: lone_defs)
  from recv_turn [OF this(5,1-4)] obtain s' where s': "bot_step s s'" "same_limit s s'" "bot_holds 0 s' []"
    "unbuf 0 s' = unbuf 0 (?h\<lparr>env_calls := Suc (env_calls ?h)\<rparr>)"
    by blast
  have "lone_state d (Suc (Suc k)) ?e 0 M N (?h\<lparr>env_calls := Suc (env_calls ?h)\<rparr>)"
    using h by (simp add: lone_state_def)
  with lone_unbuf [OF s'(4,3)] s' show ?thesis
    by blast
qed

subsection \<open>The run\<close>

text \<open>The first turn opens one connection; the answer to its login makes it a player.\<close>

definition opened :: BOTS where
  "opened = Test_Turn (bots_start ticking (\<lambda>_. 0) (\<lambda>_. True))"

lemma connect_ok:
  assumes "env_os s = (\<lambda>_. True)"
  shows "ConnectClient i s = (True, (upd i (\<lambda>c. (ResetRuntimeState c)\<lparr>client_socket := True\<rparr>) s)
    \<lparr>env_calls := Suc (Suc (Suc (Suc (Suc (env_calls s))))), sent := sent s @ [(i, login_packet i)]\<rparr>)"
proof -
  have "unat (rd16 (encode_client (login_packet i)) 0) = 43"
    by (simp add: encode_client_def InitializePacket_def le16_def rd16_def login_packet_def proto_consts)
  then show ?thesis
    using assms by (simp add: ConnectClient_def ResetForConnect_def bot_PostRecv_def bot_SendPacket_def os_ok_def bot_consts
        upd_def Let_def)
qed

definition first_bots :: BOTS where
  "first_bots = bots_start ticking (\<lambda>_. 0) (\<lambda>_. True)"

lemma first_fields:
  "env_clock first_bots = ticking" "env_rand first_bots = (\<lambda>_. 0)" "env_os first_bots = (\<lambda>_. True)" "env_calls first_bots = 1"
  "global_delay first_bots = 0" "num_connections first_bots = 0" "active_clients first_bots = 0" "last_connect_time first_bots = 0"
  "delayMultiplier first_bots = 1" "maxLimit first_bots = INT_MAX" "increasing first_bots" "stableCount first_bots = 0"
  "historyCounter first_bots = 0"
  by (simp_all add: first_bots_def bots_start_def InitializeNetwork_def now_def Let_def ticking_def)

definition ramped :: BOTS where
  "ramped = first_bots\<lparr>env_calls := 2, delayMultiplier := 1, current_phase := RAMP_UP, increasing := True,
     last_connect_time := 5000000, num_connections := 1\<rparr>"

lemma first_adjust: "Adjust_Number_Of_Client first_bots = snd (ConnectClient 0 ramped)"
proof -
  have "Adjust_Number_Of_Client first_bots = Adjust_ramp 0 5000000 5 (first_bots\<lparr>env_calls := 2\<rparr>)"
    by (simp add: Adjust_Number_Of_Client_def now_def first_fields ticking_def quot_def bot_consts Let_def numeral_2_eq_2)
  also have "\<dots> = connect_batch (Suc 0) (first_bots\<lparr>env_calls := 2, delayMultiplier := 1, current_phase := RAMP_UP,
      increasing := True, last_connect_time := 5000000\<rparr>)"
    by (simp add: Adjust_ramp_def first_fields soft_limit_def quot_def bot_consts Let_def del: connect_batch.simps)
  also have "\<dots> = snd (ConnectClient 0 ramped)"
    using connect_ok [of ramped 0]
    by (simp add: ramped_def first_fields soft_limit_def quot_def bot_consts Let_def)
  finally show ?thesis .
qed

lemma first_opened:
  "Adjust_Number_Of_Client first_bots = (upd 0 (\<lambda>c. (ResetRuntimeState c)\<lparr>client_socket := True\<rparr>) ramped)
     \<lparr>env_calls := 7, sent := sent ramped @ [(0, login_packet 0)]\<rparr>"
  using connect_ok [of ramped 0] unfolding first_adjust by (simp add: ramped_def first_fields)

text \<open>The player is not connected yet, so the rest of the turn finds nobody.\<close>

lemma first_turn:
  "\<exists>dc. Test_Turn first_bots = (Adjust_Number_Of_Client first_bots)\<lparr>env_calls := 8, dead_clients_count := dc, historyCounter := 1\<rparr>"
  by (simp add: Test_Turn_def first_opened ramped_def first_fields now_def visit_client_def ResetRuntimeState_def
      record_history_def upd_def Let_def) blast

lemma lone_login:
  "\<exists>s. bot_reachable s \<and> lone 1 18 0 0 405000000 805000000 s \<and> limit s = (INT_MAX, True, 0)"
proof -
  let ?s = "Test_Turn first_bots" and ?p = "USER_LOGIN_ACK_PACKET scenario_id 10 10 100 100 1 0"
  let ?h = "bot_handle 0 (as_read ?p) ?s"
  have r: "bot_reachable ?s"
    unfolding first_bots_def by (rule bot_reachable.step [OF bot_reachable.start bot_step.test])
  obtain dc where t: "?s = (Adjust_Number_Of_Client first_bots)\<lparr>env_calls := 8, dead_clients_count := dc, historyCounter := 1\<rparr>"
    using first_turn by blast
  have f: "env_clock ?s = ticking" "env_rand ?s = (\<lambda>_. 0)" "env_os ?s = (\<lambda>_. True)" "env_calls ?s = 8"
    "global_delay ?s = 0" "num_connections ?s = 1" "active_clients ?s = 0" "last_connect_time ?s = 5000000"
    "delayMultiplier ?s = 1" "limit ?s = (INT_MAX, True, 0)" "bot_holds 0 ?s []"
    "\<not> connected (g_clients ?s 0)" "client_socket (g_clients ?s 0)" "\<not> has_target_item (g_clients ?s 0)"
    "visible_items (g_clients ?s 0) = 0" "zone_id (g_clients ?s 0) = -1"
    unfolding t by (simp_all add: first_opened ramped_def first_fields limit_def bot_holds_def ResetRuntimeState_def upd_def)
  have "lone_state 1 17 0 0 405000000 805000000 ?h"
    by (simp add: f lone_state_def lone_client_def on_login_ack_def leave_zone_def enter_zone_def zone_count_add_def
        bot_GetZoneId_def quot_def player_logged_in_def emplace_def ScheduleBehavior_def now_def RandomRange_def plus_ms_def
        ticking_def upd_def Let_def)
  then have h: "lone_state 1 18 0 0 405000000 805000000 (?h\<lparr>env_calls := Suc (env_calls ?h)\<rparr>)" "client_socket (g_clients ?h 0)"
    "env_os ?h = (\<lambda>_. True)"
    by (simp_all add: lone_state_def lone_client_def)
  have "server_ok ?p" "int 0 < num_connections ?s"
    by (simp_all add: f)
  from recv_turn [OF f(11) this h(2,3)] obtain s' where s': "bot_step ?s s'" "same_limit ?s s'" "bot_holds 0 s' []"
    "unbuf 0 s' = unbuf 0 (?h\<lparr>env_calls := Suc (env_calls ?h)\<rparr>)"
    by blast
  have "bot_reachable s'"
    using r s'(1) by (rule bot_reachable.step)
  then show ?thesis
    using lone_unbuf [OF s'(4,3) h(1)] same_limit_limit [OF s'(2)] f(10) by metis
qed

lemma answer_run:
  assumes "bot_reachable s" "lone d k e L M N s" "limit s = l" "L \<noteq> 0"
    and "int_of64 (of_nat (ticking k div 1000000) - L) = ms" "(if e = 0 then ms else quot (int_wrap (e * 7 + ms)) 8) = e'"
  shows "\<exists>s'. bot_reachable s' \<and> lone d (Suc (Suc k)) e' 0 M N s' \<and> limit s' = l"
proof -
  obtain s' where s': "bot_step s s'" "same_limit s s'"
    "lone d (Suc (Suc k)) (if e = 0 then ms else quot (int_wrap (e * 7 + ms)) 8) 0 M N s'"
    using lone_answer [OF assms(2,4)] assms(5) by blast
  have "bot_reachable s'"
    using assms(1) s'(1) by (rule bot_reachable.step)
  then show ?thesis
    using s'(3) same_limit_limit [OF s'(2)] unfolding assms(3,6) by blast
qed

lemma test_run:
  assumes "bot_reachable s" "lone d (Suc k) e L M N (Adjust_Number_Of_Client s) \<and> limit (Adjust_Number_Of_Client s) = l"
    and "M \<le> ticking (Suc k)"
  shows "bot_reachable (Test_Turn s)" "limit (Test_Turn s) = l"
    and "if ticking (Suc k) < N then lone d (Suc (Suc (Suc (Suc (Suc (Suc (Suc k))))))) e
        (ucast (ucast (of_nat (ticking (Suc (Suc (Suc k))) div 1000000) :: uint64) :: uint32))
        (ticking (Suc (Suc (Suc (Suc (Suc k))))) + 400000000) N (Test_Turn s)
      else lone d (Suc (Suc (Suc (Suc (Suc (Suc (Suc (Suc (Suc k))))))))) e
        (ucast (ucast (of_nat (ticking (Suc (Suc (Suc k))) div 1000000) :: uint64) :: uint32))
        (ticking (Suc (Suc (Suc (Suc (Suc k))))) + 400000000)
        (ticking (Suc (Suc (Suc (Suc (Suc (Suc (Suc k))))))) + 1500000000) (Test_Turn s)"
proof -
  show "bot_reachable (Test_Turn s)"
    using assms(1) bot_step.test by (rule bot_reachable.step)
  show "limit (Test_Turn s) = l"
    using assms(2) same_limit_limit [OF rest_of_turn] by simp
qed (use lone_test [of d k e L M N s] assms(2,3) in blast)

lemma scenario_words:
  "ucast (ucast (405 :: uint64) :: uint32) = (405 :: uint64)" "ucast (ucast (806 :: uint64) :: uint32) = (806 :: uint64)"
  "ucast (ucast (1207 :: uint64) :: uint32) = (1207 :: uint64)" "ucast (ucast (1608 :: uint64) :: uint32) = (1608 :: uint64)"
  "int_of64 151 = 151" "int_of64 0 = 0" "quot (int_wrap 1057) 8 = 132" "quot (int_wrap 924) 8 = 115"
  "quot (int_wrap 805) 8 = 100"
  by (simp_all add: int_of64_def int_wrap_def quot_def)

text \<open>The slow answer and the ceiling.\<close>

lemma scenario_capped:
  "\<exists>s. bot_reachable s \<and> lone 1 36 151 806 1206000000 2306000000 s \<and> limit s = (1, False, 0)"
proof -
  obtain s1 where 1: "bot_reachable s1" "lone 1 18 0 0 405000000 805000000 s1" "limit s1 = (INT_MAX, True, 0)"
    using lone_login by blast
  have "lone 1 19 0 0 405000000 805000000 (Adjust_Number_Of_Client s1) \<and> limit (Adjust_Number_Of_Client s1) = (INT_MAX, True, 0)"
    using Adjust_lone(1) [OF 1(2)] 1(3) by (simp add: ticking_def)
  then have 2: "bot_reachable (Test_Turn s1)" "limit (Test_Turn s1) = (INT_MAX, True, 0)"
    "lone 1 25 0 405 805000000 805000000 (Test_Turn s1)"
    using test_run [OF 1(1), of 1 18 0 0 405000000 805000000] by (simp_all add: ticking_def scenario_words)
  obtain s2 where 3: "bot_reachable s2" "lone 1 27 151 0 805000000 805000000 s2" "limit s2 = (INT_MAX, True, 0)"
    using answer_run [OF 2(1,3,2), of 151 151] by (auto simp: ticking_def scenario_words)
  have "lone 1 28 151 0 805000000 805000000 (Adjust_Number_Of_Client s2) \<and> limit (Adjust_Number_Of_Client s2) = (1, False, 0)"
    using Adjust_lone(2) [OF 3(2)] 3(3) by (simp add: ticking_def limit_def)
  then have "limit (Test_Turn s2) = (1, False, 0)" "lone 1 36 151 806 1206000000 2306000000 (Test_Turn s2)"
    "bot_reachable (Test_Turn s2)"
    using test_run [OF 3(1), of 1 27 151 0 805000000 805000000] by (simp_all add: ticking_def scenario_words)
  then show ?thesis
    by blast
qed

text \<open>Three answers at once bring the measured delay down.\<close>

lemma scenario_run: "\<exists>s M N. bot_reachable s \<and> lone 10 56 100 0 M N s \<and> limit s = (1, False, 0)"
proof -
  obtain s1 where 1: "bot_reachable s1" "lone 1 36 151 806 1206000000 2306000000 s1" "limit s1 = (1, False, 0)"
    using scenario_capped by blast
  obtain s2 where 2: "bot_reachable s2" "lone 1 38 132 0 1206000000 2306000000 s2" "limit s2 = (1, False, 0)"
    using answer_run [OF 1, of 0 132] by (auto simp: ticking_def scenario_words)
  have "lone 10 39 132 0 1206000000 2306000000 (Adjust_Number_Of_Client s2) \<and> limit (Adjust_Number_Of_Client s2) = (1, False, 0)"
    using Adjust_lone(3) [OF 2(2)] 2(3) by (simp add: ticking_def limit_def)
  then have 3: "bot_reachable (Test_Turn s2)" "lone 10 45 132 1207 1607000000 2306000000 (Test_Turn s2)"
    "limit (Test_Turn s2) = (1, False, 0)"
    using test_run [OF 2(1), of 10 38 132 0 1206000000 2306000000] by (simp_all add: ticking_def scenario_words)
  obtain s3 where 4: "bot_reachable s3" "lone 10 47 115 0 1607000000 2306000000 s3" "limit s3 = (1, False, 0)"
    using answer_run [OF 3, of 0 115] by (auto simp: ticking_def scenario_words)
  have "lone 10 48 115 0 1607000000 2306000000 (Adjust_Number_Of_Client s3) \<and> limit (Adjust_Number_Of_Client s3) = (1, False, 0)"
    using Adjust_lone(3) [OF 4(2)] 4(3) by (simp add: ticking_def limit_def)
  then have 5: "bot_reachable (Test_Turn s3)" "lone 10 54 115 1608 2008000000 2306000000 (Test_Turn s3)"
    "limit (Test_Turn s3) = (1, False, 0)"
    using test_run [OF 4(1), of 10 47 115 0 1607000000 2306000000] by (simp_all add: ticking_def scenario_words)
  show ?thesis
    using answer_run [OF 5, of 0 100] by (auto simp: ticking_def scenario_words)
qed

end
