(* ===== verification/BotProps.thy ===== *)
theory BotProps
  imports BotScenario Collisions
begin

text \<open>
  Properties of the load generator: what it counts, what it receives and sends, what it measures, how
  its players walk to items, and how the controller that adds and removes players behaves.
\<close>

subsection \<open>Account names\<close>

lemma string_val_zeros: "string_val (replicate k (CHR ''0'') @ s) = string_val s"
  by (induction k) (simp_all add: string_val_def)

lemma pad6_inj: "pad6 i = pad6 j \<longleftrightarrow> i = j"
  by (metis pad6_def string_val_digits string_val_zeros)

lemma pad6_ok: "n < 10 ^ 10 \<Longrightarrow> length (pad6 n) \<le> 10 \<and> c_string (pad6 n)"
  using digits_length [of n 10] digits_chars [of _ n] by (auto simp: pad6_def c_string_def)

text \<open>Every simulated player logs in under an account of its own: the login packets of two clients are
  equal only for the same client, and the server reads back the account and the password that were
  written, since both fit their fields.\<close>

theorem bot_accounts_distinct:
  assumes "int i < MAX_CLIENTS"
  shows "(login_packet i = login_packet j \<longleftrightarrow> i = j) \<and>
    decode (encode_client (login_packet i) @ stale) = Some (login_packet i)"
proof -
  have "i < 10 ^ 10"
    using assms by (simp add: bot_consts)
  then have "client_ok (login_packet i)"
    using pad6_ok [of i] by (simp add: login_packet_def proto_consts c_string_def)
  then show ?thesis
    using decode_encode [of "login_packet i" stale] by (auto simp: login_packet_def pad6_inj)
qed

theorem bot_accounts_distinct_witness:
  "login_packet 41 \<noteq> login_packet 1000041 \<and> decode (encode_client (login_packet 41)) = Some (login_packet 41)"
  using bot_accounts_distinct [of 41 1000041 "[]"] by (simp add: bot_consts)

subsection \<open>Counters\<close>

text \<open>C16. The counters under any interleaving of the threads.  The flag of a client and the number of active
  clients are two atomics, and no lock holds a login or a disconnection together.  At every moment the number of
  active clients, with the logins still to be counted added, is the number of connected clients, with the
  disconnections still to be uncounted and the resets that wiped out a login of the same client added: it never
  falls behind, and it is exact whenever no login or disconnection is under way and no reset hit a login in between.
  The monsters seen, the monsters dead and the players dead, which change under a lock, are always exact, every
  connected client has an index inside the array, and every turn of a worker or of the test thread that is not
  interrupted leads to such a state again.\<close>

theorem bot_counters_interleaved:
  assumes "race_reachable (s, P, n)"
  shows "active_clients s + uncounted P = int (card {i. connected (g_clients s i)}) + closing P + int n \<and>
    g_monster_known s = int (card (dom (g_monsterMap s))) \<and>
    g_monster_dead s = int (card {m. g_monsterMap s m = Some True}) \<and>
    g_player_dead s = int (card {p. g_playerMap s p = Some True}) \<and>
    0 \<le> num_connections s \<and> num_connections s \<le> MAX_CLIENTS \<and>
    (\<forall>i. connected (g_clients s i) \<longrightarrow> int i < num_connections s) \<and>
    (\<forall>s'. bot_step s s' \<longrightarrow> race_reachable (s', P, n))"
  using race_inv_reachable [OF assms] race_turn [OF assms]
  by (simp add: race_inv_def tables_inv_def conn_def deads_def)

text \<open>The acknowledged login that comes between the exchange and the reset of a disconnection stays counted although
  the client is gone.\<close>

theorem bot_counters_interleaved_witness:
  "\<exists>s. race_reachable (s, {#}, 1) \<and> (\<forall>i. \<not> connected (g_clients s i)) \<and> active_clients s = 1"
proof -
  let ?r = race_step
  let ?s = "bots_start (\<lambda>_. 0) (\<lambda>_. 0) (\<lambda>_. True)"
  let ?s1 = "?s\<lparr>num_connections := num_connections ?s + 1\<rparr>"
  let ?s2 = "upd 0 (\<lambda>c. c\<lparr>connected := False\<rparr>) ?s1"
  let ?s3 = "upd 0 (\<lambda>c. c\<lparr>connected := True\<rparr>) ?s2"
  let ?s4 = "?s3\<lparr>active_clients := active_clients ?s3 + 1\<rparr>"
  let ?s5 = "upd 0 ResetRuntimeState ?s4"
  have off: "\<not> connected (g_clients ?s i)" "num_connections ?s = 0" for i
    by (simp_all add: bots_start_def InitializeNetwork_def Let_def now_def ResetRuntimeState_def)
  have "?r\<^sup>*\<^sup>* (?s, {#}, 0) (?s1, {#}, 0)"
    by (rule r_into_rtranclp) (rule race_step.opened, simp add: off bot_consts)
  also have "?r (?s1, {#}, 0) (?s2, {#Closing 0 False#}, 0)"
    using race_step.close [of ?s1 "{#}" 0 0] off(1) [of 0] by simp
  also have "?r (?s2, {#Closing 0 False#}, 0) (?s2, {#Resetting 0#}, 0)"
    using race_step.uncount [of ?s2 0 False "{#}" 0] by simp
  also have "?r (?s2, {#Resetting 0#}, 0) (?s3, {#Counting, Resetting 0#}, 0)"
    using race_step.login [of 0 ?s2 "{#Resetting 0#}" 0] off(2) by (simp add: upd_def)
  also have "?r (?s3, {#Counting, Resetting 0#}, 0) (?s4, {#Resetting 0#}, 0)"
    by (rule race_step.count)
  also have "?r (?s4, {#Resetting 0#}, 0) (?s5, {#}, 1)"
    using race_step.reset [of ?s4 0 "{#}" 0] by simp
  finally have r: "race_reachable (?s5, {#}, 1)"
    unfolding race_reachable_def by blast
  have none: "\<not> connected (g_clients ?s5 i)" for i
    using off(1) by (simp add: ResetRuntimeState_def)
  then have "active_clients ?s5 = 1"
    using bot_counters_interleaved [OF r] by simp
  with r none show ?thesis
    by blast
qed

subsection \<open>Framing\<close>

text \<open>C36. However the bytes of a stream of server packets are cut into receives, the load generator accepts all of
  them and does to its state exactly what handling the packets one after the other does; nothing is left in the
  buffer.\<close>

theorem bot_framing_exact:
  assumes "bot_holds i s []" "\<forall>p \<in> set ps. server_ok p" "concat ds = concat (map encode ps)"
  shows "\<exists>s'. recv_chunks (bot_recv i) ds s = Some s' \<and> bot_holds i s' [] \<and>
    unbuf i s' = fold (\<lambda>p. bot_handle i (as_read p)) ps (unbuf i s)"
  using bot.recv_chunks_exact [OF assms(1), of ds ps] assms(2,3) by (simp add: bot_delivers_def)

lemma start_holds: "bot_holds i (bots_start c r os) []"
  by (simp add: bot_holds_def bots_start_def InitializeNetwork_def now_def Let_def ResetRuntimeState_def)

theorem bot_framing_exact_witness:
  "\<exists>s'. recv_chunks (bot_recv 0) (map (\<lambda>b. [b]) (encode (USER_HEAL_INF_PACKET 90) @ encode (ITEM_PICKUP_ACK_PACKET True)))
      (bots_start (\<lambda>_. 0) (\<lambda>_. 0) (\<lambda>_. True)) = Some s' \<and>
    unbuf 0 s' = bot_handle 0 (ITEM_PICKUP_ACK_PACKET True) (bot_handle 0 (USER_HEAL_INF_PACKET 90)
      (unbuf 0 (bots_start (\<lambda>_. 0) (\<lambda>_. 0) (\<lambda>_. True))))"
  using bot_framing_exact [OF start_holds [of 0 "\<lambda>_. 0" "\<lambda>_. 0" "\<lambda>_. True"], of "[USER_HEAL_INF_PACKET 90, ITEM_PICKUP_ACK_PACKET True]"
      "map (\<lambda>b. [b]) (encode (USER_HEAL_INF_PACKET 90) @ encode (ITEM_PICKUP_ACK_PACKET True))"]
  by (auto simp: concat_map_singleton)

subsection \<open>The delay estimate\<close>

text \<open>Before the first sample, or with every average between the least and the greatest sample.\<close>

definition delays_ok :: "BOTS \<Rightarrow> bool" where
  "delays_ok s \<longleftrightarrow>
     (global_delay s = 0 \<and> delay_avg_val s = 0 \<and> delay_min_val s = INT_MAX \<and> delay_max_val s = 0) \<or>
     (0 \<le> delay_min_val s \<and> delay_min_val s \<le> global_delay s \<and> global_delay s \<le> delay_max_val s \<and>
      delay_min_val s \<le> delay_avg_val s \<and> delay_avg_val s \<le> delay_max_val s \<and> delay_max_val s < 2 ^ 27)"

lemma int_wrap_id: "0 \<le> i \<Longrightarrow> i < 2 ^ 31 \<Longrightarrow> int_wrap i = i"
  by (simp add: int_wrap_def sint_sbintrunc' signed_take_bit_int_eq_self)

lemma quot_pos: "0 \<le> a \<Longrightarrow> 0 < b \<Longrightarrow> quot a b = a div b"
  by (simp add: quot_def)

lemma weighted_between:
  assumes "lo \<le> e" "e \<le> hi" "lo \<le> d" "d \<le> hi" "0 \<le> k"
  shows "lo \<le> (e * k + d) div (k + 1)" "((e * k + d) div (k + 1) :: int) \<le> hi"
proof -
  have "lo * (k + 1) \<le> e * k + d" "e * k + d \<le> hi * (k + 1)"
    using assms mult_right_mono [of lo e k] mult_right_mono [of e hi k] by (simp_all add: algebra_simps)
  then show "lo \<le> (e * k + d) div (k + 1)" "(e * k + d) div (k + 1) \<le> hi"
    using assms(5) zdiv_mono1 [of "lo * (k + 1)" "e * k + d" "k + 1"] zdiv_mono1 [of "e * k + d" "hi * (k + 1)" "k + 1"]
    by (simp_all)
qed

lemma ucast32_minus: "(ucast (a - b) :: uint32) = ucast (a :: uint64) - ucast b"
proof -
  have "((x - y) mod 18446744073709551616) mod 4294967296 = (x mod 4294967296 - y mod 4294967296) mod 4294967296" for x y :: int
    using mod_mod_cancel [of "4294967296" "4294967296 * 4294967296" "x - y"] by (simp add: mod_diff_eq)
  then show ?thesis
    by (simp add: word_uint_eq_iff unsigned_ucast_eq take_bit_eq_mod uint_word_ariths)
qed

lemma unat_ucast32_64: "unat (ucast (w :: uint32) :: uint64) = unat w"
  using unsigned_less [of w, where ?'a = nat] by (simp add: unat_ucast_fits)

lemma sint_low32:
  assumes "uint (d :: uint64) < 2 ^ 31"
  shows "sint (ucast d :: uint32) = uint d"
proof -
  have "- (2 ^ 31) \<le> uint d"
    by (rule order_trans [OF _ uint_ge_0]) simp
  with assms have "signed_take_bit 31 (uint d) = uint d"
    by (intro signed_take_bit_int_eq_self) simp_all
  with assms show ?thesis
    by (simp add: sint_uint unsigned_ucast_eq take_bit_int_eq_self)
qed

lemma delay_truncated:
  assumes "t1 \<le> t2" "unat t2 - unat t1 < 2 ^ 31"
  shows "int_of64 (t2 - ucast (ucast t1 :: uint32)) = int (unat t2 - unat t1)"
proof -
  have "ucast (ucast w :: uint64) = w" for w :: uint32
    using unat_ucast_fits [of "ucast w :: uint64", where ?'b = 32] unsigned_less [of w, where ?'a = nat]
    by (intro word_unat_eq_iff [THEN iffD2]) (simp add: unat_ucast32_64)
  then have "ucast (t2 - ucast (ucast t1 :: uint32)) = (ucast (t2 - t1) :: uint32)"
    by (simp only: ucast32_minus)
  moreover have d: "uint (t2 - t1) = int (unat t2 - unat t1)"
    using assms(1) unat_diff [of t1 t2] by (metis uint_nat)
  moreover have "uint (t2 - t1) < 2 ^ 31"
    unfolding d using assms(2) by simp
  ultimately show ?thesis
    by (simp add: int_of64_def sint_low32)
qed

lemma average_ok:
  assumes "0 \<le> lo" "lo \<le> e" "e \<le> hi" "lo \<le> d" "d \<le> hi" "hi < 2 ^ 27" "k = 7 \<or> k = 15"
  shows "lo \<le> quot (int_wrap (e * k + d)) (k + 1)" "quot (int_wrap (e * k + d)) (k + 1) \<le> hi"
proof -
  have "0 \<le> e * k + d" "e * k + d < 2 ^ 31"
    using assms by auto
  then have "quot (int_wrap (e * k + d)) (k + 1) = (e * k + d) div (k + 1)"
    using assms(7) by (auto simp: int_wrap_id quot_pos)
  then show "lo \<le> quot (int_wrap (e * k + d)) (k + 1)" "quot (int_wrap (e * k + d)) (k + 1) \<le> hi"
    using weighted_between [OF assms(2-5), of k] assms(7) by auto
qed

text \<open>C37. The delay of an answered move is measured exactly although only the low 32 bits of the time were kept:
  the least and the greatest sample take it in unchanged, and both running averages stay between them without
  overflow.\<close>

theorem bot_delay_exact:
  assumes "delays_ok s" "NowMilliseconds s = (t2, s1)" "(ucast t1 :: uint32) \<noteq> 0" "t1 \<le> t2" "unat t2 - unat t1 < 2 ^ 27"
  defines "s' \<equiv> UpdateDelayEstimate (ucast (ucast t1 :: uint32)) s" and "d \<equiv> int (unat t2 - unat t1)"
  shows "delay_min_val s' = min (delay_min_val s) d \<and> delay_max_val s' = max (delay_max_val s) d \<and> delays_ok s'"
proof -
  have same: "global_delay s1 = global_delay s" "delay_avg_val s1 = delay_avg_val s"
    "delay_min_val s1 = delay_min_val s" "delay_max_val s1 = delay_max_val s"
    using assms(2) by (auto simp: NowMilliseconds_def now_def)
  have "ucast (ucast t1 :: uint32) \<noteq> (0 :: uint64)"
    using assms(3) unat_ucast32_64 [of "ucast t1"] by (metis unat_eq_zero)
  moreover have d: "int_of64 (t2 - ucast (ucast t1 :: uint32)) = d"
    unfolding d_def using assms(4,5) by (intro delay_truncated) simp_all
  ultimately have s': "s' = s1\<lparr>global_delay := (if global_delay s = 0 then d else quot (int_wrap (global_delay s * 7 + d)) 8),
      delay_min_val := (if d < delay_min_val s then d else delay_min_val s),
      delay_max_val := (if d > delay_max_val s then d else delay_max_val s),
      delay_avg_val := (if delay_avg_val s = 0 then d else quot (int_wrap (delay_avg_val s * 15 + d)) 16)\<rparr>"
    by (simp add: s'_def UpdateDelayEstimate_def assms(2) same Let_def)
  have dd: "0 \<le> d" "d < 2 ^ 27"
    using assms(5) by (simp_all add: d_def)
  let ?lo = "min (delay_min_val s) d" and ?hi = "max (delay_max_val s) d"
  have mm: "delay_min_val s' = ?lo" "delay_max_val s' = ?hi"
    by (auto simp: s')
  have "delays_ok s'"
  proof (cases "global_delay s = 0 \<and> delay_avg_val s = 0")
    case True
    with dd show ?thesis
      using assms(1) by (auto simp: delays_ok_def s' bot_consts)
  next
    case False
    then have ok: "0 \<le> delay_min_val s" "delay_min_val s \<le> global_delay s" "global_delay s \<le> delay_max_val s"
      "delay_min_val s \<le> delay_avg_val s" "delay_avg_val s \<le> delay_max_val s" "delay_max_val s < 2 ^ 27"
      using assms(1) by (auto simp: delays_ok_def)
    have "?lo \<le> quot (int_wrap (global_delay s * 7 + d)) (7 + 1)" "quot (int_wrap (global_delay s * 7 + d)) (7 + 1) \<le> ?hi"
      "?lo \<le> quot (int_wrap (delay_avg_val s * 15 + d)) (15 + 1)" "quot (int_wrap (delay_avg_val s * 15 + d)) (15 + 1) \<le> ?hi"
      using ok dd average_ok [of ?lo "global_delay s" ?hi d 7] average_ok [of ?lo "delay_avg_val s" ?hi d 15] by simp_all
    then have "?lo \<le> global_delay s' \<and> global_delay s' \<le> ?hi \<and> ?lo \<le> delay_avg_val s' \<and> delay_avg_val s' \<le> ?hi"
      by (simp add: s')
    moreover have "0 \<le> ?lo" "?hi < 2 ^ 27"
      using ok dd by simp_all
    ultimately show ?thesis
      unfolding delays_ok_def mm by blast
  qed
  with mm show ?thesis
    by simp
qed

lemma start_now: "NowMilliseconds (bots_start c r os) = (of_nat (c 1 div 1000000), snd (NowMilliseconds (bots_start c r os)))"
  by (simp add: NowMilliseconds_def now_def bots_start_def InitializeNetwork_def Let_def)

lemma start_delays: "delays_ok (bots_start c r os)"
  by (simp add: delays_ok_def bots_start_def InitializeNetwork_def now_def Let_def)

theorem bot_delay_exact_witness:
  "delay_max_val (UpdateDelayEstimate (ucast (ucast (2 ^ 32 - 20 :: uint64) :: uint32))
     (bots_start (\<lambda>_. (2 ^ 32 + 22) * 1000000) (\<lambda>_. 0) (\<lambda>_. True))) = 42"
proof -
  let ?s = "bots_start (\<lambda>_. (2 ^ 32 + 22) * 1000000) (\<lambda>_. 0) (\<lambda>_. True)"
  have "delay_max_val ?s = 0"
    by (simp add: bots_start_def InitializeNetwork_def now_def Let_def)
  then show ?thesis
    using bot_delay_exact [OF start_delays start_now [of "\<lambda>_. (2 ^ 32 + 22) * 1000000" "\<lambda>_. 0" "\<lambda>_. True"],
        of "2 ^ 32 - 20"]
    by simp
qed

subsection \<open>Walking to an item\<close>

definition way_left :: "CLIENT \<Rightarrow> nat" where
  "way_left c = nat (max \<bar>target_item_x c - b_x c\<bar> \<bar>target_item_y c - b_y c\<bar>)"

definition inside :: "short \<Rightarrow> short \<Rightarrow> bool" where
  "inside x y \<longleftrightarrow> 0 \<le> x \<and> x < W_WIDTH \<and> 0 \<le> y \<and> y < W_HEIGHT"

text \<open>No obstacle in the rectangle between the player and the item.\<close>

definition clear_way :: "CLIENT \<Rightarrow> bool" where
  "clear_way c \<longleftrightarrow> (\<forall>x y. min (b_x c) (target_item_x c) \<le> x \<longrightarrow> x \<le> max (b_x c) (target_item_x c) \<longrightarrow>
     min (b_y c) (target_item_y c) \<le> y \<longrightarrow> y \<le> max (b_y c) (target_item_y c) \<longrightarrow> \<not> isCollision x y)"

lemma clear_wayD:
  "clear_way c \<Longrightarrow> min (b_x c) (target_item_x c) \<le> x \<Longrightarrow> x \<le> max (b_x c) (target_item_x c) \<Longrightarrow>
   min (b_y c) (target_item_y c) \<le> y \<Longrightarrow> y \<le> max (b_y c) (target_item_y c) \<Longrightarrow> \<not> isCollision x y"
  unfolding clear_way_def by blast

lemma sgn_between: "min a b \<le> a + sgn (b - a)" "a + sgn (b - a) \<le> max a (b :: int)"
  by (simp_all add: sgn_if min_def max_def)

lemma sgn_narrows:
  "min (a + sgn (b - a)) b \<le> x \<Longrightarrow> min a b \<le> x" "x \<le> max (a + sgn (b - a)) b \<Longrightarrow> x \<le> max a (b :: int)"
  using sgn_between [of a b] by linarith+

text \<open>The direction asked for and what the server makes of it: one step nearer in both coordinates.\<close>

lemma toward_item:
  assumes "has_target_item c" "inside (b_x c) (b_y c)" "inside (target_item_x c) (target_item_y c)" "clear_way c"
    and "\<not> standingOnTarget c"
  shows "\<exists>d. ChooseDirectionTowardItem c = Some d \<and> MovePositionByDirection (b_x c) (b_y c) d =
    (b_x c + sgn (target_item_x c - b_x c), b_y c + sgn (target_item_y c - b_y c))"
proof -
  let ?dx = "target_item_x c - b_x c" and ?dy = "target_item_y c - b_y c"
  have f: "\<not> isCollision (b_x c) (b_y c + sgn ?dy)" "\<not> isCollision (b_x c + sgn ?dx) (b_y c + sgn ?dy)"
    using clear_wayD [OF assms(4) min.cobounded1 max.cobounded1 sgn_between] clear_wayD [OF assms(4) sgn_between sgn_between]
    by blast+
  note defs = ChooseDirectionTowardItem_def MovePositionByDirection_def move_defs inside_def standingOnTarget_def
  show ?thesis
    using assms(1-3,5) f
    by (cases rule: linorder_cases [of "b_x c" "target_item_x c"]; cases rule: linorder_cases [of "b_y c" "target_item_y c"])
      (simp_all add: defs)
qed

lemma step_nearer:
  assumes "inside (b_x c) (b_y c)" "inside (target_item_x c) (target_item_y c)" "clear_way c" "\<not> standingOnTarget c"
    "has_target_item c"
    and c': "b_x c' = b_x c + sgn (target_item_x c - b_x c)" "b_y c' = b_y c + sgn (target_item_y c - b_y c)"
    "target_item_x c' = target_item_x c" "target_item_y c' = target_item_y c"
  shows "inside (b_x c') (b_y c')" "clear_way c'" "Suc (way_left c') = way_left c"
proof -
  show "inside (b_x c') (b_y c')"
    using assms(1,2) by (auto simp: c' inside_def sgn_if)
  show "clear_way c'"
    unfolding clear_way_def c'
    by (intro allI impI clear_wayD [OF assms(3)]) (erule sgn_narrows | assumption)+
  show "Suc (way_left c') = way_left c"
    using assms(4,5) by (auto simp: c' way_left_def sgn_if standingOnTarget_def)
qed

lemma move_sent:
  assumes "ChooseDirectionTowardItem (g_clients s i) = Some d" "client_socket (g_clients s i)" "env_os s (env_calls s + 1)"
  shows "(\<exists>t. sent (SendMovePacket i s) = sent s @ [(i, USER_MOVE_REQ_PACKET d t)]) \<and>
    (\<exists>f t n. g_clients (SendMovePacket i s) i = (g_clients s i)\<lparr>facing_left := f, last_sent_move_ms := t, next_move_time := n\<rparr>)"
proof -
  have c: "ChooseMoveDirection (g_clients s i) s = (d, s\<lparr>env_calls := env_calls s\<rparr>)"
    by (simp add: ChooseMoveDirection_def assms(1))
  have "\<exists>f. set_facing d c = c\<lparr>facing_left := f\<rparr>" for c :: CLIENT
    by (auto simp: set_facing_def intro: exI [of _ "facing_left c"])
  then obtain f where "set_facing d (g_clients s i) = (g_clients s i)\<lparr>facing_left := f\<rparr>"
    by blast
  then show ?thesis
    using SendMove_eq [OF c assms(2)] assms(3) by (simp add: upd_def) blast
qed

lemma pickup_sent:
  assumes "standingOnTarget (g_clients s i)" "client_socket (g_clients s i)" "env_os s (env_calls s)"
  shows "sent (SendPickupPacket i s) = sent s @ [(i, ITEM_PICKUP_REQ_PACKET)]"
proof -
  have "unat (rd16 (encode_client ITEM_PICKUP_REQ_PACKET) 0) = 3"
    by (simp add: encode_client_def InitializePacket_def le16_def rd16_def)
  then have "bot_SendPacket i ITEM_PICKUP_REQ_PACKET s = (True, s\<lparr>env_calls := env_calls s + 1, sent := sent s @ [(i, ITEM_PICKUP_REQ_PACKET)]\<rparr>)"
    using assms(2,3) by (simp add: bot_SendPacket_def os_ok_def bot_consts)
  then show ?thesis
    using assms(1) by (simp add: SendPickupPacket_def soon_def now_def RandomRange_def upd_def Let_def)
qed

lemma own_move:
  assumes "pid = b_id (g_clients s i)"
  shows "\<exists>z. g_clients (bot_handle i (SUBJECT_MOVE_NFY_PACKET pid x y t) s) i =
    (g_clients s i)\<lparr>b_x := x, b_y := y, last_sent_move_ms := 0, zone_id := z\<rparr>"
  using assms by (auto simp: on_move_def Let_def bot_frame intro: exI [of _ "zone_id (g_clients s i)"])

text \<open>C38. A player that has seen an item heads for it.  With no obstacle between them and a working connection,
  the next move request of a player that is not yet there asks for a direction whose step, as the server computes
  it, is one tile nearer, and when the notice of that step comes back, the player stands one tile nearer, has the
  same target and again nothing in its way.  On the tile of the item the next pickup turn sends the pickup request.
  Whether and when the server grants a move is up to the server.\<close>

theorem bot_heads_for_item:
  assumes "has_target_item (g_clients s i)" "inside (b_x (g_clients s i)) (b_y (g_clients s i))"
    and "inside (target_item_x (g_clients s i)) (target_item_y (g_clients s i))" "clear_way (g_clients s i)"
    and "client_socket (g_clients s i)" "env_os s (env_calls s)" "env_os s (env_calls s + 1)"
  shows "if standingOnTarget (g_clients s i) then sent (SendPickupPacket i s) = sent s @ [(i, ITEM_PICKUP_REQ_PACKET)]
    else \<exists>d t. sent (SendMovePacket i s) = sent s @ [(i, USER_MOVE_REQ_PACKET d t)] \<and>
      (\<forall>x y t'. MovePositionByDirection (b_x (g_clients s i)) (b_y (g_clients s i)) d = (x, y) \<longrightarrow>
        (let c' = g_clients (bot_handle i (SUBJECT_MOVE_NFY_PACKET (b_id (g_clients s i)) x y t') (SendMovePacket i s)) i in
         b_x c' = x \<and> b_y c' = y \<and> has_target_item c' \<and> target_item_x c' = target_item_x (g_clients s i) \<and>
         target_item_y c' = target_item_y (g_clients s i) \<and> inside x y \<and> clear_way c' \<and>
         Suc (way_left c') = way_left (g_clients s i)))"
proof (cases "standingOnTarget (g_clients s i)")
  case True
  then show ?thesis
    using pickup_sent assms(5,6) by simp
next
  case False
  let ?c = "g_clients s i" and ?s = "SendMovePacket i s"
  obtain d where d: "ChooseDirectionTowardItem ?c = Some d" "MovePositionByDirection (b_x ?c) (b_y ?c) d =
      (b_x ?c + sgn (target_item_x ?c - b_x ?c), b_y ?c + sgn (target_item_y ?c - b_y ?c))"
    using toward_item [OF assms(1-4) False] by blast
  obtain t f u n where m: "sent ?s = sent s @ [(i, USER_MOVE_REQ_PACKET d t)]"
    "g_clients ?s i = ?c\<lparr>facing_left := f, last_sent_move_ms := u, next_move_time := n\<rparr>"
    using move_sent [OF d(1) assms(5,7)] by blast
  have "let c' = g_clients (bot_handle i (SUBJECT_MOVE_NFY_PACKET (b_id ?c) x y t') ?s) i in
      b_x c' = x \<and> b_y c' = y \<and> has_target_item c' \<and> target_item_x c' = target_item_x ?c \<and>
      target_item_y c' = target_item_y ?c \<and> inside x y \<and> clear_way c' \<and> Suc (way_left c') = way_left ?c"
    if "MovePositionByDirection (b_x ?c) (b_y ?c) d = (x, y)" for x y t'
  proof -
    have xy: "x = b_x ?c + sgn (target_item_x ?c - b_x ?c)" "y = b_y ?c + sgn (target_item_y ?c - b_y ?c)"
      using that d(2) by simp_all
    obtain z where "g_clients (bot_handle i (SUBJECT_MOVE_NFY_PACKET (b_id ?c) x y t') ?s) i =
        ?c\<lparr>facing_left := f, next_move_time := n, b_x := x, b_y := y, last_sent_move_ms := 0, zone_id := z\<rparr>"
      using own_move [of "b_id ?c" ?s i x y t'] m(2) by auto
    then show ?thesis
      using step_nearer [OF assms(2-4) False assms(1), of
          "?c\<lparr>facing_left := f, next_move_time := n, b_x := x, b_y := y, last_sent_move_ms := 0, zone_id := z\<rparr>"]
      by (simp add: xy Let_def assms(1))
  qed
  with m(1) False show ?thesis
    by auto
qed

lemma corner_clear: "0 \<le> x \<Longrightarrow> x \<le> 2 \<Longrightarrow> 0 \<le> y \<Longrightarrow> y \<le> 2 \<Longrightarrow> \<not> isCollision x y"
  by (simp add: isCollision_iff checkCollision_def IsValidWorldPosition_def world_consts div_pos_pos_trivial)

theorem bot_heads_for_item_witness:
  "\<exists>d t. sent (SendMovePacket 0 (upd 0 (\<lambda>c. c\<lparr>client_socket := True, target_item_x := 2, target_item_y := 1,
      has_target_item := True\<rparr>) (bots_start (\<lambda>_. 0) (\<lambda>_. 0) (\<lambda>_. True)))) = [(0, USER_MOVE_REQ_PACKET d t)]"
proof -
  let ?s = "upd 0 (\<lambda>c. c\<lparr>client_socket := True, target_item_x := 2, target_item_y := 1, has_target_item := True\<rparr>)
      (bots_start (\<lambda>_. 0) (\<lambda>_. 0) (\<lambda>_. True))"
  let ?c = "g_clients ?s 0"
  have f: "b_x ?c = 0" "b_y ?c = 0" "target_item_x ?c = 2" "target_item_y ?c = 1" "has_target_item ?c" "client_socket ?c"
    "env_os ?s n" "sent ?s = []" for n
    by (simp_all add: bots_start_def InitializeNetwork_def now_def Let_def ResetRuntimeState_def upd_def)
  have "clear_way ?c"
    unfolding clear_way_def f using corner_clear by fastforce
  moreover have "inside (b_x ?c) (b_y ?c)" "inside (target_item_x ?c) (target_item_y ?c)" "\<not> standingOnTarget ?c"
    unfolding f standingOnTarget_def by (simp_all add: inside_def world_consts)
  ultimately show ?thesis
    using bot_heads_for_item [OF f(5) _ _ _ f(6,7,7)] f(8) by (metis append_Nil)
qed

subsection \<open>The slots a player remembers\<close>

definition last_about :: "uint16 \<Rightarrow> ITEM_SLOT_DATA list \<Rightarrow> ITEM_SLOT_DATA option" where
  "last_about k ds = find (\<lambda>d. sd_slotIndex d = k) (rev ds)"

lemma last_about_snoc: "last_about k (ds @ [d]) = (if sd_slotIndex d = k then Some d else last_about k ds)"
  by (simp add: last_about_def)

text \<open>The one potion slot and the one equipment slot that a player remembers are never stale: whatever slot
  notices came in since its inventory was read, if it remembers a potion slot then the last notice about that slot
  named a potion with the remembered count, and if it remembers an equipment slot then the last notice about it named
  equipment in the remembered state.\<close>

theorem bot_slots_fresh:
  fixes ds :: "ITEM_SLOT_DATA list"
  assumes "potion_slot c = INVALID_SLOT" "equip_slot c = INVALID_SLOT"
  defines "c' \<equiv> fold bot_ApplyInventorySlot ds c"
  shows "(potion_slot c' \<noteq> INVALID_SLOT \<longrightarrow> (\<exists>d. last_about (potion_slot c') ds = Some d \<and>
      sd_itemId d = HEALTH_POTION_ID \<and> sd_count d = potion_count c')) \<and>
    (equip_slot c' \<noteq> INVALID_SLOT \<longrightarrow> (\<exists>d. last_about (equip_slot c') ds = Some d \<and>
      FIRST_EQUIPMENT_ID \<le> sd_itemId d \<and> b_equipped c' = (sd_equipped d \<noteq> 0)))"
  unfolding c'_def
proof (induction ds rule: rev_induct)
  case Nil
  then show ?case
    using assms(1,2) by simp
next
  case (snoc d ds)
  then show ?case
    by (auto simp: bot_ApplyInventorySlot_def Let_def last_about_snoc bot_consts)
qed

theorem bot_slots_fresh_witness:
  "let ds = [\<lparr>sd_slotIndex = 3, sd_itemId = 1, sd_count = 5, sd_equipped = 0\<rparr>,
             \<lparr>sd_slotIndex = 4, sd_itemId = 2, sd_count = 1, sd_equipped = 1\<rparr>,
             \<lparr>sd_slotIndex = 3, sd_itemId = 1, sd_count = 4, sd_equipped = 0\<rparr>];
       c' = fold bot_ApplyInventorySlot ds (ResetRuntimeState (g_clients (bots_start (\<lambda>_. 0) (\<lambda>_. 0) (\<lambda>_. True)) 0))
   in potion_slot c' = 3 \<and> (\<exists>d. last_about 3 ds = Some d \<and> sd_count d = 4 \<and> potion_count c' = 4) \<and>
      equip_slot c' = 4 \<and> b_equipped c'"
proof -
  let ?ds = "[\<lparr>sd_slotIndex = 3, sd_itemId = 1, sd_count = 5, sd_equipped = 0\<rparr>,
             \<lparr>sd_slotIndex = 4, sd_itemId = 2, sd_count = 1, sd_equipped = 1\<rparr>,
             \<lparr>sd_slotIndex = 3, sd_itemId = 1, sd_count = 4, sd_equipped = 0\<rparr>] :: ITEM_SLOT_DATA list"
  let ?c = "ResetRuntimeState (g_clients (bots_start (\<lambda>_. 0) (\<lambda>_. 0) (\<lambda>_. True)) 0)"
  have "potion_slot ?c = INVALID_SLOT" "equip_slot ?c = INVALID_SLOT"
    by (simp_all add: ResetRuntimeState_def)
  note t = bot_slots_fresh [OF this, of ?ds]
  have "potion_slot (fold bot_ApplyInventorySlot ?ds ?c) = 3" "equip_slot (fold bot_ApplyInventorySlot ?ds ?c) = 4"
    "potion_count (fold bot_ApplyInventorySlot ?ds ?c) = 4" "b_equipped (fold bot_ApplyInventorySlot ?ds ?c)"
    by (simp_all add: bot_ApplyInventorySlot_def Let_def bot_consts word_le_nat_alt)
  then show ?thesis
    using t unfolding Let_def by (simp add: bot_consts) metis
qed

subsection \<open>The controller\<close>

text \<open>C39. The ceiling on the number of players is not lifted any more once players were added below it.  From a state
  in which the ceiling was set, one turn of the test thread with an acceptable delay and fewer players than the ceiling
  allows adds players, and from then on, in any run of worker turns and of test turns that find an acceptable delay and
  more than 95 percent of the ceiling, the ceiling stays, no stable turn is counted and no connection is opened,
  although a hundred stable turns are meant to lift the ceiling.\<close>

theorem controller_stays_capped:
  assumes "\<not> increasing s" "stableCount s + 1 < RECOVERY_STABLE_COUNT"
    and "active_clients s < MAX_TEST" "num_connections s < MAX_CLIENTS"
    and "ACCEPT_DELAY * delayMultiplier s \<le> quot (int (fst (now s)) - int (last_connect_time s)) 1000000"
    and "global_delay s \<le> DELAY_LIMIT" "active_clients s \<le> soft_limit s"
    and "capped_step\<^sup>*\<^sup>* (Test_Turn s) s'"
  shows "maxLimit s' = maxLimit s \<and> stableCount s' = stableCount s + 1 \<and>
    num_connections s' = num_connections (Test_Turn s)"
proof -
  have "limit (Test_Turn s) = (maxLimit s, True, stableCount s + 1)"
    using Adjust_ramps [OF assms(1-7)] same_limit_limit [OF rest_of_turn] by simp
  then show ?thesis
    using capped_run_limit [OF assms(8)] by (simp add: limit_def same_limit_def)
qed

theorem controller_stays_capped_witness:
  "\<exists>s. bot_reachable s \<and> \<not> increasing s \<and> maxLimit s = 1 \<and> maxLimit (Test_Turn s) = 1 \<and> stableCount (Test_Turn s) = 1"
proof -
  obtain s M N where s: "bot_reachable s" "lone 10 56 100 0 M N s" "limit s = (1, False, 0)"
    using scenario_run by blast
  then have "\<not> increasing s" "stableCount s + 1 < RECOVERY_STABLE_COUNT" "active_clients s < MAX_TEST"
    "num_connections s < MAX_CLIENTS" "global_delay s \<le> DELAY_LIMIT" "active_clients s \<le> soft_limit s"
    "ACCEPT_DELAY * delayMultiplier s \<le> quot (int (fst (now s)) - int (last_connect_time s)) 1000000"
    by (simp_all add: lone_defs limit_def bot_consts RECOVERY_STABLE_COUNT_def soft_limit_def quot_def now_def ticking_def)
  from controller_stays_capped [OF this(1-4,7,5,6), of "Test_Turn s"] s show ?thesis
    by (auto simp: limit_def)
qed

subsection \<open>A hostile size\<close>

text \<open>A size field of one, which the check for zero and for more than 255 lets through, ends the process:
  the number of bytes still needed is negative when \<^verbatim>\<open>memcpy\<close> gets it.\<close>

theorem bot_size_one_crashes:
  assumes "bot_holds i s []"
  shows "ConsumeReceivedBytes i (1 # 0 # bs) s = None"
proof -
  obtain s1 where h: "fill_header i (1 # 0 # bs) s = (bs, s1)" "bot_holds i s1 [1, 0]"
    using header_part [OF assms, of "1 # 0 # bs"] by (auto simp: numeral_2_eq_2)
  have "unat (rd16 (packet_buf (g_clients s1 i)) 0) = 1"
    using holds_size [OF h(2)] by (simp add: rd16_def)
  then have "fill_body i bs s1 = Inl None"
    using holds_buffered [OF h(2)] by (simp add: fill_body_def Let_def bot_consts)
  then show ?thesis
    using h(1) holds_buffered [OF h(2)] by (subst ConsumeReceivedBytes.simps) simp
qed

theorem bot_size_one_crashes_witness:
  "ConsumeReceivedBytes 0 [1, 0] (bots_start (\<lambda>_. 0) (\<lambda>_. 0) (\<lambda>_. True)) = None"
  using bot_size_one_crashes [OF start_holds, of 0 "[]"] by simp

end
