(* ===== verification/Clients.thy ===== *)
theory Clients
  imports ServerReads Subjects
begin

text \<open>
  The game client, \<^verbatim>\<open>Client/client.cpp\<close>: what it keeps of the world, how it reacts to the packets of
  the server.  Drawing, textures and the camera are left out.  A texture pointer of an object is whether it is set; whether the frame timer of an
  animation has run over is an argument of \<open>UpdateAnim\<close>.  Clocks hold the time of their last restart,
  in microseconds, and every operation that reads one takes the current time.  \<open>c_sent\<close> lists what was
  handed to the socket.  The socket does not block: \<open>c_net n\<close> is how many bytes of the \<open>n\<close>-th send the
  operating system takes, and \<open>c_wire\<close> the bytes that it took.
\<close>

datatype AnimState = IDLE | WALK | ATTACK | HURT | DEATH
datatype ClientState = LOGIN | INGAME
datatype ZoneTransState = ZT_NONE | FADE_OUT | LOADING | FADE_IN

text \<open>An unsigned value stored in an \<^verbatim>\<open>int\<close>.\<close>

definition int_of32 :: "uint32 \<Rightarrow> int" where "int_of32 w = sint w"

record OBJECT =
  m_showing :: bool
  m_chat :: string
  m_mess_end_time :: nat
  m_tex_idle :: bool
  m_tex_walk :: bool
  m_tex_attack :: bool
  m_tex_attack2 :: bool
  m_tex_attack3 :: bool
  m_tex_hurt :: bool
  m_tex_death :: bool
  m_idle_frames :: int
  m_walk_frames :: int
  m_atk_frames :: int
  m_skill_frames :: int
  m_hurt_frames :: int
  m_death_frames :: int
  m_atk_toggle :: bool
  m_is_skill :: bool
  m_anim_state :: AnimState
  m_frame :: int
  m_flip_x :: bool
  m_death_done :: bool
  o_id :: ObjID
  o_x :: int
  o_y :: int
  o_level :: int
  o_hp :: int
  o_maxhp :: int
  o_exp :: int
  name_str :: string
  equippedItemId :: uint16

definition OBJECT0 :: OBJECT where
  "OBJECT0 = \<lparr>m_showing = False, m_chat = [], m_mess_end_time = 0, m_tex_idle = False, m_tex_walk = False,
     m_tex_attack = False, m_tex_attack2 = False, m_tex_attack3 = False, m_tex_hurt = False, m_tex_death = False,
     m_idle_frames = 1, m_walk_frames = 1, m_atk_frames = 1, m_skill_frames = 1, m_hurt_frames = 1,
     m_death_frames = 1, m_atk_toggle = False, m_is_skill = False, m_anim_state = IDLE, m_frame = 0,
     m_flip_x = False, m_death_done = False, o_id = npos, o_x = 0, o_y = 0, o_level = 0, o_hp = 0, o_maxhp = 0,
     o_exp = 0, name_str = [], equippedItemId = 0\<rparr>"

text \<open>The constructor for static objects names them; the name is replaced at once by the caller.\<close>

definition OBJECT_static :: OBJECT where
  "OBJECT_static = OBJECT0\<lparr>name_str := ''NONAME''\<rparr>"

definition SetAnimTextures :: "int \<Rightarrow> int \<Rightarrow> OBJECT \<Rightarrow> OBJECT" where
  "SetAnimTextures idleFrames walkFrames ob =
     ob\<lparr>m_tex_idle := True, m_tex_walk := True, m_idle_frames := idleFrames, m_walk_frames := walkFrames,
        m_frame := 0, m_anim_state := IDLE\<rparr>"

definition SetOrcAnimTextures :: "int \<Rightarrow> int \<Rightarrow> int \<Rightarrow> int \<Rightarrow> int \<Rightarrow> OBJECT \<Rightarrow> OBJECT" where
  "SetOrcAnimTextures idleF walkF atkF hurtF deathF ob =
     (SetAnimTextures idleF walkF ob)\<lparr>m_tex_attack := True, m_tex_hurt := True, m_tex_death := True,
        m_atk_frames := atkF, m_hurt_frames := hurtF, m_death_frames := deathF, m_death_done := False\<rparr>"

definition SetAttackHurtTextures :: "int \<Rightarrow> int \<Rightarrow> bool \<Rightarrow> bool \<Rightarrow> int \<Rightarrow> OBJECT \<Rightarrow> OBJECT" where
  "SetAttackHurtTextures atkF hurtF atk2 atk3 skillF ob =
     ob\<lparr>m_tex_attack := True, m_tex_attack2 := atk2, m_tex_attack3 := atk3, m_tex_hurt := True,
        m_atk_frames := atkF, m_skill_frames := skillF, m_hurt_frames := hurtF\<rparr>"

definition SetAttacking :: "OBJECT \<Rightarrow> OBJECT" where
  "SetAttacking ob =
     (if \<not> m_tex_attack ob then ob
      else if m_anim_state ob = DEATH then ob
      else let ob = (if m_tex_attack2 ob then ob\<lparr>m_atk_toggle := \<not> m_atk_toggle ob\<rparr> else ob)
           in ob\<lparr>m_anim_state := ATTACK, m_frame := 0\<rparr>)"

definition SetSkillAttacking :: "OBJECT \<Rightarrow> OBJECT" where
  "SetSkillAttacking ob =
     (if \<not> m_tex_attack3 ob then ob
      else if m_anim_state ob = DEATH then ob
      else ob\<lparr>m_is_skill := True, m_anim_state := ATTACK, m_frame := 0\<rparr>)"

definition SetDying :: "OBJECT \<Rightarrow> OBJECT" where
  "SetDying ob =
     (if \<not> m_tex_death ob then ob else ob\<lparr>m_anim_state := DEATH, m_frame := 0, m_death_done := False\<rparr>)"

definition SetHurt :: "OBJECT \<Rightarrow> OBJECT" where
  "SetHurt ob =
     (if m_anim_state ob = DEATH then ob
      else if m_anim_state ob = ATTACK then ob
      else if \<not> m_tex_hurt ob then ob
      else ob\<lparr>m_anim_state := HURT, m_frame := 0\<rparr>)"

definition SetWalking :: "int \<Rightarrow> OBJECT \<Rightarrow> OBJECT" where
  "SetWalking direction ob =
     (if \<not> m_tex_walk ob then ob
      else if m_anim_state ob = ATTACK \<or> m_anim_state ob = HURT then ob
      else let ob = (if direction = 2 \<or> direction = 4 \<or> direction = 6 then ob\<lparr>m_flip_x := True\<rparr> else ob);
               ob = (if direction = 3 \<or> direction = 5 \<or> direction = 7 then ob\<lparr>m_flip_x := False\<rparr> else ob)
           in if m_anim_state ob \<noteq> WALK then ob\<lparr>m_anim_state := WALK, m_frame := 0\<rparr> else ob)"

definition IsOneShot :: "OBJECT \<Rightarrow> bool" where
  "IsOneShot ob \<longleftrightarrow> m_anim_state ob = ATTACK \<or> m_anim_state ob = HURT"

definition SetFacing :: "bool \<Rightarrow> OBJECT \<Rightarrow> OBJECT" where
  "SetFacing faceLeft ob = ob\<lparr>m_flip_x := faceLeft\<rparr>"

definition SetIdle :: "OBJECT \<Rightarrow> OBJECT" where
  "SetIdle ob =
     (if \<not> m_tex_idle ob then ob
      else let ob = ob\<lparr>m_is_skill := False\<rparr> in
           if m_anim_state ob \<noteq> IDLE then ob\<lparr>m_anim_state := IDLE, m_frame := 0\<rparr> else ob)"

definition anim_total :: "OBJECT \<Rightarrow> int" where
  "anim_total ob =
     (case m_anim_state ob of
        IDLE \<Rightarrow> m_idle_frames ob
      | WALK \<Rightarrow> m_walk_frames ob
      | ATTACK \<Rightarrow> (if m_is_skill ob then m_skill_frames ob else m_atk_frames ob)
      | HURT \<Rightarrow> m_hurt_frames ob
      | DEATH \<Rightarrow> m_death_frames ob)"

definition UpdateAnim :: "bool \<Rightarrow> OBJECT \<Rightarrow> OBJECT" where
  "UpdateAnim frame_over ob =
     (if \<not> m_tex_idle ob then ob
      else if m_death_done ob then ob
      else if \<not> frame_over then ob
      else let total = anim_total ob in
           if m_anim_state ob = ATTACK \<or> m_anim_state ob = HURT
           then (if m_frame ob + 1 \<ge> total then SetIdle ob else ob\<lparr>m_frame := m_frame ob + 1\<rparr>)
           else if m_anim_state ob = DEATH
           then (if m_frame ob + 1 \<ge> total then ob\<lparr>m_death_done := True\<rparr> else ob\<lparr>m_frame := m_frame ob + 1\<rparr>)
           else ob\<lparr>m_frame := (m_frame ob + 1) mod total\<rparr>)"

definition o_show :: "OBJECT \<Rightarrow> OBJECT" where "o_show ob = ob\<lparr>m_showing := True\<rparr>"
definition o_hide :: "OBJECT \<Rightarrow> OBJECT" where "o_hide ob = ob\<lparr>m_showing := False\<rparr>"
definition o_move :: "int \<Rightarrow> int \<Rightarrow> OBJECT \<Rightarrow> OBJECT" where "o_move x y ob = ob\<lparr>o_x := x, o_y := y\<rparr>"
definition set_name :: "string \<Rightarrow> OBJECT \<Rightarrow> OBJECT" where "set_name s ob = ob\<lparr>name_str := s\<rparr>"

definition set_chat :: "nat \<Rightarrow> string \<Rightarrow> OBJECT \<Rightarrow> OBJECT" where
  "set_chat t s ob = ob\<lparr>m_chat := s, m_mess_end_time := t + 4000000\<rparr>"

text \<open>The three kinds of animated objects, with the frame counts of their sprite sheets.\<close>

definition soldier :: "OBJECT \<Rightarrow> OBJECT" where
  "soldier ob = SetAttackHurtTextures 6 4 True True 9 (SetAnimTextures 6 8 ob)"

definition orc :: "OBJECT \<Rightarrow> OBJECT" where
  "orc ob = SetOrcAnimTextures 6 8 6 4 4 ob"

definition slime :: "OBJECT \<Rightarrow> OBJECT" where
  "slime ob = SetOrcAnimTextures 6 8 8 4 10 ob"

subsection \<open>The state of the client\<close>

record GameClient =
  g_myid :: ObjID
  avatar :: OBJECT
  players :: "ObjID \<rightharpoonup> OBJECT"
  g_pendingObjects :: "ObjID \<rightharpoonup> OBJECT"
  g_inventory :: "ITEM_SLOT_DATA list"
  g_chatInput :: string
  g_chatHistory :: "string list"
  g_chatMode :: bool
  g_clientState :: ClientState
  g_loginId :: string
  g_loginPass :: string
  g_loginField :: int
  g_isDead :: bool
  g_deathTime :: nat
  g_itemIconTex :: "uint16 \<Rightarrow> bool"
  g_damageNumbers :: "(int \<times> int \<times> int) list"
  g_moveClock :: nat
  g_attackClock :: nat
  g_skillClock :: nat
  g_zoneTransState :: ZoneTransState
  g_zoneTransClock :: nat
  g_currentZoneCol :: int
  g_currentZoneRow :: int
  g_pendingPlayerX :: int
  g_pendingPlayerY :: int
  window_open :: bool
  in_packet_size :: nat
  saved_packet_size :: nat
  packet_buffer :: "uint8 list"
  c_sent :: "ClientPacket list"
  c_net :: "nat \<Rightarrow> nat"
  c_wire :: "uint8 list"

definition upd_avatar :: "(OBJECT \<Rightarrow> OBJECT) \<Rightarrow> GameClient \<Rightarrow> GameClient" where
  "upd_avatar f g = g\<lparr>avatar := f (avatar g)\<rparr>"

text \<open>An update of a player that is in the table.\<close>

definition upd_player :: "ObjID \<Rightarrow> (OBJECT \<Rightarrow> OBJECT) \<Rightarrow> GameClient \<Rightarrow> GameClient" where
  "upd_player i f g =
     (case players g i of None \<Rightarrow> g | Some ob \<Rightarrow> g\<lparr>players := (players g)(i \<mapsto> f ob)\<rparr>)"

subsection \<open>Items\<close>

definition ITEM_ASSET_TABLE :: "uint16 \<rightharpoonup> string \<times> bool" where
  "ITEM_ASSET_TABLE = [1 \<mapsto> (''Health Potion'', True), 2 \<mapsto> (''Wooden Sword'', False), 3 \<mapsto> (''Iron Sword'', False),
     4 \<mapsto> (''Steel Sword'', False), 5 \<mapsto> (''Flame Sword'', False), 6 \<mapsto> (''Dragon Slayer'', False)]"

definition GetItemDisplayName :: "uint16 \<Rightarrow> string" where
  "GetItemDisplayName itemId = (case ITEM_ASSET_TABLE itemId of Some (name, _) \<Rightarrow> name | None \<Rightarrow> ''Unknown Item'')"

definition IsConsumableItem :: "uint16 \<Rightarrow> bool" where
  "IsConsumableItem itemId = (case ITEM_ASSET_TABLE itemId of Some (_, consumable) \<Rightarrow> consumable | None \<Rightarrow> False)"

definition ApplyInventorySlot :: "ITEM_SLOT_DATA \<Rightarrow> GameClient \<Rightarrow> GameClient" where
  "ApplyInventorySlot slot g =
     (if sd_slotIndex slot < MAX_INVENTORY_SLOTS
      then g\<lparr>g_inventory := (g_inventory g)[unat (sd_slotIndex slot) := slot]\<rparr> else g)"

text \<open>\<^verbatim>\<open>send_packet\<close> hands as many bytes to the socket as the first byte of the packet says.  The socket
  takes a beginning of them, possibly nothing, and the code looks neither at the status nor at the
  number of bytes sent: the rest is dropped.\<close>

definition sent_bytes :: "ClientPacket \<Rightarrow> uint8 list" where
  "sent_bytes p = take (unat (encode_client p ! 0)) (encode_client p)"

definition send_packet :: "ClientPacket \<Rightarrow> GameClient \<Rightarrow> GameClient" where
  "send_packet p g =
     g\<lparr>c_sent := c_sent g @ [p], c_wire := c_wire g @ take (c_net g (length (c_sent g))) (sent_bytes p)\<rparr>"

definition ActivateInventorySlot :: "int \<Rightarrow> GameClient \<Rightarrow> GameClient" where
  "ActivateInventorySlot slot g =
     (if slot < 0 \<or> slot \<ge> int (unat MAX_INVENTORY_SLOTS) then g
      else let data = g_inventory g ! nat slot in
           if sd_itemId data = 0 then g
           else if IsConsumableItem (sd_itemId data) then send_packet (ITEM_USE_REQ_PACKET (word_of_int slot)) g
           else if sd_equipped data \<noteq> 0 then send_packet (ITEM_UNEQUIP_REQ_PACKET (word_of_int slot)) g
           else send_packet (ITEM_EQUIP_REQ_PACKET (word_of_int slot)) g)"

text \<open>The mouse is at a whole pixel, so the \<^verbatim>\<open>float\<close> arithmetic of the hit test is exact.\<close>

definition WINDOW_HEIGHT :: int where "WINDOW_HEIGHT = 13 * 65"
definition WINDOW_WIDTH :: int where "WINDOW_WIDTH = 16 * 65"

definition HitTestInventorySlot :: "int \<Rightarrow> int \<Rightarrow> int" where
  "HitTestInventorySlot mx my =
     (let COLS = 10; CELL = 32; GAP = 3;
          ROWS = (int (unat MAX_INVENTORY_SLOTS) + COLS - 1) div COLS;
          gridH = ROWS * (CELL + GAP) - GAP;
          baseX = 8;
          baseY = WINDOW_HEIGHT - gridH - 8
      in if mx < baseX \<or> my < baseY then -1
         else let col = (mx - baseX) div (CELL + GAP); row = (my - baseY) div (CELL + GAP) in
              if col < 0 \<or> col \<ge> COLS \<or> row < 0 \<or> row \<ge> ROWS then -1
              else let cellLocalX = mx - (baseX + col * (CELL + GAP)); cellLocalY = my - (baseY + row * (CELL + GAP)) in
                   if cellLocalX > CELL \<or> cellLocalY > CELL then -1
                   else let slot = row * COLS + col in if slot < int (unat MAX_INVENTORY_SLOTS) then slot else -1)"

subsection \<open>Helpers\<close>

definition PushHistory :: "string \<Rightarrow> GameClient \<Rightarrow> GameClient" where
  "PushHistory msg g =
     (let h = g_chatHistory g @ [msg] in g\<lparr>g_chatHistory := (if length h > 20 then tl h else h)\<rparr>)"

definition SpawnDamageNumber :: "int \<Rightarrow> int \<Rightarrow> int \<Rightarrow> GameClient \<Rightarrow> GameClient" where
  "SpawnDamageNumber worldX worldY damage g = g\<lparr>g_damageNumbers := g_damageNumbers g @ [(worldX, worldY, damage)]\<rparr>"

definition IsTileOccupiedByMonster :: "int \<Rightarrow> int \<Rightarrow> GameClient \<Rightarrow> bool" where
  "IsTileOccupiedByMonster x y g \<longleftrightarrow>
     (\<exists>i. hasCategory eMonster i \<and> (case players g i of Some ob \<Rightarrow> o_x ob = x \<and> o_y ob = y | None \<Rightarrow> False))"

definition ZONE_TILE_SIZE :: int where "ZONE_TILE_SIZE = 500"

definition GetZoneCol :: "int \<Rightarrow> int" where "GetZoneCol wx = quot wx ZONE_TILE_SIZE"
definition GetZoneRow :: "int \<Rightarrow> int" where "GetZoneRow wy = quot wy ZONE_TILE_SIZE"

definition TriggerZoneTransition :: "nat \<Rightarrow> int \<Rightarrow> int \<Rightarrow> GameClient \<Rightarrow> GameClient" where
  "TriggerZoneTransition t newX newY g =
     g\<lparr>g_pendingPlayerX := newX, g_pendingPlayerY := newY, g_currentZoneCol := GetZoneCol newX,
       g_currentZoneRow := GetZoneRow newY, players := Map.empty, g_pendingObjects := Map.empty,
       g_zoneTransState := FADE_OUT, g_zoneTransClock := t\<rparr>"

text \<open>\<^verbatim>\<open>strncpy_s\<close> with the size of the field less one; the password typed in is not copied.\<close>

definition DoLogin :: "GameClient \<Rightarrow> GameClient" where
  "DoLogin g =
     (if g_loginId g = [] then g
      else let name = take (NAME_SIZE - 1) (g_loginId g);
               g = send_packet (USER_LOGIN_REQ_PACKET name []) g;
               g = upd_avatar (set_name name) g
           in g\<lparr>g_clientState := INGAME\<rparr>)"

subsection \<open>Reactions to packets\<close>

definition on_user_login :: "ObjID \<Rightarrow> short \<Rightarrow> short \<Rightarrow> uint16 \<Rightarrow> uint16 \<Rightarrow> uint8 \<Rightarrow> uint32 \<Rightarrow> GameClient \<Rightarrow> GameClient" where
  "on_user_login i x y maxhp hp level ex g =
     (let g = g\<lparr>g_myid := i\<rparr>;
          g = upd_avatar (\<lambda>ob. (o_show (o_move x y (ob\<lparr>o_id := i\<rparr>)))\<lparr>o_maxhp := uint maxhp, o_hp := uint hp,
                o_level := uint level, o_exp := int_of32 ex\<rparr>) g
      in g\<lparr>g_currentZoneCol := GetZoneCol x, g_currentZoneRow := GetZoneRow y\<rparr>)"

text \<open>The object that is entered into the table when a subject is announced; none for an item without
  an icon.\<close>

definition added_object :: "(uint16 \<Rightarrow> bool) \<Rightarrow> uint8 \<Rightarrow> ObjID \<Rightarrow> short \<Rightarrow> short \<Rightarrow> string \<Rightarrow> uint16 \<Rightarrow> OBJECT option" where
  "added_object icons monster_type i x y name itemId =
     (if hasCategory eUser i
      then Some (o_show ((set_name name (o_move x y ((soldier OBJECT0)\<lparr>o_id := i\<rparr>)))\<lparr>equippedItemId := itemId\<rparr>))
      else if hasCategory eItem i
      then (if icons itemId then Some (o_show (set_name name (o_move x y (OBJECT_static\<lparr>o_id := i\<rparr>)))) else None)
      else let ob = (if monster_type = mtype_val PASSIVE then slime OBJECT0 else orc OBJECT0)
           in Some (o_show (set_name name (o_move x y (ob\<lparr>o_id := i\<rparr>)))))"

definition on_subject_add :: "uint8 \<Rightarrow> ObjID \<Rightarrow> short \<Rightarrow> short \<Rightarrow> string \<Rightarrow> uint16 \<Rightarrow> GameClient \<Rightarrow> GameClient" where
  "on_subject_add monster_type i x y name itemId g =
     (if i = g_myid g
      then upd_avatar (\<lambda>ob. o_show ((o_move x y ob)\<lparr>equippedItemId := itemId\<rparr>)) g
      else case added_object (g_itemIconTex g) monster_type i x y name itemId of
             None \<Rightarrow> g
           | Some ob \<Rightarrow>
               if g_zoneTransState g = FADE_OUT then g\<lparr>g_pendingObjects := (g_pendingObjects g)(i \<mapsto> ob)\<rparr>
               else g\<lparr>players := (players g)(i \<mapsto> ob)\<rparr>)"

definition monster_walk :: "short \<Rightarrow> short \<Rightarrow> OBJECT \<Rightarrow> OBJECT" where
  "monster_walk x y ob =
     (let dx = x - o_x ob; dy = y - o_y ob;
          direction = (if dx < 0 then 2 else if dx > 0 then 3 else if dy < 0 then 0 else 1)
      in SetWalking direction (o_move x y ob))"

definition on_subject_move :: "nat \<Rightarrow> ObjID \<Rightarrow> short \<Rightarrow> short \<Rightarrow> GameClient \<Rightarrow> GameClient" where
  "on_subject_move t i x y g =
     (if i = g_myid g
      then let newCol = GetZoneCol x; newRow = GetZoneRow y;
               zoneChanged = (g_currentZoneCol g \<ge> 0 \<and> (newCol \<noteq> g_currentZoneCol g \<or> newRow \<noteq> g_currentZoneRow g))
           in if zoneChanged \<and> g_zoneTransState g = ZT_NONE then TriggerZoneTransition t x y g
              else if g_zoneTransState g = ZT_NONE then upd_avatar (o_move x y) g
              else g
      else if hasCategory eMonster i then upd_player i (monster_walk x y) g
      else upd_player i (o_move x y) g)"

definition on_subject_remove :: "ObjID \<Rightarrow> GameClient \<Rightarrow> GameClient" where
  "on_subject_remove i g =
     (if i = g_myid g then upd_avatar o_hide g else g\<lparr>players := (players g)(i := None)\<rparr>)"

definition on_attack_ack :: "ObjID \<Rightarrow> int \<Rightarrow> GameClient \<Rightarrow> GameClient" where
  "on_attack_ack i damage g =
     (case players g i of
        None \<Rightarrow> g
      | Some ob \<Rightarrow> SpawnDamageNumber (o_x ob) (o_y ob) damage (upd_player i SetHurt g))"

definition on_subject_die :: "nat \<Rightarrow> ObjID \<Rightarrow> uint16 \<Rightarrow> GameClient \<Rightarrow> GameClient" where
  "on_subject_die t i hp g =
     (if hasCategory eMonster i
      then (if players g i \<noteq> None then upd_player i SetDying g else g\<lparr>players := (players g)(i := None)\<rparr>)
      else if i = g_myid g
      then (upd_avatar (\<lambda>ob. o_hide (ob\<lparr>o_hp := uint hp\<rparr>)) g)\<lparr>g_isDead := True, g_deathTime := t\<rparr>
      else upd_player i (\<lambda>ob. o_hide (ob\<lparr>o_hp := uint hp\<rparr>)) g)"

definition on_subject_respawn :: "uint8 \<Rightarrow> ObjID \<Rightarrow> short \<Rightarrow> short \<Rightarrow> uint16 \<Rightarrow> string \<Rightarrow> GameClient \<Rightarrow> GameClient" where
  "on_subject_respawn monster_type i x y hp name g =
     (if i = g_myid g
      then (upd_avatar (\<lambda>ob. o_show (SetIdle ((o_move x y ob)\<lparr>o_hp := uint hp\<rparr>))) g)\<lparr>g_isDead := False\<rparr>
      else if players g i \<noteq> None
      then upd_player i (\<lambda>ob. o_show (SetIdle ((o_move x y ob)\<lparr>o_hp := uint hp\<rparr>))) g
      else let ob = (if hasCategory eUser i then soldier OBJECT0
                     else if monster_type = mtype_val PASSIVE then slime OBJECT0 else orc OBJECT0);
               ob = o_show (SetIdle (set_name name ((o_move x y (ob\<lparr>o_id := i\<rparr>))\<lparr>o_hp := uint hp\<rparr>)))
           in g\<lparr>players := (players g)(i \<mapsto> ob)\<rparr>)"

definition on_subject_attack :: "ObjID \<Rightarrow> ObjID \<Rightarrow> int \<Rightarrow> GameClient \<Rightarrow> GameClient" where
  "on_subject_attack victim_id attacker_id hp g =
     (if victim_id = g_myid g
      then let g = upd_avatar (\<lambda>ob. SetHurt (ob\<lparr>o_hp := hp\<rparr>)) g in
           upd_player attacker_id (\<lambda>npc. let dx = o_x (avatar g) - o_x npc in
             SetAttacking (if dx \<noteq> 0 then SetFacing (dx < 0) npc else npc)) g
      else upd_player attacker_id SetAttacking (upd_player victim_id (\<lambda>ob. SetHurt (ob\<lparr>o_hp := hp\<rparr>)) g))"

definition on_chat :: "nat \<Rightarrow> ObjID \<Rightarrow> string \<Rightarrow> GameClient \<Rightarrow> GameClient" where
  "on_chat t sender_id safe g =
     (if sender_id = g_myid g then PushHistory (''Me: '' @ safe) (upd_avatar (set_chat t safe) g)
      else case players g sender_id of
             None \<Rightarrow> g
           | Some npc \<Rightarrow>
               let label = (if name_str npc = [] then ''??'' else name_str npc)
               in PushHistory (label @ '': '' @ safe) (upd_player sender_id (set_chat t safe) g))"

definition on_list :: "uint8 \<Rightarrow> ITEM_SLOT_DATA list \<Rightarrow> GameClient \<Rightarrow> GameClient" where
  "on_list slotCount items g =
     fold ApplyInventorySlot (take (min (unat slotCount) (unat MAX_INVENTORY_SLOTS)) items)
       (g\<lparr>g_inventory := replicate (unat MAX_INVENTORY_SLOTS) noSlot\<rparr>)"

text \<open>The dash of the message is a character outside ASCII.\<close>

definition lost_message :: "uint16 \<Rightarrow> int \<Rightarrow> string" where
  "lost_message itemId n = ''Inventory full '' @ map char_of [226 :: nat, 128, 148] @ '' lost ''
     @ GetItemDisplayName itemId @ '' x'' @ dec n"

fun client_handle :: "nat \<Rightarrow> ServerPacket \<Rightarrow> GameClient \<Rightarrow> GameClient" where
  "client_handle t (USER_LOGIN_ACK_PACKET i x y maxhp hp level ex) g = on_user_login i x y maxhp hp level ex g"
| "client_handle t USER_LOGIN_FAIL_ACK_PACKET g = PushHistory ''> Login failed. Check account name.'' g"
| "client_handle t (SUBJECT_ADD_NFY_PACKET m i x y name item) g = on_subject_add m i x y name item g"
| "client_handle t (SUBJECT_MOVE_NFY_PACKET i x y _) g = on_subject_move t i x y g"
| "client_handle t (SUBJECT_REMOVE_NFY_PACKET i) g = on_subject_remove i g"
| "client_handle t (USER_ATTACK_ACK_PACKET i hp damage) g = on_attack_ack i damage g"
| "client_handle t (USER_STAT_CHANGE_INF_PACKET level hp maxhp ex) g =
     upd_avatar (\<lambda>ob. ob\<lparr>o_level := uint level, o_hp := uint hp, o_maxhp := uint maxhp, o_exp := int_of32 ex\<rparr>) g"
| "client_handle t (SUBJECT_DIE_NFY_PACKET i hp) g = on_subject_die t i hp g"
| "client_handle t (SUBJECT_RESPAWN_NFY_PACKET m i x y hp name) g = on_subject_respawn m i x y hp name g"
| "client_handle t (SUBJECT_ATTACK_NFY_PACKET v a hp) g = on_subject_attack v a hp g"
| "client_handle t (USER_HEAL_INF_PACKET hp) g = upd_avatar (\<lambda>ob. ob\<lparr>o_hp := hp\<rparr>) g"
| "client_handle t (PLAYER_ATTACK_NFY_PACKET a facing) g = upd_player a (\<lambda>npc. SetAttacking (SetFacing (facing = 1) npc)) g"
| "client_handle t (SC_CHAT_PACKET i mess) g = on_chat t i mess g"
| "client_handle t (ITEM_LIST_ACK_PACKET n items) g = on_list n items g"
| "client_handle t (ITEM_EQUIP_ACK_PACKET success slot) g = (if success then ApplyInventorySlot slot g else g)"
| "client_handle t (ITEM_UNEQUIP_ACK_PACKET success slot) g = (if success then ApplyInventorySlot slot g else g)"
| "client_handle t (ITEM_SWAP_ACK_PACKET success slotA slotB) g =
     (if success then ApplyInventorySlot slotB (ApplyInventorySlot slotA g) else g)"
| "client_handle t (ITEM_DISCARD_ACK_PACKET success slot) g = (if success then ApplyInventorySlot slot g else g)"
| "client_handle t (ITEM_PICKUP_ACK_PACKET success) g = g"
| "client_handle t (ITEM_USE_ACK_PACKET success slot) g = (if success then ApplyInventorySlot slot g else g)"
| "client_handle t (ITEM_ACQUIRE_INF_PACKET slot) g = ApplyInventorySlot slot g"
| "client_handle t (SYSTEM_MESSAGE_INF_PACKET InventoryFull p q) g = PushHistory (lost_message (word_of_int p) q) g"
| "client_handle t (SUBJECT_EQUIP_CHANGE_NFY_PACKET i item) g =
     (if i = g_myid g then upd_avatar (\<lambda>ob. ob\<lparr>equippedItemId := item\<rparr>) g
      else upd_player i (\<lambda>ob. ob\<lparr>equippedItemId := item\<rparr>) g)"

definition client_ProcessPacket :: "nat \<Rightarrow> uint8 list \<Rightarrow> GameClient \<Rightarrow> GameClient" where
  "client_ProcessPacket t ptr g = (case decode_server ptr of Some p \<Rightarrow> client_handle t p g | None \<Rightarrow> g)"

subsection \<open>Receiving\<close>

text \<open>\<^verbatim>\<open>memcpy\<close> behind the bytes saved so far.\<close>

definition buffer_put :: "uint8 list \<Rightarrow> GameClient \<Rightarrow> GameClient" where
  "buffer_put bs g = g\<lparr>packet_buffer := take (saved_packet_size g) (packet_buffer g) @ bs
     @ drop (saved_packet_size g + length bs) (packet_buffer g)\<rparr>"

text \<open>The size of a packet is taken from its first byte alone.  The loop does not end on a packet of
  size zero, which is the value \<open>None\<close>.\<close>

definition read_size :: "uint8 list \<Rightarrow> GameClient \<Rightarrow> GameClient" where
  "read_size ptr g = (if in_packet_size g = 0 then g\<lparr>in_packet_size := unat (ptr ! 0)\<rparr> else g)"

definition take_packet :: "nat \<Rightarrow> uint8 list \<Rightarrow> GameClient \<Rightarrow> GameClient" where
  "take_packet t bs g =
     (let g = buffer_put bs g; g = client_ProcessPacket t (packet_buffer g) g
      in g\<lparr>in_packet_size := 0, saved_packet_size := 0\<rparr>)"

definition save_bytes :: "uint8 list \<Rightarrow> GameClient \<Rightarrow> GameClient" where
  "save_bytes bs g = (buffer_put bs g)\<lparr>saved_packet_size := saved_packet_size g + length bs\<rparr>"

partial_function (option) process_data :: "nat \<Rightarrow> uint8 list \<Rightarrow> GameClient \<Rightarrow> GameClient option" where
  [code]: "process_data t ptr g =
     (if ptr = [] then Some g
      else let g' = read_size ptr g in
           if length ptr + saved_packet_size g' \<ge> in_packet_size g'
           then let n = in_packet_size g' - saved_packet_size g'
                in process_data t (drop n ptr) (take_packet t (take n ptr) g')
           else Some (save_bytes ptr g'))"

end
