(* ===== verification/ClientFraming.thy ===== *)
theory ClientFraming
  imports Clients
begin

text \<open>
  The receive loop of the game client against the reference: \<open>process_data\<close> delivers the packets of the
  stream one by one.  The client reads the size of a packet from one byte; that is enough because no
  packet of the server is longer than 214 bytes.
\<close>

definition forget_buffer :: "GameClient \<Rightarrow> GameClient" where
  "forget_buffer g = g\<lparr>in_packet_size := 0, saved_packet_size := 0, packet_buffer := []\<rparr>"

definition client_holds :: "GameClient \<Rightarrow> uint8 list \<Rightarrow> bool" where
  "client_holds g part \<longleftrightarrow> length (packet_buffer g) = BUF_SIZE \<and> saved_packet_size g = length part \<and>
     in_packet_size g = (if part = [] then 0 else unat (part ! 0)) \<and> take (length part) (packet_buffer g) = part"

text \<open>The packets \<open>ps\<close> are handled in order, each once, each at some time.\<close>

definition handled :: "nat list \<Rightarrow> ServerPacket list \<Rightarrow> GameClient \<Rightarrow> GameClient" where
  "handled ts ps g = fold (\<lambda>(t, p). client_handle t (as_read p)) (zip ts ps) g"

definition client_delivers :: "GameClient \<Rightarrow> ServerPacket list \<Rightarrow> GameClient \<Rightarrow> bool" where
  "client_delivers g ps g' \<longleftrightarrow>
     (\<exists>ts. length ts = length ps \<and> forget_buffer g' = handled ts ps (forget_buffer g))"

subsection \<open>The reactions do not touch the buffer\<close>

abbreviation with_buffer :: "nat \<Rightarrow> nat \<Rightarrow> uint8 list \<Rightarrow> GameClient \<Rightarrow> GameClient" where
  "with_buffer n k b g \<equiv> g\<lparr>in_packet_size := n, saved_packet_size := k, packet_buffer := b\<rparr>"

lemma slot_buffer: "ApplyInventorySlot d (with_buffer n k b g) = with_buffer n k b (ApplyInventorySlot d g)"
  by (simp add: ApplyInventorySlot_def)

lemma slots_buffer:
  "fold ApplyInventorySlot ds (with_buffer n k b g) = with_buffer n k b (fold ApplyInventorySlot ds g)"
  by (induction ds arbitrary: g) (simp_all add: slot_buffer)

lemma upd_player_buffer: "upd_player i f (with_buffer n k b g) = with_buffer n k b (upd_player i f g)"
  by (simp add: upd_player_def split: option.split)

lemma push_buffer: "PushHistory m (with_buffer n k b g) = with_buffer n k b (PushHistory m g)"
  by (simp add: PushHistory_def Let_def)

lemma on_list_buffer: "on_list c ds (with_buffer n k b g) = with_buffer n k b (on_list c ds g)"
proof -
  have "on_list c ds (with_buffer n k b g) = fold ApplyInventorySlot (take (min (unat c) (unat MAX_INVENTORY_SLOTS)) ds)
      (with_buffer n k b (g\<lparr>g_inventory := replicate (unat MAX_INVENTORY_SLOTS) noSlot\<rparr>))"
    unfolding on_list_def by (rule arg_cong [where f = "fold ApplyInventorySlot _"]) simp
  then show ?thesis
    by (simp only: slots_buffer on_list_def)
qed

lemma on_buffer:
  "on_user_login i x y maxhp hp level ex (with_buffer n k b g) = with_buffer n k b (on_user_login i x y maxhp hp level ex g)"
  "on_subject_add m i x y name item (with_buffer n k b g) = with_buffer n k b (on_subject_add m i x y name item g)"
  "on_subject_remove i (with_buffer n k b g) = with_buffer n k b (on_subject_remove i g)"
  "on_attack_ack i damage (with_buffer n k b g) = with_buffer n k b (on_attack_ack i damage g)"
  "on_subject_die t i hp16 (with_buffer n k b g) = with_buffer n k b (on_subject_die t i hp16 g)"
  "on_subject_respawn m i x y hp16 name (with_buffer n k b g) = with_buffer n k b (on_subject_respawn m i x y hp16 name g)"
  by (simp_all add: on_user_login_def on_subject_add_def on_subject_remove_def on_attack_ack_def on_subject_die_def
      on_subject_respawn_def Let_def upd_avatar_def upd_player_def SpawnDamageNumber_def split: option.split)

lemma on_subject_move_buffer:
  "on_subject_move t i x y (with_buffer n k b g) = with_buffer n k b (on_subject_move t i x y g)"
  by (auto simp: on_subject_move_def Let_def upd_avatar_def upd_player_def TriggerZoneTransition_def split: option.split)

lemma on_subject_attack_buffer:
  "on_subject_attack v a hp (with_buffer n k b g) = with_buffer n k b (on_subject_attack v a hp g)"
  by (simp add: on_subject_attack_def Let_def upd_avatar_def upd_player_def split: option.split)

lemma on_chat_buffer: "on_chat t i mess (with_buffer n k b g) = with_buffer n k b (on_chat t i mess g)"
  by (simp add: on_chat_def Let_def upd_avatar_def upd_player_def PushHistory_def split: option.split)

lemma handle_buffer: "client_handle t p (with_buffer n k b g) = with_buffer n k b (client_handle t p g)"
  by (cases "(t, p, g)" rule: client_handle.cases)
    (simp_all add: on_list_buffer on_buffer on_subject_move_buffer on_subject_attack_buffer on_chat_buffer
      upd_avatar_def upd_player_buffer push_buffer slot_buffer)

lemma handle_forget: "client_handle t p (forget_buffer g) = forget_buffer (client_handle t p g)"
  unfolding forget_buffer_def by (rule handle_buffer)

lemma handle_keeps_buffer:
  "in_packet_size (client_handle t p g) = in_packet_size g"
  "saved_packet_size (client_handle t p g) = saved_packet_size g" "packet_buffer (client_handle t p g) = packet_buffer g"
proof -
  have e: "client_handle t p g = with_buffer (in_packet_size g) (saved_packet_size g) (packet_buffer g) (client_handle t p g)"
    using handle_buffer [where n = "in_packet_size g" and k = "saved_packet_size g" and b = "packet_buffer g" and g = g]
    by simp
  then show "in_packet_size (client_handle t p g) = in_packet_size g"
    "saved_packet_size (client_handle t p g) = saved_packet_size g" "packet_buffer (client_handle t p g) = packet_buffer g"
    using arg_cong [OF e, of in_packet_size] arg_cong [OF e, of saved_packet_size] arg_cong [OF e, of packet_buffer]
    by simp_all
qed

subsection \<open>Assembling a packet\<close>

lemma first_byte: "unat ((encode p @ ys) ! 0) = length (encode p)"
proof -
  let ?n = "sizeof_packet (packet_type p)"
  have "(encode p @ ys) ! 0 = ucast (of_nat ?n :: uint16)"
    by (simp add: encode_def InitializePacket_def le16_def)
  moreover have "?n < 256"
    using sizeof_server(2) [of p] by simp
  ultimately show ?thesis
    by (simp add: length_encode unsigned_ucast_eq unat_of_nat take_bit_nat_eq_self)
qed

lemma part_first: "strict_prefix part (encode p) \<Longrightarrow> part \<noteq> [] \<Longrightarrow> unat (part ! 0) = length (encode p)"
  using first_byte [of p "[]"] by (auto simp: strict_prefix_def prefix_def nth_append)

lemma put_holds:
  assumes "client_holds g part" "length part + length bs \<le> BUF_SIZE"
  shows "take (length part + length bs) (packet_buffer (buffer_put bs g)) = part @ bs"
    "length (packet_buffer (buffer_put bs g)) = BUF_SIZE"
  using assms by (simp_all add: client_holds_def buffer_put_def)

lemma process_encoded_client:
  "server_ok p \<Longrightarrow> client_ProcessPacket t (encode p @ zs) g = client_handle t (as_read p) g"
  by (simp add: client_ProcessPacket_def decode_encode_server)

lemma process_data_nil: "process_data t [] g = Some g"
  by (subst process_data.simps) simp

lemma data_packet:
  assumes "client_holds g part" "strict_prefix part (encode p)" "part @ d1 = encode p" "server_ok p"
  shows "\<exists>g1. process_data t (d1 @ d2) g = process_data t d2 g1 \<and> client_holds g1 [] \<and>
    forget_buffer g1 = client_handle t (as_read p) (forget_buffer g)"
proof -
  let ?g0 = "read_size (d1 @ d2) g"
  have ne: "d1 \<noteq> []"
    using assms(2,3) by auto
  have len: "length part + length d1 = length (encode p)" "length (encode p) \<le> 214"
    using encode_header(3) [of p] by (simp_all flip: assms(3))
  have "part = [] \<Longrightarrow> unat ((d1 @ d2) ! 0) = length (encode p)"
    using first_byte [of p d2] assms(3) by simp
  moreover have "part \<noteq> [] \<Longrightarrow> in_packet_size g = length (encode p)"
    using assms(1) part_first [OF assms(2)] by (simp add: client_holds_def)
  ultimately have size: "in_packet_size ?g0 = length (encode p)" "saved_packet_size ?g0 = length part"
    "packet_buffer ?g0 = packet_buffer g" "forget_buffer ?g0 = forget_buffer g"
    using assms(1) len ne by (auto simp: read_size_def client_holds_def forget_buffer_def)
  let ?g1 = "buffer_put d1 ?g0" let ?g2 = "client_handle t (as_read p) ?g1"
  have b: "packet_buffer ?g1 = encode p @ drop (length (encode p)) (packet_buffer g)"
    using assms(1,3) size len by (simp add: buffer_put_def client_holds_def flip: append_assoc)
  then have "take_packet t d1 ?g0 = ?g2\<lparr>in_packet_size := 0, saved_packet_size := 0\<rparr>"
    using assms(4) by (simp add: take_packet_def Let_def process_encoded_client)
  then have "process_data t (d1 @ d2) g = process_data t d2 (?g2\<lparr>in_packet_size := 0, saved_packet_size := 0\<rparr>)"
    using ne size(1,2) len(1) by (subst process_data.simps) (simp add: Let_def)
  moreover have "client_holds (?g2\<lparr>in_packet_size := 0, saved_packet_size := 0\<rparr>) []"
    using assms(1) len by (simp add: client_holds_def handle_keeps_buffer b proto_consts)
  moreover have "forget_buffer (?g2\<lparr>in_packet_size := 0, saved_packet_size := 0\<rparr>) = client_handle t (as_read p) (forget_buffer g)"
    using handle_forget [of t "as_read p" ?g1] size(4) by (simp add: forget_buffer_def buffer_put_def)
  ultimately show ?thesis
    by blast
qed

lemma data_part:
  assumes "client_holds g part" "strict_prefix (part @ d) (encode p)" "d \<noteq> []"
  shows "\<exists>g1. process_data t d g = Some g1 \<and> client_holds g1 (part @ d) \<and> forget_buffer g1 = forget_buffer g"
proof -
  let ?g0 = "read_size d g"
  have size: "unat ((part @ d) ! 0) = length (encode p)" "length part + length d < length (encode p)" "length (encode p) \<le> 214"
    using part_first [OF assms(2)] assms(3) prefix_length_less [OF assms(2)] encode_header(3) [of p] by simp_all
  have g0: "in_packet_size ?g0 = length (encode p)" "saved_packet_size ?g0 = length part"
    "packet_buffer ?g0 = packet_buffer g" "forget_buffer ?g0 = forget_buffer g"
    using assms(1,3) size by (auto simp: read_size_def client_holds_def forget_buffer_def nth_append split: if_splits)
  then have "process_data t d g = Some (save_bytes d ?g0)"
    using assms(3) size(2) by (subst process_data.simps) (simp add: Let_def)
  moreover have "client_holds (save_bytes d ?g0) (part @ d)"
    using assms(1,3) g0 size by (auto simp: client_holds_def save_bytes_def buffer_put_def proto_consts)
  moreover have "forget_buffer (save_bytes d ?g0) = forget_buffer g"
    using g0(4) by (simp add: save_bytes_def buffer_put_def forget_buffer_def)
  ultimately show ?thesis
    by blast
qed

lemma delivers_none: "forget_buffer g' = forget_buffer g \<Longrightarrow> client_delivers g [] g'"
  by (simp add: client_delivers_def handled_def)

lemma delivers_one: "forget_buffer g' = client_handle t (as_read p) (forget_buffer g) \<Longrightarrow> client_delivers g [p] g'"
  unfolding client_delivers_def by (rule exI [of _ "[t]"]) (simp add: handled_def)

lemma delivers_more: "client_delivers g ps g' \<Longrightarrow> client_delivers g' qs g'' \<Longrightarrow> client_delivers g (ps @ qs) g''"
  unfolding client_delivers_def
proof (elim exE conjE)
  fix ts us
  assume "length ts = length ps" "forget_buffer g' = handled ts ps (forget_buffer g)"
    "length us = length qs" "forget_buffer g'' = handled us qs (forget_buffer g')"
  then show "\<exists>ts. length ts = length (ps @ qs) \<and> forget_buffer g'' = handled ts (ps @ qs) (forget_buffer g)"
    by (intro exI [of _ "ts @ us"]) (simp add: handled_def)
qed

lemma process_data_law:
  assumes "client_holds g part" "\<forall>p \<in> set ps. server_ok p" "part @ d = concat (map encode ps) @ rest"
    "tail_of encode (ps @ qs) part" "tail_of encode qs rest"
  shows "\<exists>g'. process_data t d g = Some g' \<and> client_holds g' rest \<and> client_delivers g ps g'"
  using assms
proof (induction ps arbitrary: g part d)
  case Nil
  show ?case
  proof (cases "d = []")
    case True
    then show ?thesis
      using Nil by (simp add: process_data_nil delivers_none)
  next
    case False
    then obtain q qs' where "qs = q # qs'" "strict_prefix (part @ d) (encode q)"
      using Nil.prems(3,5) by (auto simp: tail_of_def)
    then show ?thesis
      using data_part [OF Nil.prems(1) _ False] Nil.prems(3) delivers_none by fastforce
  qed
next
  case (Cons p ps)
  have pre: "strict_prefix part (encode p)"
    using Cons.prems(4) by (auto simp: tail_of_def)
  then obtain d1 where d1: "part @ d1 = encode p"
    by (auto simp: strict_prefix_def prefix_def)
  then have d: "d = d1 @ concat (map encode ps) @ rest"
    using Cons.prems(3) by (simp flip: d1)
  obtain g1 where 1: "process_data t d g = process_data t (concat (map encode ps) @ rest) g1" "client_holds g1 []"
    "forget_buffer g1 = client_handle t (as_read p) (forget_buffer g)"
    using data_packet [OF Cons.prems(1) pre d1, of t "concat (map encode ps) @ rest"] Cons.prems(2) d by auto
  have "\<exists>g'. process_data t (concat (map encode ps) @ rest) g1 = Some g' \<and> client_holds g' rest \<and> client_delivers g1 ps g'"
    using Cons.IH [OF 1(2) _ _ ss.tail_of_start Cons.prems(5)] Cons.prems(2) by simp
  then show ?case
    using 1(1) delivers_more [OF delivers_one [OF 1(3)]] by fastforce
qed

definition client_recv :: "nat \<times> uint8 list \<Rightarrow> GameClient \<Rightarrow> GameClient option" where
  "client_recv c g = process_data (fst c) (snd c) g"

interpretation client: packet_receiver encode client_recv snd client_holds client_delivers "\<lambda>_. True" server_ok
proof unfold_locales
  fix g part and d :: "nat \<times> uint8 list" and ps rest qs
  assume "client_holds g part" "\<forall>p \<in> set ps. server_ok p" "part @ snd d = concat (map encode ps) @ rest"
    "tail_of encode (ps @ qs) part" "tail_of encode qs rest"
  from process_data_law [OF this, of "fst d"]
  show "\<exists>g'. client_recv d g = Some g' \<and> client_holds g' rest \<and> client_delivers g ps g'"
    by (simp add: client_recv_def)
qed (auto intro: delivers_none delivers_more)

subsection \<open>A packet of size zero\<close>

lemma process_data_zero:
  assumes "process_data t ptr g = Some g'"
  shows "ptr \<noteq> [] \<longrightarrow> ptr ! 0 = 0 \<longrightarrow> in_packet_size g = 0 \<longrightarrow> saved_packet_size g \<noteq> 0"
proof (rule process_data.raw_induct [where P = "\<lambda>t ptr g r. ptr \<noteq> [] \<longrightarrow> ptr ! 0 = 0 \<longrightarrow> in_packet_size g = 0 \<longrightarrow>
    saved_packet_size g \<noteq> 0", OF _ assms])
  fix pd and t :: nat and ptr and g r :: GameClient
  assume ih: "\<And>t ptr g r. pd t ptr g = Some r \<Longrightarrow> ptr \<noteq> [] \<longrightarrow> ptr ! 0 = 0 \<longrightarrow> in_packet_size g = 0 \<longrightarrow> saved_packet_size g \<noteq> 0"
    and r: "(if ptr = [] then Some g
      else let g' = read_size ptr g
           in if in_packet_size g' \<le> length ptr + saved_packet_size g'
              then let n = in_packet_size g' - saved_packet_size g'
                   in pd t (drop n ptr) (take_packet t (take n ptr) g')
              else Some (save_bytes ptr g')) = Some r"
  show "ptr \<noteq> [] \<longrightarrow> ptr ! 0 = 0 \<longrightarrow> in_packet_size g = 0 \<longrightarrow> saved_packet_size g \<noteq> 0"
  proof (intro impI notI)
    assume z: "ptr \<noteq> []" "ptr ! 0 = 0" "in_packet_size g = 0" "saved_packet_size g = 0"
    then have "read_size ptr g = g"
      by (simp add: read_size_def)
    with r z have "pd t ptr (take_packet t [] g) = Some r"
      by (simp add: Let_def)
    from ih [OF this] show False
      using z(1,2) by (simp add: take_packet_def Let_def)
  qed
qed

end
