(* ===== verification/ClientInput.thy ===== *)
theory ClientInput
  imports Clients
begin

text \<open>
  What drives the game client of \<^verbatim>\<open>Client/client.cpp\<close>: one frame of \<^verbatim>\<open>client_main\<close>, the chat
  commands, and the events of the main loop.  \<open>client_step\<close> is one turn of the main loop; its frame brings
  the pressed arrow keys, the received bytes and which animations have finished a frame.
\<close>

subsection \<open>One frame\<close>

definition move_direction :: "bool \<Rightarrow> bool \<Rightarrow> bool \<Rightarrow> bool \<Rightarrow> int" where
  "move_direction up down left right =
     (if up \<and> left then 4 else if up \<and> right then 5 else if down \<and> left then 6 else if down \<and> right then 7
      else if up then 0 else if down then 1 else if left then 2 else if right then 3 else -1)"

definition move_target :: "int \<Rightarrow> int \<Rightarrow> int \<Rightarrow> int \<times> int" where
  "move_target direction x y =
     (if direction = 0 then (x, y - 1) else if direction = 1 then (x, y + 1) else if direction = 2 then (x - 1, y)
      else if direction = 3 then (x + 1, y) else if direction = 4 then (x - 1, y - 1)
      else if direction = 5 then (x + 1, y - 1) else if direction = 6 then (x - 1, y + 1)
      else if direction = 7 then (x + 1, y + 1) else (x, y))"

definition client_move :: "nat \<Rightarrow> bool \<Rightarrow> bool \<Rightarrow> bool \<Rightarrow> bool \<Rightarrow> GameClient \<Rightarrow> GameClient" where
  "client_move t up down left right g =
     (let moving = (up \<or> down \<or> left \<or> right) in
      if moving \<and> g_zoneTransState g = ZT_NONE \<and> (t - g_moveClock g) div 1000 \<ge> 500
      then let g = g\<lparr>g_moveClock := t\<rparr>;
               direction = move_direction up down left right
           in if direction = -1 then g
              else case move_target direction (o_x (avatar g)) (o_y (avatar g)) of (tx, ty) \<Rightarrow>
                if \<not> IsTileOccupiedByMonster tx ty g
                then let g = (if \<not> IsOneShot (avatar g) then upd_avatar (SetWalking direction) g else g)
                     in send_packet (USER_MOVE_REQ_PACKET direction (of_nat (t div 1000))) g
                else if direction = 2 \<or> direction = 3
                then (if \<not> IsOneShot (avatar g) then upd_avatar (SetFacing (direction = 2)) g else g)
                else g
      else if \<not> moving
      then (if \<not> IsOneShot (avatar g) then upd_avatar SetIdle g else g)
      else g)"

definition update_objects :: "(ObjID \<Rightarrow> bool) \<Rightarrow> GameClient \<Rightarrow> GameClient" where
  "update_objects frame_over g =
     g\<lparr>players := (\<lambda>i. case players g i of
         None \<Rightarrow> None
       | Some ob \<Rightarrow> (let ob = UpdateAnim (frame_over i) ob in if m_death_done ob then None else Some ob))\<rparr>"

definition zone_tick :: "nat \<Rightarrow> GameClient \<Rightarrow> GameClient" where
  "zone_tick t g =
     (let g = (if g_zoneTransState g = FADE_OUT \<and> t - g_zoneTransClock g \<ge> 500000
               then (upd_avatar (\<lambda>ob. o_show (o_move (g_pendingPlayerX g) (g_pendingPlayerY g) ob)) g)
                 \<lparr>players := players g ++ g_pendingObjects g, g_pendingObjects := Map.empty,
                  g_zoneTransState := LOADING, g_zoneTransClock := t\<rparr>
               else g);
          g = (if g_zoneTransState g = LOADING \<and> t - g_zoneTransClock g \<ge> 800000
               then g\<lparr>g_zoneTransState := FADE_IN, g_zoneTransClock := t\<rparr> else g)
      in if g_zoneTransState g = FADE_IN \<and> t - g_zoneTransClock g \<ge> 500000
         then g\<lparr>g_zoneTransState := ZT_NONE\<rparr> else g)"

record Frame =
  f_time :: nat
  f_up :: bool
  f_down :: bool
  f_left :: bool
  f_right :: bool
  f_avatar_over :: bool
  f_over :: "ObjID \<Rightarrow> bool"
  f_received :: "uint8 list"

text \<open>\<^verbatim>\<open>client_main\<close> without its drawing; at most \<^verbatim>\<open>BUF_SIZE\<close> bytes are received in a frame.\<close>

definition client_main :: "Frame \<Rightarrow> GameClient \<Rightarrow> GameClient option" where
  "client_main f g =
     (let t = f_time f;
          g = client_move t (f_up f) (f_down f) (f_left f) (f_right f) g;
          g = upd_avatar (UpdateAnim (f_avatar_over f)) g
      in case process_data t (f_received f) g of
           None \<Rightarrow> None
         | Some g \<Rightarrow> Some (zone_tick t (update_objects (f_over f) g)))"

subsection \<open>Chat commands\<close>

text \<open>The part of \<^verbatim>\<open>sscanf\<close> that the commands use: white space of the format skips white space, a
  character matches itself, \<^verbatim>\<open>%d\<close> skips white space and reads a sign and digits.  The result is the
  list of the numbers read before the first mismatch.\<close>

datatype Directive = Lit char | Space | Num

definition is_space :: "char \<Rightarrow> bool" where
  "is_space c \<longleftrightarrow> c \<in> set (map char_of [32 :: nat, 9, 10, 11, 12, 13])"

definition is_digit :: "char \<Rightarrow> bool" where
  "is_digit c \<longleftrightarrow> 48 \<le> (of_char c :: nat) \<and> of_char c \<le> (57 :: nat)"

definition scan_digits :: "string \<Rightarrow> (int \<times> string) option" where
  "scan_digits s =
     (let ds = takeWhile is_digit s in
      if ds = [] then None else Some (int (string_val ds), dropWhile is_digit s))"

definition scan_int :: "string \<Rightarrow> (int \<times> string) option" where
  "scan_int s =
     (case dropWhile is_space s of
        [] \<Rightarrow> None
      | c # r \<Rightarrow>
          if c = CHR ''-'' then map_option (\<lambda>(n, r). (- n, r)) (scan_digits r)
          else if c = CHR ''+'' then scan_digits r
          else scan_digits (c # r))"

fun sscanf :: "Directive list \<Rightarrow> string \<Rightarrow> int list" where
  "sscanf [] s = []"
| "sscanf (Space # fs) s = sscanf fs (dropWhile is_space s)"
| "sscanf (Lit c # fs) s = (case s of [] \<Rightarrow> [] | d # r \<Rightarrow> if c = d then sscanf fs r else [])"
| "sscanf (Num # fs) s = (case scan_int s of None \<Rightarrow> [] | Some (n, r) \<Rightarrow> n # sscanf fs r)"

definition format :: "string \<Rightarrow> Directive list" where
  "format s = map (\<lambda>c. if is_space c then Space else Lit c) s"

definition teleport_formats :: "Directive list list" where
  "teleport_formats =
     [format ''/teleport x='' @ [Num] @ format '', y='' @ [Num],
      format ''/teleport x='' @ [Num] @ format '' y='' @ [Num],
      format ''/teleport '' @ [Num] @ [Space] @ [Num],
      format ''/tp '' @ [Num] @ [Space] @ [Num]]"

definition parse_teleport :: "string \<Rightarrow> (int \<times> int) option" where
  "parse_teleport input =
     (case find (\<lambda>ns. length ns = 2) (map (\<lambda>f. sscanf f input) teleport_formats) of
        Some ns \<Rightarrow> Some (ns ! 0, ns ! 1) | None \<Rightarrow> None)"

definition ProcessChatCommand :: "string \<Rightarrow> GameClient \<Rightarrow> GameClient" where
  "ProcessChatCommand input g =
     (if input = [] then g
      else let g = PushHistory (''> '' @ input) g in
           case parse_teleport input of
             None \<Rightarrow> PushHistory ''  Unknown command'' g
           | Some (tx, ty) \<Rightarrow>
               let g = PushHistory (''  Teleporting to ('' @ dec tx @ '', '' @ dec ty @ '')'') g
               in send_packet (USER_TELEPORT_REQ_PACKET (short_of tx) (short_of ty)) g)"

subsection \<open>Input events\<close>

datatype Key = Tab | Return | Escape | Up | Down | Left | Right | LControl | KeyA | KeyZ | NumKey nat | OtherKey

datatype Event = Closed | MouseLeft int int | TextEntered nat | KeyPressed Key | OtherEvent

definition enter_char :: "nat \<Rightarrow> nat \<Rightarrow> string \<Rightarrow> string" where
  "enter_char lim ch cur =
     (if ch = 8 then butlast cur
      else if ch \<ge> 32 \<and> ch < 127 \<and> length cur < lim then cur @ [char_of ch] else cur)"

text \<open>The layout constants of the login screen are multiples of one half, so they are compared doubled.\<close>

fun login_event :: "Event \<Rightarrow> GameClient \<Rightarrow> GameClient" where
  "login_event (MouseLeft mx my) g =
     (if mx \<ge> 390 \<and> mx \<le> 650 \<and> 2 * my \<ge> 749 \<and> 2 * my \<le> 817 then g\<lparr>g_loginField := 0\<rparr>
      else if mx \<ge> 390 \<and> mx \<le> 650 \<and> 2 * my \<ge> 873 \<and> 2 * my \<le> 941 then g\<lparr>g_loginField := 1\<rparr>
      else if mx \<ge> 430 \<and> mx \<le> 610 \<and> 2 * my \<ge> 1001 \<and> 2 * my \<le> 1081 then DoLogin g
      else g)"
| "login_event (TextEntered ch) g =
     (if g_loginField g = 0 then g\<lparr>g_loginId := enter_char (NAME_SIZE - 1) ch (g_loginId g)\<rparr>
      else g\<lparr>g_loginPass := enter_char (PASSWORD_SIZE - 1) ch (g_loginPass g)\<rparr>)"
| "login_event (KeyPressed Tab) g = g\<lparr>g_loginField := 1 - g_loginField g\<rparr>"
| "login_event (KeyPressed Return) g = (if g_loginField g = 0 then g\<lparr>g_loginField := 1\<rparr> else DoLogin g)"
| "login_event (KeyPressed Escape) g = g\<lparr>window_open := False\<rparr>"
| "login_event _ g = g"

definition is_command :: "string \<Rightarrow> bool" where
  "is_command s \<longleftrightarrow> take 9 s = ''/teleport'' \<or> take 3 s = ''/tp''"

definition leave_chat :: "GameClient \<Rightarrow> GameClient" where
  "leave_chat g = g\<lparr>g_chatInput := [], g_chatMode := False\<rparr>"

fun chat_event :: "Event \<Rightarrow> GameClient \<Rightarrow> GameClient" where
  "chat_event (TextEntered ch) g = g\<lparr>g_chatInput := enter_char (CHAT_SIZE - 1) ch (g_chatInput g)\<rparr>"
| "chat_event (KeyPressed Return) g =
     (if g_chatInput g = [] then g\<lparr>g_chatMode := False\<rparr>
      else if is_command (g_chatInput g) then leave_chat (ProcessChatCommand (g_chatInput g) g)
      else leave_chat (send_packet (CS_CHAT_PACKET (take (CHAT_SIZE - 1) (g_chatInput g))) g))"
| "chat_event (KeyPressed Escape) g = leave_chat g"
| "chat_event (KeyPressed Up) g = leave_chat g"
| "chat_event (KeyPressed Down) g = leave_chat g"
| "chat_event (KeyPressed Left) g = leave_chat g"
| "chat_event (KeyPressed Right) g = leave_chat g"
| "chat_event _ g = g"

fun game_event :: "nat \<Rightarrow> Event \<Rightarrow> GameClient \<Rightarrow> GameClient" where
  "game_event t (MouseLeft mx my) g =
     (let EBW = 58; EBH = 22; EBX = WINDOW_WIDTH - EBW - 5; EBY = 5;
          g = (if mx \<ge> EBX \<and> mx \<le> EBX + EBW \<and> my \<ge> EBY \<and> my \<le> EBY + EBH then g\<lparr>window_open := False\<rparr> else g);
          clickedSlot = HitTestInventorySlot mx my
      in if clickedSlot \<ge> 0 then ActivateInventorySlot clickedSlot g else g)"
| "game_event t (KeyPressed Return) g = g\<lparr>g_chatMode := True\<rparr>"
| "game_event t (KeyPressed Escape) g = g\<lparr>window_open := False\<rparr>"
| "game_event t (KeyPressed LControl) g =
     (if (t - g_attackClock g) div 1000 \<ge> 500
      then let g = upd_avatar SetAttacking (g\<lparr>g_attackClock := t\<rparr>)
           in send_packet (USER_ATTACK_REQ_PACKET (if m_flip_x (avatar g) then 1 else 0)) g
      else g)"
| "game_event t (KeyPressed KeyA) g =
     (if t - g_skillClock g \<ge> 5000000
      then send_packet USER_SKILL_REQ_PACKET (upd_avatar SetSkillAttacking (g\<lparr>g_skillClock := t\<rparr>))
      else g)"
| "game_event t (KeyPressed KeyZ) g = send_packet ITEM_PICKUP_REQ_PACKET g"
| "game_event t (KeyPressed (NumKey n)) g = ActivateInventorySlot (if n = 0 then 9 else int n - 1) g"
| "game_event t _ g = g"

definition handle_event :: "nat \<Rightarrow> Event \<Rightarrow> GameClient \<Rightarrow> GameClient" where
  "handle_event t e g =
     (let g = (if e = Closed then g\<lparr>window_open := False\<rparr> else g) in
      if g_clientState g = LOGIN then login_event e g
      else if g_chatMode g then chat_event e g
      else game_event t e g)"

definition client_initialize :: "(uint16 \<Rightarrow> bool) \<Rightarrow> (nat \<Rightarrow> nat) \<Rightarrow> GameClient" where
  "client_initialize loaded net =
     \<lparr>g_myid = npos, avatar = (o_move 4 4 (soldier OBJECT0)), players = Map.empty, g_pendingObjects = Map.empty,
      g_inventory = replicate (unat MAX_INVENTORY_SLOTS) noSlot, g_chatInput = [], g_chatHistory = [],
      g_chatMode = False, g_clientState = LOGIN, g_loginId = [], g_loginPass = [], g_loginField = 0,
      g_isDead = False, g_deathTime = 0,
      g_itemIconTex = (\<lambda>i. ITEM_ASSET_TABLE i \<noteq> None \<and> loaded i), g_damageNumbers = [],
      g_moveClock = 0, g_attackClock = 0, g_skillClock = 0, g_zoneTransState = ZT_NONE, g_zoneTransClock = 0,
      g_currentZoneCol = -1, g_currentZoneRow = -1, g_pendingPlayerX = 0, g_pendingPlayerY = 0,
      window_open = True, in_packet_size = 0, saved_packet_size = 0, packet_buffer = replicate BUF_SIZE 0,
      c_sent = [], c_net = net, c_wire = []\<rparr>"

text \<open>The main loop: the waiting events, each with the time of its handling, then a frame, which in the
  game is \<^verbatim>\<open>client_main\<close>.  A closed window has no more events, but the frame of that turn still runs.\<close>

fun poll_events :: "(nat \<times> Event) list \<Rightarrow> GameClient \<Rightarrow> GameClient" where
  "poll_events [] g = g"
| "poll_events ((t, e) # es) g = (if window_open g then poll_events es (handle_event t e g) else g)"

definition client_turn :: "(nat \<times> Event) list \<Rightarrow> Frame \<Rightarrow> GameClient \<Rightarrow> GameClient option" where
  "client_turn es f g =
     (let g = poll_events es g in if g_clientState g = LOGIN then Some g else client_main f g)"

inductive client_step :: "GameClient \<Rightarrow> GameClient \<Rightarrow> bool" where
  turn: "window_open g \<Longrightarrow> client_turn es f g = Some g' \<Longrightarrow> client_step g g'"

inductive client_reachable :: "GameClient \<Rightarrow> bool" where
  start: "client_reachable (client_initialize loaded net)"
| step: "client_reachable g \<Longrightarrow> client_step g g' \<Longrightarrow> client_reachable g'"

inductive_cases client_stepE: "client_step g g'"

end
