(* ===== verification/ClientSafety.thy ===== *)
theory ClientSafety
  imports ClientInput
begin

text \<open>
  What always holds of the game client, whatever bytes arrive and whatever the player does: the
  inventory keeps its length, the history is bounded, the packet being assembled stays inside its
  buffer, and every request that was sent can be read by the server.
\<close>

definition typed_ok :: "GameClient \<Rightarrow> bool" where
  "typed_ok g \<longleftrightarrow> c_string (g_loginId g) \<and> length (g_loginId g) < NAME_SIZE \<and>
     c_string (g_loginPass g) \<and> length (g_loginPass g) < PASSWORD_SIZE \<and>
     c_string (g_chatInput g) \<and> length (g_chatInput g) < CHAT_SIZE \<and> (\<forall>p \<in> set (c_sent g). client_ok p) \<and>
     c_wire g = concat (map (\<lambda>(n, p). take (c_net g n) (sent_bytes p)) (enumerate 0 (c_sent g)))"

definition tables_ok :: "GameClient \<Rightarrow> bool" where
  "tables_ok g \<longleftrightarrow> length (g_inventory g) = unat MAX_INVENTORY_SLOTS \<and> length (g_chatHistory g) \<le> 20"

definition buffer_ok :: "GameClient \<Rightarrow> bool" where
  "buffer_ok g \<longleftrightarrow> length (packet_buffer g) = BUF_SIZE \<and> in_packet_size g < 256 \<and>
     (if in_packet_size g = 0 then saved_packet_size g = 0 else saved_packet_size g < in_packet_size g)"

definition client_inv :: "GameClient \<Rightarrow> bool" where
  "client_inv g \<longleftrightarrow> typed_ok g \<and> tables_ok g \<and> buffer_ok g"

text \<open>What the packets of the server leave alone.\<close>

definition own_view :: "GameClient \<Rightarrow> string \<times> string \<times> string \<times> ClientPacket list \<times> (nat \<Rightarrow> nat) \<times> uint8 list \<times>
    nat \<times> nat \<times> uint8 list" where
  "own_view g = (g_loginId g, g_loginPass g, g_chatInput g, c_sent g, c_net g, c_wire g,
     in_packet_size g, saved_packet_size g, packet_buffer g)"

subsection \<open>Packets\<close>

named_theorems own_view_simps \<open>operations that keep what the player typed, what was sent and the buffer\<close>
named_theorems tables_simps \<open>operations that keep the shape of the tables\<close>

lemma slot_own [own_view_simps]: "own_view (ApplyInventorySlot d g) = own_view g"
  by (simp add: own_view_def ApplyInventorySlot_def)

lemma slot_tables [tables_simps]: "tables_ok g \<Longrightarrow> tables_ok (ApplyInventorySlot d g)"
  by (simp add: tables_ok_def ApplyInventorySlot_def)

lemma history_own [own_view_simps]: "own_view (PushHistory m g) = own_view g"
  by (simp add: own_view_def PushHistory_def Let_def)

lemma history_tables [tables_simps]: "tables_ok g \<Longrightarrow> tables_ok (PushHistory m g)"
  by (auto simp: tables_ok_def PushHistory_def Let_def)

lemma update_own [own_view_simps]:
  "own_view (upd_avatar f g) = own_view g" "own_view (upd_player i f g) = own_view g"
  by (simp_all add: own_view_def upd_avatar_def upd_player_def split: option.split)

lemma update_tables [tables_simps]:
  "tables_ok (upd_avatar f g) = tables_ok g" "tables_ok (upd_player i f g) = tables_ok g"
  by (simp_all add: tables_ok_def upd_avatar_def upd_player_def split: option.split)

lemma list_own [own_view_simps]: "own_view (on_list n ds g) = own_view g"
proof -
  have "own_view (fold ApplyInventorySlot xs g') = own_view g'" for xs g'
    by (induction xs arbitrary: g') (simp_all add: slot_own)
  then show ?thesis
    by (simp add: on_list_def) (simp add: own_view_def)
qed

lemma list_tables [tables_simps]:
  assumes "tables_ok g"
  shows "tables_ok (on_list n ds g)"
proof -
  have "tables_ok g' \<Longrightarrow> tables_ok (fold ApplyInventorySlot xs g')" for xs g'
    by (induction xs arbitrary: g') (simp_all add: slot_tables)
  moreover have "tables_ok (g\<lparr>g_inventory := replicate (unat MAX_INVENTORY_SLOTS) noSlot\<rparr>)"
    using assms by (simp add: tables_ok_def)
  ultimately show ?thesis
    unfolding on_list_def by blast
qed

lemma reaction_own [own_view_simps]:
  "own_view (on_user_login i x y maxhp hp level ex g) = own_view g"
  "own_view (on_subject_add m i x y name item g) = own_view g"
  "own_view (on_subject_remove i g) = own_view g"
  "own_view (on_attack_ack i damage g) = own_view g"
  "own_view (on_subject_die t i hp16 g) = own_view g"
  "own_view (on_subject_respawn m i x y hp16 name g) = own_view g"
  "own_view (on_subject_attack v a h g) = own_view g"
  "own_view (on_chat t i mess g) = own_view g"
  by (simp_all add: on_user_login_def on_subject_add_def on_subject_remove_def on_attack_ack_def on_subject_die_def
      on_subject_respawn_def on_subject_attack_def on_chat_def Let_def own_view_def upd_avatar_def upd_player_def
      SpawnDamageNumber_def PushHistory_def split: option.split)

lemma reaction_tables [tables_simps]:
  "tables_ok (on_user_login i x y maxhp hp level ex g) = tables_ok g"
  "tables_ok (on_subject_add m i x y name item g) = tables_ok g"
  "tables_ok (on_subject_remove i g) = tables_ok g"
  "tables_ok (on_attack_ack i damage g) = tables_ok g"
  "tables_ok (on_subject_die t i hp16 g) = tables_ok g"
  "tables_ok (on_subject_respawn m i x y hp16 name g) = tables_ok g"
  "tables_ok (on_subject_attack v a h g) = tables_ok g"
  by (simp_all add: on_user_login_def on_subject_add_def on_subject_remove_def on_attack_ack_def on_subject_die_def
      on_subject_respawn_def on_subject_attack_def Let_def tables_ok_def upd_avatar_def upd_player_def
      SpawnDamageNumber_def split: option.split)

lemma chat_tables [tables_simps]: "tables_ok g \<Longrightarrow> tables_ok (on_chat t i mess g)"
  by (simp add: on_chat_def Let_def tables_simps split: option.split)

lemma move_own [own_view_simps]: "own_view (on_subject_move t i x y g) = own_view g"
  by (auto simp: on_subject_move_def Let_def own_view_def upd_avatar_def upd_player_def TriggerZoneTransition_def
      split: option.split)

lemma move_tables [tables_simps]: "tables_ok (on_subject_move t i x y g) = tables_ok g"
  by (auto simp: on_subject_move_def Let_def tables_ok_def upd_avatar_def upd_player_def TriggerZoneTransition_def
      split: option.split)

lemma handle_own: "own_view (client_handle t p g) = own_view g"
  by (cases "(t, p, g)" rule: client_handle.cases) (simp_all add: own_view_simps)

lemma handle_tables: "tables_ok g \<Longrightarrow> tables_ok (client_handle t p g)"
  by (cases "(t, p, g)" rule: client_handle.cases) (simp_all add: tables_simps)

lemma typed_own: "own_view g' = own_view g \<Longrightarrow> typed_ok g' = typed_ok g"
  by (simp add: own_view_def typed_ok_def)

lemma buffer_own: "own_view g' = own_view g \<Longrightarrow> buffer_ok g' = buffer_ok g"
  by (simp add: own_view_def buffer_ok_def)

lemma process_inv:
  "own_view (client_ProcessPacket t b g) = own_view g" "tables_ok g \<Longrightarrow> tables_ok (client_ProcessPacket t b g)"
  by (simp_all add: client_ProcessPacket_def handle_own handle_tables split: option.split)

subsection \<open>Receiving\<close>

lemma put_inv:
  assumes "saved_packet_size g + length bs \<le> BUF_SIZE" "length (packet_buffer g) = BUF_SIZE"
  shows "typed_ok (buffer_put bs g) = typed_ok g" "tables_ok (buffer_put bs g) = tables_ok g"
    "length (packet_buffer (buffer_put bs g)) = BUF_SIZE"
  using assms by (simp_all add: buffer_put_def typed_ok_def tables_ok_def)

lemma typed_sizes: "typed_ok (g\<lparr>in_packet_size := n, saved_packet_size := k\<rparr>) = typed_ok g"
  "tables_ok (g\<lparr>in_packet_size := n, saved_packet_size := k\<rparr>) = tables_ok g"
  by (simp_all add: typed_ok_def tables_ok_def)

lemma take_packet_inv:
  assumes "typed_ok g" "tables_ok g" "length (packet_buffer g) = BUF_SIZE" "saved_packet_size g + length bs \<le> BUF_SIZE"
  shows "client_inv (take_packet t bs g)"
proof -
  let ?g1 = "buffer_put bs g" let ?g2 = "client_ProcessPacket t (packet_buffer ?g1) ?g1"
  have "own_view ?g2 = own_view ?g1"
    by (rule process_inv(1))
  moreover from this have "packet_buffer ?g2 = packet_buffer ?g1"
    by (simp add: own_view_def)
  ultimately have "typed_ok ?g2" "tables_ok ?g2" "length (packet_buffer ?g2) = BUF_SIZE"
    using assms put_inv [OF assms(4,3)] typed_own [of ?g2 ?g1] process_inv(2) [of ?g1] by simp_all
  then show ?thesis
    by (simp add: take_packet_def Let_def client_inv_def typed_sizes buffer_ok_def)
qed

lemma save_bytes_inv:
  assumes "typed_ok g" "tables_ok g" "length (packet_buffer g) = BUF_SIZE" "in_packet_size g < 256"
    "saved_packet_size g + length bs < in_packet_size g"
  shows "client_inv (save_bytes bs g)"
proof -
  have fits: "saved_packet_size g + length bs \<le> BUF_SIZE"
    using assms(4,5) by (simp add: BUF_SIZE_def)
  show ?thesis
    using assms put_inv [OF fits assms(3)]
    by (simp add: save_bytes_def client_inv_def buffer_ok_def typed_ok_def tables_ok_def) (simp add: buffer_put_def)
qed

lemma read_size_inv:
  assumes "client_inv g" "ptr \<noteq> []"
  shows "typed_ok (read_size ptr g)" "tables_ok (read_size ptr g)" "length (packet_buffer (read_size ptr g)) = BUF_SIZE"
    "in_packet_size (read_size ptr g) < 256" "saved_packet_size (read_size ptr g) \<le> in_packet_size (read_size ptr g)"
proof -
  have "unat (ptr ! 0) < 256"
    using unsigned_less [of "ptr ! 0", where 'a = nat] by simp
  then show "typed_ok (read_size ptr g)" "tables_ok (read_size ptr g)" "length (packet_buffer (read_size ptr g)) = BUF_SIZE"
    "in_packet_size (read_size ptr g) < 256" "saved_packet_size (read_size ptr g) \<le> in_packet_size (read_size ptr g)"
    using assms by (auto simp: client_inv_def read_size_def typed_ok_def tables_ok_def buffer_ok_def split: if_splits)
qed

lemma process_data_inv:
  assumes "process_data t ptr g = Some g'"
  shows "client_inv g \<longrightarrow> client_inv g'"
proof (rule process_data.raw_induct [where P = "\<lambda>t ptr g r. client_inv g \<longrightarrow> client_inv r", OF _ assms])
  fix pd and t :: nat and ptr and g r :: GameClient
  assume ih: "\<And>t ptr g r. pd t ptr g = Some r \<Longrightarrow> client_inv g \<longrightarrow> client_inv r"
    and r: "(if ptr = [] then Some g
      else let g' = read_size ptr g
           in if in_packet_size g' \<le> length ptr + saved_packet_size g'
              then let n = in_packet_size g' - saved_packet_size g'
                   in pd t (drop n ptr) (take_packet t (take n ptr) g')
              else Some (save_bytes ptr g')) = Some r"
  show "client_inv g \<longrightarrow> client_inv r"
  proof
    assume inv: "client_inv g"
    let ?g = "read_size ptr g" let ?n = "in_packet_size ?g - saved_packet_size ?g"
    consider "ptr = []" | "ptr \<noteq> []" "in_packet_size ?g \<le> length ptr + saved_packet_size ?g" |
      "ptr \<noteq> []" "length ptr + saved_packet_size ?g < in_packet_size ?g"
      by linarith
    then show "client_inv r"
    proof cases
      case 1
      with r inv show ?thesis
        by simp
    next
      case 2
      have "saved_packet_size ?g + length (take ?n ptr) \<le> BUF_SIZE"
        using read_size_inv(4,5) [OF inv 2(1)] min.cobounded2 [of "length ptr" ?n] unfolding length_take BUF_SIZE_def by linarith
      then have "client_inv (take_packet t (take ?n ptr) ?g)"
        by (rule take_packet_inv [OF read_size_inv(1-3) [OF inv 2(1)]])
      moreover have "pd t (drop ?n ptr) (take_packet t (take ?n ptr) ?g) = Some r"
        using r 2 by (simp add: Let_def)
      ultimately show ?thesis
        using ih by blast
    next
      case 3
      then have "r = save_bytes ptr ?g"
        using r by (simp add: Let_def)
      then show ?thesis
        using save_bytes_inv [OF read_size_inv(1-4) [OF inv 3(1)]] 3(2) by (simp add: add.commute)
    qed
  qed
qed

subsection \<open>Frames and events\<close>

lemma client_inv_sent:
  assumes "client_inv g" "client_ok p"
  shows "client_inv (send_packet p g)"
  using assms by (auto simp: client_inv_def send_packet_def typed_ok_def tables_ok_def buffer_ok_def enumerate_append_eq)

text \<open>An update that touches none of what the invariant reads.\<close>

definition same_core :: "GameClient \<Rightarrow> GameClient \<Rightarrow> bool" where
  "same_core g g' \<longleftrightarrow> own_view g' = own_view g \<and> g_inventory g' = g_inventory g \<and> g_chatHistory g' = g_chatHistory g"

lemma client_inv_core: "same_core g g' \<Longrightarrow> client_inv g \<Longrightarrow> client_inv g'"
  using typed_own [of g' g] buffer_own [of g' g] by (simp add: same_core_def client_inv_def tables_ok_def)

lemma avatar_inv [simp]: "client_inv (upd_avatar f g) = client_inv g"
  by (auto simp: upd_avatar_def client_inv_def typed_ok_def tables_ok_def buffer_ok_def)

lemma clocks_inv [simp]:
  "client_inv (g\<lparr>g_moveClock := t\<rparr>) = client_inv g" "client_inv (g\<lparr>g_attackClock := t\<rparr>) = client_inv g"
  "client_inv (g\<lparr>g_skillClock := t\<rparr>) = client_inv g" "client_inv (g\<lparr>window_open := b\<rparr>) = client_inv g"
  "client_inv (g\<lparr>g_loginField := n\<rparr>) = client_inv g" "client_inv (g\<lparr>g_chatMode := b\<rparr>) = client_inv g"
  "client_inv (g\<lparr>g_clientState := st\<rparr>) = client_inv g"
  by (simp_all add: client_inv_def typed_ok_def tables_ok_def buffer_ok_def)

lemma move_inv:
  assumes "client_inv g"
  shows "client_inv (client_move t up down left right g)"
proof -
  have "client_ok (USER_MOVE_REQ_PACKET (move_direction up down left right) n)" for n
    by (simp add: move_direction_def)
  then have sent: "client_inv g' \<Longrightarrow> client_inv (send_packet (USER_MOVE_REQ_PACKET (move_direction up down left right) n) g')"
    for g' n
    using client_inv_sent by blast
  have branch: "(c \<Longrightarrow> client_inv a) \<Longrightarrow> (\<not> c \<Longrightarrow> client_inv b) \<Longrightarrow> client_inv (if c then a else b)" for c a b
    by simp
  show ?thesis
    unfolding client_move_def Let_def case_prod_unfold by (intro sent branch) (simp_all only: avatar_inv clocks_inv assms)
qed

lemma tick_core: "same_core g (zone_tick t g)"
  by (simp add: same_core_def zone_tick_def Let_def own_view_def upd_avatar_def)

lemma objects_core: "same_core g (update_objects f g)"
  by (simp add: same_core_def update_objects_def own_view_def)

lemma main_inv: "client_main f g = Some g' \<Longrightarrow> client_inv g \<Longrightarrow> client_inv g'"
  using client_inv_core [OF tick_core] client_inv_core [OF objects_core] move_inv [of g] process_data_inv
  by (fastforce simp: client_main_def Let_def split: option.splits)

lemma enter_char_ok:
  "c_string s \<Longrightarrow> length s \<le> n \<Longrightarrow> c_string (enter_char n ch s) \<and> length (enter_char n ch s) \<le> n"
  by (auto simp: enter_char_def c_string_def of_char_of dest: in_set_butlastD)

lemma short_of_range: "-32768 \<le> short_of x" "short_of x < 32768"
  by (simp_all add: short_of_def)

lemma activate_inv: "client_inv g \<Longrightarrow> client_inv (ActivateInventorySlot k g)"
  by (simp add: ActivateInventorySlot_def Let_def client_inv_sent)

lemma login_inv: "client_inv g \<Longrightarrow> client_inv (DoLogin g)"
proof -
  assume inv: "client_inv g"
  then have "client_ok (USER_LOGIN_REQ_PACKET (take (NAME_SIZE - 1) (g_loginId g)) [])"
    by (auto simp: client_inv_def typed_ok_def c_string_def proto_consts dest: in_set_takeD)
  with inv show ?thesis
    by (simp add: DoLogin_def Let_def client_inv_sent)
qed

lemma history_inv: "client_inv g \<Longrightarrow> client_inv (PushHistory m g)"
  by (simp add: client_inv_def history_tables typed_own [OF history_own] buffer_own [OF history_own])

lemma command_inv: "client_inv g \<Longrightarrow> client_inv (ProcessChatCommand s g)"
  by (simp add: ProcessChatCommand_def Let_def client_inv_sent history_inv short_of_range split: option.split)

lemma leave_inv: "client_inv g \<Longrightarrow> client_inv (leave_chat g)"
  by (simp add: leave_chat_def client_inv_def typed_ok_def tables_ok_def buffer_ok_def c_string_def proto_consts)

lemma login_event_inv: "client_inv g \<Longrightarrow> client_inv (login_event e g)"
proof (cases "(e, g)" rule: login_event.cases)
  case (2 ch g')
  assume inv: "client_inv g"
  then show ?thesis
    using 2 enter_char_ok [of "g_loginId g" "NAME_SIZE - 1" ch] enter_char_ok [of "g_loginPass g" "PASSWORD_SIZE - 1" ch]
    by (auto simp: client_inv_def typed_ok_def tables_ok_def buffer_ok_def proto_consts)
qed (simp_all add: login_inv)

lemma chat_event_inv: "client_inv g \<Longrightarrow> client_inv (chat_event e g)"
proof (cases "(e, g)" rule: chat_event.cases)
  case (1 ch g')
  assume "client_inv g"
  then show ?thesis
    using 1 enter_char_ok [of "g_chatInput g" "CHAT_SIZE - 1" ch]
    by (auto simp: client_inv_def typed_ok_def tables_ok_def buffer_ok_def proto_consts)
next
  case (2 g')
  assume inv: "client_inv g"
  then have "client_ok (CS_CHAT_PACKET (take (CHAT_SIZE - 1) (g_chatInput g)))"
    by (auto simp: client_inv_def typed_ok_def c_string_def proto_consts dest: in_set_takeD)
  with inv 2 show ?thesis
    by (simp add: leave_inv client_inv_sent command_inv)
qed (simp_all add: leave_inv)

lemma game_event_inv: "client_inv g \<Longrightarrow> client_inv (game_event t e g)"
  by (cases "(t, e, g)" rule: game_event.cases) (simp_all add: Let_def activate_inv client_inv_sent)

lemma event_inv: "client_inv g \<Longrightarrow> client_inv (handle_event t e g)"
  by (simp add: handle_event_def Let_def login_event_inv chat_event_inv game_event_inv)

lemma start_inv: "client_inv (client_initialize loaded net)"
  by (simp add: client_inv_def typed_ok_def tables_ok_def buffer_ok_def client_initialize_def c_string_def proto_consts)

lemma poll_inv: "client_inv g \<Longrightarrow> client_inv (poll_events es g)"
  by (induction es g rule: poll_events.induct) (simp_all add: event_inv)

lemma turn_inv: "client_turn es f g = Some g' \<Longrightarrow> client_inv g \<Longrightarrow> client_inv g'"
  by (auto simp: client_turn_def Let_def poll_inv main_inv split: if_splits)

lemma client_inv_reachable: "client_reachable g \<Longrightarrow> client_inv g"
  by (induction rule: client_reachable.induct) (auto simp: start_inv turn_inv elim!: client_stepE)

end
