(* ===== verification/ClientProps.thy ===== *)
theory ClientProps
  imports ClientFraming ClientSafety Framing
begin

text \<open>Properties of the game client and of its two connections to the server.\<close>

subsection \<open>From the server to the client\<close>

text \<open>C8. From one end of a connection to the other: whatever the server posts, however the sends complete, and
  however the bytes on the wire arrive at the client, the client handles the first packets that were posted, in
  order, each once, and keeps the beginning of the next in its buffer; it has handled all of them once all bytes
  arrived.\<close>

theorem server_to_client_exact:
  assumes "session_ok s" "m_sendQueue s = []" "net_run as (s, []) = Some (s', wire)"
    and "\<forall>p \<in> set (posted as). server_ok p" "client_holds g []" "prefix (concat (map snd cs)) wire"
  shows "\<exists>k ts g' rest. recv_chunks client_recv cs g = Some g' \<and> k \<le> length (posted as) \<and> length ts = k \<and>
    forget_buffer g' = handled ts (take k (posted as)) (forget_buffer g) \<and> client_holds g' rest \<and>
    concat (map snd cs) = concat (map encode (take k (posted as))) @ rest \<and>
    tail_of encode (drop k (posted as)) rest \<and>
    (concat (map snd cs) = concat (map encode (posted as)) \<longrightarrow> k = length (posted as) \<and> rest = [])"
proof -
  have "wire @ unsent (m_sendQueue s') = concat (map encode (posted as))"
    using net_run_ok [OF assms(1), of as "[]"] assms(2,3) by (auto simp: unsent_def)
  then have "prefix ([] @ concat (map snd cs)) (concat (map encode (posted as)))"
    using assms(6) by (metis append_Nil prefix_order.trans prefixI)
  then obtain k g' rest where r: "k \<le> length (posted as)" "recv_chunks client_recv cs g = Some g'" "client_holds g' rest"
    "client_delivers g (take k (posted as)) g'" "concat (map snd cs) = concat (map encode (take k (posted as))) @ rest"
    "tail_of encode (drop k (posted as)) rest"
    using client.recv_chunks_prefix [OF assms(5) _ _ ss.tail_of_start assms(4), of cs] by auto
  then obtain ts where ts: "length ts = k" "forget_buffer g' = handled ts (take k (posted as)) (forget_buffer g)"
    by (auto simp: client_delivers_def)
  have "concat (map snd cs) = concat (map encode (posted as)) \<longrightarrow> k = length (posted as) \<and> rest = []"
    using ss.stream_complete [OF r(1,6)] r(5) by metis
  with r ts show ?thesis
    by blast
qed

lemma initial_holds: "client_holds (client_initialize loaded net) []"
  by (simp add: client_holds_def client_initialize_def)

lemma fresh_session: "session_ok (snd (AttachSocket True ResetNetworkState))"
  "m_sendQueue (snd (AttachSocket True ResetNetworkState)) = []"
  by (simp_all add: session_ok_def AttachSocket_def CloseSocketImpl_def ResetNetworkState_def Let_def)

theorem server_to_client_exact_witness:
  "\<exists>s' wire g'. net_run [Post (USER_HEAL_INF_PACKET 90) True, Complete 3 True] (snd (AttachSocket True ResetNetworkState), []) =
      Some (s', wire) \<and> recv_chunks client_recv [(5, take 2 wire)] (client_initialize (\<lambda>_. True) (\<lambda>_. 256)) = Some g'"
proof -
  let ?as = "[Post (USER_HEAL_INF_PACKET 90) True, Complete 3 True]"
  obtain s' wire where r: "net_run ?as (snd (AttachSocket True ResetNetworkState), []) = Some (s', wire)"
    using net_run_ok [OF fresh_session(1), of ?as "[]"] by blast
  have "\<forall>p \<in> set (posted ?as). server_ok p" "prefix (concat (map snd [(5 :: nat, take 2 wire)])) wire"
    by (simp_all add: take_is_prefix)
  from server_to_client_exact [OF fresh_session r this(1) initial_holds this(2)] r show ?thesis
    by blast
qed

text \<open>Whole packets in front of other bytes are handled and forgotten.\<close>

lemma skip_packets:
  assumes "client_holds g []" "\<forall>p \<in> set ps. server_ok p"
  shows "\<exists>g1. process_data t (concat (map encode ps) @ ds) g = process_data t ds g1 \<and> client_holds g1 []"
  using assms
proof (induction ps arbitrary: g)
  case (Cons p ps)
  have ne: "strict_prefix [] (encode p)"
    using encode_header(2) [of p] by (cases "encode p") auto
  obtain g1 where "process_data t (encode p @ concat (map encode ps) @ ds) g = process_data t (concat (map encode ps) @ ds) g1"
    "client_holds g1 []"
    using data_packet [OF Cons.prems(1) ne _, of "encode p" t "concat (map encode ps) @ ds"] Cons.prems(2) by auto
  then show ?case
    using Cons.IH [of g1] Cons.prems(2) by auto
qed auto

text \<open>C35. A packet whose size byte is zero stops the client for good: after any packets, the receive loop makes no
  progress on it and never returns.\<close>

theorem client_zero_size_diverges:
  assumes "client_holds g []" "\<forall>p \<in> set ps. server_ok p"
  shows "process_data t (concat (map encode ps) @ 0 # ds) g = None"
proof -
  obtain g1 where g1: "process_data t (concat (map encode ps) @ 0 # ds) g = process_data t (0 # ds) g1" "client_holds g1 []"
    using skip_packets [OF assms] by blast
  have "process_data t (0 # ds) g1 \<noteq> Some g2" for g2
    using process_data_zero [of t "0 # ds" g1 g2] g1(2) by (auto simp: client_holds_def)
  with g1(1) show ?thesis
    by (cases "process_data t (0 # ds) g1") auto
qed

theorem client_zero_size_diverges_witness:
  "process_data 0 (encode (USER_HEAL_INF_PACKET 90) @ [0, 1, 30]) (client_initialize (\<lambda>_. True) (\<lambda>_. 256)) = None"
  using client_zero_size_diverges [OF initial_holds, of "[USER_HEAL_INF_PACKET 90]" 0 "[1, 30]"] by simp

subsection \<open>From the client to the server\<close>

lemma sent_whole: "sent_bytes = encode_client"
proof
  fix p
  have "encode_client p ! 0 = ucast (of_nat (sizeof_packet (client_type p)) :: uint16)"
    by (simp add: encode_client_def InitializePacket_def le16_def)
  then have "unat (encode_client p ! 0) = length (encode_client p)"
    using sizeof_client(2) [of p] by (simp add: length_encode_client unsigned_ucast_eq unat_of_nat take_bit_nat_eq_self)
  then show "sent_bytes p = encode_client p"
    by (simp add: sent_bytes_def)
qed

text \<open>While the operating system takes the packets whole, the wire starts with all their bytes.\<close>

lemma wire_whole:
  assumes "m \<le> length ps" "\<forall>i<m. length (sent_bytes (ps ! i)) \<le> net i"
  shows "prefix (concat (map sent_bytes (take m ps)))
    (concat (map (\<lambda>(n, p). take (net n) (sent_bytes p)) (enumerate 0 ps)))"
proof -
  let ?f = "\<lambda>(n, p). take (net n) (sent_bytes p)"
  have "enumerate 0 ps = enumerate 0 (take m ps) @ enumerate m (drop m ps)"
    using enumerate_append_eq [of 0 "take m ps" "drop m ps"] assms(1) by (simp add: min_absorb2)
  moreover have "map ?f (enumerate 0 (take m ps)) = map sent_bytes (take m ps)"
    by (rule nth_equalityI) (use assms in \<open>auto simp: nth_enumerate_eq\<close>)
  ultimately show ?thesis
    by simp
qed

text \<open>C9. Whatever the player types and clicks, whatever the server sends and however many bytes of each request the
  operating system takes, the requests before the first short send arrive: as long as the first \<open>m\<close> sends were
  taken whole, the framing loop of the server accepts the bytes on the wire up to there in any pieces and enqueues,
  for the requests that are complete, buffers that decode to exactly these requests in order, and all \<open>m\<close> of them once
  their bytes are there.  Nothing is promised after a short send: \<open>send_packet\<close> drops the rest of that packet.\<close>

theorem client_to_server_exact:
  assumes "client_reachable g" "zm_ok zm" "\<forall>c \<in> set calls. pool_ok (snd c)"
    and "m \<le> length (c_sent g)" "\<forall>i<m. length (sent_bytes (c_sent g ! i)) \<le> c_net g i"
    and "prefix (concat (map fst calls)) (c_wire g)"
    and "length (concat (map fst calls)) \<le> length (concat (map sent_bytes (take m (c_sent g))))"
  shows "\<exists>k kept zm' jobs. k \<le> m \<and> recv_run z owner sid calls ([], zm) = Some (kept, zm') \<and>
    map decode jobs = map Some (take k (c_sent g)) \<and>
    zone_pending zm' z = zone_pending zm z @ map (TPacket sid) jobs \<and>
    (length (concat (map fst calls)) = length (concat (map sent_bytes (take m (c_sent g)))) \<longrightarrow> k = m \<and> kept = [])"
proof -
  let ?ps = "take m (c_sent g)" and ?bytes = "concat (map fst calls)"
  have inv: "typed_ok g"
    using client_inv_reachable [OF assms(1)] by (simp add: client_inv_def)
  then have ok: "\<forall>p \<in> set ?ps. client_ok p"
    by (auto simp: typed_ok_def dest: in_set_takeD)
  have "prefix (concat (map sent_bytes ?ps)) (c_wire g)"
    using inv wire_whole [OF assms(4,5)] by (simp add: typed_ok_def)
  then have pre: "prefix ?bytes (concat (map encode_client ?ps))"
    using assms(6,7) prefix_length_prefix by (fastforce simp: sent_whole)
  then obtain k kept zm' jobs where r: "k \<le> length ?ps" "recv_run z owner sid calls ([], zm) = Some (kept, zm')"
    "?bytes = concat (map encode_client (take k ?ps)) @ kept"
    "tail_of encode_client (drop k ?ps) kept" "map decode jobs = map Some (take k ?ps)"
    "zone_pending zm' z = zone_pending zm z @ map (TPacket sid) jobs"
    using recv_run_stream [OF ok assms(2,3) _ cs.tail_of_start, of z owner sid] by auto
  have "k = m \<and> kept = []" if "length ?bytes = length (concat (map sent_bytes ?ps))"
  proof -
    have "?bytes = concat (map encode_client ?ps)"
      using pre that by (auto simp: prefix_def sent_whole)
    then show ?thesis
      using cs.stream_complete [OF r(1,4)] r(3) assms(4) by simp
  qed
  moreover have "take k ?ps = take k (c_sent g)" "k \<le> m"
    using r(1) assms(4) by simp_all
  ultimately show ?thesis
    using r(2,5,6) by metis
qed

definition quiet_frame :: Frame where
  "quiet_frame = \<lparr>f_time = 0, f_up = False, f_down = False, f_left = False, f_right = False,
     f_avatar_over = False, f_over = (\<lambda>_. False), f_received = []\<rparr>"

text \<open>A client that typed a name and logged in on a connection that takes every packet whole.\<close>

lemma client_logged_in:
  "\<exists>g. client_reachable g \<and> c_sent g = [USER_LOGIN_REQ_PACKET ''A'' []] \<and> c_net g = (\<lambda>_. 256) \<and>
     c_wire g = sent_bytes (USER_LOGIN_REQ_PACKET ''A'' [])"
proof -
  let ?g0 = "client_initialize (\<lambda>_. True) (\<lambda>_. 256)"
  let ?es = "[(0, TextEntered 65), (0, KeyPressed Tab), (0, KeyPressed Return)]"
  let ?g1 = "poll_events ?es ?g0"
  have len: "length (sent_bytes p) \<le> 256" for p
    using sizeof_client(2) [of p] by (simp add: sent_whole length_encode_client)
  have g1: "g_clientState ?g1 = INGAME" "c_sent ?g1 = [USER_LOGIN_REQ_PACKET ''A'' []]" "c_net ?g1 = (\<lambda>_. 256)"
    "c_wire ?g1 = sent_bytes (USER_LOGIN_REQ_PACKET ''A'' [])"
    using len by (simp_all add: handle_event_def client_initialize_def enter_char_def DoLogin_def send_packet_def
        upd_avatar_def proto_consts Let_def char_of_def bit_0)
  have "\<exists>g. client_turn ?es quiet_frame ?g0 = Some g \<and> own_view g = own_view ?g1"
    using g1(1) by (auto simp: client_turn_def client_main_def Let_def quiet_frame_def client_move_def
        process_data_nil own_view_def zone_tick_def update_objects_def upd_avatar_def)
  then obtain g where g: "client_turn ?es quiet_frame ?g0 = Some g" "own_view g = own_view ?g1"
    by blast
  have "client_reachable g"
    using client_reachable.step [OF client_reachable.start client_step.turn [OF _ g(1)]]
    by (simp add: client_initialize_def)
  then show ?thesis
    using g(2) g1 by (auto simp: own_view_def)
qed

theorem client_to_server_exact_witness:
  "\<exists>kept zm' jobs. recv_run 0 None 7 [(encode_client (USER_LOGIN_REQ_PACKET ''A'' []), [])] ([], newZoneManager) = Some (kept, zm') \<and>
     map decode jobs = [Some (USER_LOGIN_REQ_PACKET ''A'' [])] \<and> kept = []"
proof -
  obtain g where g: "client_reachable g" "c_sent g = [USER_LOGIN_REQ_PACKET ''A'' []]" "c_net g = (\<lambda>_. 256)"
    "c_wire g = sent_bytes (USER_LOGIN_REQ_PACKET ''A'' [])"
    using client_logged_in by blast
  have "length (encode_client (USER_LOGIN_REQ_PACKET ''A'' [])) \<le> 256"
    using sizeof_client(2) [of "USER_LOGIN_REQ_PACKET ''A'' []"] by (simp add: length_encode_client)
  then show ?thesis
    using client_to_server_exact [OF g(1) zm_ok_new, of "[(encode_client (USER_LOGIN_REQ_PACKET ''A'' []), [])]" 1 0 None 7]
    unfolding g by (auto simp: sent_whole pool_ok_def simp del: recv_run.simps)
qed

subsection \<open>State\<close>

text \<open>C17. Whatever bytes arrive and whatever the player does, the inventory keeps its thirty slots, the history at most
  twenty lines, the packet being assembled stays inside its buffer, and the name, the password and the chat line that
  were typed are shorter than the fields of the packets.\<close>

theorem client_state_bounded:
  assumes "client_reachable g"
  shows "length (g_inventory g) = 30 \<and> length (g_chatHistory g) \<le> 20 \<and> length (packet_buffer g) = BUF_SIZE \<and>
    saved_packet_size g < 256 \<and> 256 \<le> BUF_SIZE \<and> length (g_loginId g) < NAME_SIZE \<and> length (g_loginPass g) < PASSWORD_SIZE \<and>
    length (g_chatInput g) < CHAT_SIZE"
  using client_inv_reachable [OF assms]
  by (simp add: client_inv_def typed_ok_def tables_ok_def buffer_ok_def proto_consts MAX_INVENTORY_SLOTS_def split: if_splits)

theorem client_state_bounded_witness:
  "length (g_inventory (client_initialize (\<lambda>_. True) (\<lambda>_. 256))) = 30 \<and> saved_packet_size (client_initialize (\<lambda>_. True) (\<lambda>_. 256)) < 256"
  using client_state_bounded [OF client_reachable.start] by blast

text \<open>C34. A subject that is announced and taken away again while the screen fades out comes back as a ghost: the
  announcement is kept with the pending objects, the removal does not look there, and the end of the fade enters the
  object into the table, although its removal was handled.  Outside the fade the removal takes effect.\<close>

theorem client_ghost_after_fade:
  assumes "i \<noteq> g_myid g" "added_object (g_itemIconTex g) m i x y name item = Some ob"
    and "t \<ge> g_zoneTransClock g + 500000"
  shows "players (zone_tick t (client_handle t2 (SUBJECT_REMOVE_NFY_PACKET i)
      (client_handle t1 (SUBJECT_ADD_NFY_PACKET m i x y name item) g))) i =
    (if g_zoneTransState g = FADE_OUT then Some ob else None)"
  using assms
  by (auto simp: on_subject_add_def on_subject_remove_def zone_tick_def Let_def upd_avatar_def)

theorem client_ghost_after_fade_witness:
  "players (zone_tick 900000 (client_handle 0 (SUBJECT_REMOVE_NFY_PACKET (mkObjID eMonster 5))
      (client_handle 0 (SUBJECT_ADD_NFY_PACKET 1 (mkObjID eMonster 5) 10 10 ''x'' 0)
        (TriggerZoneTransition 0 600 10 (client_initialize (\<lambda>_. True) (\<lambda>_. 256)))))) (mkObjID eMonster 5) \<noteq> None"
proof -
  let ?g = "TriggerZoneTransition 0 600 10 (client_initialize (\<lambda>_. True) (\<lambda>_. 256))"
  have s: "g_zoneTransState ?g = FADE_OUT" "g_zoneTransClock ?g = 0" "mkObjID eMonster 5 \<noteq> g_myid ?g" "g_itemIconTex ?g 0 = False"
    by (simp_all add: TriggerZoneTransition_def client_initialize_def ITEM_ASSET_TABLE_def)
  obtain ob where ob: "added_object (g_itemIconTex ?g) 1 (mkObjID eMonster 5) 10 10 ''x'' 0 = Some ob"
    by (auto simp: added_object_def Let_def)
  show ?thesis
    using client_ghost_after_fade [OF s(3) ob, of 900000 0 0] s(1,2) by simp
qed

subsection \<open>Commands\<close>

lemma digits_first: "digits n \<noteq> []" "\<forall>c \<in> set (digits n). is_digit c"
proof (induction n rule: digits.induct)
  case (1 n)
  { case 1 show ?case
      by (subst digits.simps) simp }
  { case 2 show ?case
      using 1(2) by (subst digits.simps) (auto simp: is_digit_def digit_char less_Suc_eq_le [symmetric]) }
qed

lemma scan_digits_print:
  assumes "r = [] \<or> \<not> is_digit (hd r)"
  shows "scan_digits (digits n @ r) = Some (int n, r)"
proof -
  have "takeWhile is_digit r = []" "dropWhile is_digit r = r"
    using assms by (cases r; simp)+
  then show ?thesis
    using digits_first [of n] by (simp add: scan_digits_def Let_def string_val_digits)
qed

lemma digit_plain: "is_digit c \<Longrightarrow> \<not> is_space c \<and> c \<noteq> CHR ''-'' \<and> c \<noteq> CHR ''+''"
  by (auto simp: is_digit_def is_space_def of_char_of)

lemma scan_int_print:
  assumes "r = [] \<or> \<not> is_digit (hd r)"
  shows "scan_int (dec x @ r) = Some (x, r)"
proof (cases "x < 0")
  case True
  then show ?thesis
    using scan_digits_print [OF assms, of "nat (- x)"] by (simp add: scan_int_def dec_def is_space_def char_of_def)
next
  case False
  obtain c cs where c: "digits (nat x) = c # cs" "is_digit c"
    using digits_first [of "nat x"] by (cases "digits (nat x)") auto
  then show ?thesis
    using False scan_digits_print [OF assms, of "nat x"] digit_plain [OF c(2)] by (simp add: scan_int_def dec_def)
qed

text \<open>The four ways to write the command.\<close>

definition teleport_commands :: "int \<Rightarrow> int \<Rightarrow> string list" where
  "teleport_commands x y =
     [''/teleport x='' @ dec x @ '', y='' @ dec y, ''/teleport x='' @ dec x @ '' y='' @ dec y,
      ''/teleport '' @ dec x @ '' '' @ dec y, ''/tp '' @ dec x @ '' '' @ dec y]"

lemma dec_head: "\<exists>c cs. dec x = c # cs \<and> (c = CHR ''-'' \<or> is_digit c)"
  using digits_first [of "nat x"] by (cases "digits (nat x)") (auto simp: dec_def)

lemma scan_skip: "dropWhile is_space (dec x @ r) = dec x @ r"
proof -
  have "\<not> is_space (CHR ''-'')"
    by (simp add: is_space_def char_of_def bit_0)
  then show ?thesis
    using dec_head [of x] digit_plain by auto
qed

lemma scan_mismatch: "\<not> is_digit c \<Longrightarrow> c \<noteq> CHR ''-'' \<Longrightarrow> sscanf (Lit c # fs) (dec x @ r) = []"
  using dec_head [of x] by auto

lemma class_consts:
  "is_space (CHR '' '')" "\<not> is_space (CHR ''/'')" "\<not> is_space (CHR ''t'')" "\<not> is_space (CHR ''e'')" "\<not> is_space (CHR ''l'')"
  "\<not> is_space (CHR ''p'')" "\<not> is_space (CHR ''o'')" "\<not> is_space (CHR ''r'')" "\<not> is_space (CHR ''x'')" "\<not> is_space (CHR ''y'')"
  "\<not> is_space (CHR ''='')" "\<not> is_space (CHR '','')" "\<not> is_digit (CHR '' '')" "\<not> is_digit (CHR '','')" "\<not> is_digit (CHR ''x'')"
  by (simp_all add: is_space_def is_digit_def char_of_def bit_0)

lemma formats:
  "teleport_formats =
     [map Lit ''/teleport'' @ Space # map Lit ''x='' @ Num # Lit (CHR '','') # Space # map Lit ''y='' @ [Num],
      map Lit ''/teleport'' @ Space # map Lit ''x='' @ Num # Space # map Lit ''y='' @ [Num],
      map Lit ''/teleport'' @ Space # [Num, Space, Num], map Lit ''/tp'' @ Space # [Num, Space, Num]]"
  by (simp add: teleport_formats_def format_def class_consts)

lemma scan_word: "sscanf (map Lit w @ fs) (w @ s) = sscanf fs s"
  by (induction w) simp_all

lemma scan_other: "sscanf (map Lit ''/teleport'' @ fs) (''/tp'' @ s) = []"
  by simp

lemma scan_blank: "sscanf (Space # fs) (CHR '' '' # s) = sscanf fs (dropWhile is_space s)"
  by (simp add: class_consts)

lemma scan_number: "r = [] \<or> \<not> is_digit (hd r) \<Longrightarrow> sscanf (Num # fs) (dec x @ r) = x # sscanf fs r"
  "sscanf [Num] (dec x) = [x]"
  using scan_int_print [of "[]" x] by (simp_all add: scan_int_print)

lemma plain_head: "dropWhile is_space (''x='' @ s) = ''x='' @ s" "dropWhile is_space (''y='' @ s) = ''y='' @ s"
  by (simp_all add: class_consts)

lemma scan_x:
  assumes "r = [] \<or> \<not> is_digit (hd r)"
  shows "sscanf (map Lit ''/teleport'' @ Space # map Lit ''x='' @ Num # fs) (''/teleport x='' @ dec x @ r) = x # sscanf fs r"
proof -
  have "''/teleport x='' @ dec x @ r = ''/teleport'' @ CHR '' '' # ''x='' @ dec x @ r"
    by simp
  then show ?thesis
    by (simp only: scan_word scan_blank plain_head scan_number(1) [OF assms])
qed

lemma scan_y: "sscanf (Space # map Lit ''y='' @ [Num]) ('' y='' @ dec y) = [y]"
proof -
  have "'' y='' @ dec y = CHR '' '' # ''y='' @ dec y"
    by simp
  then show ?thesis
    by (simp only: scan_word scan_blank plain_head scan_number(2))
qed

lemma scan_pair:
  "sscanf (map Lit w @ Space # [Num, Space, Num]) (w @ CHR '' '' # dec x @ CHR '' '' # dec y) = [x, y]"
proof -
  have "sscanf [Num, Space, Num] (dec x @ CHR '' '' # dec y) = x # sscanf [Space, Num] (CHR '' '' # dec y)"
    by (rule scan_number(1)) (simp add: class_consts)
  then show ?thesis
    using scan_skip [of y "[]"] by (simp only: scan_word scan_blank scan_skip scan_number(2) append_Nil2)
qed

lemma parse_first:
  assumes "k < 4" "\<forall>j < k. length (sscanf (teleport_formats ! j) s) \<noteq> 2" "sscanf (teleport_formats ! k) s = [x, y]"
  shows "parse_teleport s = Some (x, y)"
proof -
  have "length teleport_formats = 4"
    by (simp add: teleport_formats_def)
  then have "find (\<lambda>ns. length ns = 2) (map (\<lambda>f. sscanf f s) teleport_formats) = Some [x, y]"
    unfolding find_Some_iff using assms by (intro exI [of _ k]) auto
  then show ?thesis
    by (simp add: parse_teleport_def)
qed

lemma parse_commas: "parse_teleport (''/teleport x='' @ dec x @ '', y='' @ dec y) = Some (x, y)"
proof (rule parse_first [of 0])
  have "sscanf (Lit (CHR '','') # Space # map Lit ''y='' @ [Num]) ('', y='' @ dec y) = [y]"
    using scan_y by simp
  then show "sscanf (teleport_formats ! 0) (''/teleport x='' @ dec x @ '', y='' @ dec y) = [x, y]"
    unfolding formats using scan_x [of "'', y='' @ dec y"] by (simp add: class_consts)
qed simp_all

lemma parse_names: "parse_teleport (''/teleport x='' @ dec x @ '' y='' @ dec y) = Some (x, y)"
proof (rule parse_first [of 1])
  let ?s = "''/teleport x='' @ dec x @ '' y='' @ dec y"
  show "sscanf (teleport_formats ! 1) ?s = [x, y]"
    unfolding formats using scan_x [of "'' y='' @ dec y"] scan_y by (simp add: class_consts)
  have "sscanf (teleport_formats ! 0) ?s = [x]"
    unfolding formats using scan_x [of "'' y='' @ dec y"] by (simp add: class_consts)
  then show "\<forall>j < 1. length (sscanf (teleport_formats ! j) ?s) \<noteq> 2"
    by simp
qed simp

lemma parse_numbers: "parse_teleport (''/teleport '' @ dec x @ '' '' @ dec y) = Some (x, y)"
proof (rule parse_first [of 2])
  let ?s = "''/teleport '' @ dec x @ '' '' @ dec y" and ?t = "''/teleport'' @ CHR '' '' # dec x @ '' '' @ dec y"
  have s: "?s = ?t"
    by simp
  show "sscanf (teleport_formats ! 2) ?s = [x, y]"
    unfolding s formats using scan_pair [of "''/teleport''"] by simp
  have "sscanf (map Lit ''/teleport'' @ Space # map Lit ''x='' @ fs) ?t = []" for fs
    using scan_mismatch [of "CHR ''x''"] by (simp only: scan_word scan_blank scan_skip) (simp add: class_consts)
  then have "sscanf (teleport_formats ! 0) ?s = []" "sscanf (teleport_formats ! 1) ?s = []"
    unfolding s formats by simp_all
  then show "\<forall>j < 2. length (sscanf (teleport_formats ! j) ?s) \<noteq> 2"
    by (simp add: numeral_2_eq_2 less_Suc_eq)
qed simp

lemma parse_short: "parse_teleport (''/tp '' @ dec x @ '' '' @ dec y) = Some (x, y)"
proof (rule parse_first [of 3])
  let ?s = "''/tp '' @ dec x @ '' '' @ dec y"
  show "sscanf (teleport_formats ! 3) ?s = [x, y]"
    unfolding formats using scan_pair [of "''/tp''"] by simp
  show "\<forall>j < 3. length (sscanf (teleport_formats ! j) ?s) \<noteq> 2"
    by (simp add: formats numeral_3_eq_3 less_Suc_eq)
qed simp

lemma parse_commands: "cmd \<in> set (teleport_commands x y) \<Longrightarrow> parse_teleport cmd = Some (x, y)"
  using parse_commas parse_names parse_numbers parse_short by (fastforce simp: teleport_commands_def)

definition type_in :: "nat \<Rightarrow> string \<Rightarrow> GameClient \<Rightarrow> GameClient" where
  "type_in t s = fold (\<lambda>c. handle_event t (TextEntered (of_char c))) s"

definition printable :: "string \<Rightarrow> bool" where
  "printable s \<longleftrightarrow> (\<forall>c \<in> set s. (32 :: nat) \<le> of_char c \<and> of_char c < (127 :: nat))"

lemma type_in_chat:
  assumes "g_clientState g = INGAME" "g_chatMode g" "printable s" "length (g_chatInput g) + length s < CHAT_SIZE"
  shows "type_in t s g = g\<lparr>g_chatInput := g_chatInput g @ s\<rparr>"
  using assms
proof (induction s arbitrary: g)
  case (Cons c s)
  let ?g = "g\<lparr>g_chatInput := g_chatInput g @ [c]\<rparr>"
  have "handle_event t (TextEntered (of_char c)) g = ?g"
    using Cons.prems by (simp add: handle_event_def printable_def enter_char_def)
  moreover have "type_in t s ?g = ?g\<lparr>g_chatInput := g_chatInput ?g @ s\<rparr>"
    using Cons.prems by (intro Cons.IH) (simp_all add: printable_def)
  ultimately show ?case
    by (simp add: type_in_def)
qed (simp add: type_in_def)

lemma digit_printable: "is_digit c \<Longrightarrow> (32 :: nat) \<le> of_char c \<and> of_char c < (127 :: nat)"
  by (simp add: is_digit_def)

lemma dec_typed:
  assumes "-32768 \<le> x" "x < 32768"
  shows "printable (dec x)" "length (dec x) \<le> 6"
proof -
  have "length (digits (nat \<bar>x\<bar>)) \<le> 5"
    using assms by (intro digits_length) auto
  then show "length (dec x) \<le> 6"
    by (simp add: dec_def abs_if split: if_splits)
  show "printable (dec x)"
    using digits_first(2) digit_printable by (auto simp: printable_def dec_def)
qed

lemma command_typed:
  assumes "cmd \<in> set (teleport_commands x y)" "-32768 \<le> x" "x < 32768" "-32768 \<le> y" "y < 32768"
  shows "printable cmd" "length cmd < CHAT_SIZE" "is_command cmd" "cmd \<noteq> []"
  using assms dec_typed [of x] dec_typed [of y]
  by (auto simp: teleport_commands_def printable_def proto_consts is_command_def)

text \<open>C33. The teleport command of the chat line is read back as it is written: for every position of the world's
  coordinate type and each of the four spellings, typing the command and pressing return sends the request with
  exactly this position, once, and leaves the chat line.\<close>

theorem teleport_command_roundtrip:
  assumes "g_clientState g = INGAME" "g_chatMode g" "g_chatInput g = []" "cmd \<in> set (teleport_commands x y)"
    and "-32768 \<le> x" "x < 32768" "-32768 \<le> y" "y < 32768"
  shows "c_sent (handle_event t (KeyPressed Return) (type_in t cmd g)) = c_sent g @ [USER_TELEPORT_REQ_PACKET x y] \<and>
    \<not> g_chatMode (handle_event t (KeyPressed Return) (type_in t cmd g))"
proof -
  have "short_of x = x" "short_of y = y"
    using assms(5-8) by (simp_all add: short_of_def)
  then show ?thesis
    using assms(1-3) command_typed [OF assms(4-8)] parse_commands [OF assms(4)]
    by (simp add: type_in_chat handle_event_def leave_chat_def ProcessChatCommand_def Let_def send_packet_def PushHistory_def)
qed

theorem teleport_command_roundtrip_witness:
  "\<exists>g. c_sent (handle_event 0 (KeyPressed Return) (type_in 0 ''/tp -12 345'' g)) = [USER_TELEPORT_REQ_PACKET (- 12) 345]"
proof -
  let ?g = "(client_initialize (\<lambda>_. True) (\<lambda>_. 256))\<lparr>g_clientState := INGAME, g_chatMode := True\<rparr>"
  have "''/tp -12 345'' \<in> set (teleport_commands (- 12) 345)"
    by (simp add: teleport_commands_def dec_def digits.simps char_of_def bit_0)
  from teleport_command_roundtrip [OF _ _ _ this, of ?g 0] show ?thesis
    by (intro exI [of _ ?g]) (simp add: client_initialize_def)
qed

end
