(* ===== verification/Mirrors.thy ===== *)
theory Mirrors
  imports ClientFraming ServerSafety
begin

text \<open>
  The inventory that a client shows against the inventory that the server keeps.  \<open>inv_effect\<close> is what a
  packet does to the inventory of the client, \<open>shown\<close> is the inventory after all packets of a session,
  and \<open>mirrored\<close> says that it agrees with the slots of the user of the session, except for the dirty
  slots that the running handler still has to report.  The relation \<open>calm\<close> between two worlds is what
  every handler does that has nothing to do with items: it keeps \<open>mirrored\<close>.
\<close>

subsection \<open>What a packet does to the inventory\<close>

definition put_slot_data :: "ITEM_SLOT_DATA \<Rightarrow> ITEM_SLOT_DATA list \<Rightarrow> ITEM_SLOT_DATA list" where
  "put_slot_data d bag = (if sd_slotIndex d < MAX_INVENTORY_SLOTS then bag[unat (sd_slotIndex d) := d] else bag)"

definition empty_inventory :: "ITEM_SLOT_DATA list" where
  "empty_inventory = replicate (unat MAX_INVENTORY_SLOTS) noSlot"

fun inv_effect :: "ServerPacket \<Rightarrow> ITEM_SLOT_DATA list \<Rightarrow> ITEM_SLOT_DATA list" where
  "inv_effect (ITEM_LIST_ACK_PACKET n ds) bag =
     fold put_slot_data (take (min (unat n) (unat MAX_INVENTORY_SLOTS)) (slot_array ds)) empty_inventory"
| "inv_effect (ITEM_EQUIP_ACK_PACKET success d) bag = (if success then put_slot_data d bag else bag)"
| "inv_effect (ITEM_UNEQUIP_ACK_PACKET success d) bag = (if success then put_slot_data d bag else bag)"
| "inv_effect (ITEM_SWAP_ACK_PACKET success a b) bag = (if success then put_slot_data b (put_slot_data a bag) else bag)"
| "inv_effect (ITEM_DISCARD_ACK_PACKET success d) bag = (if success then put_slot_data d bag else bag)"
| "inv_effect (ITEM_USE_ACK_PACKET success d) bag = (if success then put_slot_data d bag else bag)"
| "inv_effect (ITEM_ACQUIRE_INF_PACKET d) bag = put_slot_data d bag"
| "inv_effect p bag = bag"

definition silent :: "ServerPacket \<Rightarrow> bool" where
  "silent p \<longleftrightarrow> (\<forall>bag. inv_effect p bag = bag)"

lemma silent_packets [simp]:
  "silent (USER_LOGIN_ACK_PACKET a b c d e f h)" "silent USER_LOGIN_FAIL_ACK_PACKET"
  "silent (USER_ATTACK_ACK_PACKET i h1 h2)" "silent (SUBJECT_ADD_NFY_PACKET m i x y nm it)"
  "silent (SUBJECT_MOVE_NFY_PACKET i x y t)" "silent (SUBJECT_REMOVE_NFY_PACKET i)" "silent (SUBJECT_DIE_NFY_PACKET i hp)"
  "silent (SUBJECT_RESPAWN_NFY_PACKET m i x y hp nm)" "silent (SUBJECT_ATTACK_NFY_PACKET v v2 h1)"
  "silent (PLAYER_ATTACK_NFY_PACKET i fc)" "silent (SUBJECT_EQUIP_CHANGE_NFY_PACKET i it)" "silent (USER_HEAL_INF_PACKET h1)"
  "silent (USER_STAT_CHANGE_INF_PACKET lv hp hp2 ex)" "silent (SYSTEM_MESSAGE_INF_PACKET cd p q)" "silent (SC_CHAT_PACKET i mess)"
  "silent (ITEM_PICKUP_ACK_PACKET s)" "silent (ITEM_EQUIP_ACK_PACKET False d1)" "silent (ITEM_UNEQUIP_ACK_PACKET False d1)"
  "silent (ITEM_SWAP_ACK_PACKET False d1 d2)" "silent (ITEM_DISCARD_ACK_PACKET False d1)" "silent (ITEM_USE_ACK_PACKET False d1)"
  by (simp_all add: silent_def)

lemma slot_effect: "g_inventory (ApplyInventorySlot d g) = put_slot_data d (g_inventory g)"
  by (simp add: ApplyInventorySlot_def put_slot_data_def)

lemma list_effect: "g_inventory (on_list n ds g) = fold put_slot_data (take (min (unat n) (unat MAX_INVENTORY_SLOTS)) ds) empty_inventory"
proof -
  have "g_inventory (fold ApplyInventorySlot xs g') = fold put_slot_data xs (g_inventory g')" for xs g'
    by (induction xs arbitrary: g') (simp_all add: slot_effect)
  then show ?thesis
    by (simp add: on_list_def empty_inventory_def)
qed

lemma update_inventory:
  "g_inventory (upd_avatar f g) = g_inventory g" "g_inventory (upd_player i f g) = g_inventory g"
  "g_inventory (PushHistory m g) = g_inventory g"
  by (simp_all add: upd_avatar_def upd_player_def PushHistory_def Let_def split: option.split)

lemma reaction_inventory:
  "g_inventory (on_user_login i x y maxhp hp level ex g) = g_inventory g"
  "g_inventory (on_subject_add m i x y name item g) = g_inventory g"
  "g_inventory (on_subject_remove i g) = g_inventory g"
  "g_inventory (on_attack_ack i damage g) = g_inventory g"
  "g_inventory (on_subject_die t i hp16 g) = g_inventory g"
  "g_inventory (on_subject_respawn m i x y hp16 name g) = g_inventory g"
  "g_inventory (on_subject_attack v a h g) = g_inventory g"
  "g_inventory (on_chat t i mess g) = g_inventory g"
  "g_inventory (on_subject_move t i x y g) = g_inventory g"
  by (simp_all add: on_user_login_def on_subject_add_def on_subject_remove_def on_attack_ack_def on_subject_die_def
      on_subject_respawn_def on_subject_attack_def on_chat_def on_subject_move_def TriggerZoneTransition_def Let_def
      SpawnDamageNumber_def update_inventory split: option.split)

lemma client_effect: "g_inventory (client_handle t (as_read p) g) = inv_effect p (g_inventory g)"
proof (cases p)
  case (SYSTEM_MESSAGE_INF_PACKET c a b)
  then show ?thesis
    by (cases c) (simp add: update_inventory)
qed (simp_all add: update_inventory reaction_inventory slot_effect list_effect)

text \<open>The inventory that a client shows after the packets \<open>ps\<close>.\<close>

definition after_packets :: "ServerPacket list \<Rightarrow> ITEM_SLOT_DATA list \<Rightarrow> ITEM_SLOT_DATA list" where
  "after_packets ps = fold inv_effect ps"

lemma handled_inventory:
  "length ts = length ps \<Longrightarrow> g_inventory (handled ts ps g) = after_packets ps (g_inventory g)"
  by (induction ts ps arbitrary: g rule: list_induct2) (simp_all add: handled_def after_packets_def client_effect)

lemma after_snoc: "after_packets (ps @ [p]) bag = inv_effect p (after_packets ps bag)"
  by (simp add: after_packets_def)

subsection \<open>Agreement\<close>

text \<open>Slot \<open>k\<close> of the client says what the server would say of it; the index inside an empty slot is not
  looked at.\<close>

definition mirror_off :: "uint16 set \<Rightarrow> ITEM_SLOT_DATA list \<Rightarrow> (uint16 \<rightharpoonup> Item) \<Rightarrow> bool" where
  "mirror_off K bag slots \<longleftrightarrow> length bag = unat MAX_INVENTORY_SLOTS \<and>
     (\<forall>k. IsValidSlotIndex k \<longrightarrow> k \<notin> K \<longrightarrow> (bag ! unat k)\<lparr>sd_slotIndex := k\<rparr> = FillItemSlotData k (slots k))"

lemma mirror_put:
  assumes "mirror_off K bag slots"
  shows "mirror_off (K - {k}) (put_slot_data (FillItemSlotData k (slots k)) bag) slots"
proof -
  have i: "sd_slotIndex (FillItemSlotData k o1) = k" for o1
    by (simp add: FillItemSlotData_def split: option.split)
  have "(bag[unat k := FillItemSlotData k (slots k)] ! unat j)\<lparr>sd_slotIndex := j\<rparr> = FillItemSlotData j (slots j)"
    if "IsValidSlotIndex j" "j \<notin> K - {k}" for j
  proof (cases "j = k")
    case True
    then have "unat k < length bag"
      using assms that(1) by (simp add: mirror_off_def IsValidSlotIndex_def word_less_nat_alt)
    then show ?thesis
      using True i by (simp add: FillItemSlotData_def split: option.split)
  next
    case False
    then show ?thesis
      using assms that by (simp add: mirror_off_def word_unat_eq_iff nth_list_update)
  qed
  then show ?thesis
    using assms i by (auto simp: mirror_off_def put_slot_data_def IsValidSlotIndex_def)
qed

lemma mirror_change:
  assumes "mirror_off K bag slots" "\<forall>k. k \<notin> J \<longrightarrow> slots' k = slots k"
  shows "mirror_off (K \<union> J) bag slots'"
  using assms by (simp add: mirror_off_def)

lemma mirror_mono: "mirror_off K bag slots \<Longrightarrow> K \<subseteq> J \<Longrightarrow> mirror_off J bag slots"
  by (auto simp: mirror_off_def)

lemma mirror_empty: "mirror_off K empty_inventory Map.empty" "mirror_off UNIV empty_inventory slots"
proof -
  have "noSlot\<lparr>sd_slotIndex := k\<rparr> = FillItemSlotData k None" for k
    by (simp add: noSlot_def FillItemSlotData_def)
  then show "mirror_off K empty_inventory Map.empty" "mirror_off UNIV empty_inventory slots"
    by (simp_all add: mirror_off_def empty_inventory_def IsValidSlotIndex_def word_less_nat_alt)
qed

subsection \<open>Sessions and users\<close>

definition bag_of :: "Subject \<Rightarrow> (uint16 \<rightharpoonup> Item)" where
  "bag_of s = m_slots (subj_user s)"

definition shown :: "ClientSession \<Rightarrow> ITEM_SLOT_DATA list" where
  "shown c = after_packets (cs_posted c) empty_inventory"

definition user_at :: "World \<Rightarrow> ObjID \<Rightarrow> Subject \<Rightarrow> bool" where
  "user_at w i s \<longleftrightarrow> hasCategory eUser i \<and> objects w i = Some s \<and> is_UserB (m_body s)"

text \<open>A session that is not given out yet is free, one that waits for its login has no item packets, one
  of a user belongs to this user alone and shows its slots up to the dirty ones.\<close>

definition mirrored :: "(ObjID \<Rightarrow> uint16 set) \<Rightarrow> World \<Rightarrow> bool" where
  "mirrored D w \<longleftrightarrow>
     (\<forall>sid. nextSession w \<le> sid \<longrightarrow> cs_state (sessions w sid) = ST_FREE) \<and>
     (\<forall>sid. cs_state (sessions w sid) = ST_ALLOC \<longrightarrow> cs_open (sessions w sid) \<longrightarrow>
        shown (sessions w sid) = empty_inventory) \<and>
     (\<forall>i s sid. user_at w i s \<longrightarrow> GetSession s = Some sid \<longrightarrow>
        cs_state (sessions w sid) = ST_INGAME \<and> cs_owner (sessions w sid) = Some i \<and>
        (cs_open (sessions w sid) \<longrightarrow> mirror_off (D i) (shown (sessions w sid)) (bag_of s)))"

text \<open>What leaves the agreement alone: users keep their session and slots or disappear, sessions keep
  their state and owner, and an open session gets only packets without items.\<close>

definition same_session :: "ClientSession \<Rightarrow> ClientSession \<Rightarrow> bool" where
  "same_session c c' \<longleftrightarrow> cs_state c' = cs_state c \<and> cs_owner c' = cs_owner c \<and>
     (cs_open c' \<longrightarrow> cs_open c \<and> shown c' = shown c)"

definition same_user :: "Subject \<Rightarrow> Subject \<Rightarrow> bool" where
  "same_user r s \<longleftrightarrow> is_UserB (m_body s) = is_UserB (m_body r) \<and>
     (is_UserB (m_body r) \<longrightarrow> GetSession s = GetSession r \<and> bag_of s = bag_of r)"

definition calm :: "World \<Rightarrow> World \<Rightarrow> bool" where
  "calm u w \<longleftrightarrow> nextSession w = nextSession u \<and> (\<forall>sid. same_session (sessions u sid) (sessions w sid)) \<and>
     (\<forall>i s. hasCategory eUser i \<longrightarrow> objects w i = Some s \<longrightarrow> (\<exists>r. objects u i = Some r \<and> same_user r s))"

lemma calm_refl [simp]: "calm w w"
  by (simp add: calm_def same_session_def same_user_def)

lemma same_user_trans: "same_user a b \<Longrightarrow> same_user b c \<Longrightarrow> same_user a c"
  by (simp add: same_user_def)

lemma calm_user: "calm u w \<Longrightarrow> hasCategory eUser i \<Longrightarrow> objects w i = Some s \<Longrightarrow> \<exists>r. objects u i = Some r \<and> same_user r s"
  by (simp add: calm_def)

lemma calm_mirrored:
  assumes "calm u w" "mirrored D u"
  shows "mirrored D w"
proof -
  have c: "nextSession w = nextSession u" "same_session (sessions u sid) (sessions w sid)" for sid
    using assms(1) by (simp_all add: calm_def)
  have "cs_state (sessions w sid) = ST_INGAME \<and> cs_owner (sessions w sid) = Some i \<and>
      (cs_open (sessions w sid) \<longrightarrow> mirror_off (D i) (shown (sessions w sid)) (bag_of s))"
    if s: "user_at w i s" "GetSession s = Some sid" for i s sid
  proof -
    obtain r where r: "user_at u i r" "GetSession r = Some sid" "bag_of s = bag_of r"
      using calm_user [OF assms(1), of i s] s by (auto simp: user_at_def same_user_def)
    then show ?thesis
      using assms(2) c(2) [of sid] by (simp add: mirrored_def same_session_def)
  qed
  then show ?thesis
    using assms(2) c by (simp add: mirrored_def same_session_def)
qed

lemma calm_session: "calm u w \<Longrightarrow> cs_state (sessions w sid) = cs_state (sessions u sid)"
  by (simp add: calm_def same_session_def)

subsection \<open>Calm operations\<close>

named_theorems calm_ops \<open>operations that keep a world calm\<close>

lemma calm_fields [calm_ops]:
  assumes "calm u w"
  shows "calm u (w\<lparr>grids := a\<rparr>)" "calm u (w\<lparr>zmgr := b\<rparr>)" "calm u (w\<lparr>timer := c\<rparr>)" "calm u (w\<lparr>registry := d\<rparr>)"
    "calm u (w\<lparr>nextFieldItemId := e\<rparr>)" "calm u (w\<lparr>dbRequests := f\<rparr>)" "calm u (w\<lparr>ticks := g\<rparr>)"
    "calm u (w\<lparr>nextObjectId := h\<rparr>)"
  using assms by (simp_all add: calm_def)

lemma calm_derived [calm_ops]:
  assumes "calm u w"
  shows "calm u (tick w)" "calm u (set_grid th sec w)" "calm u (schedule th i dl ev t w)" "calm u (ReleaseSession sid w)"
    "calm u (QueueUserSave usr x y w)"
  using assms by (simp_all add: tick_def set_grid_def schedule_def ReleaseSession_def QueueUserSave_def calm_fields)

lemma calm_obj [calm_ops]:
  assumes "calm u w" "\<And>s. same_user s (f s)"
  shows "calm u (upd_obj i f w)"
proof -
  have "\<exists>r. objects u j = Some r \<and> same_user r s" if h: "hasCategory eUser j" "objects (upd_obj i f w) j = Some s" for j s
  proof -
    obtain t where "objects w j = Some t" "s = (if j = i then f t else t)"
      using h(2) by (auto simp: upd_obj_def split: if_splits)
    then show ?thesis
      using calm_user [OF assms(1) h(1)] same_user_trans [OF _ assms(2)] by auto
  qed
  then show ?thesis
    using assms(1) by (simp add: calm_def upd_obj_def)
qed

lemma calm_Delete [calm_ops]: "calm u w \<Longrightarrow> calm u (Delete i w)"
  by (auto simp: calm_def Delete_def)

lemma calm_add: "calm u w \<Longrightarrow> \<not> hasCategory eUser i \<Longrightarrow> calm u (w\<lparr>objects := (objects w)(i \<mapsto> s)\<rparr>)"
  by (auto simp: calm_def)

lemma calm_Insert [calm_ops]: "calm u w \<Longrightarrow> \<not> hasCategory eUser i \<Longrightarrow> calm u (snd (Insert i s w))"
  by (simp add: Insert_def calm_add split: option.split)

lemma calm_upd_session:
  assumes "calm u w" "\<And>c. same_session c (f c)"
  shows "calm u (upd_session sid f w)"
  using assms unfolding calm_def upd_session_def same_session_def by simp

lemma calm_routing [calm_ops]: "calm u w \<Longrightarrow> calm u (upd_session sid (\<lambda>c. c\<lparr>cs_routing := z\<rparr>) w)"
  by (rule calm_upd_session) (simp_all add: same_session_def shown_def)

lemma calm_close [calm_ops]: "calm u w \<Longrightarrow> calm u (CloseSession sid w)" "calm u w \<Longrightarrow> calm u (CloseSocket sid w)"
  unfolding CloseSession_def CloseSocket_def by (rule calm_upd_session; simp add: same_session_def)+

lemma shown_post: "shown (c\<lparr>cs_posted := cs_posted c @ [p]\<rparr>) = inv_effect p (shown c)"
  by (simp add: shown_def after_snoc)

lemma calm_post [calm_ops]: "calm u w \<Longrightarrow> silent p \<Longrightarrow> calm u (post sid p w)"
  unfolding post_def by (rule calm_upd_session) (simp_all add: same_session_def shown_post silent_def)

lemma calm_send [calm_ops]: "calm u w \<Longrightarrow> silent p \<Longrightarrow> calm u (send s p w)"
  by (simp add: send_def calm_post split: option.split)

lemma calm_sends [calm_ops]:
  assumes "calm u w"
  shows "calm u (SendSUBJECT_MOVE_NFY v t w)" "calm u (SendSUBJECT_ADD_NFY th v t w)" "calm u (SendSUBJECT_REMOVE_NFY v i w)"
    "calm u (SendUSER_LOGIN_ACK v w)" "calm u (SendSUBJECT_RESPAWN_NFY v t w)" "calm u (SendSUBJECT_DIE_NFY v t w)"
    "calm u (SendUSER_STAT_CHANGE_INF v w)" "calm u (SendUSER_ATTACK_ACK v t dm w)" "calm u (SendSUBJECT_ATTACK_NFY v i j dm w)"
    "calm u (SendPLAYER_ATTACK_NFY v i fc w)" "calm u (SendSC_CHAT v i mess w)" "calm u (SendUSER_HEAL_INF v w)"
    "calm u (SendSUBJECT_EQUIP_CHANGE_NFY v i it w)" "calm u (SendSYSTEM_MESSAGE_INF v cd p q w)" "calm u (SendITEM_PICKUP_ACK v ok1 w)"
  using assms by (simp_all add: send_defs Let_def calm_send)

lemma calm_fold [calm_ops]:
  assumes "calm u w" "\<And>x w. calm u w \<Longrightarrow> calm u (f x w)"
  shows "calm u (fold f xs w)"
  using assms by (induction xs arbitrary: w) auto

lemma calm_for_each:
  assumes "for_each f xs w = Some w'" "calm u w" "\<And>x w w'. f x w = Some w' \<Longrightarrow> calm u w \<Longrightarrow> calm u w'"
  shows "calm u w'"
  using assms(1,2) by (induction xs arbitrary: w) (auto simp: bind_eq_Some_conv intro: assms(3))

end
