(* ===== verification/MirrorFrames.thy ===== *)
theory MirrorFrames
  imports Mirrors
begin

text \<open>
  Every handler that has nothing to do with items is calm: movement, combat, monsters, chat, healing,
  respawn, zone transfer and disconnection.
\<close>

lemma user_of_body:
  "is_UserB (map_stat f b) = is_UserB b \<and> is_UserB (map_monster g b) = is_UserB b \<and> is_UserB (map_item h b) = is_UserB b \<and>
   is_UserB (map_user k b) = is_UserB b"
  "is_UserB b \<Longrightarrow> body_user (map_stat f b) = body_user b \<and> body_user (map_monster g b) = body_user b \<and>
   body_user (map_item h b) = body_user b \<and> body_user (map_user k b) = k (body_user b)"
  by (cases b; simp)+

lemma calm_upd_user:
  assumes "calm u w" "\<And>d. m_session (f d) = m_session d \<and> m_slots (f d) = m_slots d"
  shows "calm u (upd_user i f w)"
  using assms by (intro calm_obj) (auto simp: same_user_def GetSession_def bag_of_def user_of_body)

lemma calm_bodies [calm_ops]:
  assumes "calm u w"
  shows "calm u (upd_stat i f w)" "calm u (upd_monster i g w)" "calm u (upd_body i (map_item h) w)"
  using assms by (auto intro!: calm_obj simp: same_user_def GetSession_def bag_of_def user_of_body)

lemma calm_subject [calm_ops]:
  assumes "calm u w"
  shows "calm u (upd_obj i (\<lambda>s. s\<lparr>m_sectorX := a s, m_sectorY := b s\<rparr>) w)"
    "calm u (upd_obj i (\<lambda>s. s\<lparr>m_sectorX := a s, m_sectorY := b s, m_x := c s, m_y := d s\<rparr>) w)"
    "calm u (upd_obj i (\<lambda>s. s\<lparr>m_zoneId := z\<rparr>) w)" "calm u (upd_obj i (\<lambda>s. s\<lparr>m_x := c s, m_y := d s\<rparr>) w)"
    "calm u (upd_obj i (\<lambda>s. s\<lparr>m_transferring := tr\<rparr>) w)" "calm u (upd_obj i (\<lambda>s. s\<lparr>m_facingLeft := tr\<rparr>) w)"
    "calm u (upd_obj i (UpdateFacing dx) w)" "calm u (upd_obj i (face_direction dir) w)"
  using assms by (auto intro!: calm_obj simp: same_user_def GetSession_def bag_of_def UpdateFacing_def face_direction_def split: if_splits)

lemmas calm_unfold = bind_eq_Some_conv Let_def split_def

subsection \<open>Movement\<close>

lemma calm_UpdatePosition:
  assumes "UpdatePosition th i x y w = Some w'" "calm u w"
  shows "calm u w'"
  using assms by (auto simp: UpdatePosition_def calm_unfold split: option.splits if_splits intro!: calm_ops)

lemma calm_GetRandomPosition:
  assumes "GetRandomPosition th i w = Some w'" "calm u w"
  shows "calm u w'"
  using assms by (auto simp: GetRandomPosition_def calm_unfold intro: calm_UpdatePosition calm_fields)

lemma calm_RemoveObject:
  assumes "world_RemoveObject th i w = Some w'" "calm u w"
  shows "calm u w'"
  using assms by (auto simp: world_RemoveObject_def calm_unfold intro!: calm_ops)

lemma calm_WakeUp [calm_ops]: "calm u w \<Longrightarrow> calm u (WakeUpMonster th i j b w)"
  by (auto simp: WakeUpMonster_def Let_def split_def split: option.split MONSTER_TYPE.split intro!: calm_ops)

lemma calm_Replace [calm_ops]: "calm u w \<Longrightarrow> calm u (Replace th i xs ys w)"
  by (auto simp: Replace_def Let_def split: option.split intro!: calm_ops)

lemma calm_Notify:
  assumes "NotifyPlayerEnteredWorld th i b w = Some w'" "calm u w"
  shows "calm u w'"
  using assms by (auto simp: NotifyPlayerEnteredWorld_def calm_unfold split: option.splits intro!: calm_ops split: option.split)

lemma calm_passes [calm_ops]:
  "calm u w \<Longrightarrow> calm u (move_pass1 th i s xs j w)" "calm u w \<Longrightarrow> calm u (move_pass2 i s ys j w)"
  by (auto simp: move_pass1_def move_pass2_def Let_def split: option.split intro!: calm_ops)

lemma calm_ZoneTransfer:
  assumes "HandleZoneTransfer th i x y z w = Some w'" "calm u w"
  shows "calm u w'"
  using assms
  by (auto simp: HandleZoneTransfer_def calm_unfold split: option.splits intro!: calm_ops
      dest!: calm_RemoveObject [where u = u] split: option.split)

lemma calm_PlayerMove:
  assumes "HandlePlayerMove th i x y w = Some w'" "calm u w"
  shows "calm u w'"
  using assms
  by (auto simp: HandlePlayerMove_def calm_unfold split: if_splits intro!: calm_ops intro: calm_ZoneTransfer calm_UpdatePosition)

lemma calm_EnterZone:
  assumes "HandleEnterZone th i x y w = Some w'" "calm u w"
  shows "calm u w'"
  using assms
  by (auto simp: HandleEnterZone_def calm_unfold split: option.splits if_splits intro!: calm_ops
      intro: calm_GetRandomPosition calm_Notify)

subsection \<open>Items on the ground\<close>

lemma calm_RemoveFieldItem:
  assumes "RemoveFieldItem th i w = Some w'" "calm u w"
  shows "calm u w'"
proof -
  obtain w1 w2 where w: "world_RemoveObject th i w1 = Some w2" "w' = Delete i (w2\<lparr>zmgr := zm_RemoveObject i (zmgr w2)\<rparr>)"
    "calm u w1"
    using assms by (fastforce simp: RemoveFieldItem_def calm_unfold intro!: calm_ops)
  then show ?thesis
    using calm_RemoveObject [OF w(1,3)] by (auto intro!: calm_ops)
qed

lemma calm_SpawnFieldItem:
  assumes "SpawnFieldItem th it x y o1 w = Some w'" "calm u w"
  shows "calm u w'"
proof -
  have "calm u (snd (Insert (mkObjID eItem k) ob (w\<lparr>nextFieldItemId := l\<rparr>)))" for k l ob
    using assms(2) by (intro calm_ops) simp_all
  then have "UpdatePosition th j a b (snd (Insert (mkObjID eItem k) ob (w\<lparr>nextFieldItemId := l\<rparr>))) = Some w1 \<Longrightarrow> calm u w1"
    for j a b k l ob w1
    using calm_UpdatePosition by blast
  then show ?thesis
    using assms(1) by (auto simp: SpawnFieldItem_def calm_unfold split: if_splits intro!: calm_ops)
qed

lemma calm_Despawn:
  assumes "HandleDespawn th i w = Some w'" "calm u w"
  shows "calm u w'"
  using assms by (auto simp: HandleDespawn_def split: option.splits intro: calm_RemoveFieldItem)

lemma calm_LootPriorityExpire: "calm u w \<Longrightarrow> calm u (HandleLootPriorityExpire i w)"
  by (auto simp: HandleLootPriorityExpire_def split: option.split intro!: calm_ops)

lemma calm_EquipChange:
  assumes "BroadcastEquipChange th i w = Some w'" "calm u w"
  shows "calm u w'"
  using assms by (auto simp: BroadcastEquipChange_def calm_unfold intro!: calm_ops)

subsection \<open>Combat and chat\<close>

lemma calm_ItemDrop:
  assumes "HandleItemDrop th i x y w = Some w'" "calm u w"
  shows "calm u w'"
  using assms by (auto simp: HandleItemDrop_def calm_unfold split: if_splits intro!: calm_ops intro: calm_SpawnFieldItem)

lemma calm_kill:
  assumes "kill_monster th m p s w = Some w'" "calm u w"
  shows "calm u w'"
  using assms
  by (auto simp: kill_monster_def calm_unfold intro!: calm_ops elim!: calm_ItemDrop calm_RemoveObject)

lemma calm_AttackMonster:
  assumes "AttackMonster th m p d w = Some w'" "calm u w"
  shows "calm u w'"
  using assms
  by (auto simp: AttackMonster_def calm_unfold split: option.splits if_splits intro!: calm_ops intro: calm_kill)

lemma calm_attacks:
  assumes "calm u w"
  shows "SkillAttack th i w = Some w' \<Longrightarrow> calm u w'" "HandleAttack th i f w = Some w' \<Longrightarrow> calm u w'"
  using assms
  by (auto simp: SkillAttack_def HandleAttack_def calm_unfold split: option.splits if_splits
      intro!: calm_ops intro: calm_AttackMonster elim!: calm_for_each)

lemma calm_Chat:
  assumes "BroadcastChat th i m w = Some w'" "calm u w"
  shows "calm u w'"
  using assms by (auto simp: BroadcastChat_def calm_unfold intro!: calm_ops)

subsection \<open>Healing, respawn and disconnection\<close>

lemma calm_Heal:
  assumes "HandleHeal th i w = Some w'" "calm u w"
  shows "calm u w'"
  using assms by (auto simp: HandleHeal_def calm_unfold split: option.splits if_splits intro!: calm_ops)

lemma calm_Respawn:
  assumes "HandleRespawn th i w = Some w'" "calm u w"
  shows "calm u w'"
  using assms
  by (auto simp: HandleRespawn_def calm_unfold split: option.splits intro!: calm_ops
      elim!: calm_Notify intro: calm_GetRandomPosition)

lemma calm_random_valid:
  assumes "FindRandomValidPosition th w = Some (x, y, w')" "calm u w"
  shows "calm u w'"
  using assms by (auto simp: FindRandomValidPosition_def calm_unfold intro!: calm_ops)

lemma calm_SaveUserInfo:
  assumes "UserHelper_SaveUserInfo th i w = Some w'" "calm u w"
  shows "calm u w'"
  using assms
  by (auto simp: UserHelper_SaveUserInfo_def bind_eq_Some_conv Let_def split: option.splits if_splits
      intro!: calm_ops intro: calm_random_valid)

lemma calm_Disconnect:
  assumes "Disconnect th i w = Some w'" "calm u w"
  shows "calm u w'"
  using assms
  by (auto simp: Disconnect_def calm_unfold split: option.splits if_splits intro!: calm_ops
      elim!: calm_SaveUserInfo calm_RemoveObject)

subsection \<open>Monsters\<close>

lemma calm_AStarMove:
  assumes "AStarMove th i x y w = Some w'" "calm u w"
  shows "calm u w'"
  using assms by (auto simp: AStarMove_def calm_unfold split: option.splits intro!: calm_ops intro: calm_UpdatePosition)

lemma calm_RandomMove:
  assumes "RandomMove th i w = Some w'" "calm u w"
  shows "calm u w'"
proof -
  have "calm u (upd_obj i f (tick w))" if "f = UpdateFacing dx" for f dx
    using assms(2) that by (auto intro!: calm_ops)
  then show ?thesis
    using assms
    by (auto simp: RandomMove_def calm_unfold split: option.splits if_splits intro!: calm_ops intro: calm_UpdatePosition)
qed

lemma calm_MonsterStep:
  assumes "MoveMonsterStep th i x y w = Some w'" "calm u w"
  shows "calm u w'"
  using assms by (auto simp: MoveMonsterStep_def calm_unfold elim!: calm_AStarMove intro!: calm_ops)

lemma calm_steps:
  assumes "calm u w"
  shows "TryMoveCachedPathStep th i x y w = Some (b, w') \<Longrightarrow> calm u w'"
    "TryMoveOneStepTowardGoal th i x y w = Some (b, w') \<Longrightarrow> calm u w'"
    "TryMoveUsingFreshPath th i x y w = Some (b, w') \<Longrightarrow> calm u w'"
  using assms
  by (auto simp: TryMoveCachedPathStep_def TryMoveOneStepTowardGoal_def TryMoveUsingFreshPath_def calm_unfold
      split: if_splits elim!: calm_MonsterStep intro!: calm_ops)

lemma calm_Advance:
  assumes "TryAdvanceTowardGoal th i x y w = Some (b, w')" "calm u w"
  shows "calm u w'"
  using assms unfolding TryAdvanceTowardGoal_def
  by (auto simp: bind_eq_Some_conv split: if_splits dest!: calm_steps(1) [OF assms(2)] intro: calm_steps)

lemma calm_return:
  assumes "return_to_spawn th i t x y w = Some w'" "calm u w"
  shows "calm u w'"
  using assms by (auto simp: return_to_spawn_def bind_eq_Some_conv intro!: calm_ops intro: calm_Advance)

lemma calm_AggroMove:
  assumes "HandleAggroMove th i t w = Some w'" "calm u w"
  shows "calm u w'"
  using assms
  by (auto simp: HandleAggroMove_def bind_eq_Some_conv Let_def split: option.splits if_splits intro!: calm_ops
      intro: calm_Advance elim!: calm_return)

lemma calm_HandleRandomMove:
  assumes "HandleRandomMove th i w = Some w'" "calm u w"
  shows "calm u w'"
  using assms
  by (auto simp: HandleRandomMove_def calm_unfold split: option.splits if_splits intro!: calm_ops intro: calm_RandomMove)

lemma calm_MonsterRespawn:
  assumes "Monster_HandleRespawn th i w = Some w'" "calm u w"
  shows "calm u w'"
proof -
  have "GetRandomPosition th i (upd_monster i f (upd_stat i h w)) = Some w1 \<Longrightarrow> calm u w1" for f h w1
    using calm_GetRandomPosition calm_bodies assms(2) by blast
  then show ?thesis
    using assms by (auto simp: Monster_HandleRespawn_def calm_unfold split: option.splits intro!: calm_ops)
qed

lemma calm_AttackToPlayer:
  assumes "HandleAttackToPlayer th i t w = Some w'" "calm u w"
  shows "calm u w'"
  using assms
  by (auto simp: HandleAttackToPlayer_def calm_unfold split: option.splits if_splits intro!: calm_ops elim!: calm_RemoveObject)

lemma calm_InitForZone:
  assumes "InitForZone th z w = Some w'" "calm u w"
  shows "calm u w'"
proof -
  have "calm u w2" if "spawn_monster th k w1 = Some w2" "calm u w1" for k w1 w2
  proof -
    have "calm u (snd (Insert (monster_id k) ob w1))" for ob
      using that(2) by (intro calm_ops) (simp_all add: monster_id_def)
    then have "GetRandomPosition th j (snd (Insert (monster_id k) ob w1)) = Some w3 \<Longrightarrow> calm u w3" for j ob w3
      using calm_GetRandomPosition by blast
    then show ?thesis
      using that(1) by (auto simp: spawn_monster_def calm_unfold split: option.splits intro!: calm_ops)
  qed
  then show ?thesis
    using calm_for_each [OF assms(1) [unfolded InitForZone_def] assms(2)] by blast
qed

end
