(* ===== verification/MirrorSteps.thy ===== *)
theory MirrorSteps
  imports MirrorFrames
begin

text \<open>
  The handlers that change an inventory report every slot they change, so the agreement with the client
  is an invariant of the server.  Between the change and the report the slots are dirty.
\<close>

subsection \<open>Reporting a slot\<close>

text \<open>The subject \<open>s\<close> that a handler holds is still what the table has of user \<open>i\<close>, and its session is
  that of the user.\<close>

definition stands :: "ObjID \<Rightarrow> Subject \<Rightarrow> World \<Rightarrow> bool" where
  "stands i s w \<longleftrightarrow> (\<forall>r. user_at w i r \<longrightarrow> GetSession r = GetSession s \<and> bag_of r = bag_of s) \<and>
     (\<forall>sid. GetSession s = Some sid \<longrightarrow> cs_owner (sessions w sid) = Some i \<and> cs_state (sessions w sid) = ST_INGAME)"

lemma stands_user: "mirrored D w \<Longrightarrow> user_at w i s \<Longrightarrow> stands i s w"
  by (auto simp: stands_def mirrored_def user_at_def)

lemma stands_calm:
  assumes "calm u w" "stands i s u"
  shows "stands i s w"
proof -
  have "GetSession r = GetSession s \<and> bag_of r = bag_of s" if "user_at w i r" for r
    using calm_user [OF assms(1), of i r] that assms(2) by (auto simp: stands_def user_at_def same_user_def)
  then show ?thesis
    using assms by (simp add: stands_def calm_def same_session_def)
qed

lemma mirrored_mono: "mirrored D w \<Longrightarrow> (\<And>i. D i \<subseteq> E i) \<Longrightarrow> mirrored E w"
  unfolding mirrored_def by (meson mirror_mono)

lemma mirrored_vacuous:
  assumes "mirrored D w" "\<And>r. user_at w i r \<Longrightarrow> GetSession r = None"
  shows "mirrored (D(i := K)) w"
  using assms by (auto simp: mirrored_def)

lemma post_mirrored:
  assumes m: "mirrored D w" and s: "stands i s w" "GetSession s = Some sid"
    and p: "\<And>bag K. mirror_off K bag (bag_of s) \<Longrightarrow> mirror_off (K - J) (inv_effect p bag) (bag_of s)"
  shows "mirrored (D(i := D i - J)) (post sid p w)"
proof -
  let ?w = "post sid p w"
  have o: "cs_owner (sessions w sid) = Some i" "cs_state (sessions w sid) = ST_INGAME"
    using s by (auto simp: stands_def)
  have same: "cs_state (sessions ?w k) = cs_state (sessions w k)" "cs_owner (sessions ?w k) = cs_owner (sessions w k)"
    "cs_open (sessions ?w k) = cs_open (sessions w k)" "user_at ?w j r = user_at w j r" "nextSession ?w = nextSession w" for k j r
    by (simp_all add: post_def upd_session_def user_at_def)
  have show': "shown (sessions ?w k) = (if k = sid \<and> cs_open (sessions w sid) then inv_effect p (shown (sessions w k)) else shown (sessions w k))"
    for k
    by (simp add: post_def upd_session_def shown_post)
  have "mirror_off ((D(i := D i - J)) j) (shown (sessions ?w k)) (bag_of r)"
    if r: "user_at w j r" "GetSession r = Some k" "cs_open (sessions w k)" for j r k
  proof -
    have "cs_owner (sessions w k) = Some j" "mirror_off (D j) (shown (sessions w k)) (bag_of r)"
      using m r by (simp_all add: mirrored_def)
    moreover have "j = i \<Longrightarrow> bag_of r = bag_of s \<and> k = sid"
      using s r by (auto simp: stands_def)
    ultimately show ?thesis
      using o(1) p show' [of k] r(3) by (cases "j = i") auto
  qed
  then show ?thesis
    using m o(2) by (auto simp: mirrored_def same show')
qed

lemma stands_post:
  assumes "stands i s w"
  shows "stands i s (post k p w)"
  using assms by (simp add: stands_def post_def upd_session_def user_at_def)

lemma send_mirrored:
  assumes m: "mirrored D w" and s: "stands i s w"
    and p: "\<And>bag K. mirror_off K bag (bag_of s) \<Longrightarrow> mirror_off (K - J) (inv_effect p bag) (bag_of s)"
  shows "mirrored (D(i := D i - J)) (send s p w)"
proof (cases "GetSession s")
  case None
  then have "\<And>r. user_at w i r \<Longrightarrow> GetSession r = None"
    using s by (simp add: stands_def)
  then show ?thesis
    using mirrored_vacuous [OF m] by (simp add: send_def None)
next
  case (Some sid)
  then show ?thesis
    using post_mirrored [OF m s Some p] by (simp add: send_def)
qed

lemma stands_send: "stands i s w \<Longrightarrow> stands i s (send r p w)"
  by (simp add: send_def stands_post split: option.split)

subsection \<open>Calls of the inventory\<close>

definition kept :: "uint16 set \<Rightarrow> Inventory \<Rightarrow> Inventory \<Rightarrow> bool" where
  "kept J iv iv' \<longleftrightarrow> (\<forall>k. k \<notin> J \<longrightarrow> inv_slots iv' k = inv_slots iv k)"

lemma saves_keep:
  "SaveSlotToDB k iv = Some iv' \<Longrightarrow> inv_slots iv' = inv_slots iv"
  "SaveTwoSlotsToDB k j iv = Some iv' \<Longrightarrow> inv_slots iv' = inv_slots iv"
  "RecomputeOffensive iter iv = Some iv' \<Longrightarrow> inv_slots iv' = inv_slots iv"
  by (auto simp: SaveSlotToDB_def SaveTwoSlotsToDB_def RecomputeOffensive_def request_def call_simps split: option.splits)

lemma save_all_keep: "save_slots ks iv = Some iv' \<Longrightarrow> inv_slots iv' = inv_slots iv"
  by (induction ks arbitrary: iv) (auto simp: bind_eq_Some_conv dest!: saves_keep)

lemma calls_keep:
  "TryUnequip iter k iv = Some (r, iv') \<Longrightarrow> kept (if r then {k} else {}) iv iv'"
  "TrySwapSlots k j iv = Some (r, iv') \<Longrightarrow> kept (if r then {k, j} else {}) iv iv'"
  "TryUseItem k iv = Some (r, iv') \<Longrightarrow> kept (if r then {k} else {}) iv iv'"
  by (auto simp: TryUnequip_def TrySwapSlots_def TryUseItem_def call_simps kept_def unequip_at_def
      split: if_splits option.splits dest!: saves_keep)

lemma extract_keep: "TryExtractItem iter k c iv = Some (r, iv') \<Longrightarrow> kept (if r \<noteq> None then {k} else {}) iv iv'"
  by (auto simp: TryExtractItem_def call_simps kept_def split: if_splits option.splits dest!: saves_keep)

lemma equip_keep:
  "TryEquip iter k iv = Some (r, p, iv') \<Longrightarrow> kept (if r then insert k (set_option p) else {}) iv iv'"
  by (auto simp: TryEquip_def call_simps kept_def unequip_at_def equip_at_def split: if_splits option.splits dest!: saves_keep)

lemma stack_keep:
  "apply_stack i M ks slots n ts = (slots', n', ts') \<Longrightarrow> set ts \<subseteq> set ts' \<and> (\<forall>k. k \<notin> set ts' \<longrightarrow> slots' k = slots k)"
proof (induction ks arbitrary: slots n ts)
  case (Cons k ks)
  show ?case
  proof (cases "n = 0 \<or> slots k = None")
    case True
    then show ?thesis
      using Cons.prems Cons.IH by (auto split: if_splits)
  next
    case False
    then obtain it where it: "n \<noteq> 0" "slots k = Some it"
      by auto
    let ?n = "min (M - m_count it) n"
    show ?thesis
    proof (cases "m_itemTableId it = i \<and> m_count it < M")
      case True
      then have "apply_stack i M ks (slots(k \<mapsto> AddCount ?n it)) (n - ?n) (ts @ [k]) = (slots', n', ts')"
        using Cons.prems it by (simp add: Let_def)
      from Cons.IH [OF this] show ?thesis
        by auto
    next
      case False
      then have "apply_stack i M ks slots n ts = (slots', n', ts')"
        using Cons.prems it by (simp split: if_splits)
      then show ?thesis
        by (rule Cons.IH)
    qed
  qed
qed simp

lemma free_keep:
  "apply_free o1 i M ks slots n ts = Some (slots', ts') \<Longrightarrow> set ts \<subseteq> set ts' \<and> (\<forall>k. k \<notin> set ts' \<longrightarrow> slots' k = slots k)"
proof (induction ks arbitrary: slots n ts)
  case (Cons k ks)
  show ?case
    using Cons.prems by (auto simp: Let_def bind_eq_Some_conv split: if_splits dest!: Cons.IH)
qed simp

lemma add_keep:
  assumes "TryAddItem iter i c iv = Some (r, ts, iv')"
  shows "kept (if r then set ts else {}) iv iv'"
proof -
  have "kept (set ts) iv iv'" if "apply_stack i M ks (inv_slots iv) c [] = (s1, n1, t1)" "apply_free o1 i M js s1 n1 t1 = Some (s2, ts)"
    "inv_slots iv' = s2" for M ks s1 n1 t1 o1 js s2
    using stack_keep [OF that(1)] free_keep [OF that(2)] that(3) by (auto simp: kept_def)
  moreover have "kept (set ts) iv iv'" if "apply_free o1 i M js (inv_slots iv) c [] = Some (s2, ts)" "inv_slots iv' = s2" for M o1 js s2
    using free_keep [OF that(1)] that(2) by (auto simp: kept_def)
  ultimately show ?thesis
    using assms by (auto simp: TryAddItem_def call_simps kept_def split: if_splits option.splits prod.splits dest!: save_all_keep)
qed

lemma with_inventory_mirrored:
  assumes m: "mirrored D w" and u: "user_at w i s" and r: "with_inventory i f w = Some (x, w')"
    and f: "\<And>iv. f (inventory_of s) = Some (x, iv) \<Longrightarrow> kept J (inventory_of s) iv"
  shows "mirrored (D(i := D i \<union> J)) w'" "\<exists>s'. user_at w' i s'"
proof -
  obtain iv where iv: "f (inventory_of s) = Some (x, iv)" "w' = store_inventory i iv w"
    using r u by (auto simp: with_inventory_def user_at_def GetSubject_def bind_eq_Some_conv)
  let ?g = "\<lambda>b. map_user (\<lambda>u. u\<lparr>m_slots := inv_slots iv\<rparr>)
        (map_stat (\<lambda>st. case inv_owner iv of Some owner \<Rightarrow> owner_stat owner | None \<Rightarrow> st) b)"
  let ?s = "s\<lparr>m_body := ?g (m_body s)\<rparr>"
  have s: "is_UserB (m_body ?s)" "GetSession ?s = GetSession s" "bag_of ?s = inv_slots iv"
    using u by (auto simp: user_at_def GetSession_def bag_of_def user_of_body)
  have o: "objects w' = (objects w)(i \<mapsto> ?s)" "sessions w' = sessions w" "nextSession w' = nextSession w"
    using u iv(2) by (simp_all add: store_inventory_def upd_obj_def user_at_def)
  have at: "user_at w' j r' \<longleftrightarrow> (if j = i then r' = ?s else user_at w j r')" for j r'
    using u s(1) o(1) by (auto simp: user_at_def)
  have "kept J (inventory_of s) iv"
    by (rule f [OF iv(1)])
  then have "mirror_off (D i \<union> J) b (bag_of ?s)" if "mirror_off (D i) b (bag_of s)" for b
    using mirror_change [OF that] s(3) by (simp add: kept_def inventory_of_def bag_of_def)
  then show "mirrored (D(i := D i \<union> J)) w'"
    using m u s(2) by (auto simp: mirrored_def o(2,3) at)
  show "\<exists>s'. user_at w' i s'"
    using at by auto
qed

subsection \<open>Requests of the player\<close>

abbreviation clean :: "ObjID \<Rightarrow> uint16 set" where "clean \<equiv> \<lambda>_. {}"

lemma client_at:
  assumes "world_ok w" "client_of w sid = Some c"
  shows "user_at w (m_SubjID c) c"
proof -
  have w: "okn {} (nextFieldItemId w) w"
    using assms(1) by (simp add: okn_def ok_def)
  show ?thesis
    using client_of_user [OF w assms(2)] subject_ok_kind(3) by (simp add: user_at_def)
qed

lemma mirrored_call:
  assumes "mirrored clean w" "user_at w i c" "with_inventory i f w = Some (x, w1)" "GetSubject w1 i = Some s"
    and "\<And>iv. f (inventory_of c) = Some (x, iv) \<Longrightarrow> kept J (inventory_of c) iv"
  shows "mirrored (clean(i := J)) w1" "stands i s w1" "user_at w1 i s"
proof -
  show m: "mirrored (clean(i := J)) w1"
    using with_inventory_mirrored(1) [OF assms(1-3,5)] by simp
  show u: "user_at w1 i s"
    using with_inventory_mirrored(2) [OF assms(1-3,5)] assms(4) by (auto simp: user_at_def GetSubject_def)
  show "stands i s w1"
    by (rule stands_user [OF m u])
qed

lemma sent_slot:
  assumes "mirrored (clean(i := K)) w" "stands i s w"
    and "\<And>bag. inv_effect p bag = put_slot_data (FillItemSlotData k (bag_of s k)) bag"
  shows "mirrored (clean(i := K - {k})) (send s p w)"
  using send_mirrored [OF assms(1,2), of "{k}" p] mirror_put by (simp add: assms(3))

lemma clean_self: "clean(i := {}) = clean"
  by auto

text \<open>The replies, in terms of \<open>send\<close>.\<close>

lemma reply_sent:
  "SendITEM_EQUIP_ACK s k b w = Some w' \<Longrightarrow> w' = send s (ITEM_EQUIP_ACK_PACKET b
     (if b then FillItemSlotData k (bag_of s k) else noSlot\<lparr>sd_slotIndex := k\<rparr>)) w"
  "SendITEM_UNEQUIP_ACK s k b w = Some w' \<Longrightarrow> w' = send s (ITEM_UNEQUIP_ACK_PACKET b
     (if b then FillItemSlotData k (bag_of s k) else noSlot\<lparr>sd_slotIndex := k\<rparr>)) w"
  "SendITEM_ACQUIRE_INF s k w = Some w' \<Longrightarrow> w' = send s (ITEM_ACQUIRE_INF_PACKET (FillItemSlotData k (bag_of s k))) w"
  by (auto simp: SendITEM_EQUIP_ACK_def SendITEM_UNEQUIP_ACK_def SendITEM_ACQUIRE_INF_def send_def bag_of_def bind_eq_Some_conv
      split: option.splits if_splits)

lemma mirrored_unequip:
  assumes "world_ok w" "mirrored clean w" "Route_unequip th sid k w = Some w'"
  shows "mirrored clean w'"
proof (cases "client_of w sid")
  case (Some c)
  let ?i = "m_SubjID c"
  note u = client_at [OF assms(1) Some]
  consider "w' = w" | b w1 s w2 where "with_inventory ?i (TryUnequip (t_iter th) k) w = Some (b, w1)" "GetSubject w1 ?i = Some s"
    "SendITEM_UNEQUIP_ACK s k b w1 = Some w2" "if b then BroadcastEquipChange th ?i w2 = Some w' else w' = w2"
    using assms(3) by (auto simp: Route_unequip_def Some bind_eq_Some_conv Let_def split: if_splits)
  then show ?thesis
  proof cases
    case 2
    have keep: "kept (if b then {k} else {}) (inventory_of c) iv" if "TryUnequip (t_iter th) k (inventory_of c) = Some (b, iv)" for iv
      using that by (rule calls_keep(1))
    note c = mirrored_call [OF assms(2) u 2(1,2) keep] and w2 = reply_sent(2) [OF 2(3)]
    show ?thesis
    proof (cases b)
      case True
      then have "mirrored (clean(?i := {k} - {k})) w2"
        using sent_slot [OF c(1,2), of "ITEM_UNEQUIP_ACK_PACKET True (FillItemSlotData k (bag_of s k))" k] w2 by simp
      then show ?thesis
        using calm_mirrored [OF calm_EquipChange [OF _ calm_refl], of th ?i w2 w'] 2(4) True by (simp add: clean_self)
    next
      case False
      then show ?thesis
        using calm_mirrored [OF calm_send [OF calm_refl]] c(1) w2 2(4) by (simp add: clean_self)
    qed
  qed (use assms(2) in simp)
qed (use assms in \<open>simp add: Route_unequip_def\<close>)

lemma reply_total:
  "SendITEM_SWAP_ACK s j k b w = send s (ITEM_SWAP_ACK_PACKET b
     (if b then FillItemSlotData j (bag_of s j) else noSlot\<lparr>sd_slotIndex := j\<rparr>)
     (if b then FillItemSlotData k (bag_of s k) else noSlot\<lparr>sd_slotIndex := k\<rparr>)) w"
  "SendITEM_DISCARD_ACK s k b w = send s (ITEM_DISCARD_ACK_PACKET b
     (if b then FillItemSlotData k (bag_of s k) else noSlot\<lparr>sd_slotIndex := k\<rparr>)) w"
  "SendITEM_USE_ACK s k b w = send s (ITEM_USE_ACK_PACKET b
     (if b then FillItemSlotData k (bag_of s k) else noSlot\<lparr>sd_slotIndex := k\<rparr>)) w"
  by (simp_all add: SendITEM_SWAP_ACK_def SendITEM_DISCARD_ACK_def SendITEM_USE_ACK_def bag_of_def Let_def)

lemma mirrored_invalid:
  assumes "mirrored (clean(i := K)) w" "\<And>k. k \<in> K \<Longrightarrow> \<not> IsValidSlotIndex k"
  shows "mirrored clean w"
proof -
  have "mirror_off ((clean(i := K)) j) bag slots \<Longrightarrow> mirror_off {} bag slots" for j bag slots
    using assms(2) by (auto simp: mirror_off_def split: if_splits)
  then show ?thesis
    using assms(1) unfolding mirrored_def by blast
qed

text \<open>Of an equipped weapon the new slot is reported first, then the slot of the weapon it replaces.\<close>

lemma equip_reported:
  assumes m: "mirrored (clean(i := insert k (set_option p))) w" and s: "stands i s w"
    and w1: "BroadcastEquipChange th i (send s (ITEM_EQUIP_ACK_PACKET True (FillItemSlotData k (bag_of s k))) w) = Some w1"
    and w': "case p of Some q \<Rightarrow> if q < MAX_INVENTORY_SLOTS then SendITEM_ACQUIRE_INF s q w1 = Some w' else w' = w1 | None \<Rightarrow> w' = w1"
  shows "mirrored clean w'"
proof -
  have calm: "calm (send s (ITEM_EQUIP_ACK_PACKET True (FillItemSlotData k (bag_of s k))) w) w1"
    by (rule calm_EquipChange [OF w1 calm_refl])
  have m1: "mirrored (clean(i := insert k (set_option p) - {k})) w1"
    using sent_slot [OF m s, of "ITEM_EQUIP_ACK_PACKET True (FillItemSlotData k (bag_of s k))" k] calm_mirrored [OF calm] by simp
  note s1 = stands_calm [OF calm stands_send [OF s]]
  show ?thesis
  proof (cases "\<exists>q. p = Some q \<and> q < MAX_INVENTORY_SLOTS")
    case True
    then obtain q where q: "p = Some q" "SendITEM_ACQUIRE_INF s q w1 = Some w'"
      using w' by auto
    then have "mirrored (clean(i := insert k {q} - {k} - {q})) w'"
      using sent_slot [OF m1 s1, of "ITEM_ACQUIRE_INF_PACKET (FillItemSlotData q (bag_of s q))" q] reply_sent(3) by simp
    then show ?thesis
      by (rule mirrored_invalid) blast
  next
    case False
    then show ?thesis
      using mirrored_invalid [OF m1] w' by (auto simp: IsValidSlotIndex_def split: option.splits if_splits)
  qed
qed

lemma mirrored_equip:
  assumes "world_ok w" "mirrored clean w" "Route_equip th sid k w = Some w'"
  shows "mirrored clean w'"
proof (cases "client_of w sid")
  case (Some c)
  let ?i = "m_SubjID c"
  let ?f = "\<lambda>iv. do { (r, p, iv) \<leftarrow> TryEquip (t_iter th) k iv; Some ((r, p), iv) }"
  note u = client_at [OF assms(1) Some]
  consider "w' = w" | b p w1 s w2 where "with_inventory ?i ?f w = Some ((b, p), w1)" "GetSubject w1 ?i = Some s"
    "SendITEM_EQUIP_ACK s k b w1 = Some w2" "\<not> b \<longrightarrow> w' = w2"
    "b \<longrightarrow> (\<exists>w3. BroadcastEquipChange th ?i w2 = Some w3 \<and>
       (case p of Some q \<Rightarrow> if q < MAX_INVENTORY_SLOTS then SendITEM_ACQUIRE_INF s q w3 = Some w' else w' = w3 | None \<Rightarrow> w' = w3))"
    using assms(3) by (auto simp: Route_equip_def Some bind_eq_Some_conv Let_def split: if_splits option.splits)
  then show ?thesis
  proof cases
    case 2
    have keep: "kept (if b then insert k (set_option p) else {}) (inventory_of c) iv" if "?f (inventory_of c) = Some ((b, p), iv)" for iv
      using that by (auto simp: bind_eq_Some_conv dest!: equip_keep)
    note c = mirrored_call [OF assms(2) u 2(1,2) keep] and w2 = reply_sent(1) [OF 2(3)]
    show ?thesis
    proof (cases b)
      case True
      with 2(5) w2 c(1) show ?thesis
        using equip_reported [OF _ c(2), of k p th _ w'] by auto
    next
      case False
      then show ?thesis
        using calm_mirrored [OF calm_send [OF calm_refl]] c(1) w2 2(4) by (simp add: clean_self)
    qed
  qed (use assms(2) in simp)
qed (use assms in \<open>simp add: Route_equip_def\<close>)

lemma mirrored_swap:
  assumes "world_ok w" "mirrored clean w" "Route_swap sid j k w = Some w'"
  shows "mirrored clean w'"
proof (cases "client_of w sid")
  case (Some c)
  let ?i = "m_SubjID c"
  note u = client_at [OF assms(1) Some]
  consider "w' = w" | b w1 s where "with_inventory ?i (TrySwapSlots j k) w = Some (b, w1)" "GetSubject w1 ?i = Some s"
    "w' = SendITEM_SWAP_ACK s j k b w1"
    using assms(3) by (auto simp: Route_swap_def Some bind_eq_Some_conv Let_def split: if_splits)
  then show ?thesis
  proof cases
    case 2
    have keep: "kept (if b then {j, k} else {}) (inventory_of c) iv" if "TrySwapSlots j k (inventory_of c) = Some (b, iv)" for iv
      using that by (rule calls_keep(2))
    note c = mirrored_call [OF assms(2) u 2(1,2) keep]
    show ?thesis
    proof (cases b)
      case True
      have put: "mirror_off (K - {j, k}) (put_slot_data (FillItemSlotData k (bag_of s k)) (put_slot_data (FillItemSlotData j (bag_of s j)) bag))
          (bag_of s)" if "mirror_off K bag (bag_of s)" for K bag
        using mirror_put [OF mirror_put [OF that, of j], of k] unfolding Diff_insert2 [of K j "{k}"] .
      have "mirrored ((clean(?i := {j, k}))(?i := (clean(?i := {j, k})) ?i - {j, k}))
          (send s (ITEM_SWAP_ACK_PACKET True (FillItemSlotData j (bag_of s j)) (FillItemSlotData k (bag_of s k))) w1)"
        by (rule send_mirrored [OF _ c(2)]) (use c(1) True put in simp_all)
      then show ?thesis
        using True 2(3) by (simp add: reply_total clean_self)
    next
      case False
      then show ?thesis
        using calm_mirrored [OF calm_send [OF calm_refl]] c(1) 2(3) by (simp add: clean_self reply_total)
    qed
  qed (use assms(2) in simp)
qed (use assms in \<open>simp add: Route_swap_def\<close>)

text \<open>A user that was there is still a user when it is looked up later.\<close>

lemma later_user:
  assumes "calm u w" "user_at u i r" "GetSubject w i = Some s"
  shows "user_at w i s"
  using calm_user [OF assms(1), of i s] assms(2,3) by (auto simp: user_at_def same_user_def GetSubject_def)

lemma user_after_update: "user_at w i c \<Longrightarrow> \<exists>c'. user_at (upd_user i f w) i c'"
  by (auto simp: user_at_def upd_obj_def user_of_body)

lemma mirrored_use:
  assumes "world_ok w" "mirrored clean w" "Route_use th sid k w = Some w'"
  shows "mirrored clean w'"
proof (cases "client_of w sid")
  case (Some c)
  let ?i = "m_SubjID c"
  let ?w = "\<lambda>t. upd_user ?i (\<lambda>u. u\<lparr>m_lastPotionUseTime := t\<rparr>) (tick w)"
  have u: "user_at (tick w) ?i c"
    using client_at [OF assms(1) Some] by (simp add: user_at_def tick_def)
  consider "w' = w" | "w' = tick w" | t b w1 s where "with_inventory ?i (TryUseItem k) (?w t) = Some (b, w1)" "GetSubject w1 ?i = Some s"
    "w' = SendITEM_USE_ACK s k b (if b then SendUSER_HEAL_INF s w1 else w1)"
    using assms(3) by (auto simp: Route_use_def Some bind_eq_Some_conv Let_def GetNowTime_def split: if_splits)
  then show ?thesis
  proof cases
    case 2
    then show ?thesis
      using calm_mirrored [OF calm_derived(1) [OF calm_refl] assms(2)] by simp
  next
    case 3
    have m: "mirrored clean (?w t)"
      by (rule calm_mirrored [OF calm_upd_user [OF calm_derived(1) [OF calm_refl]] assms(2)]) simp
    obtain c' where c': "user_at (?w t) ?i c'"
      using user_after_update [OF u] by blast
    have keep: "kept (if b then {k} else {}) (inventory_of c') iv" if "TryUseItem k (inventory_of c') = Some (b, iv)" for iv
      using that by (rule calls_keep(3))
    note c = mirrored_call [OF m c' 3(1,2) keep]
    show ?thesis
    proof (cases b)
      case True
      have calm: "calm w1 (SendUSER_HEAL_INF s w1)"
        by (intro calm_ops calm_refl)
      have "mirrored (clean(?i := {k})) (SendUSER_HEAL_INF s w1)"
        using calm_mirrored [OF calm] c(1) True by simp
      from sent_slot [OF this stands_calm [OF calm c(2)], of "ITEM_USE_ACK_PACKET True (FillItemSlotData k (bag_of s k))" k]
      show ?thesis
        using True 3(3) by (simp add: reply_total clean_self)
    next
      case False
      then show ?thesis
        using calm_mirrored [OF calm_send [OF calm_refl]] c(1) 3(3) by (simp add: clean_self reply_total)
    qed
  qed (use assms(2) in simp)
qed (use assms in \<open>simp add: Route_use_def\<close>)

lemma mirrored_discard:
  assumes "world_ok w" "mirrored clean w" "Route_discard th sid k n w = Some w'"
  shows "mirrored clean w'"
proof (cases "client_of w sid")
  case (Some c)
  let ?i = "m_SubjID c"
  note u = client_at [OF assms(1) Some]
  consider "w' = w" | e w1 w2 s where "with_inventory ?i (TryExtractItem (t_iter th) k n) w = Some (e, w1)"
    "(case e of None \<Rightarrow> Some w1
        | Some it \<Rightarrow> do { w \<leftarrow> SpawnFieldItem th it (m_x c) (m_y c) npos w1; BroadcastEquipChange th ?i w }) = Some w2"
    "GetSubject w2 ?i = Some s" "w' = SendITEM_DISCARD_ACK s k (e \<noteq> None) w2"
    using assms(3) by (auto simp: Route_discard_def Some bind_eq_Some_conv Let_def split: if_splits)
  then show ?thesis
  proof cases
    case 2
    have keep: "kept (if e \<noteq> None then {k} else {}) (inventory_of c) iv" if "TryExtractItem (t_iter th) k n (inventory_of c) = Some (e, iv)" for iv
      using that by (rule extract_keep)
    have m1: "mirrored (clean(?i := if e \<noteq> None then {k} else {})) w1"
      using with_inventory_mirrored(1) [OF assms(2) u 2(1) keep] by simp
    obtain r where r: "user_at w1 ?i r"
      using with_inventory_mirrored(2) [OF assms(2) u 2(1) keep] by blast
    have calm: "calm w1 w2"
      using 2(2) calm_EquipChange [OF _ calm_SpawnFieldItem [OF _ calm_refl]] by (auto simp: bind_eq_Some_conv split: option.splits)
    note m2 = calm_mirrored [OF calm m1] and s = later_user [OF calm r 2(3)]
    show ?thesis
    proof (cases e)
      case None
      then show ?thesis
        using calm_mirrored [OF calm_send [OF calm_refl]] m2 2(4) by (simp add: clean_self reply_total)
    next
      case (Some it)
      then show ?thesis
        using sent_slot [OF m2 stands_user [OF m2 s], of "ITEM_DISCARD_ACK_PACKET True (FillItemSlotData k (bag_of s k))" k] 2(4)
        by (simp add: reply_total clean_self)
    qed
  qed (use assms(2) in simp)
qed (use assms in \<open>simp add: Route_discard_def\<close>)

lemma acquire_all:
  assumes "mirrored (clean(i := K)) w" "stands i s w" "for_each (SendITEM_ACQUIRE_INF s) ks w = Some w'"
  shows "mirrored (clean(i := K - set ks)) w'"
  using assms
proof (induction ks arbitrary: K w)
  case (Cons k ks)
  then obtain w1 where w1: "SendITEM_ACQUIRE_INF s k w = Some w1" "for_each (SendITEM_ACQUIRE_INF s) ks w1 = Some w'"
    by (auto simp: bind_eq_Some_conv)
  have "mirrored (clean(i := K - {k})) w1" "stands i s w1"
    using sent_slot [OF Cons.prems(1,2), of "ITEM_ACQUIRE_INF_PACKET (FillItemSlotData k (bag_of s k))" k]
      reply_sent(3) [OF w1(1)] stands_send [OF Cons.prems(2)] by simp_all
  from Cons.IH [OF this w1(2)] show ?case
    by (simp add: Diff_insert2 [of K k "set ks"])
qed simp

lemma mirrored_pickup:
  assumes "mirrored clean w" "user_at w i c" "TryPickupAt th i w = Some w'"
  shows "mirrored clean w'"
proof -
  define f where "f = (\<lambda>(it :: Item) iv. do { (r, ts, iv) \<leftarrow> TryAddItem (t_iter th) (m_itemTableId it) (m_count it) iv; Some ((r, ts), iv) })"
  have fold_f: "(\<lambda>iv. do { (r, ts, iv) \<leftarrow> TryAddItem (t_iter th) (m_itemTableId it) (m_count it) iv; Some ((r, ts), iv) }) = f it" for it :: Item
    by (simp add: f_def)
  have keep: "kept (if b then set ts else {}) (inventory_of c) iv" if "f it (inventory_of c) = Some ((b, ts), iv)" for it b ts iv
    using that by (auto simp: f_def bind_eq_Some_conv dest!: add_keep)
  have m1: "mirrored (clean(i := if b then set ts else {})) w1" "\<exists>r. user_at w1 i r"
    if "with_inventory i (f it) w = Some ((b, ts), w1)" for it b ts w1
    using with_inventory_mirrored [OF assms(1,2) that keep [of it b ts]] by simp_all
  consider "w' = SendITEM_PICKUP_ACK c False w"
  | it ts w1 where "with_inventory i (f it) w = Some ((False, ts), w1)"
      "w' = SendSYSTEM_MESSAGE_INF c InventoryFull (uint (m_itemTableId it)) (uint (m_count it)) (SendITEM_PICKUP_ACK c False w1)"
  | it ts w1 j w2 s where "with_inventory i (f it) w = Some ((True, ts), w1)" "RemoveFieldItem th j w1 = Some w2"
      "GetSubject (SendITEM_PICKUP_ACK c True w2) i = Some s"
      "for_each (SendITEM_ACQUIRE_INF s) ts (SendITEM_PICKUP_ACK c True w2) = Some w'"
    using assms(2,3)
    by (auto simp: TryPickupAt_def Let_def fold_f bind_eq_Some_conv GetSubject_def user_at_def split: if_splits option.splits)
  then show ?thesis
  proof cases
    case 1
    then show ?thesis
      using calm_mirrored [OF calm_sends(15) [OF calm_refl] assms(1)] by simp
  next
    case 2
    have "calm w1 w'"
      unfolding 2(2) by (intro calm_ops calm_refl)
    then show ?thesis
      using calm_mirrored m1(1) [OF 2(1)] by (simp add: clean_self)
  next
    case 3
    obtain r where r: "user_at w1 i r"
      using m1(2) [OF 3(1)] by blast
    have calm: "calm w1 (SendITEM_PICKUP_ACK c True w2)"
      by (intro calm_ops calm_RemoveFieldItem [OF 3(2)] calm_refl)
    note m2 = calm_mirrored [OF calm m1(1) [OF 3(1)]]
    from acquire_all [OF m2 stands_user [OF m2 later_user [OF calm r 3(3)]] 3(4)] show ?thesis
      by (simp add: clean_self)
  qed
qed

end
