(* ===== verification/MirrorProps.thy ===== *)
theory MirrorProps
  imports MirrorSteps ClientInput DemoWorld LoginRace
begin

text \<open>
  The agreement between the inventory of a client and that of the server is an invariant of all steps:
  a login sends the whole inventory, every request of the player reports what it changed, and nothing
  else touches a slot.
\<close>

subsection \<open>Requests\<close>

lemma calm_routes:
  "Route_move th sid dir w = Some w' \<Longrightarrow> calm w w'" "Route_attack th sid fc w = Some w' \<Longrightarrow> calm w w'"
  "Route_skill th sid w = Some w' \<Longrightarrow> calm w w'" "Route_teleport th sid x y w = Some w' \<Longrightarrow> calm w w'"
  "Route_chat th sid mess w = Some w' \<Longrightarrow> calm w w'" "calm w (Route_login sid name pw w)"
proof -
  have user: "calm w (upd_user i (\<lambda>u. u\<lparr>m_lastMoveTime := t\<rparr>) (tick w))" "calm w (upd_user i (\<lambda>u. u\<lparr>m_lastAttackTime := t\<rparr>) (tick w))"
    "calm w (upd_user i (\<lambda>u. u\<lparr>m_lastSkillTime := t\<rparr>) (tick w))" for i t
    by (rule calm_upd_user; simp add: calm_derived)+
  show "calm w w'" if "Route_move th sid dir w = Some w'"
    using that by (auto simp: Route_move_def GetNowTime_def Let_def split_def split: option.splits if_splits
        intro!: calm_derived elim!: calm_PlayerMove intro: calm_subject user)
  show "calm w w'" if "Route_attack th sid fc w = Some w'"
    using that by (auto simp: Route_attack_def GetNowTime_def Let_def split: option.splits if_splits
        intro!: calm_derived elim!: calm_attacks(2) [rotated] intro: calm_subject user)
  show "calm w w'" if "Route_skill th sid w = Some w'"
    using that by (auto simp: Route_skill_def GetNowTime_def Let_def split: option.splits if_splits
        intro!: calm_derived elim!: calm_attacks(1) [rotated] intro: user)
  show "calm w w'" if "Route_teleport th sid x y w = Some w'"
    using that by (auto simp: Route_teleport_def split: option.splits if_splits elim!: calm_PlayerMove)
  show "calm w w'" if "Route_chat th sid mess w = Some w'"
    using that by (auto simp: Route_chat_def split: option.splits elim!: calm_Chat)
  show "calm w (Route_login sid name pw w)"
    by (simp add: Route_login_def calm_fields)
qed

lemma mirrored_route:
  assumes "world_ok w" "mirrored clean w" "route_packet th sid p w = Some w'"
  shows "mirrored clean w'"
proof (cases p)
  case ITEM_PICKUP_REQ_PACKET
  then have h: "Route_pickup th sid w = Some w'"
    using assms(3) by simp
  show ?thesis
  proof (cases "client_of w sid")
    case (Some c)
    then have "w' = w \<or> TryPickupAt th (m_SubjID c) w = Some w'"
      using h by (simp add: Route_pickup_def split: if_splits)
    then show ?thesis
      using mirrored_pickup [OF assms(2) client_at [OF assms(1) Some]] assms(2) by blast
  qed (use h assms(2) in \<open>simp add: Route_pickup_def\<close>)
next
  case (USER_LOGIN_REQ_PACKET name pw)
  then show ?thesis
    using calm_mirrored [OF calm_routes(6) assms(2)] assms(3) by auto
qed (use assms(3) in \<open>auto dest: calm_routes(1-5) [THEN calm_mirrored, OF _ assms(2)] mirrored_equip [OF assms(1,2)]
      mirrored_unequip [OF assms(1,2)] mirrored_swap [OF assms(1,2)] mirrored_discard [OF assms(1,2)] mirrored_use [OF assms(1,2)]\<close>)

subsection \<open>Logins\<close>

text \<open>A new user is entered with all those slots dirty that differ from an empty inventory.\<close>

lemma mirrored_enter:
  assumes m: "mirrored clean w" and a: "cs_state (sessions w sid) = ST_ALLOC" and n: "objects w i = None"
    and p: "is_UserB (m_body p)" "hasCategory eUser i" and o: "mirror_off K empty_inventory (bag_of p)"
  shows "mirrored (clean(i := K)) (enter_game sid i (w\<lparr>objects := (objects w)(i \<mapsto> p)\<rparr>))"
    and "\<exists>r. user_at (enter_game sid i (w\<lparr>objects := (objects w)(i \<mapsto> p)\<rparr>)) i r \<and> bag_of r = bag_of p \<and> GetSession r = Some sid"
proof -
  let ?w = "enter_game sid i (w\<lparr>objects := (objects w)(i \<mapsto> p)\<rparr>)"
  let ?p = "p\<lparr>m_body := map_user (\<lambda>u. u\<lparr>m_session := Some sid\<rparr>) (m_body p)\<rparr>"
  have ss: "sessions ?w = (sessions w)(sid := (sessions w sid)\<lparr>cs_owner := Some i, cs_state := ST_INGAME\<rparr>)"
    "nextSession ?w = nextSession w" "objects ?w = (objects w)(i \<mapsto> ?p)"
    by (auto simp: enter_game_def upd_session_def upd_obj_def BindOwner_def)
  have u: "is_UserB (m_body ?p)" "GetSession ?p = Some sid" "bag_of ?p = bag_of p"
    using p by (auto simp: GetSession_def bag_of_def user_of_body)
  have at: "user_at ?w j r \<longleftrightarrow> (if j = i then r = ?p else user_at w j r)" for j r
    using u(1) p(2) ss(3) by (auto simp: user_at_def)
  have sh: "shown (c\<lparr>cs_owner := a, cs_state := b\<rparr>) = shown c" for c a b
    by (simp add: shown_def)
  have "mirror_off K (shown (sessions w sid)) (bag_of p)" if "cs_open (sessions w sid)"
    using m a o that by (simp add: mirrored_def)
  moreover have "k \<noteq> sid" if "user_at w j r" "GetSession r = Some k" for j r k
    using m a that by (auto simp: mirrored_def)
  moreover have "\<not> nextSession w \<le> sid"
    using m a by (auto simp: mirrored_def)
  ultimately show "mirrored (clean(i := K)) ?w"
    using m u(2,3) by (auto simp: mirrored_def ss(1,2) at sh)
  show "\<exists>r. user_at ?w i r \<and> bag_of r = bag_of p \<and> GetSession r = Some sid"
    using at u by auto
qed

text \<open>The list that a login sends is the whole inventory.\<close>

lemma mirror_fold:
  assumes "mirror_off K bag slots"
  shows "mirror_off (K - set ks) (fold put_slot_data (map (\<lambda>k. FillItemSlotData k (slots k)) ks) bag) slots"
  using assms
proof (induction ks arbitrary: K bag)
  case (Cons k ks)
  from Cons.IH [OF mirror_put [OF Cons.prems, of k]] show ?case
    by (simp add: Diff_insert2 [of K k "set ks"])
qed simp

lemma list_mirror:
  assumes it: "slot_iteration iter" and v: "dom slots \<subseteq> {k. IsValidSlotIndex k}"
  defines "items \<equiv> map (\<lambda>k. FillItemSlotData k (slots k)) (take ITEM_LIST_SLOTS (iter slots))"
  shows "mirror_off {} (inv_effect (ITEM_LIST_ACK_PACKET (of_nat (length items)) items) bag) slots"
proof -
  have ks: "set (iter slots) = dom slots" "distinct (iter slots)"
    using slot_iteration.iter_set [OF it v] slot_iteration.iter_distinct [OF it v] by simp_all
  have "length (iter slots) \<le> length slot_indices"
    using ks v by (metis card_length card_mono distinct_card finite_set le_trans set_slot_indices)
  then have items: "items = map (\<lambda>k. FillItemSlotData k (slots k)) (iter slots)" "length items \<le> 30"
    by (simp_all add: items_def proto_consts slot_indices_def MAX_INVENTORY_SLOTS_def)
  then have "take (min (unat (of_nat (length items) :: uint8)) (unat MAX_INVENTORY_SLOTS)) (slot_array items) = items"
    by (simp add: slot_array_def proto_consts unat_of_nat MAX_INVENTORY_SLOTS_def)
  moreover have "mirror_off (dom slots) empty_inventory slots"
    using mirror_change [OF mirror_empty(1) [of "{}"], of "dom slots" slots] by (simp add: domIff)
  from mirror_fold [OF this, of "iter slots"] have "mirror_off {} (fold put_slot_data items empty_inventory) slots"
    by (simp add: items(1) ks(1))
  ultimately show ?thesis
    by simp
qed

lemma loaded_slots:
  assumes "thread_ok th" "hasCategory eUser i" "rows_ok items" "info_level_ok info" "load_user th i info items = Some p"
  shows "is_UserB (m_body p)" "dom (bag_of p) \<subseteq> {k. IsValidSlotIndex k}"
proof -
  have s: "subject_ok 0 i p"
    using load_user_ok [OF assms(1-4), of 0] assms(5) by simp
  then show u: "is_UserB (m_body p)"
    using subject_ok_kind(3) assms(2) by blast
  have "inv_ok (inventory_of p)"
    using s u by (auto simp: subject_ok_def body_ok_def split: SubjectBody.splits)
  then show "dom (bag_of p) \<subseteq> {k. IsValidSlotIndex k}"
    by (auto simp: inv_ok_def slots_ok_def inventory_of_def bag_of_def)
qed

text \<open>The steps of a login up to the list.\<close>

lemma login_steps:
  assumes h: "HandleGetUserInfo th sid info items w = Some w'" and i: "i = mkObjID eUser (ucast (cs_objectId (sessions w sid)))"
  obtains "w' = w" | p w2 s where "cs_state (sessions w sid) = ST_ALLOC" "load_user th i info items = Some p" "objects w i = None"
    "calm (enter_game sid i (w\<lparr>objects := (objects w)(i \<mapsto> p)\<rparr>)) w2" "GetSubject w2 i = Some s"
    "NotifyPlayerEnteredWorld th i False
       (schedule th i (secs 5) EV_HEAL npos (SendITEM_LIST_ACK th s (SendUSER_LOGIN_ACK s w2))) = Some w'"
proof (cases "cs_state (sessions w sid) = ST_ALLOC")
  case True
  then obtain p where p: "load_user th i info items = Some p"
    using h by (auto simp: HandleGetUserInfo_def i bind_eq_Some_conv Let_def)
  show ?thesis
  proof (cases "objects w i")
    case None
    let ?w = "enter_game sid i (w\<lparr>objects := (objects w)(i \<mapsto> p)\<rparr>)"
    have place: "calm ?w w2" if "(if IsFreePosition x y then UpdatePosition th i (short_of x) (short_of y) ?w
        else do { (a, b, w) \<leftarrow> FindRandomValidPosition th ?w; w \<leftarrow> UpdatePosition th i a b w;
                  player \<leftarrow> GetSubject w i; Some (QueueUserSave player a b w) }) = Some w2" for x y w2
      using that
      by (auto simp: bind_eq_Some_conv split: if_splits intro!: calm_derived elim!: calm_UpdatePosition calm_random_valid)
    obtain w2 s where "(if IsFreePosition (ui_x info) (ui_y info) then UpdatePosition th i (short_of (ui_x info)) (short_of (ui_y info)) ?w
        else do { (a, b, w) \<leftarrow> FindRandomValidPosition th ?w; w \<leftarrow> UpdatePosition th i a b w;
                  player \<leftarrow> GetSubject w i; Some (QueueUserSave player a b w) }) = Some w2" "GetSubject w2 i = Some s"
      "NotifyPlayerEnteredWorld th i False
        (schedule th i (secs 5) EV_HEAL npos (SendITEM_LIST_ACK th s (SendUSER_LOGIN_ACK s w2))) = Some w'"
      using h True p None by (simp add: HandleGetUserInfo_def i [symmetric] Insert_def Let_def bind_eq_Some_conv del: bind.bind_lunit) blast
    then show ?thesis
      using that(2) [OF True p None place] by blast
  qed (use h True p that(1) in \<open>simp add: HandleGetUserInfo_def i [symmetric] Insert_def Let_def\<close>)
qed (use h that(1) in \<open>simp add: HandleGetUserInfo_def\<close>)

lemma mirrored_login:
  assumes th: "thread_ok th" and m: "mirrored clean w" and t: "rows_ok items" "info_level_ok info"
    and h: "HandleGetUserInfo th sid info items w = Some w'"
  shows "mirrored clean w'"
proof -
  let ?i = "mkObjID eUser (ucast (cs_objectId (sessions w sid)))"
  have c: "hasCategory eUser ?i"
    by simp
  show ?thesis
  proof (cases rule: login_steps [OF h refl])
    case (2 p w2 s)
    note p = loaded_slots [OF th c t 2(2)]
    note e = mirrored_enter [OF m 2(1,3) p(1) c mirror_empty(2)]
    let ?w1 = "enter_game sid ?i (w\<lparr>objects := (objects w)(?i \<mapsto> p)\<rparr>)"
    obtain r where r: "user_at ?w1 ?i r" "bag_of r = bag_of p"
      using e(2) by blast
    have calm: "calm ?w1 (SendUSER_LOGIN_ACK s w2)"
      by (intro calm_ops 2(4))
    have s: "user_at w2 ?i s" "bag_of s = bag_of p"
      using later_user [OF 2(4) r(1) 2(5)] calm_user [OF 2(4) c, of s] 2(5) r
      by (auto simp: user_at_def GetSubject_def same_user_def)
    have st: "stands ?i s (SendUSER_LOGIN_ACK s w2)"
      by (rule stands_calm [OF calm_sends(4) [OF calm_refl] stands_user [OF calm_mirrored [OF 2(4) e(1)] s(1)]])
    have "mirrored ((clean(?i := UNIV))(?i := (clean(?i := UNIV)) ?i - UNIV)) (SendITEM_LIST_ACK th s (SendUSER_LOGIN_ACK s w2))"
      unfolding SendITEM_LIST_ACK_def Let_def
      by (rule send_mirrored [OF calm_mirrored [OF calm e(1)] st])
        (use list_mirror [of "t_iter th" "bag_of s"] th p(2) s(2) in \<open>simp add: thread_ok_def bag_of_def\<close>)
    then have "mirrored clean (schedule th ?i (secs 5) EV_HEAL npos (SendITEM_LIST_ACK th s (SendUSER_LOGIN_ACK s w2)))"
      using calm_mirrored [OF calm_derived(3) [OF calm_refl]] by (simp add: clean_self)
    then show ?thesis
      using calm_mirrored [OF calm_Notify [OF 2(6) calm_refl]] by blast
  qed (use m in simp)
qed

text \<open>A new player starts with nothing, and nothing is what the client shows.\<close>

lemma mirrored_new_user:
  assumes m: "mirrored clean w" and h: "HandleAddUserInfo th sid info w = Some w'"
  shows "mirrored clean w'"
proof -
  let ?i = "mkObjID eUser (ucast (cs_objectId (sessions w sid)))"
  let ?n = "(User_InitInstance ?i)\<lparr>m_SubjName := ui_name info\<rparr>"
  let ?p = "?n\<lparr>m_body := map_user (\<lambda>u. u\<lparr>m_playerId := ui_playerId info\<rparr>) (m_body ?n)\<rparr>"
  let ?w = "enter_game sid ?i (w\<lparr>objects := (objects w)(?i \<mapsto> ?p)\<rparr>)"
  have p: "is_UserB (m_body ?p)" "mirror_off {} empty_inventory (bag_of ?p)"
    using mirror_empty(1) [of "{}"] by (simp_all add: User_InitInstance_def newSubject_def bag_of_def)
  have enter: "calm ?w w'" if "GetRandomPosition th ?i ?w = Some w2"
    "NotifyPlayerEnteredWorld th ?i False (schedule th ?i (secs 5) EV_HEAL npos (SendUSER_LOGIN_ACK s w2)) = Some w'" for w2 s
    by (rule calm_Notify [OF that(2) calm_derived(3) [OF calm_sends(4) [OF calm_GetRandomPosition [OF that(1) calm_refl]]]])
  have "w' = w \<or> cs_state (sessions w sid) = ST_ALLOC \<and> objects w ?i = None \<and> calm ?w w'"
  proof (cases "cs_state (sessions w sid) = ST_ALLOC \<and> objects w ?i = None")
    case True
    then obtain w2 s where "GetRandomPosition th ?i ?w = Some w2"
      "NotifyPlayerEnteredWorld th ?i False (schedule th ?i (secs 5) EV_HEAL npos (SendUSER_LOGIN_ACK s w2)) = Some w'"
      using h by (auto simp: HandleAddUserInfo_def Insert_def Let_def bind_eq_Some_conv)
    then show ?thesis
      using enter True by blast
  qed (use h in \<open>auto simp: HandleAddUserInfo_def Insert_def Let_def split: if_splits\<close>)
  then show ?thesis
    using mirrored_enter(1) [OF m _ _ p(1) _ p(2)] calm_mirrored m by (auto simp: clean_self)
qed

subsection \<open>Steps of the server\<close>

lemma mirrored_task:
  assumes th: "thread_ok th" and w: "world_ok w" and t: "task_ok t" and m: "mirrored clean w" and h: "run_task th t w = Some w'"
  shows "mirrored clean w'"
proof (cases t)
  case (TPacket sid packet)
  then show ?thesis
    using h m mirrored_route [OF w m] by (auto simp: Route_Dispatch_def split: option.splits)
next
  case (TGetUserInfo sid info items)
  then show ?thesis
    using h t mirrored_login [OF th m, of items info sid w'] by simp
next
  case (TAddUserInfo sid info)
  then show ?thesis
    using h mirrored_new_user [OF m] by simp
next
  case (TLoginFail sid)
  then show ?thesis
    using h calm_mirrored [OF calm_post [OF calm_refl] m] by (auto simp: HandleLoginFail_def)
next
  case (TCloseSession sid)
  then show ?thesis
    using h calm_mirrored [OF calm_derived(4) [OF calm_close(1) [OF calm_refl]] m] by auto
next
  case (TLootPriorityExpire i)
  then show ?thesis
    using h calm_mirrored [OF calm_LootPriorityExpire [OF calm_refl] m] by auto
qed (use h in \<open>auto intro!: calm_mirrored [OF _ m] elim: calm_HandleRandomMove calm_MonsterRespawn calm_AttackToPlayer
       calm_AggroMove calm_Heal calm_Respawn calm_Despawn calm_EnterZone calm_Disconnect\<close>)

lemma mirrored_logic:
  assumes th: "thread_ok th" and w: "world_ok w" and m: "mirrored clean w" and h: "logic_turn th w = Some w'"
  shows "mirrored clean w'"
proof -
  obtain t zm where t: "take_task (t_zone th) (zmgr w) = (t, zm)"
    by (cases "take_task (t_zone th) (zmgr w)")
  note k = take_task_ok [OF conjunct1 [OF world_ok_zm [OF w]] conjunct2 [OF world_ok_zm [OF w]] t]
  have w1: "world_ok (w\<lparr>zmgr := zm\<rparr>)" "mirrored clean (w\<lparr>zmgr := zm\<rparr>)"
    using world_ok_zmgr [OF w] k calm_mirrored [OF calm_fields(2) [OF calm_refl] m] by blast+
  show ?thesis
  proof (cases t)
    case (Some a)
    then show ?thesis
      using mirrored_task [OF th w1(1) _ w1(2), of a w'] k h t by (simp add: logic_turn_def)
  qed (use h t w1 in \<open>simp add: logic_turn_def\<close>)
qed

lemma mirrored_accept:
  assumes m: "mirrored clean w"
  shows "mirrored clean (io_accept attached postRecv w)"
proof (cases "CreateSession w")
  case (Pair sid w1)
  show ?thesis
  proof (cases sid)
    case (Some k)
    then have w1: "w1 = w\<lparr>sessions := (sessions w)(k := newClientSession (nextObjectId w)), nextSession := Suc k,
        nextObjectId := nextObjectId w + 1, registry := insert k (registry w)\<rparr>" "k = nextSession w"
      using Pair by (auto simp: CreateSession_def Let_def split: if_splits)
    have no: "GetSession r \<noteq> Some k" if "user_at w i r" for i r
      using m that w1(2) by (force simp: mirrored_def)
    have c: "shown (newClientSession n) = empty_inventory" "shown (c\<lparr>cs_open := o1, cs_state := st\<rparr>) = shown c"
      "cs_state (newClientSession n) = ST_FREE" for n c o1 st
      by (simp_all add: shown_def newClientSession_def after_packets_def)
    have "mirrored clean w1" "mirrored clean (upd_session k (\<lambda>s. s\<lparr>cs_open := True, cs_state := ST_ALLOC\<rparr>) w1)"
      using m no w1 c by (auto simp: mirrored_def user_at_def upd_session_def Suc_le_eq)
    moreover have "mirrored clean (session_disconnect j u)" "mirrored clean (ReleaseSession j u)" if "mirrored clean u" for j u
      by (rule calm_mirrored [OF _ that]; simp add: session_disconnect_def Let_def calm_fields calm_close calm_derived)+
    ultimately show ?thesis
      using Pair Some by (simp add: io_accept_def Let_def)
  qed (use m Pair in \<open>auto simp: io_accept_def CreateSession_def Let_def split: if_splits\<close>)
qed

lemma mirrored_step:
  assumes th: "threads_ok threads" and s: "server_step threads s s'" and w: "world_ok (sv_world s)" and m: "mirrored clean (sv_world s)"
  shows "mirrored clean (sv_world s')"
  using s
proof cases
  case (logic z w1)
  then show ?thesis
    using mirrored_logic [OF _ w m, of "threads z" w1] th by (simp add: threads_ok_def)
next
  case (timer now)
  then show ?thesis
    using calm_mirrored [OF calm_fields(2) [OF calm_fields(3) [OF calm_refl]] m] by (simp add: timer_turn_def split: prod.split)
next
  case (accept attached postRecv)
  then show ?thesis
    using mirrored_accept [OF m] by simp
next
  case (recv sid postRecv received)
  have "calm (sv_world s) (sv_world s')"
    by (simp add: recv io_recv_def Let_def split_def calm_fields calm_close split: option.split)
  then show ?thesis
    by (rule calm_mirrored [OF _ m])
next
  case (failed sid)
  have "calm (sv_world s) (sv_world s')"
    by (simp add: failed io_failed_def session_disconnect_def Let_def calm_fields calm_close)
  then show ?thesis
    by (rule calm_mirrored [OF _ m])
next
  case (answer a)
  have "calm (sv_world s) (db_answer a (sv_world s))"
    by (cases a) (simp_all add: calm_fields HandleLoginFail_def calm_post)
  then show ?thesis
    using calm_mirrored [OF _ m] answer by simp
qed

lemma mirrored_boot:
  assumes "boot threads = Some w"
  shows "mirrored clean w"
proof -
  have "mirrored clean newWorld"
    by (simp add: mirrored_def newWorld_def newClientSession_def user_at_def)
  moreover have "calm newWorld w"
    by (rule calm_for_each [OF assms [unfolded boot_def] calm_refl]) (rule calm_InitForZone)
  ultimately show ?thesis
    using calm_mirrored by blast
qed

lemma mirrored_reachable:
  assumes th: "threads_ok threads" and r: "reachable threads s"
  shows "mirrored clean (sv_world s)"
  using r
proof induction
  case (start w)
  then show ?case
    by (simp add: newServer_def mirrored_boot)
next
  case (step s s')
  then show ?case
    using mirrored_step [OF th _ reachable_ok [OF th]] by blast
qed

subsection \<open>The property\<close>

text \<open>C2. A player always sees the inventory that the server keeps for it.  In every reachable state of the server, over any
  interleaving of its threads, of the network and of the database, take a player whose connection is open, and a game
  client that has handled the packets posted for this connection, at any times: every slot that the client shows has the
  item, the count and the equipped mark of the slot of the player in the server.\<close>

theorem client_mirrors_inventory:
  assumes "threads_ok threads" "reachable threads s"
    and "user_at (sv_world s) i u" "GetSession u = Some sid" "cs_open (sessions (sv_world s) sid)"
    and "length ts = length (cs_posted (sessions (sv_world s) sid))"
  shows "let bag = g_inventory (handled ts (cs_posted (sessions (sv_world s) sid)) (client_initialize loaded net)) in
    length bag = unat MAX_INVENTORY_SLOTS \<and>
    (\<forall>k. IsValidSlotIndex k \<longrightarrow> (bag ! unat k)\<lparr>sd_slotIndex := k\<rparr> = FillItemSlotData k (m_slots (subj_user u) k))"
proof -
  let ?c = "sessions (sv_world s) sid"
  have "g_inventory (client_initialize loaded net) = empty_inventory"
    by (simp add: client_initialize_def empty_inventory_def)
  then have "g_inventory (handled ts (cs_posted ?c) (client_initialize loaded net)) = shown ?c"
    using handled_inventory [OF assms(6)] by (simp add: shown_def)
  moreover have "mirror_off {} (shown ?c) (bag_of u)"
    using mirrored_reachable [OF assms(1,2)] assms(3-5) by (simp add: mirrored_def)
  ultimately show ?thesis
    by (simp add: mirror_off_def bag_of_def)
qed

theorem client_mirrors_inventory_witness:
  "\<exists>s i u ts. reachable demo_thread s \<and> user_at (sv_world s) i u \<and> cs_open (sessions (sv_world s) 0) \<and>
     (g_inventory (handled ts (cs_posted (sessions (sv_world s) 0)) (client_initialize (\<lambda>_. True) (\<lambda>_. 256))) ! 3)\<lparr>sd_slotIndex := 3\<rparr> =
     FillItemSlotData 3 (m_slots (subj_user u) 3)"
proof -
  obtain s c where r: "reachable demo_thread s" "client_of (sv_world s) 0 = Some c" "GetSession c = Some 0"
    "cs_open (sessions (sv_world s) 0)"
    using race_entered [OF demo_threads_ok] by blast
  note u = client_at [OF reachable_ok [OF demo_threads_ok r(1)] r(2)]
  have "IsValidSlotIndex 3"
    by (simp add: IsValidSlotIndex_def MAX_INVENTORY_SLOTS_def)
  with client_mirrors_inventory [OF demo_threads_ok r(1) u r(3,4), of "replicate (length (cs_posted (sessions (sv_world s) 0))) 0" "\<lambda>_. True"]
  show ?thesis
    using r(1,4) u by (fastforce simp: Let_def)
qed

end
