(* ===== verification/Startups.thy ===== *)
theory Startups
  imports DbPools Collisions Zones
begin

text \<open>
  Start-up of the server: \<^verbatim>\<open>main\<close> of \<^verbatim>\<open>GameServer.cpp\<close>, \<^verbatim>\<open>Core/ThreadManager.cpp\<close> and
  \<^verbatim>\<open>Network/SocketManager.cpp\<close>.  The answers of the operating system are the record \<open>Os\<close>; the result of a
  call whose number matters is a function of the number of calls made so far.  A thread is the function it
  runs; what the threads do is in the theories of the server.
\<close>

record Os =
  os_WSAStartup :: bool
  os_WSASocket :: "nat \<Rightarrow> uint64"
  os_WSAIoctl :: "nat \<Rightarrow> bool"
  os_bind :: "uint64 \<Rightarrow> bool"
  os_listen :: "uint64 \<Rightarrow> bool"
  os_CreateIoCompletionPort :: uint64
  os_hardware_concurrency :: uint32
  os_db_connect :: "nat \<Rightarrow> bool"

definition INVALID_SOCKET :: uint64 where "INVALID_SOCKET = -1"

subsection \<open>Threads\<close>

datatype ThreadBody =
    WorkerThread_DoWork
  | GameLogicThread_Run
  | ZoneManager_RunZone ZoneId
  | DBThread_DoDataBase nat
  | TimerThread_DoTimer

record ThreadManager =
  tm_threads :: "ThreadBody list"
  SThreadId :: uint32

definition InitTLS :: "ThreadManager \<Rightarrow> uint32 \<times> ThreadManager" where
  "InitTLS tm = (SThreadId tm, tm\<lparr>SThreadId := SThreadId tm + 1\<rparr>)"

text \<open>The constructor gives the main thread the first identifier.\<close>

definition newThreadManager :: ThreadManager where
  "newThreadManager = snd (InitTLS \<lparr>tm_threads = [], SThreadId = 1\<rparr>)"

definition Launch :: "ThreadBody \<Rightarrow> ThreadManager \<Rightarrow> ThreadManager" where
  "Launch callback tm = tm\<lparr>tm_threads := tm_threads tm @ [callback]\<rparr>"

definition launch_all :: "uint32 \<Rightarrow> ThreadManager \<Rightarrow> ThreadManager" where
  "launch_all workerCount tm =
     (let tm = ((Launch WorkerThread_DoWork) ^^ unat (workerCount * 2)) tm;
          tm = Launch GameLogicThread_Run tm;
          tm = fold (\<lambda>zoneId. Launch (ZoneManager_RunZone zoneId)) (map word_of_nat [0..<nat ZoneCount]) tm;
          tm = fold (\<lambda>shardIndex. Launch (DBThread_DoDataBase shardIndex)) [0..<kShardCount] tm
      in Launch TimerThread_DoTimer tm)"

subsection \<open>Sockets\<close>

record SocketManager =
  gListenSocket :: uint64
  GClientSocket :: uint64
  gHandle :: uint64
  ConnectEx :: bool
  DisconnectEx :: bool
  AcceptEx :: bool
  sm_sockets :: nat
  sm_ioctls :: nat
  sm_listening :: bool
  sm_accepts :: "uint64 list"

definition newSocketManager :: SocketManager where
  "newSocketManager = \<lparr>gListenSocket = 0, GClientSocket = 0, gHandle = 0, ConnectEx = False, DisconnectEx = False,
     AcceptEx = False, sm_sockets = 0, sm_ioctls = 0, sm_listening = False, sm_accepts = []\<rparr>"

definition CreateSocket :: "Os \<Rightarrow> SocketManager \<Rightarrow> uint64 \<times> SocketManager" where
  "CreateSocket os sm = (os_WSASocket os (sm_sockets sm), sm\<lparr>sm_sockets := sm_sockets sm + 1\<rparr>)"

definition BindWindowsFunction :: "Os \<Rightarrow> SocketManager \<Rightarrow> bool \<times> SocketManager" where
  "BindWindowsFunction os sm = (os_WSAIoctl os (sm_ioctls sm), sm\<lparr>sm_ioctls := sm_ioctls sm + 1\<rparr>)"

text \<open>\<^verbatim>\<open>Close\<close> also forgets the socket, which is a local variable here.\<close>

definition Init :: "Os \<Rightarrow> SocketManager \<Rightarrow> SocketManager option" where
  "Init os sm = do {
     ASSERT_CRASH (os_WSAStartup os);
     let (dummySocket, sm) = CreateSocket os sm;
     let (b, sm) = BindWindowsFunction os sm;
     ASSERT_CRASH b;
     let sm = sm\<lparr>ConnectEx := True\<rparr>;
     let (b, sm) = BindWindowsFunction os sm;
     ASSERT_CRASH b;
     let sm = sm\<lparr>DisconnectEx := True\<rparr>;
     let (b, sm) = BindWindowsFunction os sm;
     ASSERT_CRASH b;
     Some (sm\<lparr>AcceptEx := True\<rparr>) }"

definition MakeListenSocket :: "Os \<Rightarrow> SocketManager \<Rightarrow> bool \<times> SocketManager" where
  "MakeListenSocket os sm = (let (s, sm) = CreateSocket os sm in (True, sm\<lparr>gListenSocket := s\<rparr>))"

definition Bind :: "Os \<Rightarrow> SocketManager \<Rightarrow> bool" where
  "Bind os sm = (if gListenSocket sm = 0 then False else if \<not> os_bind os (gListenSocket sm) then False else True)"

definition Listen :: "Os \<Rightarrow> SocketManager \<Rightarrow> bool \<times> SocketManager" where
  "Listen os sm =
     (if gListenSocket sm = 0 then (False, sm)
      else if \<not> os_listen os (gListenSocket sm) then (False, sm)
      else (True, sm\<lparr>sm_listening := True\<rparr>))"

text \<open>A call of \<^verbatim>\<open>AcceptEx\<close> before it is bound calls a null pointer.\<close>

definition CreateIocpHandle :: "Os \<Rightarrow> SocketManager \<Rightarrow> (bool \<times> SocketManager) option" where
  "CreateIocpHandle os sm =
     (let sm = sm\<lparr>gHandle := os_CreateIoCompletionPort os\<rparr>;
          (s, sm) = CreateSocket os sm;
          sm = sm\<lparr>GClientSocket := s\<rparr>
      in if \<not> AcceptEx sm then None
         else Some (True, sm\<lparr>sm_accepts := sm_accepts sm @ [GClientSocket sm]\<rparr>))"

subsection \<open>The main function\<close>

record Program =
  pg_sockets :: SocketManager
  pg_collision :: CollisionTable
  pg_pool :: DBConnectionPool
  pg_threads :: ThreadManager

definition main :: "Os \<Rightarrow> Program option" where
  "main os = do {
     sm \<leftarrow> Init os newSocketManager;
     let (_, sm) = MakeListenSocket os sm;
     let _ = Bind os sm;
     let (_, sm) = Listen os sm;
     (_, sm) \<leftarrow> CreateIocpHandle os sm;
     let collision = InitCollisionTile (\<lambda>_ _. False);
     let pool = main_Connect (os_db_connect os);
     let tm = launch_all (os_hardware_concurrency os) newThreadManager;
     Some \<lparr>pg_sockets = sm, pg_collision = collision, pg_pool = pool, pg_threads = tm\<rparr> }"

subsection \<open>What is started\<close>

lemma launch_power: "tm_threads ((Launch b ^^ n) tm) = tm_threads tm @ replicate n b"
  by (induction n) (simp_all add: Launch_def replicate_append_same)

lemma launch_fold: "tm_threads (fold (\<lambda>x. Launch (f x)) xs tm) = tm_threads tm @ map f xs"
  by (induction xs arbitrary: tm) (simp_all add: Launch_def)

lemma launched:
  "tm_threads (launch_all n newThreadManager) =
     replicate (unat (n * 2)) WorkerThread_DoWork @ [GameLogicThread_Run] @
     map ZoneManager_RunZone (map word_of_nat [0..<16]) @ map DBThread_DoDataBase [0..<kShardCount] @ [TimerThread_DoTimer]"
  by (simp add: launch_all_def Let_def Launch_def launch_power launch_fold newThreadManager_def InitTLS_def zone_consts o_def)

lemma count_replicate: "count_list (replicate n x) y = (if x = y then n else 0)"
  by (induction n) auto

lemma count_distinct: "distinct xs \<Longrightarrow> count_list xs x = (if x \<in> set xs then 1 else 0)"
  by (induction xs) auto

lemma zone_bodies:
  "distinct (map ZoneManager_RunZone (map word_of_nat [0..<16]))"
  "ZoneManager_RunZone z \<in> set (map ZoneManager_RunZone (map word_of_nat [0..<16])) \<longleftrightarrow> IsValidZoneId z"
proof -
  have "inj_on (word_of_nat :: nat \<Rightarrow> ZoneId) {0..<16}"
    by (rule inj_on_inverseI [of _ unat]) (simp add: unat_of_nat)
  then show "distinct (map ZoneManager_RunZone (map word_of_nat [0..<16]))"
    by (simp add: distinct_map comp_inj_on inj_on_def)
  have "z \<in> word_of_nat ` {0..<16}" if "unat z < 16"
    using that by (intro image_eqI [of _ _ "unat z"]) simp_all
  moreover have "unat (word_of_nat k :: ZoneId) < 16" if "k < 16" for k
    using that by (simp add: unat_of_nat)
  ultimately show "ZoneManager_RunZone z \<in> set (map ZoneManager_RunZone (map word_of_nat [0..<16])) \<longleftrightarrow> IsValidZoneId z"
    by (auto simp: IsValidZoneId_unat)
qed

lemma threads_counted:
  fixes n :: uint32
  defines "ts \<equiv> tm_threads (launch_all n newThreadManager)"
  shows "count_list ts (ZoneManager_RunZone z) = (if IsValidZoneId z then 1 else 0)"
    "count_list ts (DBThread_DoDataBase k) = (if k < kShardCount then 1 else 0)"
    "count_list ts GameLogicThread_Run = 1" "count_list ts TimerThread_DoTimer = 1"
    "count_list ts WorkerThread_DoWork = unat (n * 2)"
  using count_distinct [OF zone_bodies(1), of "ZoneManager_RunZone z"] zone_bodies(2) [of z]
    count_distinct [of "map DBThread_DoDataBase [0..<kShardCount]" "DBThread_DoDataBase k"]
  by (auto simp: ts_def launched count_replicate distinct_map inj_on_def count_list_0_iff)

lemma main_result:
  "main os = (if os_WSAStartup os \<and> os_WSAIoctl os 0 \<and> os_WSAIoctl os 1 \<and> os_WSAIoctl os 2
     then Some \<lparr>pg_sockets = \<lparr>gListenSocket = os_WSASocket os 1, GClientSocket = os_WSASocket os 2,
              gHandle = os_CreateIoCompletionPort os, ConnectEx = True, DisconnectEx = True, AcceptEx = True,
              sm_sockets = 3, sm_ioctls = 3,
              sm_listening = (os_WSASocket os 1 \<noteq> 0 \<and> os_listen os (os_WSASocket os 1)), sm_accepts = [os_WSASocket os 2]\<rparr>,
            pg_collision = GCollision, pg_pool = main_Connect (os_db_connect os),
            pg_threads = launch_all (os_hardware_concurrency os) newThreadManager\<rparr>
     else None)"
  by (simp add: main_def Init_def MakeListenSocket_def Listen_def CreateIocpHandle_def CreateSocket_def BindWindowsFunction_def
      newSocketManager_def GCollision_def ASSERT_CRASH_def numeral_2_eq_2 numeral_3_eq_3 split_def Let_def)

text \<open>C40. Start-up fails exactly when the socket library or one of its three extension functions is missing.
  Otherwise it starts one thread for every zone, one for every shard of the database, one default logic thread, one
  timer thread and twice as many worker threads as the machine reports processors, fills the collision map and posts
  one accept; it does so also when the port could not be bound, when listening failed and when no database connection
  could be opened.\<close>

theorem server_start_up:
  "(main os = None \<longleftrightarrow> \<not> (os_WSAStartup os \<and> os_WSAIoctl os 0 \<and> os_WSAIoctl os 1 \<and> os_WSAIoctl os 2)) \<and>
   (\<forall>pg. main os = Some pg \<longrightarrow>
      (\<forall>z. count_list (tm_threads (pg_threads pg)) (ZoneManager_RunZone z) = (if IsValidZoneId z then 1 else 0)) \<and>
      (\<forall>k. count_list (tm_threads (pg_threads pg)) (DBThread_DoDataBase k) = (if k < kShardCount then 1 else 0)) \<and>
      count_list (tm_threads (pg_threads pg)) GameLogicThread_Run = 1 \<and>
      count_list (tm_threads (pg_threads pg)) TimerThread_DoTimer = 1 \<and>
      count_list (tm_threads (pg_threads pg)) WorkerThread_DoWork = unat (os_hardware_concurrency os * 2) \<and>
      pg_collision pg = GCollision \<and> length (sm_accepts (pg_sockets pg)) = 1 \<and>
      (sm_listening (pg_sockets pg) \<longleftrightarrow> os_WSASocket os 1 \<noteq> 0 \<and> os_listen os (os_WSASocket os 1)))"
  using threads_counted [of "os_hardware_concurrency os"] by (auto simp: main_result)

theorem server_start_up_witness:
  "\<exists>pg. main \<lparr>os_WSAStartup = True, os_WSASocket = (\<lambda>_. INVALID_SOCKET), os_WSAIoctl = (\<lambda>_. True), os_bind = (\<lambda>_. False),
       os_listen = (\<lambda>_. False), os_CreateIoCompletionPort = 7, os_hardware_concurrency = 0, os_db_connect = (\<lambda>_. False)\<rparr> = Some pg \<and>
     count_list (tm_threads (pg_threads pg)) (ZoneManager_RunZone 3) = 1 \<and>
     count_list (tm_threads (pg_threads pg)) WorkerThread_DoWork = 0 \<and> \<not> sm_listening (pg_sockets pg)"
proof -
  let ?os = "\<lparr>os_WSAStartup = True, os_WSASocket = (\<lambda>_. INVALID_SOCKET), os_WSAIoctl = (\<lambda>_. True), os_bind = (\<lambda>_. False),
       os_listen = (\<lambda>_. False), os_CreateIoCompletionPort = 7, os_hardware_concurrency = 0, os_db_connect = (\<lambda>_. False)\<rparr>"
  obtain pg where pg: "main ?os = Some pg"
    using server_start_up [of ?os] by fastforce
  moreover have "IsValidZoneId 3"
    by (simp add: IsValidZoneId_unat)
  ultimately show ?thesis
    using server_start_up [of ?os] by simp
qed

end
