(* ===== verification/Spec2Isabelle.thy ===== *)
theory Spec2Isabelle
  imports InventoryProps SpaceProps NetworkProps PathProps WorldProps ZoneProps LootProps SessionProps DbPools
    BotProps ClientProps MirrorProps Startups
begin

text \<open>
  Verification of the MMORPG repository: the game server (\<^verbatim>\<open>src/GameServer\<close>), the game client
  (\<^verbatim>\<open>src/Client\<close>) and the load generator (\<^verbatim>\<open>src/STRESS_TEST\<close>).  The server is a Windows program with an
  I/O completion port, sixteen zone threads, a default logic thread, a timer thread and eight
  database threads.

  \<^bold>\<open>The program.\<close>  Worker threads take completions from the port: they accept connections, cut the byte
  stream of a connection into packets, queue each packet as a task for the zone in which its player
  stands, and complete sends.  A zone thread owns a quarter of a quarter of the map (500 by 500
  tiles): it runs its tasks one after the other, and only it touches its grid, its players, its
  monsters and its items.  The timer thread queues tasks that are due.  The database threads run
  stored procedures and queue the answers of logins.  A player that walks over a zone border is
  handed from one zone thread to the other by a task.

  \<^bold>\<open>Data and arithmetic.\<close>
  \<^item> \<open>Prelude\<close>: the integer types of \<^verbatim>\<open>pch.h\<close> (unsigned ones as words, \<^verbatim>\<open>short\<close> and \<^verbatim>\<open>int\<close> as
    integers with the narrowing written out), \<^verbatim>\<open>ASSERT_CRASH\<close> as the failure of the option type.
  \<^item> \<open>ObjIds\<close> (\<^verbatim>\<open>ObjID/\<close>), \<open>ZoneLayouts\<close> (\<^verbatim>\<open>Zone/ZoneLayout.h\<close>), \<open>Collisions\<close> (\<^verbatim>\<open>Area/Collision.cpp\<close>,
    the step of \<^verbatim>\<open>SubjectHelper\<close>), \<open>Stats\<close> (\<^verbatim>\<open>Stat/\<close>), \<open>Items\<close> (item table, items, drop table).

  \<^bold>\<open>Inventory and persistence.\<close>
  \<^item> \<open>Inventories\<close>: every method of \<^verbatim>\<open>Item/Inventory.cpp\<close>.  \<open>InventoryInvariants\<close>, \<open>InventoryAdd\<close> and
    \<open>InventoryOps\<close> prove its invariant and its behaviour inside the locale \<open>slot_iteration\<close>, whose
    assumptions are what the language says of a loop over an unordered map.
  \<^item> \<open>DbTypes\<close>, \<open>DbProcs\<close> (\<^verbatim>\<open>Core/DBConnection.cpp\<close>, \<^verbatim>\<open>Database/setup.sql\<close>), \<open>EventQueues\<close>
    (\<^verbatim>\<open>std::priority_queue\<close>, locale \<open>event_compare\<close>), \<open>DbThreads\<close> (\<^verbatim>\<open>Thread/DBThread.cpp\<close>), \<open>DbPools\<close>
    (\<^verbatim>\<open>Core/DBConnectionPool.cpp\<close>, locale \<open>resource_pool\<close>).  \<open>DbOrder\<close>: under every interleaving, and
    whatever connections and statements fail, the requests of a player are processed in the order of issue, and
    his rows are the replay of the writes that took effect.
  \<^item> \<open>InventoryProps\<close>: the properties, down to the rows of the database being the slots of the player wherever
    no last write was lost.

  \<^bold>\<open>Space, time and queues.\<close>
  \<^item> \<open>Sectors\<close> (\<^verbatim>\<open>Area/Sector.cpp\<close>, locale \<open>set_traversal\<close>), \<open>Zones\<close> (\<^verbatim>\<open>Thread/GameLogicThread.cpp\<close>,
    \<^verbatim>\<open>Zone/ZoneManager.cpp\<close>, locale \<open>task_queue\<close>), \<open>Timers\<close> (\<^verbatim>\<open>Thread/TimerThread.cpp\<close>), \<open>AStars\<close>
    (\<^verbatim>\<open>Area/AStar.cpp\<close>, locale \<open>open_set\<close>).  Properties in \<open>SpaceProps\<close> and \<open>PathProps\<close>: the sector
    scan is complete, every timer event reaches the task queue of its zone once and not early, the search returns
    shortest paths.

  \<^bold>\<open>Network.\<close>
  \<^item> \<open>Protocols\<close> (\<^verbatim>\<open>Protocol.h\<close>), \<open>Sessions\<close> (send queue of \<^verbatim>\<open>Network/GameSession.cpp\<close>), \<open>Framing\<close> (the
    receive branch of \<^verbatim>\<open>Thread/WorkerThread.cpp\<close>).  \<open>NetworkProps\<close>: bytes sent are the packets posted,
    packets received are the packets sent, whatever the operating system does to the chunks.

  \<^bold>\<open>The game.\<close>
  \<^item> \<open>Subjects\<close> (\<^verbatim>\<open>Subject/\<close>, \<^verbatim>\<open>User/User.h\<close>, \<^verbatim>\<open>Monster/Monster.h\<close>, \<^verbatim>\<open>Transform/\<close>), \<open>Worlds\<close> (object table,
    session table, and the record \<open>Thread\<close> of what a thread reads from outside: the clocks, the random
    numbers, the traversal orders), \<open>Sends\<close> (the packet builders), \<open>Movements\<close>
    (\<^verbatim>\<open>Area/SectorHelper.cpp\<close>), \<open>FieldItems\<close> (\<^verbatim>\<open>Item/ItemHelper.cpp\<close>), \<open>UserHandlers\<close>
    (\<^verbatim>\<open>User/UserHelper.cpp\<close>, \<^verbatim>\<open>WorkerThread::Disconnect\<close>), \<open>MonsterAIs\<close> (\<^verbatim>\<open>Monster/MonsterHelper.cpp\<close>),
    \<open>Routes\<close> (\<^verbatim>\<open>Route/Route.cpp\<close> and the tasks a logic thread runs).
  \<^item> \<open>Servers\<close>: the turns of all threads as functions on one state, and the placement of the monsters before them.
    \<open>Startups\<close>: \<^verbatim>\<open>main\<close>, \<^verbatim>\<open>Core/ThreadManager.cpp\<close> and \<^verbatim>\<open>Network/SocketManager.cpp\<close>, with the answers of the
    operating system as arguments: which threads are started, and what start-up notices.
  \<^item> \<open>WorldInvs\<close>, \<open>InventoryCalls\<close>, \<open>WorldSafety\<close>, \<open>UserSafety\<close>, \<open>TaskSafety\<close>: every handler, run by a zone
    thread, returns and keeps the invariant \<open>world_ok\<close>; the proofs are in a small calculus of
    preconditions (\<open>wp\<close>).  \<open>DefaultThread\<close> is the same for the thread without a grid, where a handler
    may fail.  \<open>ServerSafety\<close> lifts both to the reachable states of the step relation \<open>server_step\<close>.
  \<^item> \<open>Placement\<close>, \<open>WorldFrames\<close>, \<open>Boots\<close>, \<open>LoginRace\<close>: where an object is, what a notification leaves
    alone, the placement of the monsters, and a run that ends in a crash.
  \<^item> \<open>WorldProps\<close>, \<open>ZoneProps\<close>, \<open>LootProps\<close>, \<open>SessionProps\<close>: the properties.  \<open>DemoWorld\<close> gives concrete
    threads that satisfy all assumptions; every property with hypotheses is applied there.

  \<^bold>\<open>The programs at the other end.\<close>
  \<^item> \<open>Streams\<close>: the locale \<open>packet_stream\<close> of an encoding whose packets can be cut from a stream, and its
    extension \<open>packet_receiver\<close>, the contract of a program that reads packets from chunks.  Both programs
    below are interpretations.  \<open>ServerReads\<close>: the packets of the server read back from their bytes.
  \<^item> \<open>Bots\<close>, \<open>BotControl\<close> (\<^verbatim>\<open>STRESS_TEST/STRESS_TEST/NetworkModule.cpp\<close>): the simulated players and the
    controller of their number.  \<open>BotThreads\<close>: the locale \<open>thread_relation\<close>, the contract of a relation that all turns
    of the threads are in.  \<open>BotCounts\<close> interprets it for runs of \<open>race_step\<close>, which interleaves the single accesses
    of the threads to the shared counters, and proves the invariant of the counters; \<open>BotLimits\<close> interprets it for the
    variables of the controller.  \<open>BotFraming\<close> is the interpretation of \<open>packet_receiver\<close>, \<open>BotScenario\<close> a run from the
    start that sets a ceiling, \<open>BotProps\<close> the properties.
  \<^item> \<open>Clients\<close>, \<open>ClientInput\<close> (\<^verbatim>\<open>Client/client.cpp\<close>): the packet switch, the objects, the inventory, one frame,
    keys, clicks and chat commands, and the socket that takes a beginning of each packet it is given.  \<open>ClientFraming\<close> interprets \<open>packet_receiver\<close>, \<open>ClientSafety\<close> is the
    invariant of the reachable client states, \<open>ClientProps\<close> the properties, from the send queue of the server to
    the state of the client and back.
  \<^item> \<open>Mirrors\<close>, \<open>MirrorFrames\<close>, \<open>MirrorSteps\<close>, \<open>MirrorProps\<close>: the inventory a client shows after the packets that were posted
    for it is that of the server.  \<open>calm\<close> is what every handler does that has nothing to do with items; the handlers
    of items make slots dirty and report them; the agreement is an invariant of \<open>server_step\<close>.

  \<^bold>\<open>Assumptions.\<close>  \<open>thread_ok\<close>: traversals of hash containers visit every element once; draws of
  a distribution stay in its range; a thread that keeps drawing tiles finally draws each tile of its
  zone (\<open>fair_tiles\<close>), which makes the retry loops end; the priority queue returns a cheapest node.
  \<open>answer_ok\<close>: a login answer carries rows that the stored procedures could have stored
  (it says nothing of other sessions of the same account).  \<open>ids_left\<close>: the
  64-bit counter of the dropped items has not run out.

  \<^bold>\<open>Loops.\<close>  No definition uses fuel.  The path search and the random placement are partial functions
  with value \<open>None\<close> when they do not return; that they return is proved, for the search, for every handler and for start-up.
  The receive loop of the game client is a partial function too: it returns on every stream of packets and does not
  on a packet of size zero, and both are proved.

  \<^bold>\<open>Abstractions.\<close>  A turn of a thread of the server is atomic: the members two threads share are behind queues and
  locks.  The load generator has no lock on its clients, and there \<open>race_step\<close> is finer than a turn: it mixes the
  accesses to the flag of a client, to the number of active clients and to the two tables; the other members of a
  client change in one step.  Zone threads place their monsters before any other step.  The answers of the database are
  steps of the server that follow a request; the database threads themselves are the separate
  system of \<open>DbOrder\<close>.  Console output, the lock-free list of the job pool (a list here) and the debug
  checks of the debug build are left out.

  \<^bold>\<open>Not modelled.\<close>  The ODBC calls of \<^verbatim>\<open>Core/DBConnection.cpp\<close> are calls of a driver; their results are
  arguments.  The crash log of \<^verbatim>\<open>GameServer.cpp\<close> writes files, and \<^verbatim>\<open>ThreadManager::Join\<close> only waits.  Of
  the game client the drawing, the textures, the camera, the smooth positions between two tiles and the life of
  damage numbers are left out, of the load generator the statistics window (\<^verbatim>\<open>DrawModule.cpp\<close>).
\<close>

end
